(* ===== verification/Prelude.thy ===== *)
theory Prelude
  imports Main "HOL-Library.Word" "HOL-Library.Monad_Syntax"
begin

text \<open>
  Shared vocabulary of the development: machine integers at the widths of the Rust source,
  byte strings, little-endian conversion, and reads of a byte slice that panic when they are
  out of range.

  A computation that may panic has type \<open>'a outcome\<close>: \<^term>\<open>None\<close> is the panic,
  \<open>Some r\<close> a normal return of \<open>r\<close>. A Rust function of type \<open>Option<T>\<close> is then modelled
  at type \<open>'a option outcome\<close>, and the three results (a panic, the value \<open>None\<close>, the value
  \<open>Some x\<close>) stay apart. The lemmas at the end carry the two proof styles used on the wire
  codecs: reading back what was written (collection \<open>wire\<close>) and absence of panics
  (collection \<open>safe\<close>).
\<close>

unbundle bit_operations_syntax

named_theorems wire \<open>reads of a byte string at an offset behind a known prefix\<close>
named_theorems safe \<open>introduction rules for the absence of panics\<close>
named_theorems returns \<open>inversion of a fallible computation that returned a value\<close>

section \<open>Machine integers, byte strings, outcomes\<close>

type_synonym u8 = "8 word"
type_synonym u16 = "16 word"
type_synonym u32 = "32 word"
type_synonym u64 = "64 word"
type_synonym i8 = "8 word"
type_synonym bytes = "u8 list"
type_synonym 'a outcome = "'a option"

abbreviation (input) panic :: "'a outcome" where
  "panic \<equiv> None"

abbreviation (input) ret :: "'a \<Rightarrow> 'a outcome" where
  "ret x \<equiv> Some x"

definition sat_add :: "'a::len word \<Rightarrow> 'a word \<Rightarrow> 'a word" where
  "sat_add a b = (if unat a + unat b < 2 ^ LENGTH('a) then a + b else - 1)"

definition sat_sub :: "'a::len word \<Rightarrow> 'a word \<Rightarrow> 'a word" where
  "sat_sub a b = (if b \<le> a then a - b else 0)"

definition usize_add :: "nat \<Rightarrow> nat \<Rightarrow> nat \<Rightarrow> nat" where
  "usize_add w a b = (a + b) mod 2 ^ w"

definition usize_mul :: "nat \<Rightarrow> nat \<Rightarrow> nat \<Rightarrow> nat" where
  "usize_mul w a b = (a * b) mod 2 ^ w"

section \<open>Iterator maxima and minima\<close>

text \<open>\<open>max_by_key\<close> keeps the last of several maxima, \<open>min_by_key\<close> the first of several minima.\<close>

fun max_by_key :: "('a \<Rightarrow> 'b::linorder) \<Rightarrow> 'a list \<Rightarrow> 'a option" where
  "max_by_key key [] = None"
| "max_by_key key (x # xs) = Some (foldl (\<lambda>m y. if key m \<le> key y then y else m) x xs)"

fun min_by_key :: "('a \<Rightarrow> 'b::linorder) \<Rightarrow> 'a list \<Rightarrow> 'a option" where
  "min_by_key key [] = None"
| "min_by_key key (x # xs) = Some (foldl (\<lambda>m y. if key y < key m then y else m) x xs)"

section \<open>Little-endian conversion\<close>

definition to_le :: "nat \<Rightarrow> 'a::len word \<Rightarrow> bytes" where
  "to_le n w = map (\<lambda>i. ucast (drop_bit (8 * i) w)) [0..<n]"

primrec from_le :: "bytes \<Rightarrow> 'a::len word" where
  "from_le [] = 0"
| "from_le (b # bs) = ucast b OR push_bit 8 (from_le bs)"

abbreviation le16 :: "u16 \<Rightarrow> bytes" where
  "le16 w \<equiv> to_le 2 w"

abbreviation le32 :: "u32 \<Rightarrow> bytes" where
  "le32 w \<equiv> to_le 4 w"

abbreviation le64 :: "u64 \<Rightarrow> bytes" where
  "le64 w \<equiv> to_le 8 w"

section \<open>Reads of a slice\<close>

definition read_u8 :: "bytes \<Rightarrow> nat \<Rightarrow> u8 outcome" where
  "read_u8 data i = (if i < length data then ret (data ! i) else panic)"

definition read_le :: "nat \<Rightarrow> bytes \<Rightarrow> nat \<Rightarrow> 'a::len word outcome" where
  "read_le n data i =
     (if i + n \<le> length data then ret (from_le (take n (drop i data))) else panic)"

definition read_u16 :: "bytes \<Rightarrow> nat \<Rightarrow> u16 outcome" where
  "read_u16 data i = read_le 2 data i"

definition read_u32 :: "bytes \<Rightarrow> nat \<Rightarrow> u32 outcome" where
  "read_u32 data i = read_le 4 data i"

definition read_u64 :: "bytes \<Rightarrow> nat \<Rightarrow> u64 outcome" where
  "read_u64 data i = read_le 8 data i"

definition slice :: "bytes \<Rightarrow> nat \<Rightarrow> nat \<Rightarrow> bytes outcome" where
  "slice data a b =
     (if a \<le> b \<and> b \<le> length data then ret (take (b - a) (drop a data)) else panic)"

definition slice_from :: "bytes \<Rightarrow> nat \<Rightarrow> bytes outcome" where
  "slice_from data a = (if a \<le> length data then ret (drop a data) else panic)"

definition no_panic :: "'a outcome \<Rightarrow> bool" where
  "no_panic m \<longleftrightarrow> m \<noteq> panic"

section \<open>Lemmas on little-endian conversion\<close>

lemma length_to_le [simp]: "length (to_le n w) = n"
  by (simp add: to_le_def)

lemma to_le_neq_Nil [simp]: "0 < n \<Longrightarrow> to_le n w \<noteq> []"
  using length_to_le [of n w] by fastforce

lemma bit_from_le:
  "bit (from_le bs :: 'a::len word) i \<longleftrightarrow>
     i < LENGTH('a) \<and> i div 8 < length bs \<and> bit (bs ! (i div 8)) (i mod 8)"
proof (induction bs arbitrary: i)
  case Nil
  then show ?case by simp
next
  case (Cons b bs)
  show ?case
  proof (cases "i < 8")
    case True
    then show ?thesis
      by (auto simp: bit_or_iff bit_ucast_iff bit_push_bit_iff dest: bit_imp_le_length)
  next
    case False
    then obtain j where j: "i = 8 + j" by (metis le_add_diff_inverse not_less)
    have "\<not> bit b i" using False by (auto dest: bit_imp_le_length)
    then show ?thesis using Cons.IH [of j] j
      by (auto simp: bit_or_iff bit_ucast_iff bit_push_bit_iff nth_Cons' div_add1_eq
          intro: bit_imp_le_length)
  qed
qed

lemma bit_to_le:
  "k < n \<Longrightarrow> bit (to_le n w ! k) i \<longleftrightarrow> i < 8 \<and> bit w (8 * k + i)"
  by (auto simp: to_le_def bit_ucast_iff bit_drop_bit_eq)

lemma from_le_to_le:
  assumes "LENGTH('a) \<le> 8 * n"
  shows "from_le (to_le n w) = (w :: 'a::len word)"
proof (rule bit_word_eqI)
  fix i assume i: "i < LENGTH('a)"
  then have "i div 8 < n" using assms by auto
  then show "bit (from_le (to_le n w) :: 'a word) i \<longleftrightarrow> bit w i"
    using i by (simp add: bit_from_le bit_to_le)
qed

lemma to_le_from_le:
  assumes "8 * length bs \<le> LENGTH('a)"
  shows "to_le (length bs) (from_le bs :: 'a::len word) = bs"
proof (rule nth_equalityI)
  fix k assume "k < length (to_le (length bs) (from_le bs :: 'a word))"
  then have k: "k < length bs" by simp
  show "to_le (length bs) (from_le bs :: 'a word) ! k = bs ! k"
  proof (rule bit_word_eqI)
    fix i assume "i < LENGTH(8)"
    then have i: "i < 8" by simp
    then have "8 * k + i < 8 * length bs" using k by linarith
    then show "bit (to_le (length bs) (from_le bs :: 'a word) ! k) i \<longleftrightarrow> bit (bs ! k) i"
      using k i assms by (simp add: bit_to_le bit_from_le div_add1_eq)
  qed
qed simp

section \<open>Reading back what was written\<close>

lemma read_u8_append [wire]: "length xs \<le> i \<Longrightarrow> read_u8 (xs @ ys) i = read_u8 ys (i - length xs)"
  by (auto simp: read_u8_def nth_append)

lemma read_u8_Cons [wire]: "0 < i \<Longrightarrow> read_u8 (x # ys) i = read_u8 ys (i - 1)"
  by (cases i) (auto simp: read_u8_def)

lemma read_u8_hd [wire]: "read_u8 (x # ys) 0 = ret x"
  by (simp add: read_u8_def)

lemma read_le_append: "length xs \<le> i \<Longrightarrow> read_le n (xs @ ys) i = read_le n ys (i - length xs)"
  by (auto simp: read_le_def)

lemma read_le_Cons: "0 < i \<Longrightarrow> read_le n (x # ys) i = read_le n ys (i - 1)"
  by (cases i) (auto simp: read_le_def)

lemma read_le_to_le:
  "LENGTH('a) \<le> 8 * n \<Longrightarrow> read_le n (to_le n w @ ys) 0 = ret (w :: 'a::len word)"
  by (simp add: read_le_def from_le_to_le)

lemma read_le_to_le_end:
  "LENGTH('a) \<le> 8 * n \<Longrightarrow> read_le n (to_le n w) 0 = ret (w :: 'a::len word)"
  by (simp add: read_le_def from_le_to_le)

lemma read_u16_wire [wire]:
  "length xs \<le> i \<Longrightarrow> read_u16 (xs @ ys) i = read_u16 ys (i - length xs)"
  "0 < i \<Longrightarrow> read_u16 (x # ys) i = read_u16 ys (i - 1)"
  "read_u16 (le16 w @ ys) 0 = ret w"
  "read_u16 (le16 w) 0 = ret w"
  by (simp_all add: read_u16_def read_le_append read_le_Cons read_le_to_le read_le_to_le_end)

lemma read_u32_wire [wire]:
  "length xs \<le> i \<Longrightarrow> read_u32 (xs @ ys) i = read_u32 ys (i - length xs)"
  "0 < i \<Longrightarrow> read_u32 (x # ys) i = read_u32 ys (i - 1)"
  "read_u32 (le32 w @ ys) 0 = ret w"
  "read_u32 (le32 w) 0 = ret w"
  by (simp_all add: read_u32_def read_le_append read_le_Cons read_le_to_le read_le_to_le_end)

lemma read_u64_wire [wire]:
  "length xs \<le> i \<Longrightarrow> read_u64 (xs @ ys) i = read_u64 ys (i - length xs)"
  "0 < i \<Longrightarrow> read_u64 (x # ys) i = read_u64 ys (i - 1)"
  "read_u64 (le64 w @ ys) 0 = ret w"
  "read_u64 (le64 w) 0 = ret w"
  by (simp_all add: read_u64_def read_le_append read_le_Cons read_le_to_le read_le_to_le_end)

lemma slice_append [wire]:
  "length xs \<le> a \<Longrightarrow> a \<le> b \<Longrightarrow> slice (xs @ ys) a b = slice ys (a - length xs) (b - length xs)"
  by (auto simp: slice_def)

lemma slice_Cons [wire]: "0 < a \<Longrightarrow> a \<le> b \<Longrightarrow> slice (x # ys) a b = slice ys (a - 1) (b - 1)"
  by (cases a; cases b) (auto simp: slice_def)

lemma slice_prefix [wire]: "length xs = b \<Longrightarrow> slice (xs @ ys) 0 b = ret xs"
  by (auto simp: slice_def)

lemma slice_all [wire]: "length xs = b \<Longrightarrow> slice xs 0 b = ret xs"
  by (auto simp: slice_def)

lemma slice_from_append [wire]:
  "length xs \<le> a \<Longrightarrow> slice_from (xs @ ys) a = slice_from ys (a - length xs)"
  by (auto simp: slice_from_def)

lemma slice_from_Cons [wire]: "0 < a \<Longrightarrow> slice_from (x # ys) a = slice_from ys (a - 1)"
  by (cases a) (auto simp: slice_from_def)

lemma slice_from_0 [wire]: "slice_from xs 0 = ret xs"
  by (simp add: slice_from_def)

section \<open>Absence of panics\<close>

lemma no_panic_ret [safe, simp]: "no_panic (ret x)"
  by (simp add: no_panic_def)

lemma no_panic_ex: "no_panic m \<longleftrightarrow> (\<exists>x. m = ret x)"
  by (simp add: no_panic_def)

lemma no_panic_bind [safe]:
  "no_panic m \<Longrightarrow> (\<And>x. m = ret x \<Longrightarrow> no_panic (f x)) \<Longrightarrow> no_panic (m \<bind> f)"
  by (auto simp: no_panic_def bind_eq_None_conv)

lemma no_panic_if [safe]:
  "(c \<Longrightarrow> no_panic a) \<Longrightarrow> (\<not> c \<Longrightarrow> no_panic b) \<Longrightarrow> no_panic (if c then a else b)"
  by simp

lemma no_panic_case_option [safe]:
  "(r = None \<Longrightarrow> no_panic a) \<Longrightarrow> (\<And>x. r = Some x \<Longrightarrow> no_panic (f x)) \<Longrightarrow>
   no_panic (case r of None \<Rightarrow> a | Some x \<Rightarrow> f x)"
  by (cases r) auto

lemma no_panic_case_prod [safe]:
  "(\<And>x y. p = (x, y) \<Longrightarrow> no_panic (f x y)) \<Longrightarrow> no_panic (case p of (x, y) \<Rightarrow> f x y)"
  by (cases p) auto

lemma no_panic_Let [safe]: "(\<And>x. x = v \<Longrightarrow> no_panic (f x)) \<Longrightarrow> no_panic (let x = v in f x)"
  by simp

lemma no_panic_read_u8 [safe]: "i < length data \<Longrightarrow> no_panic (read_u8 data i)"
  by (simp add: read_u8_def)

lemma no_panic_read_u16 [safe]: "i + 2 \<le> length data \<Longrightarrow> no_panic (read_u16 data i)"
  by (simp add: read_u16_def read_le_def)

lemma no_panic_read_u32 [safe]: "i + 4 \<le> length data \<Longrightarrow> no_panic (read_u32 data i)"
  by (simp add: read_u32_def read_le_def)

lemma no_panic_read_u64 [safe]: "i + 8 \<le> length data \<Longrightarrow> no_panic (read_u64 data i)"
  by (simp add: read_u64_def read_le_def)

lemma no_panic_slice [safe]: "a \<le> b \<Longrightarrow> b \<le> length data \<Longrightarrow> no_panic (slice data a b)"
  by (simp add: slice_def)

lemma no_panic_slice_from [safe]: "a \<le> length data \<Longrightarrow> no_panic (slice_from data a)"
  by (simp add: slice_from_def)

lemma slice_length: "slice data a b = ret xs \<Longrightarrow> length xs = b - a"
  by (auto simp: slice_def split: if_splits)

lemma slice_from_length: "slice_from data a = ret xs \<Longrightarrow> length xs = length data - a"
  by (auto simp: slice_from_def split: if_splits)

section \<open>Inversion\<close>

text \<open>
  A function that returned a value passed every early return on its way. These equations turn
  \<open>f x = ret (Some y)\<close> into the conjunction of the guards and intermediate results.
\<close>

lemmas bind_returns [returns] = bind_eq_Some_conv

lemma guard_returns [returns]:
  "(if c then ret None else m) = ret (Some y) \<longleftrightarrow> \<not> c \<and> m = ret (Some y)"
  by auto

lemma try_returns [returns]:
  "(case r of None \<Rightarrow> ret None | Some x \<Rightarrow> f x) = ret (Some y) \<longleftrightarrow> (\<exists>x. r = Some x \<and> f x = ret (Some y))"
  by (cases r) auto

lemma option_ext: "(\<And>v. x = Some v \<longleftrightarrow> y = Some v) \<Longrightarrow> x = y"
  by (cases x; cases y) auto

section \<open>Maxima and minima\<close>

lemma foldl_max_key:
  fixes key :: "'a \<Rightarrow> 'b::linorder"
  defines "pick \<equiv> \<lambda>m y. if key m \<le> key y then y else m"
  shows "foldl pick x xs \<in> set (x # xs) \<and> (\<forall>y \<in> set (x # xs). key y \<le> key (foldl pick x xs))"
proof (induction xs arbitrary: x)
  case (Cons a xs)
  show ?case
    using Cons.IH [of "pick x a"] by (auto simp: pick_def split: if_splits intro: order_trans less_imp_le)
qed simp

lemma foldl_min_key:
  fixes key :: "'a \<Rightarrow> 'b::linorder"
  defines "pick \<equiv> \<lambda>m y. if key y < key m then y else m"
  shows "foldl pick x xs \<in> set (x # xs) \<and> (\<forall>y \<in> set (x # xs). key (foldl pick x xs) \<le> key y)"
proof (induction xs arbitrary: x)
  case (Cons a xs)
  show ?case
    using Cons.IH [of "pick x a"] by (auto simp: pick_def split: if_splits intro: order_trans less_imp_le)
qed simp

lemma max_by_key_Some:
  "max_by_key key xs = Some m \<Longrightarrow> m \<in> set xs \<and> (\<forall>y \<in> set xs. key y \<le> key m)"
  using foldl_max_key [of key] by (cases xs) auto

lemma min_by_key_Some:
  "min_by_key key xs = Some m \<Longrightarrow> m \<in> set xs \<and> (\<forall>y \<in> set xs. key m \<le> key y)"
  using foldl_min_key [of key] by (cases xs) auto

lemma by_key_None [simp]:
  "max_by_key key xs = None \<longleftrightarrow> xs = []" "min_by_key key xs = None \<longleftrightarrow> xs = []"
  by (cases xs; simp)+

section \<open>Folds that extend a list\<close>

lemma fold_prefix:
  assumes "\<And>x s. \<exists>r. g x s = s @ r"
  shows "\<exists>r. fold g xs s = s @ r"
proof (induction xs arbitrary: s)
  case (Cons x xs)
  obtain r where "g x s = s @ r" using assms by blast
  moreover obtain r' where "fold g xs (s @ r) = (s @ r) @ r'" using Cons.IH by blast
  ultimately show ?case by simp
qed simp

section \<open>Saturating and wrapping arithmetic\<close>

lemma unat_less: "unat (w :: 'a::len word) < 2 ^ LENGTH('a)"
  by (rule unsigned_less)

lemma unat_max_word: "unat (- 1 :: 'a::len word) = 2 ^ LENGTH('a) - 1"
  by (simp add: unsigned_minus_1_eq_mask mask_eq_exp_minus_1)

lemma unat_sat_add: "unat (sat_add a b) = min (unat a + unat b) (2 ^ LENGTH('a) - 1)"
  for a b :: "'a::len word"
  by (auto simp: sat_add_def unat_word_ariths unat_max_word min_def)

lemma sat_add_ge: "a \<le> sat_add a b"
  for a b :: "'a::len word"
proof -
  have "unat a \<le> 2 ^ LENGTH('a) - 1" using unat_less [of a] by linarith
  then show ?thesis by (simp add: word_le_nat_alt unat_sat_add)
qed

lemma unat_sat_sub: "unat (sat_sub a b) = unat a - unat b"
  by (auto simp: sat_sub_def unat_sub word_le_nat_alt)

lemma usize_add_exact: "a + b < 2 ^ w \<Longrightarrow> usize_add w a b = a + b"
  by (simp add: usize_add_def)

lemma usize_mul_exact: "a * b < 2 ^ w \<Longrightarrow> usize_mul w a b = a * b"
  by (simp add: usize_mul_def)

lemma unat_Suc_less: "n < k \<Longrightarrow> unat (n + 1) = unat n + 1"
  for n k :: "'a::len word"
proof -
  assume "n < k"
  then have "unat n + 1 < 2 ^ LENGTH('a)"
    using unat_less [of k] unfolding word_less_nat_alt by linarith
  then show ?thesis by (simp add: unat_word_ariths)
qed

section \<open>Chunks of a list\<close>

text \<open>The iterator \<open>slice::chunks\<close>: pieces of \<open>k\<close> elements, the last one possibly shorter.\<close>

function slice_chunks :: "nat \<Rightarrow> 'a list \<Rightarrow> 'a list list" where
  "slice_chunks k xs = (if xs = [] \<or> k = 0 then [] else take k xs # slice_chunks k (drop k xs))"
  by pat_completeness auto
termination
  by (relation "measure (\<lambda>(k, xs). length xs)") auto

declare slice_chunks.simps [simp del]

lemma slice_chunks_Nil [simp]: "slice_chunks k [] = []"
  by (simp add: slice_chunks.simps)

lemma slice_chunks_step: "0 < k \<Longrightarrow> xs \<noteq> [] \<Longrightarrow> slice_chunks k xs = take k xs # slice_chunks k (drop k xs)"
  by (subst slice_chunks.simps) simp

lemma concat_slice_chunks: "0 < k \<Longrightarrow> concat (slice_chunks k xs) = xs"
proof (induction "length xs" arbitrary: xs rule: less_induct)
  case less
  then show ?case by (cases "xs = []") (simp_all add: slice_chunks_step)
qed

lemma length_slice_chunks:
  "0 < k \<Longrightarrow> length (slice_chunks k xs) = (length xs + k - 1) div k"
proof (induction "length xs" arbitrary: xs rule: less_induct)
  case less
  show ?case
  proof (cases "xs = []")
    case True
    then show ?thesis using less.prems by simp
  next
    case False
    then have IH: "length (slice_chunks k (drop k xs)) = (length xs - k + k - 1) div k"
      using less by (simp del: add_diff_cancel_right')
    show ?thesis
    proof (cases "length xs < k")
      case True
      moreover obtain l where "length xs = Suc l" using False by (cases xs) auto
      ultimately have "(length xs + k - 1) div k = 1" using less.prems
        by (intro div_nat_eqI) auto
      then show ?thesis using True False less.prems by (simp add: slice_chunks_step)
    next
      case long: False
      obtain l where "length xs = Suc l" using False by (cases xs) auto
      moreover have "(l + k) div k = l div k + 1" using less.prems by (intro div_add_self2) simp
      ultimately have "(length xs + k - 1) div k = Suc ((length xs - 1) div k)" by simp
      then show ?thesis using IH long False less.prems by (simp add: slice_chunks_step)
    qed
  qed
qed

lemma slice_chunks_eq_Nil [simp]: "0 < k \<Longrightarrow> slice_chunks k xs = [] \<longleftrightarrow> xs = []"
  by (subst slice_chunks.simps) simp

lemma slice_chunks_length_le: "d \<in> set (slice_chunks k xs) \<Longrightarrow> length d \<le> k"
proof (induction "length xs" arbitrary: xs rule: less_induct)
  case less
  show ?case
  proof (cases "xs = [] \<or> k = 0")
    case True
    then have "slice_chunks k xs = []" by (subst slice_chunks.simps) simp
    then show ?thesis using less.prems by simp
  next
    case False
    then have "d = take k xs \<or> d \<in> set (slice_chunks k (drop k xs))"
      using less.prems by (simp add: slice_chunks_step)
    then show ?thesis using less.hyps [of "drop k xs"] False by auto
  qed
qed

lemma map_enumerate: "map (\<lambda>(i, d). f i d) (enumerate 0 xs) = map (\<lambda>i. f i (xs ! i)) [0..<length xs]"
  by (rule nth_equalityI) (simp_all add: nth_enumerate_eq)

section \<open>Averages of signal strengths\<close>

text \<open>The division of Rust rounds towards zero.\<close>

definition trunc_div :: "int \<Rightarrow> int \<Rightarrow> int" where
  "trunc_div a b = (if a < 0 then - (- a div b) else a div b)"

definition mean_rssi :: "i8 list \<Rightarrow> i8" where
  "mean_rssi rs = word_of_int (trunc_div (sum_list (map sint rs)) (int (length rs)))"

lemma trunc_div_range:
  assumes "0 < n" "lo * n \<le> a" "a \<le> hi * n"
  shows "lo \<le> trunc_div a n \<and> trunc_div a n \<le> hi"
proof (cases "a < 0")
  case True
  have cancel: "(- c) * n div n = - c" for c
    using assms(1) by (intro nonzero_mult_div_cancel_right) simp
  have "- a div n \<le> - lo"
    using assms(1,2) zdiv_mono1 [of "- a" "(- lo) * n" n] unfolding cancel by simp
  moreover have "- hi \<le> - a div n"
    using assms(1,3) zdiv_mono1 [of "(- hi) * n" "- a" n] unfolding cancel by simp
  ultimately show ?thesis using True by (simp add: trunc_div_def)
next
  case False
  then show ?thesis
    using assms zdiv_mono1 [of "lo * n" a n] zdiv_mono1 [of a "hi * n" n] by (simp add: trunc_div_def)
qed

lemma mean_rssi_between:
  assumes "rs \<noteq> []" "\<And>r. r \<in> set rs \<Longrightarrow> lo \<le> sint r \<and> sint r \<le> hi" "- 128 \<le> lo" "hi < 128"
  shows "lo \<le> sint (mean_rssi rs) \<and> sint (mean_rssi rs) \<le> hi"
proof -
  have "lo * int (length rs) \<le> sum_list (map sint rs) \<and> sum_list (map sint rs) \<le> hi * int (length rs)"
    using assms(2) by (induction rs) (fastforce simp: algebra_simps)+
  then have sum: "lo * int (length rs) \<le> sum_list (map sint rs)" "sum_list (map sint rs) \<le> hi * int (length rs)"
    by simp_all
  let ?q = "trunc_div (sum_list (map sint rs)) (int (length rs))"
  have q: "lo \<le> ?q" "?q \<le> hi" using trunc_div_range [OF _ sum] assms(1) by simp_all
  then have "sint (word_of_int ?q :: i8) = ?q"
    using assms(3,4) by (simp add: sint_sbintrunc' signed_take_bit_int_eq_self)
  then show ?thesis using q by (simp add: mean_rssi_def)
qed

section \<open>Fixed-size byte strings\<close>

text \<open>Padding with zeros to a fixed size; the concrete ciphers the witnesses use are built from it.\<close>

definition demo_pad :: "nat \<Rightarrow> bytes \<Rightarrow> bytes" where
  "demo_pad n bs = take n (bs @ replicate n 0)"

lemma demo_pad_length [simp]: "length (demo_pad n bs) = n"
  by (simp add: demo_pad_def)

lemma demo_pad_idem [simp]: "demo_pad n (demo_pad n bs) = demo_pad n bs"
  by (simp add: demo_pad_def)

end
