(* ===== verification/Convergence.thy ===== *)
theory Convergence
  imports Prelude
begin

text \<open>
  State-based replication. A replica is merged with the states it receives, one after the
  other. The locale \<open>join_crdt\<close> states what a data type promises (its merge keeps the
  invariant and is idempotent, commutative and associative on states that satisfy it) and
  derives once what every client of the mesh relies on: the state of a replica depends
  only on the set of states it has merged, not on their order or on duplicates, and merging
  never undoes an earlier merge.
\<close>

definition merge_all :: "('s \<Rightarrow> 's \<Rightarrow> 's) \<Rightarrow> 's \<Rightarrow> 's list \<Rightarrow> 's" where
  "merge_all merge s xs = foldl merge s xs"

locale join_crdt =
  fixes inv :: "'s \<Rightarrow> bool"
    and merge :: "'s \<Rightarrow> 's \<Rightarrow> 's"
  assumes inv_merge: "inv x \<Longrightarrow> inv y \<Longrightarrow> inv (merge x y)"
    and idem: "inv x \<Longrightarrow> merge x x = x"
    and commute: "inv x \<Longrightarrow> inv y \<Longrightarrow> merge x y = merge y x"
    and assoc: "inv x \<Longrightarrow> inv y \<Longrightarrow> inv z \<Longrightarrow> merge (merge x y) z = merge x (merge y z)"
begin

lemma inv_merge_all: "inv s \<Longrightarrow> \<forall>x \<in> set xs. inv x \<Longrightarrow> inv (merge_all merge s xs)"
  unfolding merge_all_def by (induction xs arbitrary: s) (auto simp: inv_merge)

lemma absorb_right: "inv x \<Longrightarrow> inv y \<Longrightarrow> merge (merge x y) y = merge x y"
  by (simp add: assoc idem)

lemma swap_right:
  "inv x \<Longrightarrow> inv y \<Longrightarrow> inv z \<Longrightarrow> merge (merge x y) z = merge (merge x z) y"
  by (metis assoc commute)

lemma merge_all_step:
  assumes "inv s" "inv x" "\<forall>y \<in> set xs. inv y"
  shows "merge_all merge (merge s x) xs = merge (merge_all merge s xs) x"
  using assms unfolding merge_all_def
  by (induction xs arbitrary: s) (auto simp: inv_merge swap_right)

lemma merge_all_absorb:
  assumes "inv s" "\<forall>y \<in> set xs. inv y" "x \<in> set xs"
  shows "merge (merge_all merge s xs) x = merge_all merge s xs"
  using assms
proof (induction xs arbitrary: s)
  case Nil
  then show ?case by simp
next
  case (Cons y ys)
  have unfold: "merge_all merge s (y # ys) = merge_all merge (merge s y) ys"
    by (simp add: merge_all_def)
  show ?case
  proof (cases "x = y")
    case True
    then have "merge_all merge s (y # ys) = merge (merge_all merge s ys) y"
      using Cons.prems unfold by (simp add: merge_all_step)
    then show ?thesis using True Cons.prems by (simp add: absorb_right inv_merge_all)
  next
    case False
    then show ?thesis using Cons unfold by (simp add: inv_merge)
  qed
qed

lemma merge_all_absorb_subset:
  assumes "inv s" "\<forall>y \<in> set ys. inv y" "set xs \<subseteq> set ys"
  shows "merge_all merge (merge_all merge s ys) xs = merge_all merge s ys"
  using assms(3)
proof (induction xs)
  case Nil
  then show ?case by (simp add: merge_all_def)
next
  case (Cons x xs)
  then have "merge (merge_all merge s ys) x = merge_all merge s ys"
    using assms by (intro merge_all_absorb) auto
  then show ?case using Cons by (simp add: merge_all_def)
qed

lemma merge_all_swap:
  assumes "inv s" "\<forall>x \<in> set xs. inv x" "\<forall>y \<in> set ys. inv y"
  shows "merge_all merge (merge_all merge s xs) ys = merge_all merge (merge_all merge s ys) xs"
  using assms
proof (induction xs arbitrary: s)
  case Nil
  then show ?case by (simp add: merge_all_def)
next
  case (Cons x xs)
  have "merge_all merge (merge_all merge s (x # xs)) ys
      = merge_all merge (merge_all merge (merge s x) ys) xs"
    using Cons by (simp add: merge_all_def inv_merge)
  also have "merge_all merge (merge s x) ys = merge (merge_all merge s ys) x"
    using Cons.prems by (intro merge_all_step) auto
  finally show ?case by (simp add: merge_all_def)
qed

text \<open>Convergence: order and multiplicity of the merged states do not matter.\<close>

lemma converges:
  assumes "inv s" "\<forall>x \<in> set xs. inv x" "set xs = set ys"
  shows "merge_all merge s xs = merge_all merge s ys"
proof -
  have ys: "\<forall>y \<in> set ys. inv y" using assms by simp
  have "merge_all merge s xs = merge_all merge (merge_all merge s xs) ys"
    using assms by (intro merge_all_absorb_subset [symmetric]) auto
  also have "\<dots> = merge_all merge (merge_all merge s ys) xs"
    using assms ys by (intro merge_all_swap) auto
  also have "\<dots> = merge_all merge s ys"
    using assms ys by (intro merge_all_absorb_subset) auto
  finally show ?thesis .
qed

text \<open>Two replicas that have exchanged their states agree.\<close>

lemma exchange_agrees:
  assumes "inv x" "inv y"
  shows "merge x y = merge y (merge x y)"
  using assms by (metis absorb_right commute inv_merge)

end

section \<open>Optional and paired components\<close>

text \<open>A component that may be absent, and a replica made of two components, converge as well.\<close>

fun opt_merge :: "('s \<Rightarrow> 's \<Rightarrow> 's) \<Rightarrow> 's option \<Rightarrow> 's option \<Rightarrow> 's option" where
  "opt_merge merge None y = y"
| "opt_merge merge (Some x) None = Some x"
| "opt_merge merge (Some x) (Some y) = Some (merge x y)"

definition pair_merge ::
  "('a \<Rightarrow> 'a \<Rightarrow> 'a) \<Rightarrow> ('b \<Rightarrow> 'b \<Rightarrow> 'b) \<Rightarrow> 'a \<times> 'b \<Rightarrow> 'a \<times> 'b \<Rightarrow> 'a \<times> 'b" where
  "pair_merge m n p q = (m (fst p) (fst q), n (snd p) (snd q))"

context join_crdt
begin

lemma join_crdt_option: "join_crdt (pred_option inv) (opt_merge merge)"
proof
  fix x y z :: "'s option"
  assume x: "pred_option inv x"
  then show "opt_merge merge x x = x" by (cases x) (simp_all add: idem)
  assume y: "pred_option inv y"
  show "pred_option inv (opt_merge merge x y)"
    using x y by (cases x; cases y) (simp_all add: inv_merge)
  show "opt_merge merge x y = opt_merge merge y x"
    using x y by (cases x; cases y) (simp_all add: commute)
  assume z: "pred_option inv z"
  show "opt_merge merge (opt_merge merge x y) z = opt_merge merge x (opt_merge merge y z)"
    using x y z by (cases x; cases y; cases z) (simp_all add: assoc)
qed

end

lemma join_crdt_pair:
  assumes m: "join_crdt i m" and n: "join_crdt j n"
  shows "join_crdt (\<lambda>p. i (fst p) \<and> j (snd p)) (pair_merge m n)"
proof
  fix p q r :: "'a \<times> 'b"
  assume p: "i (fst p) \<and> j (snd p)"
  then show "pair_merge m n p p = p"
    by (simp add: pair_merge_def join_crdt.idem [OF m] join_crdt.idem [OF n])
  assume q: "i (fst q) \<and> j (snd q)"
  show "i (fst (pair_merge m n p q)) \<and> j (snd (pair_merge m n p q))"
    using p q by (simp add: pair_merge_def join_crdt.inv_merge [OF m] join_crdt.inv_merge [OF n])
  show "pair_merge m n p q = pair_merge m n q p"
    using p q join_crdt.commute [OF m] join_crdt.commute [OF n] by (simp add: pair_merge_def)
  assume r: "i (fst r) \<and> j (snd r)"
  show "pair_merge m n (pair_merge m n p q) r = pair_merge m n p (pair_merge m n q r)"
    using p q r by (simp add: pair_merge_def join_crdt.assoc [OF m] join_crdt.assoc [OF n])
qed

end
