(* ===== verification/Ordered_Map.thy ===== *)
theory Ordered_Map
  imports Convergence "HOL-Library.Multiset"
begin

text \<open>
  The Rust containers \<open>BTreeMap\<close> (and \<open>HashMap\<close>, up to its iteration order) as association
  lists in ascending key order. The operations are those the source calls: \<open>get\<close>,
  \<open>insert\<close>, \<open>remove\<close>, the \<open>entry\<close> interface, iteration (the list itself), \<open>len\<close>.
  The invariant \<open>bt_wf\<close> (strictly ascending keys) makes the representation canonical:
  two well-formed maps with the same lookups are equal, so equations between replicas are
  plain equalities. The interface is the locale \<open>ordered_map\<close>; a loop that folds updates
  over the entries of another map is characterised once, inside it.
\<close>

section \<open>Operations\<close>

type_synonym ('k, 'v) btree_map = "('k \<times> 'v) list"

fun bt_insert :: "'k::linorder \<Rightarrow> 'v \<Rightarrow> ('k, 'v) btree_map \<Rightarrow> ('k, 'v) btree_map" where
  "bt_insert k v [] = [(k, v)]"
| "bt_insert k v ((k', v') # m) =
     (if k < k' then (k, v) # (k', v') # m
      else if k = k' then (k, v) # m
      else (k', v') # bt_insert k v m)"

definition bt_get :: "('k, 'v) btree_map \<Rightarrow> 'k \<Rightarrow> 'v option" where
  "bt_get m k = map_of m k"

definition bt_remove :: "'k \<Rightarrow> ('k, 'v) btree_map \<Rightarrow> ('k, 'v) btree_map" where
  "bt_remove k m = filter (\<lambda>e. fst e \<noteq> k) m"

definition bt_contains_key :: "('k, 'v) btree_map \<Rightarrow> 'k \<Rightarrow> bool" where
  "bt_contains_key m k \<longleftrightarrow> bt_get m k \<noteq> None"

definition bt_get_or :: "'v \<Rightarrow> ('k, 'v) btree_map \<Rightarrow> 'k \<Rightarrow> 'v" where
  "bt_get_or d m k = (case bt_get m k of None \<Rightarrow> d | Some v \<Rightarrow> v)"

definition bt_or_insert :: "'k::linorder \<Rightarrow> 'v \<Rightarrow> ('k, 'v) btree_map \<Rightarrow> ('k, 'v) btree_map" where
  "bt_or_insert k d m = (if bt_contains_key m k then m else bt_insert k d m)"

definition bt_wf :: "('k::linorder, 'v) btree_map \<Rightarrow> bool" where
  "bt_wf m \<longleftrightarrow> sorted_wrt (<) (map fst m)"

definition bt_join :: "('v \<Rightarrow> 'v \<Rightarrow> 'v) \<Rightarrow> ('k::linorder, 'v) btree_map \<Rightarrow> ('k, 'v) btree_map \<Rightarrow>
    ('k, 'v) btree_map" where
  "bt_join f m n = fold (\<lambda>(k, v) m. bt_insert k (case bt_get m k of None \<Rightarrow> v | Some u \<Rightarrow> f u v) m) n m"

section \<open>The interface of an ordered map\<close>

lemma assoc_list_eqI:
  assumes "map fst xs = map fst ys" "distinct (map fst xs)" "\<And>k. map_of xs k = map_of ys k"
  shows "xs = ys"
proof (rule nth_equalityI)
  show len: "length xs = length ys" using assms(1) by (metis length_map)
  fix i assume i: "i < length xs"
  have fsts: "fst (xs ! i) = fst (ys ! i)" using assms(1) i len by (metis nth_map)
  have "map_of xs (fst (xs ! i)) = Some (snd (xs ! i))"
    using assms(2) i by (simp add: map_of_is_SomeI)
  moreover have "map_of ys (fst (ys ! i)) = Some (snd (ys ! i))"
    using assms(1,2) i len by (simp add: map_of_is_SomeI)
  ultimately have "snd (xs ! i) = snd (ys ! i)" using assms(3) fsts by (metis option.inject)
  then show "xs ! i = ys ! i" using fsts by (simp add: prod_eq_iff)
qed

locale ordered_map =
  fixes inv :: "'m \<Rightarrow> bool"
    and empty :: "'m"
    and ins :: "'k::linorder \<Rightarrow> 'v \<Rightarrow> 'm \<Rightarrow> 'm"
    and rem :: "'k \<Rightarrow> 'm \<Rightarrow> 'm"
    and get :: "'m \<Rightarrow> 'k \<Rightarrow> 'v option"
    and entries :: "'m \<Rightarrow> ('k \<times> 'v) list"
  assumes inv_empty: "inv empty"
    and inv_ins: "inv m \<Longrightarrow> inv (ins k v m)"
    and inv_rem: "inv m \<Longrightarrow> inv (rem k m)"
    and get_empty: "get empty k = None"
    and get_ins: "get (ins k v m) k' = (if k' = k then Some v else get m k')"
    and get_rem: "get (rem k m) k' = (if k' = k then None else get m k')"
    and entries_sorted: "inv m \<Longrightarrow> sorted_wrt (<) (map fst (entries m))"
    and entries_get: "inv m \<Longrightarrow> get m k = map_of (entries m) k"
    and entries_ext: "inv m \<Longrightarrow> inv n \<Longrightarrow> entries m = entries n \<Longrightarrow> m = n"
begin

lemma entries_distinct: "inv m \<Longrightarrow> distinct (map fst (entries m))"
  using entries_sorted strict_sorted_iff by blast

text \<open>Well-formed maps with the same lookups are equal.\<close>

lemma map_ext:
  assumes "inv m" "inv n" "\<And>k. get m k = get n k"
  shows "m = n"
proof -
  have lookups: "map_of (entries m) = map_of (entries n)"
    using assms entries_get by (metis ext)
  have "set (entries m) = set (entries n)"
    using lookups entries_distinct assms(1,2) by (metis map_of_inject_set)
  then have "set (map fst (entries m)) = set (map fst (entries n))" by simp
  then have keys: "map fst (entries m) = map fst (entries n)"
    using entries_sorted assms(1,2) by (metis strict_sorted_equal)
  have "entries m = entries n"
    using keys lookups entries_distinct [OF assms(1)] by (simp add: assoc_list_eqI)
  then show ?thesis using assms(1,2) by (rule entries_ext [rotated 2])
qed

text \<open>
  The merge loops of the replicated data types: for each entry \<open>(k, v)\<close> of the other
  replica, replace the value at \<open>k\<close> by a function of the value found there and of \<open>v\<close>.
\<close>

lemma inv_fold_update:
  "inv m \<Longrightarrow> inv (fold (\<lambda>(k, v) m. ins k (f (get m k) v) m) es m)"
  by (induction es arbitrary: m) (auto simp: inv_ins)

lemma get_fold_update:
  assumes "distinct (map fst es)"
  shows "get (fold (\<lambda>(k, v) m. ins k (f (get m k) v) m) es m) k =
    (case map_of es k of None \<Rightarrow> get m k | Some v \<Rightarrow> Some (f (get m k) v))"
  using assms
proof (induction es arbitrary: m)
  case Nil
  then show ?case by simp
next
  case (Cons e es)
  obtain k' v' where e: "e = (k', v')" by fastforce
  have "map_of es k' = None"
    using Cons.prems e by (simp add: map_of_eq_None_iff)
  then show ?case
    using Cons.prems e by (auto simp: Cons.IH get_ins split: option.splits)
qed

text \<open>Inserting a list of entries, in any order, gives the map with those entries.\<close>

lemma inv_fold_insert: "inv m \<Longrightarrow> inv (fold (\<lambda>(k, v) m. ins k v m) es m)"
  by (induction es arbitrary: m) (auto simp: inv_ins)

lemma get_fold_insert:
  assumes "distinct (map fst es)"
  shows "get (fold (\<lambda>(k, v) m. ins k v m) es m) k =
    (case map_of es k of None \<Rightarrow> get m k | Some v \<Rightarrow> Some v)"
  using get_fold_update [OF assms, of "\<lambda>_ v. v"] by simp

lemma rebuild:
  assumes "inv m" "mset es = mset (entries m)"
  shows "fold (\<lambda>(k, v) m. ins k v m) es empty = m"
proof (rule map_ext)
  have d: "distinct (map fst es)"
    using assms entries_distinct mset_eq_imp_distinct_iff by (metis mset_map)
  have "map_of es = map_of (entries m)"
    using d assms(2) entries_distinct [OF assms(1)]
    by (metis map_of_inject_set mset_eq_setD)
  then show "get (fold (\<lambda>(k, v) m. ins k v m) es empty) k = get m k" for k
    using get_fold_insert [OF d] assms(1)
    by (simp add: get_empty entries_get split: option.splits)
qed (use assms in \<open>simp_all add: inv_fold_insert inv_empty\<close>)

end

section \<open>The association lists provide the interface\<close>

lemma bt_get_simps [simp]:
  "bt_get [] k = None"
  "bt_get ((k', v) # m) k = (if k = k' then Some v else bt_get m k)"
  by (auto simp: bt_get_def)

lemma bt_get_insert [simp]: "bt_get (bt_insert k v m) k' = (if k' = k then Some v else bt_get m k')"
  by (induction k v m rule: bt_insert.induct) auto

lemma bt_get_remove [simp]: "bt_get (bt_remove k m) k' = (if k' = k then None else bt_get m k')"
  by (induction m) (auto simp: bt_remove_def)

lemma set_bt_insert: "fst ` set (bt_insert k v m) = insert k (fst ` set m)"
  by (induction k v m rule: bt_insert.induct) auto

lemma bt_wf_Nil [simp]: "bt_wf []"
  by (simp add: bt_wf_def)

lemma bt_wf_Cons: "bt_wf ((k, v) # m) \<longleftrightarrow> (\<forall>k' \<in> fst ` set m. k < k') \<and> bt_wf m"
  by (auto simp: bt_wf_def)

lemma bt_wf_insert [simp]: "bt_wf m \<Longrightarrow> bt_wf (bt_insert k v m)"
proof (induction k v m rule: bt_insert.induct)
  case (2 k v k' v' m)
  then have "bt_wf m" by (simp add: bt_wf_Cons)
  then show ?case using 2 by (auto simp: bt_wf_Cons set_bt_insert)
qed (simp add: bt_wf_Cons)

lemma bt_wf_remove [simp]: "bt_wf m \<Longrightarrow> bt_wf (bt_remove k m)"
  by (induction m) (auto simp: bt_remove_def bt_wf_def)

lemma bt_wf_distinct: "bt_wf m \<Longrightarrow> distinct (map fst m)"
  unfolding bt_wf_def using strict_sorted_iff by blast

interpretation bt: ordered_map bt_wf "[]" bt_insert bt_remove bt_get "\<lambda>m. m"
  by unfold_locales (auto simp: bt_wf_def [symmetric] bt_get_def [symmetric])

lemma bt_wf_or_insert [simp]: "bt_wf m \<Longrightarrow> bt_wf (bt_or_insert k v m)"
  by (simp add: bt_or_insert_def)

lemma bt_get_or_insert [simp]:
  "bt_get (bt_or_insert k d m) k' = (if k' = k then Some (bt_get_or d m k) else bt_get m k')"
  by (auto simp: bt_or_insert_def bt_contains_key_def bt_get_or_def split: option.splits)

lemma bt_get_in_set: "bt_wf m \<Longrightarrow> (k, v) \<in> set m \<longleftrightarrow> bt_get m k = Some v"
  by (simp add: bt_get_def bt_wf_distinct)

lemma bt_insert_length: "length (bt_insert k v m) \<le> Suc (length m)"
  by (induction k v m rule: bt_insert.induct) auto

text \<open>An insertion with a key above every key of the map goes to the end.\<close>

lemma bt_insert_snoc: "\<forall>k' \<in> fst ` set m. k' < k \<Longrightarrow> bt_insert k v m = m @ [(k, v)]"
  by (induction k v m rule: bt_insert.induct) auto

section \<open>Entry-wise merges of maps\<close>

text \<open>
  A merge loop that folds \<open>entry(k).or_insert(d)\<close> and a combination with the other side's
  value is \<open>bt_join\<close> as soon as \<open>d\<close> is a unit of the combination.
\<close>

lemma bt_get_join:
  "bt_wf n \<Longrightarrow> bt_get (bt_join f m n) k =
     (case bt_get n k of None \<Rightarrow> bt_get m k
      | Some v \<Rightarrow> Some (case bt_get m k of None \<Rightarrow> v | Some u \<Rightarrow> f u v))"
  unfolding bt_join_def
  using bt.get_fold_update [OF bt_wf_distinct, of n "\<lambda>q v. case q of None \<Rightarrow> v | Some u \<Rightarrow> f u v"]
  by (simp add: bt_get_def)

lemma bt_wf_join: "bt_wf m \<Longrightarrow> bt_wf (bt_join f m n)"
  unfolding bt_join_def
  using bt.inv_fold_update [of m "\<lambda>q v. case q of None \<Rightarrow> v | Some u \<Rightarrow> f u v"] .

lemma bt_join_unit:
  fixes m n :: "('k::linorder, 'v) btree_map"
  assumes "\<And>v. f d v = v"
  shows "fold (\<lambda>(k, v) m. bt_insert k (f (bt_get_or d m k) v) m) n m = bt_join f m n"
proof -
  have "f (bt_get_or d m k) v = (case bt_get m k of None \<Rightarrow> v | Some u \<Rightarrow> f u v)"
    for m :: "('k, 'v) btree_map" and k v
    by (auto simp: bt_get_or_def assms split: option.splits)
  then show ?thesis by (simp add: bt_join_def)
qed

locale map_join = semilattice f
  for f :: "'v \<Rightarrow> 'v \<Rightarrow> 'v"
begin

sublocale map: join_crdt "bt_wf :: ('k::linorder, 'v) btree_map \<Rightarrow> bool" "bt_join f"
proof
  fix x y z :: "('k, 'v) btree_map"
  assume x: "bt_wf x"
  then show "bt_join f x x = x"
    by (intro bt.map_ext) (auto simp: bt_wf_join bt_get_join split: option.splits)
  assume y: "bt_wf y"
  show "bt_wf (bt_join f x y)" using x by (rule bt_wf_join)
  show "bt_join f x y = bt_join f y x"
    using x y
    by (intro bt.map_ext) (auto simp: bt_wf_join bt_get_join commute split: option.splits)
  assume z: "bt_wf z"
  show "bt_join f (bt_join f x y) z = bt_join f x (bt_join f y z)"
    using x y z
    by (intro bt.map_ext) (auto simp: bt_wf_join bt_get_join assoc split: option.splits)
qed

end

interpretation max_map: map_join "max :: u64 \<Rightarrow> u64 \<Rightarrow> u64"
  by unfold_locales (simp_all add: max.assoc max.commute)

interpretation or_map: map_join "(\<or>)"
  by unfold_locales auto

section \<open>Bounded unions\<close>

text \<open>
  \<open>bt_keep n\<close> keeps the \<open>n\<close> entries with the largest keys. Keeping commutes with the
  left-biased union: what a bound drops early can never be among the survivors of a larger
  union. The proof works on descending lists, where the union is a merge and keeping is
  \<open>take\<close>.
\<close>

definition bt_keep :: "nat \<Rightarrow> ('k, 'v) btree_map \<Rightarrow> ('k, 'v) btree_map" where
  "bt_keep n m = drop (length m - n) m"

abbreviation bt_union :: "('k::linorder, 'v) btree_map \<Rightarrow> ('k, 'v) btree_map \<Rightarrow> ('k, 'v) btree_map" where
  "bt_union \<equiv> bt_join (\<lambda>u v. u)"

fun desc_union :: "('k::linorder \<times> 'v) list \<Rightarrow> ('k \<times> 'v) list \<Rightarrow> ('k \<times> 'v) list" where
  "desc_union [] ys = ys"
| "desc_union (x # xs) [] = x # xs"
| "desc_union (x # xs) (y # ys) =
     (if fst y < fst x then x # desc_union xs (y # ys)
      else if fst x = fst y then x # desc_union xs ys
      else y # desc_union (x # xs) ys)"

definition desc :: "('k::linorder \<times> 'v) list \<Rightarrow> bool" where
  "desc xs \<longleftrightarrow> sorted_wrt (\<lambda>a b. b < a) (map fst xs)"

lemma desc_rev: "desc (rev m) \<longleftrightarrow> bt_wf m"
  by (simp add: desc_def bt_wf_def rev_map [symmetric] sorted_wrt_rev)

lemma desc_union_Nil [simp]: "desc_union xs [] = xs"
  by (cases xs) auto

lemma take_desc_union_left:
  "n \<le> i \<Longrightarrow> take n (desc_union (take i xs) ys) = take n (desc_union xs ys)"
proof (induction xs ys arbitrary: n i rule: desc_union.induct)
  case (2 x xs)
  then show ?case by (simp add: min_absorb1)
next
  case (3 x xs y ys)
  show ?case
  proof (cases n)
    case (Suc n')
    then obtain i' where i: "i = Suc i'" using "3.prems" by (cases i) auto
    show ?thesis using 3 "3.IH"(3) [of n' "Suc i'"] Suc i by auto
  qed simp
qed simp

lemma fst_set_desc_union: "fst ` set (desc_union xs ys) = fst ` set xs \<union> fst ` set ys"
  by (induction xs ys rule: desc_union.induct) auto

lemma desc_Cons: "desc (x # xs) \<longleftrightarrow> (\<forall>k \<in> fst ` set xs. k < fst x) \<and> desc xs"
  by (auto simp: desc_def)

lemma desc_desc_union: "desc xs \<Longrightarrow> desc ys \<Longrightarrow> desc (desc_union xs ys)"
  by (induction xs ys rule: desc_union.induct) (auto simp: desc_Cons fst_set_desc_union)

lemma map_of_desc_union:
  "desc xs \<Longrightarrow> desc ys \<Longrightarrow>
   map_of (desc_union xs ys) k = (case map_of xs k of None \<Rightarrow> map_of ys k | Some v \<Rightarrow> Some v)"
proof (induction xs ys rule: desc_union.induct)
  case (3 x xs y ys)
  have absent: "map_of (x # xs) (fst y) = None" if "fst x < fst y"
    using "3.prems"(1) that by (force simp: desc_Cons map_of_eq_None_iff)
  show ?case
  proof (cases "fst x" "fst y" rule: linorder_cases)
    case less
    then show ?thesis using 3 absent by (auto simp: desc_Cons split: option.split)
  qed (use 3 in \<open>auto simp: desc_Cons split: option.split\<close>)
qed (auto split: option.split)

lemma rev_bt_union:
  assumes "bt_wf a" "bt_wf b"
  shows "rev (bt_union a b) = desc_union (rev a) (rev b)"
proof -
  let ?u = "rev (desc_union (rev a) (rev b))"
  have d: "desc (desc_union (rev a) (rev b))"
    using assms by (intro desc_desc_union) (simp_all add: desc_rev)
  then have wf: "bt_wf ?u" by (metis desc_rev rev_rev_ident)
  have m: "map_of (rev m) k = map_of m k" if "bt_wf m" for m :: "('a, 'b) btree_map" and k
    using that by (metis bt_wf_distinct distinct_rev map_of_inject_set rev_map set_rev)
  have "bt_union a b = ?u"
  proof (rule bt.map_ext)
    fix k
    have "bt_get ?u k = map_of (desc_union (rev a) (rev b)) k"
      using m [OF wf] by (simp add: bt_get_def)
    also have "\<dots> = (case map_of a k of None \<Rightarrow> map_of b k | Some v \<Rightarrow> Some v)"
      using assms by (simp add: map_of_desc_union desc_rev m split: option.split)
    finally show "bt_get (bt_union a b) k = bt_get ?u k"
      using assms(2) by (simp add: bt_get_join) (simp add: bt_get_def split: option.split)
  qed (use assms wf in \<open>simp_all add: bt_wf_join\<close>)
  then show ?thesis by simp
qed

lemma rev_bt_keep: "rev (bt_keep n m) = take n (rev m)"
  by (cases "length m \<le> n") (simp_all add: bt_keep_def rev_drop)

lemma bt_wf_keep: "bt_wf m \<Longrightarrow> bt_wf (bt_keep n m)"
  by (simp add: bt_wf_def bt_keep_def drop_map [symmetric] sorted_wrt_drop)

lemma bt_keep_union_left:
  assumes "bt_wf a" "bt_wf b"
  shows "bt_keep n (bt_union (bt_keep n a) b) = bt_keep n (bt_union a b)"
proof -
  have "rev (bt_keep n (bt_union (bt_keep n a) b)) = take n (desc_union (take n (rev a)) (rev b))"
    using assms by (simp only: rev_bt_keep rev_bt_union bt_wf_keep)
  also have "\<dots> = rev (bt_keep n (bt_union a b))"
    using assms by (simp only: take_desc_union_left rev_bt_keep rev_bt_union order_refl)
  finally show ?thesis by simp
qed

lemma bt_keep_idle: "length m \<le> n \<Longrightarrow> bt_keep n m = m"
  by (simp add: bt_keep_def)

lemma set_bt_keep: "set (bt_keep n m) \<subseteq> set m"
  by (simp add: bt_keep_def set_drop_subset)

lemma bt_remove_first: "bt_wf ((k, v) # m) \<Longrightarrow> bt_remove k ((k, v) # m) = m"
  by (auto simp: bt_remove_def bt_wf_Cons filter_id_conv)

section \<open>Retaining and removing entries\<close>

lemma bt_wf_fold_remove: "bt_wf m \<Longrightarrow> bt_wf (fold bt_remove ks m)"
  by (induction ks arbitrary: m) auto

lemma bt_get_fold_remove:
  "bt_get (fold bt_remove ks m) k = (if k \<in> set ks then None else bt_get m k)"
  by (induction ks arbitrary: m) auto

lemma bt_wf_filter: "bt_wf m \<Longrightarrow> bt_wf (filter P m)"
  unfolding bt_wf_def by (simp add: sorted_wrt_map sorted_wrt_filter)

lemma bt_get_filter:
  assumes "bt_wf m"
  shows "bt_get (filter P m) k = (case bt_get m k of None \<Rightarrow> None | Some v \<Rightarrow> if P (k, v) then Some v else None)"
proof -
  have iff: "bt_get (filter P m) k = Some v \<longleftrightarrow> bt_get m k = Some v \<and> P (k, v)" for v
    using bt_get_in_set [OF assms, of k v] bt_get_in_set [OF bt_wf_filter [OF assms], of k v P]
    by (simp only: set_filter mem_Collect_eq)
  show ?thesis
  proof (rule option_ext)
    fix v
    show "bt_get (filter P m) k = Some v \<longleftrightarrow>
        (case bt_get m k of None \<Rightarrow> None | Some v \<Rightarrow> if P (k, v) then Some v else None) = Some v"
      unfolding iff by (cases "bt_get m k") auto
  qed
qed

lemma fold_bt_remove_filter: "fold bt_remove ks m = filter (\<lambda>e. fst e \<notin> set ks) m"
proof (induction ks arbitrary: m)
  case (Cons k ks)
  then show ?case by (simp add: bt_remove_def)
qed simp

text \<open>Removing the keys of the first \<open>n\<close> entries of a permutation leaves the others.\<close>

lemma mset_remove_prefix:
  assumes "bt_wf m" "mset es = mset m"
  shows "mset (fold bt_remove (map fst (take n es)) m) = mset (drop n es)"
proof -
  let ?P = "\<lambda>e. fst e \<notin> set (map fst (take n es))"
  have "distinct (map fst m)" using assms(1) by (rule bt_wf_distinct)
  moreover have "mset (map fst es) = mset (map fst m)" using assms(2) by (simp only: mset_map)
  ultimately have "distinct (map fst es)" by (metis mset_eq_imp_distinct_iff)
  then have "distinct (map fst (take n es) @ map fst (drop n es))"
    by (simp flip: map_append)
  then have disjoint: "set (map fst (take n es)) \<inter> set (map fst (drop n es)) = {}"
    by (simp only: distinct_append)
  have "mset (fold bt_remove (map fst (take n es)) m) = filter_mset ?P (mset m)"
    by (simp add: fold_bt_remove_filter)
  also have "\<dots> = mset (filter ?P (take n es @ drop n es))"
    by (simp add: assms(2) del: filter_append)
  also have "filter ?P (take n es @ drop n es) = filter ?P (take n es) @ filter ?P (drop n es)"
    by (rule filter_append)
  also have "filter ?P (take n es) = []" by (simp add: filter_empty_conv)
  also have "mset ([] @ filter ?P (drop n es)) = mset (filter ?P (drop n es))" by simp
  also have "filter ?P (drop n es) = drop n es" using disjoint by (auto intro!: filter_True)
  finally show ?thesis .
qed

lemma bt_wf_map: "bt_wf (map (\<lambda>(k, v). (k, f k v)) m) \<longleftrightarrow> bt_wf m"
  by (simp add: bt_wf_def case_prod_beta comp_def)

lemma bt_get_map: "bt_get (map (\<lambda>(k, v). (k, f k v)) m) k = map_option (f k) (bt_get m k)"
  by (induction m) (auto simp: bt_get_def)

lemma bt_all_insert:
  "(\<And>k v. bt_get m k = Some v \<Longrightarrow> P k v) \<Longrightarrow> P a b \<Longrightarrow> bt_get (bt_insert a b m) k = Some v \<Longrightarrow> P k v"
  by (simp split: if_splits)

lemma bt_get_fold_remove_Some: "bt_get (fold bt_remove ks m) k = Some v \<Longrightarrow> bt_get m k = Some v"
  by (simp add: bt_get_fold_remove split: if_splits)

lemma length_bt_keys: "bt_wf m \<Longrightarrow> length m = card (fst ` set m)"
  using bt_wf_distinct [of m] distinct_card [of "map fst m"] by simp

lemma bt_get_None_iff: "bt_get m k = None \<longleftrightarrow> k \<notin> fst ` set m"
  by (simp add: bt_get_def map_of_eq_None_iff)

lemma length_bt_insert:
  assumes "bt_wf m"
  shows "length (bt_insert k v m) = (if bt_get m k = None then Suc (length m) else length m)"
  using assms by (simp add: length_bt_keys set_bt_insert bt_get_None_iff insert_absorb)

lemma length_bt_remove_le: "length (bt_remove k m) \<le> length m"
  by (simp add: bt_remove_def)

lemma bt_values: "bt_wf m \<Longrightarrow> v \<in> snd ` set m \<longleftrightarrow> (\<exists>k. bt_get m k = Some v)"
  by (force simp: bt_get_in_set [symmetric] image_iff)

end
