(* ===== verification/Crdt_Counter.thy ===== *)
theory Crdt_Counter
  imports Ordered_Map
begin

text \<open>
  The two basic replicated types of \<open>src/sync/crdt.rs\<close>: the last-writer-wins register
  \<open>LwwRegister\<close> and the grow-only counter \<open>GCounter\<close> with its wire codec.
  A mutating method returns the new object, paired with its result when it has one.
  \<open>GCounter::value\<close> sums with the wrap-around of a release build.
\<close>

section \<open>Constants\<close>

definition MIN_VALID_TIMESTAMP :: u64 where
  "MIN_VALID_TIMESTAMP = 1577836800000"

definition MAX_COUNTER_ENTRIES :: nat where
  "MAX_COUNTER_ENTRIES = 256"

section \<open>Last-writer-wins register\<close>

record 'a lww_register =
  reg_value :: 'a
  reg_timestamp :: u64
  reg_node_id :: u32

definition lww_default :: "'a \<Rightarrow> 'a lww_register" where
  "lww_default d = \<lparr>reg_value = d, reg_timestamp = 0, reg_node_id = 0\<rparr>"

definition lww_new :: "'a \<Rightarrow> u64 \<Rightarrow> u32 \<Rightarrow> 'a lww_register" where
  "lww_new v t n = \<lparr>reg_value = v, reg_timestamp = t, reg_node_id = n\<rparr>"

definition should_update :: "'a lww_register \<Rightarrow> u64 \<Rightarrow> u32 \<Rightarrow> bool" where
  "should_update r t n \<longleftrightarrow> t > reg_timestamp r \<or> (t = reg_timestamp r \<and> n > reg_node_id r)"

definition lww_set :: "'a lww_register \<Rightarrow> 'a \<Rightarrow> u64 \<Rightarrow> u32 \<Rightarrow> 'a lww_register \<times> bool" where
  "lww_set r v t n =
     (if should_update r t n
      then (r\<lparr>reg_value := v, reg_timestamp := t, reg_node_id := n\<rparr>, True)
      else (r, False))"

definition lww_merge :: "'a lww_register \<Rightarrow> 'a lww_register \<Rightarrow> 'a lww_register \<times> bool" where
  "lww_merge r other =
     (if should_update r (reg_timestamp other) (reg_node_id other)
      then (r\<lparr>reg_value := reg_value other, reg_timestamp := reg_timestamp other, reg_node_id := reg_node_id other\<rparr>, True)
      else (r, False))"

section \<open>Grow-only counter\<close>

record gcounter =
  counts :: "(u32, u64) btree_map"

definition gcounter_new :: gcounter where
  "gcounter_new = \<lparr>counts = []\<rparr>"

definition gcounter_value :: "gcounter \<Rightarrow> u64" where
  "gcounter_value c = sum_list (map snd (counts c))"

definition gcounter_increment :: "gcounter \<Rightarrow> u32 \<Rightarrow> u64 \<Rightarrow> gcounter" where
  "gcounter_increment c n amount =
     c\<lparr>counts := bt_insert n (sat_add (bt_get_or 0 (counts c) n) amount) (counts c)\<rparr>"

definition gcounter_node_count :: "gcounter \<Rightarrow> u32 \<Rightarrow> u64" where
  "gcounter_node_count c n = bt_get_or 0 (counts c) n"

definition gcounter_merge :: "gcounter \<Rightarrow> gcounter \<Rightarrow> gcounter" where
  "gcounter_merge c other =
     c\<lparr>counts := fold (\<lambda>(n, cnt) m. bt_insert n (max (bt_get_or 0 m n) cnt) m)
                   (counts other) (counts c)\<rparr>"

definition gcounter_node_count_total :: "gcounter \<Rightarrow> nat" where
  "gcounter_node_count_total c = length (counts c)"

definition gcounter_entries :: "gcounter \<Rightarrow> (u32 \<times> u64) list" where
  "gcounter_entries c = counts c"

definition encode_entry :: "u32 \<times> u64 \<Rightarrow> bytes" where
  "encode_entry e = le32 (fst e) @ le64 (snd e)"

definition gcounter_encode :: "gcounter \<Rightarrow> bytes" where
  "gcounter_encode c =
     le32 (word_of_nat (length (counts c))) @ concat (map encode_entry (counts c))"

fun gcounter_decode_entries ::
  "nat \<Rightarrow> bytes \<Rightarrow> nat \<Rightarrow> (u32, u64) btree_map \<Rightarrow> (u32, u64) btree_map outcome" where
  "gcounter_decode_entries 0 data offset m = ret m"
| "gcounter_decode_entries (Suc n) data offset m = do {
     nid \<leftarrow> read_u32 data offset;
     cnt \<leftarrow> read_u64 data (offset + 4);
     gcounter_decode_entries n data (offset + 12) (if nid \<noteq> 0 then bt_insert nid cnt m else m)
   }"

definition gcounter_decode :: "bytes \<Rightarrow> gcounter option outcome" where
  "gcounter_decode data =
     (if length data < 4 then ret None
      else do {
        n \<leftarrow> read_u32 data 0;
        let num_entries = unat n;
        if num_entries > MAX_COUNTER_ENTRIES then ret None
        else if length data < 4 + num_entries * 12 then ret None
        else do {
          m \<leftarrow> gcounter_decode_entries num_entries data 4 [];
          ret (Some \<lparr>counts = m\<rparr>)
        }
      })"

section \<open>Well-formedness\<close>

definition gcounter_wf :: "gcounter \<Rightarrow> bool" where
  "gcounter_wf c \<longleftrightarrow> bt_wf (counts c)"

definition gcounter_sendable :: "gcounter \<Rightarrow> bool" where
  "gcounter_sendable c \<longleftrightarrow>
     gcounter_wf c \<and> length (counts c) \<le> MAX_COUNTER_ENTRIES \<and> 0 \<notin> fst ` set (counts c)"

definition lww_history :: "(u64 \<Rightarrow> u32 \<Rightarrow> 'a) \<Rightarrow> 'a lww_register \<Rightarrow> bool" where
  "lww_history h r \<longleftrightarrow> reg_value r = h (reg_timestamp r) (reg_node_id r)"

definition lww_stamp :: "'a lww_register \<Rightarrow> u64 \<times> u32" where
  "lww_stamp r = (reg_timestamp r, reg_node_id r)"

definition stamp_le :: "u64 \<times> u32 \<Rightarrow> u64 \<times> u32 \<Rightarrow> bool" where
  "stamp_le a b \<longleftrightarrow> fst a < fst b \<or> (fst a = fst b \<and> snd a \<le> snd b)"

section \<open>Lemmas: the register\<close>

lemma should_update_stamp: "should_update r t n \<longleftrightarrow> \<not> stamp_le (t, n) (lww_stamp r)"
  by (auto simp: should_update_def stamp_le_def lww_stamp_def)

lemma stamp_le_refl [simp]: "stamp_le a a"
  by (simp add: stamp_le_def)

lemma stamp_le_trans: "stamp_le a b \<Longrightarrow> stamp_le b c \<Longrightarrow> stamp_le a c"
  by (auto simp: stamp_le_def)

lemma stamp_le_total: "stamp_le a b \<or> stamp_le b a"
  by (auto simp: stamp_le_def)

lemma stamp_le_antisym: "stamp_le a b \<Longrightarrow> stamp_le b a \<Longrightarrow> a = b"
  by (auto simp: stamp_le_def prod_eq_iff)

lemma fst_lww_merge:
  "fst (lww_merge r s) = (if stamp_le (lww_stamp s) (lww_stamp r) then r else s)"
  by (simp add: lww_merge_def should_update_stamp) (simp add: lww_stamp_def)

lemma lww_history_eq:
  "lww_history h r \<Longrightarrow> lww_history h s \<Longrightarrow> lww_stamp r = lww_stamp s \<Longrightarrow> r = s"
  by (simp add: lww_history_def lww_stamp_def)

interpretation lww: join_crdt "lww_history h" "\<lambda>r s. fst (lww_merge r s)" for h
proof unfold_locales
  fix x y z assume h: "lww_history h x" "lww_history h y"
  show "fst (lww_merge x y) = fst (lww_merge y x)"
    using h stamp_le_total [of "lww_stamp x" "lww_stamp y"]
    by (auto simp: fst_lww_merge intro: lww_history_eq stamp_le_antisym)
  assume "lww_history h z"
  show "fst (lww_merge (fst (lww_merge x y)) z) = fst (lww_merge x (fst (lww_merge y z)))"
    using stamp_le_total [of "lww_stamp x" "lww_stamp y"] stamp_le_total [of "lww_stamp y" "lww_stamp z"]
    by (auto simp: fst_lww_merge dest: stamp_le_trans)
qed (auto simp: fst_lww_merge)

section \<open>Lemmas: the counter\<close>

lemma gcounter_merge_join: "gcounter_merge c d = \<lparr>counts = bt_join max (counts c) (counts d)\<rparr>"
  by (simp add: gcounter_merge_def bt_join_unit)

interpretation gc: join_crdt gcounter_wf gcounter_merge
proof unfold_locales
  fix x y z assume x: "gcounter_wf x"
  then show "gcounter_merge x x = x"
    by (simp add: gcounter_merge_join gcounter_wf_def max_map.map.idem)
  assume y: "gcounter_wf y"
  show "gcounter_wf (gcounter_merge x y)"
    using x y by (simp add: gcounter_merge_join gcounter_wf_def max_map.map.inv_merge)
  show "gcounter_merge x y = gcounter_merge y x"
    using x y by (simp add: gcounter_merge_join gcounter_wf_def max_map.map.commute)
  assume z: "gcounter_wf z"
  show "gcounter_merge (gcounter_merge x y) z = gcounter_merge x (gcounter_merge y z)"
    using x y z by (simp add: gcounter_merge_join gcounter_wf_def max_map.map.assoc)
qed

lemma gcounter_wf_new [simp]: "gcounter_wf gcounter_new"
  by (simp add: gcounter_wf_def gcounter_new_def)

lemma gcounter_wf_increment [simp]: "gcounter_wf c \<Longrightarrow> gcounter_wf (gcounter_increment c n a)"
  by (simp add: gcounter_wf_def gcounter_increment_def)

lemma gcounter_node_count_increment:
  "gcounter_node_count (gcounter_increment c n a) k =
     (if k = n then sat_add (gcounter_node_count c n) a else gcounter_node_count c k)"
  by (simp add: gcounter_node_count_def gcounter_increment_def bt_get_or_def)

lemma gcounter_node_count_merge:
  "gcounter_wf d \<Longrightarrow>
   gcounter_node_count (gcounter_merge c d) k = max (gcounter_node_count c k) (gcounter_node_count d k)"
  by (auto simp: gcounter_node_count_def gcounter_merge_join gcounter_wf_def bt_get_or_def
      bt_get_join split: option.splits)

text \<open>The wire codec of the counter.\<close>

lemma encode_entry_pair: "encode_entry (k, v) = le32 k @ le64 v"
  by (simp add: encode_entry_def)

lemma length_encode_entry [simp]: "length (encode_entry e) = 12"
  by (simp add: encode_entry_def)

lemma length_concat_entries: "length (concat (map encode_entry es)) = length es * 12"
  by (induction es) auto

lemma length_gcounter_encode: "length (gcounter_encode c) = 4 + length (counts c) * 12"
  by (simp add: gcounter_encode_def length_concat_entries)

lemma gcounter_decode_entries_wire:
  "gcounter_decode_entries (length es) (pre @ concat (map encode_entry es) @ post) (length pre) m =
     ret (fold (\<lambda>(k, v) m. if k \<noteq> 0 then bt_insert k v m else m) es m)"
proof (induction es arbitrary: pre m)
  case Nil
  then show ?case by simp
next
  case (Cons e es)
  obtain k v where e: "e = (k, v)" by fastforce
  let ?m = "if k \<noteq> 0 then bt_insert k v m else m"
  have "gcounter_decode_entries (length es) ((pre @ encode_entry e) @ concat (map encode_entry es) @ post)
          (length (pre @ encode_entry e)) ?m
      = ret (fold (\<lambda>(k, v) m. if k \<noteq> 0 then bt_insert k v m else m) es ?m)"
    by (rule Cons.IH)
  then show ?case using e by (simp add: encode_entry_pair wire)
qed

lemma gcounter_decode_encode:
  assumes "gcounter_sendable c"
  shows "gcounter_decode (gcounter_encode c @ post) = ret (Some c)"
proof -
  let ?n = "word_of_nat (length (counts c)) :: u32"
  have n: "unat ?n = length (counts c)"
    using assms by (simp add: gcounter_sendable_def MAX_COUNTER_ENTRIES_def unat_of_nat)
  have loop: "gcounter_decode_entries (length (counts c)) (gcounter_encode c @ post) 4 [] =
     ret (fold (\<lambda>(k, v) m. if k \<noteq> 0 then bt_insert k v m else m) (counts c) [])"
    using gcounter_decode_entries_wire [of "counts c" "le32 ?n" post "[]"]
    by (simp add: gcounter_encode_def)
  have "fold (\<lambda>(k, v) m. if k \<noteq> 0 then bt_insert k v m else m) (counts c) [] =
      fold (\<lambda>(k, v) m. bt_insert k v m) (counts c) []"
    using assms by (intro fold_cong) (force simp: gcounter_sendable_def)+
  also have "\<dots> = counts c"
    using assms by (intro bt.rebuild) (simp_all add: gcounter_sendable_def gcounter_wf_def)
  finally have rebuilt: "fold (\<lambda>(k, v) m. if k \<noteq> 0 then bt_insert k v m else m) (counts c) [] = counts c" .
  have "read_u32 (gcounter_encode c @ post) 0 = ret ?n"
    by (simp add: gcounter_encode_def wire)
  moreover have "length (gcounter_encode c) = 4 + length (counts c) * 12"
    by (rule length_gcounter_encode)
  ultimately show ?thesis
    using assms by (simp add: gcounter_decode_def n loop rebuilt gcounter_sendable_def)
qed

lemma gcounter_decode_entries_safe:
  assumes "offset + n * 12 \<le> length data"
  shows "no_panic (gcounter_decode_entries n data offset m)"
  using assms by (induction n arbitrary: offset m) (auto intro!: safe)

lemma gcounter_decode_safe: "no_panic (gcounter_decode data)"
  unfolding gcounter_decode_def by (auto intro!: safe gcounter_decode_entries_safe)

lemma gcounter_decode_entries_inv:
  assumes "gcounter_decode_entries n data offset m = ret m'"
    and "bt_wf m" "0 \<notin> fst ` set m"
  shows "bt_wf m' \<and> 0 \<notin> fst ` set m' \<and> length m' \<le> length m + n"
  using assms
proof (induction n arbitrary: offset m)
  case 0
  then show ?case by simp
next
  case (Suc n)
  then obtain nid cnt where
    step: "gcounter_decode_entries n data (offset + 12)
       (if nid \<noteq> 0 then bt_insert nid cnt m else m) = ret m'"
    by (auto simp: bind_eq_Some_conv)
  have "length (bt_insert nid cnt m) \<le> Suc (length m)" by (rule bt_insert_length)
  then show ?case
    using Suc.IH [OF step] Suc.prems(2,3) by (cases "nid = 0") (auto simp: set_bt_insert)
qed

lemma gcounter_decode_sendable:
  assumes "gcounter_decode data = ret (Some c)"
  shows "gcounter_sendable c"
proof -
  obtain n m where n: "\<not> unat (n :: u32) > MAX_COUNTER_ENTRIES"
    and m: "gcounter_decode_entries (unat n) data 4 [] = ret m" and c: "c = \<lparr>counts = m\<rparr>"
    using assms by (auto simp: gcounter_decode_def bind_eq_Some_conv Let_def split: if_splits)
  show ?thesis
    using gcounter_decode_entries_inv [OF m] n c
    by (auto simp: gcounter_sendable_def gcounter_wf_def)
qed

text \<open>Without any bound on the number of entries, a decoded counter never claims more than was encoded.\<close>

lemma length_bt_wf_keys: "bt_wf (m :: (u32, 'v) btree_map) \<Longrightarrow> length m \<le> 2 ^ 32"
proof -
  assume "bt_wf m"
  then have "distinct (map fst m)" by (simp add: bt_wf_distinct)
  then have "length m = card (set (map fst m))" using distinct_card [of "map fst m"] by simp
  also have "\<dots> \<le> card (UNIV :: u32 set)" by (intro card_mono) simp_all
  finally show "length m \<le> 2 ^ 32" by (simp add: card_word)
qed

lemma fold_insert_nonzero:
  "fold (\<lambda>(k, v) m. if k \<noteq> 0 then bt_insert k v m else m) es m
    = fold (\<lambda>(k, v) m. bt_insert k v m) (filter (\<lambda>e. fst e \<noteq> 0) es) m"
  by (induction es arbitrary: m) auto

lemma gcounter_decode_encode_le:
  assumes c: "gcounter_wf c" and d: "gcounter_decode (gcounter_encode c @ post) = ret (Some c')"
  shows "gcounter_node_count c' k \<le> gcounter_node_count c k"
proof -
  let ?n = "word_of_nat (length (counts c)) :: u32"
  have read: "read_u32 (gcounter_encode c @ post) 0 = ret ?n"
    by (simp add: gcounter_encode_def wire)
  have entries: "gcounter_decode_entries (unat ?n) (gcounter_encode c @ post) 4 [] = ret (counts c')"
    using d read by (auto simp: gcounter_decode_def bind_eq_Some_conv Let_def split: if_splits)
  consider "length (counts c) < 2 ^ 32" | "length (counts c) = 2 ^ 32"
    using length_bt_wf_keys [of "counts c"] c by (auto simp: gcounter_wf_def le_less)
  then show ?thesis
  proof cases
    case 1
    then have "unat ?n = length (counts c)" by (simp add: unat_of_nat)
    then have "counts c' = fold (\<lambda>(k, v) m. if k \<noteq> 0 then bt_insert k v m else m) (counts c) []"
      using entries gcounter_decode_entries_wire [of "counts c" "le32 ?n" post "[]"]
      by (simp add: gcounter_encode_def)
    also have "\<dots> = filter (\<lambda>e. fst e \<noteq> 0) (counts c)"
      using c by (simp add: fold_insert_nonzero bt.rebuild bt_wf_filter gcounter_wf_def)
    finally have c': "counts c' = filter (\<lambda>e. fst e \<noteq> 0) (counts c)" .
    have "bt_get (counts c') k = Some v \<Longrightarrow> bt_get (counts c) k = Some v" for v
      using c unfolding c' by (auto simp: gcounter_wf_def bt_wf_filter bt_get_in_set [symmetric])
    then show ?thesis
      by (cases "bt_get (counts c') k") (simp_all add: gcounter_node_count_def bt_get_or_def)
  next
    case 2
    then have "unat ?n = 0" by (simp add: unat_of_nat)
    then have "counts c' = []" using entries by simp
    then show ?thesis by (simp add: gcounter_node_count_def bt_get_or_def bt_get_def)
  qed
qed

section \<open>Properties\<close>

lemma lww_merge_all_newest:
  "merge_all (\<lambda>r s. fst (lww_merge r s)) r rs \<in> set (r # rs)
   \<and> (\<forall>x \<in> set (r # rs). stamp_le (lww_stamp x) (lww_stamp (merge_all (\<lambda>r s. fst (lww_merge r s)) r rs)))"
proof (induction rs arbitrary: r)
  case Nil
  then show ?case by (simp add: merge_all_def)
next
  case (Cons x rs)
  let ?m = "fst (lww_merge r x)"
  have m: "?m = r \<or> ?m = x" "stamp_le (lww_stamp r) (lww_stamp ?m)" "stamp_le (lww_stamp x) (lww_stamp ?m)"
    using stamp_le_total [of "lww_stamp r" "lww_stamp x"] by (auto simp: fst_lww_merge)
  have "merge_all (\<lambda>r s. fst (lww_merge r s)) r (x # rs) = merge_all (\<lambda>r s. fst (lww_merge r s)) ?m rs"
    by (simp add: merge_all_def)
  then show ?case using Cons.IH [of ?m] m stamp_le_trans by auto
qed

lemma gcounter_merge_all_max:
  assumes "gcounter_wf c" "\<forall>x \<in> set cs. gcounter_wf x"
  shows "(\<forall>x \<in> set (c # cs). gcounter_node_count x k \<le> gcounter_node_count (merge_all gcounter_merge c cs) k)
    \<and> (\<exists>x \<in> set (c # cs). gcounter_node_count (merge_all gcounter_merge c cs) k = gcounter_node_count x k)"
  using assms
proof (induction cs arbitrary: c)
  case Nil
  then show ?case by (simp add: merge_all_def)
next
  case (Cons d cs)
  let ?m = "gcounter_merge c d"
  have "merge_all gcounter_merge c (d # cs) = merge_all gcounter_merge ?m cs" by (simp add: merge_all_def)
  moreover have "gcounter_node_count ?m k = max (gcounter_node_count c k) (gcounter_node_count d k)"
    using Cons.prems by (simp add: gcounter_node_count_merge)
  moreover have "gcounter_wf ?m" using Cons.prems by (simp add: gc.inv_merge)
  ultimately show ?case using Cons.IH [of ?m] Cons.prems by (auto simp: max_def split: if_splits)
qed

text \<open>
  Last-writer-wins registers converge, to the newest write. When all registers hold the
  values of one history of writes (\<open>h\<close> gives the value written at a time by a node), the state
  after merging depends only on the set of merged registers; it is one of them, and no other
  has a larger (time stamp, node) pair.
\<close>

theorem lww_register_converges:
  assumes "lww_history h r" "\<forall>x \<in> set rs. lww_history h x" "set rs = set ss"
  shows "merge_all (\<lambda>r s. fst (lww_merge r s)) r rs = merge_all (\<lambda>r s. fst (lww_merge r s)) r ss
    \<and> merge_all (\<lambda>r s. fst (lww_merge r s)) r rs \<in> set (r # rs)
    \<and> (\<forall>x \<in> set (r # rs). stamp_le (lww_stamp x) (lww_stamp (merge_all (\<lambda>r s. fst (lww_merge r s)) r rs)))"
  using lww.converges [OF assms] lww_merge_all_newest [of r rs] by blast

theorem lww_register_converges_witness:
  "merge_all (\<lambda>r s. fst (lww_merge r s)) (lww_new 10 1 1) [lww_new 30 3 2, lww_new 20 2 1 :: nat lww_register]
    = merge_all (\<lambda>r s. fst (lww_merge r s)) (lww_new 10 1 1) [lww_new 20 2 1, lww_new 30 3 2]"
  using lww_register_converges [of "\<lambda>t n. unat t * 10" "lww_new 10 1 1"
      "[lww_new 30 3 2, lww_new 20 2 1]" "[lww_new 20 2 1, lww_new 30 3 2]"]
  by (simp add: lww_history_def lww_new_def insert_commute)

text \<open>
  grow-only counters converge. The merge of any list of well-formed counters depends only
  on the set of counters merged, and holds for every node the largest count known to any of them.
\<close>

theorem gcounter_converges:
  assumes "gcounter_wf c" "\<forall>x \<in> set cs. gcounter_wf x" "set cs = set ds"
  shows "merge_all gcounter_merge c cs = merge_all gcounter_merge c ds
    \<and> (\<forall>x \<in> set (c # cs). gcounter_node_count x k \<le> gcounter_node_count (merge_all gcounter_merge c cs) k)
    \<and> (\<exists>x \<in> set (c # cs). gcounter_node_count (merge_all gcounter_merge c cs) k = gcounter_node_count x k)"
  using gc.converges [OF assms] gcounter_merge_all_max [OF assms(1,2)] by blast

theorem gcounter_converges_witness:
  "merge_all gcounter_merge gcounter_new
      [gcounter_increment gcounter_new 1 5, gcounter_increment gcounter_new 2 3]
    = merge_all gcounter_merge gcounter_new
      [gcounter_increment gcounter_new 2 3, gcounter_increment gcounter_new 1 5, gcounter_increment gcounter_new 2 3]"
  using gcounter_converges [of gcounter_new
      "[gcounter_increment gcounter_new 1 5, gcounter_increment gcounter_new 2 3]"
      "[gcounter_increment gcounter_new 2 3, gcounter_increment gcounter_new 1 5, gcounter_increment gcounter_new 2 3]"]
  by (simp add: insert_commute)

end
