(* ===== verification/Float32.thy ===== *)
theory Float32
  imports Prelude
begin

text \<open>
  Rust's \<open>f32\<close> as its IEEE 754 bit pattern, with the operations the source uses on it:
  \<open>to_le_bytes\<close>/\<open>from_le_bytes\<close> (the pattern itself, see \<open>Prelude\<close>), \<open>is_finite\<close>, comparison,
  the conversion of integers and the four arithmetic operations. The comparison is the
  sign-magnitude comparison of the patterns; it is proved to be the comparison of the
  represented numbers. Rounding is proved to give the nearest pattern, to be monotone, and to
  leave numbers that have a pattern as they are.
\<close>

section \<open>Operations\<close>

type_synonym f32 = "32 word"

definition f32_exponent :: "f32 \<Rightarrow> nat" where
  "f32_exponent w = unat (take_bit 31 w) div 2 ^ 23"

definition f32_mantissa :: "f32 \<Rightarrow> nat" where
  "f32_mantissa w = unat (take_bit 31 w) mod 2 ^ 23"

definition f32_is_finite :: "f32 \<Rightarrow> bool" where
  "f32_is_finite w \<longleftrightarrow> f32_exponent w \<noteq> 255"

definition f32_is_nan :: "f32 \<Rightarrow> bool" where
  "f32_is_nan w \<longleftrightarrow> f32_exponent w = 255 \<and> f32_mantissa w \<noteq> 0"

definition f32_key :: "f32 \<Rightarrow> int" where
  "f32_key w = (if bit w 31 then - int (unat (take_bit 31 w)) else int (unat (take_bit 31 w)))"

definition f32_le :: "f32 \<Rightarrow> f32 \<Rightarrow> bool" where
  "f32_le a b \<longleftrightarrow> \<not> f32_is_nan a \<and> \<not> f32_is_nan b \<and> f32_key a \<le> f32_key b"

definition f32_less :: "f32 \<Rightarrow> f32 \<Rightarrow> bool" where
  "f32_less a b \<longleftrightarrow> \<not> f32_is_nan a \<and> \<not> f32_is_nan b \<and> f32_key a < f32_key b"

section \<open>The represented number, scaled by \<open>2 ^ 149\<close>\<close>

definition f32_magnitude :: "nat \<Rightarrow> nat" where
  "f32_magnitude n =
     (if n div 2 ^ 23 = 0 then n mod 2 ^ 23
      else (2 ^ 23 + n mod 2 ^ 23) * 2 ^ (n div 2 ^ 23 - 1))"

definition f32_scaled :: "f32 \<Rightarrow> int" where
  "f32_scaled w =
     (if bit w 31 then - int (f32_magnitude (unat (take_bit 31 w)))
      else int (f32_magnitude (unat (take_bit 31 w))))"

lemma f32_magnitude_upper: "f32_magnitude n < 2 ^ 23 * 2 ^ (n div 2 ^ 23)"
proof (cases "n div 2 ^ 23 = 0")
  case True
  then show ?thesis by (simp add: f32_magnitude_def)
next
  case False
  then obtain e where e: "n div 2 ^ 23 = Suc e" using not0_implies_Suc by blast
  have "2 ^ 23 + n mod 2 ^ 23 < 2 ^ 24" by simp
  then have "(2 ^ 23 + n mod 2 ^ 23) * 2 ^ e < 2 ^ 24 * 2 ^ e" by simp
  then show ?thesis using e by (simp add: f32_magnitude_def)
qed

lemma f32_magnitude_lower: "0 < n div 2 ^ 23 \<Longrightarrow> 2 ^ 23 * 2 ^ (n div 2 ^ 23 - 1) \<le> f32_magnitude n"
  by (simp add: f32_magnitude_def)

lemma f32_magnitude_mono:
  assumes "a < b"
  shows "f32_magnitude a < f32_magnitude b"
proof (cases "a div 2 ^ 23 = b div 2 ^ 23")
  case True
  moreover have "a mod 2 ^ 23 < b mod 2 ^ 23"
    using assms True by (metis div_mult_mod_eq nat_add_left_cancel_less)
  ultimately show ?thesis using assms by (simp add: f32_magnitude_def)
next
  case False
  have le: "a div 2 ^ 23 < b div 2 ^ 23"
    using assms False div_le_mono [of a b "2 ^ 23"] by simp
  have "f32_magnitude a < 2 ^ 23 * 2 ^ (a div 2 ^ 23)" by (rule f32_magnitude_upper)
  also have "\<dots> \<le> 2 ^ 23 * 2 ^ (b div 2 ^ 23 - 1)"
    using le by (intro mult_le_mono2 power_increasing) auto
  also have "\<dots> \<le> f32_magnitude b" using le by (intro f32_magnitude_lower) simp
  finally show ?thesis .
qed

lemma f32_magnitude_le_iff: "f32_magnitude a \<le> f32_magnitude b \<longleftrightarrow> a \<le> b"
  by (metis f32_magnitude_mono leD le_cases less_le not_less)

lemma f32_magnitude_0: "f32_magnitude 0 = 0"
  by (simp add: f32_magnitude_def)

text \<open>The comparison of finite patterns is the comparison of the numbers they represent.\<close>

lemma f32_le_scaled:
  assumes "f32_is_finite a" "f32_is_finite b"
  shows "f32_le a b \<longleftrightarrow> f32_scaled a \<le> f32_scaled b"
proof -
  have neg: "\<not> f32_is_nan a" "\<not> f32_is_nan b"
    using assms by (auto simp: f32_is_finite_def f32_is_nan_def)
  define x y where "x = unat (take_bit 31 a)" and "y = unat (take_bit 31 b)"
  have zero: "f32_magnitude n = 0 \<longleftrightarrow> n = 0" for n
    using f32_magnitude_le_iff [of n 0] by (simp add: f32_magnitude_0)
  have le: "int (f32_magnitude m) \<le> int (f32_magnitude n) \<longleftrightarrow> m \<le> n" for m n
    by (simp add: f32_magnitude_le_iff)
  have mixed1: "- int (f32_magnitude x) \<le> int (f32_magnitude y)" by simp
  have mixed2: "int (f32_magnitude x) \<le> - int (f32_magnitude y) \<longleftrightarrow> x = 0 \<and> y = 0"
    using zero [of x] zero [of y] by linarith
  show ?thesis
    unfolding f32_le_def f32_key_def f32_scaled_def x_def [symmetric] y_def [symmetric]
    using neg le mixed1 mixed2 by auto
qed

section \<open>Rounding\<close>

text \<open>
  The pattern of the number nearest to \<open>n / d\<close> (in units of \<open>2 ^ - 149\<close>), the even one of two that
  are equally near. The number is cut to a multiple of \<open>2 ^ s\<close> with 24 significant bits; a carry out
  of them runs into the exponent, as it should.
\<close>

fun f32_shift :: "nat \<Rightarrow> nat" where
  "f32_shift x = (if x < 2 ^ 24 then 0 else Suc (f32_shift (x div 2)))"

declare f32_shift.simps [simp del]

definition round_half_even :: "nat \<Rightarrow> nat \<Rightarrow> nat" where
  "round_half_even n d =
     (let q = n div d; r = n mod d in if 2 * r < d then q else if 2 * r > d then q + 1 else q + q mod 2)"

definition f32_round_pattern :: "nat \<Rightarrow> nat \<Rightarrow> nat" where
  "f32_round_pattern n d = (let s = f32_shift (n div d) in s * 2 ^ 23 + round_half_even n (d * 2 ^ s))"

lemma f32_shift_upper: "x < 2 ^ 24 * 2 ^ f32_shift x"
proof (induction x rule: f32_shift.induct)
  case (1 x)
  show ?case
  proof (cases "x < 2 ^ 24")
    case True then show ?thesis by (simp add: f32_shift.simps)
  next
    case False
    then have "x div 2 < 2 ^ 24 * 2 ^ f32_shift (x div 2)" by (rule 1)
    then have "x < 2 ^ 24 * 2 ^ f32_shift (x div 2) * 2" by (simp add: div_less_iff_less_mult)
    then show ?thesis using False by (simp add: f32_shift.simps [of x] mult.commute)
  qed
qed

lemma f32_shift_lower: "0 < f32_shift x \<Longrightarrow> 2 ^ 23 * 2 ^ f32_shift x \<le> x"
proof (induction x rule: f32_shift.induct)
  case (1 x)
  then have big: "\<not> x < 2 ^ 24" by (auto simp: f32_shift.simps [of x] split: if_splits)
  show ?case
  proof (cases "f32_shift (x div 2) = 0")
    case True then show ?thesis using big by (simp add: f32_shift.simps [of x])
  next
    case False
    with 1(1) [OF big] have "2 ^ 23 * 2 ^ f32_shift (x div 2) * 2 \<le> x div 2 * 2" by simp
    also have "\<dots> \<le> x" by simp
    finally show ?thesis using big by (simp add: f32_shift.simps [of x] mult.commute)
  qed
qed

lemma f32_shift_mono: "x \<le> y \<Longrightarrow> f32_shift x \<le> f32_shift y"
proof (induction x arbitrary: y rule: f32_shift.induct)
  case (1 x)
  show ?case
  proof (cases "x < 2 ^ 24")
    case True then show ?thesis by (simp add: f32_shift.simps)
  next
    case False
    then have "f32_shift (x div 2) \<le> f32_shift (y div 2)" using 1 by (simp add: div_le_mono)
    then show ?thesis using False 1(2) by (simp add: f32_shift.simps [of x] f32_shift.simps [of y])
  qed
qed

lemma round_half_even_bounds: "n div d \<le> round_half_even n d" "round_half_even n d \<le> n div d + 1"
proof -
  have "n div d mod 2 \<le> 1" by simp
  then show "n div d \<le> round_half_even n d" "round_half_even n d \<le> n div d + 1"
    by (auto simp: round_half_even_def Let_def)
qed

lemma round_half_even_exact: "0 < d \<Longrightarrow> round_half_even (k * d) d = k"
  by (simp add: round_half_even_def)

lemma round_half_even_near:
  assumes "0 < d"
  shows "\<bar>int (round_half_even n d) * int d - int n\<bar> * 2 \<le> int d"
proof -
  define q r where "q = n div d" and "r = n mod d"
  have n: "n = q * d + r" and r: "r < d" using assms by (simp_all add: q_def r_def)
  consider "2 * r < d" | "2 * r > d" | "2 * r = d" "even q" | "2 * r = d" "odd q" by linarith
  then show ?thesis
  proof cases
    case 1 then have "round_half_even n d = q" by (simp add: round_half_even_def q_def r_def)
    then show ?thesis using 1 n by simp
  next
    case 2 then have "round_half_even n d = q + 1" by (simp add: round_half_even_def q_def r_def)
    then show ?thesis using 2 n r by (simp add: distrib_right)
  next
    case 3 then have "round_half_even n d = q" by (simp add: round_half_even_def q_def r_def)
    then show ?thesis using 3 n by simp
  next
    case 4 then have "round_half_even n d = q + 1" by (simp add: round_half_even_def q_def r_def odd_iff_mod_2_eq_one)
    then show ?thesis using 4 n r by (simp add: distrib_right)
  qed
qed

lemma round_half_even_mono:
  assumes "n * d' \<le> n' * d" "0 < d" "0 < d'"
  shows "round_half_even n d \<le> round_half_even n' d'"
proof -
  define q r q' r' where "q = n div d" and "r = n mod d" and "q' = n' div d'" and "r' = n' mod d'"
  have n: "n = q * d + r" "r < d" "n' = q' * d' + r'" "r' < d'"
    using assms by (simp_all add: q_def r_def q'_def r'_def)
  show ?thesis
  proof (cases "q < q'")
    case True
    then show ?thesis using round_half_even_bounds(2) [of n d] round_half_even_bounds(1) [of n' d']
      by (simp add: q_def q'_def)
  next
    case False
    have "q * (d * d') \<le> n * d'" using n(1) by (simp add: algebra_simps)
    also have "\<dots> \<le> n' * d" by (rule assms(1))
    also have "\<dots> < (q' + 1) * (d * d')" using n(3,4) assms(2) by (simp add: algebra_simps)
    finally have "q \<le> q'" using assms(2,3) by (metis Suc_eq_plus1 less_Suc_eq_le mult_less_cancel2)
    then have q: "q' = q" using False by simp
    have rr: "r * d' \<le> r' * d" using assms(1) n q by (simp add: algebra_simps)
    have ge: "d \<le> 2 * r \<Longrightarrow> d' \<le> 2 * r'"
    proof -
      assume "d \<le> 2 * r"
      then have "d * d' \<le> 2 * r * d'" by simp
      also have "\<dots> \<le> 2 * r' * d" using rr by simp
      finally show ?thesis using assms(2) by (simp add: mult.commute)
    qed
    have gt: "d < 2 * r \<Longrightarrow> d' < 2 * r'"
    proof -
      assume "d < 2 * r"
      then have "d * d' < 2 * r * d'" using assms(3) by simp
      also have "\<dots> \<le> 2 * r' * d" using rr by simp
      finally show ?thesis by (metis mult.commute mult_less_cancel2)
    qed
    have "q mod 2 \<le> 1" by simp
    then show ?thesis using q ge gt
      by (auto simp: round_half_even_def Let_def q_def [symmetric] r_def [symmetric] q'_def [symmetric] r'_def [symmetric])
  qed
qed

lemma f32_magnitude_grid:
  assumes "m \<le> 2 ^ 24" "0 < s \<Longrightarrow> 2 ^ 23 \<le> m"
  shows "f32_magnitude (s * 2 ^ 23 + m) = m * 2 ^ s"
proof -
  consider "m < 2 ^ 23" | "2 ^ 23 \<le> m" "m < 2 ^ 24" | "m = 2 ^ 24" using assms(1) by linarith
  then show ?thesis
  proof cases
    case 1
    then show ?thesis using assms(2) by (cases s) (auto simp: f32_magnitude_def)
  next
    case 2
    then have m: "m = 2 ^ 23 + (m - 2 ^ 23)" "m - 2 ^ 23 < 2 ^ 23" by simp_all
    then have "(s * 2 ^ 23 + m) div 2 ^ 23 = s + 1" "(s * 2 ^ 23 + m) mod 2 ^ 23 = m - 2 ^ 23"
      using div_mult_self3 [of "2 ^ 23" "s + 1" "m - 2 ^ 23"] mod_mult_self3 [of "s + 1" "2 ^ 23" "m - 2 ^ 23"]
      by (simp_all add: algebra_simps)
    then show ?thesis using m by (simp add: f32_magnitude_def)
  next
    case 3
    then have e: "s * 2 ^ 23 + m = (s + 2) * 2 ^ 23" by simp
    have "(s * 2 ^ 23 + m) div 2 ^ 23 = s + 2" "(s * 2 ^ 23 + m) mod 2 ^ 23 = 0"
      unfolding e by simp_all
    then show ?thesis using 3 by (simp add: f32_magnitude_def)
  qed
qed

lemma f32_round_range:
  assumes "0 < d" "s = f32_shift (n div d)" "m = round_half_even n (d * 2 ^ s)"
  shows "m \<le> 2 ^ 24" "0 < s \<Longrightarrow> 2 ^ 23 \<le> m"
proof -
  have "n div d div 2 ^ s < 2 ^ 24"
    using f32_shift_upper [of "n div d"] assms(2) by (simp add: div_less_iff_less_mult mult.commute)
  then show "m \<le> 2 ^ 24"
    using round_half_even_bounds(2) [of n "d * 2 ^ s"] assms(3) by (simp add: div_mult2_eq)
  assume "0 < s"
  then have "2 ^ 23 * 2 ^ s \<le> n div d" using f32_shift_lower [of "n div d"] assms(2) by simp
  then have "2 ^ 23 \<le> n div d div 2 ^ s" by (simp add: less_eq_div_iff_mult_less_eq)
  then show "2 ^ 23 \<le> m"
    using round_half_even_bounds(1) [of n "d * 2 ^ s"] assms(3) by (simp add: div_mult2_eq)
qed

lemma f32_magnitude_round:
  assumes "0 < d"
  shows "f32_magnitude (f32_round_pattern n d)
    = round_half_even n (d * 2 ^ f32_shift (n div d)) * 2 ^ f32_shift (n div d)"
  unfolding f32_round_pattern_def Let_def
  by (rule f32_magnitude_grid) (rule f32_round_range [OF assms refl refl], assumption?)+

text \<open>Rounding is monotone in the rounded number \<open>n / d\<close>.\<close>

lemma f32_round_mono:
  assumes "n * d' \<le> n' * d" "0 < d" "0 < d'"
  shows "f32_round_pattern n d \<le> f32_round_pattern n' d'"
proof -
  define s s' where "s = f32_shift (n div d)" and "s' = f32_shift (n' div d')"
  define m m' where "m = round_half_even n (d * 2 ^ s)" and "m' = round_half_even n' (d' * 2 ^ s')"
  note r = f32_round_range [OF assms(2) s_def m_def] f32_round_range [OF assms(3) s'_def m'_def]
  have "(n div d) * (d * d') \<le> n * d'" by (simp add: mult.assoc [symmetric])
  also have "\<dots> \<le> n' * d" by (rule assms(1))
  also have "\<dots> < (n' div d' + 1) * d' * d"
  proof (rule mult_strict_right_mono)
    show "n' < (n' div d' + 1) * d'" using assms(3) dividend_less_div_times [of d' n'] by (simp add: algebra_simps)
  qed (rule assms(2))
  finally have "n div d < n' div d' + 1" using assms(2,3)
    by (metis (no_types, opaque_lifting) mult.assoc mult.commute mult_less_cancel2)
  then have s: "s \<le> s'" unfolding s_def s'_def by (intro f32_shift_mono) simp
  have "s * 2 ^ 23 + m \<le> s' * 2 ^ 23 + m'"
  proof (cases "s = s'")
    case True
    have "n * (d' * 2 ^ s) \<le> n' * (d * 2 ^ s)" using assms(1) by (simp add: mult.assoc [symmetric])
    then have "m \<le> m'" unfolding m_def m'_def True by (intro round_half_even_mono) (use assms in simp_all)
    then show ?thesis using True by simp
  next
    case False
    then have "s + 1 \<le> s'" "2 ^ 23 \<le> m'" using s r(4) by simp_all
    then have "(s + 1) * 2 ^ 23 + 2 ^ 23 \<le> s' * 2 ^ 23 + m'" by (intro add_mono mult_le_mono1) simp_all
    then show ?thesis using r(1) by simp
  qed
  then show ?thesis by (simp add: f32_round_pattern_def Let_def s_def s'_def m_def m'_def)
qed

text \<open>A number that has a pattern is rounded to it.\<close>

lemma f32_shift_magnitude: "f32_shift (f32_magnitude p) = p div 2 ^ 23 - 1"
proof (cases "p div 2 ^ 23 \<le> 1")
  case True
  then have "f32_magnitude p < 2 ^ 24"
    using f32_magnitude_def [of p] mod_less_divisor [of "2 ^ 23" p] by (cases "p div 2 ^ 23 = 0") (auto simp: le_Suc_eq)
  then show ?thesis using True by (simp add: f32_shift.simps)
next
  case False
  define e where "e = p div 2 ^ 23 - 1"
  define s where "s = f32_shift (f32_magnitude p)"
  have mag: "f32_magnitude p = (2 ^ 23 + p mod 2 ^ 23) * 2 ^ e" using False by (simp add: f32_magnitude_def e_def)
  have lo: "2 ^ 23 * 2 ^ e \<le> f32_magnitude p" unfolding mag by simp
  have hi: "f32_magnitude p < 2 ^ 24 * 2 ^ e" unfolding mag by (intro mult_strict_right_mono) simp_all
  have "s = e"
  proof (rule antisym)
    show "s \<le> e"
    proof (rule ccontr)
      assume "\<not> s \<le> e"
      then have "2 ^ 23 * 2 ^ s \<le> f32_magnitude p" using f32_shift_lower [of "f32_magnitude p"] by (simp add: s_def)
      moreover have "(2::nat) ^ (e + 1) \<le> 2 ^ s" using \<open>\<not> s \<le> e\<close> by (intro power_increasing) simp_all
      ultimately show False using hi by simp
    qed
    show "e \<le> s"
    proof (rule ccontr)
      assume "\<not> e \<le> s"
      then have "(2::nat) ^ (s + 1) \<le> 2 ^ e" by (intro power_increasing) simp_all
      then show False using lo f32_shift_upper [of "f32_magnitude p"] by (simp add: s_def)
    qed
  qed
  then show ?thesis by (simp add: s_def e_def)
qed

lemma f32_round_exact: "0 < d \<Longrightarrow> f32_round_pattern (f32_magnitude p * d) d = p"
proof -
  assume d: "0 < d"
  define s where "s = p div 2 ^ 23 - 1"
  define m where "m = (if p div 2 ^ 23 = 0 then p mod 2 ^ 23 else 2 ^ 23 + p mod 2 ^ 23)"
  have mag: "f32_magnitude p = m * 2 ^ s" by (simp add: f32_magnitude_def m_def s_def)
  have "round_half_even (f32_magnitude p * d) (d * 2 ^ s) = m"
    using round_half_even_exact [of "d * 2 ^ s" m] d by (simp add: mag ac_simps)
  moreover have "s * 2 ^ 23 + m = p"
  proof (cases "p div 2 ^ 23")
    case 0 then show ?thesis using div_mult_mod_eq [of p "2 ^ 23"] by (simp add: s_def m_def)
  next
    case (Suc k) then show ?thesis using div_mult_mod_eq [of p "2 ^ 23"] by (simp add: s_def m_def)
  qed
  ultimately show ?thesis using d f32_shift_magnitude [of p] by (simp add: f32_round_pattern_def Let_def s_def)
qed

lemma nearest_of_half:
  fixes a b n D :: int
  shows "D \<le> \<bar>a - b\<bar> \<Longrightarrow> \<bar>b - n\<bar> * 2 \<le> D \<Longrightarrow> \<bar>b - n\<bar> \<le> \<bar>a - n\<bar>"
  by (auto simp: abs_if split: if_splits)

lemma further_below:
  fixes a g n :: int
  shows "a \<le> g \<Longrightarrow> g \<le> n \<Longrightarrow> \<bar>g - n\<bar> \<le> \<bar>a - n\<bar>"
  by simp

text \<open>No pattern represents a number that is closer to \<open>n / d\<close>.\<close>

lemma f32_round_nearest:
  assumes "0 < d"
  shows "\<bar>int (f32_magnitude (f32_round_pattern n d)) * int d - int n\<bar> \<le> \<bar>int (f32_magnitude p) * int d - int n\<bar>"
proof -
  define s where "s = f32_shift (n div d)"
  define m where "m = round_half_even n (d * 2 ^ s)"
  have M: "f32_magnitude (f32_round_pattern n d) = m * 2 ^ s"
    using f32_magnitude_round [OF assms] by (simp add: s_def m_def)
  have near: "\<bar>int (m * 2 ^ s) * int d - int n\<bar> * 2 \<le> int (d * 2 ^ s)"
    using round_half_even_near [of "d * 2 ^ s" n] assms by (simp add: m_def ac_simps)
  have grid: "\<bar>int (m * 2 ^ s) * int d - int n\<bar> \<le> \<bar>int (k * 2 ^ s) * int d - int n\<bar>" for k
  proof (cases "k = m")
    case False
    then have "1 \<le> \<bar>int k - int m\<bar>" by simp
    then have "1 * int (d * 2 ^ s) \<le> \<bar>int k - int m\<bar> * int (d * 2 ^ s)" by (intro mult_right_mono) simp_all
    also have "\<dots> = \<bar>(int k - int m) * int (d * 2 ^ s)\<bar>" by (simp add: abs_mult)
    also have "(int k - int m) * int (d * 2 ^ s) = int (k * 2 ^ s) * int d - int (m * 2 ^ s) * int d"
      by (simp add: algebra_simps)
    finally show ?thesis using near by (intro nearest_of_half [of "int (d * 2 ^ s)"]) simp_all
  qed simp
  define e where "e = p div 2 ^ 23 - 1"
  define k where "k = (if p div 2 ^ 23 = 0 then p mod 2 ^ 23 else 2 ^ 23 + p mod 2 ^ 23)"
  have mag: "f32_magnitude p = k * 2 ^ e" by (simp add: f32_magnitude_def k_def e_def)
  show ?thesis
  proof (cases "s \<le> e")
    case True
    then have "f32_magnitude p = (k * 2 ^ (e - s)) * 2 ^ s" by (simp add: mag power_add [symmetric])
    then show ?thesis using grid [of "k * 2 ^ (e - s)"] M by simp
  next
    case False
    have "p mod 2 ^ 23 < 2 ^ 23" by simp
    then have "k < 2 ^ 24" by (auto simp: k_def simp del: mod_less_divisor)
    then have "f32_magnitude p < 2 ^ 24 * 2 ^ e" by (simp add: mag)
    also have "\<dots> \<le> 2 ^ 23 * 2 ^ s"
      using False power_increasing [of "e + 1" s "2::nat"] by simp
    finally have below: "f32_magnitude p < 2 ^ 23 * 2 ^ s" .
    have "2 ^ 23 * 2 ^ s \<le> n div d" using f32_shift_lower [of "n div d"] False by (simp add: s_def)
    then have "2 ^ 23 * 2 ^ s * d \<le> n" using assms by (simp add: less_eq_div_iff_mult_less_eq)
    then have n: "int (2 ^ 23 * 2 ^ s) * int d \<le> int n" by (metis of_nat_le_iff of_nat_mult)
    have "int (f32_magnitude p) * int d \<le> int (2 ^ 23 * 2 ^ s) * int d"
      using below by (intro mult_right_mono) (simp_all del: of_nat_mult of_nat_power)
    then have "\<bar>int (2 ^ 23 * 2 ^ s) * int d - int n\<bar> \<le> \<bar>int (f32_magnitude p) * int d - int n\<bar>"
      using n by (rule further_below)
    with grid [of "2 ^ 23"] show ?thesis unfolding M by (rule order_trans)
  qed
qed

section \<open>Arithmetic\<close>

text \<open>
  Addition, subtraction, multiplication and division round the exact result once. The bits of a NaN
  that an operation makes are not specified; they are those of the usual quiet NaN here.
\<close>

datatype f32_class = F32_nan | F32_inf bool | F32_fin bool nat

definition f32_classify :: "f32 \<Rightarrow> f32_class" where
  "f32_classify w =
     (if f32_exponent w = 255 then (if f32_mantissa w = 0 then F32_inf (bit w 31) else F32_nan)
      else F32_fin (bit w 31) (f32_magnitude (unat (take_bit 31 w))))"

definition F32_NAN :: f32 where "F32_NAN = 0x7FC00000"

definition f32_pack :: "bool \<Rightarrow> nat \<Rightarrow> f32" where
  "f32_pack neg p = word_of_nat ((if neg then 2 ^ 31 else 0) + min p (255 * 2 ^ 23))"

definition f32_infinity :: "bool \<Rightarrow> f32" where
  "f32_infinity neg = f32_pack neg (255 * 2 ^ 23)"

definition f32_of_ratio :: "bool \<Rightarrow> nat \<Rightarrow> nat \<Rightarrow> f32" where
  "f32_of_ratio neg n d = f32_pack neg (f32_round_pattern n d)"

definition f32_of_nat :: "nat \<Rightarrow> f32" where
  "f32_of_nat n = f32_of_ratio False (n * 2 ^ 149) 1"

definition f32_literal :: "nat \<Rightarrow> nat \<Rightarrow> f32" where
  "f32_literal n d = f32_of_ratio False (n * 2 ^ 149) d"

definition f32_mul :: "f32 \<Rightarrow> f32 \<Rightarrow> f32" where
  "f32_mul a b =
     (case (f32_classify a, f32_classify b) of
        (F32_fin s x, F32_fin t y) \<Rightarrow> f32_of_ratio (s \<noteq> t) (x * y) (2 ^ 149)
      | (F32_inf s, F32_fin t y) \<Rightarrow> if y = 0 then F32_NAN else f32_infinity (s \<noteq> t)
      | (F32_fin s x, F32_inf t) \<Rightarrow> if x = 0 then F32_NAN else f32_infinity (s \<noteq> t)
      | (F32_inf s, F32_inf t) \<Rightarrow> f32_infinity (s \<noteq> t)
      | _ \<Rightarrow> F32_NAN)"

definition f32_div :: "f32 \<Rightarrow> f32 \<Rightarrow> f32" where
  "f32_div a b =
     (case (f32_classify a, f32_classify b) of
        (F32_fin s x, F32_fin t y) \<Rightarrow>
          if y = 0 then (if x = 0 then F32_NAN else f32_infinity (s \<noteq> t))
          else f32_of_ratio (s \<noteq> t) (x * 2 ^ 149) y
      | (F32_inf s, F32_fin t y) \<Rightarrow> f32_infinity (s \<noteq> t)
      | (F32_fin s x, F32_inf t) \<Rightarrow> f32_pack (s \<noteq> t) 0
      | _ \<Rightarrow> F32_NAN)"

definition f32_add :: "f32 \<Rightarrow> f32 \<Rightarrow> f32" where
  "f32_add a b =
     (case (f32_classify a, f32_classify b) of
        (F32_fin s x, F32_fin t y) \<Rightarrow>
          if s = t then f32_of_ratio s (x + y) 1
          else if y < x then f32_of_ratio s (x - y) 1
          else if x < y then f32_of_ratio t (y - x) 1
          else f32_pack False 0
      | (F32_inf s, F32_fin t y) \<Rightarrow> f32_infinity s
      | (F32_fin s x, F32_inf t) \<Rightarrow> f32_infinity t
      | (F32_inf s, F32_inf t) \<Rightarrow> if s = t then f32_infinity s else F32_NAN
      | _ \<Rightarrow> F32_NAN)"

definition f32_neg :: "f32 \<Rightarrow> f32" where
  "f32_neg a = a XOR 0x80000000"

definition f32_sub :: "f32 \<Rightarrow> f32 \<Rightarrow> f32" where
  "f32_sub a b = f32_add a (f32_neg b)"

section \<open>Results\<close>

lemma f32_pack_parts:
  "unat (take_bit 31 (f32_pack neg p)) = min p (255 * 2 ^ 23)" "bit (f32_pack neg p) 31 = neg"
proof -
  define q where "q = min p (255 * 2 ^ 23)"
  define m where "m = (if neg then 2 ^ 31 else 0) + q"
  have q: "q < 2 ^ 31" by (simp add: q_def)
  have m: "m < 2 ^ 32" using q by (simp add: m_def)
  have w: "f32_pack neg p = word_of_nat m" unfolding f32_pack_def m_def q_def ..
  have u: "unat (f32_pack neg p) = m" using m by (simp add: w unsigned_of_nat take_bit_nat_eq_self)
  have "unat (take_bit 31 (f32_pack neg p)) = m mod 2 ^ 31"
    unfolding unsigned_take_bit_eq u by (rule take_bit_eq_mod)
  also have "\<dots> = q" using q by (simp add: m_def)
  finally show "unat (take_bit 31 (f32_pack neg p)) = min p (255 * 2 ^ 23)" by (simp add: q_def)
  have "bit (f32_pack neg p) 31 = bit (unat (f32_pack neg p)) 31" by (simp add: bit_unsigned_iff)
  also have "\<dots> = odd (m div 2 ^ 31)" unfolding u by (rule bit_iff_odd)
  also have "m div 2 ^ 31 = (if neg then 1 else 0)"
    using q div_add_self1 [of "2 ^ 31 :: nat" q] by (simp add: m_def)
  also have "odd (if neg then 1 else 0 :: nat) = neg" by simp
  finally show "bit (f32_pack neg p) 31 = neg" .
qed

lemma f32_pack_exponent:
  "f32_exponent (f32_pack neg p) = (if p < 255 * 2 ^ 23 then p div 2 ^ 23 else 255)"
  "f32_mantissa (f32_pack neg p) = (if p < 255 * 2 ^ 23 then p mod 2 ^ 23 else 0)"
  "p < 255 * 2 ^ 23 \<Longrightarrow> p div 2 ^ 23 < 255"
  by (simp_all add: f32_exponent_def f32_mantissa_def f32_pack_parts min_def div_less_iff_less_mult)

lemma f32_classify_pack:
  "f32_classify (f32_pack neg p) = (if p < 255 * 2 ^ 23 then F32_fin neg (f32_magnitude p) else F32_inf neg)"
  using f32_pack_exponent(3) [of p]
  by (auto simp del: One_nat_def simp: f32_classify_def f32_pack_exponent(1,2) f32_pack_parts min_def)

lemma f32_pack_not_nan: "\<not> f32_is_nan (f32_pack neg p)"
  using f32_pack_exponent(3) [of p] by (auto simp: f32_is_nan_def f32_pack_exponent(1,2))

lemma f32_pack_le: "f32_le (f32_pack False p) (f32_pack False p') \<longleftrightarrow> min p (255 * 2 ^ 23) \<le> min p' (255 * 2 ^ 23)"
  by (simp add: f32_le_def f32_pack_not_nan f32_key_def f32_pack_parts)

lemma f32_of_ratio_mono:
  assumes "n * d' \<le> n' * d" "0 < d" "0 < d'"
  shows "f32_le (f32_of_ratio False n d) (f32_of_ratio False n' d')"
  using f32_round_mono [OF assms] by (simp add: f32_of_ratio_def f32_pack_le)

text \<open>Integers below \<open>2 ^ 64\<close> stay far below the largest finite number.\<close>

lemma f32_of_nat_class:
  assumes "n \<le> 2 ^ 64"
  shows "f32_classify (f32_of_nat n) = F32_fin False (f32_magnitude (f32_round_pattern (n * 2 ^ 149) 1))"
proof -
  have "f32_round_pattern (n * 2 ^ 149) 1 \<le> f32_round_pattern (2 ^ 64 * 2 ^ 149) 1"
    using assms by (intro f32_round_mono) simp_all
  also have "\<dots> \<le> 255 * 2 ^ 23 - 1"
  proof -
    have m: "f32_magnitude (191 * 2 ^ 23) * 1 = 2 ^ 64 * 2 ^ 149" by (simp add: f32_magnitude_def)
    show ?thesis using f32_round_exact [of 1 "191 * 2 ^ 23"] unfolding m by simp
  qed
  finally have "f32_round_pattern (n * 2 ^ 149) 1 < 255 * 2 ^ 23" by simp
  then show ?thesis by (simp add: f32_of_nat_def f32_of_ratio_def f32_classify_pack)
qed

lemma f32_of_nat_small: "0 < n \<Longrightarrow> 0 < f32_magnitude (f32_round_pattern (n * 2 ^ 149) 1)"
proof -
  assume "0 < n"
  have "f32_round_pattern (f32_magnitude 1 * 1) 1 \<le> f32_round_pattern (n * 2 ^ 149) 1"
    using \<open>0 < n\<close> by (intro f32_round_mono) (simp_all add: f32_magnitude_def)
  then have "1 \<le> f32_round_pattern (n * 2 ^ 149) 1" by (simp only: f32_round_exact [OF zero_less_one])
  then show ?thesis using f32_magnitude_mono [of 0 "f32_round_pattern (n * 2 ^ 149) 1"] by simp
qed

text \<open>A quotient of counts is a number between 0 and 1 when the first is at most the second.\<close>

lemma f32_ratio_unit:
  assumes "a \<le> b" "0 < b" "b \<le> 2 ^ 64"
  shows "f32_le 0 (f32_div (f32_of_nat a) (f32_of_nat b))" "f32_le (f32_div (f32_of_nat a) (f32_of_nat b)) (f32_literal 1 1)"
proof -
  define x y where "x = f32_magnitude (f32_round_pattern (a * 2 ^ 149) 1)"
    and "y = f32_magnitude (f32_round_pattern (b * 2 ^ 149) 1)"
  have xy: "x \<le> y" "0 < y"
    using assms f32_round_mono [of "a * 2 ^ 149" 1 "b * 2 ^ 149" 1] f32_of_nat_small [of b]
    by (simp_all add: x_def y_def f32_magnitude_le_iff)
  have q: "f32_div (f32_of_nat a) (f32_of_nat b) = f32_of_ratio False (x * 2 ^ 149) y"
    using assms f32_of_nat_class [of a] f32_of_nat_class [of b] xy(2) by (simp add: f32_div_def x_def y_def)
  have "0 = f32_pack False 0" by (simp add: f32_pack_def)
  then show "f32_le 0 (f32_div (f32_of_nat a) (f32_of_nat b))"
    using f32_pack_le [of 0 "f32_round_pattern (x * 2 ^ 149) y"] by (simp add: q f32_of_ratio_def)
  show "f32_le (f32_div (f32_of_nat a) (f32_of_nat b)) (f32_literal 1 1)"
    unfolding q f32_literal_def by (rule f32_of_ratio_mono) (use xy in simp_all)
qed

section \<open>Evaluation\<close>

text \<open>The cut of a numeral is found from its length in bits; \<open>f32_eval\<close> computes with concrete patterns.\<close>

primrec num_length :: "num \<Rightarrow> nat" where
  "num_length num.One = 1"
| "num_length (num.Bit0 k) = num_length k + 1"
| "num_length (num.Bit1 k) = num_length k + 1"

lemma num_length_upper: "(numeral k :: nat) < 2 ^ num_length k"
proof (induction k)
  case (Bit0 k)
  then show ?case unfolding num_length.simps numeral_Bit0 [of k] numeral_Bit1 [of k] power_add power_one_right by linarith
next
  case (Bit1 k)
  then show ?case unfolding num_length.simps numeral_Bit0 [of k] numeral_Bit1 [of k] power_add power_one_right by linarith
qed simp

lemma num_length_lower: "2 ^ num_length k \<le> (numeral k + numeral k :: nat)"
proof (induction k)
  case (Bit0 k)
  then show ?case unfolding num_length.simps numeral_Bit0 [of k] numeral_Bit1 [of k] power_add power_one_right by linarith
next
  case (Bit1 k)
  then show ?case unfolding num_length.simps numeral_Bit0 [of k] numeral_Bit1 [of k] power_add power_one_right by linarith
qed simp

lemma f32_shift_bits: "x < 2 ^ b \<Longrightarrow> 2 ^ b \<le> 2 * x \<Longrightarrow> f32_shift x = b - 24"
proof (induction x arbitrary: b rule: f32_shift.induct)
  case (1 x)
  show ?case
  proof (cases "x < 2 ^ 24")
    case True
    then have "(2::nat) ^ b < 2 ^ 25" using 1(3) by simp
    then have "b < 25" by (rule power_less_imp_less_exp [rotated]) simp
    then show ?thesis using True by (simp add: f32_shift.simps)
  next
    case False
    then have "(2::nat) ^ 24 < 2 ^ b" using 1(2) by linarith
    then have "24 < b" by (rule power_less_imp_less_exp [rotated]) simp
    then obtain c where c: "b = Suc c" "24 \<le> c" by (cases b) auto
    have "x div 2 < 2 ^ c" "2 ^ c \<le> 2 * (x div 2)"
    proof -
      show "x div 2 < 2 ^ c" using 1(2) c by (simp add: div_less_iff_less_mult mult.commute)
      have "2 ^ c \<le> x" using 1(3) c by simp
      moreover have "even ((2::nat) ^ c)" using c by simp
      ultimately show "2 ^ c \<le> 2 * (x div 2)" by (metis div_le_mono dvd_mult_div_cancel nat_mult_le_cancel_disj)
    qed
    then have "f32_shift (x div 2) = c - 24" by (rule 1(1) [OF False])
    then show ?thesis using False c by (subst f32_shift.simps) simp
  qed
qed

lemma f32_shift_numeral: "f32_shift (numeral k) = num_length k - 24" "f32_shift 0 = 0" "f32_shift (Suc 0) = 0"
  by (rule f32_shift_bits [OF num_length_upper num_length_lower [folded mult_2]]) (simp_all add: f32_shift.simps)

lemmas f32_eval = f32_of_nat_def f32_literal_def f32_of_ratio_def f32_round_pattern_def f32_shift_numeral
  round_half_even_def f32_pack_def f32_div_def f32_mul_def f32_add_def f32_sub_def f32_neg_def
  f32_classify_def f32_exponent_def f32_mantissa_def f32_magnitude_def take_bit_eq_mod bit_iff_odd

end
