(* ===== verification/Crdt_Data.thy ===== *)
theory Crdt_Data
  imports Crdt_Counter Float32 Utf8
begin

text \<open>
  The sensor and event data of \<open>src/sync/crdt.rs\<close>: positions, health status, peripheral
  events, emergency events with acknowledgement tracking, and peripherals, each with its
  wire codec. Every decoder is modelled with its length checks, validation steps and
  slice reads in the order of the source. The predicates \<open>*_valid\<close> describe exactly the
  values a decoder can return; the lemmas show that decoding never panics, that it returns
  valid values only, and that it inverts encoding on valid values.
\<close>

definition MAX_BATTERY_PERCENT :: u8 where
  "MAX_BATTERY_PERCENT = 100"

definition MIN_HEART_RATE :: u8 where
  "MIN_HEART_RATE = 20"

definition MAX_HEART_RATE :: u8 where
  "MAX_HEART_RATE = 250"

definition MAX_EMERGENCY_ACKS :: nat where
  "MAX_EMERGENCY_ACKS = 256"

section \<open>Position\<close>

record position =
  latitude :: f32
  longitude :: f32
  altitude :: "f32 option"
  accuracy :: "f32 option"

definition f32_m90 :: f32 where "f32_m90 = 0xC2B40000"
definition f32_90 :: f32 where "f32_90 = 0x42B40000"
definition f32_m180 :: f32 where "f32_m180 = 0xC3340000"
definition f32_180 :: f32 where "f32_180 = 0x43340000"
definition f32_m1000 :: f32 where "f32_m1000 = 0xC47A0000"
definition f32_100000 :: f32 where "f32_100000 = 0x47C35000"
definition f32_0 :: f32 where "f32_0 = 0"

definition position_new :: "f32 \<Rightarrow> f32 \<Rightarrow> position" where
  "position_new lat lon = \<lparr>latitude = lat, longitude = lon, altitude = None, accuracy = None\<rparr>"

definition with_altitude :: "position \<Rightarrow> f32 \<Rightarrow> position" where
  "with_altitude p alt = p\<lparr>altitude := Some alt\<rparr>"

definition with_accuracy :: "position \<Rightarrow> f32 \<Rightarrow> position" where
  "with_accuracy p acc = p\<lparr>accuracy := Some acc\<rparr>"

definition position_encode :: "position \<Rightarrow> bytes" where
  "position_encode p =
     (let flags0 = (0 :: u8);
          flags1 = (if altitude p \<noteq> None then flags0 OR 0x01 else flags0);
          flags = (if accuracy p \<noteq> None then flags1 OR 0x02 else flags1)
      in le32 (latitude p) @ le32 (longitude p) @ [flags]
         @ (case altitude p of None \<Rightarrow> [] | Some alt \<Rightarrow> le32 alt)
         @ (case accuracy p of None \<Rightarrow> [] | Some acc \<Rightarrow> le32 acc))"

definition position_decode_altitude :: "bytes \<Rightarrow> u8 \<Rightarrow> position \<Rightarrow> nat \<Rightarrow> (position \<times> nat) option outcome" where
  "position_decode_altitude data flags pos offset =
     (if flags AND 0x01 \<noteq> 0 then
        if length data < offset + 4 then ret None
        else do {
          alt \<leftarrow> read_u32 data offset;
          if \<not> f32_is_finite alt \<or> \<not> (f32_le f32_m1000 alt \<and> f32_le alt f32_100000) then ret None
          else ret (Some (pos\<lparr>altitude := Some alt\<rparr>, offset + 4))
        }
      else ret (Some (pos, offset)))"

definition position_decode_accuracy :: "bytes \<Rightarrow> u8 \<Rightarrow> position \<Rightarrow> nat \<Rightarrow> position option outcome" where
  "position_decode_accuracy data flags pos offset =
     (if flags AND 0x02 \<noteq> 0 then
        if length data < offset + 4 then ret None
        else do {
          acc \<leftarrow> read_u32 data offset;
          if \<not> f32_is_finite acc \<or> f32_less acc f32_0 then ret None
          else ret (Some (pos\<lparr>accuracy := Some acc\<rparr>))
        }
      else ret (Some pos))"

definition position_decode :: "bytes \<Rightarrow> position option outcome" where
  "position_decode data =
     (if length data < 9 then ret None
      else do {
        lat \<leftarrow> read_u32 data 0;
        lon \<leftarrow> read_u32 data 4;
        flags \<leftarrow> read_u8 data 8;
        if \<not> f32_is_finite lat \<or> \<not> f32_is_finite lon then ret None
        else if \<not> (f32_le f32_m90 lat \<and> f32_le lat f32_90) then ret None
        else if \<not> (f32_le f32_m180 lon \<and> f32_le lon f32_180) then ret None
        else do {
          r \<leftarrow> position_decode_altitude data flags (position_new lat lon) 9;
          case r of
            None \<Rightarrow> ret None
          | Some (pos, offset) \<Rightarrow> position_decode_accuracy data flags pos offset
        }
      })"

section \<open>Health status\<close>

record health_status =
  battery_percent :: u8
  heart_rate :: "u8 option"
  activity :: u8
  alerts :: u8

definition health_new :: "u8 \<Rightarrow> health_status" where
  "health_new b = \<lparr>battery_percent = b, heart_rate = None, activity = 0, alerts = 0\<rparr>"

definition health_default :: health_status where
  "health_default = \<lparr>battery_percent = 0, heart_rate = None, activity = 0, alerts = 0\<rparr>"

definition with_heart_rate :: "health_status \<Rightarrow> u8 \<Rightarrow> health_status" where
  "with_heart_rate h hr = h\<lparr>heart_rate := Some hr\<rparr>"

definition with_activity :: "health_status \<Rightarrow> u8 \<Rightarrow> health_status" where
  "with_activity h a = h\<lparr>activity := a\<rparr>"

definition set_alert :: "health_status \<Rightarrow> u8 \<Rightarrow> health_status" where
  "set_alert h flag = h\<lparr>alerts := alerts h OR flag\<rparr>"

definition clear_alert :: "health_status \<Rightarrow> u8 \<Rightarrow> health_status" where
  "clear_alert h flag = h\<lparr>alerts := alerts h AND NOT flag\<rparr>"

definition has_alert :: "health_status \<Rightarrow> u8 \<Rightarrow> bool" where
  "has_alert h flag \<longleftrightarrow> alerts h AND flag \<noteq> 0"

definition health_encode :: "health_status \<Rightarrow> bytes" where
  "health_encode h =
     [battery_percent h, activity h, alerts h,
      case heart_rate h of None \<Rightarrow> 0 | Some hr \<Rightarrow> hr]"

definition health_decode :: "bytes \<Rightarrow> health_status option outcome" where
  "health_decode data =
     (if length data < 4 then ret None
      else do {
        b \<leftarrow> read_u8 data 0;
        a \<leftarrow> read_u8 data 1;
        al \<leftarrow> read_u8 data 2;
        hr \<leftarrow> read_u8 data 3;
        if b > MAX_BATTERY_PERCENT then ret None
        else if a > 3 then ret None
        else let status = (health_new b)\<lparr>activity := a, alerts := al\<rparr> in
          if hr > 0 then
            if \<not> (MIN_HEART_RATE \<le> hr \<and> hr \<le> MAX_HEART_RATE) then ret None
            else ret (Some (status\<lparr>heart_rate := Some hr\<rparr>))
          else ret (Some status)
      })"

section \<open>Peripheral types and events\<close>

datatype peripheral_type = Unknown | SoldierSensor | FixedSensor | Relay

definition peripheral_type_from_u8 :: "u8 \<Rightarrow> peripheral_type" where
  "peripheral_type_from_u8 v =
     (if v = 1 then SoldierSensor else if v = 2 then FixedSensor
      else if v = 3 then Relay else Unknown)"

primrec peripheral_type_as_u8 :: "peripheral_type \<Rightarrow> u8" where
  "peripheral_type_as_u8 Unknown = 0"
| "peripheral_type_as_u8 SoldierSensor = 1"
| "peripheral_type_as_u8 FixedSensor = 2"
| "peripheral_type_as_u8 Relay = 3"

datatype event_type = NoEvent | Ping | NeedAssist | Emergency | Moving | InPosition | Ack

definition event_type_from_u8 :: "u8 \<Rightarrow> event_type" where
  "event_type_from_u8 v =
     (if v = 1 then Ping else if v = 2 then NeedAssist else if v = 3 then Emergency
      else if v = 4 then Moving else if v = 5 then InPosition else if v = 6 then Ack
      else NoEvent)"

primrec event_type_as_u8 :: "event_type \<Rightarrow> u8" where
  "event_type_as_u8 NoEvent = 0"
| "event_type_as_u8 Ping = 1"
| "event_type_as_u8 NeedAssist = 2"
| "event_type_as_u8 Emergency = 3"
| "event_type_as_u8 Moving = 4"
| "event_type_as_u8 InPosition = 5"
| "event_type_as_u8 Ack = 6"

primrec event_type_label :: "event_type \<Rightarrow> string" where
  "event_type_label NoEvent = ''''"
| "event_type_label Ping = ''PING''"
| "event_type_label NeedAssist = ''NEED ASSIST''"
| "event_type_label Emergency = ''EMERGENCY''"
| "event_type_label Moving = ''MOVING''"
| "event_type_label InPosition = ''IN POSITION''"
| "event_type_label Ack = ''ACK''"

record peripheral_event =
  event_type :: event_type
  event_timestamp :: u64

definition event_new :: "event_type \<Rightarrow> u64 \<Rightarrow> peripheral_event" where
  "event_new t ts = \<lparr>event_type = t, event_timestamp = ts\<rparr>"

definition event_encode :: "peripheral_event \<Rightarrow> bytes" where
  "event_encode e = event_type_as_u8 (event_type e) # le64 (event_timestamp e)"

definition event_decode :: "bytes \<Rightarrow> peripheral_event option outcome" where
  "event_decode data =
     (if length data < 9 then ret None
      else do {
        t \<leftarrow> read_u8 data 0;
        ts \<leftarrow> read_u64 data 1;
        if ts \<noteq> 0 \<and> ts < MIN_VALID_TIMESTAMP then ret None
        else ret (Some \<lparr>event_type = event_type_from_u8 t, event_timestamp = ts\<rparr>)
      })"

section \<open>Emergency events\<close>

record emergency_event =
  source_node :: u32
  emergency_timestamp :: u64
  acks :: "(u32, bool) btree_map"

definition emergency_new :: "u32 \<Rightarrow> u64 \<Rightarrow> u32 list \<Rightarrow> emergency_event" where
  "emergency_new src ts known_peers =
     \<lparr>source_node = src, emergency_timestamp = ts,
      acks = fold (\<lambda>p m. if p \<noteq> src then bt_or_insert p False m else m) known_peers
               (bt_insert src True [])\<rparr>"

definition has_acked :: "emergency_event \<Rightarrow> u32 \<Rightarrow> bool" where
  "has_acked e n = bt_get_or False (acks e) n"

definition emergency_ack :: "emergency_event \<Rightarrow> u32 \<Rightarrow> emergency_event \<times> bool" where
  "emergency_ack e n =
     (let m = bt_or_insert n False (acks e) in
      if \<not> bt_get_or False m n then (e\<lparr>acks := bt_insert n True m\<rparr>, True)
      else (e\<lparr>acks := m\<rparr>, False))"

definition add_peer :: "emergency_event \<Rightarrow> u32 \<Rightarrow> emergency_event" where
  "add_peer e n = e\<lparr>acks := bt_or_insert n False (acks e)\<rparr>"

definition acked_nodes :: "emergency_event \<Rightarrow> u32 list" where
  "acked_nodes e = map fst (filter (\<lambda>(_, acked). acked) (acks e))"

definition pending_nodes :: "emergency_event \<Rightarrow> u32 list" where
  "pending_nodes e = map fst (filter (\<lambda>(_, acked). \<not> acked) (acks e))"

definition all_nodes :: "emergency_event \<Rightarrow> u32 list" where
  "all_nodes e = map fst (acks e)"

definition all_acked :: "emergency_event \<Rightarrow> bool" where
  "all_acked e \<longleftrightarrow> acks e \<noteq> [] \<and> list_all snd (acks e)"

definition peer_count :: "emergency_event \<Rightarrow> nat" where
  "peer_count e = length (acks e)"

definition ack_count :: "emergency_event \<Rightarrow> nat" where
  "ack_count e = length (filter snd (acks e))"

definition merge_ack :: "u32 \<times> bool \<Rightarrow> (u32, bool) btree_map \<times> bool \<Rightarrow> (u32, bool) btree_map \<times> bool" where
  "merge_ack e s =
     (let m = bt_or_insert (fst e) False (fst s) in
      if snd e \<and> \<not> bt_get_or False m (fst e) then (bt_insert (fst e) True m, True)
      else (m, snd s))"

definition emergency_merge :: "emergency_event \<Rightarrow> emergency_event \<Rightarrow> emergency_event \<times> bool" where
  "emergency_merge e other =
     (if source_node e \<noteq> source_node other \<or> emergency_timestamp e \<noteq> emergency_timestamp other then
        if emergency_timestamp other > emergency_timestamp e then (other, True) else (e, False)
      else
        let r = fold merge_ack (acks other) (acks e, False)
        in (e\<lparr>acks := fst r\<rparr>, snd r))"

definition encode_ack :: "u32 \<times> bool \<Rightarrow> bytes" where
  "encode_ack e = le32 (fst e) @ [if snd e then 1 else 0]"

definition emergency_encode :: "emergency_event \<Rightarrow> bytes" where
  "emergency_encode e =
     le32 (source_node e) @ le64 (emergency_timestamp e)
     @ le32 (word_of_nat (length (acks e))) @ concat (map encode_ack (acks e))"

fun emergency_decode_acks ::
  "nat \<Rightarrow> bytes \<Rightarrow> nat \<Rightarrow> (u32, bool) btree_map \<Rightarrow> (u32, bool) btree_map outcome" where
  "emergency_decode_acks 0 data offset m = ret m"
| "emergency_decode_acks (Suc n) data offset m = do {
     nid \<leftarrow> read_u32 data offset;
     if nid \<noteq> 0 then do {
       b \<leftarrow> read_u8 data (offset + 4);
       emergency_decode_acks n data (offset + 5) (bt_insert nid (b \<noteq> 0) m)
     }
     else emergency_decode_acks n data (offset + 5) m
   }"

definition emergency_decode :: "bytes \<Rightarrow> emergency_event option outcome" where
  "emergency_decode data =
     (if length data < 16 then ret None
      else do {
        src \<leftarrow> read_u32 data 0;
        ts \<leftarrow> read_u64 data 4;
        n \<leftarrow> read_u32 data 12;
        let num_acks = unat n;
        if src = 0 then ret None
        else if ts < MIN_VALID_TIMESTAMP then ret None
        else if num_acks > MAX_EMERGENCY_ACKS then ret None
        else if length data < 16 + num_acks * 5 then ret None
        else do {
          m \<leftarrow> emergency_decode_acks num_acks data 16 [];
          ret (Some \<lparr>source_node = src, emergency_timestamp = ts, acks = m\<rparr>)
        }
      })"

section \<open>Peripherals\<close>

record peripheral =
  periph_id :: u32
  parent_node :: u32
  peripheral_type :: peripheral_type
  callsign :: bytes
  health :: health_status
  last_event :: "peripheral_event option"
  location :: "position option"
  periph_timestamp :: u64

definition peripheral_new :: "u32 \<Rightarrow> peripheral_type \<Rightarrow> peripheral" where
  "peripheral_new i t =
     \<lparr>periph_id = i, parent_node = 0, peripheral_type = t, callsign = replicate 12 0,
      health = health_default, last_event = None, location = None, periph_timestamp = 0\<rparr>"

definition copy_callsign :: "bytes \<Rightarrow> bytes \<Rightarrow> bytes" where
  "copy_callsign old new = (let len = min (length new) 12 in take len new @ drop len old)"

definition with_callsign :: "peripheral \<Rightarrow> bytes \<Rightarrow> peripheral" where
  "with_callsign p s = p\<lparr>callsign := copy_callsign (callsign p) s\<rparr>"

definition set_callsign :: "peripheral \<Rightarrow> bytes \<Rightarrow> peripheral" where
  "set_callsign p s = p\<lparr>callsign := copy_callsign (replicate 12 0) s\<rparr>"

definition callsign_len :: "bytes \<Rightarrow> nat" where
  "callsign_len cs = (if 0 \<in> set cs then length (takeWhile (\<lambda>b. b \<noteq> 0) cs) else 12)"

definition callsign_str :: "peripheral \<Rightarrow> bytes" where
  "callsign_str p =
     (let s = take (callsign_len (callsign p)) (callsign p)
      in if utf8_valid s then s else [])"

definition with_parent :: "peripheral \<Rightarrow> u32 \<Rightarrow> peripheral" where
  "with_parent p n = p\<lparr>parent_node := n\<rparr>"

definition with_location :: "peripheral \<Rightarrow> position \<Rightarrow> peripheral" where
  "with_location p loc = p\<lparr>location := Some loc\<rparr>"

definition set_location :: "peripheral \<Rightarrow> f32 \<Rightarrow> f32 \<Rightarrow> f32 option \<Rightarrow> peripheral" where
  "set_location p lat lon alt =
     (let pos = position_new lat lon;
          pos = (case alt of None \<Rightarrow> pos | Some a \<Rightarrow> with_altitude pos a)
      in p\<lparr>location := Some pos\<rparr>)"

definition clear_location :: "peripheral \<Rightarrow> peripheral" where
  "clear_location p = p\<lparr>location := None\<rparr>"

definition set_event :: "peripheral \<Rightarrow> event_type \<Rightarrow> u64 \<Rightarrow> peripheral" where
  "set_event p t ts = p\<lparr>last_event := Some (event_new t ts), periph_timestamp := ts\<rparr>"

definition clear_event :: "peripheral \<Rightarrow> peripheral" where
  "clear_event p = p\<lparr>last_event := None\<rparr>"

definition peripheral_encode :: "peripheral \<Rightarrow> bytes" where
  "peripheral_encode p =
     le32 (periph_id p) @ le32 (parent_node p) @ [peripheral_type_as_u8 (peripheral_type p)]
     @ callsign p @ health_encode (health p)
     @ (case last_event p of None \<Rightarrow> [0] | Some e \<Rightarrow> 1 # event_encode e)
     @ le64 (periph_timestamp p)
     @ (case location p of None \<Rightarrow> [0] | Some l \<Rightarrow> 1 # position_encode l)"

definition peripheral_decode_event :: "bytes \<Rightarrow> (peripheral_event option \<times> nat) option outcome" where
  "peripheral_decode_event data = do {
     has_event \<leftarrow> read_u8 data 25;
     if has_event \<noteq> 0 then
       if length data < 43 then ret None
       else do {
         s \<leftarrow> slice data 26 35;
         e \<leftarrow> event_decode s;
         ret (Some (e, 35))
       }
     else ret (Some (None, 26))
   }"

definition peripheral_decode_location :: "bytes \<Rightarrow> nat \<Rightarrow> position option outcome" where
  "peripheral_decode_location data location_offset =
     (if length data > location_offset then do {
        has_location \<leftarrow> read_u8 data location_offset;
        if has_location \<noteq> 0 \<and> length data > location_offset + 1 then do {
          s \<leftarrow> slice_from data (location_offset + 1);
          position_decode s
        }
        else ret None
      }
      else ret None)"

definition peripheral_decode :: "bytes \<Rightarrow> peripheral option outcome" where
  "peripheral_decode data =
     (if length data < 34 then ret None
      else do {
        i \<leftarrow> read_u32 data 0;
        parent \<leftarrow> read_u32 data 4;
        t \<leftarrow> read_u8 data 8;
        if i = 0 then ret None
        else do {
          cs \<leftarrow> slice data 9 21;
          cs_prefix \<leftarrow> slice cs 0 (callsign_len cs);
          if callsign_len cs > 0 \<and> \<not> utf8_valid cs_prefix then ret None
          else do {
            hs \<leftarrow> slice data 21 25;
            h \<leftarrow> health_decode hs;
            case h of
              None \<Rightarrow> ret None
            | Some hlt \<Rightarrow> do {
                ev \<leftarrow> peripheral_decode_event data;
                case ev of
                  None \<Rightarrow> ret None
                | Some (event, timestamp_offset) \<Rightarrow>
                    if length data < timestamp_offset + 8 then ret None
                    else do {
                      ts \<leftarrow> read_u64 data timestamp_offset;
                      if ts \<noteq> 0 \<and> ts < MIN_VALID_TIMESTAMP then ret None
                      else do {
                        loc \<leftarrow> peripheral_decode_location data (timestamp_offset + 8);
                        ret (Some
                          \<lparr>periph_id = i, parent_node = parent,
                           peripheral_type = peripheral_type_from_u8 t, callsign = cs,
                           health = hlt, last_event = event, location = loc, periph_timestamp = ts\<rparr>)
                      }
                    }
              }
          }
        }
      })"

section \<open>Valid values\<close>

definition position_valid :: "position \<Rightarrow> bool" where
  "position_valid p \<longleftrightarrow>
     f32_is_finite (latitude p) \<and> f32_le f32_m90 (latitude p) \<and> f32_le (latitude p) f32_90
     \<and> f32_is_finite (longitude p) \<and> f32_le f32_m180 (longitude p) \<and> f32_le (longitude p) f32_180
     \<and> (case altitude p of None \<Rightarrow> True
        | Some a \<Rightarrow> f32_is_finite a \<and> f32_le f32_m1000 a \<and> f32_le a f32_100000)
     \<and> (case accuracy p of None \<Rightarrow> True | Some a \<Rightarrow> f32_is_finite a \<and> \<not> f32_less a f32_0)"

definition health_valid :: "health_status \<Rightarrow> bool" where
  "health_valid h \<longleftrightarrow>
     battery_percent h \<le> MAX_BATTERY_PERCENT \<and> activity h \<le> 3
     \<and> (case heart_rate h of None \<Rightarrow> True
        | Some hr \<Rightarrow> MIN_HEART_RATE \<le> hr \<and> hr \<le> MAX_HEART_RATE)"

definition timestamp_valid :: "u64 \<Rightarrow> bool" where
  "timestamp_valid t \<longleftrightarrow> t = 0 \<or> MIN_VALID_TIMESTAMP \<le> t"

definition emergency_valid :: "emergency_event \<Rightarrow> bool" where
  "emergency_valid e \<longleftrightarrow>
     source_node e \<noteq> 0 \<and> MIN_VALID_TIMESTAMP \<le> emergency_timestamp e \<and> bt_wf (acks e)
     \<and> length (acks e) \<le> MAX_EMERGENCY_ACKS \<and> 0 \<notin> fst ` set (acks e)"

definition peripheral_valid :: "peripheral \<Rightarrow> bool" where
  "peripheral_valid p \<longleftrightarrow>
     periph_id p \<noteq> 0 \<and> length (callsign p) = 12
     \<and> utf8_valid (take (callsign_len (callsign p)) (callsign p))
     \<and> health_valid (health p)
     \<and> (case last_event p of None \<Rightarrow> True | Some e \<Rightarrow> timestamp_valid (event_timestamp e))
     \<and> (case location p of None \<Rightarrow> True | Some l \<Rightarrow> position_valid l)
     \<and> timestamp_valid (periph_timestamp p)"

section \<open>Lemmas: position, health, events\<close>

lemma length_position_encode_ge: "9 \<le> length (position_encode p)"
  by (simp add: position_encode_def Let_def)

lemma position_encode_neq_Nil [simp]: "position_encode p \<noteq> []"
  using length_position_encode_ge [of p] by auto

lemma position_decode_encode:
  assumes "position_valid p"
  shows "position_decode (position_encode p @ post) = ret (Some p)"
  using assms
  by (cases p; cases "altitude p"; cases "accuracy p")
    (simp_all add: position_valid_def position_decode_def position_encode_def Let_def wire
      position_decode_altitude_def position_decode_accuracy_def position_new_def)

lemma position_decode_safe: "no_panic (position_decode data)"
  unfolding position_decode_def position_decode_altitude_def position_decode_accuracy_def
  by (auto intro!: safe split: if_splits)

lemma position_decode_altitude_D:
  assumes "position_decode_altitude data flags pos offset = ret (Some (pos', offset'))"
  shows "pos' = pos \<or> (\<exists>a. f32_is_finite a \<and> f32_le f32_m1000 a \<and> f32_le a f32_100000
           \<and> pos' = pos\<lparr>altitude := Some a\<rparr>)"
  using assms unfolding position_decode_altitude_def
  by (auto simp: bind_eq_Some_conv split: if_splits)

lemma position_decode_accuracy_D:
  assumes "position_decode_accuracy data flags pos offset = ret (Some pos')"
  shows "pos' = pos \<or> (\<exists>a. f32_is_finite a \<and> \<not> f32_less a f32_0 \<and> pos' = pos\<lparr>accuracy := Some a\<rparr>)"
  using assms unfolding position_decode_accuracy_def
  by (auto simp: bind_eq_Some_conv split: if_splits)

lemma position_decode_valid:
  assumes "position_decode data = ret (Some p)"
  shows "position_valid p"
proof -
  obtain lat lon flags pos offset where
    coords: "f32_is_finite lat" "f32_is_finite lon" "f32_le f32_m90 lat" "f32_le lat f32_90"
      "f32_le f32_m180 lon" "f32_le lon f32_180"
    and alt: "position_decode_altitude data flags (position_new lat lon) 9 = ret (Some (pos, offset))"
    and acc: "position_decode_accuracy data flags pos offset = ret (Some p)"
    using assms unfolding position_decode_def returns by (auto simp: returns)
  have "position_valid pos"
    using coords position_decode_altitude_D [OF alt]
    by (auto simp: position_valid_def position_new_def)
  moreover have "accuracy pos = None"
    using position_decode_altitude_D [OF alt] by (auto simp: position_new_def)
  ultimately show ?thesis
    using position_decode_accuracy_D [OF acc] by (auto simp: position_valid_def)
qed

text \<open>What the coordinate check means in degrees.\<close>

lemmas f32_eval = f32_is_finite_def f32_exponent_def f32_mantissa_def f32_is_nan_def f32_key_def
  f32_scaled_def f32_magnitude_def take_bit_eq_mod unat_mod

lemma f32_bounds:
  "f32_is_finite f32_m90" "f32_scaled f32_m90 = - 90 * 2 ^ 149"
  "f32_is_finite f32_90" "f32_scaled f32_90 = 90 * 2 ^ 149"
  "f32_is_finite f32_m180" "f32_scaled f32_m180 = - 180 * 2 ^ 149"
  "f32_is_finite f32_180" "f32_scaled f32_180 = 180 * 2 ^ 149"
  by (simp_all add: f32_eval f32_m90_def f32_90_def f32_m180_def f32_180_def)

lemma position_valid_degrees:
  assumes "position_valid p"
  shows "\<bar>f32_scaled (latitude p)\<bar> \<le> 90 * 2 ^ 149" "\<bar>f32_scaled (longitude p)\<bar> \<le> 180 * 2 ^ 149"
  using assms f32_le_scaled [of f32_m90 "latitude p"] f32_le_scaled [of "latitude p" f32_90]
    f32_le_scaled [of f32_m180 "longitude p"] f32_le_scaled [of "longitude p" f32_180]
  by (auto simp: position_valid_def f32_bounds)

lemma heart_rate_pos: "MIN_HEART_RATE \<le> hr \<Longrightarrow> 0 < hr"
  by (rule order.strict_trans2 [of _ MIN_HEART_RATE]) (simp_all add: MIN_HEART_RATE_def)

lemma health_decode_encode:
  assumes "health_valid h"
  shows "health_decode (health_encode h) = ret (Some h)"
  using assms
  by (cases h; cases "heart_rate h")
    (auto simp: health_valid_def health_decode_def health_encode_def health_new_def wire
      Let_def heart_rate_pos linorder_not_less)

lemma health_decode_safe: "no_panic (health_decode data)"
  unfolding health_decode_def by (auto intro!: safe)

lemma health_decode_valid: "health_decode data = ret (Some h) \<Longrightarrow> health_valid h"
  by (auto simp: health_decode_def health_valid_def health_new_def bind_eq_Some_conv Let_def
      linorder_not_less split: if_splits)

lemma event_type_roundtrip [simp]: "event_type_from_u8 (event_type_as_u8 t) = t"
  by (cases t) (simp_all add: event_type_from_u8_def)

lemma peripheral_type_roundtrip [simp]: "peripheral_type_from_u8 (peripheral_type_as_u8 t) = t"
  by (cases t) (simp_all add: peripheral_type_from_u8_def)

lemma length_event_encode [simp]: "length (event_encode e) = 9"
  by (simp add: event_encode_def)

lemma length_health_encode [simp]: "length (health_encode h) = 4"
  by (simp add: health_encode_def)

lemma event_decode_encode:
  "timestamp_valid (event_timestamp e) \<Longrightarrow> event_decode (event_encode e) = ret (Some e)"
  by (cases e) (auto simp: event_decode_def event_encode_def timestamp_valid_def wire)

lemma event_decode_safe: "no_panic (event_decode data)"
  unfolding event_decode_def by (auto intro!: safe)

lemma event_decode_valid:
  "event_decode data = ret (Some e) \<Longrightarrow> timestamp_valid (event_timestamp e)"
  by (auto simp: event_decode_def timestamp_valid_def bind_eq_Some_conv split: if_splits)

section \<open>Lemmas: emergency events\<close>

definition emergency_history :: "(u64 \<Rightarrow> u32) \<Rightarrow> emergency_event \<Rightarrow> bool" where
  "emergency_history src e \<longleftrightarrow> bt_wf (acks e) \<and> source_node e = src (emergency_timestamp e)"

lemma merge_ack_insert:
  "bt_wf m \<Longrightarrow> fst (merge_ack (k, v) (m, c)) = bt_insert k (bt_get_or False m k \<or> v) m"
  by (rule bt.map_ext) (auto simp: merge_ack_def Let_def bt_get_or_def split: option.splits)

lemma fst_fold_merge_ack:
  "bt_wf m \<Longrightarrow> fst (fold merge_ack es (m, c)) = bt_join (\<or>) m es"
proof (induction es arbitrary: m c)
  case Nil
  then show ?case by (simp add: bt_join_def)
next
  case (Cons e es)
  obtain k v where e: "e = (k, v)" by fastforce
  obtain m' c' where s: "merge_ack e (m, c) = (m', c')" by fastforce
  have m': "m' = bt_insert k (bt_get_or False m k \<or> v) m"
    using merge_ack_insert [OF Cons.prems, of k v c] e s by simp
  then have "bt_wf m'" using Cons.prems by simp
  then have "fst (fold merge_ack (e # es) (m, c)) = bt_join (\<or>) m' es"
    using Cons.IH s by simp
  also have "\<dots> = bt_join (\<or>) m (e # es)"
    using e m' by (simp add: bt_join_def bt_get_or_def split: option.splits)
  finally show ?case .
qed

lemma snd_fold_merge_ack:
  "bt_wf m \<Longrightarrow> distinct (map fst es) \<Longrightarrow>
   snd (fold merge_ack es (m, c)) \<longleftrightarrow> c \<or> (\<exists>k. (k, True) \<in> set es \<and> \<not> bt_get_or False m k)"
proof (induction es arbitrary: m c)
  case Nil
  then show ?case by simp
next
  case (Cons e es)
  obtain k v where e: "e = (k, v)" by fastforce
  obtain m' c' where s: "merge_ack e (m, c) = (m', c')" by fastforce
  have m': "m' = bt_insert k (bt_get_or False m k \<or> v) m"
    using merge_ack_insert [OF Cons.prems(1), of k v c] e s by simp
  have c': "c' \<longleftrightarrow> c \<or> (v \<and> \<not> bt_get_or False m k)"
    using s e by (auto simp: merge_ack_def Let_def bt_get_or_def split: if_splits option.splits)
  have old: "bt_get_or False m' k' = bt_get_or False m k'" if "(k', True) \<in> set es" for k'
    using that Cons.prems(2) e m' by (force simp: bt_get_or_def)
  have "snd (fold merge_ack (e # es) (m, c)) \<longleftrightarrow>
      c' \<or> (\<exists>k. (k, True) \<in> set es \<and> \<not> bt_get_or False m' k)"
    using Cons s m' by simp
  also have "\<dots> \<longleftrightarrow> c \<or> (\<exists>k. (k, True) \<in> set (e # es) \<and> \<not> bt_get_or False m k)"
    using c' old e by auto
  finally show ?case .
qed

definition emergency_join :: "emergency_event \<Rightarrow> emergency_event \<Rightarrow> emergency_event" where
  "emergency_join e f =
    (if emergency_timestamp e < emergency_timestamp f then f
     else if emergency_timestamp f < emergency_timestamp e then e
     else e\<lparr>acks := bt_join (\<or>) (acks e) (acks f)\<rparr>)"

lemma fst_emergency_merge:
  assumes "emergency_history src e" "emergency_history src f"
  shows "fst (emergency_merge e f) = emergency_join e f"
  using assms
  by (auto simp: emergency_merge_def emergency_join_def emergency_history_def Let_def
      fst_fold_merge_ack linorder_neq_iff)

lemma emergency_history_join:
  assumes "emergency_history src e" "emergency_history src f"
  shows "emergency_history src (emergency_join e f)"
  using assms by (auto simp: emergency_join_def emergency_history_def bt_wf_join)

lemma emergency_join_assoc:
  assumes "emergency_history src x" "emergency_history src y" "emergency_history src z"
  shows "emergency_join (emergency_join x y) z = emergency_join x (emergency_join y z)"
  using assms by (auto simp: emergency_join_def emergency_history_def or_map.map.assoc)

lemma emergency_join_commute:
  assumes "emergency_history src x" "emergency_history src y"
  shows "emergency_join x y = emergency_join y x"
  using assms by (auto simp: emergency_join_def emergency_history_def or_map.map.commute)

interpretation em: join_crdt "emergency_history src" "\<lambda>e f. fst (emergency_merge e f)" for src
proof unfold_locales
  fix x y z assume x: "emergency_history src x"
  then show "fst (emergency_merge x x) = x"
    by (simp add: fst_emergency_merge) (simp add: emergency_join_def emergency_history_def or_map.map.idem)
  assume y: "emergency_history src y"
  show "emergency_history src (fst (emergency_merge x y))"
    using x y by (simp add: fst_emergency_merge emergency_history_join)
  show "fst (emergency_merge x y) = fst (emergency_merge y x)"
    using x y by (simp add: fst_emergency_merge emergency_join_commute)
  assume z: "emergency_history src z"
  show "fst (emergency_merge (fst (emergency_merge x y)) z)
      = fst (emergency_merge x (fst (emergency_merge y z)))"
    using x y z
    by (simp add: fst_emergency_merge [of src] emergency_history_join emergency_join_assoc [of src])
qed

text \<open>Acknowledgements of one event are never lost by a merge.\<close>

lemma has_acked_merge:
  assumes "bt_wf (acks e)" "bt_wf (acks f)"
    and "source_node e = source_node f" "emergency_timestamp e = emergency_timestamp f"
  shows "has_acked (fst (emergency_merge e f)) n \<longleftrightarrow> has_acked e n \<or> has_acked f n"
  using assms
  by (auto simp: emergency_merge_def has_acked_def Let_def fst_fold_merge_ack bt_get_or_def
      bt_get_join split: option.splits)

lemma bt_wf_emergency_new: "bt_wf (acks (emergency_new src ts peers))"
proof -
  have "bt_wf m \<Longrightarrow> bt_wf (fold (\<lambda>p m. if p \<noteq> src then bt_or_insert p False m else m) peers m)" for m
    by (induction peers arbitrary: m) auto
  then show ?thesis by (simp add: emergency_new_def bt_wf_Cons)
qed

lemma emergency_new_acks:
  "bt_get (acks (emergency_new src ts peers)) n =
     (if n = src then Some True else if n \<in> set peers then Some False else None)"
proof -
  have "bt_get (fold (\<lambda>p m. if p \<noteq> src then bt_or_insert p False m else m) peers m) n =
      (if n \<noteq> src \<and> n \<in> set peers then Some (bt_get_or False m n) else bt_get m n)" for m
    by (induction peers arbitrary: m) (auto simp: bt_get_or_def)
  then show ?thesis by (auto simp: emergency_new_def bt_get_or_def)
qed

lemma emergency_ack_spec:
  assumes "bt_wf (acks e)"
  shows "bt_wf (acks (fst (emergency_ack e n)))"
    and "has_acked (fst (emergency_ack e n)) k \<longleftrightarrow> k = n \<or> has_acked e k"
    and "snd (emergency_ack e n) \<longleftrightarrow> \<not> has_acked e n"
  using assms
  by (auto simp: emergency_ack_def Let_def has_acked_def bt_get_or_def split: option.splits)

lemma pending_plus_acked: "ack_count e + length (pending_nodes e) = peer_count e"
  using sum_length_filter_compl [of snd "acks e"]
  by (simp add: ack_count_def pending_nodes_def peer_count_def case_prod_beta')

lemma all_acked_iff: "all_acked e \<longleftrightarrow> acks e \<noteq> [] \<and> pending_nodes e = []"
  by (auto simp: all_acked_def pending_nodes_def filter_empty_conv list_all_iff)

text \<open>The wire codec of emergency events.\<close>

lemma encode_ack_pair: "encode_ack (k, v) = le32 k @ [if v then 1 else 0]"
  by (simp add: encode_ack_def)

lemma length_concat_acks: "length (concat (map encode_ack es)) = length es * 5"
  by (induction es) (auto simp: encode_ack_def)

lemma length_emergency_encode: "length (emergency_encode e) = 16 + length (acks e) * 5"
  by (simp add: emergency_encode_def length_concat_acks)

lemma emergency_decode_acks_wire:
  "emergency_decode_acks (length es) (pre @ concat (map encode_ack es) @ post) (length pre) m =
     ret (fold (\<lambda>(k, v) m. if k \<noteq> 0 then bt_insert k v m else m) es m)"
proof (induction es arbitrary: pre m)
  case Nil
  then show ?case by simp
next
  case (Cons e es)
  obtain k v where e: "e = (k, v)" by fastforce
  let ?m = "if k \<noteq> 0 then bt_insert k v m else m"
  have "emergency_decode_acks (length es) ((pre @ encode_ack e) @ concat (map encode_ack es) @ post)
          (length (pre @ encode_ack e)) ?m
      = ret (fold (\<lambda>(k, v) m. if k \<noteq> 0 then bt_insert k v m else m) es ?m)"
    by (rule Cons.IH)
  then show ?case using e by (auto simp: encode_ack_pair wire)
qed

lemma emergency_decode_encode:
  assumes "emergency_valid e"
  shows "emergency_decode (emergency_encode e @ post) = ret (Some e)"
proof -
  let ?n = "word_of_nat (length (acks e)) :: u32"
  let ?pre = "le32 (source_node e) @ le64 (emergency_timestamp e) @ le32 ?n"
  have n: "unat ?n = length (acks e)"
    using assms by (simp add: emergency_valid_def MAX_EMERGENCY_ACKS_def unat_of_nat)
  have loop: "emergency_decode_acks (length (acks e)) (emergency_encode e @ post) 16 [] =
     ret (fold (\<lambda>(k, v) m. if k \<noteq> 0 then bt_insert k v m else m) (acks e) [])"
    using emergency_decode_acks_wire [of "acks e" ?pre post "[]"]
    by (simp add: emergency_encode_def)
  have "fold (\<lambda>(k, v) m. if k \<noteq> 0 then bt_insert k v m else m) (acks e) [] =
      fold (\<lambda>(k, v) m. bt_insert k v m) (acks e) []"
    using assms by (intro fold_cong) (force simp: emergency_valid_def)+
  also have "\<dots> = acks e"
    using assms by (intro bt.rebuild) (simp_all add: emergency_valid_def)
  finally have rebuilt: "fold (\<lambda>(k, v) m. if k \<noteq> 0 then bt_insert k v m else m) (acks e) [] = acks e" .
  have reads: "read_u32 (emergency_encode e @ post) 0 = ret (source_node e)"
    "read_u64 (emergency_encode e @ post) 4 = ret (emergency_timestamp e)"
    "read_u32 (emergency_encode e @ post) 12 = ret ?n"
    by (simp_all add: emergency_encode_def wire)
  show ?thesis
    using assms
    by (auto simp: emergency_decode_def reads n loop rebuilt emergency_valid_def length_emergency_encode
        Let_def linorder_not_less)
qed

lemma emergency_decode_acks_safe:
  assumes "offset + n * 5 \<le> length data"
  shows "no_panic (emergency_decode_acks n data offset m)"
  using assms by (induction n arbitrary: offset m) (auto intro!: safe)

lemma emergency_decode_safe: "no_panic (emergency_decode data)"
  unfolding emergency_decode_def by (auto intro!: safe emergency_decode_acks_safe)

lemma emergency_decode_acks_inv:
  assumes "emergency_decode_acks n data offset m = ret m'"
    and "bt_wf m" "0 \<notin> fst ` set m"
  shows "bt_wf m' \<and> 0 \<notin> fst ` set m' \<and> length m' \<le> length m + n"
  using assms
proof (induction n arbitrary: offset m)
  case 0
  then show ?case by simp
next
  case (Suc n)
  then obtain nid where nid: "read_u32 data offset = ret nid" by (auto simp: bind_eq_Some_conv)
  show ?case
  proof (cases "nid = 0")
    case True
    then have "emergency_decode_acks n data (offset + 5) m = ret m'" using nid Suc.prems(1) by simp
    then show ?thesis using Suc.IH Suc.prems(2,3) by fastforce
  next
    case False
    then obtain b where step: "emergency_decode_acks n data (offset + 5) (bt_insert nid b m) = ret m'"
      using nid Suc.prems(1) by (auto simp: bind_eq_Some_conv)
    show ?thesis
      using Suc.IH [OF step] False Suc.prems(2,3) bt_insert_length [of nid b m]
      by (auto simp: set_bt_insert)
  qed
qed

lemma emergency_decode_valid:
  assumes "emergency_decode data = ret (Some e)"
  shows "emergency_valid e"
proof -
  obtain src ts n m where "src \<noteq> 0" "MIN_VALID_TIMESTAMP \<le> ts"
    and n: "\<not> unat (n :: u32) > MAX_EMERGENCY_ACKS"
    and m: "emergency_decode_acks (unat n) data 16 [] = ret m"
    and e: "e = \<lparr>source_node = src, emergency_timestamp = ts, acks = m\<rparr>"
    using assms
    by (auto simp: emergency_decode_def bind_eq_Some_conv Let_def linorder_not_less split: if_splits)
  then show ?thesis
    using emergency_decode_acks_inv [OF m] by (auto simp: emergency_valid_def)
qed

section \<open>Lemmas: peripherals\<close>

lemma callsign_len_le: "length cs = 12 \<Longrightarrow> callsign_len cs \<le> 12"
  using length_takeWhile_le [of "\<lambda>b. b \<noteq> 0" cs] by (simp add: callsign_len_def)

lemma peripheral_decode_event_encode:
  assumes "case ev of None \<Rightarrow> True | Some e \<Rightarrow> timestamp_valid (event_timestamp e)"
    and "length pre = 25" "8 \<le> length post"
  shows "peripheral_decode_event (pre @ (case ev of None \<Rightarrow> [0] | Some e \<Rightarrow> 1 # event_encode e) @ post)
    = ret (Some (ev, case ev of None \<Rightarrow> 26 | Some e \<Rightarrow> 35))"
  using assms
  by (cases ev) (simp_all add: peripheral_decode_event_def wire event_decode_encode)

lemma peripheral_decode_location_encode:
  assumes "case loc of None \<Rightarrow> True | Some l \<Rightarrow> position_valid l" "length pre = i"
  shows "peripheral_decode_location
      (pre @ (case loc of None \<Rightarrow> [0] | Some l \<Rightarrow> 1 # position_encode l) @ post) i = ret loc"
  using assms
  by (cases loc) (auto simp: peripheral_decode_location_def wire position_decode_encode)

lemma peripheral_decode_event_safe: "34 \<le> length data \<Longrightarrow> no_panic (peripheral_decode_event data)"
  unfolding peripheral_decode_event_def by (auto intro!: safe event_decode_safe)

lemma peripheral_decode_location_safe: "no_panic (peripheral_decode_location data i)"
  unfolding peripheral_decode_location_def by (auto intro!: safe position_decode_safe)

lemma peripheral_decode_safe: "no_panic (peripheral_decode data)"
  unfolding peripheral_decode_def
  by (auto intro!: safe health_decode_safe peripheral_decode_event_safe peripheral_decode_location_safe
      simp: slice_length callsign_len_le)

lemma peripheral_decode_encode:
  assumes "peripheral_valid p"
  shows "peripheral_decode (peripheral_encode p @ post) = ret (Some p)"
proof -
  let ?ev = "case last_event p of None \<Rightarrow> [0] | Some e \<Rightarrow> 1 # event_encode e"
  let ?loc = "case location p of None \<Rightarrow> [0] | Some l \<Rightarrow> 1 # position_encode l"
  let ?head = "le32 (periph_id p) @ le32 (parent_node p)
     @ [peripheral_type_as_u8 (peripheral_type p)] @ callsign p @ health_encode (health p)"
  let ?o = "case last_event p of None \<Rightarrow> (26 :: nat) | Some e \<Rightarrow> 35"
  let ?data = "peripheral_encode p @ post"
  have data: "?data = ?head @ ?ev @ le64 (periph_timestamp p) @ ?loc @ post"
    by (simp add: peripheral_encode_def)
  have v: "length (callsign p) = 12" "periph_id p \<noteq> 0" "health_valid (health p)"
    "utf8_valid (take (callsign_len (callsign p)) (callsign p))" "timestamp_valid (periph_timestamp p)"
    "case last_event p of None \<Rightarrow> True | Some e \<Rightarrow> timestamp_valid (event_timestamp e)"
    "case location p of None \<Rightarrow> True | Some l \<Rightarrow> position_valid l"
    using assms by (auto simp: peripheral_valid_def)
  have head: "length ?head = 25" and o: "length (?head @ ?ev) = ?o"
    using v(1) by (simp_all split: option.split)
  have loc1: "1 \<le> length ?loc" by (simp split: option.split)
  have ev: "peripheral_decode_event ?data = ret (Some (last_event p, ?o))"
    unfolding data using v(6) head by (intro peripheral_decode_event_encode) simp_all
  have "peripheral_decode_location ((?head @ ?ev @ le64 (periph_timestamp p)) @ ?loc @ post) (?o + 8)
      = ret (location p)"
    using v(7) o by (intro peripheral_decode_location_encode) simp_all
  then have loc: "peripheral_decode_location ?data (?o + 8) = ret (location p)"
    by (simp add: data)
  have ts: "read_u64 ?data ?o = ret (periph_timestamp p)"
    using read_u64_wire(1) [of "?head @ ?ev" ?o] o by (simp add: data wire)
  have cs: "slice ?data 9 21 = ret (callsign p)" "slice ?data 21 25 = ret (health_encode (health p))"
    using v(1) by (simp_all add: data wire)
  have pre: "slice (callsign p) 0 (callsign_len (callsign p))
      = ret (take (callsign_len (callsign p)) (callsign p))"
    using callsign_len_le [OF v(1)] v(1) by (simp add: slice_def)
  have reads: "read_u32 ?data 0 = ret (periph_id p)" "read_u32 ?data 4 = ret (parent_node p)"
    "read_u8 ?data 8 = ret (peripheral_type_as_u8 (peripheral_type p))"
    by (simp_all add: data wire)
  have len: "?o + 8 + 1 \<le> length ?data" using o loc1 unfolding data by simp
  have "34 \<le> length ?data" using len by (simp split: option.splits)
  then show ?thesis
    using len v(2-5)
    by (simp add: peripheral_decode_def reads cs pre ev ts loc health_decode_encode timestamp_valid_def
        linorder_not_less)
qed

lemma peripheral_decode_event_D:
  assumes "peripheral_decode_event data = ret (Some (ev, i))"
  shows "case ev of None \<Rightarrow> True | Some e \<Rightarrow> timestamp_valid (event_timestamp e)"
  using assms unfolding peripheral_decode_event_def
  by (auto simp: bind_eq_Some_conv split: if_splits option.split dest: event_decode_valid)

lemma peripheral_decode_location_D:
  assumes "peripheral_decode_location data i = ret loc"
  shows "case loc of None \<Rightarrow> True | Some l \<Rightarrow> position_valid l"
  using assms unfolding peripheral_decode_location_def
  by (auto simp: bind_eq_Some_conv split: if_splits option.split dest: position_decode_valid)

lemma peripheral_decode_valid:
  assumes "peripheral_decode data = ret (Some p)"
  shows "peripheral_valid p"
proof -
  let ?cs = "callsign p"
  obtain pre hs i where
    cs: "slice data 9 21 = ret ?cs" and pre: "slice ?cs 0 (callsign_len ?cs) = ret pre"
    and utf: "callsign_len ?cs = 0 \<or> utf8_valid pre"
    and hlt: "health_decode hs = ret (Some (health p))"
    and ev: "peripheral_decode_event data = ret (Some (last_event p, i))"
    and loc: "peripheral_decode_location data (i + 8) = ret (location p)"
    and p: "periph_id p \<noteq> 0" "timestamp_valid (periph_timestamp p)"
    using assms unfolding peripheral_decode_def returns timestamp_valid_def
    by (auto simp: returns linorder_not_less)
  have "pre = take (callsign_len ?cs) ?cs" using pre by (auto simp: slice_def split: if_splits)
  then have "utf8_valid (take (callsign_len ?cs) ?cs)" using utf by auto
  then show ?thesis
    using p slice_length [OF cs] health_decode_valid [OF hlt] peripheral_decode_event_D [OF ev]
      peripheral_decode_location_D [OF loc]
    by (simp add: peripheral_valid_def)
qed

lemma length_position_encode_le: "length (position_encode p) \<le> 17"
  by (auto simp: position_encode_def Let_def split: option.splits)

lemma length_peripheral_encode: "length (callsign p) = 12 \<Longrightarrow> length (peripheral_encode p) \<le> 61"
  using le_trans [OF length_position_encode_le]
  by (auto simp: peripheral_encode_def split: option.splits)

section \<open>Properties\<close>

lemma emergency_ack_same:
  "source_node (fst (emergency_ack e n)) = source_node e"
  "emergency_timestamp (fst (emergency_ack e n)) = emergency_timestamp e"
  by (simp_all add: emergency_ack_def Let_def)

lemma has_acked_new: "has_acked (emergency_new src ts peers) n \<longleftrightarrow> n = src"
  by (simp add: has_acked_def bt_get_or_def emergency_new_acks)

lemma has_acked_merge_all:
  assumes "bt_wf (acks e)"
    and "\<forall>f \<in> set fs. bt_wf (acks f) \<and> source_node f = source_node e \<and> emergency_timestamp f = emergency_timestamp e"
  shows "has_acked (merge_all (\<lambda>e f. fst (emergency_merge e f)) e fs) n
    \<longleftrightarrow> has_acked e n \<or> (\<exists>f \<in> set fs. has_acked f n)"
  using assms
proof (induction fs arbitrary: e)
  case Nil
  then show ?case by (simp add: merge_all_def)
next
  case (Cons f fs)
  let ?m = "fst (emergency_merge e f)"
  have same: "source_node e = source_node f" "emergency_timestamp e = emergency_timestamp f"
    and wf: "bt_wf (acks e)" "bt_wf (acks f)"
    using Cons.prems(1) bspec [OF Cons.prems(2), of f] by auto
  have m: "bt_wf (acks ?m)" "source_node ?m = source_node e" "emergency_timestamp ?m = emergency_timestamp e"
    using wf same by (simp_all add: emergency_merge_def Let_def fst_fold_merge_ack bt_wf_join)
  have "has_acked ?m n \<longleftrightarrow> has_acked e n \<or> has_acked f n"
    using wf same by (rule has_acked_merge)
  moreover have "merge_all (\<lambda>e f. fst (emergency_merge e f)) e (f # fs)
      = merge_all (\<lambda>e f. fst (emergency_merge e f)) ?m fs" by (simp add: merge_all_def)
  moreover have "has_acked (merge_all (\<lambda>e f. fst (emergency_merge e f)) ?m fs) n
      \<longleftrightarrow> has_acked ?m n \<or> (\<exists>f \<in> set fs. has_acked f n)"
    using Cons.prems(2) by (intro Cons.IH m(1)) (unfold m(2,3), meson list.set_intros(2))
  ultimately show ?case by simp
qed

lemma peripheral_decode_total:
  "\<exists>r. peripheral_decode data = ret r \<and> (case r of None \<Rightarrow> True | Some p \<Rightarrow> peripheral_valid p)"
  using peripheral_decode_safe [of data] peripheral_decode_valid [of data]
  by (auto simp: no_panic_ex split: option.split)

text \<open>
  C27: emergency events converge. When at most one node raises an emergency at a given time
  stamp (\<open>src\<close>), the merge of any list of emergency states depends only on the set of states.
\<close>

theorem emergency_converges:
  assumes "emergency_history src e" "\<forall>x \<in> set es. emergency_history src x" "set es = set fs"
  shows "merge_all (\<lambda>e f. fst (emergency_merge e f)) e es = merge_all (\<lambda>e f. fst (emergency_merge e f)) e fs"
  using em.converges [OF assms] .

theorem emergency_converges_witness:
  "merge_all (\<lambda>e f. fst (emergency_merge e f)) (emergency_new 1 100 [2, 3])
      [fst (emergency_ack (emergency_new 1 100 [2, 3]) 2), emergency_new 5 200 [1]]
    = merge_all (\<lambda>e f. fst (emergency_merge e f)) (emergency_new 1 100 [2, 3])
      [emergency_new 5 200 [1], fst (emergency_ack (emergency_new 1 100 [2, 3]) 2)]"
  using emergency_converges [of "\<lambda>t. if t = 100 then 1 else 5" "emergency_new 1 100 [2, 3]"
      "[fst (emergency_ack (emergency_new 1 100 [2, 3]) 2), emergency_new 5 200 [1]]"
      "[emergency_new 5 200 [1], fst (emergency_ack (emergency_new 1 100 [2, 3]) 2)]"]
  by (simp add: emergency_history_def bt_wf_emergency_new emergency_ack_spec insert_commute)
    (simp add: emergency_new_def emergency_ack_def Let_def)

text \<open>
  Acknowledgements of an emergency are never lost and never invented. After merging any
  list of states of one event, a node counts as having acknowledged exactly if it did so in one
  of the merged states.
\<close>

theorem emergency_acks_kept:
  assumes "bt_wf (acks e)"
    and "\<forall>f \<in> set fs. bt_wf (acks f) \<and> source_node f = source_node e \<and> emergency_timestamp f = emergency_timestamp e"
  shows "has_acked (merge_all (\<lambda>e f. fst (emergency_merge e f)) e fs) n
    \<longleftrightarrow> has_acked e n \<or> (\<exists>f \<in> set fs. has_acked f n)"
  using has_acked_merge_all [OF assms] .

theorem emergency_acks_kept_witness:
  "has_acked (merge_all (\<lambda>e f. fst (emergency_merge e f)) (emergency_new 1 100 [2, 3])
      [fst (emergency_ack (emergency_new 1 100 [2, 3]) 3)]) 3
   \<and> \<not> has_acked (merge_all (\<lambda>e f. fst (emergency_merge e f)) (emergency_new 1 100 [2, 3])
      [fst (emergency_ack (emergency_new 1 100 [2, 3]) 3)]) 2"
  using emergency_acks_kept [of "emergency_new 1 100 [2, 3]"
      "[fst (emergency_ack (emergency_new 1 100 [2, 3]) 3)]" 3]
    emergency_acks_kept [of "emergency_new 1 100 [2, 3]"
      "[fst (emergency_ack (emergency_new 1 100 [2, 3]) 3)]" 2]
  by (simp add: bt_wf_emergency_new emergency_ack_spec emergency_ack_same has_acked_new)

text \<open>
  C37: two emergencies raised by different nodes with the same time stamp are never reconciled:
  each replica keeps its own and reports no change, whichever direction the merge goes.
\<close>

theorem emergency_tie_diverges:
  assumes "source_node e \<noteq> source_node f" "emergency_timestamp e = emergency_timestamp f"
  shows "emergency_merge e f = (e, False) \<and> emergency_merge f e = (f, False)"
  using assms by (simp add: emergency_merge_def)

theorem emergency_tie_diverges_witness:
  "emergency_merge (emergency_new 1 100 []) (emergency_new 2 100 []) = (emergency_new 1 100 [], False)
   \<and> emergency_merge (emergency_new 2 100 []) (emergency_new 1 100 []) = (emergency_new 2 100 [], False)"
  using emergency_tie_diverges [of "emergency_new 1 100 []" "emergency_new 2 100 []"]
  by (simp add: emergency_new_def)

text \<open>
  positions from the wire are on the globe. Parsing arbitrary bytes does not panic, and a
  position it returns has a latitude within 90 and a longitude within 180 degrees (the numeric
  value of the bit pattern, in units of the smallest subnormal, 2 to the power -149).
\<close>

theorem position_decode_on_globe:
  "\<exists>r. position_decode data = ret r
    \<and> (case r of None \<Rightarrow> True
       | Some p \<Rightarrow> \<bar>f32_scaled (latitude p)\<bar> \<le> 90 * 2 ^ 149 \<and> \<bar>f32_scaled (longitude p)\<bar> \<le> 180 * 2 ^ 149)"
  using position_decode_safe [of data] position_decode_valid [of data] position_valid_degrees
  by (auto simp: no_panic_ex split: option.split)

text \<open>
  a peripheral survives the wire. Every valid peripheral, followed by any bytes, is parsed
  back unchanged.
\<close>

theorem peripheral_roundtrip:
  assumes "peripheral_valid p"
  shows "peripheral_decode (peripheral_encode p @ post) = ret (Some p)"
  using peripheral_decode_encode [OF assms] .

theorem peripheral_roundtrip_witness:
  "peripheral_decode (peripheral_encode (set_event (with_callsign (peripheral_new 7 SoldierSensor) [65, 66, 67, 68, 69, 70, 71, 72, 73, 74, 75, 76])
      Emergency 1700000000000) @ [])
    = ret (Some (set_event (with_callsign (peripheral_new 7 SoldierSensor) [65, 66, 67, 68, 69, 70, 71, 72, 73, 74, 75, 76]) Emergency 1700000000000))"
proof (rule peripheral_roundtrip)
  show "peripheral_valid (set_event (with_callsign (peripheral_new 7 SoldierSensor) [65, 66, 67, 68, 69, 70, 71, 72, 73, 74, 75, 76])
      Emergency 1700000000000)"
    by (simp add: peripheral_valid_def set_event_def with_callsign_def peripheral_new_def copy_callsign_def
        callsign_len_def health_valid_def health_default_def health_new_def timestamp_valid_def event_new_def
        MIN_VALID_TIMESTAMP_def MAX_BATTERY_PERCENT_def)
qed

end
