(* ===== verification/Chat.thy ===== *)
theory Chat
  imports Crdt_Data
begin

text \<open>
  The chat part of \<open>src/sync/crdt.rs\<close> (feature \<open>legacy-chat\<close>): \<open>ChatMessage\<close> with its
  strictly validating codec, and \<open>ChatCRDT\<close>, the bounded add-only set of messages.
  The fixed-size byte arrays of a message are lists of that length; a slice
  \<open>[..len]\<close> of them is written \<open>take\<close>, and \<open>chat_message_wf\<close> (kept by every constructor)
  says that the length fields stay within the arrays. The loop of \<open>prune_if_needed\<close> is a
  recursion with a termination proof. The bounded merge is shown to be a join: keeping the
  32 largest message identifiers commutes with union.
\<close>

definition CHAT_MAX_TEXT_LEN :: nat where "CHAT_MAX_TEXT_LEN = 128"
definition CHAT_MAX_SENDER_LEN :: nat where "CHAT_MAX_SENDER_LEN = 12"
definition CHAT_MAX_MESSAGES :: nat where "CHAT_MAX_MESSAGES = 32"
definition CHAT_SYNC_LIMIT :: nat where "CHAT_SYNC_LIMIT = 8"

section \<open>Messages\<close>

record chat_message =
  origin_node :: u32
  msg_timestamp :: u64
  sender :: bytes
  sender_len :: u8
  msg_text :: bytes
  text_len :: u8
  is_broadcast :: bool
  requires_ack :: bool
  reply_to_node :: u32
  reply_to_timestamp :: u64

definition chat_message_default :: chat_message where
  "chat_message_default =
     \<lparr>origin_node = 0, msg_timestamp = 0,
      sender = replicate CHAT_MAX_SENDER_LEN 0, sender_len = 0,
      msg_text = replicate CHAT_MAX_TEXT_LEN 0, text_len = 0,
      is_broadcast = True, requires_ack = False, reply_to_node = 0, reply_to_timestamp = 0\<rparr>"

definition set_sender :: "chat_message \<Rightarrow> bytes \<Rightarrow> chat_message" where
  "set_sender m s =
     (let len = min (length s) CHAT_MAX_SENDER_LEN
      in m\<lparr>sender := take len s @ drop len (sender m), sender_len := word_of_nat len\<rparr>)"

definition sender_str :: "chat_message \<Rightarrow> bytes" where
  "sender_str m =
     (let s = take (unat (sender_len m)) (sender m) in if utf8_valid s then s else [])"

definition set_text :: "chat_message \<Rightarrow> bytes \<Rightarrow> chat_message" where
  "set_text m s =
     (let len = min (length s) CHAT_MAX_TEXT_LEN
      in m\<lparr>msg_text := take len s @ drop len (msg_text m), text_len := word_of_nat len\<rparr>)"

definition text_str :: "chat_message \<Rightarrow> bytes" where
  "text_str m =
     (let s = take (unat (text_len m)) (msg_text m) in if utf8_valid s then s else [])"

definition chat_message_new :: "u32 \<Rightarrow> u64 \<Rightarrow> bytes \<Rightarrow> bytes \<Rightarrow> chat_message" where
  "chat_message_new origin ts snd_name txt =
     (let msg = chat_message_default\<lparr>origin_node := origin, msg_timestamp := ts\<rparr>
      in set_text (set_sender msg snd_name) txt)"

definition set_reply_to :: "chat_message \<Rightarrow> u32 \<Rightarrow> u64 \<Rightarrow> chat_message" where
  "set_reply_to m n ts = m\<lparr>reply_to_node := n, reply_to_timestamp := ts\<rparr>"

definition is_reply :: "chat_message \<Rightarrow> bool" where
  "is_reply m \<longleftrightarrow> reply_to_node m \<noteq> 0 \<or> reply_to_timestamp m \<noteq> 0"

definition make_message_id :: "u32 \<Rightarrow> u64 \<Rightarrow> u64" where
  "make_message_id origin ts = push_bit 32 (ucast origin) OR (ts AND 0xFFFFFFFF)"

definition message_id :: "chat_message \<Rightarrow> u64" where
  "message_id m = make_message_id (origin_node m) (msg_timestamp m)"

definition chat_message_encode :: "chat_message \<Rightarrow> bytes" where
  "chat_message_encode m =
     (let flags0 = (0 :: u8);
          flags1 = (if is_broadcast m then flags0 OR 0x01 else flags0);
          flags = (if requires_ack m then flags1 OR 0x02 else flags1)
      in le32 (origin_node m) @ le64 (msg_timestamp m)
         @ [sender_len m] @ take (unat (sender_len m)) (sender m)
         @ [text_len m] @ take (unat (text_len m)) (msg_text m)
         @ [flags] @ le32 (reply_to_node m) @ le64 (reply_to_timestamp m))"

definition decode_reply_to :: "bytes \<Rightarrow> nat \<Rightarrow> (u32 \<times> u64 \<times> nat) outcome" where
  "decode_reply_to data flags_offset =
     (if length data \<ge> flags_offset + 1 + 12 then do {
        n \<leftarrow> read_u32 data (flags_offset + 1);
        ts \<leftarrow> read_u64 data (flags_offset + 5);
        ret (n, ts, flags_offset + 13)
      }
      else ret (0, 0, flags_offset + 1))"

definition chat_message_decode :: "bytes \<Rightarrow> (chat_message \<times> nat) option outcome" where
  "chat_message_decode data =
     (if length data < 14 then ret None
      else do {
        origin \<leftarrow> read_u32 data 0;
        ts \<leftarrow> read_u64 data 4;
        if origin = 0 then ret None
        else if ts < MIN_VALID_TIMESTAMP then ret None
        else do {
          sl \<leftarrow> read_u8 data 12;
          let slen = unat sl;
          if slen > CHAT_MAX_SENDER_LEN \<or> length data < 13 + slen + 1 then ret None
          else if slen = 0 then ret None
          else do {
            s \<leftarrow> slice data 13 (13 + slen);
            if \<not> utf8_valid s then ret None
            else do {
              let text_offset = 13 + slen;
              tl \<leftarrow> read_u8 data text_offset;
              let tlen = unat tl;
              if tlen > CHAT_MAX_TEXT_LEN \<or> length data < text_offset + 1 + tlen + 1 then ret None
              else do {
                t \<leftarrow> slice data (text_offset + 1) (text_offset + 1 + tlen);
                if tlen > 0 \<and> \<not> utf8_valid t then ret None
                else do {
                  let flags_offset = text_offset + 1 + tlen;
                  flags \<leftarrow> read_u8 data flags_offset;
                  (rn, rts, total_len) \<leftarrow> decode_reply_to data flags_offset;
                  ret (Some
                    (\<lparr>origin_node = origin, msg_timestamp = ts,
                      sender = s @ replicate (CHAT_MAX_SENDER_LEN - slen) 0,
                      sender_len = word_of_nat slen,
                      msg_text = t @ replicate (CHAT_MAX_TEXT_LEN - tlen) 0,
                      text_len = word_of_nat tlen,
                      is_broadcast = (flags AND 0x01 \<noteq> 0), requires_ack = (flags AND 0x02 \<noteq> 0),
                      reply_to_node = rn, reply_to_timestamp = rts\<rparr>,
                     total_len))
                }
              }
            }
          }
        }
      })"

section \<open>The chat set\<close>

record chat_crdt =
  messages :: "(u64, chat_message) btree_map"

definition chat_new :: chat_crdt where
  "chat_new = \<lparr>messages = []\<rparr>"

function prune_if_needed :: "(u64, chat_message) btree_map \<Rightarrow> (u64, chat_message) btree_map" where
  "prune_if_needed m =
     (if length m > CHAT_MAX_MESSAGES then
        (case m of
           [] \<Rightarrow> m
         | (oldest_id, _) # _ \<Rightarrow> prune_if_needed (bt_remove oldest_id m))
      else m)"
  by pat_completeness auto
termination
  by (relation "measure length") (auto simp: bt_remove_def less_Suc_eq_le)

definition add_message :: "chat_crdt \<Rightarrow> chat_message \<Rightarrow> chat_crdt \<times> bool" where
  "add_message c msg =
     (let mid = message_id msg in
      if bt_contains_key (messages c) mid then (c, False)
      else (c\<lparr>messages := prune_if_needed (bt_insert mid msg (messages c))\<rparr>, True))"

definition send_message :: "chat_crdt \<Rightarrow> u32 \<Rightarrow> u64 \<Rightarrow> bytes \<Rightarrow> bytes \<Rightarrow> chat_crdt \<times> bool" where
  "send_message c origin ts snd_name txt = add_message c (chat_message_new origin ts snd_name txt)"

definition get_message :: "chat_crdt \<Rightarrow> u32 \<Rightarrow> u64 \<Rightarrow> chat_message option" where
  "get_message c origin ts = bt_get (messages c) (make_message_id origin ts)"

definition messages_since :: "chat_crdt \<Rightarrow> u64 \<Rightarrow> chat_message list" where
  "messages_since c since = filter (\<lambda>m. msg_timestamp m > since) (map snd (messages c))"

definition chat_len :: "chat_crdt \<Rightarrow> nat" where
  "chat_len c = length (messages c)"

definition chat_is_empty :: "chat_crdt \<Rightarrow> bool" where
  "chat_is_empty c \<longleftrightarrow> messages c = []"

definition newest_timestamp :: "chat_crdt \<Rightarrow> u64 option" where
  "newest_timestamp c =
     (case map (\<lambda>e. msg_timestamp (snd e)) (messages c) of
        [] \<Rightarrow> None
      | t # ts \<Rightarrow> Some (fold max ts t))"

definition merge_message ::
  "u64 \<times> chat_message \<Rightarrow> (u64, chat_message) btree_map \<times> bool \<Rightarrow> (u64, chat_message) btree_map \<times> bool" where
  "merge_message e s =
     (if \<not> bt_contains_key (fst s) (fst e) then (bt_insert (fst e) (snd e) (fst s), True) else s)"

definition chat_merge :: "chat_crdt \<Rightarrow> chat_crdt \<Rightarrow> chat_crdt \<times> bool" where
  "chat_merge c other =
     (let r = fold merge_message (messages other) (messages c, False) in
      if snd r then (c\<lparr>messages := prune_if_needed (fst r)\<rparr>, True)
      else (c\<lparr>messages := fst r\<rparr>, False))"

definition chat_encode :: "chat_crdt \<Rightarrow> bytes" where
  "chat_encode c =
     le16 (word_of_nat (length (messages c)))
     @ concat (map (\<lambda>e. chat_message_encode (snd e)) (messages c))"

fun chat_decode_messages ::
  "nat \<Rightarrow> bytes \<Rightarrow> nat \<Rightarrow> (u64, chat_message) btree_map \<Rightarrow> (u64, chat_message) btree_map outcome" where
  "chat_decode_messages 0 data offset m = ret m"
| "chat_decode_messages (Suc n) data offset m =
     (if offset \<ge> length data then ret m
      else do {
        d \<leftarrow> slice_from data offset;
        r \<leftarrow> chat_message_decode d;
        case r of
          Some (msg, len) \<Rightarrow>
            chat_decode_messages n data (offset + len) (bt_insert (message_id msg) msg m)
        | None \<Rightarrow> ret m
      })"

definition chat_decode :: "bytes \<Rightarrow> chat_crdt option outcome" where
  "chat_decode data =
     (if length data < 2 then ret None
      else do {
        n \<leftarrow> read_u16 data 0;
        m \<leftarrow> chat_decode_messages (unat n) data 2 [];
        ret (Some \<lparr>messages = m\<rparr>)
      })"

definition chat_encoded_size :: "chat_crdt \<Rightarrow> nat" where
  "chat_encoded_size c = 2 + sum_list (map (\<lambda>e. length (chat_message_encode (snd e))) (messages c))"

definition for_sync :: "chat_crdt \<Rightarrow> chat_crdt" where
  "for_sync c =
     (if length (messages c) \<le> CHAT_SYNC_LIMIT then c
      else \<lparr>messages =
             fold (\<lambda>e m. bt_insert (fst e) (snd e) m) (take CHAT_SYNC_LIMIT (rev (messages c))) []\<rparr>)"

section \<open>Well-formed and valid messages\<close>

definition chat_message_wf :: "chat_message \<Rightarrow> bool" where
  "chat_message_wf m \<longleftrightarrow>
     length (sender m) = CHAT_MAX_SENDER_LEN \<and> unat (sender_len m) \<le> CHAT_MAX_SENDER_LEN
     \<and> length (msg_text m) = CHAT_MAX_TEXT_LEN \<and> unat (text_len m) \<le> CHAT_MAX_TEXT_LEN"

definition chat_message_valid :: "chat_message \<Rightarrow> bool" where
  "chat_message_valid m \<longleftrightarrow>
     origin_node m \<noteq> 0 \<and> MIN_VALID_TIMESTAMP \<le> msg_timestamp m
     \<and> chat_message_wf m \<and> sender_len m \<noteq> 0
     \<and> utf8_valid (take (unat (sender_len m)) (sender m))
     \<and> utf8_valid (take (unat (text_len m)) (msg_text m))
     \<and> drop (unat (sender_len m)) (sender m) = replicate (CHAT_MAX_SENDER_LEN - unat (sender_len m)) 0
     \<and> drop (unat (text_len m)) (msg_text m) = replicate (CHAT_MAX_TEXT_LEN - unat (text_len m)) 0"

definition chat_wf :: "chat_crdt \<Rightarrow> bool" where
  "chat_wf c \<longleftrightarrow> bt_wf (messages c) \<and> length (messages c) \<le> CHAT_MAX_MESSAGES"

definition chat_history :: "(u64 \<Rightarrow> chat_message) \<Rightarrow> chat_crdt \<Rightarrow> bool" where
  "chat_history h c \<longleftrightarrow> chat_wf c \<and> (\<forall>(k, m) \<in> set (messages c). m = h k)"

section \<open>Lemmas: messages\<close>

lemmas chat_consts = CHAT_MAX_TEXT_LEN_def CHAT_MAX_SENDER_LEN_def CHAT_MAX_MESSAGES_def
  CHAT_SYNC_LIMIT_def

lemma chat_message_wf_default: "chat_message_wf chat_message_default"
  by (simp add: chat_message_wf_def chat_message_default_def)

lemma chat_message_wf_set_sender: "chat_message_wf m \<Longrightarrow> chat_message_wf (set_sender m s)"
  by (auto simp: chat_message_wf_def set_sender_def Let_def unat_of_nat chat_consts min_def)

lemma chat_message_wf_set_text: "chat_message_wf m \<Longrightarrow> chat_message_wf (set_text m s)"
  by (auto simp: chat_message_wf_def set_text_def Let_def unat_of_nat chat_consts min_def)

lemma chat_message_wf_new: "chat_message_wf (chat_message_new origin ts s t)"
proof -
  have "chat_message_wf (chat_message_default\<lparr>origin_node := origin, msg_timestamp := ts\<rparr>)"
    using chat_message_wf_default by (simp add: chat_message_wf_def)
  then show ?thesis
    by (simp add: chat_message_new_def Let_def chat_message_wf_set_sender chat_message_wf_set_text)
qed

lemma decode_reply_to_safe: "no_panic (decode_reply_to data i)"
  unfolding decode_reply_to_def by (auto intro!: safe)

lemma chat_message_decode_safe: "no_panic (chat_message_decode data)"
  unfolding chat_message_decode_def by (auto intro!: safe decode_reply_to_safe)

lemma decode_reply_to_wire:
  "length pre = i + 1 \<Longrightarrow>
   decode_reply_to (pre @ le32 n @ le64 ts @ post) i = ret (n, ts, i + 13)"
  by (simp add: decode_reply_to_def wire)

lemma length_chat_message_encode:
  "chat_message_wf m \<Longrightarrow>
   length (chat_message_encode m) = 27 + unat (sender_len m) + unat (text_len m)"
  by (simp add: chat_message_encode_def chat_message_wf_def Let_def)

lemma chat_message_decode_encode:
  assumes "chat_message_valid m"
  shows "chat_message_decode (chat_message_encode m @ post)
    = ret (Some (m, length (chat_message_encode m)))"
proof -
  let ?sl = "unat (sender_len m)" and ?tl = "unat (text_len m)"
  let ?s = "take ?sl (sender m)" and ?t = "take ?tl (msg_text m)"
  define flags :: u8 where "flags =
    (let f = (if is_broadcast m then 1 else 0) in if requires_ack m then f OR 2 else f)"
  let ?data = "chat_message_encode m @ post"
  let ?pre = "le32 (origin_node m) @ le64 (msg_timestamp m) @ [sender_len m] @ ?s @ [text_len m] @ ?t @ [flags]"
  have data: "?data = ?pre @ le32 (reply_to_node m) @ le64 (reply_to_timestamp m) @ post"
    by (simp add: chat_message_encode_def flags_def Let_def)
  have v: "origin_node m \<noteq> 0" "MIN_VALID_TIMESTAMP \<le> msg_timestamp m" "sender_len m \<noteq> 0"
    "utf8_valid ?s" "utf8_valid ?t" "chat_message_wf m"
    using assms by (auto simp: chat_message_valid_def)
  have len: "length ?s = ?sl" "length ?t = ?tl" "?sl \<le> CHAT_MAX_SENDER_LEN" "?tl \<le> CHAT_MAX_TEXT_LEN"
    using v(6) by (auto simp: chat_message_wf_def)
  have tails: "?s @ replicate (CHAT_MAX_SENDER_LEN - ?sl) 0 = sender m"
    "?t @ replicate (CHAT_MAX_TEXT_LEN - ?tl) 0 = msg_text m"
    using assms by (metis append_take_drop_id chat_message_valid_def)+
  have total: "length ?data = 27 + ?sl + ?tl + length post"
    using length_chat_message_encode [OF v(6)] by simp
  have reads: "read_u32 ?data 0 = ret (origin_node m)" "read_u64 ?data 4 = ret (msg_timestamp m)"
    "read_u8 ?data 12 = ret (sender_len m)" "slice ?data 13 (13 + ?sl) = ret ?s"
    "read_u8 ?data (13 + ?sl) = ret (text_len m)"
    "slice ?data (14 + ?sl) (14 + ?sl + ?tl) = ret ?t"
    "read_u8 ?data (14 + ?sl + ?tl) = ret flags"
    unfolding data using len(1,2) by (simp_all add: wire)
  have reply: "decode_reply_to ?data (14 + ?sl + ?tl)
      = ret (reply_to_node m, reply_to_timestamp m, 27 + ?sl + ?tl)"
    unfolding data using len(1,2) by (subst decode_reply_to_wire) simp_all
  have flag: "(flags AND 1 \<noteq> 0) = is_broadcast m" "(flags AND 2 \<noteq> 0) = requires_ack m"
    by (simp_all add: flags_def Let_def)
  have pos: "?sl \<noteq> 0" using v(3) by (simp add: unat_eq_zero)
  show ?thesis
    using v(1,2,4,5) pos len(3,4) total length_chat_message_encode [OF v(6)]
    by (simp add: chat_message_decode_def reads reply flag tails Let_def linorder_not_less)
qed

lemma decode_reply_to_bound:
  "decode_reply_to data i = ret (n, ts, len) \<Longrightarrow> i + 1 \<le> len"
  by (auto simp: decode_reply_to_def bind_eq_Some_conv split: if_splits)

lemma unat_word_of_unat: "unat (word_of_nat (unat (w :: u8)) :: u8) = unat w"
  by simp

lemma chat_message_decode_valid:
  assumes "chat_message_decode data = ret (Some (m, len))"
  shows "chat_message_valid m" "14 < len"
proof -
  obtain sl tl s t rn rts flags where
    m: "origin_node m \<noteq> 0" "MIN_VALID_TIMESTAMP \<le> msg_timestamp m"
      "sender_len m = sl" "sender m = s @ replicate (CHAT_MAX_SENDER_LEN - unat sl) 0"
      "text_len m = tl" "msg_text m = t @ replicate (CHAT_MAX_TEXT_LEN - unat tl) 0"
    and sl: "unat sl \<le> CHAT_MAX_SENDER_LEN" "unat sl \<noteq> 0" "utf8_valid s"
    and s: "slice data 13 (13 + unat sl) = ret s"
    and tl: "unat tl \<le> CHAT_MAX_TEXT_LEN" "unat tl = 0 \<or> utf8_valid t"
    and t: "slice data (13 + unat sl + 1) (13 + unat sl + 1 + unat tl) = ret t"
    and reply: "decode_reply_to data (13 + unat sl + 1 + unat tl) = ret (rn, rts, len)"
    using assms unfolding chat_message_decode_def Let_def returns
    by (auto simp: returns linorder_not_less)
  have lens: "length s = unat sl" "length t = unat tl"
    using slice_length [OF s] slice_length [OF t] by simp_all
  have "utf8_valid t" using tl(2) lens(2) by (metis length_0_conv utf8_valid.simps(1))
  moreover have "sl \<noteq> 0" using sl(2) by auto
  ultimately show "chat_message_valid m"
    using m sl tl lens by (simp add: chat_message_valid_def chat_message_wf_def)
  show "14 < len" using decode_reply_to_bound [OF reply] sl(2) by linarith
qed

section \<open>Lemmas: the chat set\<close>

declare prune_if_needed.simps [simp del]

lemma prune_if_needed_keep: "bt_wf m \<Longrightarrow> prune_if_needed m = bt_keep CHAT_MAX_MESSAGES m"
proof (induction m rule: prune_if_needed.induct)
  case (1 m)
  show ?case
  proof (cases "length m > CHAT_MAX_MESSAGES")
    case True
    then obtain k v r where m: "m = (k, v) # r" by (cases m) auto
    have r: "bt_remove k m = r" using "1.prems" unfolding m by (rule bt_remove_first)
    have wf: "bt_wf r" using "1.prems" m by (simp add: bt_wf_Cons)
    have "prune_if_needed m = prune_if_needed r"
      using True r unfolding m by (subst prune_if_needed.simps) simp
    also have "\<dots> = bt_keep CHAT_MAX_MESSAGES r"
      using "1.IH" [OF True m, of k v] r wf by simp
    also have "\<dots> = bt_keep CHAT_MAX_MESSAGES m"
      using True m by (simp add: bt_keep_def Suc_diff_le)
    finally show ?thesis .
  next
    case False
    then show ?thesis by (simp add: prune_if_needed.simps [of m] bt_keep_def)
  qed
qed

lemma merge_message_union: "fst (fold merge_message es (m, c)) = bt_join (\<lambda>u v. u) m es" if "bt_wf m"
  using that
proof (induction es arbitrary: m c)
  case Nil
  then show ?case by (simp add: bt_join_def)
next
  case (Cons e es)
  obtain k v where e: "e = (k, v)" by fastforce
  define m' where "m' = bt_insert k (case bt_get m k of None \<Rightarrow> v | Some u \<Rightarrow> u) m"
  have same: "m = bt_insert k u m" if "bt_get m k = Some u" for u
    using that Cons.prems by (intro bt.map_ext) auto
  have "fst (merge_message e (m, c)) = m'"
    using same e by (auto simp: merge_message_def m'_def bt_contains_key_def split: option.splits)
  then obtain c' where s: "merge_message e (m, c) = (m', c')" by (cases "merge_message e (m, c)") auto
  have "bt_wf m'" using Cons.prems by (simp add: m'_def)
  then have "fst (fold merge_message (e # es) (m, c)) = bt_join (\<lambda>u v. u) m' es"
    using Cons.IH s by simp
  then show ?case using e by (simp add: bt_join_def m'_def)
qed

lemma merge_message_unchanged:
  "\<not> snd (fold merge_message es (m, c)) \<Longrightarrow> \<not> c \<and> fst (fold merge_message es (m, c)) = m"
proof (induction es arbitrary: m c)
  case (Cons e es)
  obtain m' c' where s: "merge_message e (m, c) = (m', c')" by fastforce
  then have "\<not> snd (fold merge_message es (m', c'))" using Cons.prems by simp
  then have rest: "\<not> c'" "fst (fold merge_message es (m', c')) = m'"
    using Cons.IH by blast+
  then have "m' = m \<and> \<not> c" using s by (auto simp: merge_message_def split: if_splits)
  then show ?case using s rest by simp
qed simp

lemma chat_merge_keep:
  assumes "chat_wf c"
  shows "fst (chat_merge c d) = \<lparr>messages = bt_keep CHAT_MAX_MESSAGES (bt_union (messages c) (messages d))\<rparr>"
proof -
  let ?r = "fold merge_message (messages d) (messages c, False)"
  have u: "fst ?r = bt_union (messages c) (messages d)"
    using assms by (simp add: merge_message_union chat_wf_def)
  show ?thesis
  proof (cases "snd ?r")
    case True
    have "prune_if_needed (fst ?r) = bt_keep CHAT_MAX_MESSAGES (fst ?r)"
      unfolding u using assms by (intro prune_if_needed_keep bt_wf_join) (simp add: chat_wf_def)
    then show ?thesis using True u by (simp add: chat_merge_def Let_def)
  next
    case False
    then have "fst ?r = messages c" using merge_message_unchanged by blast
    then show ?thesis
      using False u assms by (simp add: chat_merge_def Let_def chat_wf_def bt_keep_idle)
  qed
qed

lemma union_commute:
  assumes "bt_wf a" "bt_wf b" "\<forall>(k, m) \<in> set a. m = h k" "\<forall>(k, m) \<in> set b. m = h k"
  shows "bt_union a b = bt_union b a"
proof (rule bt.map_ext)
  fix k
  have "bt_get a k = Some v \<Longrightarrow> v = h k" "bt_get b k = Some v \<Longrightarrow> v = h k" for v
    using assms by (auto simp: bt_get_in_set [symmetric])
  then show "bt_get (bt_union a b) k = bt_get (bt_union b a) k"
    using assms(1,2) by (auto simp: bt_get_join split: option.split)
qed (use assms in \<open>simp_all add: bt_wf_join\<close>)

lemma set_union: "bt_wf a \<Longrightarrow> bt_wf b \<Longrightarrow> set (bt_union a b) \<subseteq> set a \<union> set b"
  by (auto simp: bt_get_in_set bt_wf_join bt_get_join split: option.splits)

lemma union_assoc:
  "bt_wf a \<Longrightarrow> bt_wf b \<Longrightarrow> bt_wf c \<Longrightarrow> bt_union (bt_union a b) c = bt_union a (bt_union b c)"
  by (rule bt.map_ext) (auto simp: bt_wf_join bt_get_join split: option.split)

definition msgs_ok :: "(u64 \<Rightarrow> chat_message) \<Rightarrow> (u64, chat_message) btree_map \<Rightarrow> bool" where
  "msgs_ok h m \<longleftrightarrow> bt_wf m \<and> (\<forall>(k, x) \<in> set m. x = h k)"

lemma msgs_ok_union: "msgs_ok h a \<Longrightarrow> msgs_ok h b \<Longrightarrow> msgs_ok h (bt_union a b)"
  unfolding msgs_ok_def using set_union [of a b] by (auto simp: bt_wf_join)

lemma msgs_ok_keep: "msgs_ok h a \<Longrightarrow> msgs_ok h (bt_keep n a)"
  unfolding msgs_ok_def using set_bt_keep [of n a] by (auto simp: bt_wf_keep)

lemma keep_union_right:
  assumes "msgs_ok h a" "msgs_ok h b"
  shows "bt_keep n (bt_union a (bt_keep n b)) = bt_keep n (bt_union a b)"
proof -
  have "bt_union a (bt_keep n b) = bt_union (bt_keep n b) a"
    using assms msgs_ok_keep [OF assms(2)] by (auto simp: msgs_ok_def intro!: union_commute)
  moreover have "bt_union a b = bt_union b a"
    using assms by (auto simp: msgs_ok_def intro!: union_commute)
  ultimately show ?thesis
    using assms by (simp add: bt_keep_union_left msgs_ok_def)
qed

lemma chat_history_iff:
  "chat_history h c \<longleftrightarrow> msgs_ok h (messages c) \<and> length (messages c) \<le> CHAT_MAX_MESSAGES"
  by (auto simp: chat_history_def msgs_ok_def chat_wf_def)

lemma chat_history_wf: "chat_history h c \<Longrightarrow> chat_wf c"
  by (simp add: chat_history_def)

lemma length_bt_keep: "length (bt_keep n m) \<le> n"
  by (simp add: bt_keep_def)

interpretation chat: join_crdt "chat_history h" "\<lambda>c d. fst (chat_merge c d)" for h
proof unfold_locales
  fix x y z assume x: "chat_history h x"
  have wfx: "bt_wf (messages x)" using x by (simp add: chat_history_iff msgs_ok_def)
  have "bt_union (messages x) (messages x) = messages x"
    using wfx by (intro bt.map_ext) (auto simp: bt_wf_join bt_get_join split: option.split)
  then show "fst (chat_merge x x) = x"
    using x by (simp add: chat_merge_keep chat_history_wf) (simp add: bt_keep_idle chat_history_iff)
  assume y: "chat_history h y"
  show merged: "chat_history h (fst (chat_merge x y))"
    using x y by (simp add: chat_merge_keep chat_history_wf)
      (simp add: chat_history_iff msgs_ok_keep msgs_ok_union length_bt_keep)
  have "bt_union (messages x) (messages y) = bt_union (messages y) (messages x)"
    using x y by (auto simp: chat_history_iff msgs_ok_def intro!: union_commute)
  then show "fst (chat_merge x y) = fst (chat_merge y x)"
    using x y by (simp add: chat_merge_keep chat_history_wf)
  assume z: "chat_history h z"
  have wf: "bt_wf (messages x)" "bt_wf (messages y)" "bt_wf (messages z)"
    using x y z by (simp_all add: chat_history_iff msgs_ok_def)
  have "bt_keep CHAT_MAX_MESSAGES (bt_union (bt_keep CHAT_MAX_MESSAGES (bt_union (messages x) (messages y)))
        (messages z)) = bt_keep CHAT_MAX_MESSAGES (bt_union (messages x) (bt_keep CHAT_MAX_MESSAGES
        (bt_union (messages y) (messages z))))"
    using x y z wf keep_union_right [of h "messages x" "bt_union (messages y) (messages z)"]
    by (simp add: bt_keep_union_left bt_wf_join union_assoc chat_history_iff msgs_ok_union)
  then show "fst (chat_merge (fst (chat_merge x y)) z) = fst (chat_merge x (fst (chat_merge y z)))"
    using x y chat_history_wf [OF merged] by (simp add: chat_merge_keep chat_history_wf)
qed

text \<open>The message identifier is the origin node in the upper half, the time stamp in the lower.\<close>

lemma unat_make_message_id: "unat (make_message_id n ts) = unat n * 2 ^ 32 + unat ts mod 2 ^ 32"
proof -
  let ?hi = "push_bit 32 (ucast n) :: u64" and ?lo = "take_bit 32 ts"
  have hi: "unat ?hi = unat n * 2 ^ 32"
    using unat_less [of n]
    by (simp add: push_bit_eq_mult unat_word_ariths unsigned_ucast_eq take_bit_eq_mod)
  have lo: "unat ?lo = unat ts mod 2 ^ 32"
    by (simp add: take_bit_eq_mod unat_mod)
  have "?hi AND ?lo = 0" by (rule bit_word_eqI) (simp add: bit_simps)
  then have "make_message_id n ts = ?hi + ?lo"
    by (simp add: make_message_id_def take_bit_eq_mask mask_eq_exp_minus_1 disjunctive_add_eq_or)
  moreover have "unat ?hi + unat ?lo < 2 ^ 64"
    unfolding hi lo using unat_less [of n] mod_less_divisor [of "2 ^ 32" "unat ts"] by simp
  ultimately show ?thesis by (simp add: unat_add_lem [THEN iffD1] hi lo)
qed

lemma make_message_id_origin_less: "n < n' \<Longrightarrow> make_message_id n ts < make_message_id n' ts'"
proof -
  assume "n < n'"
  then have "(unat n + 1) * 2 ^ 32 \<le> unat n' * 2 ^ 32" by (simp add: word_less_nat_alt)
  moreover have "unat ts mod 2 ^ 32 < 2 ^ 32" by simp
  ultimately show ?thesis by (simp add: word_less_nat_alt unat_make_message_id)
qed

lemma bt_insert_first: "\<forall>k' \<in> fst ` set m. k < k' \<Longrightarrow> bt_insert k v m = (k, v) # m"
  by (cases m) auto

lemma add_message_evicted:
  assumes "bt_wf (messages c)" "length (messages c) = CHAT_MAX_MESSAGES"
    and "\<forall>k \<in> fst ` set (messages c). message_id msg < k"
  shows "add_message c msg = (c, True)"
proof -
  have "bt_get (messages c) (message_id msg) = None"
    using assms(3) by (auto simp: bt_get_def map_of_eq_None_iff)
  moreover have "prune_if_needed (bt_insert (message_id msg) msg (messages c)) = messages c"
    using assms by (simp add: bt_insert_first bt_wf_Cons prune_if_needed_keep bt_keep_def)
  ultimately show ?thesis by (simp add: add_message_def bt_contains_key_def)
qed

lemma chat_wf_add_message: "bt_wf (messages c) \<Longrightarrow> chat_wf c \<or> snd (add_message c m) \<Longrightarrow> chat_wf (fst (add_message c m))"
  by (auto simp: add_message_def Let_def chat_wf_def prune_if_needed_keep bt_wf_keep length_bt_keep)

text \<open>The wire codec of the chat set.\<close>

definition chat_sendable :: "chat_crdt \<Rightarrow> bool" where
  "chat_sendable c \<longleftrightarrow>
     bt_wf (messages c) \<and> length (messages c) < 2 ^ 16
     \<and> (\<forall>(k, m) \<in> set (messages c). k = message_id m \<and> chat_message_valid m)"

lemma chat_decode_messages_safe: "no_panic (chat_decode_messages n data offset m)"
  by (induction n arbitrary: offset m) (auto intro!: safe chat_message_decode_safe)

lemma chat_decode_safe: "no_panic (chat_decode data)"
  unfolding chat_decode_def by (auto intro!: safe chat_decode_messages_safe)

lemma chat_decode_messages_inv:
  assumes "chat_decode_messages n data offset m = ret m'"
    and "bt_wf m" "\<forall>(k, x) \<in> set m. k = message_id x \<and> chat_message_valid x"
  shows "bt_wf m' \<and> (\<forall>(k, x) \<in> set m'. k = message_id x \<and> chat_message_valid x)
    \<and> length m' \<le> length m + n"
  using assms
proof (induction n arbitrary: offset m)
  case 0
  then show ?case by simp
next
  case (Suc n)
  consider (stop) "m' = m"
    | (more) d msg len where "chat_message_decode d = ret (Some (msg, len))"
        "chat_decode_messages n data (offset + len) (bt_insert (message_id msg) msg m) = ret m'"
    using Suc.prems(1) by (auto simp: bind_eq_Some_conv split: if_splits option.splits)
  then show ?case
  proof cases
    case stop
    then show ?thesis using Suc.prems by simp
  next
    case more
    let ?m = "bt_insert (message_id msg) msg m"
    have "\<forall>(k, x) \<in> set ?m. k = message_id x \<and> chat_message_valid x"
      using Suc.prems(2,3) chat_message_decode_valid(1) [OF more(1)]
      by (auto simp: bt_get_in_set split: if_splits)
    then show ?thesis
      using Suc.IH [OF more(2)] Suc.prems(2) bt_insert_length [of "message_id msg" msg m] by simp
  qed
qed

lemma chat_decode_sendable:
  assumes "chat_decode data = ret (Some c)"
  shows "chat_sendable c"
proof -
  obtain n m where m: "chat_decode_messages (unat (n :: u16)) data 2 [] = ret m" "messages c = m"
    using assms by (auto simp: chat_decode_def bind_eq_Some_conv split: if_splits)
  show ?thesis
    using chat_decode_messages_inv [OF m(1)] m(2) unat_less [of n] by (simp add: chat_sendable_def)
qed

lemma chat_decode_messages_wire:
  assumes "\<forall>e \<in> set es. chat_message_valid (snd e)"
  shows "chat_decode_messages (length es)
      (pre @ concat (map (\<lambda>e. chat_message_encode (snd e)) es) @ post) (length pre) m
    = ret (fold (\<lambda>e m. bt_insert (message_id (snd e)) (snd e) m) es m)"
  using assms
proof (induction es arbitrary: pre m)
  case Nil
  then show ?case by simp
next
  case (Cons e es)
  let ?x = "chat_message_encode (snd e)"
  let ?rest = "concat (map (\<lambda>e. chat_message_encode (snd e)) es) @ post"
  have dec: "chat_message_decode (?x @ ?rest) = ret (Some (snd e, length ?x))"
    using Cons.prems by (intro chat_message_decode_encode) simp
  have ne: "?x \<noteq> []" by (simp add: chat_message_encode_def Let_def)
  have "chat_decode_messages (length es) ((pre @ ?x) @ ?rest) (length (pre @ ?x))
       (bt_insert (message_id (snd e)) (snd e) m)
     = ret (fold (\<lambda>e m. bt_insert (message_id (snd e)) (snd e) m) es
         (bt_insert (message_id (snd e)) (snd e) m))"
    using Cons.prems by (intro Cons.IH) simp
  then show ?case using dec ne by (simp add: wire)
qed

lemma chat_decode_encode:
  assumes "chat_sendable c"
  shows "chat_decode (chat_encode c @ post) = ret (Some c)"
proof -
  let ?n = "word_of_nat (length (messages c)) :: u16"
  have n: "unat ?n = length (messages c)"
    using assms by (simp add: chat_sendable_def unat_of_nat)
  have valid: "\<forall>e \<in> set (messages c). chat_message_valid (snd e)"
    using assms by (auto simp: chat_sendable_def)
  have "fold (\<lambda>e m. bt_insert (message_id (snd e)) (snd e) m) (messages c) []
      = fold (\<lambda>(k, v) m. bt_insert k v m) (messages c) []"
    using assms by (intro fold_cong) (auto simp: chat_sendable_def)
  also have "\<dots> = messages c"
    using assms by (intro bt.rebuild) (simp_all add: chat_sendable_def)
  finally have rebuilt:
    "fold (\<lambda>e m. bt_insert (message_id (snd e)) (snd e) m) (messages c) [] = messages c" .
  have "chat_decode_messages (length (messages c)) (chat_encode c @ post) 2 [] = ret (messages c)"
    using chat_decode_messages_wire [of "messages c" "le16 ?n" post "[]"] rebuilt valid
    by (simp add: chat_encode_def)
  moreover have "read_u16 (chat_encode c @ post) 0 = ret ?n"
    by (simp add: chat_encode_def wire)
  ultimately show ?thesis by (simp add: chat_decode_def n) (simp add: chat_encode_def)
qed

lemma length_chat_encode: "length (chat_encode c) = chat_encoded_size c"
  by (simp add: chat_encode_def chat_encoded_size_def length_concat comp_def)

lemma for_sync_keep: "bt_wf (messages c) \<Longrightarrow> messages (for_sync c) = bt_keep CHAT_SYNC_LIMIT (messages c)"
proof -
  assume wf: "bt_wf (messages c)"
  let ?k = "bt_keep CHAT_SYNC_LIMIT (messages c)"
  have "take CHAT_SYNC_LIMIT (rev (messages c)) = rev ?k" by (simp add: rev_bt_keep)
  moreover have "fold (\<lambda>(k, v) m. bt_insert k v m) (rev ?k) [] = ?k"
    using wf by (intro bt.rebuild) (simp_all add: bt_wf_keep)
  ultimately show ?thesis
    by (simp add: for_sync_def bt_keep_idle case_prod_beta')
qed

section \<open>Properties\<close>

lemmas message_build = chat_message_new_def set_text_def set_sender_def chat_message_default_def Let_def

lemma chat_history_single:
  "h (message_id m) = m \<Longrightarrow> chat_history h (fst (add_message chat_new m))"
  by (simp add: chat_history_def chat_wf_def add_message_def chat_new_def bt_contains_key_def bt_get_def
      prune_if_needed_keep bt_wf_Cons bt_keep_def CHAT_MAX_MESSAGES_def Let_def)

text \<open>
  C26: the bounded chat set converges although it evicts. When a message identifier stands for
  one message (\<open>h\<close>), the state after merging any list of chat sets depends only on the set of
  sets merged, and never holds more than 32 messages.
\<close>

theorem chat_converges:
  assumes "chat_history h c" "\<forall>x \<in> set cs. chat_history h x" "set cs = set ds"
  shows "merge_all (\<lambda>c d. fst (chat_merge c d)) c cs = merge_all (\<lambda>c d. fst (chat_merge c d)) c ds
    \<and> length (messages (merge_all (\<lambda>c d. fst (chat_merge c d)) c cs)) \<le> CHAT_MAX_MESSAGES"
  using chat.converges [OF assms] chat.inv_merge_all [OF assms(1,2)] by (simp add: chat_history_iff)

theorem chat_converges_witness:
  "merge_all (\<lambda>c d. fst (chat_merge c d)) chat_new
      [fst (add_message chat_new (chat_message_new 1 5 [65] [66])), fst (add_message chat_new (chat_message_new 2 5 [65] [67]))]
    = merge_all (\<lambda>c d. fst (chat_merge c d)) chat_new
      [fst (add_message chat_new (chat_message_new 2 5 [65] [67])), fst (add_message chat_new (chat_message_new 1 5 [65] [66]))]"
proof -
  let ?m = "chat_message_new 1 5 [65] [66]" and ?n = "chat_message_new 2 5 [65] [67]"
  let ?h = "\<lambda>k. if k = message_id ?m then ?m else ?n"
  have "message_id ?n \<noteq> message_id ?m"
    by (simp add: message_id_def make_message_id_def message_build)
  then have "chat_history ?h (fst (add_message chat_new ?m))" "chat_history ?h (fst (add_message chat_new ?n))"
    by (simp_all add: chat_history_single)
  then show ?thesis
    using chat_converges [of ?h chat_new "[fst (add_message chat_new ?m), fst (add_message chat_new ?n)]"
        "[fst (add_message chat_new ?n), fst (add_message chat_new ?m)]"]
    by (simp add: insert_commute) (simp add: chat_history_def chat_wf_def chat_new_def)
qed

text \<open>
  a chat set survives the wire. Every set of valid messages under their identifiers,
  followed by any bytes, is parsed back unchanged.
\<close>

theorem chat_roundtrip:
  assumes "chat_sendable c"
  shows "chat_decode (chat_encode c @ post) = ret (Some c)"
  using chat_decode_encode [OF assms] .

theorem chat_roundtrip_witness:
  "chat_decode (chat_encode (fst (add_message chat_new (chat_message_new 1 1700000000000 [65] [66]))) @ [])
    = ret (Some (fst (add_message chat_new (chat_message_new 1 1700000000000 [65] [66]))))"
proof (rule chat_roundtrip)
  show "chat_sendable (fst (add_message chat_new (chat_message_new 1 1700000000000 [65] [66])))"
    by (simp add: chat_sendable_def add_message_def chat_new_def bt_contains_key_def bt_get_def Let_def
        prune_if_needed_keep bt_wf_Cons bt_keep_def CHAT_MAX_MESSAGES_def message_id_def
        chat_message_valid_def chat_message_wf_def message_build MIN_VALID_TIMESTAMP_def
        CHAT_MAX_SENDER_LEN_def CHAT_MAX_TEXT_LEN_def)
qed

text \<open>
  a full chat set accepts and drops. Adding a message to a set of 32 reports success, yet
  leaves the set unchanged, if every stored message comes from a node with a larger identifier,
  however old those messages are: eviction follows the node identifier before the time stamp.
\<close>

theorem chat_add_dropped:
  assumes "bt_wf (messages c)" "length (messages c) = CHAT_MAX_MESSAGES"
    and "\<forall>(k, m) \<in> set (messages c). k = message_id m \<and> origin_node msg < origin_node m"
  shows "add_message c msg = (c, True)"
proof (rule add_message_evicted [OF assms(1,2)])
  show "\<forall>k \<in> fst ` set (messages c). message_id msg < k"
    using assms(3) by (fastforce simp: message_id_def intro: make_message_id_origin_less)
qed

theorem chat_add_dropped_witness:
  "add_message \<lparr>messages = map (\<lambda>n. (message_id (chat_message_new 2 (word_of_nat n) [65] [66]),
      chat_message_new 2 (word_of_nat n) [65] [66])) [0..<32]\<rparr> (chat_message_new 1 1000 [65] [67])
   = (\<lparr>messages = map (\<lambda>n. (message_id (chat_message_new 2 (word_of_nat n) [65] [66]),
      chat_message_new 2 (word_of_nat n) [65] [66])) [0..<32]\<rparr>, True)"
proof (rule chat_add_dropped)
  show "bt_wf (messages \<lparr>messages = map (\<lambda>n. (message_id (chat_message_new 2 (word_of_nat n) [65] [66]),
      chat_message_new 2 (word_of_nat n) [65] [66])) [0..<32]\<rparr>)"
    by (simp add: bt_wf_def sorted_wrt_map sorted_wrt_iff_nth_less message_id_def message_build
        word_less_nat_alt unat_make_message_id unat_of_nat)
qed (simp_all add: CHAT_MAX_MESSAGES_def message_build)

end
