(* ===== verification/Document.thy ===== *)
theory Document
  imports Chat
begin

text \<open>
  The mesh document of \<open>src/document.rs\<close>: header, counter, and optional peripheral,
  emergency and chat sections, with its merge and its wire codec. The cargo feature
  \<open>legacy-chat\<close> is the argument \<open>lc\<close> of the operations it changes; without the feature the
  chat field does not exist, which is the value \<open>None\<close> here. The parse loop over the
  sections is a recursion with a termination proof (each section advances the offset).

  Main results: parsing arbitrary bytes never panics and returns valid parts only; parsing
  inverts encoding; merging documents is, on the replicated part (counter, emergency, chat),
  the join of the components, so meshes converge.
\<close>

definition EXTENDED_MARKER :: u8 where "EXTENDED_MARKER = 0xAB"
definition EMERGENCY_MARKER :: u8 where "EMERGENCY_MARKER = 0xAC"
definition CHAT_MARKER :: u8 where "CHAT_MARKER = 0xAD"
definition MIN_DOCUMENT_SIZE :: nat where "MIN_DOCUMENT_SIZE = 8"
definition TARGET_DOCUMENT_SIZE :: nat where "TARGET_DOCUMENT_SIZE = 244"
definition MAX_DOCUMENT_SIZE :: nat where "MAX_DOCUMENT_SIZE = 512"

section \<open>Documents and their updates\<close>

record peat_document =
  doc_version :: u32
  doc_node_id :: u32
  doc_counter :: gcounter
  doc_peripheral :: "peripheral option"
  doc_emergency :: "emergency_event option"
  doc_chat :: "chat_crdt option"

definition doc_new :: "u32 \<Rightarrow> peat_document" where
  "doc_new n =
     \<lparr>doc_version = 1, doc_node_id = n, doc_counter = gcounter_new, doc_peripheral = None,
      doc_emergency = None, doc_chat = None\<rparr>"

definition doc_default :: peat_document where
  "doc_default =
     \<lparr>doc_version = 1, doc_node_id = 0, doc_counter = gcounter_new, doc_peripheral = None,
      doc_emergency = None, doc_chat = None\<rparr>"

definition doc_with_peripheral :: "peat_document \<Rightarrow> peripheral \<Rightarrow> peat_document" where
  "doc_with_peripheral d p = d\<lparr>doc_peripheral := Some p\<rparr>"

definition doc_with_emergency :: "peat_document \<Rightarrow> emergency_event \<Rightarrow> peat_document" where
  "doc_with_emergency d e = d\<lparr>doc_emergency := Some e\<rparr>"

definition doc_with_chat :: "peat_document \<Rightarrow> chat_crdt \<Rightarrow> peat_document" where
  "doc_with_chat d c = d\<lparr>doc_chat := Some c\<rparr>"

definition doc_increment_version :: "peat_document \<Rightarrow> peat_document" where
  "doc_increment_version d = d\<lparr>doc_version := doc_version d + 1\<rparr>"

definition doc_increment_counter :: "peat_document \<Rightarrow> peat_document" where
  "doc_increment_counter d =
     doc_increment_version (d\<lparr>doc_counter := gcounter_increment (doc_counter d) (doc_node_id d) 1\<rparr>)"

definition doc_set_event :: "peat_document \<Rightarrow> event_type \<Rightarrow> u64 \<Rightarrow> peat_document" where
  "doc_set_event d t ts =
     (case doc_peripheral d of
        None \<Rightarrow> d
      | Some p \<Rightarrow> doc_increment_counter (d\<lparr>doc_peripheral := Some (set_event p t ts)\<rparr>))"

definition doc_clear_event :: "peat_document \<Rightarrow> peat_document" where
  "doc_clear_event d =
     (case doc_peripheral d of
        None \<Rightarrow> d
      | Some p \<Rightarrow> doc_increment_version (d\<lparr>doc_peripheral := Some (clear_event p)\<rparr>))"

definition doc_set_emergency :: "peat_document \<Rightarrow> u32 \<Rightarrow> u64 \<Rightarrow> u32 list \<Rightarrow> peat_document" where
  "doc_set_emergency d src ts known_peers =
     doc_increment_counter (d\<lparr>doc_emergency := Some (emergency_new src ts known_peers)\<rparr>)"

definition doc_ack_emergency :: "peat_document \<Rightarrow> u32 \<Rightarrow> peat_document \<times> bool" where
  "doc_ack_emergency d n =
     (case doc_emergency d of
        None \<Rightarrow> (d, False)
      | Some e \<Rightarrow>
          let r = emergency_ack e n; d' = d\<lparr>doc_emergency := Some (fst r)\<rparr>
          in if snd r then (doc_increment_version d', True) else (d', False))"

definition doc_clear_emergency :: "peat_document \<Rightarrow> peat_document" where
  "doc_clear_emergency d =
     (if doc_emergency d \<noteq> None then doc_increment_version (d\<lparr>doc_emergency := None\<rparr>) else d)"

definition doc_has_emergency :: "peat_document \<Rightarrow> bool" where
  "doc_has_emergency d \<longleftrightarrow> doc_emergency d \<noteq> None"

definition doc_get_or_create_chat :: "peat_document \<Rightarrow> chat_crdt" where
  "doc_get_or_create_chat d = (case doc_chat d of None \<Rightarrow> chat_new | Some c \<Rightarrow> c)"

definition doc_add_message :: "peat_document \<Rightarrow> chat_message \<Rightarrow> peat_document \<times> bool" where
  "doc_add_message d msg =
     (let r = add_message (doc_get_or_create_chat d) msg; d' = d\<lparr>doc_chat := Some (fst r)\<rparr>
      in if snd r then (doc_increment_counter d', True) else (d', False))"

definition doc_add_chat_message :: "peat_document \<Rightarrow> u32 \<Rightarrow> u64 \<Rightarrow> bytes \<Rightarrow> bytes \<Rightarrow> peat_document \<times> bool" where
  "doc_add_chat_message d origin ts snd_name txt =
     doc_add_message d ((chat_message_new origin ts snd_name txt)\<lparr>is_broadcast := True\<rparr>)"

definition doc_add_chat_reply ::
  "peat_document \<Rightarrow> u32 \<Rightarrow> u64 \<Rightarrow> bytes \<Rightarrow> bytes \<Rightarrow> u32 \<Rightarrow> u64 \<Rightarrow> peat_document \<times> bool" where
  "doc_add_chat_reply d origin ts snd_name txt rn rts =
     doc_add_message d
       (set_reply_to ((chat_message_new origin ts snd_name txt)\<lparr>is_broadcast := True\<rparr>) rn rts)"

definition doc_has_chat :: "peat_document \<Rightarrow> bool" where
  "doc_has_chat d = (case doc_chat d of None \<Rightarrow> False | Some c \<Rightarrow> \<not> chat_is_empty c)"

definition doc_chat_count :: "peat_document \<Rightarrow> nat" where
  "doc_chat_count d = (case doc_chat d of None \<Rightarrow> 0 | Some c \<Rightarrow> chat_len c)"

definition doc_current_event :: "peat_document \<Rightarrow> event_type option" where
  "doc_current_event d =
     (case doc_peripheral d of None \<Rightarrow> None | Some p \<Rightarrow> map_option event_type (last_event p))"

definition doc_total_count :: "peat_document \<Rightarrow> u64" where
  "doc_total_count d = gcounter_value (doc_counter d)"

section \<open>Merge\<close>

definition merge_emergency_field ::
  "emergency_event option \<Rightarrow> emergency_event option \<Rightarrow> emergency_event option \<times> bool" where
  "merge_emergency_field ours theirs =
     (case theirs of
        None \<Rightarrow> (ours, False)
      | Some oe \<Rightarrow>
          (case ours of
             Some e \<Rightarrow> let r = emergency_merge e oe in (Some (fst r), snd r)
           | None \<Rightarrow> (Some oe, True)))"

definition merge_chat_field :: "chat_crdt option \<Rightarrow> chat_crdt option \<Rightarrow> chat_crdt option \<times> bool" where
  "merge_chat_field ours theirs =
     (case theirs of
        None \<Rightarrow> (ours, False)
      | Some oc \<Rightarrow>
          (case ours of
             Some c \<Rightarrow> let r = chat_merge c oc in (Some (fst r), snd r)
           | None \<Rightarrow> if \<not> chat_is_empty oc then (Some oc, True) else (None, False)))"

definition doc_merge :: "bool \<Rightarrow> peat_document \<Rightarrow> peat_document \<Rightarrow> peat_document \<times> bool" where
  "doc_merge lc d other =
     (let old_value = gcounter_value (doc_counter d);
          c = gcounter_merge (doc_counter d) (doc_counter other);
          e = merge_emergency_field (doc_emergency d) (doc_emergency other);
          ch = (if lc then merge_chat_field (doc_chat d) (doc_chat other) else (doc_chat d, False));
          changed = (gcounter_value c \<noteq> old_value \<or> snd e \<or> snd ch);
          d' = d\<lparr>doc_counter := c, doc_emergency := fst e, doc_chat := fst ch\<rparr>
      in if changed then (doc_increment_version d', True) else (d', False))"

section \<open>Wire codec\<close>

definition encode_section :: "u8 \<Rightarrow> bytes \<Rightarrow> bytes" where
  "encode_section marker data = [marker, 0] @ le16 (word_of_nat (length data)) @ data"

definition doc_chat_data :: "bool \<Rightarrow> peat_document \<Rightarrow> bytes option" where
  "doc_chat_data lc d =
     (if lc then
        (case doc_chat d of None \<Rightarrow> None | Some c \<Rightarrow> if \<not> chat_is_empty c then Some (chat_encode c) else None)
      else None)"

definition doc_encode :: "bool \<Rightarrow> peat_document \<Rightarrow> bytes" where
  "doc_encode lc d =
     le32 (doc_version d) @ le32 (doc_node_id d) @ gcounter_encode (doc_counter d)
     @ (case doc_peripheral d of None \<Rightarrow> [] | Some p \<Rightarrow> encode_section EXTENDED_MARKER (peripheral_encode p))
     @ (case doc_emergency d of None \<Rightarrow> [] | Some e \<Rightarrow> encode_section EMERGENCY_MARKER (emergency_encode e))
     @ (case doc_chat_data lc d of None \<Rightarrow> [] | Some c \<Rightarrow> encode_section CHAT_MARKER c)"

definition section_bounds :: "bytes \<Rightarrow> nat \<Rightarrow> (nat \<times> nat) option outcome" where
  "section_bounds data offset =
     (if length data < offset + 4 then ret None
      else do {
        reserved \<leftarrow> read_u8 data (offset + 1);
        n \<leftarrow> read_u16 data (offset + 2);
        let section_len = unat n;
        let section_start = offset + 4;
        if length data < section_start + section_len then ret None
        else ret (Some (section_start, section_start + section_len))
      })"

lemma section_bounds_advance: "section_bounds data offset = ret (Some (s, e)) \<Longrightarrow> offset + 4 \<le> e \<and> e \<le> length data"
  by (auto simp: section_bounds_def bind_eq_Some_conv Let_def split: if_splits)

type_synonym sections = "peripheral option \<times> emergency_event option \<times> chat_crdt option"

function doc_decode_sections :: "bool \<Rightarrow> bytes \<Rightarrow> nat \<Rightarrow> sections \<Rightarrow> sections outcome" where
  "doc_decode_sections lc data offset (p, e, c) =
     (if offset < length data then do {
        marker \<leftarrow> read_u8 data offset;
        if marker = EXTENDED_MARKER then do {
          b \<leftarrow> section_bounds data offset;
          case b of
            None \<Rightarrow> ret (p, e, c)
          | Some (s, t) \<Rightarrow> do {
              d \<leftarrow> slice data s t;
              p' \<leftarrow> peripheral_decode d;
              doc_decode_sections lc data t (p', e, c)
            }
        }
        else if marker = EMERGENCY_MARKER then do {
          b \<leftarrow> section_bounds data offset;
          case b of
            None \<Rightarrow> ret (p, e, c)
          | Some (s, t) \<Rightarrow> do {
              d \<leftarrow> slice data s t;
              e' \<leftarrow> emergency_decode d;
              doc_decode_sections lc data t (p, e', c)
            }
        }
        else if marker = CHAT_MARKER then do {
          b \<leftarrow> section_bounds data offset;
          case b of
            None \<Rightarrow> ret (p, e, c)
          | Some (s, t) \<Rightarrow>
              if lc then do {
                d \<leftarrow> slice data s t;
                c' \<leftarrow> chat_decode d;
                doc_decode_sections lc data t (p, e, c')
              }
              else doc_decode_sections lc data t (p, e, c)
        }
        else ret (p, e, c)
      }
      else ret (p, e, c))"
  by pat_completeness auto
termination
  by (relation "measure (\<lambda>(lc, data, offset, st). length data - offset)")
    (auto dest!: section_bounds_advance)

definition doc_decode :: "bool \<Rightarrow> bytes \<Rightarrow> peat_document option outcome" where
  "doc_decode lc data =
     (if length data < MIN_DOCUMENT_SIZE then ret None
      else do {
        version \<leftarrow> read_u32 data 0;
        node \<leftarrow> read_u32 data 4;
        d \<leftarrow> slice_from data 8;
        cr \<leftarrow> gcounter_decode d;
        case cr of
          None \<Rightarrow> ret None
        | Some c \<Rightarrow> do {
            n \<leftarrow> read_u32 data 8;
            let num_entries = unat n;
            let offset = 8 + 4 + num_entries * 12;
            (p, e, ch) \<leftarrow> doc_decode_sections lc data offset (None, None, None);
            ret (Some \<lparr>doc_version = version, doc_node_id = node, doc_counter = c,
                        doc_peripheral = p, doc_emergency = e, doc_chat = ch\<rparr>)
          }
      })"

definition doc_encoded_size :: "bool \<Rightarrow> peat_document \<Rightarrow> nat" where
  "doc_encoded_size lc d =
     (let counter_size = 4 + gcounter_node_count_total (doc_counter d) * 12;
          peripheral_size = (case doc_peripheral d of None \<Rightarrow> 0 | Some p \<Rightarrow> 4 + length (peripheral_encode p));
          emergency_size = (case doc_emergency d of None \<Rightarrow> 0 | Some e \<Rightarrow> 4 + length (emergency_encode e));
          chat_size = (if lc then
              (case doc_chat d of None \<Rightarrow> 0
               | Some c \<Rightarrow> if \<not> chat_is_empty c then 4 + chat_encoded_size c else 0) else 0)
      in 8 + counter_size + peripheral_size + emergency_size + chat_size)"

definition exceeds_target_size :: "bool \<Rightarrow> peat_document \<Rightarrow> bool" where
  "exceeds_target_size lc d \<longleftrightarrow> doc_encoded_size lc d > TARGET_DOCUMENT_SIZE"

definition exceeds_max_size :: "bool \<Rightarrow> peat_document \<Rightarrow> bool" where
  "exceeds_max_size lc d \<longleftrightarrow> doc_encoded_size lc d > MAX_DOCUMENT_SIZE"

section \<open>Results of a merge\<close>

record merge_result =
  mr_source_node :: u32
  mr_event :: "peripheral_event option"
  mr_peer_peripheral :: "peripheral option"
  mr_counter_changed :: bool
  mr_emergency_changed :: bool
  mr_chat_changed :: bool
  mr_total_count :: u64

definition mr_is_emergency :: "merge_result \<Rightarrow> bool" where
  "mr_is_emergency r = (case mr_event r of None \<Rightarrow> False | Some e \<Rightarrow> event_type e = Emergency)"

definition mr_is_ack :: "merge_result \<Rightarrow> bool" where
  "mr_is_ack r = (case mr_event r of None \<Rightarrow> False | Some e \<Rightarrow> event_type e = Ack)"

section \<open>Lemmas: parsing\<close>

lemma section_bounds_safe: "no_panic (section_bounds data offset)"
  unfolding section_bounds_def by (auto intro!: safe)

lemma slice_section_safe:
  "section_bounds data offset = ret (Some (s, t)) \<Longrightarrow> no_panic (slice data s t)"
  by (rule no_panic_slice)
    (auto simp: section_bounds_def bind_eq_Some_conv Let_def split: if_splits)

declare doc_decode_sections.simps [simp del]

lemma doc_decode_sections_safe: "no_panic (doc_decode_sections lc data offset (p, e, c))"
proof (induction "length data - offset" arbitrary: offset p e c rule: less_induct)
  case less
  have rest: "no_panic (doc_decode_sections lc data t (p', e', c'))"
    if "section_bounds data offset = ret (Some (s, t))" "offset < length data" for s t p' e' c'
    using section_bounds_advance [OF that(1)] that(2) by (intro less) auto
  show ?case
    by (subst doc_decode_sections.simps)
      (auto intro!: safe section_bounds_safe slice_section_safe peripheral_decode_safe
        emergency_decode_safe chat_decode_safe intro: rest)
qed

lemma gcounter_decode_header: "gcounter_decode data = ret (Some c) \<Longrightarrow> 4 \<le> length data"
  by (auto simp: gcounter_decode_def split: if_splits)

lemma doc_decode_safe: "no_panic (doc_decode lc data)"
  unfolding doc_decode_def MIN_DOCUMENT_SIZE_def
  by (auto intro!: safe gcounter_decode_safe doc_decode_sections_safe
      dest!: gcounter_decode_header slice_from_length)

definition sections_valid :: "bool \<Rightarrow> sections \<Rightarrow> bool" where
  "sections_valid lc s \<longleftrightarrow>
     pred_option peripheral_valid (fst s) \<and> pred_option emergency_valid (fst (snd s))
     \<and> pred_option chat_sendable (snd (snd s)) \<and> (lc \<or> snd (snd s) = None)"

lemma decode_parts_valid:
  "peripheral_decode data = ret p \<Longrightarrow> pred_option peripheral_valid p"
  "emergency_decode data = ret e \<Longrightarrow> pred_option emergency_valid e"
  "chat_decode data = ret c \<Longrightarrow> pred_option chat_sendable c"
proof -
  show "peripheral_decode data = ret p \<Longrightarrow> pred_option peripheral_valid p"
    by (cases p) (simp_all add: peripheral_decode_valid)
  show "emergency_decode data = ret e \<Longrightarrow> pred_option emergency_valid e"
    by (cases e) (simp_all add: emergency_decode_valid)
  show "chat_decode data = ret c \<Longrightarrow> pred_option chat_sendable c"
    by (cases c) (simp_all add: chat_decode_sendable)
qed

lemma doc_decode_sections_step:
  assumes "doc_decode_sections lc data offset (p, e, c) = ret r"
  shows "r = (p, e, c) \<or>
    (\<exists>s t p' e' c'. offset < length data \<and> section_bounds data offset = ret (Some (s, t))
       \<and> doc_decode_sections lc data t (p', e', c') = ret r
       \<and> (sections_valid lc (p, e, c) \<longrightarrow> sections_valid lc (p', e', c')))"
proof -
  have valid: "sections_valid lc (p, e, c) \<Longrightarrow> peripheral_decode d = ret p' \<Longrightarrow> sections_valid lc (p', e, c)"
    "sections_valid lc (p, e, c) \<Longrightarrow> emergency_decode d = ret e' \<Longrightarrow> sections_valid lc (p, e', c)"
    "sections_valid lc (p, e, c) \<Longrightarrow> lc \<Longrightarrow> chat_decode d = ret c' \<Longrightarrow> sections_valid lc (p, e, c')"
    for d p' e' c'
    by (auto simp: sections_valid_def dest: decode_parts_valid)
  show ?thesis
    using assms
    by (subst (asm) doc_decode_sections.simps)
      (fastforce simp: bind_eq_Some_conv split: if_splits option.splits dest: valid)
qed

lemma doc_decode_sections_valid:
  assumes "doc_decode_sections lc data offset (p, e, c) = ret r" "sections_valid lc (p, e, c)"
  shows "sections_valid lc r"
  using assms
proof (induction "length data - offset" arbitrary: offset p e c rule: less_induct)
  case less
  from doc_decode_sections_step [OF less(2)] show ?case
  proof (elim disjE exE conjE)
    fix s t p' e' c'
    assume s: "offset < length data" "section_bounds data offset = ret (Some (s, t))"
      "doc_decode_sections lc data t (p', e', c') = ret r"
      "sections_valid lc (p, e, c) \<longrightarrow> sections_valid lc (p', e', c')"
    show ?thesis
      using section_bounds_advance [OF s(2)] s less(3) by (intro less(1) [OF _ s(3)]) auto
  qed (use less(3) in simp)
qed

text \<open>What an encoder may be given, and a decoder returns.\<close>

definition doc_sendable :: "bool \<Rightarrow> peat_document \<Rightarrow> bool" where
  "doc_sendable lc d \<longleftrightarrow>
     gcounter_sendable (doc_counter d)
     \<and> sections_valid lc (doc_peripheral d, doc_emergency d, doc_chat d)"

lemma doc_decode_sendable:
  "doc_decode lc data = ret (Some d) \<Longrightarrow> doc_sendable lc d"
  by (auto simp: doc_decode_def doc_sendable_def returns Let_def sections_valid_def
      dest!: gcounter_decode_sendable doc_decode_sections_valid split: prod.splits)

section \<open>Lemmas: parsing inverts encoding\<close>

definition doc_encodable :: "bool \<Rightarrow> peat_document \<Rightarrow> bool" where
  "doc_encodable lc d \<longleftrightarrow>
     doc_sendable lc d
     \<and> (case doc_chat d of None \<Rightarrow> True
        | Some c \<Rightarrow> \<not> chat_is_empty c \<and> chat_encoded_size c < 2 ^ 16)"

lemma length_encode_section [simp]: "length (encode_section m s) = 4 + length s"
  by (simp add: encode_section_def)

lemma read_section:
  assumes "length s < 2 ^ 16"
  shows "read_u8 (pre @ encode_section m s @ post) (length pre) = ret m"
    and "section_bounds (pre @ encode_section m s @ post) (length pre)
      = ret (Some (length pre + 4, length pre + 4 + length s))"
    and "slice (pre @ encode_section m s @ post) (length pre + 4) (length pre + 4 + length s) = ret s"
  using assms by (simp_all add: encode_section_def section_bounds_def wire unat_of_nat Let_def)

lemmas markers = EXTENDED_MARKER_def EMERGENCY_MARKER_def CHAT_MARKER_def

lemma doc_decode_sections_wire:
  fixes pre post :: bytes and m :: u8 and s :: bytes
  defines "data \<equiv> pre @ encode_section m s @ post"
  assumes "length s < 2 ^ 16"
  shows "m = EXTENDED_MARKER \<Longrightarrow> peripheral_decode s = ret p' \<Longrightarrow>
      doc_decode_sections lc data (length pre) (p, e, c)
      = doc_decode_sections lc data (length pre + 4 + length s) (p', e, c)"
    and "m = EMERGENCY_MARKER \<Longrightarrow> emergency_decode s = ret e' \<Longrightarrow>
      doc_decode_sections lc data (length pre) (p, e, c)
      = doc_decode_sections lc data (length pre + 4 + length s) (p, e', c)"
    and "m = CHAT_MARKER \<Longrightarrow> lc \<Longrightarrow> chat_decode s = ret c' \<Longrightarrow>
      doc_decode_sections lc data (length pre) (p, e, c)
      = doc_decode_sections lc data (length pre + 4 + length s) (p, e, c')"
  unfolding data_def
  by (subst doc_decode_sections.simps, simp add: read_section [OF assms(2)] markers)+

lemma doc_decode_sections_end: "length data \<le> offset \<Longrightarrow> doc_decode_sections lc data offset (p, e, c) = ret (p, e, c)"
  by (subst doc_decode_sections.simps) simp

lemma length_doc_encode: "length (doc_encode lc d) = doc_encoded_size lc d"
  by (simp add: doc_encode_def doc_encoded_size_def length_gcounter_encode Let_def
      gcounter_node_count_total_def doc_chat_data_def length_chat_encode split: option.split)

text \<open>The three optional sections, one after the other.\<close>

abbreviation peripheral_section :: "peripheral option \<Rightarrow> bytes" where
  "peripheral_section p \<equiv>
     (case p of None \<Rightarrow> [] | Some q \<Rightarrow> encode_section EXTENDED_MARKER (peripheral_encode q))"

abbreviation emergency_section :: "emergency_event option \<Rightarrow> bytes" where
  "emergency_section e \<equiv>
     (case e of None \<Rightarrow> [] | Some f \<Rightarrow> encode_section EMERGENCY_MARKER (emergency_encode f))"

abbreviation chat_section :: "bytes option \<Rightarrow> bytes" where
  "chat_section c \<equiv> (case c of None \<Rightarrow> [] | Some d \<Rightarrow> encode_section CHAT_MARKER d)"

lemma decode_peripheral_section:
  assumes "pred_option peripheral_valid p"
  shows "doc_decode_sections lc (pre @ peripheral_section p @ post) (length pre) (None, e, c)
    = doc_decode_sections lc (pre @ peripheral_section p @ post) (length (pre @ peripheral_section p)) (p, e, c)"
proof (cases p)
  case (Some q)
  then have q: "peripheral_valid q" using assms by simp
  then have "length (peripheral_encode q) < 2 ^ 16"
    using length_peripheral_encode [of q] by (simp add: peripheral_valid_def)
  then show ?thesis
    using Some doc_decode_sections_wire(1) [of "peripheral_encode q" _ "Some q"]
      peripheral_decode_encode [OF q, of "[]"] by (simp add: add.assoc)
qed simp

lemma decode_emergency_section:
  assumes "pred_option emergency_valid e"
  shows "doc_decode_sections lc (pre @ emergency_section e @ post) (length pre) (p, None, c)
    = doc_decode_sections lc (pre @ emergency_section e @ post) (length (pre @ emergency_section e)) (p, e, c)"
proof (cases e)
  case (Some f)
  then have f: "emergency_valid f" using assms by simp
  then have "length (emergency_encode f) < 2 ^ 16"
    by (simp add: length_emergency_encode emergency_valid_def MAX_EMERGENCY_ACKS_def)
  then show ?thesis
    using Some doc_decode_sections_wire(2) [of "emergency_encode f" _ "Some f"]
      emergency_decode_encode [OF f, of "[]"] by (simp add: add.assoc)
qed simp

lemma decode_chat_section:
  assumes "doc_encodable lc d"
  shows "doc_decode_sections lc (pre @ chat_section (doc_chat_data lc d)) (length pre) (p, e, None)
    = ret (p, e, doc_chat d)"
proof (cases "doc_chat d")
  case None
  then show ?thesis by (simp add: doc_chat_data_def doc_decode_sections_end)
next
  case (Some c)
  have c: "chat_sendable c" "lc" "\<not> chat_is_empty c" "length (chat_encode c) < 2 ^ 16"
    using assms Some
    by (auto simp: doc_encodable_def doc_sendable_def sections_valid_def length_chat_encode)
  then show ?thesis
    using Some doc_decode_sections_wire(3) [of "chat_encode c" _ lc "Some c" pre "[]"]
      chat_decode_encode [OF c(1), of "[]"]
    by (simp add: doc_chat_data_def doc_decode_sections_end add.assoc)
qed

lemma doc_decode_encode:
  assumes "doc_encodable lc d"
  shows "doc_decode lc (doc_encode lc d) = ret (Some d)"
proof -
  let ?p = "peripheral_section (doc_peripheral d)" and ?e = "emergency_section (doc_emergency d)"
  let ?c = "chat_section (doc_chat_data lc d)"
  let ?hdr = "le32 (doc_version d) @ le32 (doc_node_id d) @ gcounter_encode (doc_counter d)"
  have valid: "gcounter_sendable (doc_counter d)" "pred_option peripheral_valid (doc_peripheral d)"
    "pred_option emergency_valid (doc_emergency d)"
    using assms by (simp_all add: doc_encodable_def doc_sendable_def sections_valid_def)
  have data: "doc_encode lc d = ?hdr @ ?p @ ?e @ ?c" by (simp add: doc_encode_def)
  have n: "unat (word_of_nat (length (counts (doc_counter d))) :: u32) = length (counts (doc_counter d))"
    using valid(1) by (simp add: gcounter_sendable_def MAX_COUNTER_ENTRIES_def unat_of_nat)
  have "doc_decode_sections lc (doc_encode lc d) (length ?hdr) (None, None, None)
      = ret (doc_peripheral d, doc_emergency d, doc_chat d)"
    using decode_peripheral_section [OF valid(2), of lc ?hdr "?e @ ?c"]
      decode_emergency_section [OF valid(3), of lc "?hdr @ ?p" ?c]
      decode_chat_section [OF assms, of "?hdr @ ?p @ ?e"]
    by (simp add: data)
  then have sections: "doc_decode_sections lc (doc_encode lc d)
      (12 + length (counts (doc_counter d)) * 12) (None, None, None)
      = ret (doc_peripheral d, doc_emergency d, doc_chat d)"
    by (simp add: length_gcounter_encode algebra_simps)
  have hdr: "read_u32 (doc_encode lc d) 0 = ret (doc_version d)"
    "read_u32 (doc_encode lc d) 4 = ret (doc_node_id d)"
    "slice_from (doc_encode lc d) 8 = ret (gcounter_encode (doc_counter d) @ ?p @ ?e @ ?c)"
    "read_u32 (doc_encode lc d) 8 = ret (word_of_nat (length (counts (doc_counter d))))"
    by (simp_all add: data wire) (simp add: gcounter_encode_def wire)
  have "\<not> length (doc_encode lc d) < MIN_DOCUMENT_SIZE"
    by (simp add: data MIN_DOCUMENT_SIZE_def)
  then show ?thesis
    using sections by (simp add: doc_decode_def hdr gcounter_decode_encode [OF valid(1)] n)
qed

section \<open>The replicated part of a document\<close>

text \<open>
  Version, owner and peripheral are local to a document; counter, emergency and chat are
  replicated. \<open>replica\<close> is the abstraction to that part, \<open>replica_merge\<close> the abstract merge, a
  pair of joins. \<open>src\<close> gives the source of the emergency raised at a time and \<open>h\<close> the message
  with an identifier: every replica got its data from that one history.
\<close>

type_synonym replica_state = "gcounter \<times> emergency_event option \<times> chat_crdt"

definition replica :: "peat_document \<Rightarrow> replica_state" where
  "replica d = (doc_counter d, doc_emergency d, doc_get_or_create_chat d)"

definition replica_merge :: "replica_state \<Rightarrow> replica_state \<Rightarrow> replica_state" where
  "replica_merge =
     pair_merge gcounter_merge
       (pair_merge (opt_merge (\<lambda>e f. fst (emergency_merge e f))) (\<lambda>c d. fst (chat_merge c d)))"

definition replica_ok :: "(u64 \<Rightarrow> u32) \<Rightarrow> (u64 \<Rightarrow> chat_message) \<Rightarrow> replica_state \<Rightarrow> bool" where
  "replica_ok src h r \<longleftrightarrow>
     gcounter_wf (fst r) \<and> pred_option (emergency_history src) (fst (snd r)) \<and> chat_history h (snd (snd r))"

interpretation rep: join_crdt "replica_ok src h" replica_merge for src h
  using join_crdt_pair [OF gc.join_crdt_axioms
      join_crdt_pair [OF em.join_crdt_option [of src] chat.join_crdt_axioms [of h]]]
  unfolding replica_ok_def replica_merge_def .

definition doc_ok :: "bool \<Rightarrow> (u64 \<Rightarrow> u32) \<Rightarrow> (u64 \<Rightarrow> chat_message) \<Rightarrow> peat_document \<Rightarrow> bool" where
  "doc_ok lc src h d \<longleftrightarrow> replica_ok src h (replica d) \<and> (lc \<or> doc_chat d = None)"

lemma replica_increment_version [simp]:
  "replica (doc_increment_version d) = replica d" "doc_chat (doc_increment_version d) = doc_chat d"
  by (simp_all add: replica_def doc_increment_version_def doc_get_or_create_chat_def)

lemma merge_emergency_field_join:
  "fst (merge_emergency_field ours theirs) = opt_merge (\<lambda>e f. fst (emergency_merge e f)) ours theirs"
  by (cases ours; cases theirs) (simp_all add: merge_emergency_field_def Let_def)

lemma chat_history_new: "chat_history h chat_new"
  by (simp add: chat_history_def chat_wf_def chat_new_def)

lemma chat_merge_new:
  assumes "chat_history h c"
  shows "fst (chat_merge c chat_new) = c" "fst (chat_merge chat_new c) = c"
proof -
  show c: "fst (chat_merge c chat_new) = c"
    using assms
    by (simp add: chat_merge_keep chat_history_wf)
      (simp add: chat_new_def bt_join_def bt_keep_idle chat_history_iff)
  then show "fst (chat_merge chat_new c) = c"
    using chat.commute [OF chat_history_new assms] by simp
qed

lemma chat_is_empty_new: "chat_is_empty c \<longleftrightarrow> c = chat_new"
  by (cases c) (auto simp: chat_is_empty_def chat_new_def)

abbreviation chat_or_new :: "chat_crdt option \<Rightarrow> chat_crdt" where
  "chat_or_new c \<equiv> (case c of None \<Rightarrow> chat_new | Some x \<Rightarrow> x)"

lemma merge_chat_field_join:
  assumes "chat_history h (chat_or_new ours)" "chat_history h (chat_or_new theirs)"
  shows "chat_or_new (fst (merge_chat_field ours theirs))
    = fst (chat_merge (chat_or_new ours) (chat_or_new theirs))"
  using assms
  by (auto simp: merge_chat_field_def Let_def chat_merge_new [of h] chat_is_empty_new split: option.splits)

text \<open>Merging documents is the abstract merge on the replicated part.\<close>

lemma doc_merge_replica:
  assumes "doc_ok lc src h d" "doc_ok lc src h other"
  shows "replica (fst (doc_merge lc d other)) = replica_merge (replica d) (replica other)"
    and "doc_ok lc src h (fst (doc_merge lc d other))"
proof -
  have chat: "chat_history h (chat_or_new (doc_chat d))" "chat_history h (chat_or_new (doc_chat other))"
    using assms by (simp_all add: doc_ok_def replica_ok_def replica_def doc_get_or_create_chat_def)
  have "chat_or_new (fst (if lc then merge_chat_field (doc_chat d) (doc_chat other) else (doc_chat d, False)))
      = fst (chat_merge (chat_or_new (doc_chat d)) (chat_or_new (doc_chat other)))"
    using assms merge_chat_field_join [OF chat] chat_merge_new(1) [OF chat_history_new]
    by (auto simp: doc_ok_def)
  then show refines: "replica (fst (doc_merge lc d other)) = replica_merge (replica d) (replica other)"
    by (cases lc; simp add: doc_merge_def Let_def)
      (simp_all add: replica_def replica_merge_def pair_merge_def doc_get_or_create_chat_def
        merge_emergency_field_join)
  have "lc \<or> doc_chat (fst (doc_merge lc d other)) = None"
    using assms by (auto simp: doc_merge_def Let_def doc_ok_def)
  then show "doc_ok lc src h (fst (doc_merge lc d other))"
    using assms by (simp add: doc_ok_def refines rep.inv_merge)
qed

definition doc_merge_all :: "bool \<Rightarrow> peat_document \<Rightarrow> peat_document list \<Rightarrow> peat_document" where
  "doc_merge_all lc d ds = foldl (\<lambda>d other. fst (doc_merge lc d other)) d ds"

lemma doc_merge_all_replica:
  assumes "doc_ok lc src h d" "\<forall>x \<in> set ds. doc_ok lc src h x"
  shows "replica (doc_merge_all lc d ds) = merge_all replica_merge (replica d) (map replica ds)
    \<and> doc_ok lc src h (doc_merge_all lc d ds)"
  using assms unfolding doc_merge_all_def merge_all_def
  by (induction ds arbitrary: d) (auto simp: doc_merge_replica [of lc src h])

lemma doc_decode_encode_counter:
  assumes "doc_decode lc (doc_encode lc d) = ret (Some d')" "gcounter_wf (doc_counter d)"
  shows "doc_node_id d' = doc_node_id d"
    and "gcounter_node_count (doc_counter d') k \<le> gcounter_node_count (doc_counter d) k"
proof -
  let ?hdr = "le32 (doc_version d) @ le32 (doc_node_id d)"
  obtain rest where data: "doc_encode lc d = ?hdr @ gcounter_encode (doc_counter d) @ rest"
    by (simp add: doc_encode_def)
  have "read_u32 (doc_encode lc d) 4 = ret (doc_node_id d)"
    "slice_from (doc_encode lc d) 8 = ret (gcounter_encode (doc_counter d) @ rest)"
    by (simp_all add: data wire)
  then have "doc_node_id d' = doc_node_id d"
    and "gcounter_decode (gcounter_encode (doc_counter d) @ rest) = ret (Some (doc_counter d'))"
    using assms(1) by (auto simp: doc_decode_def returns Let_def split: prod.splits)
  then show "doc_node_id d' = doc_node_id d"
    and "gcounter_node_count (doc_counter d') k \<le> gcounter_node_count (doc_counter d) k"
    using gcounter_decode_encode_le [OF assms(2)] by blast+
qed

section \<open>Properties\<close>

lemma doc_ok_new: "doc_ok lc src h (doc_new n)"
  by (simp add: doc_ok_def replica_ok_def replica_def doc_new_def doc_get_or_create_chat_def chat_history_new)

lemma doc_ok_increment_counter: "doc_ok lc src h d \<Longrightarrow> doc_ok lc src h (doc_increment_counter d)"
  by (simp add: doc_ok_def replica_ok_def doc_increment_counter_def)
    (simp add: replica_def doc_get_or_create_chat_def)

lemma doc_ok_set_emergency:
  "doc_ok lc src h d \<Longrightarrow> src ts = n \<Longrightarrow> doc_ok lc src h (doc_set_emergency d n ts peers)"
  unfolding doc_set_emergency_def
  by (intro doc_ok_increment_counter)
    (simp add: doc_ok_def replica_ok_def replica_def doc_get_or_create_chat_def emergency_history_def
      bt_wf_emergency_new, simp add: emergency_new_def)

text \<open>
  C2: documents of one history converge. Let all documents come from one history (\<open>doc_ok\<close>): counters
  with one entry per node, an emergency time stamp belongs to one source node, a chat message
  identifier stands for one message, and chat sets are within their limit of 32 messages (and absent
  in builds without chat). Then the replicated part of a document (counter, emergency, chat) after
  merging any list of received documents depends only on the set of documents: not on their order,
  and not on repetitions. It equals the abstract join of the replicated parts. That the first of
  these conditions is needed shows the theorem on emergencies with equal time stamps.
\<close>

theorem document_converges:
  assumes "doc_ok lc src h d" "\<forall>x \<in> set xs. doc_ok lc src h x" "set xs = set ys"
  shows "replica (doc_merge_all lc d xs) = replica (doc_merge_all lc d ys)
    \<and> replica (doc_merge_all lc d xs) = merge_all replica_merge (replica d) (map replica xs)"
proof -
  have xs: "replica (doc_merge_all lc d xs) = merge_all replica_merge (replica d) (map replica xs)"
    using doc_merge_all_replica [OF assms(1,2)] by simp
  have ys: "replica (doc_merge_all lc d ys) = merge_all replica_merge (replica d) (map replica ys)"
    using doc_merge_all_replica [OF assms(1), of ys] assms(2,3) by simp
  have "merge_all replica_merge (replica d) (map replica xs) = merge_all replica_merge (replica d) (map replica ys)"
    using assms by (intro rep.converges [of src h]) (auto simp: doc_ok_def)
  then show ?thesis using xs ys by simp
qed

theorem document_converges_witness:
  "replica (doc_merge_all True (doc_new 1) [doc_increment_counter (doc_new 2), doc_set_emergency (doc_new 3) 3 100 [1, 2]])
    = replica (doc_merge_all True (doc_new 1) [doc_set_emergency (doc_new 3) 3 100 [1, 2], doc_increment_counter (doc_new 2)])"
  using document_converges [of True "\<lambda>t. 3" "\<lambda>k. chat_message_default" "doc_new 1"
      "[doc_increment_counter (doc_new 2), doc_set_emergency (doc_new 3) 3 100 [1, 2]]"
      "[doc_set_emergency (doc_new 3) 3 100 [1, 2], doc_increment_counter (doc_new 2)]"]
  by (simp add: doc_ok_new doc_ok_increment_counter doc_ok_set_emergency insert_commute)

text \<open>
  C3: parsing a document is total and strict. No byte string from the air makes the parser
  panic, with or without the chat feature, and every part of a document it returns satisfies
  the validity rules of its component.
\<close>

theorem document_decode_total:
  "\<exists>r. doc_decode lc data = ret r \<and> (case r of None \<Rightarrow> True | Some d \<Rightarrow> doc_sendable lc d)"
  using doc_decode_safe [of lc data] doc_decode_sendable [of lc data]
  by (auto simp: no_panic_ex split: option.split)

text \<open>
  C4: a document survives the wire. Every document with valid parts is parsed back unchanged,
  and the announced size is the size of the encoding.
\<close>

theorem document_roundtrip:
  assumes "doc_encodable lc d"
  shows "doc_decode lc (doc_encode lc d) = ret (Some d) \<and> length (doc_encode lc d) = doc_encoded_size lc d"
  using doc_decode_encode [OF assms] length_doc_encode by simp

theorem document_roundtrip_witness:
  "doc_decode True (doc_encode True (doc_set_emergency (doc_new 3) 3 1700000000000 [1]))
      = ret (Some (doc_set_emergency (doc_new 3) 3 1700000000000 [1]))"
proof -
  have "doc_encodable True (doc_set_emergency (doc_new 3) 3 1700000000000 [1])"
    by (simp add: doc_encodable_def doc_sendable_def sections_valid_def doc_set_emergency_def doc_new_def
        doc_increment_counter_def doc_increment_version_def gcounter_increment_def gcounter_new_def
        gcounter_sendable_def gcounter_wf_def emergency_new_def emergency_valid_def bt_or_insert_def
        bt_contains_key_def bt_get_def bt_wf_Cons MIN_VALID_TIMESTAMP_def MAX_EMERGENCY_ACKS_def
        MAX_COUNTER_ENTRIES_def)
  then show ?thesis using document_roundtrip by blast
qed

end
