(* ===== verification/Document_Sync.thy ===== *)
theory Document_Sync
  imports Document
begin

text \<open>
  The document manager of one node, \<open>src/document_sync.rs\<close>. The record holds what
  \<open>DocumentSync\<close> keeps behind its locks and its atomic version; a method is a function on
  the record, a call being one step (the locks it takes are released before it returns).
  \<open>lc\<close> is the feature \<open>legacy-chat\<close> as in the theory \<open>Document\<close>; the chat methods exist only
  with the feature.

  The second half puts nodes together: \<open>mesh_step\<close> lets any node call any method and delivers
  any document ever broadcast, to any node, in any order and any number of times. By rule
  induction over the runs, no node ever sees a larger count of another node than that node's
  own, and every count only grows.
\<close>

section \<open>State and queries\<close>

record document_sync =
  sync_node_id :: u32
  sync_counter :: gcounter
  sync_peripheral :: peripheral
  sync_emergency :: "emergency_event option"
  sync_chat :: "chat_crdt option"
  sync_version :: u32

definition sync_with_peripheral_type :: "u32 \<Rightarrow> bytes \<Rightarrow> peripheral_type \<Rightarrow> document_sync" where
  "sync_with_peripheral_type n cs ptype =
     \<lparr>sync_node_id = n, sync_counter = gcounter_new,
      sync_peripheral = with_callsign (peripheral_new n ptype) cs, sync_emergency = None,
      sync_chat = None, sync_version = 1\<rparr>"

definition sync_new :: "u32 \<Rightarrow> bytes \<Rightarrow> document_sync" where
  "sync_new n cs =
     \<lparr>sync_node_id = n, sync_counter = gcounter_new,
      sync_peripheral = with_callsign (peripheral_new n SoldierSensor) cs, sync_emergency = None,
      sync_chat = None, sync_version = 1\<rparr>"

definition sync_total_count :: "document_sync \<Rightarrow> u64" where
  "sync_total_count s = gcounter_value (sync_counter s)"

definition sync_local_count :: "document_sync \<Rightarrow> u64" where
  "sync_local_count s = gcounter_node_count (sync_counter s) (sync_node_id s)"

definition sync_current_event :: "document_sync \<Rightarrow> event_type option" where
  "sync_current_event s = map_option event_type (last_event (sync_peripheral s))"

definition is_emergency_active :: "document_sync \<Rightarrow> bool" where
  "is_emergency_active s \<longleftrightarrow> sync_current_event s = Some Emergency"

definition is_ack_active :: "document_sync \<Rightarrow> bool" where
  "is_ack_active s \<longleftrightarrow> sync_current_event s = Some Ack"

definition sync_callsign :: "document_sync \<Rightarrow> bytes" where
  "sync_callsign s = callsign_str (sync_peripheral s)"

section \<open>Documents on the wire\<close>

definition sync_document :: "bool \<Rightarrow> document_sync \<Rightarrow> peat_document" where
  "sync_document lc s =
     \<lparr>doc_version = sync_version s, doc_node_id = sync_node_id s, doc_counter = sync_counter s,
      doc_peripheral = Some (sync_peripheral s), doc_emergency = sync_emergency s,
      doc_chat = (if lc then map_option for_sync (sync_chat s) else None)\<rparr>"

definition build_document :: "bool \<Rightarrow> document_sync \<Rightarrow> bytes" where
  "build_document lc s = doc_encode lc (sync_document lc s)"

definition bump_version :: "document_sync \<Rightarrow> document_sync" where
  "bump_version s = s\<lparr>sync_version := sync_version s + 1\<rparr>"

definition increment_counter_internal :: "document_sync \<Rightarrow> document_sync" where
  "increment_counter_internal s =
     bump_version (s\<lparr>sync_counter := gcounter_increment (sync_counter s) (sync_node_id s) 1\<rparr>)"

definition sync_merge_chat :: "bool \<Rightarrow> chat_crdt option \<Rightarrow> chat_crdt option \<Rightarrow> chat_crdt option \<times> bool" where
  "sync_merge_chat lc ours received =
     (if lc then
        (case received of
           None \<Rightarrow> (ours, False)
         | Some rc \<Rightarrow>
             if \<not> chat_is_empty rc then
               (case ours of
                  Some c \<Rightarrow> let r = chat_merge c rc in (Some (fst r), snd r)
                | None \<Rightarrow> (Some rc, True))
             else (ours, False))
      else (ours, False))"

definition merge_document :: "bool \<Rightarrow> document_sync \<Rightarrow> bytes \<Rightarrow> (document_sync \<times> merge_result option) outcome" where
  "merge_document lc s data = do {
     dr \<leftarrow> doc_decode lc data;
     case dr of
       None \<Rightarrow> ret (s, None)
     | Some received \<Rightarrow>
         if doc_node_id received = sync_node_id s then ret (s, None)
         else do {
           let old_value = gcounter_value (sync_counter s);
           let c = gcounter_merge (sync_counter s) (doc_counter received);
           let counter_changed = (gcounter_value c \<noteq> old_value);
           let (e, emergency_changed) =
             merge_emergency_field (sync_emergency s) (doc_emergency received);
           let (ch, chat_changed) = sync_merge_chat lc (sync_chat s) (doc_chat received);
           let s1 = s\<lparr>sync_counter := c, sync_emergency := e, sync_chat := ch\<rparr>;
           let s2 = (if counter_changed \<or> emergency_changed \<or> chat_changed then bump_version s1 else s1);
           let event = (case doc_peripheral received of None \<Rightarrow> None | Some p \<Rightarrow> last_event p);
           ret (s2, Some \<lparr>mr_source_node = doc_node_id received, mr_event = event,
             mr_peer_peripheral = doc_peripheral received, mr_counter_changed = counter_changed,
             mr_emergency_changed = emergency_changed, mr_chat_changed = chat_changed,
             mr_total_count = sync_total_count s2\<rparr>)
         }
   }"

section \<open>Mutations\<close>

abbreviation map_peripheral :: "(peripheral \<Rightarrow> peripheral) \<Rightarrow> document_sync \<Rightarrow> document_sync" where
  "map_peripheral f s \<equiv> s\<lparr>sync_peripheral := f (sync_peripheral s)\<rparr>"

abbreviation map_health :: "(health_status \<Rightarrow> health_status) \<Rightarrow> peripheral \<Rightarrow> peripheral" where
  "map_health f p \<equiv> p\<lparr>health := f (health p)\<rparr>"

definition send_emergency :: "bool \<Rightarrow> document_sync \<Rightarrow> u64 \<Rightarrow> document_sync \<times> bytes" where
  "send_emergency lc s ts =
     (let s' = increment_counter_internal (map_peripheral (\<lambda>p. set_event p Emergency ts) s)
      in (s', build_document lc s'))"

definition send_ack :: "bool \<Rightarrow> document_sync \<Rightarrow> u64 \<Rightarrow> document_sync \<times> bytes" where
  "send_ack lc s ts =
     (let s' = increment_counter_internal (map_peripheral (\<lambda>p. set_event p Ack ts) s)
      in (s', build_document lc s'))"

definition sync_clear_event :: "document_sync \<Rightarrow> document_sync" where
  "sync_clear_event s = bump_version (map_peripheral clear_event s)"

definition sync_increment_counter :: "document_sync \<Rightarrow> document_sync" where
  "sync_increment_counter s = increment_counter_internal s"

definition update_health :: "document_sync \<Rightarrow> u8 \<Rightarrow> document_sync" where
  "update_health s b = bump_version (map_peripheral (map_health (\<lambda>h. h\<lparr>battery_percent := b\<rparr>)) s)"

definition update_activity :: "document_sync \<Rightarrow> u8 \<Rightarrow> document_sync" where
  "update_activity s a = bump_version (map_peripheral (map_health (\<lambda>h. h\<lparr>activity := a\<rparr>)) s)"

definition update_health_full :: "document_sync \<Rightarrow> u8 \<Rightarrow> u8 \<Rightarrow> document_sync" where
  "update_health_full s b a =
     bump_version (map_peripheral (map_health (\<lambda>h. h\<lparr>battery_percent := b, activity := a\<rparr>)) s)"

definition update_heart_rate :: "document_sync \<Rightarrow> u8 \<Rightarrow> document_sync" where
  "update_heart_rate s hr = bump_version (map_peripheral (map_health (\<lambda>h. h\<lparr>heart_rate := Some hr\<rparr>)) s)"

definition update_location :: "document_sync \<Rightarrow> f32 \<Rightarrow> f32 \<Rightarrow> f32 option \<Rightarrow> document_sync" where
  "update_location s lat lon alt = bump_version (map_peripheral (\<lambda>p. set_location p lat lon alt) s)"

definition sync_clear_location :: "document_sync \<Rightarrow> document_sync" where
  "sync_clear_location s = bump_version (map_peripheral clear_location s)"

definition update_callsign :: "document_sync \<Rightarrow> bytes \<Rightarrow> document_sync" where
  "update_callsign s cs = bump_version (map_peripheral (\<lambda>p. set_callsign p cs) s)"

definition set_peripheral_event :: "document_sync \<Rightarrow> event_type \<Rightarrow> u64 \<Rightarrow> document_sync" where
  "set_peripheral_event s t ts = bump_version (map_peripheral (\<lambda>p. set_event p t ts) s)"

definition clear_peripheral_event :: "document_sync \<Rightarrow> document_sync" where
  "clear_peripheral_event s = bump_version (map_peripheral clear_event s)"

definition update_peripheral_state ::
  "document_sync \<Rightarrow> bytes \<Rightarrow> u8 \<Rightarrow> u8 option \<Rightarrow> f32 option \<Rightarrow> f32 option \<Rightarrow> f32 option
    \<Rightarrow> event_type option \<Rightarrow> u64 \<Rightarrow> document_sync" where
  "update_peripheral_state s cs b hr lat lon alt evt ts =
     (let p1 = set_callsign (sync_peripheral s) cs;
          p2 = map_health (\<lambda>h. h\<lparr>battery_percent := b\<rparr>) p1;
          p3 = (case hr of None \<Rightarrow> p2 | Some r \<Rightarrow> map_health (\<lambda>h. h\<lparr>heart_rate := Some r\<rparr>) p2);
          p4 = (case (lat, lon) of
                  (Some la, Some lo) \<Rightarrow> set_location p3 la lo alt
                | _ \<Rightarrow> clear_location p3);
          p5 = (case evt of None \<Rightarrow> p4 | Some t \<Rightarrow> set_event p4 t ts);
          p6 = p5\<lparr>periph_timestamp := ts\<rparr>
      in bump_version (s\<lparr>sync_peripheral := p6\<rparr>))"

section \<open>Emergencies\<close>

definition start_emergency :: "bool \<Rightarrow> document_sync \<Rightarrow> u64 \<Rightarrow> u32 list \<Rightarrow> document_sync \<times> bytes" where
  "start_emergency lc s ts known_peers =
     (let s1 = s\<lparr>sync_emergency := Some (emergency_new (sync_node_id s) ts known_peers)\<rparr>;
          s2 = increment_counter_internal (map_peripheral (\<lambda>p. set_event p Emergency ts) s1)
      in (s2, build_document lc s2))"

definition ack_emergency :: "bool \<Rightarrow> document_sync \<Rightarrow> u64 \<Rightarrow> document_sync \<times> bytes option" where
  "ack_emergency lc s ts =
     (case sync_emergency s of
        None \<Rightarrow> (s, None)
      | Some e \<Rightarrow>
          let r = emergency_ack e (sync_node_id s);
              s1 = s\<lparr>sync_emergency := Some (fst r)\<rparr>;
              s2 = (if snd r
                    then increment_counter_internal (map_peripheral (\<lambda>p. set_event p Ack ts) s1)
                    else s1)
          in (s2, Some (build_document lc s2)))"

definition clear_emergency :: "document_sync \<Rightarrow> document_sync" where
  "clear_emergency s =
     (if sync_emergency s \<noteq> None
      then bump_version (map_peripheral clear_event (s\<lparr>sync_emergency := None\<rparr>))
      else s)"

definition has_active_emergency :: "document_sync \<Rightarrow> bool" where
  "has_active_emergency s \<longleftrightarrow> sync_emergency s \<noteq> None"

definition get_emergency_status :: "document_sync \<Rightarrow> (u32 \<times> u64 \<times> nat \<times> nat) option" where
  "get_emergency_status s =
     map_option (\<lambda>e. (source_node e, emergency_timestamp e, ack_count e, length (pending_nodes e)))
       (sync_emergency s)"

definition has_peer_acked :: "document_sync \<Rightarrow> u32 \<Rightarrow> bool" where
  "has_peer_acked s n = (case sync_emergency s of None \<Rightarrow> False | Some e \<Rightarrow> has_acked e n)"

definition all_peers_acked :: "document_sync \<Rightarrow> bool" where
  "all_peers_acked s = (case sync_emergency s of None \<Rightarrow> True | Some e \<Rightarrow> all_acked e)"

section \<open>Chat\<close>

definition sync_add_message :: "document_sync \<Rightarrow> chat_message \<Rightarrow> document_sync \<times> bool" where
  "sync_add_message s msg =
     (let our_chat = (case sync_chat s of None \<Rightarrow> chat_new | Some c \<Rightarrow> c);
          r = add_message our_chat msg;
          s1 = s\<lparr>sync_chat := Some (fst r)\<rparr>
      in if snd r then (bump_version s1, True) else (s1, False))"

definition sync_add_chat_message :: "document_sync \<Rightarrow> bytes \<Rightarrow> bytes \<Rightarrow> u64 \<Rightarrow> document_sync \<times> bool" where
  "sync_add_chat_message s snd_name txt ts =
     sync_add_message s (chat_message_new (sync_node_id s) ts snd_name txt)"

definition sync_add_chat_reply ::
  "document_sync \<Rightarrow> bytes \<Rightarrow> bytes \<Rightarrow> u32 \<Rightarrow> u64 \<Rightarrow> u64 \<Rightarrow> document_sync \<times> bool" where
  "sync_add_chat_reply s snd_name txt rn rts ts =
     sync_add_message s (set_reply_to (chat_message_new (sync_node_id s) ts snd_name txt) rn rts)"

definition sync_chat_count :: "document_sync \<Rightarrow> nat" where
  "sync_chat_count s = (case sync_chat s of None \<Rightarrow> 0 | Some c \<Rightarrow> chat_len c)"

definition chat_messages_since :: "document_sync \<Rightarrow> u64 \<Rightarrow> (u32 \<times> u64 \<times> bytes \<times> bytes \<times> u32 \<times> u64) list" where
  "chat_messages_since s since =
     (case sync_chat s of
        None \<Rightarrow> []
      | Some c \<Rightarrow> map (\<lambda>m. (origin_node m, msg_timestamp m, sender_str m, text_str m,
                            reply_to_node m, reply_to_timestamp m)) (messages_since c since))"

definition all_chat_messages :: "document_sync \<Rightarrow> (u32 \<times> u64 \<times> bytes \<times> bytes \<times> u32 \<times> u64) list" where
  "all_chat_messages s = chat_messages_since s 0"

definition counter_entries :: "document_sync \<Rightarrow> (u32 \<times> u64) list" where
  "counter_entries s = gcounter_entries (sync_counter s)"

section \<open>Quick check of a received document\<close>

record document_check =
  check_node_id :: u32
  check_is_emergency :: bool
  check_is_ack :: bool

definition check_from_document :: "bool \<Rightarrow> bytes \<Rightarrow> document_check option outcome" where
  "check_from_document lc data = do {
     dr \<leftarrow> doc_decode lc data;
     case dr of
       None \<Rightarrow> ret None
     | Some d \<Rightarrow>
         let evt = (case doc_peripheral d of None \<Rightarrow> None | Some p \<Rightarrow> last_event p);
             (em, ack) = (case evt of None \<Rightarrow> (False, False)
                | Some e \<Rightarrow> (event_type e = Emergency, event_type e = Ack))
         in ret (Some \<lparr>check_node_id = doc_node_id d, check_is_emergency = em, check_is_ack = ack\<rparr>)
   }"

section \<open>Calls of a node\<close>

text \<open>
  One call of a mutating method other than \<open>merge_document\<close>: the state before, the state
  after and the documents handed to the radio.
\<close>

inductive sync_call :: "bool \<Rightarrow> document_sync \<Rightarrow> document_sync \<Rightarrow> bytes list \<Rightarrow> bool" for lc where
  call_build: "sync_call lc s s [build_document lc s]"
| call_send_emergency: "send_emergency lc s ts = (s', d) \<Longrightarrow> sync_call lc s s' [d]"
| call_send_ack: "send_ack lc s ts = (s', d) \<Longrightarrow> sync_call lc s s' [d]"
| call_clear_event: "sync_call lc s (sync_clear_event s) []"
| call_increment: "sync_call lc s (sync_increment_counter s) []"
| call_health: "sync_call lc s (update_health s b) []"
| call_activity: "sync_call lc s (update_activity s a) []"
| call_health_full: "sync_call lc s (update_health_full s b a) []"
| call_heart_rate: "sync_call lc s (update_heart_rate s hr) []"
| call_location: "sync_call lc s (update_location s lat lon alt) []"
| call_clear_location: "sync_call lc s (sync_clear_location s) []"
| call_callsign: "sync_call lc s (update_callsign s cs) []"
| call_set_event: "sync_call lc s (set_peripheral_event s t ts) []"
| call_clear_periph: "sync_call lc s (clear_peripheral_event s) []"
| call_state: "sync_call lc s (update_peripheral_state s cs b ohr olat olon alt evt ts) []"
| call_start: "start_emergency lc s ts known_peers = (s', d) \<Longrightarrow> sync_call lc s s' [d]"
| call_ack: "ack_emergency lc s ts = (s', od) \<Longrightarrow> sync_call lc s s' (case od of None \<Rightarrow> [] | Some d \<Rightarrow> [d])"
| call_clear: "sync_call lc s (clear_emergency s) []"
| call_chat: "lc \<Longrightarrow> sync_call lc s (fst (sync_add_chat_message s nm txt ts)) []"
| call_reply: "lc \<Longrightarrow> sync_call lc s (fst (sync_add_chat_reply s nm txt rn rts ts)) []"

definition sync_wf :: "document_sync \<Rightarrow> bool" where
  "sync_wf s \<longleftrightarrow>
     gcounter_wf (sync_counter s)
     \<and> periph_id (sync_peripheral s) = sync_node_id s \<and> length (callsign (sync_peripheral s)) = 12
     \<and> pred_option (\<lambda>e. bt_wf (acks e)) (sync_emergency s)
     \<and> pred_option (\<lambda>c. bt_wf (messages c)) (sync_chat s)"

lemmas sync_ops = send_emergency_def send_ack_def sync_clear_event_def sync_increment_counter_def
  update_health_def update_activity_def update_health_full_def update_heart_rate_def
  update_location_def sync_clear_location_def update_callsign_def set_peripheral_event_def
  clear_peripheral_event_def update_peripheral_state_def start_emergency_def ack_emergency_def
  clear_emergency_def sync_add_chat_message_def sync_add_chat_reply_def sync_add_message_def
  increment_counter_internal_def bump_version_def

lemmas peripheral_ops = set_event_def clear_event_def set_location_def clear_location_def
  set_callsign_def with_callsign_def

lemma sync_call_counter:
  assumes "sync_call lc s s' out"
  shows "sync_node_id s' = sync_node_id s
    \<and> (sync_counter s' = sync_counter s
       \<or> sync_counter s' = gcounter_increment (sync_counter s) (sync_node_id s) 1)
    \<and> set out \<subseteq> {build_document lc s'}"
  using assms
  by cases (auto simp: sync_ops Let_def split: option.splits if_splits)

lemma length_copy_callsign: "length buf = 12 \<Longrightarrow> length (copy_callsign buf cs) = 12"
  by (auto simp: copy_callsign_def min_def)

lemma sync_call_peripheral:
  assumes "sync_call lc s s' out" "length (callsign (sync_peripheral s)) = 12"
  shows "periph_id (sync_peripheral s') = periph_id (sync_peripheral s)
    \<and> length (callsign (sync_peripheral s')) = 12"
  using assms
  by cases (auto simp: sync_ops peripheral_ops Let_def length_copy_callsign split: option.splits if_splits)

lemma bt_wf_emergency_merge:
  "bt_wf (acks e) \<Longrightarrow> bt_wf (acks f) \<Longrightarrow> bt_wf (acks (fst (emergency_merge e f)))"
  by (auto simp: emergency_merge_def Let_def fst_fold_merge_ack bt_wf_join)

lemma bt_wf_add_message: "bt_wf (messages c) \<Longrightarrow> bt_wf (messages (fst (add_message c m)))"
  by (auto simp: add_message_def Let_def prune_if_needed_keep bt_wf_keep)

lemma bt_wf_chat_merge:
  "bt_wf (messages c) \<Longrightarrow> bt_wf (messages (fst (chat_merge c d)))"
  by (auto simp: chat_merge_def Let_def prune_if_needed_keep bt_wf_keep merge_message_union bt_wf_join)

lemma sync_call_parts:
  assumes "sync_call lc s s' out" "pred_option (\<lambda>e. bt_wf (acks e)) (sync_emergency s)"
    "pred_option (\<lambda>c. bt_wf (messages c)) (sync_chat s)"
  shows "pred_option (\<lambda>e. bt_wf (acks e)) (sync_emergency s')
    \<and> pred_option (\<lambda>c. bt_wf (messages c)) (sync_chat s')"
  using assms
  by cases (auto simp: sync_ops Let_def bt_wf_emergency_new emergency_ack_spec bt_wf_add_message chat_new_def
      split: option.splits if_splits)

lemma sync_call_wf: "sync_call lc s s' out \<Longrightarrow> sync_wf s \<Longrightarrow> sync_wf s'"
  using sync_call_counter [of lc s s' out] sync_call_peripheral [of lc s s' out]
    sync_call_parts [of lc s s' out]
  by (auto simp: sync_wf_def)

lemma sync_wf_new: "sync_wf (sync_new n cs)"
  by (simp add: sync_wf_def sync_new_def with_callsign_def peripheral_new_def length_copy_callsign)

section \<open>Merging a received document\<close>

lemma merge_document_safe: "no_panic (merge_document lc s data)"
  unfolding merge_document_def by (auto intro!: safe doc_decode_safe split: prod.splits)

text \<open>A document that does not parse, or that is our own, changes nothing.\<close>

lemma merge_document_ignored:
  assumes "doc_decode lc data = ret None
    \<or> (\<exists>d. doc_decode lc data = ret (Some d) \<and> doc_node_id d = sync_node_id s)"
  shows "merge_document lc s data = ret (s, None)"
  using assms by (auto simp: merge_document_def)

lemma merge_document_merged:
  assumes "doc_decode lc data = ret (Some d)" "doc_node_id d \<noteq> sync_node_id s"
  obtains s' r where "merge_document lc s data = ret (s', Some r)"
    and "sync_node_id s' = sync_node_id s" "sync_peripheral s' = sync_peripheral s"
    and "sync_counter s' = gcounter_merge (sync_counter s) (doc_counter d)"
    and "sync_emergency s' = fst (merge_emergency_field (sync_emergency s) (doc_emergency d))"
    and "sync_chat s' = fst (sync_merge_chat lc (sync_chat s) (doc_chat d))"
    and "mr_source_node r = doc_node_id d" "mr_total_count r = gcounter_value (sync_counter s')"
    and "mr_event r = (case doc_peripheral d of None \<Rightarrow> None | Some p \<Rightarrow> last_event p)"
    and "sync_version s' = (if mr_counter_changed r \<or> mr_emergency_changed r \<or> mr_chat_changed r
           then sync_version s + 1 else sync_version s)"
proof -
  obtain e ec where e: "merge_emergency_field (sync_emergency s) (doc_emergency d) = (e, ec)" by fastforce
  obtain ch cc where ch: "sync_merge_chat lc (sync_chat s) (doc_chat d) = (ch, cc)" by fastforce
  have "\<exists>s' r. merge_document lc s data = ret (s', Some r)"
    using assms e ch by (simp add: merge_document_def Let_def)
  then obtain s' r where m: "merge_document lc s data = ret (s', Some r)" by blast
  then show thesis
    using assms e ch
    by (intro that [OF m])
      (auto simp: merge_document_def Let_def sync_total_count_def bump_version_def split: if_splits)
qed

definition sync_replica :: "document_sync \<Rightarrow> replica_state" where
  "sync_replica s = (sync_counter s, sync_emergency s, chat_or_new (sync_chat s))"

definition sync_ok :: "bool \<Rightarrow> (u64 \<Rightarrow> u32) \<Rightarrow> (u64 \<Rightarrow> chat_message) \<Rightarrow> document_sync \<Rightarrow> bool" where
  "sync_ok lc src h s \<longleftrightarrow> replica_ok src h (sync_replica s) \<and> (lc \<or> sync_chat s = None)"

lemma sync_merge_chat_join:
  assumes "chat_history h (chat_or_new ours)" "chat_history h (chat_or_new theirs)"
  shows "chat_or_new (fst (sync_merge_chat True ours theirs))
    = fst (chat_merge (chat_or_new ours) (chat_or_new theirs))"
  using assms
  by (auto simp: sync_merge_chat_def Let_def chat_merge_new [of h] chat_is_empty_new split: option.splits)

lemma merge_document_replica:
  assumes d: "doc_decode lc data = ret (Some d)" "doc_node_id d \<noteq> sync_node_id s"
    and ok: "sync_ok lc src h s" "doc_ok lc src h d"
  obtains s' r where "merge_document lc s data = ret (s', Some r)"
    and "sync_replica s' = replica_merge (sync_replica s) (replica d)" "sync_ok lc src h s'"
    and "mr_source_node r = doc_node_id d"
proof (rule merge_document_merged [OF d])
  fix s' r
  assume m: "merge_document lc s data = ret (s', Some r)"
    and parts: "sync_counter s' = gcounter_merge (sync_counter s) (doc_counter d)"
      "sync_emergency s' = fst (merge_emergency_field (sync_emergency s) (doc_emergency d))"
      "sync_chat s' = fst (sync_merge_chat lc (sync_chat s) (doc_chat d))"
    and src: "mr_source_node r = doc_node_id d"
  have chat: "chat_history h (chat_or_new (sync_chat s))" "chat_history h (chat_or_new (doc_chat d))"
    using ok by (simp_all add: sync_ok_def doc_ok_def replica_ok_def sync_replica_def replica_def
        doc_get_or_create_chat_def)
  have "chat_or_new (sync_chat s') = fst (chat_merge (chat_or_new (sync_chat s)) (chat_or_new (doc_chat d)))"
    using ok sync_merge_chat_join [OF chat] chat_merge_new(1) [OF chat_history_new] parts(3)
    by (cases lc) (auto simp: sync_ok_def doc_ok_def sync_merge_chat_def)
  then have merged: "sync_replica s' = replica_merge (sync_replica s) (replica d)"
    using parts by (simp add: sync_replica_def replica_def replica_merge_def pair_merge_def
        merge_emergency_field_join doc_get_or_create_chat_def)
  have "sync_ok lc src h s'"
    using ok parts by (auto simp: sync_ok_def doc_ok_def merged rep.inv_merge sync_merge_chat_def)
  then show thesis using that m merged src by blast
qed

lemma merge_document_cases:
  assumes "merge_document lc s data = ret (s', r)"
  obtains (ignored) "s' = s"
  | (merged) d where "doc_decode lc data = ret (Some d)" "doc_sendable lc d"
      "sync_node_id s' = sync_node_id s" "sync_peripheral s' = sync_peripheral s"
      "sync_counter s' = gcounter_merge (sync_counter s) (doc_counter d)"
      "sync_emergency s' = fst (merge_emergency_field (sync_emergency s) (doc_emergency d))"
      "sync_chat s' = fst (sync_merge_chat lc (sync_chat s) (doc_chat d))"
proof -
  obtain dr where dr: "doc_decode lc data = ret dr"
    using doc_decode_safe [of lc data] by (auto simp: no_panic_def)
  consider "s' = s" | d where "dr = Some d" "doc_node_id d \<noteq> sync_node_id s"
    using assms(1) dr by (auto simp: merge_document_def split: option.splits if_splits)
  then show thesis
  proof cases
    case 2
    then have d: "doc_decode lc data = ret (Some d)" using dr by simp
    show thesis
      by (rule merge_document_merged [OF d 2(2)], rule merged [OF d doc_decode_sendable [OF d]])
        (use assms in auto)
  qed (rule ignored)
qed

lemma merge_document_wf:
  assumes "merge_document lc s data = ret (s', r)" "sync_wf s"
  shows "sync_wf s'"
  using assms(1)
proof (cases rule: merge_document_cases)
  case (merged d)
  have "gcounter_wf (doc_counter d)" "pred_option (\<lambda>e. bt_wf (acks e)) (doc_emergency d)"
    "pred_option (\<lambda>c. bt_wf (messages c)) (doc_chat d)"
    using merged(2) by (auto simp: doc_sendable_def gcounter_sendable_def sections_valid_def
        emergency_valid_def chat_sendable_def option.pred_set)
  then show ?thesis
    using assms(2) merged(3-)
    by (auto simp: sync_wf_def gc.inv_merge merge_emergency_field_def sync_merge_chat_def
        bt_wf_emergency_merge bt_wf_chat_merge Let_def split: option.splits if_splits)
qed (use assms in simp)

lemma merge_document_counts:
  assumes "merge_document lc s data = ret (s', r)"
  shows "sync_node_id s' = sync_node_id s
    \<and> (s' = s \<or> (\<exists>d. doc_decode lc data = ret (Some d)
       \<and> (\<forall>k. gcounter_node_count (sync_counter s') k
            = max (gcounter_node_count (sync_counter s) k) (gcounter_node_count (doc_counter d) k))))"
  using assms
proof (cases rule: merge_document_cases)
  case (merged d)
  then have "gcounter_wf (doc_counter d)" by (simp add: doc_sendable_def gcounter_sendable_def)
  then show ?thesis using merged by (simp add: gcounter_node_count_merge)
qed simp

lemma merge_document_mono:
  assumes "merge_document lc s data = ret (s', r)"
  shows "gcounter_node_count (sync_counter s) k \<le> gcounter_node_count (sync_counter s') k"
  using merge_document_counts [OF assms] by auto

section \<open>The mesh\<close>

record mesh =
  mesh_nodes :: "u32 \<rightharpoonup> document_sync"
  mesh_network :: "bytes list"

definition mesh_init :: mesh where
  "mesh_init = \<lparr>mesh_nodes = Map.empty, mesh_network = []\<rparr>"

inductive mesh_step :: "bool \<Rightarrow> mesh \<Rightarrow> mesh \<Rightarrow> bool" for lc where
  join: "mesh_nodes m n = None \<Longrightarrow>
    mesh_step lc m (m\<lparr>mesh_nodes := (mesh_nodes m)(n \<mapsto> sync_with_peripheral_type n cs t)\<rparr>)"
| call: "mesh_nodes m n = Some s \<Longrightarrow> sync_call lc s s' out \<Longrightarrow>
    mesh_step lc m (m\<lparr>mesh_nodes := (mesh_nodes m)(n \<mapsto> s'), mesh_network := out @ mesh_network m\<rparr>)"
| deliver: "mesh_nodes m n = Some s \<Longrightarrow> data \<in> set (mesh_network m) \<Longrightarrow>
    merge_document lc s data = ret (s', r) \<Longrightarrow>
    mesh_step lc m (m\<lparr>mesh_nodes := (mesh_nodes m)(n \<mapsto> s')\<rparr>)"

inductive mesh_run :: "bool \<Rightarrow> mesh \<Rightarrow> mesh \<Rightarrow> bool" for lc where
  run_refl: "mesh_run lc m m"
| run_step: "mesh_run lc m m' \<Longrightarrow> mesh_step lc m' m'' \<Longrightarrow> mesh_run lc m m''"

inductive_cases mesh_step_cases: "mesh_step lc m m'"

definition own_count :: "mesh \<Rightarrow> u32 \<Rightarrow> u64" where
  "own_count m k = (case mesh_nodes m k of None \<Rightarrow> 0 | Some s \<Rightarrow> sync_local_count s)"

definition knows_at_most :: "mesh \<Rightarrow> document_sync \<Rightarrow> bool" where
  "knows_at_most m s \<longleftrightarrow> (\<forall>k. gcounter_node_count (sync_counter s) k \<le> own_count m k)"

definition mesh_inv :: "bool \<Rightarrow> mesh \<Rightarrow> bool" where
  "mesh_inv lc m \<longleftrightarrow>
     (\<forall>n s. mesh_nodes m n = Some s \<longrightarrow> sync_node_id s = n \<and> sync_wf s \<and> knows_at_most m s)
     \<and> (\<forall>data \<in> set (mesh_network m). \<exists>s. data = build_document lc s \<and> sync_wf s \<and> knows_at_most m s)"

lemma own_count_mono:
  assumes "mesh_step lc m m'" "mesh_inv lc m"
  shows "own_count m k \<le> own_count m' k"
  using assms(1)
proof cases
  case (join n cs t)
  then show ?thesis by (simp add: own_count_def)
next
  case (call n s s' out)
  then show ?thesis
    using sync_call_counter [OF call(3)]
    by (auto simp: own_count_def sync_local_count_def gcounter_node_count_increment sat_add_ge)
next
  case (deliver n s data s' r)
  have "sync_node_id s' = sync_node_id s
      \<and> gcounter_node_count (sync_counter s) k \<le> gcounter_node_count (sync_counter s') k"
    using merge_document_counts [OF deliver(4)] merge_document_mono [OF deliver(4)] by blast
  then show ?thesis
    using deliver assms(2) by (auto simp: own_count_def sync_local_count_def mesh_inv_def)
qed

lemma knows_at_most_mono:
  "mesh_step lc m m' \<Longrightarrow> mesh_inv lc m \<Longrightarrow> knows_at_most m s \<Longrightarrow> knows_at_most m' s"
  unfolding knows_at_most_def using own_count_mono order_trans by blast

lemma knows_at_most_call:
  assumes "mesh_inv lc m" "mesh_nodes m n = Some s" "sync_call lc s s' out"
    and "mesh_nodes m' = (mesh_nodes m)(n \<mapsto> s')"
  shows "knows_at_most m' s'"
proof -
  have s: "sync_node_id s = n" "knows_at_most m s" using assms(1,2) by (auto simp: mesh_inv_def)
  have "gcounter_node_count (sync_counter s') k \<le> own_count m' k" for k
  proof (cases "k = n")
    case True
    then show ?thesis using s assms(4) sync_call_counter [OF assms(3)]
      by (simp add: own_count_def sync_local_count_def)
  next
    case False
    then have "gcounter_node_count (sync_counter s') k = gcounter_node_count (sync_counter s) k"
      using s sync_call_counter [OF assms(3)] by (auto simp: gcounter_node_count_increment)
    also have "\<dots> \<le> own_count m k" using s by (simp add: knows_at_most_def)
    also have "own_count m k = own_count m' k" using False assms(4) by (simp add: own_count_def)
    finally show ?thesis .
  qed
  then show ?thesis by (simp add: knows_at_most_def)
qed

lemma knows_at_most_deliver:
  assumes "mesh_inv lc m" "mesh_nodes m n = Some s" "data \<in> set (mesh_network m)"
    and "merge_document lc s data = ret (s', r)"
  shows "knows_at_most m s'"
proof -
  have s: "knows_at_most m s" using assms(1,2) by (auto simp: mesh_inv_def)
  obtain q where q: "data = build_document lc q" "sync_wf q" "knows_at_most m q"
    using assms(1,3) unfolding mesh_inv_def by blast
  from merge_document_counts [OF assms(4)] consider "s' = s"
    | d where "doc_decode lc data = ret (Some d)" "\<forall>k. gcounter_node_count (sync_counter s') k
        = max (gcounter_node_count (sync_counter s) k) (gcounter_node_count (doc_counter d) k)"
    by blast
  then show ?thesis
  proof cases
    case 2
    have d: "gcounter_node_count (doc_counter d) k \<le> gcounter_node_count (sync_counter q) k" for k
      using doc_decode_encode_counter(2) [of lc "sync_document lc q" d k] 2(1) q(1,2)
      by (simp add: build_document_def sync_wf_def sync_document_def)
    have "gcounter_node_count (doc_counter d) k \<le> own_count m k" for k
      using q(3) order_trans [OF d] by (simp add: knows_at_most_def)
    then show ?thesis using s 2(2) by (simp add: knows_at_most_def)
  qed (use s in simp)
qed

lemma sync_wf_with_peripheral_type: "sync_wf (sync_with_peripheral_type n cs t)"
  by (simp add: sync_wf_def sync_with_peripheral_type_def with_callsign_def peripheral_new_def
      length_copy_callsign)

lemma knows_at_most_initial: "knows_at_most m (sync_with_peripheral_type n cs t)"
  by (simp add: knows_at_most_def sync_with_peripheral_type_def gcounter_node_count_def
      gcounter_new_def bt_get_or_def bt_get_def)

lemma mesh_inv_update:
  assumes "mesh_nodes m' = (mesh_nodes m)(n \<mapsto> s')" "set (mesh_network m') \<subseteq> out \<union> set (mesh_network m)"
    and "\<And>n s. mesh_nodes m n = Some s \<Longrightarrow> sync_node_id s = n \<and> sync_wf s \<and> knows_at_most m' s"
    and "\<And>data. data \<in> set (mesh_network m) \<Longrightarrow> \<exists>s. data = build_document lc s \<and> sync_wf s \<and> knows_at_most m' s"
    and s': "sync_node_id s' = n" "sync_wf s'" "knows_at_most m' s'" and out: "out \<subseteq> {build_document lc s'}"
  shows "mesh_inv lc m'"
  unfolding mesh_inv_def
proof (intro conjI allI impI ballI)
  fix k s assume "mesh_nodes m' k = Some s"
  then have "sync_node_id s = k \<and> sync_wf s \<and> knows_at_most m' s"
    using assms(1,3) s' by (cases "k = n") auto
  then show "sync_node_id s = k" "sync_wf s" "knows_at_most m' s" by blast+
next
  fix data assume "data \<in> set (mesh_network m')"
  then have "data = build_document lc s' \<or> data \<in> set (mesh_network m)" using assms(2) out by blast
  then show "\<exists>s. data = build_document lc s \<and> sync_wf s \<and> knows_at_most m' s"
    using assms(4) s' by blast
qed

lemma mesh_inv_step:
  assumes "mesh_step lc m m'" "mesh_inv lc m"
  shows "mesh_inv lc m'"
proof -
  note old = knows_at_most_mono [OF assms]
  have node: "sync_node_id s = n \<and> sync_wf s \<and> knows_at_most m' s" if "mesh_nodes m n = Some s" for n s
    using that assms(2) old by (auto simp: mesh_inv_def)
  have net: "\<exists>s. data = build_document lc s \<and> sync_wf s \<and> knows_at_most m' s"
    if "data \<in> set (mesh_network m)" for data
    using that assms(2) old unfolding mesh_inv_def by blast
  from assms(1) show ?thesis
  proof cases
    case (join n cs t)
    then show ?thesis
      using sync_wf_with_peripheral_type knows_at_most_initial
      by (intro mesh_inv_update [OF _ _ node net, where out = "{}"])
        (auto simp: sync_with_peripheral_type_def)
  next
    case (call n s s' out)
    have s': "sync_node_id s' = n" "sync_wf s'" "knows_at_most m' s'"
      using node [OF call(2)] sync_call_counter [OF call(3)] sync_call_wf [OF call(3)]
        knows_at_most_call [OF assms(2) call(2,3), of m'] call(1) by auto
    show ?thesis
      using call(1) sync_call_counter [OF call(3)]
      by (intro mesh_inv_update [OF _ _ node net s', where out = "set out"]) auto
  next
    case (deliver n s data s' r)
    have "sync_node_id s' = n" "sync_wf s'" "knows_at_most m' s'"
      using node [OF deliver(2)] merge_document_counts [OF deliver(4)] merge_document_wf [OF deliver(4)]
        old [OF knows_at_most_deliver [OF assms(2) deliver(2-4)]] by auto
    then show ?thesis
      using deliver(1) by (intro mesh_inv_update [OF _ _ node net, where out = "{}"]) auto
  qed
qed

lemma mesh_inv_run: "mesh_run lc m m' \<Longrightarrow> mesh_inv lc m \<Longrightarrow> mesh_inv lc m'"
  by (induction rule: mesh_run.induct) (auto intro: mesh_inv_step)

lemma mesh_inv_init: "mesh_inv lc mesh_init"
  by (simp add: mesh_inv_def mesh_init_def)

lemma mesh_run_counts:
  assumes "mesh_run lc m m'" "mesh_nodes m n = Some s"
  shows "\<exists>s'. mesh_nodes m' n = Some s'
    \<and> (\<forall>k. gcounter_node_count (sync_counter s) k \<le> gcounter_node_count (sync_counter s') k)"
  using assms
proof (induction rule: mesh_run.induct)
  case (run_step m m' m'')
  then obtain s' where s': "mesh_nodes m' n = Some s'"
    and le: "\<forall>k. gcounter_node_count (sync_counter s) k \<le> gcounter_node_count (sync_counter s') k"
    by blast
  have call: "gcounter_node_count (sync_counter s') k \<le> gcounter_node_count (sync_counter t) k"
    if "sync_call lc s' t out" for t out k
    using sync_call_counter [OF that] by (auto simp: gcounter_node_count_increment sat_add_ge)
  have "\<exists>t. mesh_nodes m'' n = Some t
    \<and> (\<forall>k. gcounter_node_count (sync_counter s') k \<le> gcounter_node_count (sync_counter t) k)"
    using run_step.hyps(2) s'
    by (cases rule: mesh_step.cases) (auto intro: call merge_document_mono)
  then show ?case using le order_trans by meson
qed auto

section \<open>Properties\<close>

lemma doc_ok_sync_document:
  assumes "sync_ok lc src h s"
  shows "doc_ok lc src h (sync_document lc s)"
proof -
  have "chat_history h (chat_or_new (map_option for_sync (sync_chat s)))"
  proof (cases "sync_chat s")
    case (Some c)
    then have c: "chat_history h c" using assms by (simp add: sync_ok_def replica_ok_def sync_replica_def)
    then have "messages (for_sync c) = bt_keep CHAT_SYNC_LIMIT (messages c)"
      by (intro for_sync_keep) (simp add: chat_history_iff msgs_ok_def)
    moreover have "length (bt_keep CHAT_SYNC_LIMIT (messages c)) \<le> CHAT_MAX_MESSAGES"
      using length_bt_keep [of CHAT_SYNC_LIMIT] by (rule le_trans) (simp add: CHAT_SYNC_LIMIT_def CHAT_MAX_MESSAGES_def)
    ultimately show ?thesis
      using c Some by (simp add: chat_history_iff msgs_ok_keep)
  qed (simp add: chat_history_new)
  then show ?thesis
    using assms by (auto simp: doc_ok_def sync_ok_def replica_ok_def replica_def sync_replica_def
        sync_document_def doc_get_or_create_chat_def chat_history_new)
qed

text \<open>
  C1: nobody invents activity. In every reachable state of a mesh, with documents delivered late,
  repeatedly, out of order or not at all, no node attributes a larger count to a node than that
  node attributes to itself.
\<close>

theorem mesh_counts_truthful:
  assumes "mesh_run lc mesh_init m" "mesh_nodes m n = Some s"
  shows "gcounter_node_count (sync_counter s) k \<le> own_count m k"
  using mesh_inv_run [OF assms(1) mesh_inv_init] assms(2) by (auto simp: mesh_inv_def knows_at_most_def)

theorem mesh_counts_truthful_witness:
  "gcounter_node_count (sync_counter (sync_increment_counter (sync_with_peripheral_type 1 [65] SoldierSensor))) 1
    \<le> own_count \<lparr>mesh_nodes = [1 \<mapsto> sync_increment_counter (sync_with_peripheral_type 1 [65] SoldierSensor)],
        mesh_network = []\<rparr> 1"
proof (rule mesh_counts_truthful)
  let ?s = "sync_with_peripheral_type 1 [65] SoldierSensor"
  have a: "mesh_step True mesh_init \<lparr>mesh_nodes = [1 \<mapsto> ?s], mesh_network = []\<rparr>"
    using mesh_step.join [of mesh_init 1 True "[65]" SoldierSensor] by (simp add: mesh_init_def)
  have b: "mesh_step True \<lparr>mesh_nodes = [1 \<mapsto> ?s], mesh_network = []\<rparr>
      \<lparr>mesh_nodes = [1 \<mapsto> sync_increment_counter ?s], mesh_network = []\<rparr>"
    using mesh_step.call [of "\<lparr>mesh_nodes = [1 \<mapsto> ?s], mesh_network = []\<rparr>" 1 ?s True
        "sync_increment_counter ?s" "[]"] by (simp add: call_increment)
  show "mesh_run True mesh_init \<lparr>mesh_nodes = [1 \<mapsto> sync_increment_counter ?s], mesh_network = []\<rparr>"
    by (rule run_step [OF run_step [OF run_refl a] b])
qed simp

text \<open>
  what a node knows is never taken back. Along every run of a mesh a node stays a member, and
  the count it holds for any node never decreases.
\<close>

theorem mesh_counts_grow:
  assumes "mesh_run lc m m'" "mesh_nodes m n = Some s"
  shows "\<exists>s'. mesh_nodes m' n = Some s'
    \<and> (\<forall>k. gcounter_node_count (sync_counter s) k \<le> gcounter_node_count (sync_counter s') k)"
  using mesh_run_counts [OF assms] .

theorem mesh_counts_grow_witness:
  "\<exists>s'. mesh_nodes \<lparr>mesh_nodes = [1 \<mapsto> sync_increment_counter (sync_new 1 [65])], mesh_network = []\<rparr> 1 = Some s'
    \<and> (\<forall>k. gcounter_node_count (sync_counter (sync_new 1 [65])) k \<le> gcounter_node_count (sync_counter s') k)"
proof (rule mesh_counts_grow)
  let ?s = "sync_new 1 [65]"
  have "mesh_step True \<lparr>mesh_nodes = [1 \<mapsto> ?s], mesh_network = []\<rparr>
      \<lparr>mesh_nodes = [1 \<mapsto> sync_increment_counter ?s], mesh_network = []\<rparr>"
    using mesh_step.call [of "\<lparr>mesh_nodes = [1 \<mapsto> ?s], mesh_network = []\<rparr>" 1 ?s True
        "sync_increment_counter ?s" "[]"] by (simp add: call_increment)
  then show "mesh_run True \<lparr>mesh_nodes = [1 \<mapsto> ?s], mesh_network = []\<rparr>
      \<lparr>mesh_nodes = [1 \<mapsto> sync_increment_counter ?s], mesh_network = []\<rparr>"
    by (rule run_step [OF run_refl])
qed simp

text \<open>
  a document that arrives is merged. When a node receives what another node built, and the
  sender's document is within the limits of the wire format, the merge succeeds, reports the
  sender, and the receiver's replicated state becomes the abstract join of its own with what the
  document carries.
\<close>

theorem gossip_delivers:
  assumes "doc_encodable lc (sync_document lc s)" "sync_node_id s \<noteq> sync_node_id t"
    and "sync_ok lc src h s" "sync_ok lc src h t"
  shows "\<exists>t' r. merge_document lc t (build_document lc s) = ret (t', Some r)
    \<and> mr_source_node r = sync_node_id s
    \<and> sync_replica t' = replica_merge (sync_replica t) (replica (sync_document lc s))"
proof -
  let ?d = "sync_document lc s"
  have d: "doc_decode lc (build_document lc s) = ret (Some ?d)"
    using doc_decode_encode [OF assms(1)] by (simp add: build_document_def)
  have id: "doc_node_id ?d = sync_node_id s" by (simp add: sync_document_def)
  obtain t' r where "merge_document lc t (build_document lc s) = ret (t', Some r)"
    "sync_replica t' = replica_merge (sync_replica t) (replica ?d)" "mr_source_node r = doc_node_id ?d"
    using merge_document_replica [OF d _ assms(4) doc_ok_sync_document [OF assms(3)]] assms(2) id by metis
  then show ?thesis using id by auto
qed

theorem gossip_delivers_witness:
  "\<exists>t' r. merge_document False (sync_new 2 [65])
      (build_document False (sync_increment_counter (sync_new 1 [65, 66, 67, 68, 69, 70, 71, 72, 73, 74, 75, 76])))
        = ret (t', Some r)
    \<and> mr_source_node r = sync_node_id (sync_increment_counter (sync_new 1 [65, 66, 67, 68, 69, 70, 71, 72, 73, 74, 75, 76]))
    \<and> sync_replica t' = replica_merge (sync_replica (sync_new 2 [65]))
        (replica (sync_document False (sync_increment_counter (sync_new 1 [65, 66, 67, 68, 69, 70, 71, 72, 73, 74, 75, 76]))))"
proof (rule gossip_delivers)
  let ?s = "sync_increment_counter (sync_new 1 [65, 66, 67, 68, 69, 70, 71, 72, 73, 74, 75, 76])"
  let ?src = "\<lambda>t. 0" and ?h = "\<lambda>k. chat_message_default"
  show "sync_ok False ?src ?h ?s" "sync_ok False ?src ?h (sync_new 2 [65])"
    by (simp_all add: sync_ok_def replica_ok_def sync_replica_def sync_new_def sync_increment_counter_def
        increment_counter_internal_def bump_version_def chat_history_new)
  show "doc_encodable False (sync_document False ?s)"
    by (simp add: doc_encodable_def doc_sendable_def sections_valid_def sync_document_def sync_new_def
        sync_increment_counter_def increment_counter_internal_def bump_version_def
        gcounter_increment_def gcounter_new_def gcounter_sendable_def gcounter_wf_def bt_wf_Cons
        MAX_COUNTER_ENTRIES_def peripheral_valid_def with_callsign_def peripheral_new_def copy_callsign_def
        callsign_len_def health_valid_def health_default_def health_new_def timestamp_valid_def
        MAX_BATTERY_PERCENT_def)
qed (simp add: sync_new_def sync_increment_counter_def increment_counter_internal_def bump_version_def)

end
