(* ===== verification/Delta.thy ===== *)
theory Delta
  imports Crdt_Data "HOL-Library.List_Lexorder"
begin

text \<open>
  Delta synchronisation: the operation codec \<open>CrdtOperation\<close> of \<open>src/sync/crdt.rs\<close> and
  \<open>src/sync/delta.rs\<close> with its per-peer bookkeeping \<open>DeltaEncoder\<close> and its causality
  tracking \<open>VectorClock\<close>.

  The keys of the bookkeeping are the formatted strings of the source, as their bytes.
  A \<open>HashMap\<close> iterates in an unspecified order: \<open>vc_encode\<close> takes that order as an argument.
  The length check of \<open>VectorClock::decode\<close> multiplies a 32-bit count from the wire in
  \<open>usize\<close>; the width of \<open>usize\<close> is an argument of \<open>vc_decode\<close>, with the wrap-around of a
  release build.
\<close>

section \<open>Operations\<close>

datatype crdt_operation =
    UpdatePosition u32 position u64
  | UpdateHealth u32 health_status u64
  | IncrementCounter u8 u32 u64
  | UpdateRegister bytes bytes u64 u32

fun crdt_op_size :: "crdt_operation \<Rightarrow> nat" where
  "crdt_op_size (UpdatePosition n p t) = 4 + 8 + length (position_encode p)"
| "crdt_op_size (UpdateHealth n s t) = 4 + 8 + length (health_encode s)"
| "crdt_op_size (IncrementCounter c n a) = 1 + 4 + 8"
| "crdt_op_size (UpdateRegister key val t n) = 4 + 8 + length key + length val"

fun crdt_op_encode :: "crdt_operation \<Rightarrow> bytes" where
  "crdt_op_encode (UpdatePosition n p t) = [0x01] @ le32 n @ le64 t @ position_encode p"
| "crdt_op_encode (UpdateHealth n s t) = [0x02] @ le32 n @ le64 t @ health_encode s"
| "crdt_op_encode (IncrementCounter c n a) = [0x03, c] @ le32 n @ le64 a"
| "crdt_op_encode (UpdateRegister key val t n) =
     [0x04] @ le32 n @ le64 t @ [word_of_nat (length key)] @ key
     @ le16 (word_of_nat (length val)) @ val"

definition crdt_op_decode_register :: "bytes \<Rightarrow> crdt_operation option outcome" where
  "crdt_op_decode_register data =
     (if length data < 14 then ret None
      else do {
        n \<leftarrow> read_u32 data 1;
        t \<leftarrow> read_u64 data 5;
        kl \<leftarrow> read_u8 data 13;
        let key_len = unat kl;
        if length data < 14 + key_len + 2 then ret None
        else do {
          key \<leftarrow> slice data 14 (14 + key_len);
          if \<not> utf8_valid key then ret None
          else do {
            vl \<leftarrow> read_u16 data (14 + key_len);
            let value_len = unat vl;
            if length data < 16 + key_len + value_len then ret None
            else do {
              val \<leftarrow> slice data (16 + key_len) (16 + key_len + value_len);
              ret (Some (UpdateRegister key val t n))
            }
          }
        }
      })"

definition crdt_op_decode :: "bytes \<Rightarrow> crdt_operation option outcome" where
  "crdt_op_decode data =
     (if data = [] then ret None
      else do {
        tag \<leftarrow> read_u8 data 0;
        if tag = 0x01 then
          if length data < 13 then ret None
          else do {
            n \<leftarrow> read_u32 data 1;
            t \<leftarrow> read_u64 data 5;
            d \<leftarrow> slice_from data 13;
            p \<leftarrow> position_decode d;
            case p of None \<Rightarrow> ret None | Some pos \<Rightarrow> ret (Some (UpdatePosition n pos t))
          }
        else if tag = 0x02 then
          if length data < 13 then ret None
          else do {
            n \<leftarrow> read_u32 data 1;
            t \<leftarrow> read_u64 data 5;
            d \<leftarrow> slice_from data 13;
            h \<leftarrow> health_decode d;
            case h of None \<Rightarrow> ret None | Some st \<Rightarrow> ret (Some (UpdateHealth n st t))
          }
        else if tag = 0x03 then
          if length data < 14 then ret None
          else do {
            c \<leftarrow> read_u8 data 1;
            n \<leftarrow> read_u32 data 2;
            a \<leftarrow> read_u64 data 6;
            ret (Some (IncrementCounter c n a))
          }
        else if tag = 0x04 then crdt_op_decode_register data
        else ret None
      })"

section \<open>String keys\<close>

definition ascii :: "string \<Rightarrow> bytes" where
  "ascii s = map (\<lambda>c. word_of_nat (of_char c)) s"

definition hex_digit :: "nat \<Rightarrow> u8" where
  "hex_digit n = (if n < 10 then word_of_nat (48 + n) else word_of_nat (55 + n))"

definition hex8 :: "u32 \<Rightarrow> bytes" where
  "hex8 w = map (\<lambda>i. hex_digit (unat w div 16 ^ (7 - i) mod 16)) [0..<8]"

fun decimal :: "nat \<Rightarrow> bytes" where
  "decimal n =
     (if n < 10 then [word_of_nat (48 + n)]
      else decimal (n div 10) @ [word_of_nat (48 + n mod 10)])"

fun operation_key_timestamp :: "crdt_operation \<Rightarrow> bytes \<times> u64" where
  "operation_key_timestamp (UpdatePosition n p t) = (ascii ''pos:'' @ hex8 n, t)"
| "operation_key_timestamp (UpdateHealth n s t) = (ascii ''health:'' @ hex8 n, t)"
| "operation_key_timestamp (IncrementCounter c n a) =
     (ascii ''counter:'' @ decimal (unat c) @ ascii '':'' @ hex8 n, - 1)"
| "operation_key_timestamp (UpdateRegister key val t n) =
     (ascii ''reg:'' @ key @ ascii '':'' @ hex8 n, t)"

declare decimal.simps [simp del]

section \<open>Per-peer state\<close>

record peer_sync_state =
  last_sent :: "(bytes, u64) btree_map"
  last_received_timestamp :: u64
  sync_count :: u32
  bytes_sent :: u64
  bytes_received :: u64

definition peer_sync_state_new :: peer_sync_state where
  "peer_sync_state_new =
     \<lparr>last_sent = [], last_received_timestamp = 0, sync_count = 0, bytes_sent = 0, bytes_received = 0\<rparr>"

definition peer_mark_sent :: "peer_sync_state \<Rightarrow> bytes \<Rightarrow> u64 \<Rightarrow> peer_sync_state" where
  "peer_mark_sent s key t = s\<lparr>last_sent := bt_insert key t (last_sent s)\<rparr>"

definition last_sent_timestamp :: "peer_sync_state \<Rightarrow> bytes \<Rightarrow> u64 option" where
  "last_sent_timestamp s key = bt_get (last_sent s) key"

definition needs_send :: "peer_sync_state \<Rightarrow> bytes \<Rightarrow> u64 \<Rightarrow> bool" where
  "needs_send s key t = (case bt_get (last_sent s) key of Some prev \<Rightarrow> t > prev | None \<Rightarrow> True)"

definition peer_reset :: "peer_sync_state \<Rightarrow> peer_sync_state" where
  "peer_reset s = s\<lparr>last_sent := []\<rparr>"

section \<open>The encoder\<close>

record delta_encoder =
  enc_node_id :: u32
  enc_peers :: "(u32, peer_sync_state) btree_map"
  current_state :: "(bytes, u64 \<times> u64) btree_map"

record delta_stats =
  stat_peer_count :: nat
  total_bytes_sent :: u64
  total_bytes_received :: u64
  total_syncs :: u32
  tracked_keys :: nat

definition delta_encoder_new :: "u32 \<Rightarrow> delta_encoder" where
  "delta_encoder_new n = \<lparr>enc_node_id = n, enc_peers = [], current_state = []\<rparr>"

definition enc_add_peer :: "delta_encoder \<Rightarrow> u32 \<Rightarrow> delta_encoder" where
  "enc_add_peer d p = d\<lparr>enc_peers := bt_or_insert p peer_sync_state_new (enc_peers d)\<rparr>"

definition enc_remove_peer :: "delta_encoder \<Rightarrow> u32 \<Rightarrow> delta_encoder" where
  "enc_remove_peer d p = d\<lparr>enc_peers := bt_remove p (enc_peers d)\<rparr>"

definition get_peer_state :: "delta_encoder \<Rightarrow> u32 \<Rightarrow> peer_sync_state option" where
  "get_peer_state d p = bt_get (enc_peers d) p"

definition update_state :: "delta_encoder \<Rightarrow> bytes \<Rightarrow> u64 \<Rightarrow> u64 \<Rightarrow> delta_encoder" where
  "update_state d key h t = d\<lparr>current_state := bt_insert key (h, t) (current_state d)\<rparr>"

definition filter_for_peer :: "delta_encoder \<Rightarrow> u32 \<Rightarrow> crdt_operation list \<Rightarrow> crdt_operation list" where
  "filter_for_peer d p ops =
     (case bt_get (enc_peers d) p of
        None \<Rightarrow> ops
      | Some s \<Rightarrow> filter (\<lambda>op. let (key, t) = operation_key_timestamp op in needs_send s key t) ops)"

definition enc_mark_sent :: "delta_encoder \<Rightarrow> u32 \<Rightarrow> crdt_operation list \<Rightarrow> delta_encoder" where
  "enc_mark_sent d p ops =
     (case bt_get (enc_peers d) p of
        None \<Rightarrow> d
      | Some s \<Rightarrow>
          d\<lparr>enc_peers := bt_insert p
              (fold (\<lambda>op s. let (key, t) = operation_key_timestamp op in peer_mark_sent s key t) ops s)
              (enc_peers d)\<rparr>)"

definition record_sent :: "delta_encoder \<Rightarrow> u32 \<Rightarrow> nat \<Rightarrow> delta_encoder" where
  "record_sent d p n =
     (case bt_get (enc_peers d) p of
        None \<Rightarrow> d
      | Some s \<Rightarrow>
          d\<lparr>enc_peers := bt_insert p
              (s\<lparr>bytes_sent := bytes_sent s + word_of_nat n, sync_count := sync_count s + 1\<rparr>)
              (enc_peers d)\<rparr>)"

definition record_received :: "delta_encoder \<Rightarrow> u32 \<Rightarrow> nat \<Rightarrow> u64 \<Rightarrow> delta_encoder" where
  "record_received d p n t =
     (case bt_get (enc_peers d) p of
        None \<Rightarrow> d
      | Some s \<Rightarrow>
          d\<lparr>enc_peers := bt_insert p
              (s\<lparr>bytes_received := bytes_received s + word_of_nat n, last_received_timestamp := t\<rparr>)
              (enc_peers d)\<rparr>)"

definition reset_peer :: "delta_encoder \<Rightarrow> u32 \<Rightarrow> delta_encoder" where
  "reset_peer d p =
     (case bt_get (enc_peers d) p of
        None \<Rightarrow> d
      | Some s \<Rightarrow> d\<lparr>enc_peers := bt_insert p (peer_reset s) (enc_peers d)\<rparr>)"

definition delta_stats :: "delta_encoder \<Rightarrow> delta_stats" where
  "delta_stats d =
     \<lparr>stat_peer_count = length (enc_peers d),
      total_bytes_sent = sum_list (map (\<lambda>e. bytes_sent (snd e)) (enc_peers d)),
      total_bytes_received = sum_list (map (\<lambda>e. bytes_received (snd e)) (enc_peers d)),
      total_syncs = sum_list (map (\<lambda>e. sync_count (snd e)) (enc_peers d)),
      tracked_keys = length (current_state d)\<rparr>"

section \<open>Vector clocks\<close>

record vector_clock =
  clocks :: "(u32, u64) btree_map"

definition vc_new :: vector_clock where
  "vc_new = \<lparr>clocks = []\<rparr>"

definition vc_get :: "vector_clock \<Rightarrow> u32 \<Rightarrow> u64" where
  "vc_get v n = bt_get_or 0 (clocks v) n"

definition vc_increment :: "vector_clock \<Rightarrow> u32 \<Rightarrow> vector_clock \<times> u64" where
  "vc_increment v n =
     (let c = bt_get_or 0 (clocks v) n + 1 in (v\<lparr>clocks := bt_insert n c (clocks v)\<rparr>, c))"

definition vc_update :: "vector_clock \<Rightarrow> u32 \<Rightarrow> u64 \<Rightarrow> vector_clock" where
  "vc_update v n x = v\<lparr>clocks := bt_insert n (max (bt_get_or 0 (clocks v) n) x) (clocks v)\<rparr>"

definition vc_merge :: "vector_clock \<Rightarrow> vector_clock \<Rightarrow> vector_clock" where
  "vc_merge v other =
     v\<lparr>clocks := fold (\<lambda>(n, x) m. bt_insert n (max (bt_get_or 0 m n) x) m) (clocks other) (clocks v)\<rparr>"

fun dominated_scan :: "(u32 \<times> u64) list \<Rightarrow> (u32, u64) btree_map \<Rightarrow> bool \<Rightarrow> bool option" where
  "dominated_scan [] theirs d = Some d"
| "dominated_scan ((n, our_val) # es) theirs d =
     (let their_val = bt_get_or 0 theirs n in
      if our_val > their_val then None
      else dominated_scan es theirs (if our_val < their_val then True else d))"

definition happens_before :: "vector_clock \<Rightarrow> vector_clock \<Rightarrow> bool" where
  "happens_before v other =
     (case dominated_scan (clocks v) (clocks other) False of
        None \<Rightarrow> False
      | Some d \<Rightarrow>
          fold (\<lambda>(n, their_val) d. if \<not> bt_contains_key (clocks v) n \<and> their_val > 0 then True else d)
            (clocks other) d)"

definition concurrent_with :: "vector_clock \<Rightarrow> vector_clock \<Rightarrow> bool" where
  "concurrent_with v other \<longleftrightarrow> \<not> happens_before v other \<and> \<not> happens_before other v"

definition vc_encode :: "((u32 \<times> u64) list \<Rightarrow> (u32 \<times> u64) list) \<Rightarrow> vector_clock \<Rightarrow> bytes" where
  "vc_encode iter v =
     le32 (word_of_nat (length (clocks v))) @ concat (map encode_entry (iter (clocks v)))"

fun vc_decode_entries ::
  "nat \<Rightarrow> bytes \<Rightarrow> nat \<Rightarrow> (u32, u64) btree_map \<Rightarrow> (u32, u64) btree_map outcome" where
  "vc_decode_entries 0 data offset m = ret m"
| "vc_decode_entries (Suc n) data offset m = do {
     nid \<leftarrow> read_u32 data offset;
     x \<leftarrow> read_u64 data (offset + 4);
     vc_decode_entries n data (offset + 12) (bt_insert nid x m)
   }"

definition vc_decode :: "nat \<Rightarrow> bytes \<Rightarrow> vector_clock option outcome" where
  "vc_decode w data =
     (if length data < 4 then ret None
      else do {
        c \<leftarrow> read_u32 data 0;
        let count = unat c;
        if length data < usize_add w 4 (usize_mul w count 12) then ret None
        else do {
          m \<leftarrow> vc_decode_entries count data 4 [];
          ret (Some \<lparr>clocks = m\<rparr>)
        }
      })"

definition vc_wf :: "vector_clock \<Rightarrow> bool" where
  "vc_wf v \<longleftrightarrow> bt_wf (clocks v)"

section \<open>Lemmas: the operation codec\<close>

fun crdt_op_valid :: "crdt_operation \<Rightarrow> bool" where
  "crdt_op_valid (UpdatePosition n p t) = position_valid p"
| "crdt_op_valid (UpdateHealth n s t) = health_valid s"
| "crdt_op_valid (IncrementCounter c n a) = True"
| "crdt_op_valid (UpdateRegister key val t n) =
     (utf8_valid key \<and> length key < 2 ^ 8 \<and> length val < 2 ^ 16)"

lemma crdt_op_decode_register_encode:
  assumes "utf8_valid key" "length key < 2 ^ 8" "length val < 2 ^ 16"
  shows "crdt_op_decode_register (crdt_op_encode (UpdateRegister key val t n) @ post)
    = ret (Some (UpdateRegister key val t n))"
  using assms by (simp add: crdt_op_decode_register_def wire unat_of_nat)

lemma crdt_op_decode_encode:
  assumes "crdt_op_valid op"
  shows "crdt_op_decode (crdt_op_encode op) = ret (Some op)"
proof (cases op)
  case (UpdatePosition n p t)
  then show ?thesis
    using assms position_decode_encode [of p "[]"] by (simp add: crdt_op_decode_def wire)
next
  case (UpdateHealth n h t)
  then show ?thesis
    using assms health_decode_encode [of h] by (simp add: crdt_op_decode_def wire)
next
  case (IncrementCounter c n a)
  then show ?thesis by (simp add: crdt_op_decode_def wire)
next
  case (UpdateRegister key val t n)
  have tag: "read_u8 (crdt_op_encode op) 0 = ret 4"
    using UpdateRegister by (simp add: wire)
  have "crdt_op_encode op \<noteq> []" using UpdateRegister by simp
  then show ?thesis
    using crdt_op_decode_register_encode [of key val t n "[]"] UpdateRegister assms tag
    by (simp add: crdt_op_decode_def)
qed

lemma crdt_op_decode_register_safe: "no_panic (crdt_op_decode_register data)"
  unfolding crdt_op_decode_register_def by (auto intro!: safe)

lemma crdt_op_decode_safe: "no_panic (crdt_op_decode data)"
proof -
  have "data \<noteq> [] \<Longrightarrow> 0 < length data" by simp
  then show ?thesis
    unfolding crdt_op_decode_def
    by (auto intro!: safe position_decode_safe health_decode_safe crdt_op_decode_register_safe)
qed

section \<open>Lemmas: the encoder\<close>

definition enc_wf :: "delta_encoder \<Rightarrow> bool" where
  "enc_wf d \<longleftrightarrow> bt_wf (enc_peers d) \<and> bt_wf (current_state d)"

lemma enc_wf_ops:
  "enc_wf (delta_encoder_new n)"
  "enc_wf d \<Longrightarrow> enc_wf (enc_add_peer d p)"
  "enc_wf d \<Longrightarrow> enc_wf (enc_remove_peer d p)"
  "enc_wf d \<Longrightarrow> enc_wf (update_state d key h t)"
  "enc_wf d \<Longrightarrow> enc_wf (enc_mark_sent d p ops)"
  "enc_wf d \<Longrightarrow> enc_wf (record_sent d p k)"
  "enc_wf d \<Longrightarrow> enc_wf (record_received d p k t)"
  "enc_wf d \<Longrightarrow> enc_wf (reset_peer d p)"
  by (simp_all add: enc_wf_def delta_encoder_new_def enc_add_peer_def enc_remove_peer_def
      update_state_def enc_mark_sent_def record_sent_def record_received_def reset_peer_def
      split: option.split)

text \<open>What the bookkeeping of a peer records after a batch: the last time stamp per key.\<close>

definition batch_stamp :: "crdt_operation list \<Rightarrow> bytes \<Rightarrow> u64 option" where
  "batch_stamp ops = map_of (rev (map operation_key_timestamp ops))"

lemma last_sent_fold:
  "bt_get (last_sent (fold (\<lambda>op s. let (key, t) = operation_key_timestamp op in
       peer_mark_sent s key t) ops s)) key
   = (case batch_stamp ops key of None \<Rightarrow> bt_get (last_sent s) key | Some t \<Rightarrow> Some t)"
proof (induction ops arbitrary: s)
  case Nil
  then show ?case by (simp add: batch_stamp_def)
next
  case (Cons op ops)
  obtain k t where kt: "operation_key_timestamp op = (k, t)" by fastforce
  show ?case
    using Cons.IH kt
    by (auto simp: batch_stamp_def peer_mark_sent_def map_add_def split: option.split)
qed

lemma filter_after_mark:
  assumes "get_peer_state d p = Some s"
  shows "filter_for_peer (enc_mark_sent d p ops) p ops' =
    filter (\<lambda>op. case batch_stamp ops (fst (operation_key_timestamp op)) of
        None \<Rightarrow> needs_send s (fst (operation_key_timestamp op)) (snd (operation_key_timestamp op))
      | Some t \<Rightarrow> snd (operation_key_timestamp op) > t) ops'"
proof -
  let ?s = "fold (\<lambda>op s. let (key, t) = operation_key_timestamp op in peer_mark_sent s key t) ops s"
  have "needs_send ?s k t = (case batch_stamp ops k of None \<Rightarrow> needs_send s k t | Some u \<Rightarrow> t > u)" for k t
    unfolding needs_send_def last_sent_fold by (cases "batch_stamp ops k") simp_all
  then show ?thesis
    using assms by (simp add: filter_for_peer_def enc_mark_sent_def get_peer_state_def case_prod_beta)
qed

section \<open>Lemmas: vector clocks\<close>

lemma vc_merge_join: "vc_merge v u = \<lparr>clocks = bt_join max (clocks v) (clocks u)\<rparr>"
  by (simp add: vc_merge_def bt_join_unit)

interpretation vc: join_crdt vc_wf vc_merge
proof unfold_locales
  fix x y z assume x: "vc_wf x"
  then show "vc_merge x x = x"
    by (simp add: vc_merge_join vc_wf_def max_map.map.idem)
  assume y: "vc_wf y"
  show "vc_wf (vc_merge x y)"
    using x y by (simp add: vc_merge_join vc_wf_def max_map.map.inv_merge)
  show "vc_merge x y = vc_merge y x"
    using x y by (simp add: vc_merge_join vc_wf_def max_map.map.commute)
  assume z: "vc_wf z"
  show "vc_merge (vc_merge x y) z = vc_merge x (vc_merge y z)"
    using x y z by (simp add: vc_merge_join vc_wf_def max_map.map.assoc)
qed

lemma vc_get_merge: "vc_wf u \<Longrightarrow> vc_get (vc_merge v u) n = max (vc_get v n) (vc_get u n)"
  by (auto simp: vc_get_def vc_merge_join vc_wf_def bt_get_or_def bt_get_join split: option.splits)

lemma vc_get_increment: "vc_get (fst (vc_increment v n)) k = (if k = n then vc_get v n + 1 else vc_get v k)"
  by (simp add: vc_increment_def vc_get_def Let_def bt_get_or_def)

lemma vc_wf_ops:
  "vc_wf vc_new" "vc_wf v \<Longrightarrow> vc_wf (fst (vc_increment v n))" "vc_wf v \<Longrightarrow> vc_wf (vc_update v n x)"
  by (simp_all add: vc_wf_def vc_new_def vc_increment_def vc_update_def Let_def)

lemma dominated_scan_spec:
  "dominated_scan es theirs d =
     (if \<forall>(n, x) \<in> set es. x \<le> bt_get_or 0 theirs n
      then Some (d \<or> (\<exists>(n, x) \<in> set es. x < bt_get_or 0 theirs n)) else None)"
  by (induction es theirs d rule: dominated_scan.induct) (auto simp: Let_def not_less)

lemma fold_or: "fold (\<lambda>(n, x) d. if P n x then True else d) es d \<longleftrightarrow> d \<or> (\<exists>(n, x) \<in> set es. P n x)"
  by (induction es arbitrary: d) auto

lemma vc_get_entry: "vc_wf v \<Longrightarrow> (n, x) \<in> set (clocks v) \<Longrightarrow> vc_get v n = x"
  by (simp add: vc_wf_def vc_get_def bt_get_or_def bt_get_in_set)

lemma vc_get_absent: "vc_wf v \<Longrightarrow> (\<And>x. (n, x) \<notin> set (clocks v)) \<Longrightarrow> vc_get v n = 0"
  by (auto simp: vc_wf_def vc_get_def bt_get_or_def bt_get_in_set split: option.splits)

lemma happens_before_iff:
  assumes "vc_wf v" "vc_wf u"
  shows "happens_before v u \<longleftrightarrow> (\<forall>n. vc_get v n \<le> vc_get u n) \<and> (\<exists>n. vc_get v n < vc_get u n)"
proof -
  have le: "(\<forall>(n, x) \<in> set (clocks v). x \<le> bt_get_or 0 (clocks u) n) \<longleftrightarrow> (\<forall>n. vc_get v n \<le> vc_get u n)"
    using vc_get_entry [OF assms(1)] vc_get_absent [OF assms(1)]
    by (fastforce simp: vc_get_def [of u])
  have absent: "\<not> bt_contains_key (clocks v) n \<longleftrightarrow> (\<forall>x. (n, x) \<notin> set (clocks v))" for n
    using assms(1) by (simp add: bt_contains_key_def vc_wf_def bt_get_in_set)
  have ex: "(\<exists>(n, x) \<in> set (clocks v). x < bt_get_or 0 (clocks u) n)
      \<or> (\<exists>(n, x) \<in> set (clocks u). \<not> bt_contains_key (clocks v) n \<and> x > 0)
      \<longleftrightarrow> (\<exists>n. vc_get v n < vc_get u n)" (is "?A \<or> ?B \<longleftrightarrow> ?C")
  proof
    assume "?A \<or> ?B"
    then consider (known) n x where "(n, x) \<in> set (clocks v)" "x < vc_get u n"
      | (fresh) n x where "(n, x) \<in> set (clocks u)" "\<forall>y. (n, y) \<notin> set (clocks v)" "0 < x"
      using absent by (auto simp: vc_get_def)
    then show ?C
    proof cases
      case known
      then show ?thesis using vc_get_entry [OF assms(1)] by metis
    next
      case fresh
      then show ?thesis using vc_get_entry [OF assms(2)] vc_get_absent [OF assms(1)] by metis
    qed
  next
    assume ?C
    then obtain n where n: "vc_get v n < vc_get u n" by blast
    have pos: "vc_get u n \<noteq> 0" using n by auto
    then obtain x where x: "(n, x) \<in> set (clocks u)" using vc_get_absent [OF assms(2)] by blast
    have x_pos: "0 < x" using pos vc_get_entry [OF assms(2) x] by (simp add: word_neq_0_conv)
    show "?A \<or> ?B"
    proof (cases "\<exists>y. (n, y) \<in> set (clocks v)")
      case True
      then obtain y where y: "(n, y) \<in> set (clocks v)" by blast
      then have "y < bt_get_or 0 (clocks u) n"
        using n vc_get_entry [OF assms(1) y] by (simp add: vc_get_def [of u])
      then show ?thesis using y by blast
    next
      case False
      then have "\<not> bt_contains_key (clocks v) n" using absent by blast
      then show ?thesis using x x_pos by blast
    qed
  qed
  show ?thesis
    unfolding happens_before_def dominated_scan_spec le
    using ex by (auto simp: fold_or)
qed

text \<open>The wire codec of vector clocks.\<close>

lemma vc_decode_entries_wire:
  "vc_decode_entries (length es) (pre @ concat (map encode_entry es) @ post) (length pre) m =
     ret (fold (\<lambda>(k, v) m. bt_insert k v m) es m)"
proof (induction es arbitrary: pre m)
  case Nil
  then show ?case by simp
next
  case (Cons e es)
  obtain k v where e: "e = (k, v)" by fastforce
  have "vc_decode_entries (length es) ((pre @ encode_entry e) @ concat (map encode_entry es) @ post)
          (length (pre @ encode_entry e)) (bt_insert k v m)
      = ret (fold (\<lambda>(k, v) m. bt_insert k v m) es (bt_insert k v m))"
    by (rule Cons.IH)
  then show ?case using e by (simp add: encode_entry_pair wire)
qed

lemma usize_count_exact:
  assumes "36 \<le> w"
  shows "usize_add w 4 (usize_mul w (unat (c :: u32)) 12) = 4 + unat c * 12"
proof -
  have "4 + unat c * 12 < 2 ^ 36" using unat_less [of c] by simp
  also have "(2 :: nat) ^ 36 \<le> 2 ^ w" using assms by (intro power_increasing) auto
  finally have "4 + unat c * 12 < 2 ^ w" .
  then show ?thesis by (simp add: usize_add_exact usize_mul_exact)
qed

lemma vc_decode_encode:
  assumes "vc_wf v" "length (clocks v) < 2 ^ 32" "mset (iter (clocks v)) = mset (clocks v)" "36 \<le> w"
  shows "vc_decode w (vc_encode iter v @ post) = ret (Some v)"
proof -
  let ?n = "word_of_nat (length (clocks v)) :: u32"
  let ?es = "iter (clocks v)"
  have n: "unat ?n = length (clocks v)" using assms(2) by (simp add: unat_of_nat)
  have len: "length ?es = length (clocks v)" using assms(3) by (metis size_mset)
  have "vc_decode_entries (length (clocks v)) (vc_encode iter v @ post) 4 [] =
      ret (fold (\<lambda>(k, v) m. bt_insert k v m) ?es [])"
    using vc_decode_entries_wire [of ?es "le32 ?n" post "[]"] len by (simp add: vc_encode_def)
  also have "fold (\<lambda>(k, v) m. bt_insert k v m) ?es [] = clocks v"
    using assms(1,3) by (intro bt.rebuild) (simp_all add: vc_wf_def)
  finally have loop: "vc_decode_entries (length (clocks v)) (vc_encode iter v @ post) 4 [] = ret (clocks v)" .
  have "read_u32 (vc_encode iter v @ post) 0 = ret ?n" by (simp add: vc_encode_def wire)
  moreover have "length (vc_encode iter v) = 4 + length (clocks v) * 12"
    by (simp add: vc_encode_def length_concat_entries len)
  ultimately show ?thesis
    using loop usize_count_exact [OF assms(4), of ?n] by (simp add: vc_decode_def n)
qed

lemma vc_decode_entries_safe:
  "offset + n * 12 \<le> length data \<Longrightarrow> no_panic (vc_decode_entries n data offset m)"
  by (induction n arbitrary: offset m) (auto intro!: safe)

lemma vc_decode_safe: "36 \<le> w \<Longrightarrow> no_panic (vc_decode w data)"
  unfolding vc_decode_def by (auto intro!: safe vc_decode_entries_safe simp: usize_count_exact)

lemma vc_decode_entries_wf:
  "vc_decode_entries n data offset m = ret m' \<Longrightarrow> bt_wf m \<Longrightarrow> bt_wf m' \<and> length m' \<le> length m + n"
proof (induction n arbitrary: offset m)
  case (Suc n)
  then obtain nid x where "vc_decode_entries n data (offset + 12) (bt_insert nid x m) = ret m'"
    by (auto simp: bind_eq_Some_conv)
  then show ?case
    using Suc.IH Suc.prems(2) bt_insert_length [of nid x m] by fastforce
qed simp

lemma vc_decode_wf: "vc_decode w data = ret (Some v) \<Longrightarrow> vc_wf v"
  by (auto simp: vc_decode_def vc_wf_def returns Let_def split: if_splits dest: vc_decode_entries_wf)

section \<open>Properties\<close>

lemma counter_key_timestamp:
  "operation_key_timestamp op = (fst (operation_key_timestamp (IncrementCounter c n a)), t) \<Longrightarrow> t = - 1"
  by (cases op) (auto simp: ascii_def)

lemma get_peer_state_added:
  "get_peer_state (enc_add_peer (delta_encoder_new n) p) p = Some peer_sync_state_new"
  by (simp add: get_peer_state_def enc_add_peer_def delta_encoder_new_def bt_or_insert_def bt_get_def
      bt_contains_key_def)

text \<open>
  the causality test is the strict product order. One clock happens before another exactly
  if no node's entry is larger and at least one is smaller (absent entries count as zero).
\<close>

theorem happens_before_order:
  assumes "vc_wf v" "vc_wf u"
  shows "happens_before v u \<longleftrightarrow> (\<forall>n. vc_get v n \<le> vc_get u n) \<and> (\<exists>n. vc_get v n < vc_get u n)"
  using happens_before_iff [OF assms] .

theorem happens_before_order_witness:
  "happens_before (fst (vc_increment vc_new 1)) (fst (vc_increment (fst (vc_increment vc_new 1)) 2))
    \<longleftrightarrow> (\<forall>n. vc_get (fst (vc_increment vc_new 1)) n \<le> vc_get (fst (vc_increment (fst (vc_increment vc_new 1)) 2)) n)
      \<and> (\<exists>n. vc_get (fst (vc_increment vc_new 1)) n < vc_get (fst (vc_increment (fst (vc_increment vc_new 1)) 2)) n)"
  by (rule happens_before_order) (simp_all add: vc_wf_ops)

text \<open>
  On a target with 32-bit \<open>usize\<close> the length check of the vector clock parser wraps, and
  twelve bytes from the air make it read out of bounds.
\<close>

theorem vc_decode_32_panics:
  "vc_decode 32 (le32 0x15555556 @ replicate 8 0) = panic"
proof -
  have "vc_decode_entries (unat (0x15555556 :: u32)) (le32 0x15555556 @ replicate 8 0) 4 [] = panic"
  proof (cases "unat (0x15555556 :: u32)")
    case (Suc n)
    have "read_u64 (le32 0x15555556 @ replicate 8 0) 8 = panic"
      by (simp add: read_u64_def read_le_def)
    then show ?thesis unfolding Suc by (cases "read_u32 (le32 0x15555556 @ replicate 8 0) 4") simp_all
  qed simp
  moreover have "usize_add 32 4 (usize_mul 32 (unat (0x15555556 :: u32)) 12) = 12"
    by (simp add: usize_add_def usize_mul_def)
  ultimately show ?thesis by (simp add: vc_decode_def wire)
qed

text \<open>
  The delta filter sends each version once. After a batch was marked as sent to a peer, an
  operation is offered to that peer again only if its key was not in the batch and was due
  before, or if it is newer than what the batch sent last under its key.
\<close>

theorem delta_filter_after_mark:
  assumes "get_peer_state d p = Some s"
  shows "filter_for_peer (enc_mark_sent d p ops) p ops' =
    filter (\<lambda>op. case batch_stamp ops (fst (operation_key_timestamp op)) of
        None \<Rightarrow> needs_send s (fst (operation_key_timestamp op)) (snd (operation_key_timestamp op))
      | Some t \<Rightarrow> snd (operation_key_timestamp op) > t) ops'"
  using filter_after_mark [OF assms] .

theorem delta_filter_after_mark_witness:
  "filter_for_peer (enc_mark_sent (enc_add_peer (delta_encoder_new 1) 2) 2
      [UpdateHealth 1 health_default 5]) 2 [UpdateHealth 1 health_default 5, UpdateHealth 1 health_default 6]
    = [UpdateHealth 1 health_default 6]"
  using delta_filter_after_mark [of "enc_add_peer (delta_encoder_new 1) 2" 2 peer_sync_state_new
      "[UpdateHealth 1 health_default 5]" "[UpdateHealth 1 health_default 5, UpdateHealth 1 health_default 6]"]
  by (simp add: get_peer_state_added batch_stamp_def)

text \<open>
  A counter increment sent once blocks all later ones. After one increment of a counter by
  a node was marked as sent to a peer, no increment of that counter by that node, of any amount,
  passes the filter for that peer again.
\<close>

theorem delta_counter_blocked:
  assumes "get_peer_state d p = Some s" "IncrementCounter c n a \<in> set ops"
  shows "IncrementCounter c n b \<notin> set (filter_for_peer (enc_mark_sent d p ops) p ops')"
proof -
  let ?k = "fst (operation_key_timestamp (IncrementCounter c n a))"
  have "?k \<in> fst ` set (rev (map operation_key_timestamp ops))"
    using assms(2) by (auto simp: image_image intro: rev_image_eqI)
  then obtain t where t: "batch_stamp ops ?k = Some t"
    unfolding batch_stamp_def by (metis map_of_eq_None_iff option.exhaust)
  then have "(?k, t) \<in> operation_key_timestamp ` set ops"
    by (auto simp: batch_stamp_def dest!: map_of_SomeD)
  then obtain op where "operation_key_timestamp op = (?k, t)" by force
  then have "t = - 1" by (rule counter_key_timestamp)
  then show ?thesis using t by (simp add: filter_after_mark [OF assms(1)])
qed

theorem delta_counter_blocked_witness:
  "IncrementCounter 0 1 9 \<notin> set (filter_for_peer (enc_mark_sent (enc_add_peer (delta_encoder_new 1) 2) 2
      [IncrementCounter 0 1 5]) 2 [IncrementCounter 0 1 9])"
  using delta_counter_blocked [of "enc_add_peer (delta_encoder_new 1) 2" 2 peer_sync_state_new 0 1 5
      "[IncrementCounter 0 1 5]" 9 "[IncrementCounter 0 1 9]"]
  by (simp add: get_peer_state_added)

end
