(* ===== verification/Delta_Document.thy ===== *)
theory Delta_Document
  imports Delta
begin

text \<open>
  The delta document of \<open>src/sync/delta_document.rs\<close>, with the application operations
  \<open>AppOperation\<close> of \<open>src/registry.rs\<close> it carries. Arithmetic on \<open>u8\<close> wraps, as in a release
  build; \<open>w\<close> is the width of \<open>usize\<close> and \<open>iter\<close> the iteration order of the clock's hash map
  (see the theory \<open>Delta\<close>).

  Main results: parsing arbitrary bytes does not panic where \<open>usize\<close> has at least 36 bits, and
  inverts encoding for every document whose operations are in range.
\<close>

section \<open>Application operations\<close>

definition APP_TYPE_MIN :: u8 where "APP_TYPE_MIN = 0xC0"
definition APP_TYPE_MAX :: u8 where "APP_TYPE_MAX = 0xCF"
definition APP_OP_BASE :: u8 where "APP_OP_BASE = 0x10"

record app_operation =
  app_type_id :: u8
  app_op_code :: u8
  app_source_node :: u32
  app_timestamp :: u64
  app_payload :: bytes

definition app_operation_new :: "u8 \<Rightarrow> u8 \<Rightarrow> u32 \<Rightarrow> u64 \<Rightarrow> app_operation" where
  "app_operation_new t c n ts =
     \<lparr>app_type_id = t, app_op_code = c, app_source_node = n, app_timestamp = ts, app_payload = []\<rparr>"

definition with_payload :: "app_operation \<Rightarrow> bytes \<Rightarrow> app_operation" where
  "with_payload op pl = op\<lparr>app_payload := pl\<rparr>"

definition is_app_op_type :: "u8 \<Rightarrow> bool" where
  "is_app_op_type t \<longleftrightarrow> APP_OP_BASE \<le> t \<and> t < APP_OP_BASE + 16"

definition op_type_byte :: "app_operation \<Rightarrow> u8" where
  "op_type_byte op = APP_OP_BASE + (app_type_id op - APP_TYPE_MIN)"

definition app_operation_encode :: "app_operation \<Rightarrow> bytes" where
  "app_operation_encode op =
     [op_type_byte op, app_op_code op] @ le32 (app_source_node op) @ le64 (app_timestamp op)
     @ le16 (word_of_nat (length (app_payload op))) @ app_payload op"

definition app_operation_decode :: "bytes \<Rightarrow> (app_operation \<times> nat) option outcome" where
  "app_operation_decode data =
     (if length data < 16 then ret None
      else do {
        t \<leftarrow> read_u8 data 0;
        if \<not> is_app_op_type t then ret None
        else do {
          let type_id = APP_TYPE_MIN + (t - APP_OP_BASE);
          c \<leftarrow> read_u8 data 1;
          n \<leftarrow> read_u32 data 2;
          ts \<leftarrow> read_u64 data 6;
          pl \<leftarrow> read_u16 data 14;
          let payload_len = unat pl;
          if length data < 16 + payload_len then ret None
          else do {
            payload \<leftarrow> slice data 16 (16 + payload_len);
            ret (Some (\<lparr>app_type_id = type_id, app_op_code = c, app_source_node = n,
                        app_timestamp = ts, app_payload = payload\<rparr>, 16 + payload_len))
          }
        }
      })"

section \<open>Operations\<close>

definition DELTA_DOCUMENT_MARKER :: u8 where "DELTA_DOCUMENT_MARKER = 0xB2"
definition INCREMENT_COUNTER :: u8 where "INCREMENT_COUNTER = 0x01"
definition UPDATE_PERIPHERAL :: u8 where "UPDATE_PERIPHERAL = 0x02"
definition SET_EMERGENCY :: u8 where "SET_EMERGENCY = 0x03"
definition ACK_EMERGENCY :: u8 where "ACK_EMERGENCY = 0x04"
definition CLEAR_EMERGENCY :: u8 where "CLEAR_EMERGENCY = 0x05"

lemmas op_types = INCREMENT_COUNTER_def UPDATE_PERIPHERAL_def SET_EMERGENCY_def ACK_EMERGENCY_def
  CLEAR_EMERGENCY_def

record delta_flags =
  has_vector_clock :: bool
  is_response :: bool

definition delta_flags_to_byte :: "delta_flags \<Rightarrow> u8" where
  "delta_flags_to_byte f =
     (let f0 = (0 :: u8);
          f1 = (if has_vector_clock f then f0 OR 0x01 else f0)
      in if is_response f then f1 OR 0x02 else f1)"

definition delta_flags_from_byte :: "u8 \<Rightarrow> delta_flags" where
  "delta_flags_from_byte b = \<lparr>has_vector_clock = (b AND 0x01 \<noteq> 0), is_response = (b AND 0x02 \<noteq> 0)\<rparr>"

datatype operation =
    OpIncrementCounter u8 u32 u64 u64
  | OpUpdatePeripheral peripheral u64
  | OpSetEmergency u32 u64 "u32 list"
  | OpAckEmergency u32 u64
  | OpClearEmergency u64
  | OpApp app_operation

fun operation_timestamp :: "operation \<Rightarrow> u64" where
  "operation_timestamp (OpIncrementCounter c n a t) = t"
| "operation_timestamp (OpUpdatePeripheral p t) = t"
| "operation_timestamp (OpSetEmergency s t ps) = t"
| "operation_timestamp (OpAckEmergency n t) = t"
| "operation_timestamp (OpClearEmergency t) = t"
| "operation_timestamp (OpApp op) = app_timestamp op"

fun operation_key :: "operation \<Rightarrow> bytes" where
  "operation_key (OpIncrementCounter c n a t) =
     ascii ''counter:'' @ decimal (unat c) @ ascii '':'' @ decimal (unat n)"
| "operation_key (OpUpdatePeripheral p t) = ascii ''peripheral:'' @ decimal (unat (periph_id p))"
| "operation_key (OpSetEmergency s t ps) = ascii ''emergency:'' @ decimal (unat s)"
| "operation_key (OpAckEmergency n t) = ascii ''ack:'' @ decimal (unat n)"
| "operation_key (OpClearEmergency t) = ascii ''clear_emergency''"
| "operation_key (OpApp op) =
     ascii ''app:'' @ decimal (unat (app_type_id op)) @ ascii '':''
     @ decimal (unat (app_source_node op)) @ ascii '':'' @ decimal (unat (app_timestamp op))"

fun operation_encode :: "operation \<Rightarrow> bytes" where
  "operation_encode (OpIncrementCounter c n a t) = [INCREMENT_COUNTER, c] @ le32 n @ le64 a @ le64 t"
| "operation_encode (OpUpdatePeripheral p t) =
     [UPDATE_PERIPHERAL] @ le64 t @ le16 (word_of_nat (length (peripheral_encode p))) @ peripheral_encode p"
| "operation_encode (OpSetEmergency s t ps) =
     [SET_EMERGENCY] @ le32 s @ le64 t @ [word_of_nat (length ps)] @ concat (map (\<lambda>p. le32 p) ps)"
| "operation_encode (OpAckEmergency n t) = [ACK_EMERGENCY] @ le32 n @ le64 t"
| "operation_encode (OpClearEmergency t) = [CLEAR_EMERGENCY] @ le64 t"
| "operation_encode (OpApp op) = app_operation_encode op"

fun decode_peers :: "nat \<Rightarrow> bytes \<Rightarrow> nat \<Rightarrow> u32 list \<Rightarrow> (u32 list \<times> nat) outcome" where
  "decode_peers 0 data offset ps = ret (ps, offset)"
| "decode_peers (Suc n) data offset ps = do {
     p \<leftarrow> read_u32 data offset;
     decode_peers n data (offset + 4) (ps @ [p])
   }"

definition decode_increment :: "bytes \<Rightarrow> (operation \<times> nat) option outcome" where
  "decode_increment data =
     (if length data < 22 then ret None
      else do {
        c \<leftarrow> read_u8 data 1;
        n \<leftarrow> read_u32 data 2;
        a \<leftarrow> read_u64 data 6;
        t \<leftarrow> read_u64 data 14;
        ret (Some (OpIncrementCounter c n a t, 22))
      })"

definition decode_update_peripheral :: "bytes \<Rightarrow> (operation \<times> nat) option outcome" where
  "decode_update_peripheral data =
     (if length data < 11 then ret None
      else do {
        t \<leftarrow> read_u64 data 1;
        n \<leftarrow> read_u16 data 9;
        let plen = unat n;
        if length data < 11 + plen then ret None
        else do {
          d \<leftarrow> slice data 11 (11 + plen);
          p \<leftarrow> peripheral_decode d;
          case p of None \<Rightarrow> ret None
          | Some q \<Rightarrow> ret (Some (OpUpdatePeripheral q t, 11 + plen))
        }
      })"

definition decode_set_emergency :: "bytes \<Rightarrow> (operation \<times> nat) option outcome" where
  "decode_set_emergency data =
     (if length data < 14 then ret None
      else do {
        s \<leftarrow> read_u32 data 1;
        t \<leftarrow> read_u64 data 5;
        n \<leftarrow> read_u8 data 13;
        let peer_count = unat n;
        if length data < 14 + peer_count * 4 then ret None
        else do {
          (ps, offset) \<leftarrow> decode_peers peer_count data 14 [];
          ret (Some (OpSetEmergency s t ps, offset))
        }
      })"

definition operation_decode :: "bytes \<Rightarrow> (operation \<times> nat) option outcome" where
  "operation_decode data =
     (if data = [] then ret None
      else do {
        tag \<leftarrow> read_u8 data 0;
        if tag = INCREMENT_COUNTER then decode_increment data
        else if tag = UPDATE_PERIPHERAL then decode_update_peripheral data
        else if tag = SET_EMERGENCY then decode_set_emergency data
        else if tag = ACK_EMERGENCY then
          if length data < 13 then ret None
          else do {
            n \<leftarrow> read_u32 data 1;
            t \<leftarrow> read_u64 data 5;
            ret (Some (OpAckEmergency n t, 13))
          }
        else if tag = CLEAR_EMERGENCY then
          if length data < 9 then ret None
          else do {
            t \<leftarrow> read_u64 data 1;
            ret (Some (OpClearEmergency t, 9))
          }
        else if is_app_op_type tag then do {
          r \<leftarrow> app_operation_decode data;
          case r of None \<Rightarrow> ret None | Some (op, consumed) \<Rightarrow> ret (Some (OpApp op, consumed))
        }
        else ret None
      })"

section \<open>Delta documents\<close>

record delta_document =
  dd_origin_node :: u32
  dd_timestamp_ms :: u64
  dd_flags :: delta_flags
  dd_vector_clock :: "vector_clock option"
  dd_operations :: "operation list"

definition delta_document_new :: "u32 \<Rightarrow> u64 \<Rightarrow> delta_document" where
  "delta_document_new n ts =
     \<lparr>dd_origin_node = n, dd_timestamp_ms = ts,
      dd_flags = \<lparr>has_vector_clock = False, is_response = False\<rparr>,
      dd_vector_clock = None, dd_operations = []\<rparr>"

definition with_vector_clock :: "delta_document \<Rightarrow> vector_clock \<Rightarrow> delta_document" where
  "with_vector_clock d v =
     d\<lparr>dd_vector_clock := Some v, dd_flags := (dd_flags d)\<lparr>has_vector_clock := True\<rparr>\<rparr>"

definition as_response :: "delta_document \<Rightarrow> delta_document" where
  "as_response d = d\<lparr>dd_flags := (dd_flags d)\<lparr>is_response := True\<rparr>\<rparr>"

definition add_operation :: "delta_document \<Rightarrow> operation \<Rightarrow> delta_document" where
  "add_operation d op = d\<lparr>dd_operations := dd_operations d @ [op]\<rparr>"

definition is_delta_document :: "bytes \<Rightarrow> bool outcome" where
  "is_delta_document data =
     (if data \<noteq> [] then do { m \<leftarrow> read_u8 data 0; ret (m = DELTA_DOCUMENT_MARKER) } else ret False)"

definition delta_document_encode ::
  "((u32 \<times> u64) list \<Rightarrow> (u32 \<times> u64) list) \<Rightarrow> delta_document \<Rightarrow> bytes" where
  "delta_document_encode iter d =
     [DELTA_DOCUMENT_MARKER, delta_flags_to_byte (dd_flags d)] @ le32 (dd_origin_node d)
     @ le64 (dd_timestamp_ms d)
     @ (case dd_vector_clock d of None \<Rightarrow> [] | Some v \<Rightarrow> vc_encode iter v)
     @ le16 (word_of_nat (length (dd_operations d)))
     @ concat (map operation_encode (dd_operations d))"

fun decode_operations :: "nat \<Rightarrow> bytes \<Rightarrow> nat \<Rightarrow> operation list \<Rightarrow> operation list option outcome" where
  "decode_operations 0 data offset ops = ret (Some ops)"
| "decode_operations (Suc n) data offset ops =
     (if offset \<ge> length data then ret None
      else do {
        d \<leftarrow> slice_from data offset;
        r \<leftarrow> operation_decode d;
        case r of None \<Rightarrow> ret None
        | Some (op, sz) \<Rightarrow> decode_operations n data (offset + sz) (ops @ [op])
      })"

definition decode_clock :: "nat \<Rightarrow> bytes \<Rightarrow> delta_flags \<Rightarrow> (vector_clock option \<times> nat) option outcome" where
  "decode_clock w data flags =
     (if has_vector_clock flags then do {
        d \<leftarrow> slice_from data 14;
        cr \<leftarrow> vc_decode w d;
        case cr of None \<Rightarrow> ret None
        | Some clock \<Rightarrow> do {
            c \<leftarrow> read_u32 data 14;
            let count = unat c;
            ret (Some (Some clock, usize_add w 14 (usize_add w 4 (usize_mul w count 12))))
          }
      }
      else ret (Some (None, 14)))"

definition delta_document_decode :: "nat \<Rightarrow> bytes \<Rightarrow> delta_document option outcome" where
  "delta_document_decode w data =
     (if length data < 16 then ret None
      else do {
        m \<leftarrow> read_u8 data 0;
        if m \<noteq> DELTA_DOCUMENT_MARKER then ret None
        else do {
          fb \<leftarrow> read_u8 data 1;
          let flags = delta_flags_from_byte fb;
          n \<leftarrow> read_u32 data 2;
          ts \<leftarrow> read_u64 data 6;
          cl \<leftarrow> decode_clock w data flags;
          case cl of None \<Rightarrow> ret None
          | Some (clock, offset) \<Rightarrow>
              if length data < offset + 2 then ret None
              else do {
                c \<leftarrow> read_u16 data offset;
                let op_count = unat c;
                r \<leftarrow> decode_operations op_count data (offset + 2) [];
                case r of None \<Rightarrow> ret None
                | Some ops \<Rightarrow>
                    ret (Some \<lparr>dd_origin_node = n, dd_timestamp_ms = ts, dd_flags = flags,
                                dd_vector_clock = clock, dd_operations = ops\<rparr>)
              }
        }
      })"

definition delta_document_encoded_size ::
  "((u32 \<times> u64) list \<Rightarrow> (u32 \<times> u64) list) \<Rightarrow> delta_document \<Rightarrow> nat" where
  "delta_document_encoded_size iter d =
     (let base = 16;
          clock_size = (case dd_vector_clock d of None \<Rightarrow> 0 | Some v \<Rightarrow> length (vc_encode iter v));
          ops_size = sum_list (map (\<lambda>op. length (operation_encode op)) (dd_operations d))
      in base + clock_size + ops_size)"

section \<open>Lemmas: operations\<close>

definition app_operation_valid :: "app_operation \<Rightarrow> bool" where
  "app_operation_valid op \<longleftrightarrow>
     APP_TYPE_MIN \<le> app_type_id op \<and> app_type_id op \<le> APP_TYPE_MAX \<and> length (app_payload op) < 2 ^ 16"

fun operation_valid :: "operation \<Rightarrow> bool" where
  "operation_valid (OpUpdatePeripheral p t) = peripheral_valid p"
| "operation_valid (OpSetEmergency s t ps) = (length ps < 2 ^ 8)"
| "operation_valid (OpApp op) = app_operation_valid op"
| "operation_valid _ = True"

lemma u8_sub_exact: "b \<le> a \<Longrightarrow> unat (a - b :: u8) = unat a - unat b"
  by (simp add: unat_sub word_le_nat_alt)

lemma is_app_op_type_byte:
  assumes "app_operation_valid op"
  shows "is_app_op_type (op_type_byte op)"
    and "APP_TYPE_MIN + (op_type_byte op - APP_OP_BASE) = app_type_id op"
proof -
  have "unat (app_type_id op - APP_TYPE_MIN) \<le> 15"
    using assms by (auto simp: app_operation_valid_def u8_sub_exact APP_TYPE_MIN_def APP_TYPE_MAX_def word_le_nat_alt)
  then show "is_app_op_type (op_type_byte op)"
    by (simp add: is_app_op_type_def op_type_byte_def APP_OP_BASE_def word_le_nat_alt word_less_nat_alt
        unat_word_ariths)
  show "APP_TYPE_MIN + (op_type_byte op - APP_OP_BASE) = app_type_id op"
    by (simp add: op_type_byte_def)
qed

lemma app_operation_decode_encode:
  assumes "app_operation_valid op"
  shows "app_operation_decode (app_operation_encode op @ post)
    = ret (Some (op, length (app_operation_encode op)))"
  using assms is_app_op_type_byte [OF assms]
  by (simp add: app_operation_decode_def app_operation_encode_def wire unat_of_nat app_operation_valid_def)

lemma app_operation_decode_safe: "no_panic (app_operation_decode data)"
  unfolding app_operation_decode_def by (auto intro!: safe)

lemma app_op_type_tags:
  "is_app_op_type t \<Longrightarrow> t \<notin> {INCREMENT_COUNTER, UPDATE_PERIPHERAL, SET_EMERGENCY, ACK_EMERGENCY, CLEAR_EMERGENCY}"
  by (auto simp: is_app_op_type_def APP_OP_BASE_def op_types word_le_nat_alt)

lemma length_concat_le32: "length (concat (map (\<lambda>p. le32 p) ps)) = length ps * 4"
  by (induction ps) auto

lemma decode_peers_wire:
  "decode_peers (length ps) (pre @ concat (map (\<lambda>p. le32 p) ps) @ post) (length pre) acc
    = ret (acc @ ps, length pre + length ps * 4)"
proof (induction ps arbitrary: pre acc)
  case (Cons p ps)
  then show ?case using Cons.IH [of "pre @ le32 p" "acc @ [p]"] by (simp add: wire)
qed simp

lemma decode_peers_safe: "offset + n * 4 \<le> length data \<Longrightarrow> no_panic (decode_peers n data offset acc)"
  by (induction n arbitrary: offset acc) (auto intro!: safe)

text \<open>The peer list is cut to its length modulo 256, silently.\<close>

lemma decode_set_emergency_encode:
  "decode_set_emergency (operation_encode (OpSetEmergency s t ps) @ post)
    = ret (Some (OpSetEmergency s t (take (length ps mod 256) ps), 14 + (length ps mod 256) * 4))"
proof -
  let ?n = "length ps mod 256"
  let ?hdr = "[SET_EMERGENCY] @ le32 s @ le64 t @ [word_of_nat (length ps)]"
  let ?data = "operation_encode (OpSetEmergency s t ps) @ post"
  have n: "unat (word_of_nat (length ps) :: u8) = ?n" by (simp add: unat_of_nat)
  have le: "?n \<le> length ps" by simp
  then have len: "length (take ?n ps) = ?n" by (simp only: length_take min.absorb2)
  have data: "?data = ?hdr @ concat (map (\<lambda>p. le32 p) (take ?n ps))
      @ concat (map (\<lambda>p. le32 p) (drop ?n ps)) @ post"
    by (simp flip: append_assoc concat_append map_append)
  have "decode_peers ?n ?data 14 [] = ret (take ?n ps, 14 + ?n * 4)"
    unfolding data
    using decode_peers_wire [of "take ?n ps" ?hdr "concat (map (\<lambda>p. le32 p) (drop ?n ps)) @ post" "[]"]
    unfolding len by simp
  moreover have "14 + ?n * 4 \<le> length ?data"
    using le by (simp add: length_concat_le32 trans_le_add1)
  moreover have "read_u32 ?data 1 = ret s" "read_u64 ?data 5 = ret t"
    "read_u8 ?data 13 = ret (word_of_nat (length ps))"
    by (simp_all add: wire)
  ultimately show ?thesis by (simp add: decode_set_emergency_def n Let_def)
qed

lemma operation_decode_encode:
  assumes "operation_valid op"
  shows "operation_decode (operation_encode op @ post) = ret (Some (op, length (operation_encode op)))"
proof (cases op)
  case (OpUpdatePeripheral p t)
  have "length (peripheral_encode p) < 2 ^ 16"
    using assms OpUpdatePeripheral length_peripheral_encode [of p] by (simp add: peripheral_valid_def)
  then show ?thesis
    using assms OpUpdatePeripheral peripheral_decode_encode [of p "[]"]
    by (simp add: operation_decode_def decode_update_peripheral_def op_types wire unat_of_nat)
next
  case (OpSetEmergency s t ps)
  have tag: "read_u8 (operation_encode op @ post) 0 = ret SET_EMERGENCY"
    and "operation_encode op \<noteq> []" "SET_EMERGENCY \<noteq> INCREMENT_COUNTER" "SET_EMERGENCY \<noteq> UPDATE_PERIPHERAL"
    using OpSetEmergency by (simp_all add: wire) (simp_all add: op_types)
  then have "operation_decode (operation_encode op @ post) = decode_set_emergency (operation_encode op @ post)"
    by (simp add: operation_decode_def)
  then show ?thesis
    using assms OpSetEmergency decode_set_emergency_encode [of s t ps post]
    by (simp add: length_concat_le32)
next
  case (OpApp ap)
  have valid: "app_operation_valid ap" using assms OpApp by simp
  have "read_u8 (operation_encode op @ post) 0 = ret (op_type_byte ap)" "operation_encode op \<noteq> []"
    using OpApp by (simp_all add: app_operation_encode_def wire)
  then show ?thesis
    using OpApp app_op_type_tags [OF is_app_op_type_byte(1) [OF valid]] is_app_op_type_byte(1) [OF valid]
      app_operation_decode_encode [OF valid, of post]
    by (simp add: operation_decode_def)
qed (simp_all add: operation_decode_def decode_increment_def op_types wire)

lemma operation_decode_safe: "no_panic (operation_decode data)"
proof -
  have "data \<noteq> [] \<Longrightarrow> 0 < length data" by simp
  moreover have "no_panic (decode_increment data)" "no_panic (decode_update_peripheral data)"
    "no_panic (decode_set_emergency data)"
    unfolding decode_increment_def decode_update_peripheral_def decode_set_emergency_def
    by (auto intro!: safe peripheral_decode_safe decode_peers_safe)
  ultimately show ?thesis
    unfolding operation_decode_def by (auto intro!: safe app_operation_decode_safe)
qed

section \<open>Lemmas: delta documents\<close>

lemma delta_flags_roundtrip [simp]: "delta_flags_from_byte (delta_flags_to_byte f) = f"
  by (cases f) (auto simp: delta_flags_from_byte_def delta_flags_to_byte_def)

lemma decode_operations_safe: "no_panic (decode_operations n data offset ops)"
  by (induction n arbitrary: offset ops) (auto intro!: safe operation_decode_safe)

lemma usize_clock_exact:
  assumes "36 \<le> w"
  shows "usize_add w 14 (usize_add w 4 (usize_mul w (unat (c :: u32)) 12)) = 18 + unat c * 12"
proof -
  have "18 + unat c * 12 < 2 ^ 36" using unat_less [of c] by simp
  also have "(2 :: nat) ^ 36 \<le> 2 ^ w" using assms by (intro power_increasing) auto
  finally show ?thesis by (simp add: usize_count_exact [OF assms] usize_add_exact)
qed

lemma vc_decode_header: "vc_decode w data = ret (Some v) \<Longrightarrow> 4 \<le> length data"
  by (auto simp: vc_decode_def split: if_splits)

lemma decode_clock_safe: "36 \<le> w \<Longrightarrow> 14 \<le> length data \<Longrightarrow> no_panic (decode_clock w data flags)"
  unfolding decode_clock_def
  by (auto intro!: safe vc_decode_safe dest!: vc_decode_header slice_from_length)

lemma delta_document_decode_safe: "36 \<le> w \<Longrightarrow> no_panic (delta_document_decode w data)"
  unfolding delta_document_decode_def
  by (auto intro!: safe decode_clock_safe decode_operations_safe)

lemma decode_operations_wire:
  assumes "\<forall>op \<in> set ops. operation_valid op"
  shows "decode_operations (length ops) (pre @ concat (map operation_encode ops) @ post) (length pre) acc
    = ret (Some (acc @ ops))"
  using assms
proof (induction ops arbitrary: pre acc)
  case (Cons op ops)
  let ?rest = "concat (map operation_encode ops) @ post"
  have "operation_encode op \<noteq> []" by (cases op) (simp_all add: app_operation_encode_def)
  moreover have "slice_from (pre @ operation_encode op @ ?rest) (length pre) = ret (operation_encode op @ ?rest)"
    by (simp add: wire)
  ultimately show ?case
    using Cons.IH [of "pre @ operation_encode op" "acc @ [op]"] Cons.prems
    by (simp add: operation_decode_encode)
qed simp

definition delta_document_valid :: "delta_document \<Rightarrow> bool" where
  "delta_document_valid d \<longleftrightarrow>
     has_vector_clock (dd_flags d) = (dd_vector_clock d \<noteq> None)
     \<and> pred_option (\<lambda>v. vc_wf v \<and> length (clocks v) < 2 ^ 32) (dd_vector_clock d)
     \<and> length (dd_operations d) < 2 ^ 16 \<and> (\<forall>op \<in> set (dd_operations d). operation_valid op)"

lemma delta_document_valid_ops:
  "delta_document_valid (delta_document_new n ts)"
  "delta_document_valid d \<Longrightarrow> vc_wf v \<Longrightarrow> length (clocks v) < 2 ^ 32 \<Longrightarrow> delta_document_valid (with_vector_clock d v)"
  "delta_document_valid d \<Longrightarrow> delta_document_valid (as_response d)"
  "delta_document_valid d \<Longrightarrow> length (dd_operations d) < 2 ^ 16 - 1 \<Longrightarrow> operation_valid op \<Longrightarrow>
   delta_document_valid (add_operation d op)"
  by (auto simp: delta_document_valid_def delta_document_new_def with_vector_clock_def as_response_def
      add_operation_def)

lemma length_vc_encode:
  "mset (iter (clocks v)) = mset (clocks v) \<Longrightarrow> length (vc_encode iter v) = 4 + length (clocks v) * 12"
  using mset_eq_length [of "iter (clocks v)" "clocks v"] by (simp add: vc_encode_def length_concat_entries)

lemma decode_clock_encode:
  assumes clock: "has_vector_clock flags = (c \<noteq> None)" "pred_option (\<lambda>v. vc_wf v \<and> length (clocks v) < 2 ^ 32) c"
    and iter: "\<And>es. mset (iter es) = mset es" and w: "36 \<le> w" and pre: "length pre = 14"
  shows "decode_clock w (pre @ (case c of None \<Rightarrow> [] | Some v \<Rightarrow> vc_encode iter v) @ post) flags
    = ret (Some (c, 14 + length (case c of None \<Rightarrow> [] | Some v \<Rightarrow> vc_encode iter v)))"
proof (cases c)
  case None
  then show ?thesis using clock by (simp add: decode_clock_def)
next
  case (Some v)
  let ?n = "word_of_nat (length (clocks v)) :: u32"
  have v: "vc_wf v" "length (clocks v) < 2 ^ 32" using clock Some by simp_all
  have "read_u32 (pre @ vc_encode iter v @ post) 14 = ret ?n"
    using pre by (simp add: vc_encode_def wire)
  moreover have "unat ?n = length (clocks v)" using v by (simp add: unat_of_nat)
  ultimately show ?thesis
    using Some clock pre usize_clock_exact [OF w, of ?n] vc_decode_encode [OF v, of iter w post]
    by (simp add: decode_clock_def wire Let_def length_vc_encode iter w)
qed

lemma delta_document_decode_encode:
  assumes d: "delta_document_valid d" and iter: "\<And>es. mset (iter es) = mset es" and w: "36 \<le> w"
  shows "delta_document_decode w (delta_document_encode iter d @ post) = ret (Some d)"
proof -
  let ?n = "word_of_nat (length (dd_operations d)) :: u16"
  let ?hdr = "[DELTA_DOCUMENT_MARKER, delta_flags_to_byte (dd_flags d)] @ le32 (dd_origin_node d)
    @ le64 (dd_timestamp_ms d)"
  let ?clock = "case dd_vector_clock d of None \<Rightarrow> [] | Some v \<Rightarrow> vc_encode iter v"
  let ?ops = "concat (map operation_encode (dd_operations d))"
  define data where "data = ?hdr @ ?clock @ le16 ?n @ ?ops @ post"
  have enc: "delta_document_encode iter d @ post = data"
    by (simp add: delta_document_encode_def data_def)
  have clock: "decode_clock w data (dd_flags d) = ret (Some (dd_vector_clock d, 14 + length ?clock))"
    unfolding data_def using d w
    by (intro decode_clock_encode) (simp_all add: delta_document_valid_def iter)
  have count: "read_u16 data (14 + length ?clock) = ret ?n" "unat ?n = length (dd_operations d)"
    using d by (simp_all add: data_def wire delta_document_valid_def unat_of_nat)
  have ops: "decode_operations (length (dd_operations d)) data (14 + length ?clock + 2) []
      = ret (Some (dd_operations d))"
    using d decode_operations_wire [of "dd_operations d" "?hdr @ ?clock @ le16 ?n" post "[]"]
    by (simp add: data_def delta_document_valid_def add.assoc)
  have hdr: "read_u8 data 0 = ret DELTA_DOCUMENT_MARKER"
    "read_u8 data (Suc 0) = ret (delta_flags_to_byte (dd_flags d))"
    "read_u32 data 2 = ret (dd_origin_node d)" "read_u64 data 6 = ret (dd_timestamp_ms d)"
    by (simp_all add: data_def wire)
  have "\<not> length data < 16" "\<not> length data < 14 + length ?clock + 2"
    by (simp_all add: data_def)
  then show ?thesis
    unfolding enc using clock count ops by (simp add: delta_document_decode_def hdr)
qed

lemma length_delta_document_encode: "length (delta_document_encode iter d) = delta_document_encoded_size iter d"
  by (simp add: delta_document_encode_def delta_document_encoded_size_def length_concat comp_def
      split: option.split)

section \<open>Lemmas: what parsing returns\<close>

lemma app_type_range: "is_app_op_type t \<Longrightarrow> APP_TYPE_MIN \<le> APP_TYPE_MIN + (t - APP_OP_BASE)
  \<and> APP_TYPE_MIN + (t - APP_OP_BASE) \<le> APP_TYPE_MAX"
proof -
  assume "is_app_op_type t"
  then have t: "APP_OP_BASE \<le> t" "unat t < 32"
    by (auto simp: is_app_op_type_def APP_OP_BASE_def word_less_nat_alt)
  then have "unat (t - APP_OP_BASE) \<le> 15" by (simp add: u8_sub_exact APP_OP_BASE_def)
  then show ?thesis
    by (simp add: APP_TYPE_MIN_def APP_TYPE_MAX_def word_le_nat_alt unat_word_ariths)
qed

lemma app_operation_decode_valid:
  "app_operation_decode data = ret (Some (op, n)) \<Longrightarrow> app_operation_valid op"
  using unat_less [where 'a = 16]
  by (auto simp: app_operation_decode_def returns Let_def app_operation_valid_def app_type_range
      dest!: slice_length)

lemma decode_peers_length: "decode_peers n data offset acc = ret (ps, off) \<Longrightarrow> length ps = length acc + n"
proof (induction n arbitrary: offset acc)
  case (Suc n)
  then obtain p where "decode_peers n data (offset + 4) (acc @ [p]) = ret (ps, off)"
    by (auto simp: bind_eq_Some_conv)
  then show ?case using Suc.IH by fastforce
qed auto

lemma decode_set_emergency_valid:
  "decode_set_emergency data = ret (Some (op, n)) \<Longrightarrow> operation_valid op"
  using unat_less [where 'a = 8]
  by (auto simp: decode_set_emergency_def returns Let_def dest!: decode_peers_length split: prod.splits)

lemma operation_decode_valid:
  assumes "operation_decode data = ret (Some (op, n))"
  shows "operation_valid op"
  using assms
  by (auto simp: operation_decode_def decode_increment_def decode_update_peripheral_def returns Let_def
      dest: peripheral_decode_valid app_operation_decode_valid decode_set_emergency_valid
      split: if_splits)

lemma decode_operations_valid:
  "decode_operations n data offset acc = ret (Some ops) \<Longrightarrow> \<forall>op \<in> set acc. operation_valid op \<Longrightarrow>
   (\<forall>op \<in> set ops. operation_valid op) \<and> length ops = length acc + n"
proof (induction n arbitrary: offset acc)
  case (Suc n)
  then obtain d op sz where "operation_decode d = ret (Some (op, sz))"
    and rest: "decode_operations n data (offset + sz) (acc @ [op]) = ret (Some ops)"
    by (auto simp: returns)
  then show ?case using Suc.IH [OF rest] Suc.prems(2) by (auto dest: operation_decode_valid)
qed simp

lemma vc_decode_length: "vc_decode w data = ret (Some v) \<Longrightarrow> length (clocks v) < 2 ^ 32"
  using unat_less [where 'a = 32]
  by (fastforce simp: vc_decode_def returns Let_def dest!: vc_decode_entries_wf intro: le_less_trans)

lemma decode_clock_valid:
  "decode_clock w data flags = ret (Some (c, off)) \<Longrightarrow>
   has_vector_clock flags = (c \<noteq> None) \<and> pred_option (\<lambda>v. vc_wf v \<and> length (clocks v) < 2 ^ 32) c"
  by (auto simp: decode_clock_def returns Let_def vc_decode_wf dest: vc_decode_length [simplified]
      split: if_splits)

lemma delta_document_decode_valid:
  assumes "delta_document_decode w data = ret (Some d)"
  shows "delta_document_valid d"
proof -
  obtain off c ops n where clock: "decode_clock w data (dd_flags d) = ret (Some (dd_vector_clock d, off))"
    and ops: "decode_operations (unat (c :: u16)) data n [] = ret (Some (dd_operations d))"
    using assms by (fastforce simp: delta_document_decode_def returns Let_def)
  show ?thesis
    using decode_clock_valid [OF clock] decode_operations_valid [OF ops] unat_less [of c]
    by (simp add: delta_document_valid_def)
qed

section \<open>Properties\<close>

text \<open>
  C30: a delta document survives the wire. On a 64-bit target, every delta document whose
  operations are in range, encoded with any iteration order of its clock and followed by any
  bytes, is parsed back unchanged.
\<close>

theorem delta_document_roundtrip:
  assumes "delta_document_valid d" "\<And>es. mset (iter es) = mset es"
  shows "delta_document_decode 64 (delta_document_encode iter d @ post) = ret (Some d)"
  using assms by (intro delta_document_decode_encode) simp_all

theorem delta_document_roundtrip_witness:
  "delta_document_decode 64 (delta_document_encode rev
      (add_operation (with_vector_clock (delta_document_new 1 5)
        (fst (vc_increment (fst (vc_increment vc_new 1)) 2))) (OpSetEmergency 1 5 [2, 3])) @ [])
    = ret (Some (add_operation (with_vector_clock (delta_document_new 1 5)
        (fst (vc_increment (fst (vc_increment vc_new 1)) 2))) (OpSetEmergency 1 5 [2, 3])))"
proof (rule delta_document_roundtrip)
  let ?v = "fst (vc_increment (fst (vc_increment vc_new 1)) 2)"
  have "length (clocks ?v) < 2 ^ 32"
    by (simp add: vc_increment_def vc_new_def Let_def)
  then have "delta_document_valid (with_vector_clock (delta_document_new 1 5) ?v)"
    by (intro delta_document_valid_ops vc_wf_ops)
  then show "delta_document_valid (add_operation (with_vector_clock (delta_document_new 1 5) ?v)
      (OpSetEmergency 1 5 [2, 3]))"
    by (rule delta_document_valid_ops(4)) (simp_all add: with_vector_clock_def delta_document_new_def)
qed simp

text \<open>
  C31: parsing a delta document is total and strict. On a 64-bit target no byte string makes the
  parser panic, and every document it returns is in range, so it can be encoded and parsed again
  without loss.
\<close>

theorem delta_document_decode_total:
  "\<exists>r. delta_document_decode 64 data = ret r
    \<and> (case r of None \<Rightarrow> True
       | Some d \<Rightarrow> delta_document_valid d \<and> delta_document_decode 64 (delta_document_encode (\<lambda>es. es) d) = ret (Some d))"
proof -
  obtain r where r: "delta_document_decode 64 data = ret r"
    using delta_document_decode_safe [of 64 data] by (auto simp: no_panic_ex)
  show ?thesis
  proof (cases r)
    case (Some d)
    then have "delta_document_valid d" using delta_document_decode_valid r by simp
    then show ?thesis
      using Some r delta_document_decode_encode [of d "\<lambda>es. es" 64 "[]"] by simp
  qed (use r in simp)
qed

text \<open>
  an emergency operation with 256 or more known peers is silently cut. Its count byte wraps,
  so the parser returns the first (count modulo 256) peers and leaves the remaining bytes to be
  read as the next operations.
\<close>

theorem set_emergency_peers_cut:
  "decode_set_emergency (operation_encode (OpSetEmergency s t ps) @ post)
    = ret (Some (OpSetEmergency s t (take (length ps mod 256) ps), 14 + (length ps mod 256) * 4))"
  using decode_set_emergency_encode .

end
