(* ===== verification/Relay.thy ===== *)
theory Relay
  imports Ordered_Map "HOL-Library.List_Lexorder"
begin

text \<open>
  Multi-hop relay, \<open>src/relay.rs\<close>: message identifiers, the relay envelope with its hop limit
  and wire codec, and the cache of seen messages in its two builds. \<open>std\<close> is the cargo feature
  of that name: with it the cache is a hash map (iterated in the order \<open>iter\<close>) whose cleanup
  also evicts the oldest entries of an oversized cache; without it the cleanup only expires.
  \<open>w\<close> is the width of \<open>usize\<close>; arithmetic wraps as in a release build.

  Main results: a relayed envelope dies after its remaining hops; parsing inverts encoding;
  parsing is free of panics exactly where \<open>28 + payload_len\<close> does not wrap; a message is
  reported new at most once within the time to live.
\<close>

definition RELAY_ENVELOPE_MARKER :: u8 where "RELAY_ENVELOPE_MARKER = 0xB1"
definition DEFAULT_MAX_HOPS :: u8 where "DEFAULT_MAX_HOPS = 7"
definition DEFAULT_SEEN_TTL_MS :: u64 where "DEFAULT_SEEN_TTL_MS = 300000"
definition MAX_CACHE_SIZE :: nat where "MAX_CACHE_SIZE = 1000"

section \<open>Message identifiers\<close>

type_synonym msg_id = bytes

fun lcg_bytes :: "nat \<Rightarrow> u64 \<Rightarrow> bytes" where
  "lcg_bytes 0 seed = []"
| "lcg_bytes (Suc n) seed =
     (let seed' = seed * 6364136223846793005 + 1
      in ucast (drop_bit 32 seed') # lcg_bytes n seed')"

definition message_id_new :: "128 word \<Rightarrow> msg_id" where
  "message_id_new now = to_le 8 now @ lcg_bytes 8 (ucast now)"

definition message_id_from_content :: "u32 \<Rightarrow> u64 \<Rightarrow> u32 \<Rightarrow> msg_id" where
  "message_id_from_content origin ts payload_hash = le32 origin @ le64 ts @ le32 payload_hash"

section \<open>Envelopes\<close>

record relay_flags =
  flag_requires_ack :: bool
  flag_is_broadcast :: bool

definition relay_flags_to_byte :: "relay_flags \<Rightarrow> u8" where
  "relay_flags_to_byte f =
     (let f0 = (0 :: u8);
          f1 = (if flag_requires_ack f then f0 OR 0x01 else f0)
      in if flag_is_broadcast f then f1 OR 0x02 else f1)"

definition relay_flags_from_byte :: "u8 \<Rightarrow> relay_flags" where
  "relay_flags_from_byte b =
     \<lparr>flag_requires_ack = (b AND 0x01 \<noteq> 0), flag_is_broadcast = (b AND 0x02 \<noteq> 0)\<rparr>"

record relay_envelope =
  env_message_id :: msg_id
  hop_count :: u8
  max_hops :: u8
  env_origin_node :: u32
  env_flags :: relay_flags
  env_payload :: bytes

definition relay_envelope_new :: "msg_id \<Rightarrow> u32 \<Rightarrow> bytes \<Rightarrow> relay_envelope" where
  "relay_envelope_new mid origin payload =
     \<lparr>env_message_id = mid, hop_count = 0, max_hops = DEFAULT_MAX_HOPS, env_origin_node = origin,
      env_flags = \<lparr>flag_requires_ack = False, flag_is_broadcast = False\<rparr>, env_payload = payload\<rparr>"

definition relay_envelope_broadcast :: "msg_id \<Rightarrow> u32 \<Rightarrow> bytes \<Rightarrow> relay_envelope" where
  "relay_envelope_broadcast mid origin payload =
     \<lparr>env_message_id = mid, hop_count = 0, max_hops = DEFAULT_MAX_HOPS, env_origin_node = origin,
      env_flags = \<lparr>flag_requires_ack = False, flag_is_broadcast = True\<rparr>, env_payload = payload\<rparr>"

definition with_max_hops :: "relay_envelope \<Rightarrow> u8 \<Rightarrow> relay_envelope" where
  "with_max_hops e n = e\<lparr>max_hops := n\<rparr>"

definition can_relay :: "relay_envelope \<Rightarrow> bool" where
  "can_relay e \<longleftrightarrow> hop_count e < max_hops e"

definition remaining_hops :: "relay_envelope \<Rightarrow> u8" where
  "remaining_hops e = sat_sub (max_hops e) (hop_count e)"

definition relay :: "relay_envelope \<Rightarrow> relay_envelope option" where
  "relay e = (if \<not> can_relay e then None else Some (e\<lparr>hop_count := hop_count e + 1\<rparr>))"

definition relay_envelope_encode :: "relay_envelope \<Rightarrow> bytes" where
  "relay_envelope_encode e =
     [RELAY_ENVELOPE_MARKER, relay_flags_to_byte (env_flags e)] @ env_message_id e
     @ [hop_count e, max_hops e] @ le32 (env_origin_node e)
     @ le32 (word_of_nat (length (env_payload e))) @ env_payload e"

definition relay_envelope_decode :: "nat \<Rightarrow> bytes \<Rightarrow> relay_envelope option outcome" where
  "relay_envelope_decode w data =
     (if length data < 28 then ret None
      else do {
        m \<leftarrow> read_u8 data 0;
        if m \<noteq> RELAY_ENVELOPE_MARKER then ret None
        else do {
          fb \<leftarrow> read_u8 data 1;
          mid \<leftarrow> slice data 2 18;
          hc \<leftarrow> read_u8 data 18;
          mh \<leftarrow> read_u8 data 19;
          origin \<leftarrow> read_u32 data 20;
          pl \<leftarrow> read_u32 data 24;
          let payload_len = unat pl;
          if length data < usize_add w 28 payload_len then ret None
          else do {
            payload \<leftarrow> slice data 28 (usize_add w 28 payload_len);
            ret (Some \<lparr>env_message_id = mid, hop_count = hc, max_hops = mh, env_origin_node = origin,
                        env_flags = relay_flags_from_byte fb, env_payload = payload\<rparr>)
          }
        }
      })"

definition is_relay_envelope :: "bytes \<Rightarrow> bool outcome" where
  "is_relay_envelope data =
     (if data \<noteq> [] then do { m \<leftarrow> read_u8 data 0; ret (m = RELAY_ENVELOPE_MARKER) } else ret False)"

section \<open>The cache of seen messages\<close>

record seen_entry =
  first_seen_ms :: u64
  seen_count :: u32
  seen_origin :: u32

record seen_cache =
  cache :: "(msg_id, seen_entry) btree_map"
  ttl_ms :: u64
  last_cleanup_ms :: u64

type_synonym seen_list = "(msg_id \<times> seen_entry) list"

definition seen_cache_with_ttl :: "u64 \<Rightarrow> seen_cache" where
  "seen_cache_with_ttl ttl = \<lparr>cache = [], ttl_ms = ttl, last_cleanup_ms = 0\<rparr>"

definition seen_cache_new :: seen_cache where
  "seen_cache_new = \<lparr>cache = [], ttl_ms = DEFAULT_SEEN_TTL_MS, last_cleanup_ms = 0\<rparr>"

definition has_seen :: "seen_cache \<Rightarrow> msg_id \<Rightarrow> bool" where
  "has_seen c mid = bt_contains_key (cache c) mid"

definition cleanup_std :: "(seen_list \<Rightarrow> seen_list) \<Rightarrow> seen_cache \<Rightarrow> u64 \<Rightarrow> seen_cache" where
  "cleanup_std iter c now =
     (let live = filter (\<lambda>e. sat_sub now (first_seen_ms (snd e)) < ttl_ms c) (cache c);
          kept = (if length live > MAX_CACHE_SIZE then
                    let entries = sort_key (\<lambda>e. first_seen_ms (snd e)) (iter live);
                        to_remove = map fst (take (length live - MAX_CACHE_SIZE div 2) entries)
                    in fold bt_remove to_remove live
                  else live)
      in c\<lparr>last_cleanup_ms := now, cache := kept\<rparr>)"

definition cleanup_no_std :: "seen_cache \<Rightarrow> u64 \<Rightarrow> seen_cache" where
  "cleanup_no_std c now =
     (let expired = map fst (filter (\<lambda>e. sat_sub now (first_seen_ms (snd e)) \<ge> ttl_ms c) (cache c))
      in c\<lparr>last_cleanup_ms := now, cache := fold bt_remove expired (cache c)\<rparr>)"

definition cleanup :: "bool \<Rightarrow> (seen_list \<Rightarrow> seen_list) \<Rightarrow> seen_cache \<Rightarrow> u64 \<Rightarrow> seen_cache" where
  "cleanup std iter c now = (if std then cleanup_std iter c now else cleanup_no_std c now)"

definition mark_seen ::
  "bool \<Rightarrow> (seen_list \<Rightarrow> seen_list) \<Rightarrow> seen_cache \<Rightarrow> msg_id \<Rightarrow> u32 \<Rightarrow> u64 \<Rightarrow> seen_cache \<times> bool" where
  "mark_seen std iter c mid origin now =
     (let c1 = (if sat_sub now (last_cleanup_ms c) > ttl_ms c div 2 then cleanup std iter c now else c)
      in case bt_get (cache c1) mid of
           Some e \<Rightarrow> (c1\<lparr>cache := bt_insert mid (e\<lparr>seen_count := seen_count e + 1\<rparr>) (cache c1)\<rparr>, False)
         | None \<Rightarrow>
             (c1\<lparr>cache := bt_insert mid \<lparr>first_seen_ms = now, seen_count = 1, seen_origin = origin\<rparr> (cache c1)\<rparr>,
              True))"

definition check_and_mark ::
  "bool \<Rightarrow> (seen_list \<Rightarrow> seen_list) \<Rightarrow> seen_cache \<Rightarrow> msg_id \<Rightarrow> u32 \<Rightarrow> u64 \<Rightarrow> seen_cache \<times> bool" where
  "check_and_mark std iter c mid origin now = mark_seen std iter c mid origin now"

definition seen_len :: "seen_cache \<Rightarrow> nat" where
  "seen_len c = length (cache c)"

definition seen_clear :: "seen_cache \<Rightarrow> seen_cache" where
  "seen_clear c = c\<lparr>cache := []\<rparr>"

definition get_stats :: "seen_cache \<Rightarrow> msg_id \<Rightarrow> (u64 \<times> u32 \<times> u32) option" where
  "get_stats c mid =
     map_option (\<lambda>e. (first_seen_ms e, seen_count e, seen_origin e)) (bt_get (cache c) mid)"

section \<open>Lemmas: identifiers and hops\<close>

lemma to_le_inject: "LENGTH('a) \<le> 8 * n \<Longrightarrow> to_le n a = to_le n b \<longleftrightarrow> a = (b :: 'a::len word)"
  by (metis from_le_to_le)

lemma message_id_from_content_inject:
  "message_id_from_content o1 t1 h1 = message_id_from_content o2 t2 h2 \<longleftrightarrow> o1 = o2 \<and> t1 = t2 \<and> h1 = h2"
  by (auto simp: message_id_from_content_def to_le_inject)

lemma length_lcg_bytes [simp]: "length (lcg_bytes n seed) = n"
  by (induction n arbitrary: seed) (simp_all add: Let_def)

lemma length_message_id:
  "length (message_id_new now) = 16" "length (message_id_from_content origin t h) = 16"
  by (simp_all add: message_id_new_def message_id_from_content_def)

fun relay_n :: "nat \<Rightarrow> relay_envelope \<Rightarrow> relay_envelope option" where
  "relay_n 0 e = Some e"
| "relay_n (Suc n) e = (case relay e of None \<Rightarrow> None | Some e' \<Rightarrow> relay_n n e')"

lemma unat_remaining_hops: "unat (remaining_hops e) = unat (max_hops e) - unat (hop_count e)"
  by (simp add: remaining_hops_def unat_sat_sub)

lemma relay_step:
  assumes "relay e = Some e'"
  shows "unat (remaining_hops e) = Suc (unat (remaining_hops e'))"
    and "e' = e\<lparr>hop_count := hop_count e + 1\<rparr>" "unat (hop_count e') = Suc (unat (hop_count e))"
proof -
  have lt: "hop_count e < max_hops e" and e': "e' = e\<lparr>hop_count := hop_count e + 1\<rparr>"
    using assms by (auto simp: relay_def can_relay_def split: if_splits)
  have "unat (hop_count e) < unat (max_hops e)" "unat (max_hops e) < 256"
    using lt unat_less [of "max_hops e"] by (simp_all add: word_less_nat_alt)
  then show "unat (hop_count e') = Suc (unat (hop_count e))"
    and "unat (remaining_hops e) = Suc (unat (remaining_hops e'))"
    using e' by (simp_all add: unat_remaining_hops unat_word_ariths)
qed (use assms in \<open>auto simp: relay_def split: if_splits\<close>)

lemma relay_None: "relay e = None \<longleftrightarrow> unat (remaining_hops e) = 0"
  by (auto simp: relay_def can_relay_def unat_remaining_hops word_less_nat_alt)

section \<open>Lemmas: the envelope codec\<close>

lemma relay_flags_roundtrip [simp]: "relay_flags_from_byte (relay_flags_to_byte f) = f"
  by (cases f) (auto simp: relay_flags_from_byte_def relay_flags_to_byte_def)

definition relay_envelope_valid :: "nat \<Rightarrow> relay_envelope \<Rightarrow> bool" where
  "relay_envelope_valid w e \<longleftrightarrow>
     length (env_message_id e) = 16 \<and> length (env_payload e) < 2 ^ 32 \<and> 28 + length (env_payload e) < 2 ^ w"

lemma relay_envelope_decode_encode:
  assumes "relay_envelope_valid w e"
  shows "relay_envelope_decode w (relay_envelope_encode e @ post) = ret (Some e)"
proof -
  have e: "length (env_message_id e) = 16" "length (env_payload e) < 2 ^ 32"
    and w: "usize_add w 28 (length (env_payload e)) = 28 + length (env_payload e)"
    using assms by (simp_all add: relay_envelope_valid_def usize_add_exact)
  then show ?thesis
    by (simp add: relay_envelope_decode_def relay_envelope_encode_def wire unat_of_nat Let_def)
qed

text \<open>The length check is safe unless the addition wraps below the start of the payload.\<close>

definition payload_len_wraps :: "nat \<Rightarrow> bytes \<Rightarrow> bool" where
  "payload_len_wraps w data \<longleftrightarrow>
     28 \<le> length data \<and> read_u8 data 0 = ret RELAY_ENVELOPE_MARKER
     \<and> (\<exists>n. read_u32 data 24 = ret n \<and> usize_add w 28 (unat n) < 28)"

lemma relay_envelope_decode_panic:
  "no_panic (relay_envelope_decode w data) \<longleftrightarrow> \<not> payload_len_wraps w data"
proof (cases "length data < 28")
  case True
  then show ?thesis by (simp add: relay_envelope_decode_def payload_len_wraps_def)
next
  case False
  then have "no_panic (read_u8 data 0)" "no_panic (read_u8 data (Suc 0))" "no_panic (slice data 2 18)"
    "no_panic (read_u8 data 18)" "no_panic (read_u8 data 19)" "no_panic (read_u32 data 20)"
    "no_panic (read_u32 data 24)"
    by (auto intro!: safe)
  then obtain m fb mid hc mh origin pl where r: "read_u8 data 0 = ret m" "read_u8 data (Suc 0) = ret fb"
    "slice data 2 18 = ret mid" "read_u8 data 18 = ret hc" "read_u8 data 19 = ret mh"
    "read_u32 data 20 = ret origin" "read_u32 data 24 = ret pl"
    unfolding no_panic_ex by blast
  show ?thesis
    using False r by (simp add: relay_envelope_decode_def payload_len_wraps_def Let_def slice_def no_panic_def)
qed

lemma relay_envelope_decode_safe: "33 \<le> w \<Longrightarrow> no_panic (relay_envelope_decode w data)"
proof -
  assume w: "33 \<le> w"
  have "usize_add w 28 (unat n) = 28 + unat n" for n :: u32
  proof (rule usize_add_exact)
    have "28 + unat n < 2 ^ 33" using unat_less [of n] by simp
    also have "(2 :: nat) ^ 33 \<le> 2 ^ w" using w by (intro power_increasing) auto
    finally show "28 + unat n < 2 ^ w" .
  qed
  then show ?thesis by (simp add: relay_envelope_decode_panic payload_len_wraps_def)
qed

section \<open>Lemmas: the cache\<close>

definition seen_wf :: "seen_cache \<Rightarrow> bool" where
  "seen_wf c \<longleftrightarrow> bt_wf (cache c)"

definition entry_live :: "seen_cache \<Rightarrow> u64 \<Rightarrow> seen_entry \<Rightarrow> bool" where
  "entry_live c now e \<longleftrightarrow> sat_sub now (first_seen_ms e) < ttl_ms c"

lemma cleanup_no_std_get:
  assumes "seen_wf c"
  shows "bt_get (cache (cleanup_no_std c now)) mid
    = (case bt_get (cache c) mid of None \<Rightarrow> None | Some e \<Rightarrow> if entry_live c now e then Some e else None)"
proof -
  have wf: "bt_wf (cache c)" using assms by (simp add: seen_wf_def)
  have "mid \<in> set (map fst (filter (\<lambda>e. sat_sub now (first_seen_ms (snd e)) \<ge> ttl_ms c) (cache c)))
      \<longleftrightarrow> (\<exists>e. bt_get (cache c) mid = Some e \<and> \<not> entry_live c now e)"
    using bt_get_in_set [OF wf] by (force simp: entry_live_def not_less)
  then show ?thesis
    by (auto simp: cleanup_no_std_def Let_def bt_get_fold_remove split: option.split)
qed

definition live_entries :: "seen_cache \<Rightarrow> u64 \<Rightarrow> (msg_id, seen_entry) btree_map" where
  "live_entries c now = filter (\<lambda>e. entry_live c now (snd e)) (cache c)"

lemma live_entries_get:
  assumes "seen_wf c"
  shows "bt_get (live_entries c now) mid
    = (case bt_get (cache c) mid of None \<Rightarrow> None | Some e \<Rightarrow> if entry_live c now e then Some e else None)"
  using assms by (simp add: live_entries_def seen_wf_def bt_get_filter cong: option.case_cong)

lemma bt_wf_live: "seen_wf c \<Longrightarrow> bt_wf (live_entries c now)"
  by (simp add: live_entries_def seen_wf_def bt_wf_filter)

lemma cleanup_no_std_live:
  assumes "seen_wf c"
  shows "cache (cleanup_no_std c now) = live_entries c now"
proof (rule bt.map_ext)
  show "bt_get (cache (cleanup_no_std c now)) k = bt_get (live_entries c now) k" for k
    using assms by (simp add: cleanup_no_std_get live_entries_get)
qed (use assms in \<open>simp_all add: bt_wf_live cleanup_no_std_def bt_wf_fold_remove seen_wf_def\<close>)

lemma cleanup_std_live:
  "length (live_entries c now) \<le> MAX_CACHE_SIZE \<Longrightarrow> cache (cleanup_std iter c now) = live_entries c now"
  by (simp add: cleanup_std_def live_entries_def entry_live_def Let_def)

text \<open>An oversized cache is cut to the newest half.\<close>

lemma cleanup_std_evict:
  assumes c: "seen_wf c" and big: "length (live_entries c now) > MAX_CACHE_SIZE"
    and iter: "\<And>es. mset (iter es) = mset es"
  obtains n where "mset (cache (cleanup_std iter c now))
      = mset (drop n (sort_key (\<lambda>e. first_seen_ms (snd e)) (iter (live_entries c now))))"
    and "n = length (live_entries c now) - MAX_CACHE_SIZE div 2"
proof
  let ?es = "sort_key (\<lambda>e. first_seen_ms (snd e)) (iter (live_entries c now))"
  let ?n = "length (live_entries c now) - MAX_CACHE_SIZE div 2"
  have "cache (cleanup_std iter c now) = fold bt_remove (map fst (take ?n ?es)) (live_entries c now)"
    using big by (simp add: cleanup_std_def live_entries_def entry_live_def Let_def)
  then show "mset (cache (cleanup_std iter c now)) = mset (drop ?n ?es)"
    using c by (simp add: mset_remove_prefix bt_wf_live iter)
qed simp

lemma cleanup_std_size:
  assumes "seen_wf c" "\<And>es. mset (iter es) = mset es"
  shows "length (cache (cleanup_std iter c now)) \<le> MAX_CACHE_SIZE"
proof (cases "length (live_entries c now) \<le> MAX_CACHE_SIZE")
  case True
  then show ?thesis by (simp add: cleanup_std_live)
next
  case False
  obtain n where n: "mset (cache (cleanup_std iter c now))
      = mset (drop n (sort_key (\<lambda>e. first_seen_ms (snd e)) (iter (live_entries c now))))"
    "n = length (live_entries c now) - MAX_CACHE_SIZE div 2"
    using cleanup_std_evict [OF assms(1) _ assms(2), of now] False by (auto simp: not_le)
  have "length (iter (live_entries c now)) = length (live_entries c now)"
    using assms(2) by (metis size_mset)
  then show ?thesis using mset_eq_length [OF n(1)] n(2) by simp
qed

lemma seen_wf_cleanup: "seen_wf c \<Longrightarrow> seen_wf (cleanup std iter c now)"
  using bt_wf_live [of c now] cleanup_no_std_live [of c now]
  by (auto simp: cleanup_def seen_wf_def cleanup_std_def Let_def bt_wf_filter bt_wf_fold_remove)

lemma cleanup_live:
  assumes "seen_wf c" "std \<Longrightarrow> length (cache c) \<le> MAX_CACHE_SIZE"
  shows "cache (cleanup std iter c now) = live_entries c now"
proof (cases std)
  case True
  have "length (live_entries c now) \<le> length (cache c)" by (simp add: live_entries_def)
  also have "\<dots> \<le> MAX_CACHE_SIZE" using assms(2) True .
  finally show ?thesis using True by (simp add: cleanup_def cleanup_std_live)
qed (simp add: cleanup_def cleanup_no_std_live assms(1))

section \<open>Lemmas: runs of the cache\<close>

text \<open>The calls that change a cache and do not empty it, with the time they are made at.\<close>

datatype seen_call = Mark msg_id u32 (called_at: u64) | Clean_up (called_at: u64)

fun seen_apply :: "bool \<Rightarrow> (seen_list \<Rightarrow> seen_list) \<Rightarrow> seen_cache \<Rightarrow> seen_call \<Rightarrow> seen_cache" where
  "seen_apply std iter c (Mark mid origin t) = fst (mark_seen std iter c mid origin t)"
| "seen_apply std iter c (Clean_up t) = cleanup std iter c t"

definition cleaned :: "bool \<Rightarrow> (seen_list \<Rightarrow> seen_list) \<Rightarrow> seen_cache \<Rightarrow> u64 \<Rightarrow> seen_cache" where
  "cleaned std iter c now =
     (if sat_sub now (last_cleanup_ms c) > ttl_ms c div 2 then cleanup std iter c now else c)"

lemma mark_seen_result:
  "snd (mark_seen std iter c mid origin now) \<longleftrightarrow> bt_get (cache (cleaned std iter c now)) mid = None"
  "ttl_ms (fst (mark_seen std iter c mid origin now)) = ttl_ms c"
  "length (cache (fst (mark_seen std iter c mid origin now))) \<le> Suc (length (cache (cleaned std iter c now)))"
  by (auto simp: mark_seen_def cleaned_def Let_def cleanup_def cleanup_std_def cleanup_no_std_def
      bt_insert_length split: option.splits)

lemma seen_wf_cleaned: "seen_wf c \<Longrightarrow> seen_wf (cleaned std iter c now)"
  by (simp add: cleaned_def seen_wf_cleanup)

lemma seen_wf_mark: "seen_wf c \<Longrightarrow> seen_wf (fst (mark_seen std iter c mid origin now))"
  using seen_wf_cleaned [of c std iter now]
  by (auto simp: mark_seen_def cleaned_def Let_def seen_wf_def split: option.splits)

lemma cleaned_keeps:
  assumes "seen_wf c" "std \<Longrightarrow> length (cache c) \<le> MAX_CACHE_SIZE"
    and "bt_get (cache c) mid = Some e" "entry_live c now e"
  shows "bt_get (cache (cleaned std iter c now)) mid = Some e"
  using assms by (simp add: cleaned_def cleanup_live live_entries_get)

lemma length_cleaned:
  assumes "seen_wf c" "std \<Longrightarrow> length (cache c) \<le> MAX_CACHE_SIZE"
  shows "length (cache (cleaned std iter c now)) \<le> length (cache c)"
  using assms by (simp add: cleaned_def cleanup_live live_entries_def)

lemma length_mark_seen:
  assumes "seen_wf c" "std \<longrightarrow> length (cache c) + Suc n \<le> MAX_CACHE_SIZE"
  shows "std \<longrightarrow> length (cache (fst (mark_seen std iter c mid origin now))) + n \<le> MAX_CACHE_SIZE"
proof
  assume std
  then have "length (cache (cleaned std iter c now)) \<le> length (cache c)"
    using assms by (intro length_cleaned) simp_all
  then show "length (cache (fst (mark_seen std iter c mid origin now))) + n \<le> MAX_CACHE_SIZE"
    using mark_seen_result(3) [of std iter c mid origin now] assms(2) \<open>std\<close> by simp
qed

lemma mark_seen_get:
  "bt_get (cache (fst (mark_seen std iter c mid origin now))) k =
    (if k = mid then Some (case bt_get (cache (cleaned std iter c now)) mid of
         Some e \<Rightarrow> e\<lparr>seen_count := seen_count e + 1\<rparr>
       | None \<Rightarrow> \<lparr>first_seen_ms = now, seen_count = 1, seen_origin = origin\<rparr>)
     else bt_get (cache (cleaned std iter c now)) k)"
  by (auto simp: mark_seen_def cleaned_def Let_def split: option.splits)

lemma mark_keeps:
  assumes "seen_wf c" "std \<Longrightarrow> length (cache c) \<le> MAX_CACHE_SIZE"
    and "bt_get (cache c) mid = Some e" "entry_live c now e"
  shows "\<exists>e'. bt_get (cache (fst (mark_seen std iter c k origin now))) mid = Some e'
    \<and> first_seen_ms e' = first_seen_ms e"
  using cleaned_keeps [of c std mid e now iter] assms by (auto simp: mark_seen_get)

text \<open>
  The cache remembers that \<open>mid\<close> was first seen at \<open>t0\<close> and has room for \<open>n\<close> more messages
  before an eviction can happen.
\<close>

definition remembers :: "bool \<Rightarrow> msg_id \<Rightarrow> u64 \<Rightarrow> u64 \<Rightarrow> nat \<Rightarrow> seen_cache \<Rightarrow> bool" where
  "remembers std mid t0 ttl n c \<longleftrightarrow>
     seen_wf c \<and> ttl_ms c = ttl \<and> (std \<longrightarrow> length (cache c) + n \<le> MAX_CACHE_SIZE)
     \<and> (\<exists>e. bt_get (cache c) mid = Some e \<and> first_seen_ms e = t0)"

lemma remembers_mark:
  assumes "remembers std mid t0 ttl (Suc n) c" "sat_sub t t0 < ttl"
  shows "remembers std mid t0 ttl n (fst (mark_seen std iter c k origin t))"
proof -
  obtain e where e: "bt_get (cache c) mid = Some e" "first_seen_ms e = t0"
    and c: "seen_wf c" "ttl_ms c = ttl" "std \<longrightarrow> length (cache c) + Suc n \<le> MAX_CACHE_SIZE"
    using assms(1) by (auto simp: remembers_def)
  have room: "std \<Longrightarrow> length (cache c) \<le> MAX_CACHE_SIZE" using c(3) by simp
  have "\<exists>e'. bt_get (cache (fst (mark_seen std iter c k origin t))) mid = Some e' \<and> first_seen_ms e' = t0"
    using mark_keeps [OF c(1) room e(1)] assms(2) c(2) e(2) by (simp add: entry_live_def)
  then show ?thesis
    using c seen_wf_mark [OF c(1)] length_mark_seen [OF c(1,3)] by (auto simp: remembers_def mark_seen_result(2))
qed

lemma remembers_cleanup:
  assumes "remembers std mid t0 ttl n c" "sat_sub t t0 < ttl"
  shows "remembers std mid t0 ttl n (cleanup std iter c t)"
proof -
  obtain e where e: "bt_get (cache c) mid = Some e" "first_seen_ms e = t0"
    and c: "seen_wf c" "ttl_ms c = ttl" "std \<longrightarrow> length (cache c) + n \<le> MAX_CACHE_SIZE"
    using assms(1) by (auto simp: remembers_def)
  have live: "cache (cleanup std iter c t) = live_entries c t" using c(1,3) by (intro cleanup_live) simp_all
  have "length (live_entries c t) \<le> length (cache c)" by (simp add: live_entries_def)
  then have "std \<longrightarrow> length (cache (cleanup std iter c t)) + n \<le> MAX_CACHE_SIZE" using c(3) live by auto
  moreover have "ttl_ms (cleanup std iter c t) = ttl_ms c" by (simp add: cleanup_def cleanup_std_def cleanup_no_std_def Let_def)
  ultimately show ?thesis using c e assms(2) seen_wf_cleanup [OF c(1)]
    by (simp add: remembers_def live live_entries_get entry_live_def)
qed

lemma remembers_calls:
  assumes "remembers std mid t0 ttl (length calls + n) c" "\<forall>x \<in> set calls. sat_sub (called_at x) t0 < ttl"
  shows "remembers std mid t0 ttl n (foldl (seen_apply std iter) c calls)"
  using assms
proof (induction calls arbitrary: c)
  case (Cons x calls)
  have "remembers std mid t0 ttl (length calls + n) (seen_apply std iter c x)"
  proof (cases x)
    case (Mark k origin t)
    with Cons.prems show ?thesis by (simp add: remembers_mark)
  next
    case (Clean_up t)
    moreover have "remembers std mid t0 ttl (length calls + n) c" using Cons.prems(1) by (auto simp: remembers_def)
    ultimately show ?thesis using Cons.prems(2) by (simp add: remembers_cleanup)
  qed
  with Cons show ?case by simp
qed simp

lemma remembers_not_new:
  assumes "remembers std mid t0 ttl n c" "sat_sub t t0 < ttl"
  shows "\<not> snd (mark_seen std iter c mid origin t)"
proof -
  obtain e where e: "bt_get (cache c) mid = Some e" "entry_live c t e"
    and c: "seen_wf c" "std \<Longrightarrow> length (cache c) \<le> MAX_CACHE_SIZE"
    using assms by (auto simp: remembers_def entry_live_def)
  show ?thesis using cleaned_keeps [OF c e] by (simp add: mark_seen_result(1))
qed

lemma mark_seen_remembers:
  assumes "seen_wf c" "snd (mark_seen std iter c mid origin t0)"
    and "std \<longrightarrow> length (cache c) + Suc n \<le> MAX_CACHE_SIZE"
  shows "remembers std mid t0 (ttl_ms c) n (fst (mark_seen std iter c mid origin t0))"
proof -
  have "bt_get (cache (cleaned std iter c t0)) mid = None" using assms(2) by (simp add: mark_seen_result(1))
  then show ?thesis
    using length_mark_seen [OF assms(1,3)] seen_wf_mark [OF assms(1)]
    by (auto simp: remembers_def mark_seen_result(2) mark_seen_get)
qed

section \<open>Properties\<close>

lemma relay_n_eq:
  "relay_n n e = (if n \<le> unat (remaining_hops e) then Some (e\<lparr>hop_count := hop_count e + word_of_nat n\<rparr>) else None)"
proof (induction n arbitrary: e)
  case (Suc n)
  show ?case
  proof (cases "relay e")
    case None
    then show ?thesis using relay_None [of e] by simp
  next
    case (Some e')
    then show ?thesis using Suc [of e'] relay_step(1,2) [OF Some] by (simp add: add.assoc)
  qed
qed simp

text \<open>
  Relaying ends. An envelope can be relayed as many times as it has hops remaining and not
  once more; each relay raises the hop count by one, without wrap-around, and keeps everything else.
\<close>

theorem relay_hop_limit:
  "relay_n n e =
    (if n \<le> unat (max_hops e) - unat (hop_count e)
     then Some (e\<lparr>hop_count := hop_count e + word_of_nat n\<rparr>) else None)"
  using relay_n_eq by (simp add: unat_remaining_hops)

text \<open>
  a relay envelope survives the wire on 32-bit and 64-bit targets, for payloads that leave
  room for the header in 32 bits.
\<close>

theorem relay_envelope_roundtrip:
  assumes "length (env_message_id e) = 16" "28 + length (env_payload e) < 2 ^ 32"
  shows "relay_envelope_decode 32 (relay_envelope_encode e @ post) = ret (Some e)
    \<and> relay_envelope_decode 64 (relay_envelope_encode e @ post) = ret (Some e)"
  using assms by (intro conjI relay_envelope_decode_encode) (simp_all add: relay_envelope_valid_def)

theorem relay_envelope_roundtrip_witness:
  "relay_envelope_decode 32 (relay_envelope_encode (relay_envelope_broadcast (message_id_from_content 1 2 3) 1 [9, 8]) @ [])
      = ret (Some (relay_envelope_broadcast (message_id_from_content 1 2 3) 1 [9, 8]))
   \<and> relay_envelope_decode 64 (relay_envelope_encode (relay_envelope_broadcast (message_id_from_content 1 2 3) 1 [9, 8]) @ [])
      = ret (Some (relay_envelope_broadcast (message_id_from_content 1 2 3) 1 [9, 8]))"
  by (rule relay_envelope_roundtrip)
    (simp_all add: relay_envelope_broadcast_def message_id_from_content_def)

text \<open>
  Where parsing a relay envelope can panic. On a 64-bit target never; on a 32-bit target
  exactly for envelopes whose length field is at least 0xFFFFFFE4, where \<open>28 + payload_len\<close> wraps.
\<close>

theorem relay_envelope_decode_panics:
  "no_panic (relay_envelope_decode 64 data)
   \<and> (relay_envelope_decode 32 data = panic \<longleftrightarrow>
      28 \<le> length data \<and> data ! 0 = RELAY_ENVELOPE_MARKER
      \<and> (0xFFFFFFE4 :: u32) \<le> from_le (take 4 (drop 24 data)))"
proof -
  have wraps: "usize_add 32 28 (unat n) < 28 \<longleftrightarrow> 0xFFFFFFE4 \<le> n" for n :: u32
  proof -
    have "unat n < 2 ^ 32" using unat_less [of n] by simp
    then show ?thesis
      by (cases "28 + unat n < 2 ^ 32") (auto simp: usize_add_def word_le_nat_alt mod_if)
  qed
  have "relay_envelope_decode 32 data = panic \<longleftrightarrow> payload_len_wraps 32 data"
    using relay_envelope_decode_panic [of 32 data] unfolding no_panic_def by blast
  also have "\<dots> \<longleftrightarrow> 28 \<le> length data \<and> data ! 0 = RELAY_ENVELOPE_MARKER
      \<and> (0xFFFFFFE4 :: u32) \<le> from_le (take 4 (drop 24 data))"
    by (auto simp: payload_len_wraps_def wraps read_u8_def read_u32_def read_le_def)
  finally show ?thesis using relay_envelope_decode_safe [of 64 data] by simp
qed

text \<open>
  C28: A message is processed at most once within its time to live. If a message was reported new,
  then after any sequence of further messages and cleanups, all within the time to live, it is
  reported as seen, as long as the cache is not emptied by hand and, in the hash-map build, the
  entries at the start and the calls since then stay within the maximal size of the cache, 1000.
  Beyond that size a cleanup evicts the oldest half, live entries included (lemma
  \<open>cleanup_std_evict\<close>). The build without \<open>std\<close> has no such bound.
\<close>

theorem seen_at_most_once:
  assumes "seen_wf c" "mark_seen std iter c mid origin t0 = (c1, True)"
    and "std \<longrightarrow> length (cache c) + Suc (length calls) \<le> MAX_CACHE_SIZE"
    and "\<forall>x \<in> set calls. sat_sub (called_at x) t0 < ttl_ms c" "sat_sub t1 t0 < ttl_ms c"
  shows "\<not> snd (mark_seen std iter (foldl (seen_apply std iter) c1 calls) mid origin' t1)"
proof -
  have "remembers std mid t0 (ttl_ms c) (length calls + 0) c1"
    using mark_seen_remembers [OF assms(1), of std iter mid origin t0 "length calls"] assms(2,3) by simp
  then have "remembers std mid t0 (ttl_ms c) 0 (foldl (seen_apply std iter) c1 calls)"
    using assms(4) by (rule remembers_calls)
  then show ?thesis using assms(5) by (rule remembers_not_new)
qed

theorem seen_at_most_once_witness:
  "\<not> snd (mark_seen True rev (foldl (seen_apply True rev)
      (fst (mark_seen True rev seen_cache_new (message_id_from_content 1 2 3) 1 1000))
      [Mark (message_id_from_content 2 2 3) 2 2000, Clean_up 170000]) (message_id_from_content 1 2 3) 5 200000)"
proof (rule seen_at_most_once)
  show "mark_seen True rev seen_cache_new (message_id_from_content 1 2 3) 1 1000
      = (fst (mark_seen True rev seen_cache_new (message_id_from_content 1 2 3) 1 1000), True)"
    by (simp add: mark_seen_def seen_cache_new_def DEFAULT_SEEN_TTL_MS_def sat_sub_def cleanup_def
        cleanup_std_def bt_get_def Let_def)
qed (simp_all add: seen_cache_new_def seen_wf_def MAX_CACHE_SIZE_def sat_sub_def DEFAULT_SEEN_TTL_MS_def)

end
