(* ===== verification/Sync_Protocol.thy ===== *)
theory Sync_Protocol
  imports Delta
begin

text \<open>
  The GATT sync protocol: \<open>src/sync/batch.rs\<close> (accumulation and batch codec) and
  \<open>src/sync/protocol.rs\<close> (chunking, reassembly and the coordinator \<open>GattSyncProtocol\<close>).
  Chunks of one message may arrive in any order, repeated, and interleaved with chunks of other
  messages. Times are 64-bit and wrap as in a release build; \<open>usize\<close> counters of pending
  operations and bytes are naturals (they count what is in memory).

  Main results: a chunked message is put together exactly, at the arrival of its last missing
  chunk, under any interleaving; a batch survives the wire; the accumulator respects its limits.
\<close>

section \<open>Batches\<close>

record batch_config =
  max_wait_ms :: u64
  max_bytes :: nat
  max_operations :: nat
  min_interval_ms :: u64

definition batch_config_default :: batch_config where
  "batch_config_default =
     \<lparr>max_wait_ms = 5000, max_bytes = 512, max_operations = 20, min_interval_ms = 1000\<rparr>"

definition batch_config_low_power :: batch_config where
  "batch_config_low_power =
     \<lparr>max_wait_ms = 30000, max_bytes = 1024, max_operations = 50, min_interval_ms = 10000\<rparr>"

definition batch_config_responsive :: batch_config where
  "batch_config_responsive =
     \<lparr>max_wait_ms = 1000, max_bytes = 256, max_operations = 10, min_interval_ms = 500\<rparr>"

record operation_batch =
  batch_operations :: "crdt_operation list"
  total_bytes :: nat
  created_at :: u64

definition batch_encode :: "operation_batch \<Rightarrow> bytes" where
  "batch_encode b =
     le16 (word_of_nat (length (batch_operations b)))
     @ concat (map (\<lambda>op. le16 (word_of_nat (length (crdt_op_encode op))) @ crdt_op_encode op)
         (batch_operations b))"

fun batch_decode_ops ::
  "nat \<Rightarrow> bytes \<Rightarrow> nat \<Rightarrow> crdt_operation list \<Rightarrow> nat \<Rightarrow> (crdt_operation list \<times> nat) option outcome" where
  "batch_decode_ops 0 data offset ops tot = ret (Some (ops, tot))"
| "batch_decode_ops (Suc n) data offset ops tot =
     (if offset + 2 > length data then ret None
      else do {
        l \<leftarrow> read_u16 data offset;
        let op_len = unat l;
        if offset + 2 + op_len > length data then ret None
        else do {
          d \<leftarrow> slice data (offset + 2) (offset + 2 + op_len);
          r \<leftarrow> crdt_op_decode d;
          case r of None \<Rightarrow> ret None
          | Some op \<Rightarrow>
              batch_decode_ops n data (offset + 2 + op_len) (ops @ [op]) (tot + crdt_op_size op)
        }
      })"

definition batch_decode :: "bytes \<Rightarrow> operation_batch option outcome" where
  "batch_decode data =
     (if length data < 2 then ret None
      else do {
        c \<leftarrow> read_u16 data 0;
        r \<leftarrow> batch_decode_ops (unat c) data 2 [] 0;
        case r of None \<Rightarrow> ret None
        | Some (ops, tot) \<Rightarrow>
            ret (Some \<lparr>batch_operations = ops, total_bytes = tot, created_at = 0\<rparr>)
      })"

record batch_accumulator =
  acc_config :: batch_config
  pending :: "crdt_operation list"
  bytes_accumulated :: nat
  first_pending_time :: "u64 option"
  acc_last_sync_time :: u64

definition accumulator_new :: "batch_config \<Rightarrow> batch_accumulator" where
  "accumulator_new cfg =
     \<lparr>acc_config = cfg, pending = [], bytes_accumulated = 0, first_pending_time = None,
      acc_last_sync_time = 0\<rparr>"

definition accumulator_add :: "batch_accumulator \<Rightarrow> crdt_operation \<Rightarrow> u64 \<Rightarrow> batch_accumulator \<times> bool" where
  "accumulator_add a op now =
     (let op_size = crdt_op_size op in
      if bytes_accumulated a + op_size > max_bytes (acc_config a) \<and> pending a \<noteq> [] then (a, False)
      else if length (pending a) \<ge> max_operations (acc_config a) then (a, False)
      else
        let a1 = (if first_pending_time a = None then a\<lparr>first_pending_time := Some now\<rparr> else a)
        in (a1\<lparr>pending := pending a1 @ [op], bytes_accumulated := bytes_accumulated a1 + op_size\<rparr>, True))"

definition should_flush :: "batch_accumulator \<Rightarrow> u64 \<Rightarrow> bool" where
  "should_flush a now =
     (if pending a = [] then False
      else if now < acc_last_sync_time a + min_interval_ms (acc_config a) then False
      else if bytes_accumulated a \<ge> max_bytes (acc_config a) then True
      else if length (pending a) \<ge> max_operations (acc_config a) then True
      else case first_pending_time a of
             None \<Rightarrow> False
           | Some t \<Rightarrow> now \<ge> t + max_wait_ms (acc_config a))"

definition accumulator_flush :: "batch_accumulator \<Rightarrow> u64 \<Rightarrow> batch_accumulator \<times> operation_batch option" where
  "accumulator_flush a now =
     (if pending a = [] then (a, None)
      else
        (a\<lparr>pending := [], bytes_accumulated := 0, first_pending_time := None, acc_last_sync_time := now\<rparr>,
         Some \<lparr>batch_operations = pending a, total_bytes = bytes_accumulated a, created_at = now\<rparr>))"

definition accumulator_clear :: "batch_accumulator \<Rightarrow> batch_accumulator" where
  "accumulator_clear a = a\<lparr>pending := [], bytes_accumulated := 0, first_pending_time := None\<rparr>"

definition accumulator_set_config :: "batch_accumulator \<Rightarrow> batch_config \<Rightarrow> batch_accumulator" where
  "accumulator_set_config a cfg = a\<lparr>acc_config := cfg\<rparr>"

section \<open>Chunks\<close>

definition DEFAULT_MTU :: nat where "DEFAULT_MTU = 23"
definition MAX_MTU :: nat where "MAX_MTU = 517"
definition CHUNK_HEADER_SIZE :: nat where "CHUNK_HEADER_SIZE = 8"

record chunk_header =
  hdr_message_id :: u32
  chunk_index :: u16
  total_chunks :: u16

definition chunk_header_encode :: "chunk_header \<Rightarrow> bytes" where
  "chunk_header_encode h = le32 (hdr_message_id h) @ le16 (chunk_index h) @ le16 (total_chunks h)"

definition chunk_header_decode :: "bytes \<Rightarrow> chunk_header option outcome" where
  "chunk_header_decode data =
     (if length data < CHUNK_HEADER_SIZE then ret None
      else do {
        m \<leftarrow> read_u32 data 0;
        i \<leftarrow> read_u16 data 4;
        t \<leftarrow> read_u16 data 6;
        ret (Some \<lparr>hdr_message_id = m, chunk_index = i, total_chunks = t\<rparr>)
      })"

record sync_chunk =
  chunk_hdr :: chunk_header
  chunk_payload :: bytes

definition sync_chunk_encode :: "sync_chunk \<Rightarrow> bytes" where
  "sync_chunk_encode c = chunk_header_encode (chunk_hdr c) @ chunk_payload c"

definition sync_chunk_decode :: "bytes \<Rightarrow> sync_chunk option outcome" where
  "sync_chunk_decode data = do {
     hr \<leftarrow> chunk_header_decode data;
     case hr of None \<Rightarrow> ret None
     | Some h \<Rightarrow> do {
         payload \<leftarrow> slice_from data CHUNK_HEADER_SIZE;
         ret (Some \<lparr>chunk_hdr = h, chunk_payload = payload\<rparr>)
       }
   }"

definition sync_chunk_encoded_size :: "sync_chunk \<Rightarrow> nat" where
  "sync_chunk_encoded_size c = CHUNK_HEADER_SIZE + length (chunk_payload c)"

definition chunk_data :: "bytes \<Rightarrow> nat \<Rightarrow> u32 \<Rightarrow> sync_chunk list" where
  "chunk_data data mtu mid =
     (let payload_size = mtu - CHUNK_HEADER_SIZE in
      if payload_size = 0 then []
      else
        let tot = (length data + payload_size - 1) div payload_size;
            total16 = (word_of_nat (max tot 1) :: u16);
            chunks = map (\<lambda>(i, d). \<lparr>chunk_hdr = \<lparr>hdr_message_id = mid, chunk_index = word_of_nat i,
                       total_chunks = total16\<rparr>, chunk_payload = d\<rparr>)
                       (enumerate 0 (slice_chunks payload_size data))
        in if chunks = [] then
             [\<lparr>chunk_hdr = \<lparr>hdr_message_id = mid, chunk_index = 0, total_chunks = 1\<rparr>, chunk_payload = []\<rparr>]
           else chunks)"

section \<open>Reassembly\<close>

record partial_message =
  part_total :: u16
  part_chunks :: "(u16, bytes) btree_map"
  started_at :: u64

record chunk_reassembler =
  partials :: "(u32, partial_message) btree_map"
  max_partials :: nat
  partial_timeout_ms :: u64

definition reassembler_new :: chunk_reassembler where
  "reassembler_new = \<lparr>partials = [], max_partials = 8, partial_timeout_ms = 30000\<rparr>"

fun assemble :: "nat list \<Rightarrow> (u16, bytes) btree_map \<Rightarrow> bytes \<Rightarrow> bytes option" where
  "assemble [] m result = Some result"
| "assemble (i # is) m result =
     (case bt_get m (word_of_nat i) of
        Some d \<Rightarrow> assemble is m (result @ d)
      | None \<Rightarrow> None)"

definition reassembler_process ::
  "chunk_reassembler \<Rightarrow> sync_chunk \<Rightarrow> u64 \<Rightarrow> chunk_reassembler \<times> bytes option" where
  "reassembler_process r chunk now =
     (let mid = hdr_message_id (chunk_hdr chunk) in
      if total_chunks (chunk_hdr chunk) = 1 then (r, Some (chunk_payload chunk))
      else
        let p = (case bt_get (partials r) mid of
                   Some p \<Rightarrow> p
                 | None \<Rightarrow> \<lparr>part_total = total_chunks (chunk_hdr chunk), part_chunks = [], started_at = now\<rparr>);
            p1 = p\<lparr>part_chunks := bt_insert (chunk_index (chunk_hdr chunk)) (chunk_payload chunk) (part_chunks p)\<rparr>
        in if length (part_chunks p1) = unat (part_total p1)
           then (r\<lparr>partials := bt_remove mid (partials r)\<rparr>,
                 assemble [0..<unat (part_total p1)] (part_chunks p1) [])
           else (r\<lparr>partials := bt_insert mid p1 (partials r)\<rparr>, None))"

definition reassembler_cleanup :: "chunk_reassembler \<Rightarrow> u64 \<Rightarrow> chunk_reassembler" where
  "reassembler_cleanup r now =
     r\<lparr>partials := filter (\<lambda>e. now - started_at (snd e) < partial_timeout_ms r) (partials r)\<rparr>"

definition reassembler_pending_count :: "chunk_reassembler \<Rightarrow> nat" where
  "reassembler_pending_count r = length (partials r)"

section \<open>The coordinator\<close>

datatype sync_state = Idle | Sending | Receiving | WaitingAck

record sync_config =
  cfg_mtu :: nat
  cfg_batch :: batch_config
  sync_interval_ms :: u64
  enable_delta :: bool
  max_retries :: u8

definition sync_config_default :: sync_config where
  "sync_config_default =
     \<lparr>cfg_mtu = DEFAULT_MTU, cfg_batch = batch_config_default, sync_interval_ms = 5000,
      enable_delta = True, max_retries = 3\<rparr>"

definition sync_config_low_power :: sync_config where
  "sync_config_low_power =
     \<lparr>cfg_mtu = DEFAULT_MTU, cfg_batch = batch_config_low_power, sync_interval_ms = 30000,
      enable_delta = True, max_retries = 2\<rparr>"

definition sync_config_responsive :: sync_config where
  "sync_config_responsive =
     \<lparr>cfg_mtu = MAX_MTU, cfg_batch = batch_config_responsive, sync_interval_ms = 1000,
      enable_delta = True, max_retries = 3\<rparr>"

record gatt_sync =
  gs_node_id :: u32
  gs_config :: sync_config
  gs_state :: sync_state
  gs_batch :: batch_accumulator
  gs_delta :: delta_encoder
  gs_vector_clock :: vector_clock
  tx_queue :: "sync_chunk list"
  rx_reassembler :: chunk_reassembler
  next_message_id :: u32
  gs_current_time_ms :: u64
  gs_last_sync_time_ms :: u64

definition gatt_sync_new :: "u32 \<Rightarrow> sync_config \<Rightarrow> gatt_sync" where
  "gatt_sync_new n cfg =
     \<lparr>gs_node_id = n, gs_config = cfg, gs_state = Idle, gs_batch = accumulator_new (cfg_batch cfg),
      gs_delta = delta_encoder_new n, gs_vector_clock = vc_new, tx_queue = [],
      rx_reassembler = reassembler_new, next_message_id = 1, gs_current_time_ms = 0,
      gs_last_sync_time_ms = 0\<rparr>"

definition gs_set_time :: "gatt_sync \<Rightarrow> u64 \<Rightarrow> gatt_sync" where
  "gs_set_time g t = g\<lparr>gs_current_time_ms := t\<rparr>"

definition gs_set_mtu :: "gatt_sync \<Rightarrow> nat \<Rightarrow> gatt_sync" where
  "gs_set_mtu g mtu = g\<lparr>gs_config := (gs_config g)\<lparr>cfg_mtu := mtu\<rparr>\<rparr>"

definition gs_add_peer :: "gatt_sync \<Rightarrow> u32 \<Rightarrow> gatt_sync" where
  "gs_add_peer g p = g\<lparr>gs_delta := enc_add_peer (gs_delta g) p\<rparr>"

definition gs_remove_peer :: "gatt_sync \<Rightarrow> u32 \<Rightarrow> gatt_sync" where
  "gs_remove_peer g p = g\<lparr>gs_delta := enc_remove_peer (gs_delta g) p\<rparr>"

definition queue_operation :: "gatt_sync \<Rightarrow> crdt_operation \<Rightarrow> gatt_sync \<times> bool" where
  "queue_operation g op =
     (let vc = fst (vc_increment (gs_vector_clock g) (gs_node_id g));
          r = accumulator_add (gs_batch g) op (gs_current_time_ms g)
      in (g\<lparr>gs_vector_clock := vc, gs_batch := fst r\<rparr>, snd r))"

definition should_sync :: "gatt_sync \<Rightarrow> bool" where
  "should_sync g = should_flush (gs_batch g) (gs_current_time_ms g)"

definition prepare_sync :: "gatt_sync \<Rightarrow> u32 \<Rightarrow> gatt_sync \<times> sync_chunk list" where
  "prepare_sync g p =
     (let f = accumulator_flush (gs_batch g) (gs_current_time_ms g);
          g1 = g\<lparr>gs_batch := fst f\<rparr>
      in case snd f of
           None \<Rightarrow> (g1, [])
         | Some batch \<Rightarrow>
             let operations = (if enable_delta (gs_config g)
                               then filter_for_peer (gs_delta g) p (batch_operations batch)
                               else batch_operations batch)
             in if operations = [] then (g1, [])
                else
                  let filtered = \<lparr>batch_operations = operations,
                        total_bytes = sum_list (map crdt_op_size operations),
                        created_at = created_at batch\<rparr>;
                      encoded = batch_encode filtered;
                      mid = next_message_id g;
                      chunks = chunk_data encoded (cfg_mtu (gs_config g)) mid;
                      delta = record_sent (enc_mark_sent (gs_delta g) p operations) p (length encoded)
                  in (g1\<lparr>next_message_id := mid + 1, gs_delta := delta, gs_state := Sending,
                         gs_last_sync_time_ms := gs_current_time_ms g\<rparr>, chunks))"

definition next_tx_chunk :: "gatt_sync \<Rightarrow> gatt_sync \<times> sync_chunk option" where
  "next_tx_chunk g = (case tx_queue g of [] \<Rightarrow> (g, None) | c # cs \<Rightarrow> (g\<lparr>tx_queue := cs\<rparr>, Some c))"

definition queue_chunks :: "gatt_sync \<Rightarrow> sync_chunk list \<Rightarrow> gatt_sync" where
  "queue_chunks g cs = g\<lparr>tx_queue := tx_queue g @ cs\<rparr>"

definition has_pending_tx :: "gatt_sync \<Rightarrow> bool" where
  "has_pending_tx g \<longleftrightarrow> tx_queue g \<noteq> []"

fun received_timestamp :: "crdt_operation \<Rightarrow> u64" where
  "received_timestamp (UpdatePosition n p t) = t"
| "received_timestamp (UpdateHealth n s t) = t"
| "received_timestamp (UpdateRegister k v t n) = t"
| "received_timestamp (IncrementCounter c n a) = 0"

definition process_received ::
  "gatt_sync \<Rightarrow> sync_chunk \<Rightarrow> u32 \<Rightarrow> (gatt_sync \<times> crdt_operation list option) outcome" where
  "process_received g chunk p =
     (let r = reassembler_process (rx_reassembler g) chunk (gs_current_time_ms g);
          g1 = g\<lparr>gs_state := Receiving, rx_reassembler := fst r\<rparr>
      in case snd r of
           None \<Rightarrow> ret (g1, None)
         | Some complete \<Rightarrow> do {
             br \<leftarrow> batch_decode complete;
             case br of
               None \<Rightarrow> ret (g1, None)
             | Some batch \<Rightarrow>
                 let delta = record_received (gs_delta g1) p (length complete) (gs_current_time_ms g);
                     vc = fold (\<lambda>op v. let t = received_timestamp op in if t > 0 then vc_update v p t else v)
                            (batch_operations batch) (gs_vector_clock g1)
                 in ret (g1\<lparr>gs_delta := delta, gs_vector_clock := vc, gs_state := Idle\<rparr>,
                         Some (batch_operations batch))
           })"

definition ack_send :: "gatt_sync \<Rightarrow> gatt_sync" where
  "ack_send g = (if tx_queue g = [] then g\<lparr>gs_state := Idle\<rparr> else g)"

definition gs_reset :: "gatt_sync \<Rightarrow> gatt_sync" where
  "gs_reset g = g\<lparr>gs_state := Idle, tx_queue := [], rx_reassembler := reassembler_new\<rparr>"

definition gs_reset_peer :: "gatt_sync \<Rightarrow> u32 \<Rightarrow> gatt_sync" where
  "gs_reset_peer g p = g\<lparr>gs_delta := reset_peer (gs_delta g) p\<rparr>"

definition gs_tick :: "gatt_sync \<Rightarrow> gatt_sync" where
  "gs_tick g = g\<lparr>rx_reassembler := reassembler_cleanup (rx_reassembler g) (gs_current_time_ms g)\<rparr>"

record sync_stats =
  ss_bytes_sent :: u64
  ss_bytes_received :: u64
  syncs_completed :: u32
  pending_operations :: nat
  pending_tx_chunks :: nat
  pending_rx_messages :: nat

definition gs_stats :: "gatt_sync \<Rightarrow> sync_stats" where
  "gs_stats g =
     (let ds = delta_stats (gs_delta g) in
      \<lparr>ss_bytes_sent = total_bytes_sent ds, ss_bytes_received = total_bytes_received ds,
       syncs_completed = total_syncs ds, pending_operations = length (pending (gs_batch g)),
       pending_tx_chunks = length (tx_queue g),
       pending_rx_messages = reassembler_pending_count (rx_reassembler g)\<rparr>)"

section \<open>Lemmas: chunking\<close>

definition payloads :: "bytes \<Rightarrow> nat \<Rightarrow> bytes list" where
  "payloads data mtu = (if data = [] then [[]] else slice_chunks (mtu - CHUNK_HEADER_SIZE) data)"

definition chunk_of :: "u32 \<Rightarrow> bytes list \<Rightarrow> nat \<Rightarrow> sync_chunk" where
  "chunk_of mid ds i =
     \<lparr>chunk_hdr = \<lparr>hdr_message_id = mid, chunk_index = word_of_nat i, total_chunks = word_of_nat (length ds)\<rparr>,
      chunk_payload = ds ! i\<rparr>"

lemma chunk_data_chunks:
  assumes "CHUNK_HEADER_SIZE < mtu"
  shows "chunk_data data mtu mid = map (chunk_of mid (payloads data mtu)) [0..<length (payloads data mtu)]"
proof -
  have k: "0 < mtu - CHUNK_HEADER_SIZE" using assms by simp
  show ?thesis
  proof (cases "data = []")
    case True
    then show ?thesis using k by (simp add: chunk_data_def payloads_def chunk_of_def)
  next
    case False
    let ?ds = "slice_chunks (mtu - CHUNK_HEADER_SIZE) data"
    have "(length data + (mtu - CHUNK_HEADER_SIZE) - 1) div (mtu - CHUNK_HEADER_SIZE) = length ?ds"
      using length_slice_chunks [OF k, of data] by simp
    moreover have "max (length ?ds) 1 = length ?ds" using False k by (cases ?ds) auto
    ultimately show ?thesis
      using False k unfolding chunk_data_def payloads_def Let_def chunk_of_def
      by (simp add: map_enumerate)
  qed
qed

lemma concat_payloads: "CHUNK_HEADER_SIZE < mtu \<Longrightarrow> concat (payloads data mtu) = data"
  by (simp add: payloads_def concat_slice_chunks)


lemma payloads_neq_Nil: "CHUNK_HEADER_SIZE < mtu \<Longrightarrow> payloads data mtu \<noteq> []"
  by (simp add: payloads_def)

section \<open>Lemmas: reassembly\<close>

text \<open>The reassembler holds the chunks \<open>X\<close> of message \<open>mid\<close> with payloads \<open>ds\<close>.\<close>

definition holding :: "chunk_reassembler \<Rightarrow> u32 \<Rightarrow> bytes list \<Rightarrow> nat set \<Rightarrow> bool" where
  "holding r mid ds X \<longleftrightarrow>
     X \<subseteq> {0..<length ds}
     \<and> (if X = {} then bt_get (partials r) mid = None
        else \<exists>p. bt_get (partials r) mid = Some p \<and> part_total p = word_of_nat (length ds)
           \<and> bt_wf (part_chunks p)
           \<and> (\<forall>k. bt_get (part_chunks p) k = (if unat k \<in> X then Some (ds ! unat k) else None)))"

lemma length_bt_card:
  assumes "bt_wf m" "\<And>k. bt_get m k \<noteq> None \<longleftrightarrow> k \<in> A"
  shows "length m = card A"
proof -
  have "length m = card (fst ` set m)"
    using distinct_card [OF bt_wf_distinct [OF assms(1)]] by simp
  also have "fst ` set m = A"
    using assms(2) by (auto simp: bt_get_def map_of_eq_None_iff)
  finally show ?thesis .
qed

lemma unat_of_index: "i < n \<Longrightarrow> n < 2 ^ 16 \<Longrightarrow> unat (word_of_nat i :: u16) = i"
  by (simp add: unat_of_nat)

lemma held_count:
  fixes m :: "(u16, bytes) btree_map"
  assumes "bt_wf m" "X \<subseteq> {0..<n}" "n < 2 ^ 16"
    and "\<forall>k. bt_get m k = (if unat k \<in> X then Some (ds ! unat k) else None)"
  shows "length m = card X"
proof -
  have "length m = card {k :: u16. unat k \<in> X}"
    using assms(4) by (intro length_bt_card [OF assms(1)]) simp
  also have "{k :: u16. unat k \<in> X} = word_of_nat ` X"
    using assms(2,3) by (force simp: unat_of_nat image_iff)
  also have "card (word_of_nat ` X :: u16 set) = card X"
    using assms(2,3) by (intro card_image inj_onI) (metis atLeastLessThan_iff subsetD unat_of_index)
  finally show ?thesis .
qed

lemma assemble_all:
  assumes "\<forall>i \<in> set is. bt_get m (word_of_nat i) = Some (ds ! i)"
  shows "assemble is m result = Some (result @ concat (map (\<lambda>i. ds ! i) is))"
  using assms by (induction "is" arbitrary: result) simp_all

lemma process_chunk_held:
  assumes h: "holding r mid ds X" and n: "1 < length ds" "length ds < 2 ^ 16" and i: "i < length ds"
  obtains p where "part_total p = word_of_nat (length ds)" "length (part_chunks p) = card (insert i X)"
    "\<forall>k. bt_get (part_chunks p) k = (if unat k \<in> insert i X then Some (ds ! unat k) else None)"
    "bt_wf (part_chunks p)"
    "reassembler_process r (chunk_of mid ds i) now =
      (if card (insert i X) = length ds
       then (r\<lparr>partials := bt_remove mid (partials r)\<rparr>, assemble [0..<length ds] (part_chunks p) [])
       else (r\<lparr>partials := bt_insert mid p (partials r)\<rparr>, None))"
proof -
  define p0 where "p0 = (case bt_get (partials r) mid of Some p \<Rightarrow> p
    | None \<Rightarrow> \<lparr>part_total = word_of_nat (length ds), part_chunks = [], started_at = now\<rparr>)"
  define p where "p = p0\<lparr>part_chunks := bt_insert (word_of_nat i) (ds ! i) (part_chunks p0)\<rparr>"
  have X: "X \<subseteq> {0..<length ds}" using h by (simp add: holding_def)
  have p0: "part_total p0 = word_of_nat (length ds)" "bt_wf (part_chunks p0)"
    "\<forall>k. bt_get (part_chunks p0) k = (if unat k \<in> X then Some (ds ! unat k) else None)"
    using h by (auto simp: holding_def p0_def bt_get_def split: if_splits)
  have key: "k = word_of_nat i \<longleftrightarrow> unat k = i" for k :: u16
    using unat_of_index [OF i n(2)] by auto
  have p: "part_total p = word_of_nat (length ds)" "bt_wf (part_chunks p)"
    "\<forall>k. bt_get (part_chunks p) k = (if unat k \<in> insert i X then Some (ds ! unat k) else None)"
    using p0 by (auto simp: p_def key)
  have card: "length (part_chunks p) = card (insert i X)"
    using held_count [OF p(2) _ n(2) p(3)] X i by simp
  have total: "unat (word_of_nat (length ds) :: u16) = length ds"
    "(word_of_nat (length ds) :: u16) \<noteq> 1"
    using n by (auto simp: unat_of_nat dest: arg_cong [where f = unat])
  have proc: "reassembler_process r (chunk_of mid ds i) now =
      (if length (part_chunks p) = unat (part_total p)
       then (r\<lparr>partials := bt_remove mid (partials r)\<rparr>, assemble [0..<unat (part_total p)] (part_chunks p) [])
       else (r\<lparr>partials := bt_insert mid p (partials r)\<rparr>, None))"
    using total(2)
    by (cases "bt_get (partials r) mid") (simp_all add: reassembler_process_def chunk_of_def Let_def p_def p0_def)
  have "reassembler_process r (chunk_of mid ds i) now =
      (if card (insert i X) = length ds
       then (r\<lparr>partials := bt_remove mid (partials r)\<rparr>, assemble [0..<length ds] (part_chunks p) [])
       else (r\<lparr>partials := bt_insert mid p (partials r)\<rparr>, None))"
    using total p(1) card proc by simp
  then show thesis using that p card by blast
qed

lemma process_chunk_partial:
  assumes h: "holding r mid ds X" and n: "1 < length ds" "length ds < 2 ^ 16" and i: "i < length ds"
    and more: "insert i X \<noteq> {0..<length ds}"
  shows "\<exists>r'. reassembler_process r (chunk_of mid ds i) now = (r', None) \<and> holding r' mid ds (insert i X)"
proof -
  obtain p where p: "part_total p = word_of_nat (length ds)"
    "\<forall>k. bt_get (part_chunks p) k = (if unat k \<in> insert i X then Some (ds ! unat k) else None)"
    "bt_wf (part_chunks p)"
    and proc: "reassembler_process r (chunk_of mid ds i) now =
      (if card (insert i X) = length ds
       then (r\<lparr>partials := bt_remove mid (partials r)\<rparr>, assemble [0..<length ds] (part_chunks p) [])
       else (r\<lparr>partials := bt_insert mid p (partials r)\<rparr>, None))"
    using process_chunk_held [OF h n i] by metis
  have sub: "insert i X \<subseteq> {0..<length ds}" using h i by (auto simp: holding_def)
  then have "card (insert i X) \<noteq> length ds"
    using more card_subset_eq [OF _ sub] by (metis card_atLeastLessThan diff_zero finite_atLeastLessThan)
  then show ?thesis using proc p sub by (auto simp: holding_def)
qed

lemma process_chunk_last:
  assumes h: "holding r mid ds X" and n: "ds \<noteq> []" "length ds < 2 ^ 16" and i: "i < length ds"
    and last: "insert i X = {0..<length ds}" "i \<notin> X"
  shows "snd (reassembler_process r (chunk_of mid ds i) now) = Some (concat ds)"
proof (cases "length ds = 1")
  case True
  then obtain d where "ds = [d]" by (cases ds) auto
  then show ?thesis using i by (simp add: reassembler_process_def chunk_of_def Let_def)
next
  case False
  then have "1 < length ds" using n(1) by (cases ds) auto
  then obtain p where
    p: "\<forall>k. bt_get (part_chunks p) k = (if unat k \<in> insert i X then Some (ds ! unat k) else None)"
    and proc: "reassembler_process r (chunk_of mid ds i) now =
      (if card (insert i X) = length ds
       then (r\<lparr>partials := bt_remove mid (partials r)\<rparr>, assemble [0..<length ds] (part_chunks p) [])
       else (r\<lparr>partials := bt_insert mid p (partials r)\<rparr>, None))"
    using process_chunk_held [OF h _ n(2) i] by metis
  have "assemble [0..<length ds] (part_chunks p) [] = Some ([] @ concat (map (\<lambda>i. ds ! i) [0..<length ds]))"
    using n(2) p last(1) by (intro assemble_all) (auto simp: unat_of_index)
  then show ?thesis using proc last(1) by (simp add: map_nth)
qed

lemma process_other:
  assumes "hdr_message_id (chunk_hdr c) \<noteq> mid"
  shows "bt_get (partials (fst (reassembler_process r c now))) mid = bt_get (partials r) mid"
  using assms by (auto simp: reassembler_process_def Let_def)

lemma holding_other:
  "hdr_message_id (chunk_hdr c) \<noteq> mid \<Longrightarrow> holding r mid ds X \<Longrightarrow>
   holding (fst (reassembler_process r c now)) mid ds X"
  by (simp add: holding_def process_other)

text \<open>A run over arriving chunks, with the result of every call.\<close>

fun reassemble_run ::
  "chunk_reassembler \<Rightarrow> (sync_chunk \<times> u64) list \<Rightarrow> chunk_reassembler \<times> (u32 \<times> bytes option) list" where
  "reassemble_run r [] = (r, [])"
| "reassemble_run r ((c, t) # evs) =
     (let (r1, res) = reassembler_process r c t; (r2, outs) = reassemble_run r1 evs
      in (r2, (hdr_message_id (chunk_hdr c), res) # outs))"

definition results_for :: "u32 \<Rightarrow> (u32 \<times> bytes option) list \<Rightarrow> bytes option list" where
  "results_for mid outs = map snd (filter (\<lambda>e. fst e = mid) outs)"

definition chunks_for :: "u32 \<Rightarrow> (sync_chunk \<times> u64) list \<Rightarrow> sync_chunk list" where
  "chunks_for mid evs = filter (\<lambda>c. hdr_message_id (chunk_hdr c) = mid) (map fst evs)"

lemma results_for_step:
  "results_for mid (snd (reassemble_run r ((c, t) # evs))) =
    (if hdr_message_id (chunk_hdr c) = mid then [snd (reassembler_process r c t)] else [])
    @ results_for mid (snd (reassemble_run (fst (reassembler_process r c t)) evs))"
  by (simp add: results_for_def case_prod_beta Let_def)

declare reassemble_run.simps(2) [simp del]

lemma results_for_none: "chunks_for mid evs = [] \<Longrightarrow> results_for mid (snd (reassemble_run r evs)) = []"
proof (induction evs arbitrary: r)
  case (Cons e evs)
  obtain c t where "e = (c, t)" by fastforce
  then show ?case using Cons by (simp add: results_for_step chunks_for_def split: if_splits)
qed (simp add: results_for_def)

lemma reassemble_run_complete:
  assumes "holding r mid ds X" "ds \<noteq> []" "length ds < 2 ^ 16"
    and "chunks_for mid evs = map (chunk_of mid ds) (is @ [j])"
    and "insert j (X \<union> set is) = {0..<length ds}" "j \<notin> X \<union> set is"
  shows "results_for mid (snd (reassemble_run r evs)) = replicate (length is) None @ [Some (concat ds)]"
  using assms
proof (induction evs arbitrary: r X "is")
  case Nil
  then show ?case by (simp add: chunks_for_def)
next
  case (Cons e evs)
  obtain c t where e: "e = (c, t)" by fastforce
  let ?r = "fst (reassembler_process r c t)"
  show ?case
  proof (cases "hdr_message_id (chunk_hdr c) = mid")
    case False
    then have "chunks_for mid evs = map (chunk_of mid ds) (is @ [j])"
      using Cons.prems(4) e by (simp add: chunks_for_def)
    then show ?thesis
      using Cons.IH [of ?r X "is"] Cons.prems False e by (simp add: results_for_step holding_other)
  next
    case own: True
    show ?thesis
    proof (cases "is")
      case Nil
      then have c: "c = chunk_of mid ds j" "chunks_for mid evs = []"
        using Cons.prems(4) own e by (auto simp: chunks_for_def)
      have "snd (reassembler_process r c t) = Some (concat ds)"
        using Cons.prems Nil unfolding c(1) by (intro process_chunk_last [of r mid ds X]) auto
      then show ?thesis using Nil own e by (simp add: results_for_step results_for_none [OF c(2)])
    next
      case (Cons i is')
      then have c: "c = chunk_of mid ds i" "chunks_for mid evs = map (chunk_of mid ds) (is' @ [j])"
        using Cons.prems(4) own e by (auto simp: chunks_for_def)
      have "i \<in> {0..<length ds}" "j \<in> {0..<length ds}" "i \<noteq> j" "j \<notin> insert i X"
        using Cons.prems(5,6) Cons by auto
      then have i: "i < length ds" "insert i X \<noteq> {0..<length ds}" "1 < length ds" by auto
      then obtain r' where r': "reassembler_process r c t = (r', None)" "holding r' mid ds (insert i X)"
        using process_chunk_partial [OF Cons.prems(1) i(3) Cons.prems(3) i(1,2)] unfolding c(1) by blast
      have "results_for mid (snd (reassemble_run r' evs)) = replicate (length is') None @ [Some (concat ds)]"
        using Cons.prems Cons c(2) r'(2) by (intro Cons.IH [of r' "insert i X"]) auto
      then show ?thesis using own e r'(1) Cons by (simp add: results_for_step)
    qed
  qed
qed

lemma chunk_of_inject:
  assumes "i < length ds" "j < length ds" "length ds < 2 ^ 16" "chunk_of mid ds i = chunk_of mid ds j"
  shows "i = j"
proof -
  have "chunk_index (chunk_hdr (chunk_of mid ds i)) = chunk_index (chunk_hdr (chunk_of mid ds j))"
    by (simp only: assms(4))
  then have "(word_of_nat i :: u16) = word_of_nat j"
    by (simp only: chunk_of_def sync_chunk.select_convs chunk_header.select_convs)
  then have "unat (word_of_nat i :: u16) = unat (word_of_nat j :: u16)" by (simp only:)
  then show ?thesis
    by (simp only: unat_of_index [OF assms(1,3)] unat_of_index [OF assms(2,3)])
qed

lemma reassemble_message:
  assumes mtu: "CHUNK_HEADER_SIZE < mtu" and small: "length (chunk_data data mtu mid) < 2 ^ 16"
    and fresh: "bt_get (partials r) mid = None"
    and own: "chunks_for mid evs = cs @ [c]" "set (cs @ [c]) = set (chunk_data data mtu mid)" "c \<notin> set cs"
  shows "results_for mid (snd (reassemble_run r evs)) = replicate (length cs) None @ [Some data]"
proof -
  define ds where "ds = payloads data mtu"
  have chunks: "chunk_data data mtu mid = map (chunk_of mid ds) [0..<length ds]"
    using chunk_data_chunks [OF mtu] by (simp add: ds_def)
  have n: "length ds < 2 ^ 16" "ds \<noteq> []" "concat ds = data"
    using small chunks payloads_neq_Nil [OF mtu] concat_payloads [OF mtu] by (simp_all add: ds_def)
  have "cs @ [c] \<in> lists (chunk_of mid ds ` {0..<length ds})"
    using own(2) chunks by (auto simp: lists_eq_set)
  then obtain ks where ks: "cs @ [c] = map (chunk_of mid ds) ks" "set ks \<subseteq> {0..<length ds}"
    by (auto simp: lists_image)
  obtain "is" j where isj: "ks = is @ [j]" "cs = map (chunk_of mid ds) is" "c = chunk_of mid ds j"
    using ks(1) by (auto simp: append_eq_map_conv)
  have inj: "inj_on (chunk_of mid ds) {0..<length ds}"
    using chunk_of_inject [OF _ _ n(1)] by (intro inj_onI) simp
  have "chunk_of mid ds ` set ks = chunk_of mid ds ` {0..<length ds}"
    using own(2) ks(1) chunks by (metis list.set_map set_upt)
  then have all: "set ks = {0..<length ds}" using inj_on_image_eq_iff [OF inj] ks(2) by blast
  have "j \<notin> set is" using own(3) isj by auto
  then show ?thesis
    using reassemble_run_complete [of r mid ds "{}" evs "is" j] n fresh own(1) isj all ks(1)
    by (simp add: holding_def)
qed

section \<open>Lemmas: batches\<close>

definition batch_sendable :: "crdt_operation list \<Rightarrow> bool" where
  "batch_sendable ops \<longleftrightarrow> length ops < 2 ^ 16 \<and>
     (\<forall>op \<in> set ops. crdt_op_valid op \<and> length (crdt_op_encode op) < 2 ^ 16)"

lemma batch_decode_ops_wire:
  assumes "\<forall>op \<in> set ops. crdt_op_valid op \<and> length (crdt_op_encode op) < 2 ^ 16"
  shows "batch_decode_ops (length ops)
      (pre @ concat (map (\<lambda>op. le16 (word_of_nat (length (crdt_op_encode op))) @ crdt_op_encode op) ops))
      (length pre) done n
    = ret (Some (done @ ops, n + sum_list (map crdt_op_size ops)))"
  using assms
proof (induction ops arbitrary: pre "done" n)
  case (Cons op ops)
  let ?e = "crdt_op_encode op"
  let ?rest = "concat (map (\<lambda>op. le16 (word_of_nat (length (crdt_op_encode op))) @ crdt_op_encode op) ops)"
  have l: "unat (word_of_nat (length ?e) :: u16) = length ?e"
    using Cons.prems by (simp add: unat_of_nat)
  have "batch_decode_ops (length ops) ((pre @ le16 (word_of_nat (length ?e)) @ ?e) @ ?rest)
      (length (pre @ le16 (word_of_nat (length ?e)) @ ?e)) (done @ [op]) (n + crdt_op_size op)
    = ret (Some ((done @ [op]) @ ops, n + crdt_op_size op + sum_list (map crdt_op_size ops)))"
    using Cons.prems by (intro Cons.IH) simp
  then show ?case
    using Cons.prems l crdt_op_decode_encode [of op] by (simp add: wire add.assoc)
qed simp

lemma batch_decode_encode:
  assumes "batch_sendable (batch_operations b)"
  shows "batch_decode (batch_encode b) =
    ret (Some \<lparr>batch_operations = batch_operations b,
               total_bytes = sum_list (map crdt_op_size (batch_operations b)), created_at = 0\<rparr>)"
proof -
  let ?n = "length (batch_operations b)"
  have "unat (word_of_nat ?n :: u16) = ?n" using assms by (simp add: batch_sendable_def unat_of_nat)
  then show ?thesis
    using batch_decode_ops_wire [of "batch_operations b" "le16 (word_of_nat ?n)" "[]" 0] assms
    by (simp add: batch_decode_def batch_encode_def batch_sendable_def wire)
qed

lemma batch_decode_ops_safe: "no_panic (batch_decode_ops n data off ops tot)"
  by (induction n data off ops tot rule: batch_decode_ops.induct)
    (auto intro!: safe crdt_op_decode_safe)

lemma batch_decode_safe: "no_panic (batch_decode data)"
  unfolding batch_decode_def by (auto intro!: safe batch_decode_ops_safe)

section \<open>Lemmas: receiving\<close>

definition decode_batch_ops :: "bytes option \<Rightarrow> crdt_operation list option" where
  "decode_batch_ops r = Option.bind r (\<lambda>d. map_option batch_operations (Option.bind (batch_decode d) id))"

lemma process_received_spec:
  "\<exists>g'. process_received g c p = ret (g', decode_batch_ops (snd (reassembler_process (rx_reassembler g) c (gs_current_time_ms g))))
     \<and> rx_reassembler g' = fst (reassembler_process (rx_reassembler g) c (gs_current_time_ms g))"
proof (cases "snd (reassembler_process (rx_reassembler g) c (gs_current_time_ms g))")
  case None
  then show ?thesis by (simp add: process_received_def decode_batch_ops_def Let_def)
next
  case (Some d)
  obtain b where "batch_decode d = ret b" using batch_decode_safe [of d] by (auto simp: no_panic_ex)
  then show ?thesis using Some
    by (cases b) (simp_all add: process_received_def decode_batch_ops_def Let_def)
qed

text \<open>A receiving node: chunks arrive from several peers at the times the caller sets.\<close>

fun receive_run ::
  "gatt_sync \<Rightarrow> (u32 \<times> sync_chunk \<times> u64) list \<Rightarrow> (gatt_sync \<times> (u32 \<times> crdt_operation list option) list) outcome" where
  "receive_run g [] = ret (g, [])"
| "receive_run g ((p, c, t) # evs) = do {
     (g1, res) \<leftarrow> process_received (gs_set_time g t) c p;
     (g2, outs) \<leftarrow> receive_run g1 evs;
     ret (g2, (hdr_message_id (chunk_hdr c), res) # outs)
   }"

lemma receive_run_spec:
  "\<exists>g'. receive_run g evs =
     ret (g', map (apsnd decode_batch_ops) (snd (reassemble_run (rx_reassembler g) (map snd evs))))"
proof (induction evs arbitrary: g)
  case (Cons e evs)
  obtain p c t where e: "e = (p, c, t)" by (cases e) auto
  let ?r = "reassembler_process (rx_reassembler g) c t"
  obtain g1 where g1: "process_received (gs_set_time g t) c p = ret (g1, decode_batch_ops (snd ?r))"
      "rx_reassembler g1 = fst ?r"
    using process_received_spec [of "gs_set_time g t" c p] by (auto simp: gs_set_time_def)
  obtain g2 where "receive_run g1 evs =
      ret (g2, map (apsnd decode_batch_ops) (snd (reassemble_run (fst ?r) (map snd evs))))"
    using Cons.IH [of g1] g1(2) by auto
  then show ?case
    using e g1(1) by (simp add: reassemble_run.simps case_prod_beta Let_def)
qed simp

lemma prepare_sync_chunks:
  assumes "pending (gs_batch g) \<noteq> []"
    and "ops = (if enable_delta (gs_config g) then filter_for_peer (gs_delta g) p (pending (gs_batch g))
                else pending (gs_batch g))"
  shows "snd (prepare_sync g p) =
    (if ops = [] then [] else
       chunk_data (batch_encode \<lparr>batch_operations = ops, total_bytes = sum_list (map crdt_op_size ops),
         created_at = gs_current_time_ms g\<rparr>) (cfg_mtu (gs_config g)) (next_message_id g))"
  using assms by (simp add: prepare_sync_def accumulator_flush_def Let_def)

lemma results_for_map:
  "map snd (filter (\<lambda>e. fst e = mid) (map (apsnd f) outs)) = map f (results_for mid outs)"
  by (induction outs) (auto simp: results_for_def)

lemma sync_delivers_aux:
  assumes pend: "pending (gs_batch g) \<noteq> []" "ops \<noteq> []" "batch_sendable ops"
    and ops: "ops = (if enable_delta (gs_config g) then filter_for_peer (gs_delta g) p (pending (gs_batch g))
                else pending (gs_batch g))"
    and mtu: "CHUNK_HEADER_SIZE < cfg_mtu (gs_config g)" "length (snd (prepare_sync g p)) < 2 ^ 16"
    and fresh: "bt_get (partials (rx_reassembler h)) (next_message_id g) = None"
    and own: "chunks_for (next_message_id g) (map snd evs) = cs @ [c]"
      "set (cs @ [c]) = set (snd (prepare_sync g p))" "c \<notin> set cs"
  shows "\<exists>h' outs. receive_run h evs = ret (h', outs) \<and>
    map snd (filter (\<lambda>e. fst e = next_message_id g) outs) = replicate (length cs) None @ [Some ops]"
proof -
  let ?b = "\<lparr>batch_operations = ops, total_bytes = sum_list (map crdt_op_size ops), created_at = gs_current_time_ms g\<rparr>"
  have chunks: "snd (prepare_sync g p) = chunk_data (batch_encode ?b) (cfg_mtu (gs_config g)) (next_message_id g)"
    using prepare_sync_chunks [OF pend(1) ops] pend(2) by simp
  have "results_for (next_message_id g) (snd (reassemble_run (rx_reassembler h) (map snd evs)))
    = replicate (length cs) None @ [Some (batch_encode ?b)]"
    using mtu(2) own(2) unfolding chunks by (intro reassemble_message [OF mtu(1) _ fresh own(1) _ own(3)])
  moreover have "decode_batch_ops (Some (batch_encode ?b)) = Some ops"
    using batch_decode_encode [of ?b] pend(3) by (simp add: decode_batch_ops_def)
  moreover have "decode_batch_ops None = None" by (simp add: decode_batch_ops_def)
  ultimately show ?thesis
    using receive_run_spec [of h evs] by (auto simp: results_for_map)
qed

section \<open>Lemmas: the accumulator\<close>

datatype acc_event = AccAdd crdt_operation u64 | AccFlush u64

text \<open>A run of the accumulator: the operations it accepted and the batches it gave out, in order.\<close>

fun acc_run ::
  "batch_accumulator \<Rightarrow> acc_event list \<Rightarrow> batch_accumulator \<times> crdt_operation list \<times> operation_batch list" where
  "acc_run a [] = (a, [], [])"
| "acc_run a (AccAdd op t # es) =
     (let (a1, ok) = accumulator_add a op t; (a2, acc, bs) = acc_run a1 es
      in (a2, (if ok then op # acc else acc), bs))"
| "acc_run a (AccFlush t # es) =
     (let (a1, r) = accumulator_flush a t; (a2, acc, bs) = acc_run a1 es
      in (a2, acc, (case r of None \<Rightarrow> bs | Some b \<Rightarrow> b # bs)))"

definition within_limits :: "batch_config \<Rightarrow> crdt_operation list \<Rightarrow> bool" where
  "within_limits cfg ops \<longleftrightarrow> length ops \<le> max_operations cfg \<and>
     (sum_list (map crdt_op_size ops) \<le> max_bytes cfg \<or> length ops \<le> 1)"

definition acc_inv :: "batch_config \<Rightarrow> batch_accumulator \<Rightarrow> bool" where
  "acc_inv cfg a \<longleftrightarrow> acc_config a = cfg \<and> bytes_accumulated a = sum_list (map crdt_op_size (pending a)) \<and>
     within_limits cfg (pending a) \<and> (first_pending_time a = None \<longleftrightarrow> pending a = [])"

definition batch_ok :: "batch_config \<Rightarrow> operation_batch \<Rightarrow> bool" where
  "batch_ok cfg b \<longleftrightarrow> batch_operations b \<noteq> [] \<and> within_limits cfg (batch_operations b) \<and>
     total_bytes b = sum_list (map crdt_op_size (batch_operations b))"

lemma acc_inv_new: "acc_inv cfg (accumulator_new cfg)"
  by (simp add: acc_inv_def accumulator_new_def within_limits_def)

lemma acc_inv_add:
  "acc_inv cfg a \<Longrightarrow> acc_inv cfg (fst (accumulator_add a op t)) \<and>
    pending (fst (accumulator_add a op t)) = pending a @ (if snd (accumulator_add a op t) then [op] else [])"
  by (auto simp: acc_inv_def accumulator_add_def within_limits_def Let_def)

lemma acc_inv_flush:
  "acc_inv cfg a \<Longrightarrow> acc_inv cfg (fst (accumulator_flush a t)) \<and> pending (fst (accumulator_flush a t)) = []"
  by (auto simp: acc_inv_def accumulator_flush_def within_limits_def)

lemma flush_batch:
  assumes "acc_inv cfg a"
  shows "snd (accumulator_flush a t) = None \<and> pending a = [] \<or>
    (\<exists>b. snd (accumulator_flush a t) = Some b \<and> batch_operations b = pending a \<and> batch_ok cfg b)"
  using assms by (auto simp: acc_inv_def accumulator_flush_def batch_ok_def)

lemma acc_inv_clear: "acc_inv cfg a \<Longrightarrow> acc_inv cfg (accumulator_clear a)"
  by (simp add: acc_inv_def accumulator_clear_def within_limits_def)

lemma acc_run_fifo:
  assumes "acc_inv cfg a" "acc_run a es = (a', accepted, bs)"
  shows "acc_inv cfg a' \<and> (\<forall>b \<in> set bs. batch_ok cfg b) \<and>
    concat (map batch_operations bs) @ pending a' = pending a @ accepted"
  using assms
proof (induction es arbitrary: a accepted bs)
  case (Cons e es)
  show ?case
  proof (cases e)
    case (AccAdd op t)
    obtain acc' where r: "acc_run (fst (accumulator_add a op t)) es = (a', acc', bs)"
        "accepted = (if snd (accumulator_add a op t) then op # acc' else acc')"
      using Cons.prems(2) AccAdd by (auto simp: Let_def split: prod.splits)
    show ?thesis
      using Cons.IH [OF _ r(1)] acc_inv_add [OF Cons.prems(1), of op t] r(2) by (auto split: if_splits)
  next
    case (AccFlush t)
    obtain bs' where r: "acc_run (fst (accumulator_flush a t)) es = (a', accepted, bs')"
        "bs = (case snd (accumulator_flush a t) of None \<Rightarrow> bs' | Some b \<Rightarrow> b # bs')"
      using Cons.prems(2) AccFlush by (auto simp: Let_def split: prod.splits)
    show ?thesis
      using Cons.IH [OF _ r(1)] acc_inv_flush [OF Cons.prems(1), of t] flush_batch [OF Cons.prems(1), of t] r(2)
      by auto
  qed
qed simp

section \<open>Lemmas: message identifiers\<close>

lemma chunk_data_two:
  assumes "CHUNK_HEADER_SIZE < mtu" "k = mtu - CHUNK_HEADER_SIZE" "k < length d" "length d \<le> 2 * k"
  shows "chunk_data d mtu mid = [chunk_of mid [take k d, drop k d] 0, chunk_of mid [take k d, drop k d] 1]"
proof -
  have k: "0 < k" using assms by simp
  have "slice_chunks k d = [take k d, drop k d]"
    using k assms(3,4) slice_chunks_step [of k d] slice_chunks_step [of k "drop k d"]
    by (cases "d = []") (simp_all add: take_all)
  moreover have "d \<noteq> []" using assms(3) by auto
  ultimately have "payloads d mtu = [take k d, drop k d]" using assms(2) by (simp add: payloads_def)
  then show ?thesis using chunk_data_chunks [OF assms(1), of d mid] by simp
qed

lemma chunks_of_two_messages:
  assumes "bt_get (partials r) mid = None"
  shows "snd (reassemble_run r [(chunk_of mid [a1, a2] 0, t), (chunk_of mid [b1, b2] 1, u)])
    = [(mid, None), (mid, Some (a1 @ b2))]"
proof -
  define p where "p = \<lparr>part_total = 2, part_chunks = [(0, a1)], started_at = t\<rparr>"
  have "reassembler_process r (chunk_of mid [a1, a2] 0) t = (r\<lparr>partials := bt_insert mid p (partials r)\<rparr>, None)"
    using assms by (simp add: reassembler_process_def chunk_of_def Let_def p_def)
  moreover have "snd (reassembler_process (r\<lparr>partials := bt_insert mid p (partials r)\<rparr>) (chunk_of mid [b1, b2] 1) u)
    = Some (a1 @ b2)"
    proof -
    have "[0..<2] = [0, 1]" by (simp add: upt_rec)
    moreover have "bt_get [(0 :: u16, a1), (1, b2)] 0 = Some a1" "bt_get [(0 :: u16, a1), (1, b2)] 1 = Some b2"
      by (simp_all add: bt_get_def)
    ultimately show ?thesis by (simp add: reassembler_process_def chunk_of_def Let_def p_def)
  qed
  ultimately show ?thesis
    by (simp add: reassemble_run.simps case_prod_beta Let_def) (simp add: chunk_of_def)
qed

section \<open>Properties\<close>

text \<open>
  C13: a synchronised batch arrives exactly. When a node prepares a sync for a peer, and the
  chunks reach a receiver in any order, repeated while the message is incomplete, and mixed with
  chunks of other messages from any peers, then every call on a chunk of this message but the
  last returns no operations, and the call on the last missing chunk returns exactly the
  operations the delta filter left of the pending ones, in their order. No call panics.
\<close>

theorem sync_delivers:
  assumes "pending (gs_batch g) \<noteq> []" "ops \<noteq> []" "batch_sendable ops"
    and "ops = (if enable_delta (gs_config g) then filter_for_peer (gs_delta g) p (pending (gs_batch g))
                else pending (gs_batch g))"
    and "CHUNK_HEADER_SIZE < cfg_mtu (gs_config g)" "length (snd (prepare_sync g p)) < 2 ^ 16"
    and "bt_get (partials (rx_reassembler h)) (next_message_id g) = None"
    and "chunks_for (next_message_id g) (map snd evs) = cs @ [c]"
      "set (cs @ [c]) = set (snd (prepare_sync g p))" "c \<notin> set cs"
  shows "\<exists>h' outs. receive_run h evs = ret (h', outs) \<and>
    map snd (filter (\<lambda>e. fst e = next_message_id g) outs) = replicate (length cs) None @ [Some ops]"
  using sync_delivers_aux [OF assms] .

definition sync_witness_sender :: gatt_sync where
  "sync_witness_sender = fst (queue_operation (gatt_sync_new 1 sync_config_default) (IncrementCounter 0 1 5))"

lemma sync_witness_sender_simps:
  "pending (gs_batch sync_witness_sender) = [IncrementCounter 0 1 5]"
  "gs_config sync_witness_sender = sync_config_default"
  "gs_delta sync_witness_sender = delta_encoder_new 1"
  "next_message_id sync_witness_sender = 1"
  "gs_current_time_ms sync_witness_sender = 0"
  by (simp_all add: sync_witness_sender_def queue_operation_def gatt_sync_new_def accumulator_add_def
      accumulator_new_def Let_def sync_config_default_def batch_config_default_def)

lemma sync_witness_filter:
  "filter_for_peer (delta_encoder_new 1) 2 ops = ops"
  by (simp add: filter_for_peer_def delta_encoder_new_def bt_get_def)

lemma sync_witness_chunks:
  "snd (prepare_sync sync_witness_sender 2) =
    [chunk_of 1 [[1, 0, 14, 0, 3, 0, 1, 0, 0, 0, 5, 0, 0, 0, 0], [0, 0, 0]] 0,
     chunk_of 1 [[1, 0, 14, 0, 3, 0, 1, 0, 0, 0, 5, 0, 0, 0, 0], [0, 0, 0]] 1]"
proof -
  let ?e = "[1, 0, 14, 0, 3, 0, 1, 0, 0, 0, 5, 0, 0, 0, 0, 0, 0, 0] :: bytes"
  let ?b = "\<lparr>batch_operations = [IncrementCounter 0 1 5],
    total_bytes = sum_list (map crdt_op_size [IncrementCounter 0 1 5]), created_at = 0\<rparr>"
  have enc: "batch_encode ?b = ?e" by (simp add: batch_encode_def to_le_def upt_rec)
  have mtu: "CHUNK_HEADER_SIZE < 23" "15 = 23 - CHUNK_HEADER_SIZE" "15 < length ?e" "length ?e \<le> 2 * 15"
    by (simp_all add: CHUNK_HEADER_SIZE_def)
  have "snd (prepare_sync sync_witness_sender 2) = chunk_data (batch_encode ?b) 23 1"
    by (subst prepare_sync_chunks [of _ "[IncrementCounter 0 1 5]"])
      (simp_all only: sync_witness_sender_simps sync_witness_filter sync_config_default_def DEFAULT_MTU_def
        sync_config.select_convs list.distinct if_True if_False if_cancel simp_thms)
  also have "\<dots> = [chunk_of 1 [take 15 ?e, drop 15 ?e] 0, chunk_of 1 [take 15 ?e, drop 15 ?e] 1]"
    unfolding enc by (rule chunk_data_two [OF mtu])
  finally show ?thesis by simp
qed

theorem sync_delivers_witness:
  "\<exists>h' outs. receive_run (gatt_sync_new 2 sync_config_default)
      (map (\<lambda>c. (1, c, 7)) (rev (snd (prepare_sync sync_witness_sender 2)))) = ret (h', outs) \<and>
    map snd (filter (\<lambda>e. fst e = next_message_id sync_witness_sender) outs)
      = replicate 1 None @ [Some [IncrementCounter 0 1 5]]"
proof -
  let ?ds = "[[1, 0, 14, 0, 3, 0, 1, 0, 0, 0, 5, 0, 0, 0, 0], [0, 0, 0 :: u8]]"
  let ?evs = "map (\<lambda>c. (1 :: u32, c, 7)) (rev (snd (prepare_sync sync_witness_sender 2)))"
  have "\<exists>h' outs. receive_run (gatt_sync_new 2 sync_config_default) ?evs = ret (h', outs) \<and>
    map snd (filter (\<lambda>e. fst e = next_message_id sync_witness_sender) outs)
      = replicate (length [chunk_of 1 ?ds 1]) None @ [Some [IncrementCounter 0 1 5]]"
    by (rule sync_delivers [where p = 2 and c = "chunk_of 1 ?ds 0"])
      (simp_all only: sync_witness_chunks sync_witness_sender_simps sync_witness_filter,
       simp_all add: sync_config_default_def CHUNK_HEADER_SIZE_def DEFAULT_MTU_def batch_sendable_def
         gatt_sync_new_def reassembler_new_def bt_get_def chunks_for_def chunk_of_def insert_commute)
  then show ?thesis by simp
qed

text \<open>
  The accumulator is a bounded first-in first-out queue. Over any sequence of additions and
  flushes the batches given out, followed by what is pending, are exactly the accepted
  operations in order; every batch is non-empty, reports its exact size, holds at most
  \<open>max_operations\<close> operations and at most \<open>max_bytes\<close> bytes unless it is a single operation; the
  same limits hold of what is pending.
\<close>

theorem accumulator_fifo:
  assumes "acc_run (accumulator_new cfg) es = (a, accepted, bs)"
  shows "concat (map batch_operations bs) @ pending a = accepted \<and>
    (\<forall>b \<in> set bs. batch_ok cfg b) \<and> within_limits cfg (pending a)"
  using acc_run_fifo [OF acc_inv_new assms] by (simp add: accumulator_new_def acc_inv_def)

theorem accumulator_fifo_witness:
  "concat (map batch_operations (snd (snd (acc_run (accumulator_new (batch_config_default\<lparr>max_operations := 1\<rparr>))
      [AccAdd (IncrementCounter 0 1 5) 0, AccAdd (IncrementCounter 0 1 6) 1, AccFlush 2]))))
    = [IncrementCounter 0 1 5]"
proof -
  let ?cfg = "batch_config_default\<lparr>max_operations := 1\<rparr>"
  let ?r = "acc_run (accumulator_new ?cfg)
      [AccAdd (IncrementCounter 0 1 5) 0, AccAdd (IncrementCounter 0 1 6) 1, AccFlush 2]"
  have "fst (snd ?r) = [IncrementCounter 0 1 5]" "pending (fst ?r) = []"
    by (simp_all add: accumulator_new_def accumulator_add_def accumulator_flush_def batch_config_default_def Let_def)
  then show ?thesis
    using accumulator_fifo [of ?cfg _ "fst ?r" "fst (snd ?r)" "snd (snd ?r)"] by (metis append_Nil2 prod.collapse)
qed

text \<open>
  Messages of two senders are confused. Every node numbers its messages from 1, and partial
  messages are kept under the message number alone. When two nodes each send a two-chunk message
  with the same number, and the first chunk of one is followed by the second chunk of the other,
  the receiver completes a message that neither sent: the head of one and the tail of the other.
\<close>

theorem message_ids_collide:
  assumes "CHUNK_HEADER_SIZE < mtu" "k = mtu - CHUNK_HEADER_SIZE"
    and "k < length d1" "length d1 \<le> 2 * k" "k < length d2" "length d2 \<le> 2 * k"
  shows "next_message_id (gatt_sync_new n1 cfg1) = next_message_id (gatt_sync_new n2 cfg2) \<and>
    snd (reassemble_run reassembler_new [(chunk_data d1 mtu mid ! 0, t), (chunk_data d2 mtu mid ! 1, u)])
      = [(mid, None), (mid, Some (take k d1 @ drop k d2))]"
  using chunks_of_two_messages [of reassembler_new mid "take k d1" "drop k d1" t "take k d2" "drop k d2" u]
    chunk_data_two [OF assms(1-4), of mid] chunk_data_two [OF assms(1,2,5,6), of mid]
  by (simp add: gatt_sync_new_def reassembler_new_def bt_get_def)

theorem message_ids_collide_witness:
  "snd (reassemble_run reassembler_new [(chunk_data [1, 2, 3] 10 1 ! 0, 0), (chunk_data [4, 5, 6] 10 1 ! 1, 0)])
    = [(1, None), (1, Some [1, 2, 6])]"
  using message_ids_collide [of 10 2 "[1, 2, 3]" "[4, 5, 6]" 1 sync_config_default 2 sync_config_default 1 0 0]
  by (simp add: CHUNK_HEADER_SIZE_def)

text \<open>
  Preparing a sync for one peer takes the operations away from all others. Whatever is
  pending, after \<open>prepare_sync\<close> for a peer a second \<open>prepare_sync\<close>, for that or any other peer,
  returns no chunks: operations reach only the peer that is synchronised first.
\<close>

theorem prepare_sync_drains:
  "snd (prepare_sync (fst (prepare_sync g p)) q) = [] \<and> pending (gs_batch (fst (prepare_sync g p))) = []"
  by (auto simp: prepare_sync_def accumulator_flush_def Let_def)

end
