(* ===== verification/Node_Id.thy ===== *)
theory Node_Id
  imports Prelude
begin

text \<open>
  Node identity, from \<open>src/lib.rs\<close>: \<open>NodeId\<close> (a 32-bit number, printed as eight hexadecimal
  digits and read back from hexadecimal text or a Bluetooth MAC address), the capability flags of
  a beacon, and \<open>HierarchyLevel\<close>, the rank of a node in the mesh, as a linearly ordered type.

  A Rust \<open>str\<close> is the list of its bytes, a \<open>string\<close>. Main result: what is printed is read back.
\<close>

section \<open>Hexadecimal numbers\<close>

definition hex_digit :: "char \<Rightarrow> nat option" where
  "hex_digit c =
     (let n = (of_char c :: nat) in
      if 48 \<le> n \<and> n \<le> 57 then Some (n - 48)
      else if 65 \<le> n \<and> n \<le> 70 then Some (n - 55)
      else if 97 \<le> n \<and> n \<le> 102 then Some (n - 87)
      else None)"

fun hex_accumulate :: "nat \<Rightarrow> nat \<Rightarrow> string \<Rightarrow> nat option" where
  "hex_accumulate bound acc [] = Some acc"
| "hex_accumulate bound acc (c # cs) =
     (case hex_digit c of
        None \<Rightarrow> None
      | Some d \<Rightarrow> if acc * 16 + d < bound then hex_accumulate bound (acc * 16 + d) cs else None)"

text \<open>\<open>from_str_radix(s, 16)\<close> for an unsigned type of \<open>bound\<close> values: a sign \<open>+\<close> is allowed.\<close>

definition from_str_radix16 :: "nat \<Rightarrow> string \<Rightarrow> nat option" where
  "from_str_radix16 bound s =
     (if s = [] \<or> s = ''+'' then None
      else if hd s = CHR ''+'' then hex_accumulate bound 0 (tl s)
      else hex_accumulate bound 0 s)"

definition upper_hex_char :: "nat \<Rightarrow> char" where
  "upper_hex_char d = (if d < 10 then char_of (48 + d) else char_of (55 + d))"

fun trim_start_0x :: "char \<Rightarrow> string \<Rightarrow> string" where
  "trim_start_0x x (a # b # s) =
     (if a = CHR ''0'' \<and> b = x then trim_start_0x x s else a # b # s)"
| "trim_start_0x x s = s"

fun split_on :: "char \<Rightarrow> string \<Rightarrow> string list" where
  "split_on c [] = [[]]"
| "split_on c (a # s) =
     (if a = c then [] # split_on c s
      else case split_on c s of [] \<Rightarrow> [[a]] | p # ps \<Rightarrow> (a # p) # ps)"

section \<open>NodeId\<close>

type_synonym node_id = u32

definition node_id_parse :: "string \<Rightarrow> node_id option" where
  "node_id_parse s =
     map_option word_of_nat
       (from_str_radix16 (2 ^ 32) (trim_start_0x (CHR ''X'') (trim_start_0x (CHR ''x'') s)))"

definition node_id_display :: "node_id \<Rightarrow> string" where
  "node_id_display n = map (\<lambda>i. upper_hex_char (unat n div 16 ^ i mod 16)) (rev [0..<8])"

definition from_mac_address :: "u8 list \<Rightarrow> node_id" where
  "from_mac_address mac =
     push_bit 24 (ucast (mac ! 2)) OR push_bit 16 (ucast (mac ! 3)) OR push_bit 8 (ucast (mac ! 4))
     OR ucast (mac ! 5)"

definition from_mac_string :: "string \<Rightarrow> node_id option" where
  "from_mac_string mac_str =
     (let parts = split_on (CHR '':'') mac_str in
      if length parts \<noteq> 6 then None
      else
        let bs = map (from_str_radix16 (2 ^ 8)) parts in
        if None \<in> set bs then None else Some (from_mac_address (map (word_of_nat \<circ> the) bs)))"

section \<open>Capabilities and hierarchy\<close>

definition LITE_NODE :: u16 where "LITE_NODE = 0x0001"
definition SENSOR_ACCEL :: u16 where "SENSOR_ACCEL = 0x0002"
definition SENSOR_TEMP :: u16 where "SENSOR_TEMP = 0x0004"
definition SENSOR_BUTTON :: u16 where "SENSOR_BUTTON = 0x0008"
definition ACTUATOR_LED :: u16 where "ACTUATOR_LED = 0x0010"
definition ACTUATOR_VIBRATE :: u16 where "ACTUATOR_VIBRATE = 0x0020"
definition HAS_DISPLAY :: u16 where "HAS_DISPLAY = 0x0040"
definition CAN_RELAY :: u16 where "CAN_RELAY = 0x0080"
definition CODED_PHY :: u16 where "CODED_PHY = 0x0100"
definition HAS_GPS :: u16 where "HAS_GPS = 0x0200"

datatype hierarchy_level = Platform | Squad | Platoon | Company

primrec level_to_u8 :: "hierarchy_level \<Rightarrow> u8" where
  "level_to_u8 Platform = 0"
| "level_to_u8 Squad = 1"
| "level_to_u8 Platoon = 2"
| "level_to_u8 Company = 3"

definition level_from_u8 :: "u8 \<Rightarrow> hierarchy_level" where
  "level_from_u8 v =
     (if v = 0 then Platform else if v = 1 then Squad else if v = 2 then Platoon
      else if v = 3 then Company else Platform)"

lemma level_roundtrip [simp]: "level_from_u8 (level_to_u8 l) = l"
  by (cases l) (simp_all add: level_from_u8_def)

instantiation hierarchy_level :: linorder
begin

definition less_eq_hierarchy_level :: "hierarchy_level \<Rightarrow> hierarchy_level \<Rightarrow> bool" where
  "less_eq_hierarchy_level a b \<longleftrightarrow> level_to_u8 a \<le> level_to_u8 b"

definition less_hierarchy_level :: "hierarchy_level \<Rightarrow> hierarchy_level \<Rightarrow> bool" where
  "less_hierarchy_level a b \<longleftrightarrow> level_to_u8 a < level_to_u8 b"

instance
proof
  fix a b :: hierarchy_level
  assume "a \<le> b" "b \<le> a"
  then have "level_to_u8 a = level_to_u8 b" by (simp add: less_eq_hierarchy_level_def)
  then show "a = b" by (metis level_roundtrip)
qed (auto simp: less_eq_hierarchy_level_def less_hierarchy_level_def)

end

lemmas level_order = less_eq_hierarchy_level_def less_hierarchy_level_def

section \<open>Errors\<close>

datatype ble_error =
  AdapterNotAvailable
| NotPowered
| PermissionDenied string
| NotSupported string
| ConnectionFailed string
| ConnectionLost string
| DiscoveryFailed string
| GattError string
| CharacteristicNotFound string
| ServiceNotFound string
| MtuNegotiationFailed u16 u16
| SecurityError string
| PairingFailed string
| SyncError string
| PlatformError string
| Timeout
| InvalidConfig string
| InvalidState string
| ResourceExhausted string
| IoError string

type_synonym 'a ble_result = "ble_error + 'a"

section \<open>Lemmas\<close>

lemma of_char_of_small: "n < 256 \<Longrightarrow> (of_char (char_of n) :: nat) = n"
  by simp

lemma hex_digit_upper: "d < 16 \<Longrightarrow> hex_digit (upper_hex_char d) = Some d"
  by (cases "d < 10") (simp_all add: hex_digit_def upper_hex_char_def Let_def)

lemma hex_accumulate_digits:
  assumes "acc * 16 ^ k + n mod 16 ^ k < bound"
  shows "hex_accumulate bound acc (map (\<lambda>i. upper_hex_char (n div 16 ^ i mod 16)) (rev [0..<k]))
    = Some (acc * 16 ^ k + n mod 16 ^ k)"
  using assms
proof (induction k arbitrary: acc)
  case (Suc k)
  let ?d = "n div 16 ^ k mod 16"
  have split: "n mod 16 ^ Suc k = ?d * 16 ^ k + n mod 16 ^ k"
    using mod_mult2_eq [of n "16 ^ k" 16] by (simp add: mult.commute)
  have eq: "acc * 16 ^ Suc k + n mod 16 ^ Suc k = (acc * 16 + ?d) * 16 ^ k + n mod 16 ^ k"
    unfolding split by (simp add: algebra_simps)
  have "acc * 16 + ?d \<le> (acc * 16 + ?d) * 16 ^ k" by simp
  then have "acc * 16 + ?d < bound" using Suc.prems unfolding eq by linarith
  then show ?case
    using Suc.IH [of "acc * 16 + ?d"] Suc.prems unfolding eq by (simp add: hex_digit_upper)
qed simp

lemma upper_hex_char_neq:
  assumes "d < 16"
  shows "upper_hex_char d \<noteq> CHR ''x''" "upper_hex_char d \<noteq> CHR ''X''" "upper_hex_char d \<noteq> CHR ''+''"
proof -
  have "hex_digit (upper_hex_char d) = Some d" using assms by (rule hex_digit_upper)
  moreover have "hex_digit (CHR ''x'') = None" "hex_digit (CHR ''X'') = None" "hex_digit (CHR ''+'') = None"
    by (simp_all add: hex_digit_def)
  ultimately show "upper_hex_char d \<noteq> CHR ''x''" "upper_hex_char d \<noteq> CHR ''X''" "upper_hex_char d \<noteq> CHR ''+''"
    by auto
qed

lemma trim_start_0x_id: "x \<notin> set s \<Longrightarrow> trim_start_0x x s = s"
  by (induction x s rule: trim_start_0x.induct) auto

lemma node_id_parse_display_aux: "node_id_parse (node_id_display n) = Some n"
proof -
  let ?s = "node_id_display n"
  have chars: "CHR ''x'' \<notin> set ?s" "CHR ''X'' \<notin> set ?s" "CHR ''+'' \<notin> set ?s"
    by (simp_all add: node_id_display_def image_iff upper_hex_char_neq [THEN not_sym])
  have "unat n < 16 ^ 8" using unat_less [of n] by simp
  then have "hex_accumulate (2 ^ 32) 0 ?s = Some (unat n)"
    using hex_accumulate_digits [of 0 8 "unat n" "2 ^ 32"] by (simp add: node_id_display_def)
  moreover have "?s \<noteq> []" by (simp add: node_id_display_def)
  moreover from this have "hd ?s \<noteq> CHR ''+''" using chars(3) hd_in_set by metis
  ultimately show ?thesis
    using chars by (auto simp: node_id_parse_def trim_start_0x_id from_str_radix16_def)
qed

end
