(* ===== verification/Mesh_Topology.thy ===== *)
theory Mesh_Topology
  imports Node_Id Ordered_Map
begin

text \<open>
  The mesh topology a node keeps (\<open>src/mesh/topology.rs\<close>), the routing decisions taken on it
  (\<open>src/mesh/routing.rs\<close>) and the beacon data they use. Signal strengths are \<open>i8\<close> values, bytes
  read as signed; the candidate score is computed over the integers, since its value stays in
  \<open>i32\<close> (lemma \<open>candidate_score_bounds\<close>).
\<close>

section \<open>Peers\<close>

datatype connection_state = Disconnected | Connecting | Connected | Disconnecting
datatype peer_role = Parent | Child | Peer

record peer_info =
  pi_node_id :: node_id
  pi_role :: peer_role
  pi_state :: connection_state
  pi_level :: hierarchy_level
  pi_rssi :: "i8 option"
  pi_connected_at :: "u64 option"
  pi_messages_received :: u32
  pi_messages_sent :: u32
  pi_failure_count :: u8
  pi_last_seen_ms :: u64

definition peer_info_new :: "node_id \<Rightarrow> peer_role \<Rightarrow> hierarchy_level \<Rightarrow> peer_info" where
  "peer_info_new n r l =
     \<lparr>pi_node_id = n, pi_role = r, pi_state = Disconnected, pi_level = l, pi_rssi = None,
      pi_connected_at = None, pi_messages_received = 0, pi_messages_sent = 0, pi_failure_count = 0,
      pi_last_seen_ms = 0\<rparr>"

definition pi_is_connected :: "peer_info \<Rightarrow> bool" where
  "pi_is_connected p \<longleftrightarrow> pi_state p = Connected"

definition pi_update_rssi :: "peer_info \<Rightarrow> i8 \<Rightarrow> peer_info" where
  "pi_update_rssi p r = p\<lparr>pi_rssi := Some r\<rparr>"

definition pi_record_failure :: "peer_info \<Rightarrow> peer_info" where
  "pi_record_failure p = p\<lparr>pi_failure_count := sat_add (pi_failure_count p) 1\<rparr>"

definition pi_reset_failures :: "peer_info \<Rightarrow> peer_info" where
  "pi_reset_failures p = p\<lparr>pi_failure_count := 0\<rparr>"

section \<open>Topology\<close>

record mesh_topology =
  parent :: "node_id option"
  children :: "node_id list"
  peers :: "node_id list"
  my_level :: hierarchy_level
  max_children :: u8
  max_connections :: u8

definition topology_new :: "hierarchy_level \<Rightarrow> u8 \<Rightarrow> u8 \<Rightarrow> mesh_topology" where
  "topology_new l mc mx =
     \<lparr>parent = None, children = [], peers = [], my_level = l, max_children = mc, max_connections = mx\<rparr>"

definition connection_count :: "mesh_topology \<Rightarrow> nat" where
  "connection_count t = (if parent t \<noteq> None then 1 else 0) + length (children t) + length (peers t)"

definition can_accept_connection :: "mesh_topology \<Rightarrow> bool" where
  "can_accept_connection t \<longleftrightarrow> connection_count t < unat (max_connections t)"

definition can_accept_child :: "mesh_topology \<Rightarrow> bool" where
  "can_accept_child t \<longleftrightarrow> length (children t) < unat (max_children t) \<and> can_accept_connection t"

definition has_parent :: "mesh_topology \<Rightarrow> bool" where
  "has_parent t \<longleftrightarrow> parent t \<noteq> None"

definition set_parent :: "mesh_topology \<Rightarrow> node_id \<Rightarrow> mesh_topology \<times> bool" where
  "set_parent t n =
     (if parent t \<noteq> None then (t, False)
      else if \<not> can_accept_connection t then (t, False)
      else (t\<lparr>parent := Some n\<rparr>, True))"

definition clear_parent :: "mesh_topology \<Rightarrow> mesh_topology \<times> node_id option" where
  "clear_parent t = (t\<lparr>parent := None\<rparr>, parent t)"

definition add_child :: "mesh_topology \<Rightarrow> node_id \<Rightarrow> mesh_topology \<times> bool" where
  "add_child t n =
     (if \<not> can_accept_child t then (t, False)
      else if n \<in> set (children t) then (t, False)
      else (t\<lparr>children := children t @ [n]\<rparr>, True))"

definition remove_child :: "mesh_topology \<Rightarrow> node_id \<Rightarrow> mesh_topology \<times> bool" where
  "remove_child t n =
     (if n \<in> set (children t) then (t\<lparr>children := remove1 n (children t)\<rparr>, True) else (t, False))"

definition topo_add_peer :: "mesh_topology \<Rightarrow> node_id \<Rightarrow> mesh_topology \<times> bool" where
  "topo_add_peer t n =
     (if \<not> can_accept_connection t then (t, False)
      else if n \<in> set (peers t) then (t, False)
      else (t\<lparr>peers := peers t @ [n]\<rparr>, True))"

definition topo_remove_peer :: "mesh_topology \<Rightarrow> node_id \<Rightarrow> mesh_topology \<times> bool" where
  "topo_remove_peer t n =
     (if n \<in> set (peers t) then (t\<lparr>peers := remove1 n (peers t)\<rparr>, True) else (t, False))"

definition all_connected :: "mesh_topology \<Rightarrow> node_id list" where
  "all_connected t = (case parent t of None \<Rightarrow> [] | Some p \<Rightarrow> [p]) @ children t @ peers t"

definition is_connected :: "mesh_topology \<Rightarrow> node_id \<Rightarrow> bool" where
  "is_connected t n \<longleftrightarrow> parent t = Some n \<or> n \<in> set (children t) \<or> n \<in> set (peers t)"

definition get_role :: "mesh_topology \<Rightarrow> node_id \<Rightarrow> peer_role option" where
  "get_role t n =
     (if parent t = Some n then Some Parent
      else if n \<in> set (children t) then Some Child
      else if n \<in> set (peers t) then Some Peer
      else None)"

section \<open>Events, candidates, configuration\<close>

datatype disconnect_reason =
  Requested | TimedOut | RemoteDisconnect | SupervisionTimeout | LinkLoss | LocalError | UnknownReason

datatype topology_event =
  ParentConnected node_id hierarchy_level "i8 option"
| ParentDisconnected node_id disconnect_reason
| ChildConnected node_id hierarchy_level
| ChildDisconnected node_id disconnect_reason
| PeerConnected node_id
| PeerDisconnected node_id disconnect_reason
| TopologyChanged nat nat bool
| ParentFailoverStarted node_id
| ParentFailoverCompleted node_id "node_id option"
| ConnectionQualityChanged node_id i8

record parent_candidate =
  pc_node_id :: node_id
  pc_level :: hierarchy_level
  pc_rssi :: i8
  pc_age_ms :: u64
  pc_failure_count :: u8

primrec ideal_parent_level :: "hierarchy_level \<Rightarrow> hierarchy_level" where
  "ideal_parent_level Platform = Squad"
| "ideal_parent_level Squad = Platoon"
| "ideal_parent_level Platoon = Company"
| "ideal_parent_level Company = Company"

definition candidate_score :: "parent_candidate \<Rightarrow> hierarchy_level \<Rightarrow> int" where
  "candidate_score c l =
     (sint (pc_rssi c) + 100) * 2
     + (if pc_age_ms c < 1000 then 20 else if pc_age_ms c < 3000 then 10
        else if pc_age_ms c < 5000 then 5 else 0)
     - uint (pc_failure_count c) * 15
     + (if pc_level c = ideal_parent_level l then 30 else if pc_level c > l then 15 else 0)"

record topology_config =
  tc_max_children :: u8
  tc_max_connections :: u8
  min_parent_rssi :: i8
  max_beacon_age_ms :: u64
  parent_timeout_ms :: u64
  connect_timeout_ms :: u64
  max_failures :: u8
  failover_delay_ms :: u64
  rssi_hysteresis :: u8

definition topology_config_default :: topology_config where
  "topology_config_default =
     \<lparr>tc_max_children = 3, tc_max_connections = 7, min_parent_rssi = - 85, max_beacon_age_ms = 10000,
      parent_timeout_ms = 5000, connect_timeout_ms = 10000, max_failures = 3, failover_delay_ms = 1000,
      rssi_hysteresis = 6\<rparr>"

section \<open>Routing\<close>

datatype route_direction = Upward | Downward | Broadcast | Targeted u32
datatype route_failure = NoParent | NoChildren | TargetNotFound | NoPeers | TtlExpired | MessageTooLarge

record route_decision =
  next_hops :: "node_id list"
  local_copy :: bool
  routed :: bool
  failure_reason :: "route_failure option"

definition route_success :: "node_id list \<Rightarrow> bool \<Rightarrow> route_decision" where
  "route_success hops lc = \<lparr>next_hops = hops, local_copy = lc, routed = True, failure_reason = None\<rparr>"

definition route_failed :: "route_failure \<Rightarrow> route_decision" where
  "route_failed r = \<lparr>next_hops = [], local_copy = False, routed = False, failure_reason = Some r\<rparr>"

definition route_local_only :: route_decision where
  "route_local_only = \<lparr>next_hops = [], local_copy = True, routed = True, failure_reason = None\<rparr>"

record mesh_router =
  router_node_id :: node_id
  router_level :: hierarchy_level

definition route_upward :: "mesh_topology \<Rightarrow> route_decision" where
  "route_upward t = (case parent t of Some p \<Rightarrow> route_success [p] True | None \<Rightarrow> route_failed NoParent)"

definition route_downward :: "mesh_topology \<Rightarrow> route_decision" where
  "route_downward t = (if children t = [] then route_failed NoChildren else route_success (children t) True)"

definition route_broadcast :: "mesh_topology \<Rightarrow> route_decision" where
  "route_broadcast t =
     (let hops = all_connected t in if hops = [] then route_failed NoPeers else route_success hops True)"

definition route_targeted :: "node_id \<Rightarrow> mesh_topology \<Rightarrow> route_decision" where
  "route_targeted target t =
     (if is_connected t target then route_success [target] False
      else case parent t of
             Some p \<Rightarrow> route_success [p] False
           | None \<Rightarrow> if children t \<noteq> [] then route_success (children t) False
                     else route_failed TargetNotFound)"

primrec route :: "route_direction \<Rightarrow> mesh_topology \<Rightarrow> route_decision" where
  "route Upward t = route_upward t"
| "route Downward t = route_downward t"
| "route Broadcast t = route_broadcast t"
| "route (Targeted target) t = route_targeted target t"

definition handle_received ::
  "mesh_router \<Rightarrow> node_id \<Rightarrow> node_id option \<Rightarrow> route_direction \<Rightarrow> mesh_topology \<Rightarrow> route_decision" where
  "handle_received r source destination direction t =
     (if destination = Some (router_node_id r) then route_local_only
      else case direction of
        Upward \<Rightarrow> route_upward t
      | Downward \<Rightarrow>
          (let cs = filter (\<lambda>c. c \<noteq> source) (children t)
           in if cs = [] then route_local_only else route_success cs True)
      | Broadcast \<Rightarrow> route_success (filter (\<lambda>n. n \<noteq> source) (all_connected t)) True
      | Targeted target \<Rightarrow>
          if target = router_node_id r then route_local_only else route_targeted target t)"

definition aggregation_route :: "mesh_topology \<Rightarrow> node_id option" where
  "aggregation_route t = parent t"

definition dissemination_routes :: "mesh_topology \<Rightarrow> node_id list" where
  "dissemination_routes t = children t"

record hop_tracker =
  ht_max_hops :: u8
  visited :: "node_id list"

definition hop_tracker_new :: "u8 \<Rightarrow> hop_tracker" where
  "hop_tracker_new m = \<lparr>ht_max_hops = m, visited = []\<rparr>"

definition hop_visit :: "hop_tracker \<Rightarrow> node_id \<Rightarrow> hop_tracker \<times> bool" where
  "hop_visit h n =
     (if n \<in> set (visited h) then (h, False)
      else if length (visited h) \<ge> unat (ht_max_hops h) then (h, False)
      else (h\<lparr>visited := visited h @ [n]\<rparr>, True))"

definition has_visited :: "hop_tracker \<Rightarrow> node_id \<Rightarrow> bool" where
  "has_visited h n \<longleftrightarrow> n \<in> set (visited h)"

definition remaining_hops :: "hop_tracker \<Rightarrow> u8" where
  "remaining_hops h = sat_sub (ht_max_hops h) (word_of_nat (length (visited h)))"

definition hop_is_expired :: "hop_tracker \<Rightarrow> bool" where
  "hop_is_expired h \<longleftrightarrow> length (visited h) \<ge> unat (ht_max_hops h)"

section \<open>Lemmas\<close>

lemma candidate_score_bounds: "- 4000 \<le> candidate_score c l \<and> candidate_score c l \<le> 600"
proof -
  define s f where "s = sint (pc_rssi c)" and "f = uint (pc_failure_count c)"
  have "- 128 \<le> s" "s < 128"
    using sint_ge [of "pc_rssi c"] sint_lt [of "pc_rssi c"] by (simp_all add: s_def)
  moreover have "0 \<le> f" "f < 256"
    using uint_lt2p [of "pc_failure_count c"] by (simp_all add: f_def)
  ultimately show ?thesis unfolding candidate_score_def s_def [symmetric] f_def [symmetric] by auto
qed

definition topology_wf :: "mesh_topology \<Rightarrow> bool" where
  "topology_wf t \<longleftrightarrow> connection_count t \<le> unat (max_connections t) \<and>
     length (children t) \<le> unat (max_children t) \<and> distinct (children t) \<and> distinct (peers t)"

lemmas topology_ops = set_parent_def clear_parent_def add_child_def remove_child_def topo_add_peer_def
  topo_remove_peer_def connection_count_def can_accept_connection_def can_accept_child_def

lemma topology_wf_ops:
  "topology_wf (topology_new l mc mx)"
  "topology_wf t \<Longrightarrow> topology_wf (fst (set_parent t n))"
  "topology_wf t \<Longrightarrow> topology_wf (fst (clear_parent t))"
  "topology_wf t \<Longrightarrow> topology_wf (fst (add_child t n))"
  "topology_wf t \<Longrightarrow> topology_wf (fst (remove_child t n))"
  "topology_wf t \<Longrightarrow> topology_wf (fst (topo_add_peer t n))"
  "topology_wf t \<Longrightarrow> topology_wf (fst (topo_remove_peer t n))"
  by (auto simp: topology_wf_def topology_new_def topology_ops length_remove1 split: if_splits)

lemma is_connected_iff: "is_connected t n \<longleftrightarrow> n \<in> set (all_connected t)"
  by (auto simp: is_connected_def all_connected_def split: option.split)

lemma get_role_connected: "get_role t n \<noteq> None \<longleftrightarrow> is_connected t n"
  by (simp add: get_role_def is_connected_def)

lemma length_all_connected: "length (all_connected t) = connection_count t"
  by (auto simp: all_connected_def connection_count_def split: option.split)

lemma route_next_hops_connected: "set (next_hops (route d t)) \<subseteq> set (all_connected t)"
  by (cases d) (auto simp: route_upward_def route_downward_def route_broadcast_def route_targeted_def Let_def
      route_success_def route_failed_def is_connected_iff all_connected_def split: option.split)

lemma route_failed_iff: "\<not> routed (route d t) \<longleftrightarrow> next_hops (route d t) = []"
  by (cases d) (auto simp: route_upward_def route_downward_def route_broadcast_def route_targeted_def Let_def
      route_success_def route_failed_def split: option.split)

lemma handle_received_hops_connected:
  "set (next_hops (handle_received r s dst d t)) \<subseteq> set (all_connected t)"
  using route_next_hops_connected [of d t]
  by (auto simp: handle_received_def route_local_only_def Let_def route_success_def all_connected_def
      split: route_direction.splits)

lemma broadcast_skips_source:
  "destination \<noteq> Some (router_node_id r) \<Longrightarrow>
   next_hops (handle_received r s destination Broadcast t) = filter (\<lambda>n. n \<noteq> s) (all_connected t)"
  by (simp add: handle_received_def route_success_def)

lemma targeted_bounces:
  assumes "parent t = Some s" "\<not> is_connected t target" "target \<noteq> router_node_id r"
    "destination \<noteq> Some (router_node_id r)"
  shows "next_hops (handle_received r s destination (Targeted target) t) = [s]"
  using assms by (simp add: handle_received_def route_targeted_def route_success_def)

fun hop_run :: "hop_tracker \<Rightarrow> node_id list \<Rightarrow> hop_tracker \<times> bool list" where
  "hop_run h [] = (h, [])"
| "hop_run h (n # ns) = (let (h1, ok) = hop_visit h n; (h2, oks) = hop_run h1 ns in (h2, ok # oks))"

lemma hop_run_visited:
  assumes "distinct (visited h)" "length (visited h) \<le> unat (ht_max_hops h)"
  shows "distinct (visited (fst (hop_run h ns))) \<and>
    length (visited h) + count_list (snd (hop_run h ns)) True = length (visited (fst (hop_run h ns))) \<and>
    length (visited (fst (hop_run h ns))) \<le> unat (ht_max_hops h)"
  using assms
proof (induction ns arbitrary: h)
  case (Cons n ns)
  let ?h = "fst (hop_visit h n)"
  have "distinct (visited ?h)" "length (visited ?h) \<le> unat (ht_max_hops ?h)" "ht_max_hops ?h = ht_max_hops h"
    "length (visited ?h) = length (visited h) + (if snd (hop_visit h n) then 1 else 0)"
    using Cons.prems by (auto simp: hop_visit_def)
  then show ?case using Cons.IH [of ?h] by (auto simp: case_prod_beta Let_def)
qed simp

lemma remaining_hops_exact:
  assumes "length (visited h) \<le> unat (ht_max_hops h)"
  shows "unat (remaining_hops h) = unat (ht_max_hops h) - length (visited h)"
proof -
  have "length (visited h) < 2 ^ 8" using assms unat_less [of "ht_max_hops h"] by simp
  then show ?thesis by (simp add: remaining_hops_def unat_sat_sub unat_of_nat)
qed

end
