(* ===== verification/Beacon.thy ===== *)
theory Beacon
  imports Node_Id Ordered_Map
begin

text \<open>
  Beacons: the plaintext beacon in its full and compact formats (\<open>src/discovery/beacon.rs\<close>) and the
  encrypted beacon (\<open>src/discovery/encrypted_beacon.rs\<close>). The hash functions of the \<open>blake3\<close> crate
  are parameters: \<open>hash\<close> and \<open>keyed_hash key\<close>, both returning 32 bytes. The nonce, drawn from the
  system's random source in the code, is an argument.

  Main results: both plaintext formats and the encrypted format are read back; an encrypted beacon
  is accepted exactly when its tag is right, and its public fields are not covered by the tag.
\<close>

section \<open>Plaintext beacons\<close>

definition BEACON_VERSION :: u8 where "BEACON_VERSION = 1"
definition BEACON_SIZE :: nat where "BEACON_SIZE = 16"
definition BEACON_COMPACT_SIZE :: nat where "BEACON_COMPACT_SIZE = 10"

record peat_beacon =
  bc_version :: u8
  bc_capabilities :: u16
  bc_node_id :: node_id
  bc_hierarchy_level :: hierarchy_level
  bc_geohash :: u32
  bc_battery_percent :: u8
  bc_seq_num :: u16

definition beacon_new :: "node_id \<Rightarrow> peat_beacon" where
  "beacon_new n =
     \<lparr>bc_version = BEACON_VERSION, bc_capabilities = 0, bc_node_id = n, bc_hierarchy_level = Platform,
      bc_geohash = 0, bc_battery_percent = 255, bc_seq_num = 0\<rparr>"

definition beacon_peat_lite :: "node_id \<Rightarrow> peat_beacon" where
  "beacon_peat_lite n =
     \<lparr>bc_version = BEACON_VERSION, bc_capabilities = LITE_NODE, bc_node_id = n,
      bc_hierarchy_level = Platform, bc_geohash = 0, bc_battery_percent = 255, bc_seq_num = 0\<rparr>"

definition beacon_with_capabilities :: "peat_beacon \<Rightarrow> u16 \<Rightarrow> peat_beacon" where
  "beacon_with_capabilities b c = b\<lparr>bc_capabilities := c\<rparr>"

definition beacon_with_hierarchy_level :: "peat_beacon \<Rightarrow> hierarchy_level \<Rightarrow> peat_beacon" where
  "beacon_with_hierarchy_level b l = b\<lparr>bc_hierarchy_level := l\<rparr>"

definition beacon_with_geohash :: "peat_beacon \<Rightarrow> u32 \<Rightarrow> peat_beacon" where
  "beacon_with_geohash b g = b\<lparr>bc_geohash := g AND 0x00FFFFFF\<rparr>"

definition beacon_with_battery :: "peat_beacon \<Rightarrow> u8 \<Rightarrow> peat_beacon" where
  "beacon_with_battery b p = b\<lparr>bc_battery_percent := min p 100\<rparr>"

definition beacon_increment_seq :: "peat_beacon \<Rightarrow> peat_beacon" where
  "beacon_increment_seq b = b\<lparr>bc_seq_num := bc_seq_num b + 1\<rparr>"

definition version_caps_byte :: "u8 \<Rightarrow> u16 \<Rightarrow> u8" where
  "version_caps_byte v c = push_bit 4 (v AND 0x0F) OR (ucast (drop_bit 8 c) AND 0x0F)"

definition decode_version :: "u8 \<Rightarrow> u8" where
  "decode_version b0 = drop_bit 4 b0 AND 0x0F"

definition beacon_head :: "peat_beacon \<Rightarrow> bytes" where
  "beacon_head b =
     [version_caps_byte (bc_version b) (bc_capabilities b), ucast (bc_capabilities b AND 0xFF),
      ucast (drop_bit 24 (bc_node_id b)), ucast (drop_bit 16 (bc_node_id b)),
      ucast (drop_bit 8 (bc_node_id b)), ucast (bc_node_id b),
      level_to_u8 (bc_hierarchy_level b)]"

definition beacon_encode :: "peat_beacon \<Rightarrow> bytes" where
  "beacon_encode b =
     beacon_head b
     @ [ucast (drop_bit 16 (bc_geohash b)), ucast (drop_bit 8 (bc_geohash b)), ucast (bc_geohash b),
        bc_battery_percent b, ucast (drop_bit 8 (bc_seq_num b)), ucast (bc_seq_num b), 0, 0, 0]"

definition beacon_encode_compact :: "peat_beacon \<Rightarrow> bytes" where
  "beacon_encode_compact b =
     beacon_head b
     @ [bc_battery_percent b, ucast (drop_bit 8 (bc_seq_num b)), ucast (bc_seq_num b)]"

definition decode_capabilities :: "u8 \<Rightarrow> u8 \<Rightarrow> u16" where
  "decode_capabilities b0 b1 = push_bit 8 (ucast b0 AND 0x0F) OR ucast b1"

definition decode_be32 :: "u8 \<Rightarrow> u8 \<Rightarrow> u8 \<Rightarrow> u8 \<Rightarrow> u32" where
  "decode_be32 a b c d = push_bit 24 (ucast a) OR push_bit 16 (ucast b) OR push_bit 8 (ucast c) OR ucast d"

definition decode_be24 :: "u8 \<Rightarrow> u8 \<Rightarrow> u8 \<Rightarrow> u32" where
  "decode_be24 a b c = push_bit 16 (ucast a) OR push_bit 8 (ucast b) OR ucast c"

definition decode_be16 :: "u8 \<Rightarrow> u8 \<Rightarrow> u16" where
  "decode_be16 a b = push_bit 8 (ucast a) OR ucast b"

definition beacon_decode :: "bytes \<Rightarrow> peat_beacon option" where
  "beacon_decode data =
     (if length data < BEACON_SIZE then None
      else Some \<lparr>bc_version = decode_version (data ! 0),
                 bc_capabilities = decode_capabilities (data ! 0) (data ! 1),
                 bc_node_id = decode_be32 (data ! 2) (data ! 3) (data ! 4) (data ! 5),
                 bc_hierarchy_level = level_from_u8 (data ! 6),
                 bc_geohash = decode_be24 (data ! 7) (data ! 8) (data ! 9),
                 bc_battery_percent = data ! 10,
                 bc_seq_num = decode_be16 (data ! 11) (data ! 12)\<rparr>)"

definition beacon_decode_compact :: "bytes \<Rightarrow> peat_beacon option" where
  "beacon_decode_compact data =
     (if length data < BEACON_COMPACT_SIZE then None
      else Some \<lparr>bc_version = decode_version (data ! 0),
                 bc_capabilities = decode_capabilities (data ! 0) (data ! 1),
                 bc_node_id = decode_be32 (data ! 2) (data ! 3) (data ! 4) (data ! 5),
                 bc_hierarchy_level = level_from_u8 (data ! 6),
                 bc_geohash = 0,
                 bc_battery_percent = data ! 7,
                 bc_seq_num = decode_be16 (data ! 8) (data ! 9)\<rparr>)"

definition is_lite_node :: "peat_beacon \<Rightarrow> bool" where
  "is_lite_node b \<longleftrightarrow> bc_capabilities b AND LITE_NODE \<noteq> 0"

definition beacon_can_relay :: "peat_beacon \<Rightarrow> bool" where
  "beacon_can_relay b \<longleftrightarrow> bc_capabilities b AND CAN_RELAY \<noteq> 0"

definition supports_coded_phy :: "peat_beacon \<Rightarrow> bool" where
  "supports_coded_phy b \<longleftrightarrow> bc_capabilities b AND CODED_PHY \<noteq> 0"

section \<open>Encrypted beacons\<close>

definition ENCRYPTED_BEACON_VERSION :: u8 where "ENCRYPTED_BEACON_VERSION = 0x02"
definition ENCRYPTED_BEACON_SIZE :: nat where "ENCRYPTED_BEACON_SIZE = 21"
definition ENCRYPTED_IDENTITY_SIZE :: nat where "ENCRYPTED_IDENTITY_SIZE = 8"
definition MAC_SIZE :: nat where "MAC_SIZE = 4"
definition NONCE_SIZE :: nat where "NONCE_SIZE = 4"

type_synonym hash_fn = "bytes \<Rightarrow> bytes"
type_synonym keyed_hash_fn = "bytes \<Rightarrow> bytes \<Rightarrow> bytes"

definition derive_keystream :: "hash_fn \<Rightarrow> bytes \<Rightarrow> bytes \<Rightarrow> bytes" where
  "derive_keystream hash key nonce = take ENCRYPTED_IDENTITY_SIZE (hash (key @ nonce))"

definition compute_mac :: "keyed_hash_fn \<Rightarrow> bytes \<Rightarrow> bytes \<Rightarrow> bytes \<Rightarrow> bytes" where
  "compute_mac keyed key nonce encrypted = take MAC_SIZE (keyed key (nonce @ encrypted))"

record encrypted_beacon =
  eb_node_id :: node_id
  eb_capabilities :: u16
  eb_hierarchy_level :: u8
  eb_battery_percent :: u8

definition be32 :: "u32 \<Rightarrow> bytes" where
  "be32 w = [ucast (drop_bit 24 w), ucast (drop_bit 16 w), ucast (drop_bit 8 w), ucast w]"

definition be16 :: "u16 \<Rightarrow> bytes" where
  "be16 w = [ucast (drop_bit 8 w), ucast w]"

definition xor_bytes :: "bytes \<Rightarrow> bytes \<Rightarrow> bytes" where
  "xor_bytes xs ys = map2 (XOR) xs ys"

definition encrypt_beacon ::
  "hash_fn \<Rightarrow> keyed_hash_fn \<Rightarrow> bytes \<Rightarrow> encrypted_beacon \<Rightarrow> bytes \<Rightarrow> bytes \<Rightarrow> bytes" where
  "encrypt_beacon hash keyed nonce b key mesh =
     (let plaintext = mesh @ be32 (eb_node_id b);
          encrypted = xor_bytes plaintext (derive_keystream hash key nonce);
          mac = compute_mac keyed key nonce encrypted
      in [ENCRYPTED_BEACON_VERSION] @ nonce @ encrypted @ mac @ be16 (eb_capabilities b)
         @ [eb_hierarchy_level b, eb_battery_percent b])"

definition decrypt_beacon ::
  "hash_fn \<Rightarrow> keyed_hash_fn \<Rightarrow> bytes \<Rightarrow> bytes \<Rightarrow> (encrypted_beacon \<times> bytes) option" where
  "decrypt_beacon hash keyed data key =
     (if length data < ENCRYPTED_BEACON_SIZE then None
      else if data ! 0 \<noteq> ENCRYPTED_BEACON_VERSION then None
      else
        let nonce = take 4 (drop 1 data);
            encrypted = take 8 (drop 5 data);
            received_mac = take 4 (drop 13 data)
        in if received_mac \<noteq> compute_mac keyed key nonce encrypted then None
           else
             let plaintext = xor_bytes encrypted (derive_keystream hash key nonce)
             in Some (\<lparr>eb_node_id = decode_be32 (plaintext ! 4) (plaintext ! 5) (plaintext ! 6) (plaintext ! 7),
                       eb_capabilities = decode_be16 (data ! 17) (data ! 18),
                       eb_hierarchy_level = data ! 19,
                       eb_battery_percent = data ! 20\<rparr>,
                      take 4 plaintext))"

definition is_encrypted_beacon :: "bytes \<Rightarrow> bool" where
  "is_encrypted_beacon data \<longleftrightarrow> length data \<ge> ENCRYPTED_BEACON_SIZE \<and> data ! 0 = ENCRYPTED_BEACON_VERSION"

definition mesh_id_to_bytes :: "hash_fn \<Rightarrow> bytes \<Rightarrow> bytes" where
  "mesh_id_to_bytes hash mesh_id = take 4 (hash mesh_id)"

section \<open>Lemmas: bytes and words\<close>

lemma be32_decode [simp]:
  "decode_be32 (ucast (drop_bit 24 w)) (ucast (drop_bit 16 w)) (ucast (drop_bit 8 w)) (ucast w) = w"
proof (rule bit_word_eqI)
  fix n assume n: "n < LENGTH(32)"
  consider "n < 8" | "8 \<le> n" "n < 16" | "16 \<le> n" "n < 24" | "24 \<le> n" by linarith
  then show "bit (decode_be32 (ucast (drop_bit 24 w)) (ucast (drop_bit 16 w)) (ucast (drop_bit 8 w)) (ucast w)) n
    = bit w n"
    using n by cases (auto simp: decode_be32_def bit_simps)
qed

lemma be16_decode [simp]: "decode_be16 (ucast (drop_bit 8 w)) (ucast w) = w"
  by (rule bit_word_eqI) (auto simp: decode_be16_def bit_simps)

lemma word_bits_above:
  fixes w :: "'a::len word"
  assumes "unat w < 2 ^ k" "k \<le> n"
  shows "\<not> bit w n"
proof
  assume "bit w n"
  then have "bit (unat w) n" by (simp add: bit_unsigned_iff bit_imp_le_length)
  then have "2 ^ n \<le> unat w" by (metis bit_nat_iff div_less even_zero not_le bit_iff_odd)
  moreover have "(2 :: nat) ^ k \<le> 2 ^ n" using assms(2) by simp
  ultimately show False using assms(1) by linarith
qed

lemma be24_decode:
  assumes "unat g < 2 ^ 24"
  shows "decode_be24 (ucast (drop_bit 16 g)) (ucast (drop_bit 8 g)) (ucast g) = g"
proof (rule bit_word_eqI)
  fix n assume n: "n < LENGTH(32)"
  have high: "\<not> bit g n" if "24 \<le> n" using word_bits_above [OF assms that] .
  consider "n < 8" | "8 \<le> n" "n < 16" | "16 \<le> n" "n < 24" | "24 \<le> n" by linarith
  then show "bit (decode_be24 (ucast (drop_bit 16 g)) (ucast (drop_bit 8 g)) (ucast g)) n = bit g n"
    using n high by cases (auto simp: decode_be24_def bit_simps)
qed

section \<open>Lemmas: plaintext beacons\<close>

definition beacon_valid :: "peat_beacon \<Rightarrow> bool" where
  "beacon_valid b \<longleftrightarrow> unat (bc_version b) < 2 ^ 4 \<and> unat (bc_capabilities b) < 2 ^ 12 \<and> unat (bc_geohash b) < 2 ^ 24"

lemma mask4: "(x :: 'a::len word) AND 0x0F = take_bit 4 x"
  by (simp add: take_bit_eq_mask mask_eq_exp_minus_1)

lemma version_decode:
  assumes "unat v < 2 ^ 4"
  shows "decode_version (version_caps_byte v c) = v"
proof (rule bit_word_eqI)
  fix n assume "n < LENGTH(8)"
  then show "bit (decode_version (version_caps_byte v c)) n = bit v n"
    using word_bits_above [OF assms, of n] unfolding decode_version_def version_caps_byte_def mask4
    by (cases "n < 4") (auto simp: bit_simps)
qed

lemma capabilities_decode:
  assumes "unat c < 2 ^ 12"
  shows "decode_capabilities (version_caps_byte v c) (ucast (c AND 0xFF)) = c"
proof (rule bit_word_eqI)
  fix n assume n: "n < LENGTH(16)"
  have m8: "c AND 0xFF = take_bit 8 c" by (simp add: take_bit_eq_mask mask_eq_exp_minus_1)
  consider "n < 8" | "8 \<le> n" "n < 12" | "12 \<le> n" by linarith
  then show "bit (decode_capabilities (version_caps_byte v c) (ucast (c AND 0xFF))) n = bit c n"
    using n word_bits_above [OF assms, of n]
    unfolding decode_capabilities_def version_caps_byte_def mask4 m8
    by cases (auto simp: bit_simps)
qed

lemma beacon_roundtrip_full: "beacon_valid b \<Longrightarrow> beacon_decode (beacon_encode b @ post) = Some b"
  by (simp add: beacon_decode_def beacon_encode_def beacon_head_def BEACON_SIZE_def beacon_valid_def
      version_decode capabilities_decode be24_decode)

lemma beacon_roundtrip_compact:
  "beacon_valid b \<Longrightarrow> beacon_decode_compact (beacon_encode_compact b @ post) = Some (b\<lparr>bc_geohash := 0\<rparr>)"
  by (simp add: beacon_decode_compact_def beacon_encode_compact_def beacon_head_def BEACON_COMPACT_SIZE_def
      beacon_valid_def version_decode capabilities_decode)

lemma length_beacon_encode [simp]:
  "length (beacon_encode b) = BEACON_SIZE" "length (beacon_encode_compact b) = BEACON_COMPACT_SIZE"
  by (simp_all add: beacon_encode_def beacon_encode_compact_def beacon_head_def BEACON_SIZE_def BEACON_COMPACT_SIZE_def)

lemma beacon_builders_valid:
  "beacon_valid (beacon_new n)" "beacon_valid (beacon_peat_lite n)"
  "beacon_valid b \<Longrightarrow> beacon_valid (beacon_with_battery b p)"
  "beacon_valid b \<Longrightarrow> beacon_valid (beacon_with_hierarchy_level b l)"
  "beacon_valid b \<Longrightarrow> beacon_valid (beacon_increment_seq b)"
  by (simp_all add: beacon_valid_def beacon_new_def beacon_peat_lite_def beacon_with_battery_def
      beacon_with_hierarchy_level_def beacon_increment_seq_def BEACON_VERSION_def LITE_NODE_def)

section \<open>Lemmas: encrypted beacons\<close>

lemma xor_bytes_cancel: "length xs = length ys \<Longrightarrow> xor_bytes (xor_bytes xs ys) ys = xs"
  by (induction xs ys rule: list_induct2) (simp_all add: xor_bytes_def xor.assoc)

lemma length_xor_bytes [simp]: "length (xor_bytes xs ys) = min (length xs) (length ys)"
  by (simp add: xor_bytes_def)

lemma decrypt_encrypt:
  assumes "length nonce = 4" "length mesh = 4"
    and "\<And>x. length (hash x) = 32" "\<And>k x. length (keyed k x) = 32"
  shows "decrypt_beacon hash keyed (encrypt_beacon hash keyed nonce b key mesh) key = Some (b, mesh)"
proof -
  define enc where "enc = xor_bytes (mesh @ be32 (eb_node_id b)) (derive_keystream hash key nonce)"
  define mac where "mac = compute_mac keyed key nonce enc"
  have ks: "length (derive_keystream hash key nonce) = 8"
    using assms(3) by (simp add: derive_keystream_def ENCRYPTED_IDENTITY_SIZE_def)
  have len: "length enc = 8" "length mac = 4" "length (be32 (eb_node_id b)) = 4"
    using assms(2,4) ks by (simp_all add: enc_def mac_def compute_mac_def MAC_SIZE_def be32_def)
  have plain: "xor_bytes enc (derive_keystream hash key nonce) = mesh @ be32 (eb_node_id b)"
    using xor_bytes_cancel ks len assms(2) by (simp add: enc_def)
  have wire: "encrypt_beacon hash keyed nonce b key mesh =
      ENCRYPTED_BEACON_VERSION # nonce @ enc @ mac @ be16 (eb_capabilities b) @ [eb_hierarchy_level b, eb_battery_percent b]"
    by (simp add: encrypt_beacon_def enc_def mac_def Let_def)
  show ?thesis
    unfolding wire decrypt_beacon_def
    using assms(1,2) len plain
    by (simp add: ENCRYPTED_BEACON_SIZE_def Let_def mac_def nth_append be32_def be16_def)
qed

lemma decrypt_public_fields:
  assumes "decrypt_beacon hash keyed data key = Some (b, mesh)"
  shows "decrypt_beacon hash keyed (take 17 data @ be16 caps @ [level, battery]) key =
    Some (b\<lparr>eb_capabilities := caps, eb_hierarchy_level := level, eb_battery_percent := battery\<rparr>, mesh)"
proof -
  have len: "21 \<le> length data"
    using assms by (simp add: decrypt_beacon_def ENCRYPTED_BEACON_SIZE_def split: if_splits)
  let ?d = "take 17 data @ be16 caps @ [level, battery]"
  have same: "?d ! 0 = data ! 0" "take 4 (drop 1 ?d) = take 4 (drop 1 data)"
    "take 8 (drop 5 ?d) = take 8 (drop 5 data)" "take 4 (drop 13 ?d) = take 4 (drop 13 data)"
    using len by (simp_all add: nth_append drop_take min_def)
  have new: "?d ! 17 = ucast (drop_bit 8 caps)" "?d ! 18 = ucast caps" "?d ! 19 = level" "?d ! 20 = battery"
    "\<not> length ?d < ENCRYPTED_BEACON_SIZE"
    using len by (simp_all add: nth_append be16_def ENCRYPTED_BEACON_SIZE_def)
  show ?thesis
    using assms len unfolding decrypt_beacon_def same new
    by (auto simp: Let_def ENCRYPTED_BEACON_SIZE_def be16_def split: if_splits)
qed

end
