(* ===== verification/Mesh_Manager.thy ===== *)
theory Mesh_Manager
  imports Mesh_Topology Beacon
begin

text \<open>
  The mesh manager, from \<open>src/mesh/manager.rs\<close>: the topology together with information on every
  connected peer, the candidates for a parent heard in beacons, and parent failover. The locks of
  the code guard single operations, so that the operations are modelled as atomic steps; an
  operation returns the new state, the events it emits (in the order every registered callback
  receives them) and its result. The clock is stored in a \<open>usize\<close> of \<open>w\<close> bits.

  Main results: the connection limits hold in every reachable state; the parent selected is an
  eligible candidate of maximal score; two flaws of the role bookkeeping and of failover events.
\<close>

section \<open>State\<close>

datatype manager_state = Stopped | Starting | Running | Failover | Stopping

record mesh_manager =
  mm_node_id :: node_id
  mm_level :: hierarchy_level
  mm_config :: topology_config
  mm_topology :: mesh_topology
  mm_peers :: "(node_id, peer_info) btree_map"
  mm_candidates :: "parent_candidate list"
  mm_state :: manager_state
  mm_time :: u64

type_synonym 'a managed = "mesh_manager \<times> topology_event list \<times> 'a"

definition manager_new :: "node_id \<Rightarrow> hierarchy_level \<Rightarrow> topology_config \<Rightarrow> mesh_manager" where
  "manager_new n l c =
     \<lparr>mm_node_id = n, mm_level = l, mm_config = c,
      mm_topology = topology_new l (tc_max_children c) (tc_max_connections c),
      mm_peers = [], mm_candidates = [], mm_state = Stopped, mm_time = 0\<rparr>"

section \<open>Operations\<close>

definition manager_start :: "mesh_manager \<Rightarrow> mesh_manager \<times> unit ble_result" where
  "manager_start m =
     (case mm_state m of
        Stopped \<Rightarrow> (m\<lparr>mm_state := Running\<rparr>, Inr ())
      | _ \<Rightarrow> (m, Inl (InvalidState ''Already started'')))"

definition manager_stop :: "mesh_manager \<Rightarrow> mesh_manager" where
  "manager_stop m =
     m\<lparr>mm_state := Stopped,
       mm_topology := (mm_topology m)\<lparr>parent := None, children := [], peers := []\<rparr>,
       mm_peers := [], mm_candidates := []\<rparr>"

definition manager_set_time_ms :: "nat \<Rightarrow> mesh_manager \<Rightarrow> u64 \<Rightarrow> mesh_manager" where
  "manager_set_time_ms w m t = m\<lparr>mm_time := take_bit w t\<rparr>"

definition topology_changed :: "mesh_manager \<Rightarrow> topology_event" where
  "topology_changed m =
     TopologyChanged (length (children (mm_topology m))) (length (peers (mm_topology m)))
       (has_parent (mm_topology m))"

definition get_peer_info :: "mesh_manager \<Rightarrow> node_id \<Rightarrow> peer_info option" where
  "get_peer_info m n = bt_get (mm_peers m) n"

primrec refresh_candidate :: "node_id \<Rightarrow> i8 \<Rightarrow> hierarchy_level \<Rightarrow> parent_candidate list \<Rightarrow> parent_candidate list" where
  "refresh_candidate n r l [] = []"
| "refresh_candidate n r l (c # cs) =
     (if pc_node_id c = n then c\<lparr>pc_rssi := r, pc_age_ms := 0, pc_level := l\<rparr> # cs
      else c # refresh_candidate n r l cs)"

definition process_beacon :: "mesh_manager \<Rightarrow> peat_beacon \<Rightarrow> i8 \<Rightarrow> mesh_manager" where
  "process_beacon m b rssi =
     (if bc_hierarchy_level b > mm_level m then
        let candidate = \<lparr>pc_node_id = bc_node_id b, pc_level = bc_hierarchy_level b, pc_rssi = rssi,
                         pc_age_ms = 0,
                         pc_failure_count =
                           (case bt_get (mm_peers m) (bc_node_id b) of None \<Rightarrow> 0 | Some p \<Rightarrow> pi_failure_count p)\<rparr>
        in if bc_node_id b \<in> pc_node_id ` set (mm_candidates m)
           then m\<lparr>mm_candidates := refresh_candidate (bc_node_id b) rssi (bc_hierarchy_level b) (mm_candidates m)\<rparr>
           else m\<lparr>mm_candidates := mm_candidates m @ [candidate]\<rparr>
      else m)"

definition candidate_eligible :: "topology_config \<Rightarrow> parent_candidate \<Rightarrow> bool" where
  "candidate_eligible cfg c \<longleftrightarrow>
     min_parent_rssi cfg \<le>s pc_rssi c \<and> pc_age_ms c \<le> max_beacon_age_ms cfg \<and>
     pc_failure_count c < max_failures cfg"

definition select_best_parent :: "mesh_manager \<Rightarrow> parent_candidate option" where
  "select_best_parent m =
     max_by_key (\<lambda>c. candidate_score c (mm_level m)) (filter (candidate_eligible (mm_config m)) (mm_candidates m))"

definition connect_parent :: "mesh_manager \<Rightarrow> node_id \<Rightarrow> hierarchy_level \<Rightarrow> i8 \<Rightarrow> unit ble_result managed" where
  "connect_parent m n l rssi =
     (if has_parent (mm_topology m) then (m, [], Inl (InvalidState ''Already have a parent''))
      else case set_parent (mm_topology m) n of
        (t, False) \<Rightarrow> (m, [], Inl (ConnectionFailed ''Cannot accept connection''))
      | (t, True) \<Rightarrow>
          let info = (peer_info_new n Parent l)\<lparr>pi_state := Connected, pi_rssi := Some rssi,
                       pi_connected_at := Some (mm_time m), pi_last_seen_ms := mm_time m\<rparr>;
              m1 = m\<lparr>mm_topology := t, mm_peers := bt_insert n info (mm_peers m)\<rparr>
          in (m1, [ParentConnected n l (Some rssi), topology_changed m1], Inr ()))"

definition disconnect_parent :: "mesh_manager \<Rightarrow> disconnect_reason \<Rightarrow> node_id option managed" where
  "disconnect_parent m reason =
     (let (t, old) = clear_parent (mm_topology m); m1 = m\<lparr>mm_topology := t\<rparr>
      in case old of
           None \<Rightarrow> (m1, [], None)
         | Some p \<Rightarrow>
             let m2 = m1\<lparr>mm_peers := bt_remove p (mm_peers m)\<rparr>
             in (m2, [ParentDisconnected p reason, topology_changed m2], Some p))"

definition accept_child :: "mesh_manager \<Rightarrow> node_id \<Rightarrow> hierarchy_level \<Rightarrow> unit ble_result managed" where
  "accept_child m n l =
     (case add_child (mm_topology m) n of
        (t, False) \<Rightarrow> (m, [], Inl (ConnectionFailed ''Cannot accept child''))
      | (t, True) \<Rightarrow>
          let info = (peer_info_new n Child l)\<lparr>pi_state := Connected,
                       pi_connected_at := Some (mm_time m), pi_last_seen_ms := mm_time m\<rparr>;
              m1 = m\<lparr>mm_topology := t, mm_peers := bt_insert n info (mm_peers m)\<rparr>
          in (m1, [ChildConnected n l, topology_changed m1], Inr ()))"

definition manager_remove_child :: "mesh_manager \<Rightarrow> node_id \<Rightarrow> disconnect_reason \<Rightarrow> bool managed" where
  "manager_remove_child m n reason =
     (case remove_child (mm_topology m) n of
        (t, False) \<Rightarrow> (m, [], False)
      | (t, True) \<Rightarrow>
          let m1 = m\<lparr>mm_topology := t, mm_peers := bt_remove n (mm_peers m)\<rparr>
          in (m1, [ChildDisconnected n reason, topology_changed m1], True))"

definition start_failover :: "mesh_manager \<Rightarrow> unit ble_result managed" where
  "start_failover m =
     (if mm_state m \<noteq> Running then (m, [], Inl (InvalidState ''Not running''))
      else
        let (m1, evs, old) = disconnect_parent m LinkLoss
        in case old of
             None \<Rightarrow> (m1, evs, Inr ())
           | Some p \<Rightarrow> (m1\<lparr>mm_state := Failover\<rparr>, evs @ [ParentFailoverStarted p], Inr ()))"

definition complete_failover ::
  "mesh_manager \<Rightarrow> (node_id \<times> hierarchy_level \<times> i8) option \<Rightarrow> unit ble_result managed" where
  "complete_failover m new_parent =
     (let old = (case mm_candidates m of [] \<Rightarrow> 0 | c # cs \<Rightarrow> pc_node_id c)
      in case new_parent of
           Some (n, l, rssi) \<Rightarrow>
             (case connect_parent m n l rssi of
                (m1, evs, Inl e) \<Rightarrow> (m1, evs, Inl e)
              | (m1, evs, Inr u) \<Rightarrow>
                  (m1\<lparr>mm_state := Running\<rparr>, evs @ [ParentFailoverCompleted old (Some n)], Inr ()))
         | None \<Rightarrow> (m\<lparr>mm_state := Running\<rparr>, [ParentFailoverCompleted old None], Inr ()))"

definition manager_update_rssi :: "mesh_manager \<Rightarrow> node_id \<Rightarrow> i8 \<Rightarrow> unit managed" where
  "manager_update_rssi m n rssi =
     (let m1 = (case bt_get (mm_peers m) n of
                  None \<Rightarrow> m
                | Some p \<Rightarrow> m\<lparr>mm_peers := bt_insert n ((pi_update_rssi p rssi)\<lparr>pi_last_seen_ms := mm_time m\<rparr>)
                                             (mm_peers m)\<rparr>)
      in (m1, [ConnectionQualityChanged n rssi], ()))"

primrec fail_candidate :: "node_id \<Rightarrow> parent_candidate list \<Rightarrow> parent_candidate list" where
  "fail_candidate n [] = []"
| "fail_candidate n (c # cs) =
     (if pc_node_id c = n then c\<lparr>pc_failure_count := sat_add (pc_failure_count c) 1\<rparr> # cs
      else c # fail_candidate n cs)"

definition manager_record_failure :: "mesh_manager \<Rightarrow> node_id \<Rightarrow> mesh_manager" where
  "manager_record_failure m n =
     m\<lparr>mm_peers := (case bt_get (mm_peers m) n of
                      None \<Rightarrow> mm_peers m
                    | Some p \<Rightarrow> bt_insert n (pi_record_failure p) (mm_peers m)),
       mm_candidates := fail_candidate n (mm_candidates m)\<rparr>"

definition age_candidates :: "mesh_manager \<Rightarrow> u64 \<Rightarrow> mesh_manager" where
  "age_candidates m elapsed =
     m\<lparr>mm_candidates :=
         filter (\<lambda>c. pc_age_ms c \<le> max_beacon_age_ms (mm_config m) * 2)
           (map (\<lambda>c. c\<lparr>pc_age_ms := sat_add (pc_age_ms c) elapsed\<rparr>) (mm_candidates m))\<rparr>"

definition should_switch_parent :: "mesh_manager \<Rightarrow> parent_candidate option" where
  "should_switch_parent m = do {
     current \<leftarrow> parent (mm_topology m);
     info \<leftarrow> bt_get (mm_peers m) current;
     current_rssi \<leftarrow> pi_rssi info;
     best \<leftarrow> select_best_parent m;
     if current_rssi + rssi_hysteresis (mm_config m) <s pc_rssi best then Some best else None
   }"

section \<open>Steps and reachable states\<close>

inductive manager_step :: "mesh_manager \<Rightarrow> mesh_manager \<Rightarrow> bool" where
  "manager_step m (fst (manager_start m))"
| "manager_step m (manager_stop m)"
| "manager_step m (manager_set_time_ms w m t)"
| "manager_step m (process_beacon m b rssi)"
| "manager_step m (fst (connect_parent m n l rssi))"
| "manager_step m (fst (disconnect_parent m reason))"
| "manager_step m (fst (accept_child m n l))"
| "manager_step m (fst (manager_remove_child m n reason))"
| "manager_step m (fst (start_failover m))"
| "manager_step m (fst (complete_failover m np))"
| "manager_step m (fst (manager_update_rssi m n rssi))"
| "manager_step m (manager_record_failure m n)"
| "manager_step m (age_candidates m elapsed)"

definition manager_reachable :: "node_id \<Rightarrow> hierarchy_level \<Rightarrow> topology_config \<Rightarrow> mesh_manager \<Rightarrow> bool" where
  "manager_reachable n l c m \<longleftrightarrow> manager_step\<^sup>*\<^sup>* (manager_new n l c) m"

section \<open>Lemmas: candidates\<close>

lemma refresh_candidate_ids [simp]: "map pc_node_id (refresh_candidate n r l cs) = map pc_node_id cs"
  by (induction cs) simp_all

lemma fail_candidate_ids [simp]: "map pc_node_id (fail_candidate n cs) = map pc_node_id cs"
  by (induction cs) simp_all

lemma fail_candidate_levels [simp]: "map pc_level (fail_candidate n cs) = map pc_level cs"
  by (induction cs) simp_all

lemma refresh_candidate_levels:
  "\<forall>c \<in> set cs. k < pc_level c \<Longrightarrow> k < l \<Longrightarrow> c \<in> set (refresh_candidate n r l cs) \<Longrightarrow> k < pc_level c"
  by (induction cs) (auto split: if_splits)

definition candidates_ok :: "hierarchy_level \<Rightarrow> parent_candidate list \<Rightarrow> bool" where
  "candidates_ok l cs \<longleftrightarrow> distinct (map pc_node_id cs) \<and> (\<forall>c \<in> set cs. l < pc_level c)"

lemma candidates_ok_fail: "candidates_ok l cs \<Longrightarrow> candidates_ok l (fail_candidate n cs)"
  unfolding candidates_ok_def by (metis fail_candidate_ids fail_candidate_levels image_iff image_set)

lemma candidates_ok_refresh:
  "candidates_ok l cs \<Longrightarrow> l < k \<Longrightarrow> candidates_ok l (refresh_candidate n r k cs)"
  using refresh_candidate_levels [of cs l k] by (simp add: candidates_ok_def)

lemma candidates_ok_age:
  "candidates_ok l cs \<Longrightarrow> candidates_ok l (filter P (map (\<lambda>c. c\<lparr>pc_age_ms := f c\<rparr>) cs))"
  by (induction cs) (auto simp: candidates_ok_def)

section \<open>Lemmas: the invariant\<close>

definition manager_inv :: "hierarchy_level \<Rightarrow> topology_config \<Rightarrow> mesh_manager \<Rightarrow> bool" where
  "manager_inv l c m \<longleftrightarrow>
     mm_level m = l \<and> mm_config m = c \<and> topology_wf (mm_topology m) \<and>
     max_children (mm_topology m) = tc_max_children c \<and> max_connections (mm_topology m) = tc_max_connections c \<and>
     candidates_ok l (mm_candidates m) \<and> bt_wf (mm_peers m) \<and>
     (\<forall>n. bt_get (mm_peers m) n \<noteq> None \<longrightarrow> is_connected (mm_topology m) n)"

lemma topology_limits_kept [simp]:
  "max_children (fst (set_parent t n)) = max_children t" "max_connections (fst (set_parent t n)) = max_connections t"
  "max_children (fst (clear_parent t)) = max_children t" "max_connections (fst (clear_parent t)) = max_connections t"
  "max_children (fst (add_child t n)) = max_children t" "max_connections (fst (add_child t n)) = max_connections t"
  "max_children (fst (remove_child t n)) = max_children t" "max_connections (fst (remove_child t n)) = max_connections t"
  by (simp_all add: set_parent_def clear_parent_def add_child_def remove_child_def)

lemma connected_after:
  "set_parent t n = (t', True) \<Longrightarrow> is_connected t' k \<longleftrightarrow> k = n \<or> is_connected t k"
  "add_child t n = (t', True) \<Longrightarrow> is_connected t' k \<longleftrightarrow> k = n \<or> is_connected t k"
  by (auto simp: set_parent_def add_child_def is_connected_def split: if_splits)

lemma still_connected:
  "clear_parent t = (t', Some p) \<Longrightarrow> k \<noteq> p \<Longrightarrow> is_connected t k \<Longrightarrow> is_connected t' k"
  "clear_parent t = (t', None) \<Longrightarrow> t' = t"
  "remove_child t n = (t', True) \<Longrightarrow> k \<noteq> n \<Longrightarrow> is_connected t k \<Longrightarrow> is_connected t' k"
  by (auto simp: clear_parent_def remove_child_def is_connected_def split: if_splits)

lemma manager_inv_new: "manager_inv l c (manager_new n l c)"
  by (simp add: manager_inv_def manager_new_def topology_wf_ops topology_new_def bt_get_def bt_wf_def candidates_ok_def)
    (simp add: topology_wf_ops(1) [unfolded topology_new_def])

lemma connect_parent_inv:
  assumes "manager_inv l c m"
  shows "manager_inv l c (fst (connect_parent m n k rssi))"
proof (cases "has_parent (mm_topology m) \<or> \<not> snd (set_parent (mm_topology m) n)")
  case True
  then show ?thesis using assms by (auto simp: connect_parent_def case_prod_beta)
next
  case False
  obtain t where t: "set_parent (mm_topology m) n = (t, True)"
    using False by (cases "set_parent (mm_topology m) n") auto
  have "topology_wf t" "max_children t = max_children (mm_topology m)" "max_connections t = max_connections (mm_topology m)"
    using topology_wf_ops(2) [of "mm_topology m" n] topology_limits_kept(1,2) [of "mm_topology m" n] assms t
    by (simp_all add: manager_inv_def)
  then show ?thesis
    using assms False t connected_after(1) [OF t]
    by (auto simp: connect_parent_def manager_inv_def Let_def)
qed

lemma accept_child_inv:
  assumes "manager_inv l c m"
  shows "manager_inv l c (fst (accept_child m n k))"
proof (cases "snd (add_child (mm_topology m) n)")
  case False
  then show ?thesis using assms by (auto simp: accept_child_def case_prod_beta)
next
  case True
  then obtain t where t: "add_child (mm_topology m) n = (t, True)"
    by (cases "add_child (mm_topology m) n") auto
  have "topology_wf t" "max_children t = max_children (mm_topology m)" "max_connections t = max_connections (mm_topology m)"
    using topology_wf_ops(4) [of "mm_topology m" n] topology_limits_kept(5,6) [of "mm_topology m" n] assms t
    by (simp_all add: manager_inv_def)
  then show ?thesis
    using assms t connected_after(2) [OF t] by (auto simp: accept_child_def manager_inv_def Let_def)
qed

lemma disconnect_parent_inv:
  assumes "manager_inv l c m"
  shows "manager_inv l c (fst (disconnect_parent m reason))"
proof -
  obtain t old where t: "clear_parent (mm_topology m) = (t, old)" by fastforce
  have "topology_wf t" "max_children t = max_children (mm_topology m)" "max_connections t = max_connections (mm_topology m)"
    using topology_wf_ops(3) [of "mm_topology m"] topology_limits_kept(3,4) [of "mm_topology m"] assms t
    by (simp_all add: manager_inv_def)
  then show ?thesis
    using assms t still_connected(1) [of "mm_topology m" t] still_connected(2) [of "mm_topology m" t]
    by (cases old) (auto simp: disconnect_parent_def manager_inv_def Let_def)
qed

lemma remove_child_inv:
  assumes "manager_inv l c m"
  shows "manager_inv l c (fst (manager_remove_child m n reason))"
proof (cases "snd (remove_child (mm_topology m) n)")
  case False
  then show ?thesis using assms by (auto simp: manager_remove_child_def case_prod_beta)
next
  case True
  then obtain t where t: "remove_child (mm_topology m) n = (t, True)"
    by (cases "remove_child (mm_topology m) n") auto
  have "topology_wf t" "max_children t = max_children (mm_topology m)" "max_connections t = max_connections (mm_topology m)"
    using topology_wf_ops(5) [of "mm_topology m" n] topology_limits_kept(7,8) [of "mm_topology m" n] assms t
    by (simp_all add: manager_inv_def)
  then show ?thesis
    using assms t still_connected(3) [OF t] by (auto simp: manager_remove_child_def manager_inv_def Let_def)
qed

lemma state_inv: "manager_inv l c m \<Longrightarrow> manager_inv l c (m\<lparr>mm_state := s\<rparr>)"
  by (simp add: manager_inv_def)

lemma start_failover_inv: "manager_inv l c m \<Longrightarrow> manager_inv l c (fst (start_failover m))"
  using disconnect_parent_inv [of l c m LinkLoss] state_inv
  by (auto simp: start_failover_def case_prod_beta split: option.split)

lemma complete_failover_inv:
  assumes "manager_inv l c m"
  shows "manager_inv l c (fst (complete_failover m np))"
proof (cases np)
  case None
  then show ?thesis using assms by (simp add: complete_failover_def state_inv)
next
  case (Some v)
  obtain n k rssi where v: "v = (n, k, rssi)" by (cases v) auto
  obtain m1 evs r where r: "connect_parent m n k rssi = (m1, evs, r)" by (cases "connect_parent m n k rssi") auto
  have "manager_inv l c m1" using connect_parent_inv [OF assms, of n k rssi] r by simp
  then show ?thesis using Some v r by (cases r) (simp_all add: complete_failover_def Let_def state_inv)
qed

lemma simple_ops_inv:
  assumes "manager_inv l c m"
  shows "manager_inv l c (fst (manager_start m))" "manager_inv l c (manager_set_time_ms w m t)"
    "manager_inv l c (fst (manager_update_rssi m n rssi))" "manager_inv l c (manager_record_failure m n)"
    "manager_inv l c (age_candidates m elapsed)"
  using assms
  by (auto simp: manager_start_def manager_set_time_ms_def manager_update_rssi_def manager_record_failure_def
      age_candidates_def manager_inv_def candidates_ok_fail candidates_ok_age Let_def
      split: manager_state.split option.splits if_splits)

lemma process_beacon_inv: "manager_inv l c m \<Longrightarrow> manager_inv l c (process_beacon m b rssi)"
  using candidates_ok_refresh [of l "mm_candidates m" "bc_hierarchy_level b"]
  by (auto simp: process_beacon_def manager_inv_def candidates_ok_def Let_def)

lemma manager_stop_inv: "manager_inv l c m \<Longrightarrow> manager_inv l c (manager_stop m)"
  by (simp add: manager_stop_def manager_inv_def topology_wf_def connection_count_def candidates_ok_def
      bt_wf_def bt_get_def)

lemma manager_step_inv: "manager_step m m' \<Longrightarrow> manager_inv l c m \<Longrightarrow> manager_inv l c m'"
  by (cases rule: manager_step.cases)
    (auto intro: simple_ops_inv process_beacon_inv manager_stop_inv connect_parent_inv disconnect_parent_inv
      accept_child_inv remove_child_inv start_failover_inv complete_failover_inv)

lemma manager_reachable_inv: "manager_reachable n l c m \<Longrightarrow> manager_inv l c m"
  unfolding manager_reachable_def
  by (induction rule: rtranclp_induct) (auto intro: manager_inv_new manager_step_inv)

section \<open>Lemmas: selection and failover\<close>

lemma select_best_parent_spec:
  assumes "select_best_parent m = Some c"
  shows "c \<in> set (mm_candidates m) \<and> candidate_eligible (mm_config m) c \<and>
    (\<forall>d \<in> set (mm_candidates m). candidate_eligible (mm_config m) d \<longrightarrow>
      candidate_score d (mm_level m) \<le> candidate_score c (mm_level m))"
  using max_by_key_Some [OF assms [unfolded select_best_parent_def]] by auto

lemma select_best_parent_None:
  "select_best_parent m = None \<longleftrightarrow> (\<forall>c \<in> set (mm_candidates m). \<not> candidate_eligible (mm_config m) c)"
  by (simp add: select_best_parent_def filter_empty_conv)

lemma parent_and_child_loses_info:
  assumes "connect_parent m n l rssi = (m1, evs1, Inr ())" "accept_child m1 n l' = (m2, evs2, Inr ())"
    "disconnect_parent m2 reason = (m3, evs3, old)"
  shows "n \<in> set (children (mm_topology m3)) \<and> get_peer_info m3 n = None"
  using assms
  by (auto simp: connect_parent_def accept_child_def disconnect_parent_def set_parent_def add_child_def
      clear_parent_def get_peer_info_def Let_def split: if_splits)

lemma failover_reports_candidate:
  assumes "mm_state m = Running" "parent (mm_topology m) = Some p"
    "start_failover m = (m1, evs1, Inr ())" "complete_failover m1 None = (m2, evs2, Inr ())"
  shows "evs2 = [ParentFailoverCompleted (case mm_candidates m of [] \<Rightarrow> 0 | c # cs \<Rightarrow> pc_node_id c) None] \<and>
    ParentFailoverStarted p \<in> set evs1"
  using assms
  by (auto simp: start_failover_def complete_failover_def disconnect_parent_def clear_parent_def Let_def
      split: option.splits)

section \<open>Properties\<close>

text \<open>
  C21: In every reachable state of the mesh manager, whatever the order of beacons, connections,
  failures, failovers and timeouts, the node has at most the configured number of children and of
  connections, no node is a child or a lateral peer twice, every parent candidate stands above
  the node in the hierarchy and is listed once, and details are kept only for connected nodes.
\<close>

theorem manager_stays_within_limits:
  assumes "manager_reachable n l c m"
  shows "length (children (mm_topology m)) \<le> unat (tc_max_children c) \<and>
    connection_count (mm_topology m) \<le> unat (tc_max_connections c) \<and>
    distinct (children (mm_topology m)) \<and> distinct (peers (mm_topology m)) \<and>
    distinct (map pc_node_id (mm_candidates m)) \<and> (\<forall>d \<in> set (mm_candidates m). l < pc_level d) \<and>
    (\<forall>k. get_peer_info m k \<noteq> None \<longrightarrow> is_connected (mm_topology m) k)"
  using manager_reachable_inv [OF assms]
  by (auto simp: manager_inv_def topology_wf_def candidates_ok_def get_peer_info_def)

theorem manager_stays_within_limits_witness:
  "connection_count (mm_topology (fst (connect_parent (fst (manager_start (manager_new 1 Squad topology_config_default))) 2 Platoon (- 60))))
     \<le> unat (tc_max_connections topology_config_default)"
proof -
  have "manager_reachable 1 Squad topology_config_default
      (fst (connect_parent (fst (manager_start (manager_new 1 Squad topology_config_default))) 2 Platoon (- 60)))"
    unfolding manager_reachable_def
    by (rule rtranclp.rtrancl_into_rtrancl [OF r_into_rtranclp]) (rule manager_step.intros)+
  from manager_stays_within_limits [OF this] show ?thesis by blast
qed

text \<open>
  The parent the node picks is the best there is: it is one of the candidates, meets the
  limits on signal, age and failures, and no candidate that meets them scores higher; there is no
  choice exactly if no candidate meets the limits.
\<close>

theorem best_parent_selected:
  "case select_best_parent m of
     None \<Rightarrow> \<forall>d \<in> set (mm_candidates m). \<not> candidate_eligible (mm_config m) d
   | Some c \<Rightarrow> c \<in> set (mm_candidates m) \<and> candidate_eligible (mm_config m) c \<and>
       (\<forall>d \<in> set (mm_candidates m). candidate_eligible (mm_config m) d \<longrightarrow>
          candidate_score d (mm_level m) \<le> candidate_score c (mm_level m))"
proof (cases "select_best_parent m")
  case None
  then show ?thesis using select_best_parent_None [of m] by simp
next
  case (Some c)
  then show ?thesis using select_best_parent_spec [OF Some] by simp
qed

theorem best_parent_selected_witness:
  "select_best_parent (process_beacon (process_beacon (manager_new 1 Squad topology_config_default)
       (beacon_with_hierarchy_level (beacon_new 2) Platoon) (- 70)) (beacon_with_hierarchy_level (beacon_new 3) Platoon) (- 50))
     \<noteq> None"
proof -
  let ?m = "process_beacon (process_beacon (manager_new 1 Squad topology_config_default)
       (beacon_with_hierarchy_level (beacon_new 2) Platoon) (- 70)) (beacon_with_hierarchy_level (beacon_new 3) Platoon) (- 50)"
  have "\<exists>d \<in> set (mm_candidates ?m). candidate_eligible (mm_config ?m) d" by code_simp
  then show ?thesis using best_parent_selected [of ?m] by (auto split: option.splits)
qed

end
