(* ===== verification/Discovery.thy ===== *)
theory Discovery
  imports Beacon Float32 "HOL-Library.List_Lexorder" "HOL-Library.Product_Lexorder"
begin

text \<open>
  Discovery: the advertiser that builds advertising packets (\<open>src/discovery/advertiser.rs\<close>) and the
  scanner that filters, deduplicates and tracks beacons (\<open>src/discovery/scanner.rs\<close>). A device
  address and a device name are byte strings. A Rust \<open>HashMap\<close> is kept as an ordered association
  list; what depends on its iteration order in the code is stated up to that order.

  The distance estimate of an advertisement needs the platform's \<open>powf\<close>; it is the parameter
  \<open>distance\<close> of the filter. An advertising packet is a sequence of structures, each a length byte
  and that many bytes (the first of them the type); \<open>ad_parse\<close> is that reading of it.
\<close>

section \<open>Advertiser\<close>

definition LEGACY_ADV_MAX :: nat where "LEGACY_ADV_MAX = 31"
definition AD_TYPE_FLAGS :: u8 where "AD_TYPE_FLAGS = 0x01"
definition AD_TYPE_SERVICE_UUID_16 :: u8 where "AD_TYPE_SERVICE_UUID_16 = 0x03"
definition AD_TYPE_SERVICE_DATA_16 :: u8 where "AD_TYPE_SERVICE_DATA_16 = 0x16"
definition AD_TYPE_LOCAL_NAME :: u8 where "AD_TYPE_LOCAL_NAME = 0x09"
definition AD_TYPE_SHORT_NAME :: u8 where "AD_TYPE_SHORT_NAME = 0x08"
definition AD_TYPE_TX_POWER :: u8 where "AD_TYPE_TX_POWER = 0x0A"
definition FLAGS_VALUE :: u8 where "FLAGS_VALUE = 0x06"
definition PEAT_SERVICE_UUID_16BIT :: u16 where "PEAT_SERVICE_UUID_16BIT = 0xA1B2"
definition ENCRYPTED_DEVICE_NAME :: bytes where "ENCRYPTED_DEVICE_NAME = [0x50, 0x45, 0x41, 0x54]"

datatype advertiser_state = AdvIdle | Advertising | AdvPaused
datatype advertising_mode = Plaintext | Encrypted

record advertising_packet =
  adv_data :: bytes
  scan_rsp :: "bytes option"
  extended :: bool

definition fits_legacy :: "advertising_packet \<Rightarrow> bool" where
  "fits_legacy p \<longleftrightarrow> length (adv_data p) \<le> LEGACY_ADV_MAX \<and>
     (case scan_rsp p of None \<Rightarrow> True | Some sr \<Rightarrow> length sr \<le> LEGACY_ADV_MAX)"

definition packet_total_size :: "advertising_packet \<Rightarrow> nat" where
  "packet_total_size p = length (adv_data p) + (case scan_rsp p of None \<Rightarrow> 0 | Some sr \<Rightarrow> length sr)"

record advertiser =
  av_beacon :: peat_beacon
  av_state :: advertiser_state
  started_at_ms :: "u64 option"
  av_time_ms :: u64
  tx_power :: "u8 option"
  device_name :: "bytes option"
  use_extended :: bool
  cached_packet :: "advertising_packet option"
  cache_dirty :: bool
  av_mode :: advertising_mode
  av_beacon_key :: "bytes option"
  av_mesh_id :: "bytes option"

definition advertiser_with_beacon :: "peat_beacon \<Rightarrow> advertiser" where
  "advertiser_with_beacon b =
     \<lparr>av_beacon = b, av_state = AdvIdle, started_at_ms = None, av_time_ms = 0, tx_power = None,
      device_name = None, use_extended = False, cached_packet = None, cache_dirty = True,
      av_mode = Plaintext, av_beacon_key = None, av_mesh_id = None\<rparr>"

definition advertiser_new :: "node_id \<Rightarrow> advertiser" where
  "advertiser_new n = advertiser_with_beacon (beacon_new n)"

definition advertiser_peat_lite :: "node_id \<Rightarrow> advertiser" where
  "advertiser_peat_lite n = advertiser_with_beacon (beacon_peat_lite n)"

definition av_set_time_ms :: "advertiser \<Rightarrow> u64 \<Rightarrow> advertiser" where
  "av_set_time_ms a t = a\<lparr>av_time_ms := t\<rparr>"

definition with_tx_power :: "advertiser \<Rightarrow> u8 \<Rightarrow> advertiser" where
  "with_tx_power a p = a\<lparr>tx_power := Some p, cache_dirty := True\<rparr>"

definition with_name :: "advertiser \<Rightarrow> bytes \<Rightarrow> advertiser" where
  "with_name a n = a\<lparr>device_name := Some n, cache_dirty := True\<rparr>"

definition with_extended_advertising :: "advertiser \<Rightarrow> bool \<Rightarrow> advertiser" where
  "with_extended_advertising a e = a\<lparr>use_extended := e, cache_dirty := True\<rparr>"

definition with_encryption :: "advertiser \<Rightarrow> bytes \<Rightarrow> bytes \<Rightarrow> advertiser" where
  "with_encryption a key mesh =
     a\<lparr>av_mode := Encrypted, av_beacon_key := Some key, av_mesh_id := Some mesh,
       device_name := Some ENCRYPTED_DEVICE_NAME, cache_dirty := True\<rparr>"

definition set_mode :: "advertiser \<Rightarrow> advertising_mode \<Rightarrow> advertiser" where
  "set_mode a m = a\<lparr>av_mode := m, cache_dirty := True\<rparr>"

definition av_set_beacon_key :: "advertiser \<Rightarrow> bytes \<Rightarrow> advertiser" where
  "av_set_beacon_key a key = a\<lparr>av_beacon_key := Some key, cache_dirty := True\<rparr>"

definition set_hierarchy_level :: "advertiser \<Rightarrow> hierarchy_level \<Rightarrow> advertiser" where
  "set_hierarchy_level a l = a\<lparr>av_beacon := (av_beacon a)\<lparr>bc_hierarchy_level := l\<rparr>, cache_dirty := True\<rparr>"

definition set_capabilities :: "advertiser \<Rightarrow> u16 \<Rightarrow> advertiser" where
  "set_capabilities a c = a\<lparr>av_beacon := (av_beacon a)\<lparr>bc_capabilities := c\<rparr>, cache_dirty := True\<rparr>"

definition set_battery :: "advertiser \<Rightarrow> u8 \<Rightarrow> advertiser" where
  "set_battery a p = a\<lparr>av_beacon := (av_beacon a)\<lparr>bc_battery_percent := min p 100\<rparr>, cache_dirty := True\<rparr>"

definition set_geohash :: "advertiser \<Rightarrow> u32 \<Rightarrow> advertiser" where
  "set_geohash a g = a\<lparr>av_beacon := (av_beacon a)\<lparr>bc_geohash := g AND 0x00FFFFFF\<rparr>, cache_dirty := True\<rparr>"

definition advertiser_start :: "advertiser \<Rightarrow> advertiser" where
  "advertiser_start a = a\<lparr>av_state := Advertising, started_at_ms := Some (av_time_ms a)\<rparr>"

definition advertiser_pause :: "advertiser \<Rightarrow> advertiser" where
  "advertiser_pause a = a\<lparr>av_state := AdvPaused\<rparr>"

definition advertiser_resume :: "advertiser \<Rightarrow> advertiser" where
  "advertiser_resume a = (if av_state a = AdvPaused then a\<lparr>av_state := Advertising\<rparr> else a)"

definition advertiser_stop :: "advertiser \<Rightarrow> advertiser" where
  "advertiser_stop a = a\<lparr>av_state := AdvIdle, started_at_ms := None\<rparr>"

definition advertising_duration_ms :: "advertiser \<Rightarrow> u64 option" where
  "advertising_duration_ms a = map_option (\<lambda>t. sat_sub (av_time_ms a) t) (started_at_ms a)"

definition increment_sequence :: "advertiser \<Rightarrow> advertiser" where
  "increment_sequence a = a\<lparr>av_beacon := beacon_increment_seq (av_beacon a), cache_dirty := True\<rparr>"

definition uuid_bytes :: bytes where
  "uuid_bytes = [ucast (PEAT_SERVICE_UUID_16BIT AND 0xFF), ucast (drop_bit 8 PEAT_SERVICE_UUID_16BIT)]"

definition plaintext_service_data :: "advertiser \<Rightarrow> bytes" where
  "plaintext_service_data a =
     [word_of_nat (2 + BEACON_COMPACT_SIZE), AD_TYPE_SERVICE_DATA_16] @ uuid_bytes
     @ beacon_encode_compact (av_beacon a)"

definition service_data :: "hash_fn \<Rightarrow> keyed_hash_fn \<Rightarrow> bytes \<Rightarrow> advertiser \<Rightarrow> bytes" where
  "service_data hash keyed nonce a =
     (case av_mode a of
        Plaintext \<Rightarrow> plaintext_service_data a
      | Encrypted \<Rightarrow>
          (case (av_beacon_key a, av_mesh_id a) of
             (Some key, Some mesh) \<Rightarrow>
               [word_of_nat (2 + ENCRYPTED_BEACON_SIZE), AD_TYPE_SERVICE_DATA_16] @ uuid_bytes
               @ encrypt_beacon hash keyed nonce
                   \<lparr>eb_node_id = bc_node_id (av_beacon a), eb_capabilities = bc_capabilities (av_beacon a),
                    eb_hierarchy_level = level_to_u8 (bc_hierarchy_level (av_beacon a)),
                    eb_battery_percent = bc_battery_percent (av_beacon a)\<rparr> key mesh
           | _ \<Rightarrow> plaintext_service_data a))"

definition name_structure :: "bytes \<Rightarrow> bytes" where
  "name_structure name =
     (let max_name_len = LEGACY_ADV_MAX - 2 in
      if length name \<le> max_name_len
      then [word_of_nat (length name) + 1, AD_TYPE_LOCAL_NAME] @ name
      else let short = take max_name_len name
           in [word_of_nat (length short) + 1, AD_TYPE_SHORT_NAME] @ short)"

definition build_packet_inner :: "hash_fn \<Rightarrow> keyed_hash_fn \<Rightarrow> bytes \<Rightarrow> advertiser \<Rightarrow> advertising_packet" where
  "build_packet_inner hash keyed nonce a =
     (let base = [2, AD_TYPE_FLAGS, FLAGS_VALUE] @ [3, AD_TYPE_SERVICE_UUID_16] @ uuid_bytes
                 @ service_data hash keyed nonce a;
          power = (case tx_power a of None \<Rightarrow> [] | Some p \<Rightarrow> [2, AD_TYPE_TX_POWER, p]);
          fits = length base + 3 \<le> LEGACY_ADV_MAX;
          adv = (if fits then base @ power else base);
          rsp = (if fits then [] else power)
                @ (case device_name a of None \<Rightarrow> [] | Some n \<Rightarrow> name_structure n)
      in \<lparr>adv_data = adv, scan_rsp = (if rsp = [] then None else Some rsp),
          extended = (use_extended a \<or> length adv > LEGACY_ADV_MAX \<or> length rsp > LEGACY_ADV_MAX)\<rparr>)"

definition build_packet ::
  "hash_fn \<Rightarrow> keyed_hash_fn \<Rightarrow> bytes \<Rightarrow> advertiser \<Rightarrow> advertiser \<times> advertising_packet" where
  "build_packet hash keyed nonce a =
     (case cached_packet a of
        Some p \<Rightarrow>
          if cache_dirty a
          then let q = build_packet_inner hash keyed nonce a
               in (a\<lparr>cached_packet := Some q, cache_dirty := False\<rparr>, q)
          else (a, p)
      | None \<Rightarrow>
          let q = build_packet_inner hash keyed nonce a
          in (a\<lparr>cached_packet := Some q, cache_dirty := False\<rparr>, q))"

definition rebuild_packet ::
  "hash_fn \<Rightarrow> keyed_hash_fn \<Rightarrow> bytes \<Rightarrow> advertiser \<Rightarrow> advertiser \<times> advertising_packet" where
  "rebuild_packet hash keyed nonce a = build_packet hash keyed nonce (a\<lparr>cache_dirty := True\<rparr>)"

section \<open>Scanner\<close>

definition DEFAULT_DEVICE_TIMEOUT_MS :: u64 where "DEFAULT_DEVICE_TIMEOUT_MS = 30000"
definition DEDUP_INTERVAL_MS :: u64 where "DEDUP_INTERVAL_MS = 500"

record parsed_advertisement =
  pa_address :: bytes
  pa_rssi :: i8
  pa_beacon :: "peat_beacon option"
  pa_encrypted :: "bytes option"
  pa_local_name :: "bytes option"
  pa_tx_power :: "i8 option"
  pa_connectable :: bool

definition is_peat_device :: "parsed_advertisement \<Rightarrow> bool" where
  "is_peat_device a \<longleftrightarrow> pa_beacon a \<noteq> None \<or> pa_encrypted a \<noteq> None"

definition adv_node_id :: "parsed_advertisement \<Rightarrow> node_id option" where
  "adv_node_id a = map_option bc_node_id (pa_beacon a)"

record tracked_device =
  td_beacon :: peat_beacon
  td_address :: bytes
  td_rssi :: i8
  rssi_history :: "i8 list"
  first_seen_ms :: u64
  td_last_seen_ms :: u64
  td_connectable :: bool

definition tracked_device_new :: "peat_beacon \<Rightarrow> bytes \<Rightarrow> i8 \<Rightarrow> bool \<Rightarrow> u64 \<Rightarrow> tracked_device" where
  "tracked_device_new b addr rssi conn now =
     \<lparr>td_beacon = b, td_address = addr, td_rssi = rssi, rssi_history = [rssi], first_seen_ms = now,
      td_last_seen_ms = now, td_connectable = conn\<rparr>"

definition tracked_device_update :: "tracked_device \<Rightarrow> peat_beacon \<Rightarrow> i8 \<Rightarrow> bool \<Rightarrow> u64 \<Rightarrow> tracked_device" where
  "tracked_device_update d b rssi conn now =
     (let h = rssi_history d @ [rssi]
      in d\<lparr>td_beacon := b, td_rssi := rssi, td_last_seen_ms := now, td_connectable := conn,
           rssi_history := (if length h > 10 then tl h else h)\<rparr>)"

definition average_rssi :: "tracked_device \<Rightarrow> i8" where
  "average_rssi d =
     (if rssi_history d = [] then td_rssi d
      else mean_rssi (rssi_history d))"

definition is_stale :: "tracked_device \<Rightarrow> u64 \<Rightarrow> u64 \<Rightarrow> bool" where
  "is_stale d timeout now \<longleftrightarrow> sat_sub now (td_last_seen_ms d) > timeout"

definition time_tracked_ms :: "tracked_device \<Rightarrow> u64 \<Rightarrow> u64" where
  "time_tracked_ms d now = sat_sub now (first_seen_ms d)"

record scan_filter =
  peat_only :: bool
  min_hierarchy_level :: "hierarchy_level option"
  required_capabilities :: "u16 option"
  excluded_capabilities :: "u16 option"
  min_rssi :: "i8 option"
  max_distance :: "f32 option"
  connectable_only :: bool

definition scan_filter_default :: scan_filter where
  "scan_filter_default =
     \<lparr>peat_only = False, min_hierarchy_level = None, required_capabilities = None,
      excluded_capabilities = None, min_rssi = None, max_distance = None, connectable_only = False\<rparr>"

definition filter_peat_nodes :: scan_filter where
  "filter_peat_nodes = scan_filter_default\<lparr>peat_only := True\<rparr>"

definition filter_potential_parents :: "hierarchy_level \<Rightarrow> scan_filter" where
  "filter_potential_parents l =
     scan_filter_default\<lparr>peat_only := True, min_hierarchy_level := Some l, connectable_only := True\<rparr>"

definition filter_beacon_matches :: "scan_filter \<Rightarrow> peat_beacon \<Rightarrow> bool" where
  "filter_beacon_matches f b \<longleftrightarrow>
     (case min_hierarchy_level f of None \<Rightarrow> True | Some l \<Rightarrow> \<not> bc_hierarchy_level b < l) \<and>
     (case required_capabilities f of None \<Rightarrow> True | Some r \<Rightarrow> bc_capabilities b AND r = r) \<and>
     (case excluded_capabilities f of None \<Rightarrow> True | Some e \<Rightarrow> bc_capabilities b AND e = 0)"

definition filter_matches ::
  "(parsed_advertisement \<Rightarrow> f32 option) \<Rightarrow> scan_filter \<Rightarrow> parsed_advertisement \<Rightarrow> bool" where
  "filter_matches distance f adv \<longleftrightarrow>
     \<not> (peat_only f \<and> \<not> is_peat_device adv) \<and>
     (case min_rssi f of None \<Rightarrow> True | Some r \<Rightarrow> \<not> pa_rssi adv <s r) \<and>
     (case max_distance f of None \<Rightarrow> True
      | Some m \<Rightarrow> (case distance adv of None \<Rightarrow> True | Some d \<Rightarrow> \<not> f32_less m d)) \<and>
     \<not> (connectable_only f \<and> \<not> pa_connectable adv) \<and>
     (case pa_beacon adv of None \<Rightarrow> True | Some b \<Rightarrow> filter_beacon_matches f b)"

datatype scanner_state = ScanIdle | Scanning | ScanPaused

record scanner =
  sc_state :: scanner_state
  sc_devices :: "(node_id, tracked_device) btree_map"
  address_map :: "(bytes, node_id) btree_map"
  sc_filter :: scan_filter
  device_timeout_ms :: u64
  last_processed :: "(node_id, u64) btree_map"
  sc_time_ms :: u64
  sc_beacon_key :: "bytes option"
  sc_mesh_id :: "bytes option"

definition scanner_new :: scanner where
  "scanner_new =
     \<lparr>sc_state = ScanIdle, sc_devices = [], address_map = [], sc_filter = scan_filter_default,
      device_timeout_ms = DEFAULT_DEVICE_TIMEOUT_MS, last_processed = [], sc_time_ms = 0,
      sc_beacon_key = None, sc_mesh_id = None\<rparr>"

definition sc_set_time_ms :: "scanner \<Rightarrow> u64 \<Rightarrow> scanner" where
  "sc_set_time_ms s t = s\<lparr>sc_time_ms := t\<rparr>"

definition set_filter :: "scanner \<Rightarrow> scan_filter \<Rightarrow> scanner" where
  "set_filter s f = s\<lparr>sc_filter := f\<rparr>"

definition set_device_timeout_ms :: "scanner \<Rightarrow> u64 \<Rightarrow> scanner" where
  "set_device_timeout_ms s t = s\<lparr>device_timeout_ms := t\<rparr>"

definition sc_set_beacon_key :: "scanner \<Rightarrow> bytes \<Rightarrow> bytes \<Rightarrow> scanner" where
  "sc_set_beacon_key s key mesh = s\<lparr>sc_beacon_key := Some key, sc_mesh_id := Some mesh\<rparr>"

definition clear_beacon_key :: "scanner \<Rightarrow> scanner" where
  "clear_beacon_key s = s\<lparr>sc_beacon_key := None, sc_mesh_id := None\<rparr>"

definition can_decrypt_beacons :: "scanner \<Rightarrow> bool" where
  "can_decrypt_beacons s \<longleftrightarrow> sc_beacon_key s \<noteq> None \<and> sc_mesh_id s \<noteq> None"

definition scanner_start :: "scanner \<Rightarrow> scanner" where
  "scanner_start s = s\<lparr>sc_state := Scanning\<rparr>"

definition scanner_pause :: "scanner \<Rightarrow> scanner" where
  "scanner_pause s = s\<lparr>sc_state := ScanPaused\<rparr>"

definition scanner_stop :: "scanner \<Rightarrow> scanner" where
  "scanner_stop s = s\<lparr>sc_state := ScanIdle\<rparr>"

definition try_decrypt_beacon ::
  "hash_fn \<Rightarrow> keyed_hash_fn \<Rightarrow> scanner \<Rightarrow> bytes \<Rightarrow> (peat_beacon \<times> bytes) option" where
  "try_decrypt_beacon hash keyed s data =
     (case (sc_beacon_key s, sc_mesh_id s) of
        (Some key, Some expected) \<Rightarrow>
          (case decrypt_beacon hash keyed data key of
             None \<Rightarrow> None
           | Some (eb, mesh) \<Rightarrow>
               if mesh \<noteq> expected then None
               else Some (\<lparr>bc_version = 1, bc_capabilities = eb_capabilities eb, bc_node_id = eb_node_id eb,
                           bc_hierarchy_level = level_from_u8 (eb_hierarchy_level eb), bc_geohash = 0,
                           bc_battery_percent = eb_battery_percent eb, bc_seq_num = 0\<rparr>, mesh))
      | _ \<Rightarrow> None)"

definition adv_beacon :: "hash_fn \<Rightarrow> keyed_hash_fn \<Rightarrow> scanner \<Rightarrow> parsed_advertisement \<Rightarrow> peat_beacon option" where
  "adv_beacon hash keyed s adv =
     (case pa_beacon adv of
        Some b \<Rightarrow> Some b
      | None \<Rightarrow> (case pa_encrypted adv of
                   Some data \<Rightarrow> map_option fst (try_decrypt_beacon hash keyed s data)
                 | None \<Rightarrow> None))"

definition process_advertisement ::
  "(parsed_advertisement \<Rightarrow> f32 option) \<Rightarrow> hash_fn \<Rightarrow> keyed_hash_fn \<Rightarrow> scanner \<Rightarrow> parsed_advertisement \<Rightarrow>
   scanner \<times> bool" where
  "process_advertisement distance hash keyed s adv =
     (if \<not> filter_matches distance (sc_filter s) adv then (s, False)
      else case adv_beacon hash keyed s adv of
        None \<Rightarrow> (s, False)
      | Some b \<Rightarrow>
          let n = bc_node_id b in
          if (case bt_get (last_processed s) n of
                Some prev \<Rightarrow> sat_sub (sc_time_ms s) prev < DEDUP_INTERVAL_MS
              | None \<Rightarrow> False)
          then (s, False)
          else
            let s1 = s\<lparr>last_processed := bt_insert n (sc_time_ms s) (last_processed s)\<rparr>
            in case bt_get (sc_devices s) n of
                 Some d \<Rightarrow>
                   (s1\<lparr>sc_devices := bt_insert n
                        (tracked_device_update d b (pa_rssi adv) (pa_connectable adv) (sc_time_ms s)) (sc_devices s)\<rparr>,
                    False)
               | None \<Rightarrow>
                   (s1\<lparr>sc_devices := bt_insert n
                        (tracked_device_new b (pa_address adv) (pa_rssi adv) (pa_connectable adv) (sc_time_ms s))
                        (sc_devices s),
                       address_map := bt_insert (pa_address adv) n (address_map s)\<rparr>, True))"

definition get_node_id_for_address :: "scanner \<Rightarrow> bytes \<Rightarrow> node_id option" where
  "get_node_id_for_address s addr = bt_get (address_map s) addr"

definition device_count :: "scanner \<Rightarrow> nat" where
  "device_count s = length (sc_devices s)"

definition devices_by_rssi :: "scanner \<Rightarrow> tracked_device list" where
  "devices_by_rssi s = sort_key (\<lambda>d. - sint (td_rssi d)) (map snd (sc_devices s))"

definition devices_by_hierarchy :: "scanner \<Rightarrow> tracked_device list" where
  "devices_by_hierarchy s =
     sort_key (\<lambda>d. - int (unat (level_to_u8 (bc_hierarchy_level (td_beacon d))))) (map snd (sc_devices s))"

definition remove_stale_device :: "node_id \<Rightarrow> scanner \<Rightarrow> scanner" where
  "remove_stale_device n s =
     (case bt_get (sc_devices s) n of
        None \<Rightarrow> s
      | Some d \<Rightarrow> s\<lparr>sc_devices := bt_remove n (sc_devices s), address_map := bt_remove (td_address d) (address_map s),
                    last_processed := bt_remove n (last_processed s)\<rparr>)"

definition remove_stale :: "scanner \<Rightarrow> scanner \<times> nat" where
  "remove_stale s =
     (let stale = map fst (filter (\<lambda>e. is_stale (snd e) (device_timeout_ms s) (sc_time_ms s)) (sc_devices s))
      in (fold remove_stale_device stale s, length stale))"

definition scanner_clear :: "scanner \<Rightarrow> scanner" where
  "scanner_clear s = s\<lparr>sc_devices := [], address_map := [], last_processed := []\<rparr>"

definition parent_key :: "tracked_device \<Rightarrow> nat \<times> int" where
  "parent_key d = (unat (level_to_u8 (bc_hierarchy_level (td_beacon d))), sint (average_rssi d))"

definition parent_eligible :: "hierarchy_level \<Rightarrow> tracked_device \<Rightarrow> bool" where
  "parent_eligible l d \<longleftrightarrow> bc_hierarchy_level (td_beacon d) > l \<and> td_connectable d \<and> \<not> is_lite_node (td_beacon d)"

definition find_best_parent :: "scanner \<Rightarrow> hierarchy_level \<Rightarrow> tracked_device option" where
  "find_best_parent s l = max_by_key parent_key (filter (parent_eligible l) (map snd (sc_devices s)))"

section \<open>Reading an advertising packet\<close>

fun ad_structures :: "nat \<Rightarrow> bytes \<Rightarrow> ((u8 \<times> bytes) list \<times> bytes) option" where
  "ad_structures 0 data = Some ([], data)"
| "ad_structures (Suc k) data =
     (case data of
        n # t # rest \<Rightarrow>
          if n = 0 \<or> length rest < unat n - 1 then None
          else map_option (apfst ((#) (t, take (unat n - 1) rest))) (ad_structures k (drop (unat n - 1) rest))
      | _ \<Rightarrow> None)"

section \<open>Lemmas: advertising packets\<close>

lemma service_data_cache [simp]: "service_data hash keyed nonce (a\<lparr>cache_dirty := d\<rparr>) = service_data hash keyed nonce a"
  by (simp add: service_data_def plaintext_service_data_def split: advertising_mode.split option.split)

lemma build_packet_fresh:
  "snd (build_packet hash keyed nonce (a\<lparr>cache_dirty := True\<rparr>)) = build_packet_inner hash keyed nonce a"
  by (cases "cached_packet a") (simp_all add: build_packet_def build_packet_inner_def Let_def)

lemma build_packet_cached:
  "build_packet hash' keyed' nonce' (fst (build_packet hash keyed nonce a)) =
    (fst (build_packet hash keyed nonce a), snd (build_packet hash keyed nonce a))"
  by (auto simp: build_packet_def Let_def split: option.split)

lemma packet_extended_iff:
  assumes "p = build_packet_inner hash keyed nonce a" "\<not> use_extended a"
  shows "extended p \<longleftrightarrow> \<not> fits_legacy p"
  using assms by (auto simp: build_packet_inner_def fits_legacy_def Let_def)

lemma ad_structures_numeral:
  "ad_structures (numeral k) data =
     (case data of
        n # t # rest \<Rightarrow>
          if n = 0 \<or> length rest < unat n - 1 then None
          else map_option (apfst ((#) (t, take (unat n - 1) rest)))
                 (ad_structures (pred_numeral k) (drop (unat n - 1) rest))
      | _ \<Rightarrow> None)"
  by (simp only: numeral_eq_Suc ad_structures.simps)

lemma advertised_beacon_cut:
  assumes "av_mode a = Plaintext"
  shows "ad_structures 3 (adv_data (build_packet_inner hash keyed nonce a)) =
    Some ([(AD_TYPE_FLAGS, [FLAGS_VALUE]), (AD_TYPE_SERVICE_UUID_16, uuid_bytes),
           (AD_TYPE_SERVICE_DATA_16, uuid_bytes @ butlast (beacon_encode_compact (av_beacon a)))],
      last (beacon_encode_compact (av_beacon a))
      # (case tx_power a of None \<Rightarrow> [] | Some p \<Rightarrow> [2, AD_TYPE_TX_POWER, p]))"
  using assms
  by (cases "tx_power a")
    (simp_all add: build_packet_inner_def service_data_def plaintext_service_data_def Let_def uuid_bytes_def
      BEACON_COMPACT_SIZE_def beacon_encode_compact_def beacon_head_def LEGACY_ADV_MAX_def ad_structures_numeral)

section \<open>Lemmas: scanner\<close>

lemma average_rssi_between:
  assumes "rssi_history d \<noteq> []" "\<And>r. r \<in> set (rssi_history d) \<Longrightarrow> lo \<le> sint r \<and> sint r \<le> hi"
    and "- 128 \<le> lo" "hi < 128"
  shows "lo \<le> sint (average_rssi d) \<and> sint (average_rssi d) \<le> hi"
  using mean_rssi_between [OF assms] assms(1) by (simp add: average_rssi_def)

lemma find_best_parent_spec:
  assumes "find_best_parent s l = Some d"
  shows "d \<in> snd ` set (sc_devices s)" "parent_eligible l d"
    "\<forall>d' \<in> snd ` set (sc_devices s). parent_eligible l d' \<longrightarrow> parent_key d' \<le> parent_key d"
  using max_by_key_Some [OF assms [unfolded find_best_parent_def]] by auto

lemma find_best_parent_None:
  "find_best_parent s l = None \<longleftrightarrow> (\<forall>d \<in> snd ` set (sc_devices s). \<not> parent_eligible l d)"
  by (simp add: find_best_parent_def filter_empty_conv)

definition scanner_inv :: "scanner \<Rightarrow> bool" where
  "scanner_inv s \<longleftrightarrow> bt_wf (sc_devices s) \<and> bt_wf (address_map s) \<and> bt_wf (last_processed s) \<and>
     (\<forall>n d. bt_get (sc_devices s) n = Some d \<longrightarrow>
        bc_node_id (td_beacon d) = n \<and> 1 \<le> length (rssi_history d) \<and> length (rssi_history d) \<le> 10 \<and>
        bt_get (last_processed s) n = Some (td_last_seen_ms d))"

lemma scanner_inv_new: "scanner_inv scanner_new"
  by (simp add: scanner_inv_def scanner_new_def bt_wf_def bt_get_def)

lemma process_advertisement_inv:
  assumes "scanner_inv s"
  shows "scanner_inv (fst (process_advertisement dist hash keyed s adv))"
  using assms
  by (auto simp: process_advertisement_def scanner_inv_def Let_def tracked_device_new_def tracked_device_update_def
      split: option.splits if_splits)

lemma remove_stale_device_inv: "scanner_inv s \<Longrightarrow> scanner_inv (remove_stale_device n s)"
  by (auto simp: remove_stale_device_def scanner_inv_def split: option.splits)

lemma remove_stale_inv: "scanner_inv s \<Longrightarrow> scanner_inv (fst (remove_stale s))"
proof -
  assume "scanner_inv s"
  then have "scanner_inv (fold remove_stale_device ns s)" for ns
    by (induction ns arbitrary: s) (simp_all add: remove_stale_device_inv)
  then show ?thesis by (simp add: remove_stale_def Let_def)
qed

section \<open>Properties\<close>

text \<open>
  C38: The advertising packet cuts its own beacon. The length byte of the service data structure
  does not count the type byte, so a receiver that splits the packet into its structures reads
  the flags, the service UUID and service data that lacks the last byte of the beacon; that byte
  is left over in front of the rest of the packet.
\<close>

theorem beacon_cut_by_length_byte:
  assumes "av_mode a = Plaintext"
  shows "ad_structures 3 (adv_data (build_packet_inner hash keyed nonce a)) =
    Some ([(AD_TYPE_FLAGS, [FLAGS_VALUE]), (AD_TYPE_SERVICE_UUID_16, uuid_bytes),
           (AD_TYPE_SERVICE_DATA_16, uuid_bytes @ butlast (beacon_encode_compact (av_beacon a)))],
      last (beacon_encode_compact (av_beacon a))
      # (case tx_power a of None \<Rightarrow> [] | Some p \<Rightarrow> [2, AD_TYPE_TX_POWER, p]))"
  by (rule advertised_beacon_cut [OF assms])

theorem beacon_cut_by_length_byte_witness:
  "map_option snd (ad_structures 3 (adv_data (build_packet_inner (\<lambda>_. []) (\<lambda>_ _. []) [] (advertiser_new 5)))) =
     Some [last (beacon_encode_compact (av_beacon (advertiser_new 5)))]"
  using beacon_cut_by_length_byte [of "advertiser_new 5"]
  by (simp add: advertiser_new_def advertiser_with_beacon_def)

end
