(* ===== verification/Peer_State.thy ===== *)
theory Peer_State
  imports Node_Id Ordered_Map
begin

text \<open>
  Peers and their connection life cycle, from \<open>src/peer.rs\<close>: a discovered or connected peer, the
  connection state machine of one peer with its statistics, the graph of all direct peers, and the
  indirect peers known through relayed messages with the paths to them. Counters keep their width
  and wrap as in a release build.

  Main results: the data of a peer agrees with its connection state in every reachable graph; the
  distance of an indirect peer is the minimum over its known paths, and every path is within the
  tracked range.
\<close>

section \<open>Peers\<close>

record peat_peer =
  pp_node_id :: node_id
  pp_identifier :: string
  pp_mesh_id :: "string option"
  pp_name :: "string option"
  pp_rssi :: i8
  pp_is_connected :: bool
  pp_last_seen_ms :: u64

definition peat_peer_new :: "node_id \<Rightarrow> string \<Rightarrow> string option \<Rightarrow> string option \<Rightarrow> i8 \<Rightarrow> peat_peer" where
  "peat_peer_new n ident mesh name rssi =
     \<lparr>pp_node_id = n, pp_identifier = ident, pp_mesh_id = mesh, pp_name = name, pp_rssi = rssi,
      pp_is_connected = False, pp_last_seen_ms = 0\<rparr>"

definition peer_touch :: "peat_peer \<Rightarrow> u64 \<Rightarrow> peat_peer" where
  "peer_touch p now = p\<lparr>pp_last_seen_ms := now\<rparr>"

definition peer_is_stale :: "peat_peer \<Rightarrow> u64 \<Rightarrow> u64 \<Rightarrow> bool" where
  "peer_is_stale p now timeout \<longleftrightarrow>
     (if pp_last_seen_ms p = 0 then False else sat_sub now (pp_last_seen_ms p) > timeout)"

definition display_name :: "peat_peer \<Rightarrow> string" where
  "display_name p = (case pp_name p of Some n \<Rightarrow> n | None \<Rightarrow> pp_identifier p)"

datatype signal_strength = Excellent | Good | Fair | Weak

definition rssi_strength :: "i8 \<Rightarrow> signal_strength" where
  "rssi_strength r =
     (if - 50 \<le>s r then Excellent else if - 70 \<le>s r then Good else if - 85 \<le>s r then Fair else Weak)"

definition peer_signal_strength :: "peat_peer \<Rightarrow> signal_strength" where
  "peer_signal_strength p = rssi_strength (pp_rssi p)"

section \<open>Connection state of one peer\<close>

datatype connection_phase =
  Discovered | Connecting | Connected | Degraded | Disconnecting | Disconnected | Lost

primrec phase_is_connected :: "connection_phase \<Rightarrow> bool" where
  "phase_is_connected Discovered = False"
| "phase_is_connected Connecting = False"
| "phase_is_connected Connected = True"
| "phase_is_connected Degraded = True"
| "phase_is_connected Disconnecting = False"
| "phase_is_connected Disconnected = False"
| "phase_is_connected Lost = False"

primrec phase_was_connected :: "connection_phase \<Rightarrow> bool" where
  "phase_was_connected Discovered = False"
| "phase_was_connected Connecting = False"
| "phase_was_connected Connected = True"
| "phase_was_connected Degraded = True"
| "phase_was_connected Disconnecting = True"
| "phase_was_connected Disconnected = True"
| "phase_was_connected Lost = True"

primrec phase_degraded_or_worse :: "connection_phase \<Rightarrow> bool" where
  "phase_degraded_or_worse Discovered = False"
| "phase_degraded_or_worse Connecting = False"
| "phase_degraded_or_worse Connected = False"
| "phase_degraded_or_worse Degraded = True"
| "phase_degraded_or_worse Disconnecting = True"
| "phase_degraded_or_worse Disconnected = True"
| "phase_degraded_or_worse Lost = True"

datatype link_loss_reason =
  LocalRequest | RemoteRequest | LinkTimeout | LinkLost | LinkFailed | LinkUnknown

record peer_connection =
  cn_node_id :: node_id
  cn_identifier :: string
  cn_state :: connection_phase
  cn_discovered_at :: u64
  cn_connected_at :: "u64 option"
  cn_disconnected_at :: "u64 option"
  cn_disconnect_reason :: "link_loss_reason option"
  cn_last_rssi :: "i8 option"
  cn_connection_count :: u32
  cn_documents_synced :: u32
  cn_bytes_received :: u64
  cn_bytes_sent :: u64
  cn_last_seen_ms :: u64
  cn_name :: "string option"
  cn_mesh_id :: "string option"

definition new_discovered :: "node_id \<Rightarrow> string \<Rightarrow> u64 \<Rightarrow> peer_connection" where
  "new_discovered n ident now =
     \<lparr>cn_node_id = n, cn_identifier = ident, cn_state = Discovered, cn_discovered_at = now,
      cn_connected_at = None, cn_disconnected_at = None, cn_disconnect_reason = None,
      cn_last_rssi = None, cn_connection_count = 0, cn_documents_synced = 0, cn_bytes_received = 0,
      cn_bytes_sent = 0, cn_last_seen_ms = now, cn_name = None, cn_mesh_id = None\<rparr>"

definition from_peer :: "peat_peer \<Rightarrow> u64 \<Rightarrow> peer_connection" where
  "from_peer p now =
     \<lparr>cn_node_id = pp_node_id p, cn_identifier = pp_identifier p,
      cn_state = (if pp_is_connected p then Connected else Discovered), cn_discovered_at = now,
      cn_connected_at = (if pp_is_connected p then Some now else None), cn_disconnected_at = None,
      cn_disconnect_reason = None, cn_last_rssi = Some (pp_rssi p),
      cn_connection_count = (if pp_is_connected p then 1 else 0), cn_documents_synced = 0,
      cn_bytes_received = 0, cn_bytes_sent = 0, cn_last_seen_ms = pp_last_seen_ms p,
      cn_name = pp_name p, cn_mesh_id = pp_mesh_id p\<rparr>"

definition set_connecting :: "peer_connection \<Rightarrow> u64 \<Rightarrow> peer_connection" where
  "set_connecting c now = c\<lparr>cn_state := Connecting, cn_last_seen_ms := now\<rparr>"

definition set_connected :: "peer_connection \<Rightarrow> u64 \<Rightarrow> peer_connection" where
  "set_connected c now =
     c\<lparr>cn_state := Connected, cn_connected_at := Some now, cn_connection_count := cn_connection_count c + 1,
       cn_last_seen_ms := now, cn_disconnect_reason := None\<rparr>"

definition set_degraded :: "peer_connection \<Rightarrow> u64 \<Rightarrow> peer_connection" where
  "set_degraded c now =
     (if cn_state c = Connected then c\<lparr>cn_state := Degraded, cn_last_seen_ms := now\<rparr> else c)"

definition set_disconnected :: "peer_connection \<Rightarrow> u64 \<Rightarrow> link_loss_reason \<Rightarrow> peer_connection" where
  "set_disconnected c now reason =
     c\<lparr>cn_state := Disconnected, cn_disconnected_at := Some now, cn_disconnect_reason := Some reason,
       cn_last_seen_ms := now\<rparr>"

definition set_lost :: "peer_connection \<Rightarrow> u64 \<Rightarrow> peer_connection" where
  "set_lost c now =
     (if cn_state c = Disconnected then c\<lparr>cn_state := Lost, cn_last_seen_ms := now\<rparr> else c)"

definition connection_update_rssi :: "peer_connection \<Rightarrow> i8 \<Rightarrow> u64 \<Rightarrow> i8 \<Rightarrow> peer_connection \<times> bool" where
  "connection_update_rssi c rssi now threshold =
     (let c1 = c\<lparr>cn_last_rssi := Some rssi, cn_last_seen_ms := now\<rparr> in
      if cn_state c = Connected \<and> rssi <s threshold then (c1\<lparr>cn_state := Degraded\<rparr>, True)
      else if cn_state c = Degraded \<and> threshold \<le>s rssi then (c1\<lparr>cn_state := Connected\<rparr>, False)
      else (c1, False))"

definition connection_record_transfer :: "peer_connection \<Rightarrow> u64 \<Rightarrow> u64 \<Rightarrow> peer_connection" where
  "connection_record_transfer c rx tx =
     c\<lparr>cn_bytes_received := cn_bytes_received c + rx, cn_bytes_sent := cn_bytes_sent c + tx\<rparr>"

definition connection_record_sync :: "peer_connection \<Rightarrow> peer_connection" where
  "connection_record_sync c = c\<lparr>cn_documents_synced := cn_documents_synced c + 1\<rparr>"

definition time_since_connected :: "peer_connection \<Rightarrow> u64 \<Rightarrow> u64 option" where
  "time_since_connected c now = map_option (sat_sub now) (cn_connected_at c)"

definition time_since_disconnected :: "peer_connection \<Rightarrow> u64 \<Rightarrow> u64 option" where
  "time_since_disconnected c now = map_option (sat_sub now) (cn_disconnected_at c)"

definition connection_duration :: "peer_connection \<Rightarrow> u64 \<Rightarrow> u64 option" where
  "connection_duration c now =
     (if phase_is_connected (cn_state c) then map_option (sat_sub now) (cn_connected_at c) else None)"

section \<open>Indirect peers\<close>

definition MAX_TRACKED_DEGREE :: u8 where "MAX_TRACKED_DEGREE = 3"

datatype peer_degree = Direct | OneHop | TwoHop | ThreeHop

definition degree_from_hops :: "u8 \<Rightarrow> peer_degree option" where
  "degree_from_hops h =
     (if h = 0 then Some Direct else if h = 1 then Some OneHop else if h = 2 then Some TwoHop
      else if h = 3 then Some ThreeHop else None)"

primrec degree_hops :: "peer_degree \<Rightarrow> u8" where
  "degree_hops Direct = 0"
| "degree_hops OneHop = 1"
| "degree_hops TwoHop = 2"
| "degree_hops ThreeHop = 3"

record indirect_peer =
  ip_node_id :: node_id
  min_hops :: u8
  via_peers :: "(node_id, u8) btree_map"
  ip_discovered_at :: u64
  ip_last_seen_ms :: u64
  ip_messages_received :: u32
  ip_callsign :: "string option"

definition indirect_peer_new :: "node_id \<Rightarrow> node_id \<Rightarrow> u8 \<Rightarrow> u64 \<Rightarrow> indirect_peer" where
  "indirect_peer_new n via hops now =
     \<lparr>ip_node_id = n, min_hops = hops, via_peers = bt_insert via hops [], ip_discovered_at = now,
      ip_last_seen_ms = now, ip_messages_received = 1, ip_callsign = None\<rparr>"

definition via_min :: "u8 \<Rightarrow> (node_id, u8) btree_map \<Rightarrow> u8" where
  "via_min d m = (case m of [] \<Rightarrow> d | e # es \<Rightarrow> Min (snd ` set m))"

definition update_path :: "indirect_peer \<Rightarrow> node_id \<Rightarrow> u8 \<Rightarrow> u64 \<Rightarrow> indirect_peer \<times> bool" where
  "update_path p via hops now =
     (let better = hops < min_hops p; vias = bt_insert via hops (via_peers p)
      in (p\<lparr>ip_last_seen_ms := now, ip_messages_received := ip_messages_received p + 1, via_peers := vias,
            min_hops := (if better then hops else via_min hops vias)\<rparr>, better))"

definition ip_degree :: "indirect_peer \<Rightarrow> peer_degree option" where
  "ip_degree p = degree_from_hops (min_hops p)"

definition ip_is_stale :: "indirect_peer \<Rightarrow> u64 \<Rightarrow> u64 \<Rightarrow> bool" where
  "ip_is_stale p now timeout \<longleftrightarrow> sat_sub now (ip_last_seen_ms p) > timeout"

section \<open>The graph\<close>

record state_counts =
  n_discovered :: nat
  n_connecting :: nat
  n_connected :: nat
  n_degraded :: nat
  n_disconnecting :: nat
  n_disconnected :: nat
  n_lost :: nat

record connection_graph =
  cg_peers :: "(node_id, peer_connection) btree_map"
  indirect_peers :: "(node_id, indirect_peer) btree_map"
  rssi_degraded_threshold :: i8
  lost_timeout_ms :: u64
  indirect_peer_timeout_ms :: u64

definition graph_with_config :: "i8 \<Rightarrow> u64 \<Rightarrow> connection_graph" where
  "graph_with_config threshold lost =
     \<lparr>cg_peers = [], indirect_peers = [], rssi_degraded_threshold = threshold, lost_timeout_ms = lost,
      indirect_peer_timeout_ms = 120000\<rparr>"

definition graph_new :: connection_graph where
  "graph_new = graph_with_config (- 80) 30000"

definition modify_peer :: "connection_graph \<Rightarrow> node_id \<Rightarrow> (peer_connection \<Rightarrow> peer_connection) \<Rightarrow> connection_graph" where
  "modify_peer g n f =
     (case bt_get (cg_peers g) n of
        None \<Rightarrow> g
      | Some c \<Rightarrow> g\<lparr>cg_peers := bt_insert n (f c) (cg_peers g)\<rparr>)"

definition graph_get_connected :: "connection_graph \<Rightarrow> peer_connection list" where
  "graph_get_connected g = filter (\<lambda>c. phase_is_connected (cn_state c)) (map snd (cg_peers g))"

definition graph_get_degraded :: "connection_graph \<Rightarrow> peer_connection list" where
  "graph_get_degraded g = filter (\<lambda>c. cn_state c = Degraded) (map snd (cg_peers g))"

definition get_recently_disconnected :: "connection_graph \<Rightarrow> u64 \<Rightarrow> u64 \<Rightarrow> peer_connection list" where
  "get_recently_disconnected g within now =
     filter (\<lambda>c. cn_state c = Disconnected \<and>
         (case cn_disconnected_at c of None \<Rightarrow> False | Some t \<Rightarrow> sat_sub now t \<le> within))
       (map snd (cg_peers g))"

definition graph_get_lost :: "connection_graph \<Rightarrow> peer_connection list" where
  "graph_get_lost g = filter (\<lambda>c. cn_state c = Lost) (map snd (cg_peers g))"

definition graph_get_with_history :: "connection_graph \<Rightarrow> peer_connection list" where
  "graph_get_with_history g = filter (\<lambda>c. phase_was_connected (cn_state c)) (map snd (cg_peers g))"

definition count_phase :: "connection_phase \<Rightarrow> state_counts \<Rightarrow> state_counts" where
  "count_phase s k =
     (case s of
        Discovered \<Rightarrow> k\<lparr>n_discovered := n_discovered k + 1\<rparr>
      | Connecting \<Rightarrow> k\<lparr>n_connecting := n_connecting k + 1\<rparr>
      | Connected \<Rightarrow> k\<lparr>n_connected := n_connected k + 1\<rparr>
      | Degraded \<Rightarrow> k\<lparr>n_degraded := n_degraded k + 1\<rparr>
      | Disconnecting \<Rightarrow> k\<lparr>n_disconnecting := n_disconnecting k + 1\<rparr>
      | Disconnected \<Rightarrow> k\<lparr>n_disconnected := n_disconnected k + 1\<rparr>
      | Lost \<Rightarrow> k\<lparr>n_lost := n_lost k + 1\<rparr>)"

definition state_counts_default :: state_counts where
  "state_counts_default =
     \<lparr>n_discovered = 0, n_connecting = 0, n_connected = 0, n_degraded = 0, n_disconnecting = 0,
      n_disconnected = 0, n_lost = 0\<rparr>"

definition graph_state_counts :: "connection_graph \<Rightarrow> state_counts" where
  "graph_state_counts g =
     fold (\<lambda>c. count_phase (cn_state c)) (map snd (cg_peers g)) state_counts_default"

definition active_connections :: "state_counts \<Rightarrow> nat" where
  "active_connections k = n_connected k + n_degraded k"

definition counts_total :: "state_counts \<Rightarrow> nat" where
  "counts_total k =
     n_discovered k + n_connecting k + n_connected k + n_degraded k + n_disconnecting k
     + n_disconnected k + n_lost k"

definition graph_on_discovered ::
  "connection_graph \<Rightarrow> node_id \<Rightarrow> string \<Rightarrow> string option \<Rightarrow> string option \<Rightarrow> i8 \<Rightarrow> u64 \<Rightarrow> connection_graph" where
  "graph_on_discovered g n ident name mesh rssi now =
     (let c = (case bt_get (cg_peers g) n of Some c \<Rightarrow> c | None \<Rightarrow> new_discovered n ident now);
          c1 = c\<lparr>cn_last_rssi := Some rssi, cn_last_seen_ms := now,
                 cn_name := (if name \<noteq> None then name else cn_name c),
                 cn_mesh_id := (if mesh \<noteq> None then mesh else cn_mesh_id c)\<rparr>;
          c2 = (if cn_state c1 = Lost then c1\<lparr>cn_state := Disconnected\<rparr> else c1)
      in g\<lparr>cg_peers := bt_insert n c2 (cg_peers g)\<rparr>)"

definition graph_on_connecting :: "connection_graph \<Rightarrow> node_id \<Rightarrow> u64 \<Rightarrow> connection_graph" where
  "graph_on_connecting g n now = modify_peer g n (\<lambda>c. set_connecting c now)"

definition graph_on_connected :: "connection_graph \<Rightarrow> node_id \<Rightarrow> u64 \<Rightarrow> connection_graph" where
  "graph_on_connected g n now = modify_peer g n (\<lambda>c. set_connected c now)"

definition graph_on_disconnected :: "connection_graph \<Rightarrow> node_id \<Rightarrow> link_loss_reason \<Rightarrow> u64 \<Rightarrow> connection_graph" where
  "graph_on_disconnected g n reason now = modify_peer g n (\<lambda>c. set_disconnected c now reason)"

definition graph_update_rssi :: "connection_graph \<Rightarrow> node_id \<Rightarrow> i8 \<Rightarrow> u64 \<Rightarrow> connection_graph \<times> bool" where
  "graph_update_rssi g n rssi now =
     (modify_peer g n (\<lambda>c. fst (connection_update_rssi c rssi now (rssi_degraded_threshold g))),
      (case bt_get (cg_peers g) n of
         None \<Rightarrow> False
       | Some c \<Rightarrow> snd (connection_update_rssi c rssi now (rssi_degraded_threshold g))))"

definition graph_record_transfer :: "connection_graph \<Rightarrow> node_id \<Rightarrow> u64 \<Rightarrow> u64 \<Rightarrow> connection_graph" where
  "graph_record_transfer g n rx tx = modify_peer g n (\<lambda>c. connection_record_transfer c rx tx)"

definition graph_record_sync :: "connection_graph \<Rightarrow> node_id \<Rightarrow> connection_graph" where
  "graph_record_sync g n = modify_peer g n connection_record_sync"

definition due_lost :: "u64 \<Rightarrow> u64 \<Rightarrow> peer_connection \<Rightarrow> bool" where
  "due_lost timeout now c \<longleftrightarrow>
     cn_state c = Disconnected \<and>
     (case cn_disconnected_at c of None \<Rightarrow> False | Some t \<Rightarrow> sat_sub now t > timeout)"

definition graph_tick :: "connection_graph \<Rightarrow> u64 \<Rightarrow> connection_graph \<times> node_id list" where
  "graph_tick g now =
     (g\<lparr>cg_peers := map (\<lambda>(n, c). (n, if due_lost (lost_timeout_ms g) now c then set_lost c now else c)) (cg_peers g)\<rparr>,
      map fst (filter (\<lambda>(n, c). due_lost (lost_timeout_ms g) now c) (cg_peers g)))"

definition cleanup_lost :: "connection_graph \<Rightarrow> u64 \<Rightarrow> u64 \<Rightarrow> connection_graph \<times> node_id list" where
  "cleanup_lost g older now =
     (let gone = map fst (filter (\<lambda>(n, c). cn_state c = Lost \<and> sat_sub now (cn_last_seen_ms c) > older) (cg_peers g))
      in (g\<lparr>cg_peers := fold bt_remove gone (cg_peers g)\<rparr>, gone))"

definition import_peer :: "connection_graph \<Rightarrow> peat_peer \<Rightarrow> u64 \<Rightarrow> connection_graph" where
  "import_peer g p now = g\<lparr>cg_peers := bt_insert (pp_node_id p) (from_peer p now) (cg_peers g)\<rparr>"

definition on_relay_received :: "connection_graph \<Rightarrow> node_id \<Rightarrow> node_id \<Rightarrow> u8 \<Rightarrow> u64 \<Rightarrow> connection_graph \<times> bool" where
  "on_relay_received g source origin hops now =
     (if hops > MAX_TRACKED_DEGREE then (g, False)
      else if bt_contains_key (cg_peers g) origin then (g, False)
      else case bt_get (indirect_peers g) origin of
        Some p \<Rightarrow> (g\<lparr>indirect_peers := bt_insert origin (fst (update_path p source hops now)) (indirect_peers g)\<rparr>, False)
      | None \<Rightarrow> (g\<lparr>indirect_peers := bt_insert origin (indirect_peer_new origin source hops now) (indirect_peers g)\<rparr>, True))"

definition get_peers_by_degree :: "connection_graph \<Rightarrow> peer_degree \<Rightarrow> node_id list" where
  "get_peers_by_degree g d =
     (if d = Direct then map fst (cg_peers g)
      else map fst (filter (\<lambda>(n, p). ip_degree p = Some d) (indirect_peers g)))"

definition get_degree :: "connection_graph \<Rightarrow> node_id \<Rightarrow> peer_degree option" where
  "get_degree g n =
     (if bt_contains_key (cg_peers g) n then Some Direct
      else Option.bind (bt_get (indirect_peers g) n) ip_degree)"

definition get_paths_to :: "connection_graph \<Rightarrow> node_id \<Rightarrow> (node_id \<times> u8) list" where
  "get_paths_to g n = (case bt_get (indirect_peers g) n of None \<Rightarrow> [] | Some p \<Rightarrow> via_peers p)"

definition is_known :: "connection_graph \<Rightarrow> node_id \<Rightarrow> bool" where
  "is_known g n \<longleftrightarrow> bt_contains_key (cg_peers g) n \<or> bt_contains_key (indirect_peers g) n"

definition cleanup_indirect :: "connection_graph \<Rightarrow> u64 \<Rightarrow> connection_graph \<times> node_id list" where
  "cleanup_indirect g now =
     (let gone = map fst (filter (\<lambda>(n, p). ip_is_stale p now (indirect_peer_timeout_ms g)) (indirect_peers g))
      in (g\<lparr>indirect_peers := fold bt_remove gone (indirect_peers g)\<rparr>, gone))"

definition drop_via :: "node_id \<Rightarrow> indirect_peer \<Rightarrow> indirect_peer" where
  "drop_via via p =
     (let vias = bt_remove via (via_peers p)
      in p\<lparr>via_peers := vias, min_hops := (if vias = [] then min_hops p else via_min 255 vias)\<rparr>)"

definition remove_via_peer :: "connection_graph \<Rightarrow> node_id \<Rightarrow> connection_graph" where
  "remove_via_peer g via =
     (let ps = map (\<lambda>(n, p). (n, drop_via via p)) (indirect_peers g);
          gone = map fst (filter (\<lambda>(n, p). via_peers p = []) ps)
      in g\<lparr>indirect_peers := fold bt_remove gone ps\<rparr>)"

definition count_hops :: "connection_graph \<Rightarrow> u8 \<Rightarrow> nat" where
  "count_hops g h = length (filter (\<lambda>(n, p). min_hops p = h) (indirect_peers g))"

definition full_total :: "connection_graph \<Rightarrow> nat" where
  "full_total g = counts_total (graph_state_counts g) + count_hops g 1 + count_hops g 2 + count_hops g 3"

definition set_indirect_callsign :: "connection_graph \<Rightarrow> node_id \<Rightarrow> string \<Rightarrow> connection_graph" where
  "set_indirect_callsign g n cs =
     (case bt_get (indirect_peers g) n of
        None \<Rightarrow> g
      | Some p \<Rightarrow> g\<lparr>indirect_peers := bt_insert n (p\<lparr>ip_callsign := Some cs\<rparr>) (indirect_peers g)\<rparr>)"

section \<open>Configuration of the peer manager\<close>

record peer_manager_config =
  peer_timeout_ms :: u64
  cleanup_interval_ms :: u64
  pm_sync_interval_ms :: u64
  sync_cooldown_ms :: u64
  auto_connect :: bool
  pmc_mesh_id :: string
  max_peers :: nat
  pmc_rssi_degraded_threshold :: i8
  pmc_lost_timeout_ms :: u64

definition peer_manager_config_default :: peer_manager_config where
  "peer_manager_config_default =
     \<lparr>peer_timeout_ms = 45000, cleanup_interval_ms = 10000, pm_sync_interval_ms = 5000,
      sync_cooldown_ms = 30000, auto_connect = True, pmc_mesh_id = ''DEMO'', max_peers = 8,
      pmc_rssi_degraded_threshold = - 80, pmc_lost_timeout_ms = 30000\<rparr>"

definition config_matches_mesh :: "peer_manager_config \<Rightarrow> string option \<Rightarrow> bool" where
  "config_matches_mesh cfg mesh = (case mesh of Some i \<Rightarrow> i = pmc_mesh_id cfg | None \<Rightarrow> True)"

section \<open>Lemmas: one peer\<close>

definition phase_ok :: "peer_connection \<Rightarrow> bool" where
  "phase_ok c \<longleftrightarrow>
     (phase_is_connected (cn_state c) \<longrightarrow> cn_connected_at c \<noteq> None) \<and>
     (cn_state c \<in> {Disconnected, Lost} \<longrightarrow> cn_disconnected_at c \<noteq> None \<and> cn_disconnect_reason c \<noteq> None)"

lemma phase_ok_new: "phase_ok (new_discovered n ident now)" "phase_ok (from_peer p now)"
  by (simp_all add: phase_ok_def new_discovered_def from_peer_def)

lemma phase_ok_ops:
  assumes "phase_ok c"
  shows "phase_ok (set_connecting c now)" "phase_ok (set_connected c now)" "phase_ok (set_degraded c now)"
    "phase_ok (set_disconnected c now reason)" "phase_ok (set_lost c now)"
    "phase_ok (fst (connection_update_rssi c rssi now threshold))"
    "phase_ok (connection_record_transfer c rx tx)" "phase_ok (connection_record_sync c)"
  using assms
  by (auto simp: phase_ok_def set_connecting_def set_connected_def set_degraded_def set_disconnected_def
      set_lost_def connection_update_rssi_def connection_record_transfer_def connection_record_sync_def Let_def)

lemma connection_node_kept [simp]:
  "cn_node_id (set_connecting c now) = cn_node_id c" "cn_node_id (set_connected c now) = cn_node_id c"
  "cn_node_id (set_disconnected c now reason) = cn_node_id c" "cn_node_id (set_lost c now) = cn_node_id c"
  "cn_node_id (fst (connection_update_rssi c rssi now threshold)) = cn_node_id c"
  "cn_node_id (connection_record_transfer c rx tx) = cn_node_id c" "cn_node_id (connection_record_sync c) = cn_node_id c"
  by (auto simp: set_connecting_def set_connected_def set_disconnected_def set_lost_def
      connection_update_rssi_def connection_record_transfer_def connection_record_sync_def Let_def)

section \<open>Lemmas: paths to an indirect peer\<close>

definition paths_ok :: "indirect_peer \<Rightarrow> bool" where
  "paths_ok p \<longleftrightarrow> bt_wf (via_peers p) \<and> via_peers p \<noteq> [] \<and> min_hops p = Min (snd ` set (via_peers p)) \<and>
     (\<forall>h \<in> snd ` set (via_peers p). h \<le> MAX_TRACKED_DEGREE)"

lemma snd_set_bt_insert: "bt_wf m \<Longrightarrow> set (bt_insert k v m) = insert (k, v) {e \<in> set m. fst e \<noteq> k}"
  by (auto simp: bt_get_in_set split: if_splits)

lemma bt_insert_neq_Nil [simp]: "bt_insert k v m \<noteq> []"
  using set_bt_insert [of k v m] by force

lemma paths_ok_new: "hops \<le> MAX_TRACKED_DEGREE \<Longrightarrow> paths_ok (indirect_peer_new n via hops now)"
  by (simp add: paths_ok_def indirect_peer_new_def bt_wf_def)

lemma paths_ok_update:
  assumes "paths_ok p" "hops \<le> MAX_TRACKED_DEGREE"
  shows "paths_ok (fst (update_path p via hops now))"
proof -
  let ?vias = "bt_insert via hops (via_peers p)"
  have wf: "bt_wf (via_peers p)" "bt_wf ?vias" using assms(1) by (simp_all add: paths_ok_def)
  have set: "set ?vias = insert (via, hops) {e \<in> set (via_peers p). fst e \<noteq> via}"
    using snd_set_bt_insert [OF wf(1)] .
  have "\<forall>h \<in> snd ` set ?vias. h \<le> MAX_TRACKED_DEGREE"
    using assms unfolding set paths_ok_def by auto
  moreover have "hops = Min (snd ` set ?vias)" if "hops < min_hops p"
  proof (rule sym, rule Min_eqI)
    fix h assume "h \<in> snd ` set ?vias"
    then have "h = hops \<or> h \<in> snd ` set (via_peers p)" unfolding set by auto
    then show "hops \<le> h" using that assms(1) by (auto simp: paths_ok_def)
  qed (use set in auto)
  ultimately show ?thesis
    using wf by (auto simp: update_path_def paths_ok_def via_min_def Let_def split: list.split)
qed

lemma paths_ok_drop:
  assumes "paths_ok p" "via_peers (drop_via via p) \<noteq> []"
  shows "paths_ok (drop_via via p)"
proof -
  have "h \<le> MAX_TRACKED_DEGREE" if "h \<in> snd ` set (bt_remove via (via_peers p))" for h
    using that assms(1) by (auto simp: bt_remove_def paths_ok_def)
  then show ?thesis
    using assms by (simp add: paths_ok_def drop_via_def via_min_def Let_def split: list.split)
qed

lemma indirect_node_kept [simp]:
  "ip_node_id (indirect_peer_new n via hops now) = n" "ip_node_id (fst (update_path p via hops now)) = ip_node_id p"
  "ip_node_id (drop_via via p) = ip_node_id p"
  by (simp_all add: indirect_peer_new_def update_path_def drop_via_def Let_def)

lemma degree_tracked: "h \<le> MAX_TRACKED_DEGREE \<Longrightarrow> degree_from_hops h \<noteq> None"
proof -
  assume "h \<le> MAX_TRACKED_DEGREE"
  then have "unat h \<le> 3" by (simp add: MAX_TRACKED_DEGREE_def word_le_nat_alt)
  then have "unat h = 0 \<or> unat h = 1 \<or> unat h = 2 \<or> unat h = 3" by linarith
  then show ?thesis by (auto simp: degree_from_hops_def word_unat_eq_iff)
qed

lemma min_hops_tracked: "paths_ok p \<Longrightarrow> min_hops p \<le> MAX_TRACKED_DEGREE"
  unfolding paths_ok_def using Min_in [of "snd ` set (via_peers p)"] by fastforce

section \<open>Lemmas: the graph\<close>

definition graph_inv :: "connection_graph \<Rightarrow> bool" where
  "graph_inv g \<longleftrightarrow> bt_wf (cg_peers g) \<and> bt_wf (indirect_peers g) \<and>
     (\<forall>n c. bt_get (cg_peers g) n = Some c \<longrightarrow> cn_node_id c = n \<and> phase_ok c) \<and>
     (\<forall>n p. bt_get (indirect_peers g) n = Some p \<longrightarrow> ip_node_id p = n \<and> paths_ok p)"

inductive graph_step :: "connection_graph \<Rightarrow> connection_graph \<Rightarrow> bool" where
  "graph_step g (graph_on_discovered g n ident name mesh rssi now)"
| "graph_step g (graph_on_connecting g n now)"
| "graph_step g (graph_on_connected g n now)"
| "graph_step g (graph_on_disconnected g n reason now)"
| "graph_step g (fst (graph_update_rssi g n rssi now))"
| "graph_step g (graph_record_transfer g n rx tx)"
| "graph_step g (graph_record_sync g n)"
| "graph_step g (fst (graph_tick g now))"
| "graph_step g (fst (cleanup_lost g older now))"
| "graph_step g (import_peer g p now)"
| "graph_step g (fst (on_relay_received g source origin hops now))"
| "graph_step g (fst (cleanup_indirect g now))"
| "graph_step g (remove_via_peer g via)"
| "graph_step g (set_indirect_callsign g n cs)"

lemma graph_inv_new: "graph_inv (graph_with_config threshold lost)"
  by (simp add: graph_inv_def graph_with_config_def)

lemma modify_peer_inv:
  assumes "graph_inv g" "\<And>c. cn_node_id (f c) = cn_node_id c" "\<And>c. phase_ok c \<Longrightarrow> phase_ok (f c)"
  shows "graph_inv (modify_peer g n f)"
  using assms by (auto simp: modify_peer_def graph_inv_def split: option.splits)

lemma graph_on_discovered_inv:
  assumes "graph_inv g"
  shows "graph_inv (graph_on_discovered g n ident name mesh rssi now)"
proof -
  define c where "c = (case bt_get (cg_peers g) n of Some c \<Rightarrow> c | None \<Rightarrow> new_discovered n ident now)"
  have c: "cn_node_id c = n" "phase_ok c"
    using assms phase_ok_new(1) [of n ident now]
    by (auto simp: c_def graph_inv_def new_discovered_def split: option.split)
  define c1 where "c1 = c\<lparr>cn_last_rssi := Some rssi, cn_last_seen_ms := now,
      cn_name := (if name \<noteq> None then name else cn_name c),
      cn_mesh_id := (if mesh \<noteq> None then mesh else cn_mesh_id c)\<rparr>"
  define c2 where "c2 = (if cn_state c1 = Lost then c1\<lparr>cn_state := Disconnected\<rparr> else c1)"
  have "cn_node_id c2 = n" "phase_ok c2" using c by (auto simp: c2_def c1_def phase_ok_def)
  moreover have "graph_on_discovered g n ident name mesh rssi now = g\<lparr>cg_peers := bt_insert n c2 (cg_peers g)\<rparr>"
    by (simp add: graph_on_discovered_def c2_def c1_def c_def Let_def)
  ultimately show ?thesis using assms by (simp add: graph_inv_def)
qed

lemma graph_direct_inv:
  assumes "graph_inv g"
  shows "graph_inv (graph_on_connecting g n now)" "graph_inv (graph_on_connected g n now)"
    "graph_inv (graph_on_disconnected g n reason now)" "graph_inv (fst (graph_update_rssi g n rssi now))"
    "graph_inv (graph_record_transfer g n rx tx)" "graph_inv (graph_record_sync g n)"
  unfolding graph_on_connecting_def graph_on_connected_def graph_on_disconnected_def graph_update_rssi_def
    graph_record_transfer_def graph_record_sync_def fst_conv
  by (rule modify_peer_inv [OF assms]; simp add: phase_ok_ops)+

lemma graph_tick_inv: "graph_inv g \<Longrightarrow> graph_inv (fst (graph_tick g now))"
  by (auto simp: graph_tick_def graph_inv_def bt_wf_map
      bt_get_map [where f = "\<lambda>k c. if due_lost (lost_timeout_ms g) now c then set_lost c now else c"] phase_ok_ops)

lemma graph_removal_inv:
  assumes "graph_inv g"
  shows "graph_inv (fst (cleanup_lost g older now))" "graph_inv (fst (cleanup_indirect g now))"
  using assms
  by (auto simp: cleanup_lost_def cleanup_indirect_def graph_inv_def Let_def bt_wf_fold_remove
      dest: bt_get_fold_remove_Some)

lemma import_peer_inv: "graph_inv g \<Longrightarrow> graph_inv (import_peer g p now)"
  by (simp add: import_peer_def graph_inv_def phase_ok_new) (simp add: from_peer_def)

lemma on_relay_received_inv: "graph_inv g \<Longrightarrow> graph_inv (fst (on_relay_received g source origin hops now))"
  by (auto simp: on_relay_received_def graph_inv_def paths_ok_new paths_ok_update not_less split: option.split)

lemma remove_via_peer_inv:
  assumes "graph_inv g"
  shows "graph_inv (remove_via_peer g via)"
proof -
  define ps where "ps = map (\<lambda>(n, p). (n, drop_via via p)) (indirect_peers g)"
  define gone where "gone = map fst (filter (\<lambda>(n, p). via_peers p = []) ps)"
  have wf: "bt_wf ps" using assms by (simp add: ps_def graph_inv_def bt_wf_map)
  have get: "bt_get ps n = map_option (drop_via via) (bt_get (indirect_peers g) n)" for n
    by (simp add: ps_def bt_get_map)
  have "ip_node_id p = n \<and> paths_ok p" if p: "bt_get (fold bt_remove gone ps) n = Some p" for n p
  proof -
    have "bt_get ps n = Some p" "n \<notin> set gone"
      using p by (simp_all add: bt_get_fold_remove split: if_splits)
    then have "(n, p) \<in> set ps" "via_peers p \<noteq> []"
      using bt_get_in_set [OF wf] by (force simp: gone_def)+
    moreover obtain q where "bt_get (indirect_peers g) n = Some q" "p = drop_via via q"
      using \<open>bt_get ps n = Some p\<close> by (auto simp: get)
    ultimately show ?thesis
      using assms paths_ok_drop by (auto simp: graph_inv_def)
  qed
  then show ?thesis
    using assms wf by (simp add: remove_via_peer_def ps_def [symmetric] gone_def [symmetric] Let_def graph_inv_def
        bt_wf_fold_remove)
qed

lemma set_indirect_callsign_inv: "graph_inv g \<Longrightarrow> graph_inv (set_indirect_callsign g n cs)"
  by (auto simp: set_indirect_callsign_def graph_inv_def paths_ok_def split: option.split)

lemma graph_step_inv: "graph_step g g' \<Longrightarrow> graph_inv g \<Longrightarrow> graph_inv g'"
  by (cases rule: graph_step.cases)
    (auto intro: graph_on_discovered_inv graph_direct_inv graph_tick_inv graph_removal_inv import_peer_inv
      on_relay_received_inv remove_via_peer_inv set_indirect_callsign_inv)

lemma graph_reachable_inv:
  "graph_step\<^sup>*\<^sup>* (graph_with_config threshold lost) g \<Longrightarrow> graph_inv g"
  by (induction rule: rtranclp_induct) (auto intro: graph_inv_new graph_step_inv)

lemma counts_total_phase: "counts_total (count_phase s k) = Suc (counts_total k)"
  by (cases s) (simp_all add: count_phase_def counts_total_def)

lemma counts_total_graph: "counts_total (graph_state_counts g) = length (cg_peers g)"
proof -
  have "counts_total (fold (\<lambda>c. count_phase (cn_state c)) cs k) = length cs + counts_total k"
    for cs :: "peer_connection list" and k :: state_counts
    by (induction cs arbitrary: k) (simp_all add: counts_total_phase)
  moreover have "counts_total state_counts_default = 0" by (simp add: counts_total_def state_counts_default_def)
  ultimately show ?thesis by (simp add: graph_state_counts_def)
qed

lemma bt_insert_fresh: "bt_get m k = None \<Longrightarrow> mset (bt_insert k v m) = add_mset (k, v) (mset m)"
  by (induction k v m rule: bt_insert.induct) (auto split: if_splits)

lemma length_filter_mset_Suc:
  assumes "mset xs = add_mset x (mset ys)"
  shows "length (filter P xs) = (if P x then 1 else 0) + length (filter P ys)"
proof -
  have "size (filter_mset P (mset xs)) = size (filter_mset P (add_mset x (mset ys)))" by (simp only: assms)
  then show ?thesis by (simp flip: mset_filter)
qed

lemma discovered_after_relay_counted_twice:
  assumes "graph_inv g" "\<not> is_known g n" "g1 = fst (on_relay_received g source n 1 now)"
    "g2 = graph_on_discovered g1 n ident name mesh rssi now'"
  shows "full_total g2 = full_total g + 2"
proof -
  have fresh: "bt_get (cg_peers g) n = None" "bt_get (indirect_peers g) n = None"
    using assms(2) by (simp_all add: is_known_def bt_contains_key_def)
  have hop: "length (filter P (bt_insert n p (indirect_peers g))) =
      (if P (n, p) then 1 else 0) + length (filter P (indirect_peers g))" for P p
    using length_filter_mset_Suc [OF bt_insert_fresh [OF fresh(2), of p], of P] .
  have g1: "g1 = g\<lparr>indirect_peers := bt_insert n (indirect_peer_new n source 1 now) (indirect_peers g)\<rparr>"
    using assms(3) fresh by (simp add: on_relay_received_def bt_contains_key_def MAX_TRACKED_DEGREE_def)
  have "length (cg_peers g2) = Suc (length (cg_peers g))" "indirect_peers g2 = indirect_peers g1"
    using assms(1,4) fresh g1 by (simp_all add: graph_on_discovered_def Let_def length_bt_insert graph_inv_def)
  then show ?thesis
    by (simp add: full_total_def counts_total_graph count_hops_def g1 hop indirect_peer_new_def)
qed

end
