(* ===== verification/Peer_Manager.thy ===== *)
theory Peer_Manager
  imports Peer_State "HOL-Library.List_Lexorder" "HOL-Library.Char_ord"
begin

text \<open>
  The peer manager, from \<open>src/peer_manager.rs\<close>: the table of known peers, the map from platform
  identifiers to nodes, and the time of the last synchronisation with each peer. Each operation
  takes the locks it needs once and is an atomic step here.

  Main results: in every reachable state the table respects its capacity, never holds the node
  itself and files every peer under its own node; a peer is offered for synchronisation exactly
  when it is connected and its cooldown is over; the identifier map may outlive the peers.
\<close>

section \<open>State\<close>

record peer_manager =
  pm_config :: peer_manager_config
  pm_node_id :: node_id
  pm_peers :: "(node_id, peat_peer) btree_map"
  identifier_map :: "(string, node_id) btree_map"
  sync_history :: "(node_id, u64) btree_map"

definition peer_manager_new :: "node_id \<Rightarrow> peer_manager_config \<Rightarrow> peer_manager" where
  "peer_manager_new n cfg =
     \<lparr>pm_config = cfg, pm_node_id = n, pm_peers = [], identifier_map = [], sync_history = []\<rparr>"

section \<open>Operations\<close>

definition pm_matches_mesh :: "peer_manager \<Rightarrow> string option \<Rightarrow> bool" where
  "pm_matches_mesh m mesh = config_matches_mesh (pm_config m) mesh"

definition parse_node_id_from_name :: "string option \<Rightarrow> node_id option" where
  "parse_node_id_from_name name_opt = do {
     name \<leftarrow> name_opt;
     if CHR ''-'' \<in> set name then do {
       let hex_part = rev (takeWhile (\<lambda>c. c \<noteq> CHR ''-'') (rev name));
       if length hex_part \<noteq> 8 then None
       else map_option word_of_nat (from_str_radix16 (2 ^ 32) hex_part)
     } else None
   }"

definition pm_on_discovered ::
  "peer_manager \<Rightarrow> string \<Rightarrow> string option \<Rightarrow> i8 \<Rightarrow> string option \<Rightarrow> u64 \<Rightarrow>
   peer_manager \<times> (node_id \<times> bool) option" where
  "pm_on_discovered m ident name rssi mesh now =
     (if \<not> pm_matches_mesh m mesh then (m, None)
      else case parse_node_id_from_name name of
        None \<Rightarrow> (m, None)
      | Some n \<Rightarrow>
          if n = pm_node_id m then (m, None)
          else
            let ps = (case bt_get (identifier_map m) ident of
                        Some old \<Rightarrow> if old \<noteq> n then bt_remove old (pm_peers m) else pm_peers m
                      | None \<Rightarrow> pm_peers m)
            in if length ps \<ge> max_peers (pm_config m) \<and> \<not> bt_contains_key ps n
               then (m\<lparr>pm_peers := ps\<rparr>, None)
               else
                 let is_new = \<not> bt_contains_key ps n;
                     p = (case bt_get ps n of Some p \<Rightarrow> p | None \<Rightarrow> peat_peer_new n ident mesh name rssi);
                     p1 = peer_touch (p\<lparr>pp_rssi := rssi\<rparr>) now;
                     p2 = (case name of Some s \<Rightarrow> p1\<lparr>pp_name := Some s\<rparr> | None \<Rightarrow> p1)
                 in (m\<lparr>pm_peers := bt_insert n p2 ps, identifier_map := bt_insert ident n (identifier_map m)\<rparr>,
                     Some (n, is_new)))"

definition pm_modify :: "peer_manager \<Rightarrow> node_id \<Rightarrow> (peat_peer \<Rightarrow> peat_peer) \<Rightarrow> peer_manager" where
  "pm_modify m n f =
     (case bt_get (pm_peers m) n of
        None \<Rightarrow> m
      | Some p \<Rightarrow> m\<lparr>pm_peers := bt_insert n (f p) (pm_peers m)\<rparr>)"

definition pm_on_connected :: "peer_manager \<Rightarrow> string \<Rightarrow> u64 \<Rightarrow> peer_manager \<times> node_id option" where
  "pm_on_connected m ident now =
     (case bt_get (identifier_map m) ident of
        None \<Rightarrow> (m, None)
      | Some n \<Rightarrow> (pm_modify m n (\<lambda>p. peer_touch (p\<lparr>pp_is_connected := True\<rparr>) now), Some n))"

definition pm_on_disconnected ::
  "peer_manager \<Rightarrow> string \<Rightarrow> link_loss_reason \<Rightarrow> peer_manager \<times> (node_id \<times> link_loss_reason) option" where
  "pm_on_disconnected m ident reason =
     (case bt_get (identifier_map m) ident of
        None \<Rightarrow> (m, None)
      | Some n \<Rightarrow> (pm_modify m n (\<lambda>p. p\<lparr>pp_is_connected := False\<rparr>), Some (n, reason)))"

definition pm_on_disconnected_by_node_id :: "peer_manager \<Rightarrow> node_id \<Rightarrow> peer_manager \<times> bool" where
  "pm_on_disconnected_by_node_id m n =
     (pm_modify m n (\<lambda>p. p\<lparr>pp_is_connected := False\<rparr>), bt_contains_key (pm_peers m) n)"

definition pm_on_incoming_connection :: "peer_manager \<Rightarrow> string \<Rightarrow> node_id \<Rightarrow> u64 \<Rightarrow> peer_manager \<times> bool" where
  "pm_on_incoming_connection m ident n now =
     (if n = pm_node_id m then (m, False)
      else if length (pm_peers m) \<ge> max_peers (pm_config m) \<and> \<not> bt_contains_key (pm_peers m) n then (m, False)
      else
        let is_new = \<not> bt_contains_key (pm_peers m) n;
            p = (case bt_get (pm_peers m) n of
                   Some p \<Rightarrow> p
                 | None \<Rightarrow> peat_peer_new n ident (Some (pmc_mesh_id (pm_config m))) None (- 70));
            p1 = peer_touch (p\<lparr>pp_is_connected := True\<rparr>) now;
            ids = (if pp_identifier p1 \<noteq> ident then bt_remove (pp_identifier p1) (identifier_map m)
                   else identifier_map m);
            p2 = (if pp_identifier p1 \<noteq> ident then p1\<lparr>pp_identifier := ident\<rparr> else p1)
        in (m\<lparr>pm_peers := bt_insert n p2 (pm_peers m), identifier_map := bt_insert ident n ids\<rparr>, is_new))"

definition should_sync_with :: "peer_manager \<Rightarrow> node_id \<Rightarrow> u64 \<Rightarrow> bool" where
  "should_sync_with m n now =
     (case bt_get (sync_history m) n of
        Some last_sync \<Rightarrow> sat_sub now last_sync \<ge> sync_cooldown_ms (pm_config m)
      | None \<Rightarrow> True)"

definition pm_record_sync :: "peer_manager \<Rightarrow> node_id \<Rightarrow> u64 \<Rightarrow> peer_manager" where
  "pm_record_sync m n now = m\<lparr>sync_history := bt_insert n now (sync_history m)\<rparr>"

definition cleanup_one :: "node_id \<Rightarrow> peer_manager \<Rightarrow> peer_manager" where
  "cleanup_one n m =
     (case bt_get (pm_peers m) n of
        None \<Rightarrow> m
      | Some p \<Rightarrow> m\<lparr>pm_peers := bt_remove n (pm_peers m),
                    identifier_map := bt_remove (pp_identifier p) (identifier_map m),
                    sync_history := bt_remove n (sync_history m)\<rparr>)"

definition pm_cleanup_stale :: "peer_manager \<Rightarrow> u64 \<Rightarrow> peer_manager \<times> node_id list" where
  "pm_cleanup_stale m now =
     (let stale = map fst (filter (\<lambda>(n, p). peer_is_stale p now (peer_timeout_ms (pm_config m))) (pm_peers m))
      in (fold cleanup_one stale m, stale))"

definition pm_get_connected_peers :: "peer_manager \<Rightarrow> peat_peer list" where
  "pm_get_connected_peers m = filter pp_is_connected (map snd (pm_peers m))"

definition get_peer_by_identifier :: "peer_manager \<Rightarrow> string \<Rightarrow> peat_peer option" where
  "get_peer_by_identifier m ident = Option.bind (bt_get (identifier_map m) ident) (bt_get (pm_peers m))"

definition pm_get_node_id :: "peer_manager \<Rightarrow> string \<Rightarrow> node_id option" where
  "pm_get_node_id m ident = bt_get (identifier_map m) ident"

definition register_identifier :: "peer_manager \<Rightarrow> string \<Rightarrow> node_id \<Rightarrow> peer_manager" where
  "register_identifier m ident n = m\<lparr>identifier_map := bt_insert ident n (identifier_map m)\<rparr>"

definition connected_count :: "peer_manager \<Rightarrow> nat" where
  "connected_count m = length (pm_get_connected_peers m)"

definition get_connected_identifiers :: "peer_manager \<Rightarrow> string list" where
  "get_connected_identifiers m = map pp_identifier (pm_get_connected_peers m)"

definition peers_needing_sync :: "peer_manager \<Rightarrow> u64 \<Rightarrow> peat_peer list" where
  "peers_needing_sync m now =
     filter (\<lambda>p. pp_is_connected p \<and>
         (case bt_get (sync_history m) (pp_node_id p) of
            Some last_sync \<Rightarrow> sat_sub now last_sync \<ge> sync_cooldown_ms (pm_config m)
          | None \<Rightarrow> True)) (map snd (pm_peers m))"

section \<open>Steps\<close>

inductive pm_step :: "peer_manager \<Rightarrow> peer_manager \<Rightarrow> bool" where
  "pm_step m (fst (pm_on_discovered m ident name rssi mesh now))"
| "pm_step m (fst (pm_on_connected m ident now))"
| "pm_step m (fst (pm_on_disconnected m ident reason))"
| "pm_step m (fst (pm_on_disconnected_by_node_id m n))"
| "pm_step m (fst (pm_on_incoming_connection m ident n now))"
| "pm_step m (pm_record_sync m n now)"
| "pm_step m (fst (pm_cleanup_stale m now))"
| "pm_step m (register_identifier m ident n)"

section \<open>Lemmas\<close>

definition pm_inv :: "node_id \<Rightarrow> peer_manager_config \<Rightarrow> peer_manager \<Rightarrow> bool" where
  "pm_inv self cfg m \<longleftrightarrow>
     pm_node_id m = self \<and> pm_config m = cfg \<and> bt_wf (pm_peers m) \<and> length (pm_peers m) \<le> max_peers cfg \<and>
     (\<forall>n p. bt_get (pm_peers m) n = Some p \<longrightarrow> n \<noteq> self \<and> pp_node_id p = n)"

lemma peer_fields_kept [simp]:
  "pp_node_id (peer_touch p now) = pp_node_id p" "pp_identifier (peer_touch p now) = pp_identifier p"
  "pp_node_id (peat_peer_new n ident mesh name rssi) = n"
  "pp_identifier (peat_peer_new n ident mesh name rssi) = ident"
  by (simp_all add: peer_touch_def peat_peer_new_def)

lemma pm_inv_new: "pm_inv n cfg (peer_manager_new n cfg)"
  by (simp add: pm_inv_def peer_manager_new_def)

lemma pm_modify_inv:
  "pm_inv self cfg m \<Longrightarrow> (\<And>p. pp_node_id (f p) = pp_node_id p) \<Longrightarrow> pm_inv self cfg (pm_modify m n f)"
  by (auto simp: pm_modify_def pm_inv_def length_bt_insert split: option.split)

lemma pm_remove_inv: "pm_inv self cfg m \<Longrightarrow> pm_inv self cfg (m\<lparr>pm_peers := bt_remove n (pm_peers m)\<rparr>)"
  using length_bt_remove_le [of n "pm_peers m"] by (auto simp: pm_inv_def split: if_splits)

lemma pm_insert_inv:
  assumes "pm_inv self cfg m" "n \<noteq> self" "pp_node_id p = n"
    "length (pm_peers m) < max_peers cfg \<or> bt_contains_key (pm_peers m) n"
  shows "pm_inv self cfg (m\<lparr>pm_peers := bt_insert n p (pm_peers m), identifier_map := ids\<rparr>)"
  using assms by (auto simp: pm_inv_def length_bt_insert bt_contains_key_def)

lemma pm_on_discovered_inv:
  assumes "pm_inv self cfg m"
  shows "pm_inv self cfg (fst (pm_on_discovered m ident name rssi mesh now))"
proof (cases "pm_matches_mesh m mesh \<and> parse_node_id_from_name name \<noteq> None \<and> parse_node_id_from_name name \<noteq> Some (pm_node_id m)")
  case False
  then show ?thesis using assms by (auto simp: pm_on_discovered_def)
next
  case True
  then obtain n where n: "parse_node_id_from_name name = Some n" "n \<noteq> pm_node_id m" "pm_matches_mesh m mesh" by auto
  define ps where "ps = (case bt_get (identifier_map m) ident of
      Some old \<Rightarrow> if old \<noteq> n then bt_remove old (pm_peers m) else pm_peers m | None \<Rightarrow> pm_peers m)"
  define p where "p = (case bt_get ps n of Some p \<Rightarrow> p | None \<Rightarrow> peat_peer_new n ident mesh name rssi)"
  have m1: "pm_inv self cfg (m\<lparr>pm_peers := ps\<rparr>)"
    using assms pm_remove_inv [OF assms] by (auto simp: ps_def split: option.split)
  have "pp_node_id p = n" using m1 by (auto simp: p_def pm_inv_def split: option.split)
  then have "pm_inv self cfg ((m\<lparr>pm_peers := ps\<rparr>)\<lparr>pm_peers := bt_insert n p2 (pm_peers (m\<lparr>pm_peers := ps\<rparr>)),
      identifier_map := ids\<rparr>)"
    if "length ps < max_peers cfg \<or> bt_contains_key ps n" "pp_node_id p2 = pp_node_id p" for p2 ids
    using that n(2) assms by (intro pm_insert_inv [OF m1]) (auto simp: pm_inv_def)
  then show ?thesis
    using n m1 assms
    by (auto simp: pm_on_discovered_def ps_def [symmetric] p_def [symmetric] Let_def not_le pm_inv_def [of self cfg m]
        split: option.split)
qed

lemma pm_on_incoming_inv:
  assumes "pm_inv self cfg m"
  shows "pm_inv self cfg (fst (pm_on_incoming_connection m ident n now))"
proof -
  define p where "p = (case bt_get (pm_peers m) n of
      Some p \<Rightarrow> p | None \<Rightarrow> peat_peer_new n ident (Some (pmc_mesh_id (pm_config m))) None (- 70))"
  have "pp_node_id p = n" using assms by (auto simp: p_def pm_inv_def split: option.split)
  then show ?thesis
    using assms pm_insert_inv [OF assms, of n]
    by (auto simp: pm_on_incoming_connection_def p_def [symmetric] Let_def not_le pm_inv_def [of self cfg m])
qed

lemma cleanup_one_inv: "pm_inv self cfg m \<Longrightarrow> pm_inv self cfg (cleanup_one n m)"
  using pm_remove_inv [of self cfg m n] by (auto simp: cleanup_one_def pm_inv_def split: option.split)

lemma pm_cleanup_inv: "pm_inv self cfg m \<Longrightarrow> pm_inv self cfg (fst (pm_cleanup_stale m now))"
proof -
  assume "pm_inv self cfg m"
  then have "pm_inv self cfg (fold cleanup_one ns m)" for ns
    by (induction ns arbitrary: m) (simp_all add: cleanup_one_inv)
  then show ?thesis by (simp add: pm_cleanup_stale_def Let_def)
qed

lemma pm_simple_inv:
  assumes "pm_inv self cfg m"
  shows "pm_inv self cfg (fst (pm_on_connected m ident now))" "pm_inv self cfg (fst (pm_on_disconnected m ident reason))"
    "pm_inv self cfg (fst (pm_on_disconnected_by_node_id m n))" "pm_inv self cfg (pm_record_sync m n now)"
    "pm_inv self cfg (register_identifier m ident n)"
  using assms
  by (simp_all add: pm_on_connected_def pm_on_disconnected_def pm_on_disconnected_by_node_id_def pm_modify_inv
      split: option.split)
    (simp_all add: pm_record_sync_def register_identifier_def pm_inv_def)

lemma pm_step_inv: "pm_step m m' \<Longrightarrow> pm_inv self cfg m \<Longrightarrow> pm_inv self cfg m'"
  by (cases rule: pm_step.cases)
    (auto intro: pm_on_discovered_inv pm_on_incoming_inv pm_cleanup_inv pm_simple_inv)

lemma pm_reachable_inv: "pm_step\<^sup>*\<^sup>* (peer_manager_new n cfg) m \<Longrightarrow> pm_inv n cfg m"
  by (induction rule: rtranclp_induct) (auto intro: pm_inv_new pm_step_inv)

lemma peers_needing_sync_iff:
  assumes "pm_inv self cfg m"
  shows "p \<in> set (peers_needing_sync m now) \<longleftrightarrow>
    bt_get (pm_peers m) (pp_node_id p) = Some p \<and> pp_is_connected p \<and> should_sync_with m (pp_node_id p) now"
proof -
  have "p \<in> snd ` set (pm_peers m) \<longleftrightarrow> bt_get (pm_peers m) (pp_node_id p) = Some p"
    using assms bt_values [of "pm_peers m" p] unfolding pm_inv_def by blast
  then show ?thesis by (auto simp: peers_needing_sync_def should_sync_with_def)
qed

lemma record_sync_cooldown:
  "should_sync_with (pm_record_sync m n t) n now \<longleftrightarrow> sat_sub now t \<ge> sync_cooldown_ms (pm_config m)"
  "n' \<noteq> n \<Longrightarrow> should_sync_with (pm_record_sync m n t) n' now = should_sync_with m n' now"
  by (simp_all add: should_sync_with_def pm_record_sync_def split: option.split)

lemma fold_cleanup_one_peers:
  "bt_get (pm_peers (fold cleanup_one ns m)) n = (if n \<in> set ns then None else bt_get (pm_peers m) n)"
  by (induction ns arbitrary: m) (auto simp: cleanup_one_def split: option.split)

lemma cleanup_stale_spec:
  assumes "pm_inv self cfg m"
  shows "bt_get (pm_peers (fst (pm_cleanup_stale m now))) n =
    (case bt_get (pm_peers m) n of
       None \<Rightarrow> None
     | Some p \<Rightarrow> if peer_is_stale p now (peer_timeout_ms cfg) then None else Some p)"
proof -
  have "n \<in> fst ` {e \<in> set (pm_peers m). peer_is_stale (snd e) now (peer_timeout_ms cfg)} \<longleftrightarrow>
      (\<exists>p. bt_get (pm_peers m) n = Some p \<and> peer_is_stale p now (peer_timeout_ms cfg))"
    using assms bt_get_in_set [of "pm_peers m" n] by (force simp: pm_inv_def image_iff)
  then show ?thesis
    using assms by (auto simp: pm_cleanup_stale_def Let_def fold_cleanup_one_peers case_prod_beta pm_inv_def
        split: option.split)
qed

lemma cleanup_one_other_identifier:
  "bt_get (identifier_map m) other = Some n' \<Longrightarrow> (\<And>p. bt_get (pm_peers m) n = Some p \<Longrightarrow> pp_identifier p \<noteq> other) \<Longrightarrow>
    bt_get (identifier_map (cleanup_one n m)) other = Some n'"
  by (auto simp: cleanup_one_def split: option.split)

section \<open>Properties\<close>

text \<open>
  The peer table keeps its shape. In every state reachable by discoveries, connections in
  both directions, disconnections, syncs, clean-ups and registrations in any order, the table has
  at most \<open>max_peers\<close> entries with distinct keys, every entry is filed under its own node id, and
  the node itself is never listed as a peer.
\<close>

theorem peer_table_well_formed:
  assumes "pm_step\<^sup>*\<^sup>* (peer_manager_new n cfg) m"
  shows "length (pm_peers m) \<le> max_peers cfg \<and> distinct (map fst (pm_peers m)) \<and>
    (\<forall>k p. bt_get (pm_peers m) k = Some p \<longrightarrow> k \<noteq> n \<and> pp_node_id p = k)"
  using pm_reachable_inv [OF assms] by (simp add: pm_inv_def bt_wf_distinct)

theorem peer_table_well_formed_witness:
  "length (pm_peers (fst (pm_on_incoming_connection (peer_manager_new 1 peer_manager_config_default) ''AA'' 2 10))) \<le> 8"
proof -
  have "pm_step\<^sup>*\<^sup>* (peer_manager_new 1 peer_manager_config_default)
      (fst (pm_on_incoming_connection (peer_manager_new 1 peer_manager_config_default) ''AA'' 2 10))"
    by (rule r_into_rtranclp) (rule pm_step.intros)
  from peer_table_well_formed [OF this] show ?thesis by (simp add: peer_manager_config_default_def)
qed

end
