(* ===== verification/Peer_Liveness.thy ===== *)
theory Peer_Liveness
  imports Ordered_Map "HOL-Library.List_Lexorder" "HOL-Library.Char_ord"
begin

text \<open>
  Reconnection with exponential backoff (\<open>src/reconnect.rs\<close>) and the lifetime of silent peers
  (\<open>src/peer_lifetime.rs\<close>). An \<open>Instant\<close> and a \<open>Duration\<close> are numbers of nanoseconds; the current
  time is an argument of every operation that reads the clock. A \<open>HashMap\<close> keyed by address is an
  ordered map, so that lists of addresses are given in some order of the map.

  Main results: a tracked peer that is not exhausted is offered for reconnection as soon as
  its delay is over; the delay never exceeds its maximum and doubles until then;
  a peer is never offered more often than allowed; cleaning up removes exactly the silent peers.
\<close>

type_synonym instant = nat
type_synonym duration = nat

definition elapsed :: "instant \<Rightarrow> instant \<Rightarrow> duration" where
  "elapsed now t = now - t"

definition from_millis :: "nat \<Rightarrow> duration" where "from_millis ms = ms * 10 ^ 6"
definition from_secs :: "nat \<Rightarrow> duration" where "from_secs s = s * 10 ^ 9"

definition as_millis_u64 :: "duration \<Rightarrow> nat" where
  "as_millis_u64 d = (d div 10 ^ 6) mod 2 ^ 64"

section \<open>Reconnection\<close>

record reconnection_config =
  base_delay :: duration
  max_delay :: duration
  max_attempts :: u32
  check_interval :: duration
  use_flat_delay :: bool
  reset_on_exhaustion :: bool

definition reconnection_config_default :: reconnection_config where
  "reconnection_config_default =
     \<lparr>base_delay = from_secs 2, max_delay = from_secs 60, max_attempts = 10, check_interval = from_secs 5,
      use_flat_delay = False, reset_on_exhaustion = False\<rparr>"

definition reconnection_config_fast :: reconnection_config where
  "reconnection_config_fast =
     \<lparr>base_delay = from_millis 500, max_delay = from_secs 5, max_attempts = 5, check_interval = from_secs 1,
      use_flat_delay = False, reset_on_exhaustion = False\<rparr>"

definition reconnection_config_conservative :: reconnection_config where
  "reconnection_config_conservative =
     \<lparr>base_delay = from_secs 5, max_delay = from_secs 120, max_attempts = 5, check_interval = from_secs 10,
      use_flat_delay = False, reset_on_exhaustion = False\<rparr>"

definition kotlin_normal :: reconnection_config where
  "kotlin_normal =
     \<lparr>base_delay = from_millis 1000, max_delay = from_millis 15000, max_attempts = 20,
      check_interval = from_secs 5, use_flat_delay = False, reset_on_exhaustion = False\<rparr>"

definition kotlin_high_priority :: reconnection_config where
  "kotlin_high_priority =
     \<lparr>base_delay = from_millis 1000, max_delay = from_millis 15000, max_attempts = 20,
      check_interval = from_secs 5, use_flat_delay = True, reset_on_exhaustion = True\<rparr>"

record reconnection_state =
  attempts :: u32
  last_attempt :: instant
  rs_disconnected_at :: instant

definition reconnection_state_new :: "instant \<Rightarrow> reconnection_state" where
  "reconnection_state_new now = \<lparr>attempts = 0, last_attempt = now, rs_disconnected_at = now\<rparr>"

datatype reconnection_status = Ready | Waiting duration | Exhausted u32 | NotTracked

record reconnection_manager =
  rm_config :: reconnection_config
  rm_peers :: "(string, reconnection_state) btree_map"

definition reconnection_manager_new :: "reconnection_config \<Rightarrow> reconnection_manager" where
  "reconnection_manager_new cfg = \<lparr>rm_config = cfg, rm_peers = []\<rparr>"

definition track_disconnection :: "reconnection_manager \<Rightarrow> string \<Rightarrow> instant \<Rightarrow> reconnection_manager" where
  "track_disconnection m addr now =
     m\<lparr>rm_peers := bt_or_insert addr (reconnection_state_new now) (rm_peers m)\<rparr>"

definition reconnect_is_tracked :: "reconnection_manager \<Rightarrow> string \<Rightarrow> bool" where
  "reconnect_is_tracked m addr = bt_contains_key (rm_peers m) addr"

definition calculate_delay :: "reconnection_config \<Rightarrow> u32 \<Rightarrow> duration" where
  "calculate_delay cfg n =
     (if use_flat_delay cfg then base_delay cfg
      else
        let multiplier = 2 ^ min (unat n) 30;
            delay_ms = (as_millis_u64 (base_delay cfg) * multiplier) mod 2 ^ 64;
            max_ms = as_millis_u64 (max_delay cfg)
        in from_millis (min delay_ms max_ms))"

definition get_status :: "reconnection_manager \<Rightarrow> string \<Rightarrow> instant \<Rightarrow> reconnection_status" where
  "get_status m addr now =
     (case bt_get (rm_peers m) addr of
        None \<Rightarrow> NotTracked
      | Some s \<Rightarrow>
          if attempts s \<ge> max_attempts (rm_config m) then
            (if reset_on_exhaustion (rm_config m) then Ready else Exhausted (attempts s))
          else if attempts s = 0 then Ready
          else
            let delay = calculate_delay (rm_config m) (attempts s); e = elapsed now (last_attempt s)
            in if e \<ge> delay then Ready else Waiting (delay - e))"

definition reset_exhausted :: "reconnection_config \<Rightarrow> instant \<Rightarrow> reconnection_state \<Rightarrow> reconnection_state" where
  "reset_exhausted cfg now s =
     (if attempts s \<ge> max_attempts cfg then s\<lparr>attempts := 0, last_attempt := now\<rparr> else s)"

definition offer :: "reconnection_config \<Rightarrow> instant \<Rightarrow> reconnection_state \<Rightarrow> bool" where
  "offer cfg now s \<longleftrightarrow>
     (if attempts s \<ge> max_attempts cfg then False
      else if attempts s = 0 then True
      else elapsed now (last_attempt s) \<ge> calculate_delay cfg (attempts s))"

definition get_peers_to_reconnect :: "reconnection_manager \<Rightarrow> instant \<Rightarrow> reconnection_manager \<times> string list" where
  "get_peers_to_reconnect m now =
     (let ps = (if reset_on_exhaustion (rm_config m)
                then map (\<lambda>(a, s). (a, reset_exhausted (rm_config m) now s)) (rm_peers m)
                else rm_peers m)
      in (m\<lparr>rm_peers := ps\<rparr>, map fst (filter (\<lambda>(a, s). offer (rm_config m) now s) ps)))"

definition record_attempt :: "string \<Rightarrow> instant \<Rightarrow> reconnection_manager \<Rightarrow> reconnection_manager" where
  "record_attempt addr now m =
     (case bt_get (rm_peers m) addr of
        None \<Rightarrow> m
      | Some s \<Rightarrow> m\<lparr>rm_peers := bt_insert addr (s\<lparr>attempts := attempts s + 1, last_attempt := now\<rparr>) (rm_peers m)\<rparr>)"

definition on_connection_success :: "reconnection_manager \<Rightarrow> string \<Rightarrow> reconnection_manager" where
  "on_connection_success m addr = m\<lparr>rm_peers := bt_remove addr (rm_peers m)\<rparr>"

definition reconnect_stop_tracking :: "reconnection_manager \<Rightarrow> string \<Rightarrow> reconnection_manager" where
  "reconnect_stop_tracking m addr = m\<lparr>rm_peers := bt_remove addr (rm_peers m)\<rparr>"

definition reconnect_clear :: "reconnection_manager \<Rightarrow> reconnection_manager" where
  "reconnect_clear m = m\<lparr>rm_peers := []\<rparr>"

definition reconnect_next_delay :: "reconnection_manager \<Rightarrow> string \<Rightarrow> duration option option" where
  "reconnect_next_delay m addr =
     map_option (\<lambda>s. if attempts s \<ge> max_attempts (rm_config m) then None
                     else if attempts s = 0 then Some 0
                     else Some (calculate_delay (rm_config m) (attempts s)))
       (bt_get (rm_peers m) addr)"

section \<open>Lifetime\<close>

record lifetime_config =
  disconnected_timeout :: duration
  connected_timeout :: duration
  cleanup_interval :: duration

definition lifetime_config_default :: lifetime_config where
  "lifetime_config_default =
     \<lparr>disconnected_timeout = from_secs 30, connected_timeout = from_secs 60, cleanup_interval = from_secs 10\<rparr>"

definition lifetime_config_fast :: lifetime_config where
  "lifetime_config_fast =
     \<lparr>disconnected_timeout = from_secs 5, connected_timeout = from_secs 10, cleanup_interval = from_secs 2\<rparr>"

definition lifetime_config_relaxed :: lifetime_config where
  "lifetime_config_relaxed =
     \<lparr>disconnected_timeout = from_secs 60, connected_timeout = from_secs 120, cleanup_interval = from_secs 30\<rparr>"

record lifetime_state =
  ls_connected :: bool
  ls_last_seen :: instant
  ls_first_seen :: instant
  ls_disconnected_at :: "instant option"

definition lifetime_state_new :: "bool \<Rightarrow> instant \<Rightarrow> lifetime_state" where
  "lifetime_state_new conn now =
     \<lparr>ls_connected = conn, ls_last_seen = now, ls_first_seen = now,
      ls_disconnected_at = (if conn then None else Some now)\<rparr>"

datatype stale_reason = DisconnectedTimeout | ConnectedTimeout

record stale_peer_info =
  sp_address :: string
  sp_reason :: stale_reason
  sp_silent_for :: duration
  was_connected :: bool

record lifetime_manager =
  lm_config :: lifetime_config
  lm_peers :: "(string, lifetime_state) btree_map"

definition lifetime_manager_new :: "lifetime_config \<Rightarrow> lifetime_manager" where
  "lifetime_manager_new cfg = \<lparr>lm_config = cfg, lm_peers = []\<rparr>"

definition activity :: "bool \<Rightarrow> instant \<Rightarrow> lifetime_state \<Rightarrow> lifetime_state" where
  "activity conn now s =
     (let s1 = s\<lparr>ls_last_seen := now\<rparr> in
      if conn \<and> \<not> ls_connected s then s1\<lparr>ls_connected := True, ls_disconnected_at := None\<rparr>
      else if \<not> conn \<and> ls_connected s then s1\<lparr>ls_connected := False, ls_disconnected_at := Some now\<rparr>
      else s1)"

definition on_peer_activity :: "lifetime_manager \<Rightarrow> string \<Rightarrow> bool \<Rightarrow> instant \<Rightarrow> lifetime_manager" where
  "on_peer_activity m addr conn now =
     m\<lparr>lm_peers := bt_insert addr
         (case bt_get (lm_peers m) addr of Some s \<Rightarrow> activity conn now s | None \<Rightarrow> lifetime_state_new conn now)
         (lm_peers m)\<rparr>"

definition on_peer_disconnected :: "lifetime_manager \<Rightarrow> string \<Rightarrow> instant \<Rightarrow> lifetime_manager" where
  "on_peer_disconnected m addr now =
     (case bt_get (lm_peers m) addr of
        None \<Rightarrow> m
      | Some s \<Rightarrow>
          if ls_connected s
          then m\<lparr>lm_peers := bt_insert addr (s\<lparr>ls_connected := False, ls_disconnected_at := Some now\<rparr>) (lm_peers m)\<rparr>
          else m)"

definition lifetime_is_connected :: "lifetime_manager \<Rightarrow> string \<Rightarrow> bool" where
  "lifetime_is_connected m addr = (case bt_get (lm_peers m) addr of None \<Rightarrow> False | Some s \<Rightarrow> ls_connected s)"

definition lifetime_is_stale :: "lifetime_config \<Rightarrow> instant \<Rightarrow> lifetime_state \<Rightarrow> bool" where
  "lifetime_is_stale cfg now s \<longleftrightarrow>
     elapsed now (ls_last_seen s) > (if ls_connected s then connected_timeout cfg else disconnected_timeout cfg)"

definition get_stale_peers :: "lifetime_manager \<Rightarrow> instant \<Rightarrow> stale_peer_info list" where
  "get_stale_peers m now =
     map (\<lambda>(a, s). \<lparr>sp_address = a,
                    sp_reason = (if ls_connected s then ConnectedTimeout else DisconnectedTimeout),
                    sp_silent_for = elapsed now (ls_last_seen s), was_connected = ls_connected s\<rparr>)
       (filter (\<lambda>(a, s). lifetime_is_stale (lm_config m) now s) (lm_peers m))"

definition lifetime_remove_peer :: "lifetime_manager \<Rightarrow> string \<Rightarrow> lifetime_manager \<times> bool" where
  "lifetime_remove_peer m addr = (m\<lparr>lm_peers := bt_remove addr (lm_peers m)\<rparr>, bt_contains_key (lm_peers m) addr)"

definition cleanup_stale_peers :: "lifetime_manager \<Rightarrow> instant \<Rightarrow> lifetime_manager \<times> stale_peer_info list" where
  "cleanup_stale_peers m now =
     (let stale = get_stale_peers m now
      in (m\<lparr>lm_peers := fold bt_remove (map sp_address stale) (lm_peers m)\<rparr>, stale))"

definition lifetime_stats :: "lifetime_manager \<Rightarrow> nat \<times> nat \<times> nat" where
  "lifetime_stats m =
     (length (lm_peers m), length (filter (ls_connected \<circ> snd) (lm_peers m)),
      length (filter (Not \<circ> ls_connected \<circ> snd) (lm_peers m)))"

definition lifetime_clear :: "lifetime_manager \<Rightarrow> lifetime_manager" where
  "lifetime_clear m = m\<lparr>lm_peers := []\<rparr>"

section \<open>Lemmas: reconnection\<close>

lemma from_millis_as_millis: "from_millis (as_millis_u64 d) \<le> d"
proof -
  have "from_millis (as_millis_u64 d) \<le> d div 10 ^ 6 * 10 ^ 6" by (simp add: from_millis_def as_millis_u64_def)
  also have "\<dots> \<le> d" by simp
  finally show ?thesis .
qed

lemma calculate_delay_le_max: "\<not> use_flat_delay cfg \<Longrightarrow> calculate_delay cfg n \<le> max_delay cfg"
proof -
  assume "\<not> use_flat_delay cfg"
  then have "calculate_delay cfg n \<le> from_millis (as_millis_u64 (max_delay cfg))"
    by (simp add: calculate_delay_def Let_def from_millis_def)
  then show ?thesis using from_millis_as_millis le_trans by blast
qed

lemma calculate_delay_backoff:
  assumes "\<not> use_flat_delay cfg" "as_millis_u64 (base_delay cfg) < 2 ^ 34"
  shows "calculate_delay cfg n =
    from_millis (min (as_millis_u64 (base_delay cfg) * 2 ^ min (unat n) 30) (as_millis_u64 (max_delay cfg)))"
proof -
  have "(2 :: nat) ^ min (unat n) 30 \<le> 2 ^ 30" by (intro power_increasing) auto
  then have "as_millis_u64 (base_delay cfg) * 2 ^ min (unat n) 30 < 2 ^ 34 * 2 ^ 30"
    using assms(2) by (intro mult_less_le_imp_less) auto
  then have "(as_millis_u64 (base_delay cfg) * 2 ^ min (unat n) 30) mod 2 ^ 64 =
      as_millis_u64 (base_delay cfg) * 2 ^ min (unat n) 30" by simp
  then show ?thesis using assms(1) by (simp add: calculate_delay_def Let_def)
qed

definition wait_limit :: "reconnection_config \<Rightarrow> duration" where
  "wait_limit cfg = (if use_flat_delay cfg then base_delay cfg else max_delay cfg)"

lemma calculate_delay_limit: "calculate_delay cfg n \<le> wait_limit cfg"
  using calculate_delay_le_max [of cfg n] by (simp add: wait_limit_def) (simp add: calculate_delay_def)

lemma offer_when_due:
  "attempts s < max_attempts cfg \<Longrightarrow>
   attempts s = 0 \<or> last_attempt s + calculate_delay cfg (attempts s) \<le> now \<Longrightarrow> offer cfg now s"
  by (auto simp: offer_def elapsed_def not_le)

lemma get_status_ready_iff_offer:
  assumes "bt_get (rm_peers m) addr = Some s" "\<not> reset_on_exhaustion (rm_config m)"
  shows "get_status m addr now = Ready \<longleftrightarrow> offer (rm_config m) now s"
  using assms by (simp add: get_status_def offer_def Let_def)

definition reconnect_wf :: "reconnection_manager \<Rightarrow> bool" where
  "reconnect_wf m \<longleftrightarrow> bt_wf (rm_peers m)"

lemma reconnect_wf_ops:
  "reconnect_wf (reconnection_manager_new cfg)"
  "reconnect_wf m \<Longrightarrow> reconnect_wf (track_disconnection m addr now)"
  "reconnect_wf m \<Longrightarrow> reconnect_wf (fst (get_peers_to_reconnect m now))"
  "reconnect_wf m \<Longrightarrow> reconnect_wf (record_attempt addr now m)"
  "reconnect_wf m \<Longrightarrow> reconnect_wf (on_connection_success m addr)"
  by (auto simp: reconnect_wf_def reconnection_manager_new_def track_disconnection_def get_peers_to_reconnect_def
      record_attempt_def on_connection_success_def bt_wf_map [of "\<lambda>_. reset_exhausted (rm_config m) now"] Let_def
      split: option.split)

lemma offered_iff:
  assumes "reconnect_wf m"
  shows "addr \<in> set (snd (get_peers_to_reconnect m now)) \<longleftrightarrow>
    (\<exists>s. bt_get (rm_peers (fst (get_peers_to_reconnect m now))) addr = Some s \<and> offer (rm_config m) now s)"
proof -
  let ?ps = "rm_peers (fst (get_peers_to_reconnect m now))"
  have "bt_wf ?ps" using reconnect_wf_ops(3) [OF assms, of now] by (simp add: reconnect_wf_def)
  moreover have "snd (get_peers_to_reconnect m now) = map fst (filter (\<lambda>(a, s). offer (rm_config m) now s) ?ps)"
    by (simp add: get_peers_to_reconnect_def Let_def)
  ultimately show ?thesis by (force simp: bt_get_in_set [symmetric] image_iff)
qed

lemma polled_state:
  "bt_get (rm_peers (fst (get_peers_to_reconnect m now))) addr =
    map_option (if reset_on_exhaustion (rm_config m) then reset_exhausted (rm_config m) now else id)
      (bt_get (rm_peers m) addr)"
  by (simp add: get_peers_to_reconnect_def Let_def bt_get_map option.map_id)

lemma reconnect_offered:
  assumes "reconnect_wf m" "bt_get (rm_peers m) addr = Some s" "0 < max_attempts (rm_config m)"
    and "if attempts s < max_attempts (rm_config m)
         then attempts s = 0 \<or> last_attempt s + calculate_delay (rm_config m) (attempts s) \<le> now
         else reset_on_exhaustion (rm_config m)"
  shows "addr \<in> set (snd (get_peers_to_reconnect m now))"
proof (cases "attempts s < max_attempts (rm_config m)")
  case True
  then have "offer (rm_config m) now s" using assms(4) by (intro offer_when_due) simp_all
  moreover have "reset_exhausted (rm_config m) now s = s" using True by (simp add: reset_exhausted_def)
  ultimately show ?thesis using assms(2) by (auto simp: offered_iff [OF assms(1)] polled_state)
next
  case False
  then have "offer (rm_config m) now (reset_exhausted (rm_config m) now s)"
    using assms(3) by (auto simp: offer_def reset_exhausted_def not_less not_le)
  then show ?thesis using assms(2,4) False by (auto simp: offered_iff [OF assms(1)] polled_state)
qed

text \<open>A driver that attempts every peer it is offered, at the times given.\<close>

fun reconnect_run :: "reconnection_manager \<Rightarrow> instant list \<Rightarrow> reconnection_manager \<times> string list list" where
  "reconnect_run m [] = (m, [])"
| "reconnect_run m (t # ts) =
     (let (m1, offered) = get_peers_to_reconnect m t;
          (m2, rest) = reconnect_run (fold (\<lambda>a. record_attempt a t) offered m1) ts
      in (m2, offered # rest))"

lemma record_attempts_get:
  assumes "distinct as"
  shows "bt_get (rm_peers (fold (\<lambda>a. record_attempt a t) as m)) addr =
    (if addr \<in> set as
     then map_option (\<lambda>s. s\<lparr>attempts := attempts s + 1, last_attempt := t\<rparr>) (bt_get (rm_peers m) addr)
     else bt_get (rm_peers m) addr)"
  using assms by (induction as arbitrary: m) (auto simp: record_attempt_def split: option.split)

lemma record_attempts_wf:
  "reconnect_wf m \<Longrightarrow> reconnect_wf (fold (\<lambda>a. record_attempt a t) as m)"
  by (induction as arbitrary: m) (simp_all add: reconnect_wf_ops(4))

lemma record_attempts_config [simp]: "rm_config (fold (\<lambda>a. record_attempt a t) as m) = rm_config m"
  by (induction as arbitrary: m) (simp_all add: record_attempt_def split: option.split)

lemma poll_config [simp]: "rm_config (fst (get_peers_to_reconnect m t)) = rm_config m"
  by (simp add: get_peers_to_reconnect_def Let_def)

lemma offered_distinct: "reconnect_wf m \<Longrightarrow> distinct (snd (get_peers_to_reconnect m t))"
proof -
  assume "reconnect_wf m"
  then have "bt_wf (rm_peers (fst (get_peers_to_reconnect m t)))"
    using reconnect_wf_ops(3) by (simp add: reconnect_wf_def)
  from bt_wf_distinct [OF bt_wf_filter [OF this]] show ?thesis
    by (simp add: get_peers_to_reconnect_def Let_def)
qed

lemma reconnect_run_bounded:
  assumes "reconnect_wf m" "\<not> reset_on_exhaustion (rm_config m)" "bt_get (rm_peers m) addr = Some s"
    "attempts s \<le> max_attempts (rm_config m)"
  shows "length (filter (\<lambda>offered. addr \<in> set offered) (snd (reconnect_run m ts))) + unat (attempts s)
    \<le> unat (max_attempts (rm_config m))"
  using assms
proof (induction ts arbitrary: m s)
  case Nil
  then show ?case by (simp add: word_le_nat_alt)
next
  case (Cons t ts)
  let ?os = "snd (get_peers_to_reconnect m t)"
  let ?m = "fold (\<lambda>a. record_attempt a t) ?os (fst (get_peers_to_reconnect m t))"
  have same: "fst (get_peers_to_reconnect m t) = m"
    using Cons.prems(2) by (simp add: get_peers_to_reconnect_def Let_def)
  have off: "addr \<in> set ?os \<longleftrightarrow> offer (rm_config m) t s"
    using offered_iff [OF Cons.prems(1), of addr t] Cons.prems(3) unfolding same by simp
  have wf: "reconnect_wf ?m" "\<not> reset_on_exhaustion (rm_config ?m)"
    using Cons.prems(1,2) by (simp_all add: record_attempts_wf reconnect_wf_ops(3))
  show ?case
  proof (cases "addr \<in> set ?os")
    case True
    then have less: "attempts s < max_attempts (rm_config m)" using off by (auto simp: offer_def not_le split: if_splits)
    have "bt_get (rm_peers ?m) addr = Some (s\<lparr>attempts := attempts s + 1, last_attempt := t\<rparr>)"
      using True Cons.prems(3) record_attempts_get [OF offered_distinct [OF Cons.prems(1)]] unfolding same by simp
    then have "length (filter (\<lambda>offered. addr \<in> set offered) (snd (reconnect_run ?m ts))) + unat (attempts s + 1)
        \<le> unat (max_attempts (rm_config m))"
      using Cons.IH [OF wf] less by (simp add: inc_le)
    then show ?thesis using True unat_Suc_less [OF less] by (simp add: case_prod_beta Let_def)
  next
    case False
    then have "bt_get (rm_peers ?m) addr = Some s"
      using Cons.prems(3) record_attempts_get [OF offered_distinct [OF Cons.prems(1)]] unfolding same by simp
    then show ?thesis using Cons.IH [OF wf] Cons.prems(4) False by (simp add: case_prod_beta Let_def)
  qed
qed

section \<open>Lemmas: lifetime\<close>

definition lifetime_inv :: "lifetime_manager \<Rightarrow> bool" where
  "lifetime_inv m \<longleftrightarrow> bt_wf (lm_peers m) \<and>
     (\<forall>a s. bt_get (lm_peers m) a = Some s \<longrightarrow> (ls_disconnected_at s = None \<longleftrightarrow> ls_connected s))"

lemma lifetime_inv_ops:
  "lifetime_inv (lifetime_manager_new cfg)"
  "lifetime_inv m \<Longrightarrow> lifetime_inv (on_peer_activity m addr conn now)"
  "lifetime_inv m \<Longrightarrow> lifetime_inv (on_peer_disconnected m addr now)"
  "lifetime_inv m \<Longrightarrow> lifetime_inv (fst (lifetime_remove_peer m addr))"
  "lifetime_inv m \<Longrightarrow> lifetime_inv (fst (cleanup_stale_peers m now))"
  by (auto simp: lifetime_inv_def lifetime_manager_new_def on_peer_activity_def on_peer_disconnected_def
      lifetime_remove_peer_def cleanup_stale_peers_def lifetime_state_new_def activity_def Let_def bt_wf_fold_remove
      split: option.split dest: bt_get_fold_remove_Some)

lemma cleanup_stale_peers_spec:
  assumes "lifetime_inv m"
  shows "bt_get (lm_peers (fst (cleanup_stale_peers m now))) a =
    (case bt_get (lm_peers m) a of
       None \<Rightarrow> None
     | Some s \<Rightarrow> if lifetime_is_stale (lm_config m) now s then None else Some s)"
proof -
  have "sp_address ` set (get_stale_peers m now) =
      fst ` {e \<in> set (lm_peers m). lifetime_is_stale (lm_config m) now (snd e)}"
    by (force simp: get_stale_peers_def image_iff)
  moreover have "a \<in> fst ` {e \<in> set (lm_peers m). lifetime_is_stale (lm_config m) now (snd e)} \<longleftrightarrow>
      (\<exists>s. bt_get (lm_peers m) a = Some s \<and> lifetime_is_stale (lm_config m) now s)"
    using assms bt_get_in_set [of "lm_peers m" a] by (force simp: lifetime_inv_def image_iff)
  ultimately show ?thesis
    by (auto simp: cleanup_stale_peers_def Let_def bt_get_fold_remove split: option.split)
qed

lemma lifetime_stats_total: "lifetime_stats m = (n, c, d) \<Longrightarrow> c + d = n"
  using sum_length_filter_compl [of "ls_connected \<circ> snd" "lm_peers m"] by (auto simp: lifetime_stats_def comp_def)

lemma silent_peer_stale_at_disconnect:
  assumes "bt_get (lm_peers m) a = Some s" "ls_connected s"
    "disconnected_timeout (lm_config m) < elapsed now (ls_last_seen s)" "lifetime_inv m"
  shows "a \<in> sp_address ` set (get_stale_peers (on_peer_disconnected m a now) now)"
proof -
  let ?s = "s\<lparr>ls_connected := False, ls_disconnected_at := Some now\<rparr>"
  have m: "on_peer_disconnected m a now = m\<lparr>lm_peers := bt_insert a ?s (lm_peers m)\<rparr>"
    using assms(1,2) by (simp add: on_peer_disconnected_def)
  have "(a, ?s) \<in> set (bt_insert a ?s (lm_peers m))"
    using assms(4) bt_get_in_set [of "bt_insert a ?s (lm_peers m)" a ?s] by (simp add: lifetime_inv_def)
  moreover have "lifetime_is_stale (lm_config m) now ?s" using assms(3) by (simp add: lifetime_is_stale_def)
  ultimately show ?thesis by (force simp: m get_stale_peers_def image_iff)
qed

section \<open>Properties\<close>

text \<open>
  C24: A lost peer is retried, and not for ever. While attempts are left, a poll offers the peer as
  soon as the delay of its own number of attempts has passed since the last one, the first time at
  once; that delay never exceeds the configured limit. A peer without attempts left is offered again
  only under reset on exhaustion. Without that option, under a driver that records an attempt for
  every peer it is offered, a peer is offered at most as often as it has attempts left, however
  often and whenever the driver polls.
\<close>

theorem reconnect_bounded_and_live:
  assumes "reconnect_wf m" "bt_get (rm_peers m) addr = Some s" "attempts s \<le> max_attempts (rm_config m)"
    and "0 < max_attempts (rm_config m)"
  shows "(attempts s < max_attempts (rm_config m) \<and>
       (attempts s = 0 \<or> last_attempt s + calculate_delay (rm_config m) (attempts s) \<le> now) \<longrightarrow>
       addr \<in> set (snd (get_peers_to_reconnect m now))) \<and>
    calculate_delay (rm_config m) (attempts s) \<le> wait_limit (rm_config m) \<and>
    (attempts s = max_attempts (rm_config m) \<longrightarrow>
       (addr \<in> set (snd (get_peers_to_reconnect m now)) \<longleftrightarrow> reset_on_exhaustion (rm_config m))) \<and>
    (\<not> reset_on_exhaustion (rm_config m) \<longrightarrow>
       length (filter (\<lambda>offered. addr \<in> set offered) (snd (reconnect_run m ts))) + unat (attempts s)
         \<le> unat (max_attempts (rm_config m)))"
proof -
  have "addr \<notin> set (snd (get_peers_to_reconnect m now))"
    if "attempts s = max_attempts (rm_config m)" "\<not> reset_on_exhaustion (rm_config m)"
    using that assms(2) by (simp add: offered_iff [OF assms(1)] polled_state offer_def)
  then show ?thesis
    using reconnect_run_bounded [OF assms(1) _ assms(2,3), of ts] reconnect_offered [OF assms(1,2,4), of now]
    by (auto simp: calculate_delay_limit)
qed

theorem reconnect_bounded_and_live_witness:
  "let m = track_disconnection (reconnection_manager_new reconnection_config_default) ''AA'' 0
   in length (filter (\<lambda>offered. ''AA'' \<in> set offered) (snd (reconnect_run m [1, 2, 3]))) \<le> 10 \<and>
      ''AA'' \<in> set (snd (get_peers_to_reconnect m 5))"
proof -
  let ?m = "track_disconnection (reconnection_manager_new reconnection_config_default) ''AA'' 0"
  have "reconnect_wf ?m" "\<not> reset_on_exhaustion (rm_config ?m)" "bt_get (rm_peers ?m) ''AA'' = Some (reconnection_state_new 0)"
      "attempts (reconnection_state_new 0) = 0" "max_attempts (rm_config ?m) = 10"
    by (simp_all add: track_disconnection_def reconnection_manager_new_def reconnection_config_default_def reconnect_wf_def
        bt_get_def bt_wf_Cons bt_or_insert_def bt_contains_key_def reconnection_state_new_def)
  then show ?thesis
    using reconnect_bounded_and_live [of ?m "''AA''" "reconnection_state_new 0" 5 "[1, 2, 3]"] by (simp add: Let_def)
qed

end
