(* ===== verification/Gossip.thy ===== *)
theory Gossip
  imports Document Peer_State
begin

text \<open>
  Gossip strategies, from \<open>src/gossip.rs\<close>: which peers receive a document and whether a merge is
  forwarded. The linear congruential index of \<open>RandomFanout\<close> keeps its 64-bit wrap-around, and
  \<open>usize\<close> has \<open>w\<close> bits; without a fixed seed the code reads the clock at every iteration, so the
  seed is a function of the iteration.

  Main results: the random strategy with a fixed seed selects exactly \<open>fanout\<close> different peers, and
  never more without one; the signal strategy selects exactly \<open>fanout\<close> peers, the strongest first.
\<close>

section \<open>Strategies\<close>

definition default_should_forward :: "merge_result \<Rightarrow> bool" where
  "default_should_forward r \<longleftrightarrow> mr_counter_changed r \<or> mr_emergency_changed r \<or> mr_chat_changed r"

definition random_fanout_new :: "nat \<Rightarrow> nat" where
  "random_fanout_new fanout = max fanout 1"

definition random_index :: "nat \<Rightarrow> u64 \<Rightarrow> nat \<Rightarrow> nat \<Rightarrow> nat" where
  "random_index w seed n iteration =
     (unat (seed * 6364136223846793005 + word_of_nat iteration) mod 2 ^ w) mod n"

fun random_loop :: "(nat \<Rightarrow> nat) \<Rightarrow> nat \<Rightarrow> nat list \<Rightarrow> nat list \<Rightarrow> nat list" where
  "random_loop idx fanout [] selected = selected"
| "random_loop idx fanout (i # is) selected =
     (if length selected \<ge> fanout then selected
      else if idx i \<in> set selected then random_loop idx fanout is selected
      else random_loop idx fanout is (selected @ [idx i]))"

definition random_select :: "nat \<Rightarrow> (nat \<Rightarrow> u64) \<Rightarrow> nat \<Rightarrow> peat_peer list \<Rightarrow> peat_peer list" where
  "random_select w seed fanout ps =
     (if ps = [] then []
      else if length ps \<le> fanout then ps
      else map (\<lambda>i. ps ! i)
             (random_loop (\<lambda>i. random_index w (seed i) (length ps) i) fanout [0..<fanout * 3] []))"

definition broadcast_select :: "peat_peer list \<Rightarrow> peat_peer list" where
  "broadcast_select ps = ps"

definition signal_pick :: "nat \<Rightarrow> i8 \<Rightarrow> peat_peer \<Rightarrow> peat_peer list \<Rightarrow> peat_peer list" where
  "signal_pick fanout threshold p sel =
     (if length sel \<ge> fanout then sel
      else
        let last_rssi = (if sel = [] then - 100 else pp_rssi (last sel))
        in if last_rssi - threshold \<le>s pp_rssi p \<or> length sel < fanout div 2 + 1 then sel @ [p] else sel)"

definition signal_fill :: "nat \<Rightarrow> peat_peer \<Rightarrow> peat_peer list \<Rightarrow> peat_peer list" where
  "signal_fill fanout p sel =
     (if length sel \<ge> fanout then sel
      else if pp_node_id p \<in> pp_node_id ` set sel then sel else sel @ [p])"

definition signal_select :: "nat \<Rightarrow> i8 \<Rightarrow> peat_peer list \<Rightarrow> peat_peer list" where
  "signal_select fanout threshold ps =
     (if ps = [] then []
      else if length ps \<le> fanout then ps
      else
        let ranked = sort_key (\<lambda>p. - sint (pp_rssi p)) ps;
            sel = fold (signal_pick fanout threshold) (tl ranked) [hd ranked]
        in fold (signal_fill fanout) ranked sel)"

record emergency_aware =
  normal_fanout :: nat
  emergency_fanout :: nat
  emergency_mode :: bool

definition emergency_aware_new :: "nat \<Rightarrow> nat \<Rightarrow> emergency_aware" where
  "emergency_aware_new w fanout =
     \<lparr>normal_fanout = max fanout 1, emergency_fanout = 2 ^ w - 1, emergency_mode = False\<rparr>"

definition set_emergency :: "emergency_aware \<Rightarrow> bool \<Rightarrow> emergency_aware" where
  "set_emergency e active = e\<lparr>emergency_mode := active\<rparr>"

definition effective_fanout :: "emergency_aware \<Rightarrow> nat" where
  "effective_fanout e = (if emergency_mode e then emergency_fanout e else normal_fanout e)"

definition emergency_select :: "emergency_aware \<Rightarrow> peat_peer list \<Rightarrow> peat_peer list" where
  "emergency_select e ps =
     (let fanout = effective_fanout e in if length ps \<le> fanout then ps else take fanout ps)"

definition emergency_should_forward :: "emergency_aware \<Rightarrow> merge_result \<Rightarrow> emergency_aware \<times> bool" where
  "emergency_should_forward e r =
     (if emergency_mode e then (e, True)
      else
        let e1 = (if mr_is_emergency r \<or> mr_emergency_changed r then set_emergency e True else e)
        in (e1, mr_counter_changed r \<or> mr_emergency_changed r))"

section \<open>Lemmas: random fanout\<close>

lemma random_loop_distinct:
  "distinct sel \<Longrightarrow> length sel \<le> fanout \<Longrightarrow>
   distinct (random_loop idx fanout is sel) \<and> length (random_loop idx fanout is sel) \<le> fanout \<and>
   set (random_loop idx fanout is sel) \<subseteq> set sel \<union> idx ` set is"
  by (induction idx fanout "is" sel rule: random_loop.induct) auto

lemma random_loop_full:
  "length (random_loop idx fanout is sel) \<ge> fanout \<or> idx ` set is \<subseteq> set (random_loop idx fanout is sel)"
  "set sel \<subseteq> set (random_loop idx fanout is sel)"
proof (induction idx fanout "is" sel rule: random_loop.induct)
  case (2 idx fanout i "is" sel)
  { case 1
    show ?case using 2 by (cases "length sel \<ge> fanout"; cases "idx i \<in> set sel") auto
  next
    case 2
    show ?case using "2.IH" by auto
  }
qed auto

lemma random_index_less: "0 < n \<Longrightarrow> random_index w seed n i < n"
  by (simp add: random_index_def)

lemma unat_add_index: "unat (b + word_of_nat i :: u64) = (unat b + i) mod 2 ^ 64"
  by (simp add: unat_word_ariths unat_of_nat mod_add_right_eq)

lemma consecutive_residues:
  assumes "f \<le> n"
  shows "inj_on (\<lambda>i. (c + i) mod n) {0..<f :: nat}"
proof (rule inj_onI)
  fix i j assume ij: "i \<in> {0..<f}" "j \<in> {0..<f}" "(c + i) mod n = (c + j) mod n"
  have *: "x = y" if "x \<le> y" "y < n" "(c + x) mod n = (c + y) mod n" for x y
  proof -
    have "n dvd (c + y) - (c + x)" using that mod_eq_dvd_iff_nat [of "c + x" "c + y" n] by simp
    then show ?thesis using that by (auto dest: dvd_imp_le)
  qed
  show "i = j"
  proof (cases "i \<le> j")
    case True
    then show ?thesis using *[of i j] ij assms by simp
  next
    case False
    then show ?thesis using *[of j i] ij assms by simp
  qed
qed

lemma random_indices_many:
  assumes "0 < f" "f \<le> n" "3 * f \<le> 2 ^ 64"
  shows "f \<le> card ((\<lambda>i. random_index 64 seed n i) ` {0..<f * 3})"
proof -
  define b where "b = unat (seed * 6364136223846793005)"
  have b: "b < 2 ^ 64" using unat_less [of "seed * 6364136223846793005"] by (simp add: b_def)
  have idx: "random_index 64 seed n i = ((b + i) mod 2 ^ 64) mod n" for i
    by (simp add: random_index_def unat_add_index b_def)
  obtain lo c where lo: "lo + f \<le> f * 3" "\<And>j. j < f \<Longrightarrow> random_index 64 seed n (lo + j) = (c + j) mod n"
  proof (cases "b + f \<le> 2 ^ 64")
    case True
    show ?thesis by (rule that [of 0 b]) (use True in \<open>simp_all add: idx\<close>)
  next
    case False
    define k where "k = 2 ^ 64 - b"
    have "(b + (k + j)) mod 2 ^ 64 = j" if "j < f" for j
    proof -
      have "b + (k + j) = 2 ^ 64 + j" using b by (simp add: k_def)
      then have "(b + (k + j)) mod 2 ^ 64 = (2 ^ 64 + j) mod 2 ^ 64" by (simp only:)
      then show ?thesis using that assms(3) by simp
    qed
    moreover have "k + f \<le> f * 3" using False by (simp add: k_def)
    ultimately show ?thesis by (intro that [of k 0]) (simp_all add: idx)
  qed
  have "f = card ((\<lambda>j. (c + j) mod n) ` {0..<f})"
    using consecutive_residues [OF assms(2), of c] by (simp add: card_image)
  also have "\<dots> \<le> card ((\<lambda>i. random_index 64 seed n i) ` {0..<f * 3})"
  proof (rule card_mono)
    show "(\<lambda>j. (c + j) mod n) ` {0..<f} \<subseteq> (\<lambda>i. random_index 64 seed n i) ` {0..<f * 3}"
    proof
      fix x assume "x \<in> (\<lambda>j. (c + j) mod n) ` {0..<f}"
      then obtain j where "j < f" "x = random_index 64 seed n (lo + j)" using lo(2) by auto
      then show "x \<in> (\<lambda>i. random_index 64 seed n i) ` {0..<f * 3}" using lo(1) by force
    qed
  qed simp
  finally show ?thesis .
qed

lemma random_select_bounds:
  assumes "0 < length ps"
  shows "set (random_select w seed fanout ps) \<subseteq> set ps" "length (random_select w seed fanout ps) \<le> max fanout 0"
    "distinct ps \<Longrightarrow> distinct (random_select w seed fanout ps)"
proof -
  let ?is = "random_loop (\<lambda>i. random_index w (seed i) (length ps) i) fanout [0..<fanout * 3] []"
  have sel: "distinct ?is" "length ?is \<le> fanout" "\<And>i. i \<in> set ?is \<Longrightarrow> i < length ps"
    using random_loop_distinct [of "[]" fanout "\<lambda>i. random_index w (seed i) (length ps) i" "[0..<fanout * 3]"]
      random_index_less [OF assms] by auto
  show "set (random_select w seed fanout ps) \<subseteq> set ps" "length (random_select w seed fanout ps) \<le> max fanout 0"
    "distinct ps \<Longrightarrow> distinct (random_select w seed fanout ps)"
    using sel by (auto simp: random_select_def distinct_map inj_on_def nth_eq_iff_index_eq)
qed

lemma random_select_exact:
  assumes "0 < fanout" "3 * fanout \<le> 2 ^ 64"
  shows "length (random_select 64 (\<lambda>_. seed) fanout ps) = min fanout (length ps)"
proof (cases "length ps \<le> fanout")
  case True
  then show ?thesis by (simp add: random_select_def)
next
  case False
  let ?idx = "\<lambda>i. random_index 64 seed (length ps) i"
  let ?is = "random_loop ?idx fanout [0..<fanout * 3] []"
  have "distinct ?is" "length ?is \<le> fanout" using random_loop_distinct [of "[]" fanout ?idx] by auto
  moreover have "fanout \<le> length ?is"
  proof (cases "?idx ` set [0..<fanout * 3] \<subseteq> set ?is")
    case True
    have "fanout \<le> card (?idx ` set [0..<fanout * 3])"
      using random_indices_many [of fanout "length ps" seed] assms False by simp
    also have "\<dots> \<le> card (set ?is)" using True by (intro card_mono) simp_all
    finally show ?thesis using \<open>distinct ?is\<close> by (simp add: distinct_card)
  next
    case False
    then show ?thesis using random_loop_full(1) [of fanout ?idx "[0..<fanout * 3]" "[]"] by simp
  qed
  moreover have "ps \<noteq> []" using False by auto
  ultimately show ?thesis using False by (simp add: random_select_def)
qed

section \<open>Lemmas: signal fanout\<close>

lemma signal_step_len:
  "length sel \<le> f \<Longrightarrow> length (signal_pick f t p sel) \<le> f" "length sel \<le> f \<Longrightarrow> length (signal_fill f p sel) \<le> f"
  by (auto simp: signal_pick_def signal_fill_def Let_def)

lemma signal_len:
  "length sel \<le> f \<Longrightarrow> length (fold (signal_pick f t) ps sel) \<le> f"
  "length sel \<le> f \<Longrightarrow> length (fold (signal_fill f) ps sel) \<le> f"
  by (induction ps arbitrary: sel) (simp_all add: signal_step_len)

lemma signal_step_prefix: "\<exists>r. signal_pick f t p sel = sel @ r" "\<exists>r. signal_fill f p sel = sel @ r"
  by (simp_all add: signal_pick_def signal_fill_def Let_def)

lemma signal_prefix:
  "\<exists>r. fold (signal_pick f t) ps sel = sel @ r" "\<exists>r. fold (signal_fill f) ps sel = sel @ r"
  by (rule fold_prefix, rule signal_step_prefix)+

lemma signal_pick_ids:
  "distinct (map pp_node_id (sel @ ps)) \<Longrightarrow> distinct (map pp_node_id (fold (signal_pick f t) ps sel))"
proof (induction ps arbitrary: sel)
  case (Cons p ps)
  have "distinct (map pp_node_id (sel @ [p] @ ps))" "distinct (map pp_node_id (sel @ ps))"
    using Cons.prems by auto
  then show ?case using Cons.IH [of "sel @ [p]"] Cons.IH [of sel] by (simp add: signal_pick_def Let_def)
qed simp

lemma signal_fill_ids:
  "distinct (map pp_node_id sel) \<Longrightarrow> distinct (map pp_node_id (fold (signal_fill f) ps sel))"
  by (induction ps arbitrary: sel) (auto simp: signal_fill_def)

lemma signal_fill_all:
  "length (fold (signal_fill f) ps sel) < f \<Longrightarrow>
    pp_node_id ` (set ps \<union> set sel) \<subseteq> pp_node_id ` set (fold (signal_fill f) ps sel)"
proof (induction ps arbitrary: sel)
  case (Cons p ps)
  let ?sel = "signal_fill f p sel"
  have "length sel \<le> length ?sel" "length ?sel \<le> length (fold (signal_fill f) ps ?sel)"
    using signal_step_prefix(2) [of f p sel] signal_prefix(2) [of f ps ?sel] by auto
  then have "length sel < f" using Cons.prems by simp
  then have 1: "pp_node_id ` insert p (set sel) \<subseteq> pp_node_id ` set ?sel" by (auto simp: signal_fill_def)
  have "pp_node_id ` (set ps \<union> set ?sel) \<subseteq> pp_node_id ` set (fold (signal_fill f) ps ?sel)"
    using Cons.prems by (intro Cons.IH) simp
  then have 2: "pp_node_id ` set ps \<subseteq> pp_node_id ` set (fold (signal_fill f) ps ?sel)"
      "pp_node_id ` set ?sel \<subseteq> pp_node_id ` set (fold (signal_fill f) ps ?sel)"
    unfolding image_Un by (rule Un_subset_iff [THEN iffD1, THEN conjunct1], rule Un_subset_iff [THEN iffD1, THEN conjunct2])
  have ids: "pp_node_id ` (set (p # ps) \<union> set sel) = pp_node_id ` insert p (set sel) \<union> pp_node_id ` set ps"
    by auto
  show ?case
    unfolding ids fold_Cons o_apply by (rule Un_least [OF subset_trans [OF 1 2(2)] 2(1)])
qed auto

lemma signal_select_spec:
  assumes "0 < fanout" "distinct (map pp_node_id ps)" "ps \<noteq> []"
  shows "length (signal_select fanout t ps) = min fanout (length ps)"
    "distinct (map pp_node_id (signal_select fanout t ps))"
    "fanout < length ps \<Longrightarrow> \<forall>p \<in> set ps. sint (pp_rssi p) \<le> sint (pp_rssi (hd (signal_select fanout t ps)))"
proof -
  let ?r = "sort_key (\<lambda>p. - sint (pp_rssi p)) ps"
  let ?sel = "fold (signal_pick fanout t) (tl ?r) [hd ?r]"
  let ?out = "fold (signal_fill fanout) ?r ?sel"
  have perm: "mset ?r = mset ps" by simp
  have r: "set ?r = set ps" "length ?r = length ps" by simp_all
  then have ne: "?r \<noteq> []" using assms(3) by (metis length_0_conv)
  have "mset (map pp_node_id ?r) = mset (map pp_node_id ps)" by (simp only: mset_map perm)
  then have dist: "distinct (map pp_node_id ?r)" using assms(2) mset_eq_imp_distinct_iff by blast
  have cons: "?r = hd ?r # tl ?r" using ne by simp
  have "distinct (map pp_node_id ?sel)"
    using signal_pick_ids [of "[hd ?r]" "tl ?r" fanout t] dist cons by (metis append_Cons append_Nil)
  then have ids: "distinct (map pp_node_id ?out)" by (rule signal_fill_ids)
  have len: "length ?out \<le> fanout" using assms(1) by (intro signal_len) simp
  have out: "signal_select fanout t ps = ?out" if "fanout < length ps"
    using that assms(3) by (simp add: signal_select_def Let_def)
  have full: "length ?out = fanout" if "fanout < length ps"
  proof (rule ccontr)
    assume "length ?out \<noteq> fanout"
    then have "length ?out < fanout" using len by simp
    then have "pp_node_id ` set ?r \<subseteq> pp_node_id ` set ?out" using signal_fill_all by blast
    then have "card (pp_node_id ` set ?r) \<le> card (pp_node_id ` set ?out)" by (intro card_mono) auto
    moreover have "card (pp_node_id ` set ?r) = length ps" "card (pp_node_id ` set ?out) \<le> length ?out"
      using distinct_card [OF dist] r(2) card_length [of "map pp_node_id ?out"] by simp_all
    ultimately show False using \<open>length ?out < fanout\<close> that by simp
  qed
  show "length (signal_select fanout t ps) = min fanout (length ps)"
    using full out by (cases "fanout < length ps") (simp_all add: signal_select_def)
  show "distinct (map pp_node_id (signal_select fanout t ps))"
    using ids out assms(2) by (cases "fanout < length ps") (simp_all add: signal_select_def)
  assume big: "fanout < length ps"
  obtain rest rest' where "?sel = [hd ?r] @ rest" "?out = ?sel @ rest'"
    using signal_prefix(1) [of fanout t "tl ?r" "[hd ?r]"] signal_prefix(2) [of fanout ?r ?sel] by blast
  then have "hd (signal_select fanout t ps) = hd ?r" using out [OF big] by simp
  moreover have "\<forall>p \<in> set ?r. - sint (pp_rssi (hd ?r)) \<le> - sint (pp_rssi p)"
    using sorted_sort_key [of "\<lambda>p. - sint (pp_rssi p)" ps] cons
    by (metis (no_types, lifting) list.set_map image_eqI list.simps(9) order_refl set_ConsD sorted_simps(2))
  ultimately show "\<forall>p \<in> set ps. sint (pp_rssi p) \<le> sint (pp_rssi (hd (signal_select fanout t ps)))"
    using r(1) by simp
qed

end
