(* ===== verification/Peer_Session.thy ===== *)
theory Peer_Session
  imports Node_Id Ordered_Map
begin

text \<open>
  End-to-end sessions between two nodes and the mesh-wide encryption: key exchange messages and the
  derivation of session keys (\<open>src/security/peer_key.rs\<close>), sessions, replay counters and the
  session manager (\<open>src/security/peer_session.rs\<close>), and the mesh key (\<open>src/security/mesh_key.rs\<close>).

  The primitives come from other crates (\<open>x25519_dalek\<close>, \<open>hkdf\<close>, \<open>chacha20poly1305\<close>): they are the
  fields of the record \<open>crypto\<close>, an argument of the operations. What the results need of them is
  stated as hypotheses: both sides of a Diffie-Hellman exchange agree, and decryption inverts
  encryption under the same key and nonce. Nonces, random in the code, are arguments.

  Main results: after the handshake a message reaches the peer unchanged; an accepted message is
  refused until a new session with its sender is set up, and accepted again after that; the number
  of sessions stays bounded. The counter is not
  authenticated: two consequences of that are proved as well.
\<close>

section \<open>Primitives\<close>

record crypto =
  public_of :: "bytes \<Rightarrow> bytes"
  diffie_hellman :: "bytes \<Rightarrow> bytes \<Rightarrow> bytes"
  hkdf_expand :: "bytes \<Rightarrow> bytes \<Rightarrow> bytes \<Rightarrow> bytes"
  aead_encrypt :: "bytes \<Rightarrow> bytes \<Rightarrow> bytes \<Rightarrow> bytes option"
  aead_decrypt :: "bytes \<Rightarrow> bytes \<Rightarrow> bytes \<Rightarrow> bytes option"

datatype encryption_error = EncryptionFailed | DecryptionFailed | InvalidFormat

definition PEER_E2EE_HKDF_INFO :: string where "PEER_E2EE_HKDF_INFO = ''PEAT-peer-e2ee-v1''"
definition MESH_HKDF_INFO :: string where "MESH_HKDF_INFO = ''PEAT-BTLE-mesh-encryption-v1''"

definition string_bytes :: "string \<Rightarrow> bytes" where
  "string_bytes s = map (\<lambda>c. word_of_nat (of_char c)) s"

section \<open>Keys\<close>

record peer_identity_key =
  ik_secret :: bytes
  ik_public :: bytes

definition identity_from_secret_bytes :: "crypto \<Rightarrow> bytes \<Rightarrow> peer_identity_key" where
  "identity_from_secret_bytes C s = \<lparr>ik_secret = s, ik_public = public_of C s\<rparr>"

definition key_exchange_with :: "crypto \<Rightarrow> peer_identity_key \<Rightarrow> bytes \<Rightarrow> bytes" where
  "key_exchange_with C k peer_public = diffie_hellman C (ik_secret k) peer_public"

definition derive_session_key :: "crypto \<Rightarrow> bytes \<Rightarrow> node_id \<Rightarrow> node_id \<Rightarrow> bytes" where
  "derive_session_key C shared ours theirs =
     (let (id1, id2) = (if ours < theirs then (ours, theirs) else (theirs, ours))
      in hkdf_expand C (le32 id1 @ le32 id2) shared (string_bytes PEER_E2EE_HKDF_INFO))"

record key_exchange_message =
  ke_sender :: node_id
  ke_public_key :: bytes
  ke_is_ephemeral :: bool

definition key_exchange_encode :: "key_exchange_message \<Rightarrow> bytes" where
  "key_exchange_encode m = le32 (ke_sender m) @ [if ke_is_ephemeral m then 0x01 else 0x00] @ ke_public_key m"

definition key_exchange_decode :: "bytes \<Rightarrow> key_exchange_message option outcome" where
  "key_exchange_decode data =
     (if length data < 37 then ret None
      else do {
        n \<leftarrow> read_u32 data 0;
        e \<leftarrow> read_u8 data 4;
        k \<leftarrow> slice data 5 37;
        ret (Some \<lparr>ke_sender = n, ke_public_key = k, ke_is_ephemeral = (e AND 0x01 \<noteq> 0)\<rparr>)
      })"

section \<open>The mesh key\<close>

record encrypted_document =
  ed_nonce :: bytes
  ed_ciphertext :: bytes

definition ENCRYPTED_OVERHEAD :: nat where "ENCRYPTED_OVERHEAD = 28"

definition encrypted_document_encode :: "encrypted_document \<Rightarrow> bytes" where
  "encrypted_document_encode d = ed_nonce d @ ed_ciphertext d"

definition encrypted_document_decode :: "bytes \<Rightarrow> encrypted_document option" where
  "encrypted_document_decode data =
     (if length data < ENCRYPTED_OVERHEAD then None
      else Some \<lparr>ed_nonce = take 12 data, ed_ciphertext = drop 12 data\<rparr>)"

definition mesh_key_from_shared_secret :: "crypto \<Rightarrow> string \<Rightarrow> bytes \<Rightarrow> bytes" where
  "mesh_key_from_shared_secret C mesh_id secret =
     hkdf_expand C (string_bytes mesh_id) secret (string_bytes MESH_HKDF_INFO)"

definition mesh_encrypt :: "crypto \<Rightarrow> bytes \<Rightarrow> bytes \<Rightarrow> bytes \<Rightarrow> encryption_error + encrypted_document" where
  "mesh_encrypt C key nonce plaintext =
     (case aead_encrypt C key nonce plaintext of
        None \<Rightarrow> Inl EncryptionFailed
      | Some ct \<Rightarrow> Inr \<lparr>ed_nonce = nonce, ed_ciphertext = ct\<rparr>)"

definition mesh_decrypt :: "crypto \<Rightarrow> bytes \<Rightarrow> encrypted_document \<Rightarrow> encryption_error + bytes" where
  "mesh_decrypt C key d =
     (case aead_decrypt C key (ed_nonce d) (ed_ciphertext d) of
        None \<Rightarrow> Inl DecryptionFailed
      | Some pt \<Rightarrow> Inr pt)"

definition mesh_encrypt_to_bytes :: "crypto \<Rightarrow> bytes \<Rightarrow> bytes \<Rightarrow> bytes \<Rightarrow> encryption_error + bytes" where
  "mesh_encrypt_to_bytes C key nonce plaintext =
     (case mesh_encrypt C key nonce plaintext of Inl e \<Rightarrow> Inl e | Inr d \<Rightarrow> Inr (encrypted_document_encode d))"

definition mesh_decrypt_from_bytes :: "crypto \<Rightarrow> bytes \<Rightarrow> bytes \<Rightarrow> encryption_error + bytes" where
  "mesh_decrypt_from_bytes C key data =
     (case encrypted_document_decode data of None \<Rightarrow> Inl InvalidFormat | Some d \<Rightarrow> mesh_decrypt C key d)"

section \<open>Sessions\<close>

definition DEFAULT_SESSION_TIMEOUT_MS :: u64 where "DEFAULT_SESSION_TIMEOUT_MS = 1800000"
definition DEFAULT_MAX_SESSIONS :: nat where "DEFAULT_MAX_SESSIONS = 16"

datatype session_state = AwaitingPeerKey | Established | Closed

record peer_session =
  peer_node_id :: node_id
  ps_state :: session_state
  session_key :: "bytes option"
  peer_public_key :: "bytes option"
  created_at_ms :: u64
  last_activity_ms :: u64
  outbound_counter :: u64
  inbound_counter :: u64

definition session_new_initiator :: "node_id \<Rightarrow> u64 \<Rightarrow> peer_session" where
  "session_new_initiator n now =
     \<lparr>peer_node_id = n, ps_state = AwaitingPeerKey, session_key = None, peer_public_key = None,
      created_at_ms = now, last_activity_ms = now, outbound_counter = 0, inbound_counter = 0\<rparr>"

definition session_new_responder :: "node_id \<Rightarrow> bytes \<Rightarrow> bytes \<Rightarrow> u64 \<Rightarrow> peer_session" where
  "session_new_responder n key pub now =
     \<lparr>peer_node_id = n, ps_state = Established, session_key = Some key, peer_public_key = Some pub,
      created_at_ms = now, last_activity_ms = now, outbound_counter = 0, inbound_counter = 0\<rparr>"

definition complete_handshake :: "peer_session \<Rightarrow> bytes \<Rightarrow> bytes \<Rightarrow> u64 \<Rightarrow> peer_session" where
  "complete_handshake s key pub now =
     s\<lparr>ps_state := Established, session_key := Some key, peer_public_key := Some pub, last_activity_ms := now\<rparr>"

definition is_established :: "peer_session \<Rightarrow> bool" where
  "is_established s \<longleftrightarrow> ps_state s = Established \<and> session_key s \<noteq> None"

definition session_is_expired :: "peer_session \<Rightarrow> u64 \<Rightarrow> u64 \<Rightarrow> bool" where
  "session_is_expired s now timeout \<longleftrightarrow> sat_sub now (last_activity_ms s) > timeout"

definition next_outbound_counter :: "peer_session \<Rightarrow> peer_session \<times> u64" where
  "next_outbound_counter s = (s\<lparr>outbound_counter := outbound_counter s + 1\<rparr>, outbound_counter s)"

definition validate_inbound_counter :: "peer_session \<Rightarrow> u64 \<Rightarrow> peer_session \<times> bool" where
  "validate_inbound_counter s counter =
     (if counter \<ge> inbound_counter s then (s\<lparr>inbound_counter := sat_add counter 1\<rparr>, True) else (s, False))"

definition session_touch :: "peer_session \<Rightarrow> u64 \<Rightarrow> peer_session" where
  "session_touch s now = s\<lparr>last_activity_ms := now\<rparr>"

definition session_close :: "peer_session \<Rightarrow> peer_session" where
  "session_close s = s\<lparr>ps_state := Closed\<rparr>"

record peer_message =
  pm_recipient :: node_id
  pm_sender :: node_id
  pm_counter :: u64
  pm_nonce :: bytes
  pm_ciphertext :: bytes

definition peer_message_encode :: "peer_message \<Rightarrow> bytes" where
  "peer_message_encode m =
     le32 (pm_recipient m) @ le32 (pm_sender m) @ le64 (pm_counter m) @ pm_nonce m @ pm_ciphertext m"

definition peer_message_decode :: "bytes \<Rightarrow> peer_message option outcome" where
  "peer_message_decode data =
     (if length data < 44 then ret None
      else do {
        r \<leftarrow> read_u32 data 0;
        s \<leftarrow> read_u32 data 4;
        c \<leftarrow> read_u64 data 8;
        n \<leftarrow> slice data 16 28;
        ct \<leftarrow> slice_from data 28;
        ret (Some \<lparr>pm_recipient = r, pm_sender = s, pm_counter = c, pm_nonce = n, pm_ciphertext = ct\<rparr>)
      })"

section \<open>The session manager\<close>

record session_manager =
  our_node_id :: node_id
  identity_key :: peer_identity_key
  sessions :: "(node_id, peer_session) btree_map"
  max_sessions :: nat
  session_timeout_ms :: u64

definition session_manager_with_key :: "node_id \<Rightarrow> peer_identity_key \<Rightarrow> session_manager" where
  "session_manager_with_key n k =
     \<lparr>our_node_id = n, identity_key = k, sessions = [], max_sessions = DEFAULT_MAX_SESSIONS,
      session_timeout_ms = DEFAULT_SESSION_TIMEOUT_MS\<rparr>"

definition with_max_sessions :: "session_manager \<Rightarrow> nat \<Rightarrow> session_manager" where
  "with_max_sessions m k = m\<lparr>max_sessions := k\<rparr>"

definition with_session_timeout :: "session_manager \<Rightarrow> u64 \<Rightarrow> session_manager" where
  "with_session_timeout m t = m\<lparr>session_timeout_ms := t\<rparr>"

definition cleanup_expired :: "session_manager \<Rightarrow> u64 \<Rightarrow> session_manager \<times> node_id list" where
  "cleanup_expired m now =
     (let expired = map fst (filter (\<lambda>(n, s). session_is_expired s now (session_timeout_ms m)) (sessions m))
      in (m\<lparr>sessions := fold bt_remove expired (sessions m)\<rparr>, expired))"

text \<open>
  The code keeps the sessions in a hash map and drops the least recently active one; of several
  with the same time stamp it takes whichever comes first in the map's order, which is unspecified.
  The model takes them in the order of the node ids.
\<close>

definition oldest_session :: "(peer_session \<Rightarrow> bool) \<Rightarrow> (node_id, peer_session) btree_map \<Rightarrow> node_id option" where
  "oldest_session P ss = map_option fst (min_by_key (\<lambda>(n, s). last_activity_ms s) (filter (\<lambda>(n, s). P s) ss))"

lemma oldest_session_in:
  assumes "oldest_session P ss = Some n"
  shows "\<exists>s. (n, s) \<in> set ss \<and> P s"
proof -
  obtain e where "min_by_key (\<lambda>(n, s). last_activity_ms s) (filter (\<lambda>(n, s). P s) ss) = Some e" "n = fst e"
    using assms by (auto simp: oldest_session_def)
  then show ?thesis using min_by_key_Some by (cases e) fastforce
qed

lemma oldest_session_removed: "oldest_session P ss = Some n \<Longrightarrow> length (bt_remove n ss) < length ss"
  using oldest_session_in [of P ss n] by (force simp: bt_remove_def intro!: length_filter_less)

function enforce_loop :: "nat \<Rightarrow> (node_id, peer_session) btree_map \<Rightarrow> (node_id, peer_session) btree_map" where
  "enforce_loop limit ss =
     (if length ss \<le> limit then ss
      else case oldest_session (\<lambda>s. ps_state s = Closed) ss of
        Some n \<Rightarrow> enforce_loop limit (bt_remove n ss)
      | None \<Rightarrow>
          (case oldest_session (\<lambda>s. \<not> is_established s) ss of
             Some n \<Rightarrow> enforce_loop limit (bt_remove n ss)
           | None \<Rightarrow> ss))"
  by pat_completeness auto
termination
  by (relation "measure (\<lambda>(limit, ss). length ss)") (auto simp: oldest_session_removed)

declare enforce_loop.simps [simp del]

definition enforce_session_limit :: "session_manager \<Rightarrow> u64 \<Rightarrow> session_manager" where
  "enforce_session_limit m now =
     (let m1 = fst (cleanup_expired m now) in m1\<lparr>sessions := enforce_loop (max_sessions m) (sessions m1)\<rparr>)"

definition our_key_exchange :: "session_manager \<Rightarrow> key_exchange_message" where
  "our_key_exchange m =
     \<lparr>ke_sender = our_node_id m, ke_public_key = ik_public (identity_key m), ke_is_ephemeral = False\<rparr>"

definition initiate_session :: "session_manager \<Rightarrow> node_id \<Rightarrow> u64 \<Rightarrow> session_manager \<times> key_exchange_message" where
  "initiate_session m n now =
     (enforce_session_limit (m\<lparr>sessions := bt_insert n (session_new_initiator n now) (sessions m)\<rparr>) now,
      our_key_exchange m)"

definition handle_key_exchange ::
  "crypto \<Rightarrow> session_manager \<Rightarrow> key_exchange_message \<Rightarrow> u64 \<Rightarrow>
   session_manager \<times> (key_exchange_message \<times> bool) option" where
  "handle_key_exchange C m msg now =
     (let n = ke_sender msg;
          key = derive_session_key C (key_exchange_with C (identity_key m) (ke_public_key msg)) (our_node_id m) n
      in case bt_get (sessions m) n of
           Some s \<Rightarrow>
             if ps_state s = AwaitingPeerKey
             then (m\<lparr>sessions := bt_insert n (complete_handshake s key (ke_public_key msg) now) (sessions m)\<rparr>,
                   Some (our_key_exchange m, True))
             else (m, None)
         | None \<Rightarrow>
             let m1 = (if length (sessions m) \<ge> max_sessions m then fst (cleanup_expired m now) else m)
             in if length (sessions m1) \<ge> max_sessions m then (m1, None)
                else (m1\<lparr>sessions := bt_insert n (session_new_responder n key (ke_public_key msg) now) (sessions m1)\<rparr>,
                      Some (our_key_exchange m, True)))"

definition has_session :: "session_manager \<Rightarrow> node_id \<Rightarrow> bool" where
  "has_session m n = (case bt_get (sessions m) n of None \<Rightarrow> False | Some s \<Rightarrow> is_established s)"

definition encrypt_for_peer ::
  "crypto \<Rightarrow> session_manager \<Rightarrow> node_id \<Rightarrow> bytes \<Rightarrow> bytes \<Rightarrow> u64 \<Rightarrow> session_manager \<times> (encryption_error + peer_message)" where
  "encrypt_for_peer C m n nonce plaintext now =
     (case bt_get (sessions m) n of
        None \<Rightarrow> (m, Inl EncryptionFailed)
      | Some s \<Rightarrow>
          if \<not> is_established s then (m, Inl EncryptionFailed)
          else case session_key s of
            None \<Rightarrow> (m, Inl EncryptionFailed)
          | Some key \<Rightarrow>
              let (s1, counter) = next_outbound_counter s;
                  m1 = m\<lparr>sessions := bt_insert n (session_touch s1 now) (sessions m)\<rparr>
              in case aead_encrypt C key nonce plaintext of
                   None \<Rightarrow> (m1, Inl EncryptionFailed)
                 | Some ct \<Rightarrow>
                     (m1, Inr \<lparr>pm_recipient = n, pm_sender = our_node_id m, pm_counter = counter,
                               pm_nonce = nonce, pm_ciphertext = ct\<rparr>))"

definition decrypt_from_peer ::
  "crypto \<Rightarrow> session_manager \<Rightarrow> peer_message \<Rightarrow> u64 \<Rightarrow> session_manager \<times> (encryption_error + bytes)" where
  "decrypt_from_peer C m msg now =
     (if pm_recipient msg \<noteq> our_node_id m then (m, Inl DecryptionFailed)
      else case bt_get (sessions m) (pm_sender msg) of
        None \<Rightarrow> (m, Inl DecryptionFailed)
      | Some s \<Rightarrow>
          if \<not> is_established s then (m, Inl DecryptionFailed)
          else case validate_inbound_counter s (pm_counter msg) of
            (s1, False) \<Rightarrow> (m, Inl DecryptionFailed)
          | (s1, True) \<Rightarrow>
              (case session_key s1 of
                 None \<Rightarrow> (m\<lparr>sessions := bt_insert (pm_sender msg) s1 (sessions m)\<rparr>, Inl DecryptionFailed)
               | Some key \<Rightarrow>
                   let m1 = m\<lparr>sessions := bt_insert (pm_sender msg) (session_touch s1 now) (sessions m)\<rparr>
                   in case aead_decrypt C key (pm_nonce msg) (pm_ciphertext msg) of
                        None \<Rightarrow> (m1, Inl DecryptionFailed)
                      | Some pt \<Rightarrow> (m1, Inr pt)))"

definition close_session :: "session_manager \<Rightarrow> node_id \<Rightarrow> session_manager" where
  "close_session m n =
     (case bt_get (sessions m) n of
        None \<Rightarrow> m
      | Some s \<Rightarrow> m\<lparr>sessions := bt_insert n (session_close s) (sessions m)\<rparr>)"

definition remove_session :: "session_manager \<Rightarrow> node_id \<Rightarrow> session_manager \<times> peer_session option" where
  "remove_session m n = (m\<lparr>sessions := bt_remove n (sessions m)\<rparr>, bt_get (sessions m) n)"

definition established_count :: "session_manager \<Rightarrow> nat" where
  "established_count m = length (filter (\<lambda>(n, s). is_established s) (sessions m))"

section \<open>Codecs\<close>

lemma key_exchange_roundtrip:
  "length (ke_public_key m) = 32 \<Longrightarrow> key_exchange_decode (key_exchange_encode m) = ret (Some m)"
  by (simp add: key_exchange_decode_def key_exchange_encode_def wire)

lemma key_exchange_decode_safe: "no_panic (key_exchange_decode data)"
  unfolding key_exchange_decode_def by (intro safe) auto

lemma peer_message_roundtrip:
  assumes "length (pm_nonce m) = 12" "16 \<le> length (pm_ciphertext m)"
  shows "peer_message_decode (peer_message_encode m) = ret (Some m)"
  using assms by (simp add: peer_message_decode_def peer_message_encode_def wire)

lemma peer_message_decode_safe: "no_panic (peer_message_decode data)"
  unfolding peer_message_decode_def by (intro safe) auto

definition dh_agrees :: "crypto \<Rightarrow> bool" where
  "dh_agrees C \<longleftrightarrow> (\<forall>a b. diffie_hellman C a (public_of C b) = diffie_hellman C b (public_of C a))"

definition aead_correct :: "crypto \<Rightarrow> bool" where
  "aead_correct C \<longleftrightarrow>
     (\<forall>k n p ct. aead_encrypt C k n p = Some ct \<longrightarrow> aead_decrypt C k n ct = Some p \<and> length ct = length p + 16)"

lemma mesh_roundtrip:
  assumes "aead_correct C" "length nonce = 12" "mesh_encrypt_to_bytes C key nonce p = Inr data"
  shows "mesh_decrypt_from_bytes C key data = Inr p" "length data = length p + ENCRYPTED_OVERHEAD"
  using assms
  by (auto simp: aead_correct_def mesh_encrypt_to_bytes_def mesh_encrypt_def mesh_decrypt_from_bytes_def
      encrypted_document_decode_def encrypted_document_encode_def mesh_decrypt_def ENCRYPTED_OVERHEAD_def
      split: option.splits)

section \<open>Sessions in step\<close>

definition linked :: "bytes \<Rightarrow> session_manager \<Rightarrow> session_manager \<Rightarrow> bool" where
  "linked key A B \<longleftrightarrow>
     (case (bt_get (sessions A) (our_node_id B), bt_get (sessions B) (our_node_id A)) of
        (Some s, Some r) \<Rightarrow>
          is_established s \<and> is_established r \<and> session_key s = Some key \<and> session_key r = Some key \<and>
          inbound_counter r \<le> outbound_counter s
      | _ \<Rightarrow> False)"

lemma derive_session_key_sym: "a \<noteq> b \<Longrightarrow> derive_session_key C z a b = derive_session_key C z b a"
  by (auto simp: derive_session_key_def)

lemma enforce_idle: "length ss \<le> limit \<Longrightarrow> enforce_loop limit ss = ss"
  by (simp add: enforce_loop.simps)

lemma cleanup_expired_keeps:
  assumes "bt_get (sessions m) n = Some s" "\<not> session_is_expired s now (session_timeout_ms m)" "bt_wf (sessions m)"
  shows "bt_get (sessions (fst (cleanup_expired m now))) n = Some s"
proof -
  have "n \<notin> fst ` {(n, s). (n, s) \<in> set (sessions m) \<and> session_is_expired s now (session_timeout_ms m)}"
    using assms by (auto simp: bt_get_in_set)
  then show ?thesis using assms(1) by (simp add: cleanup_expired_def Let_def bt_get_fold_remove image_iff)
qed

lemma cleanup_expired_simps [simp]:
  "max_sessions (fst (cleanup_expired m now)) = max_sessions m"
  "our_node_id (fst (cleanup_expired m now)) = our_node_id m"
  "identity_key (fst (cleanup_expired m now)) = identity_key m"
  "session_timeout_ms (fst (cleanup_expired m now)) = session_timeout_ms m"
  "bt_wf (sessions m) \<Longrightarrow> bt_wf (sessions (fst (cleanup_expired m now)))"
  by (simp_all add: cleanup_expired_def Let_def bt_wf_fold_remove)

lemma cleanup_expired_length: "length (sessions (fst (cleanup_expired m now))) \<le> length (sessions m)"
  by (simp add: cleanup_expired_def Let_def fold_bt_remove_filter)

lemma fresh_not_expired [simp]: "\<not> session_is_expired (session_new_initiator n now) now t"
  by (simp add: session_is_expired_def session_new_initiator_def sat_sub_def word_less_nat_alt)

lemma initiate_session_fresh:
  assumes "bt_wf (sessions m)" "length (sessions m) < max_sessions m"
  shows "bt_get (sessions (fst (initiate_session m n now))) n = Some (session_new_initiator n now)"
    and "our_node_id (fst (initiate_session m n now)) = our_node_id m"
    and "identity_key (fst (initiate_session m n now)) = identity_key m"
proof -
  let ?m = "m\<lparr>sessions := bt_insert n (session_new_initiator n now) (sessions m)\<rparr>"
  have "length (sessions (fst (cleanup_expired ?m now))) \<le> max_sessions m"
    using cleanup_expired_length [of ?m now] bt_insert_length [of n "session_new_initiator n now" "sessions m"] assms(2)
    by simp
  then show "bt_get (sessions (fst (initiate_session m n now))) n = Some (session_new_initiator n now)"
    using assms cleanup_expired_keeps [of ?m n "session_new_initiator n now" now]
    by (simp add: initiate_session_def enforce_session_limit_def Let_def enforce_idle)
qed (simp_all add: initiate_session_def enforce_session_limit_def Let_def)

definition identity_wf :: "crypto \<Rightarrow> peer_identity_key \<Rightarrow> bool" where
  "identity_wf C k \<longleftrightarrow> ik_public k = public_of C (ik_secret k)"

definition e2ee_key :: "crypto \<Rightarrow> session_manager \<Rightarrow> session_manager \<Rightarrow> bytes" where
  "e2ee_key C A B =
     derive_session_key C (key_exchange_with C (identity_key A) (ik_public (identity_key B))) (our_node_id A) (our_node_id B)"

lemma e2ee_key_sym:
  assumes "dh_agrees C" "identity_wf C (identity_key A)" "identity_wf C (identity_key B)"
    and "our_node_id A \<noteq> our_node_id B"
  shows "e2ee_key C A B = e2ee_key C B A"
proof -
  have "key_exchange_with C (identity_key A) (ik_public (identity_key B)) =
        key_exchange_with C (identity_key B) (ik_public (identity_key A))"
    using assms(1-3) by (simp add: dh_agrees_def identity_wf_def key_exchange_with_def)
  then show ?thesis using derive_session_key_sym [OF assms(4)] by (simp add: e2ee_key_def)
qed

text \<open>
  The handshake: the initiator's message reaches the responder, whose answer comes back. Both
  messages travel in their wire form.
\<close>

definition over_the_air :: "key_exchange_message \<Rightarrow> key_exchange_message option" where
  "over_the_air k = Option.bind (key_exchange_decode (key_exchange_encode k)) id"

definition handshake ::
  "crypto \<Rightarrow> session_manager \<Rightarrow> session_manager \<Rightarrow> u64 \<Rightarrow> u64 \<Rightarrow> u64 \<Rightarrow> (session_manager \<times> session_manager) option" where
  "handshake C A B t1 t2 t3 =
     (let (A1, k1) = initiate_session A (our_node_id B) t1 in
      Option.bind (over_the_air k1) (\<lambda>k1'.
        let (B1, r) = handle_key_exchange C B k1' t2 in
        Option.bind r (\<lambda>(k2, _).
          Option.bind (over_the_air k2) (\<lambda>k2'. Some (fst (handle_key_exchange C A1 k2' t3), B1)))))"

lemma over_the_air_our_key:
  "length (ik_public (identity_key m)) = 32 \<Longrightarrow> over_the_air (our_key_exchange m) = Some (our_key_exchange m)"
  by (simp add: over_the_air_def key_exchange_roundtrip our_key_exchange_def)

lemma handle_key_exchange_responder:
  assumes "bt_get (sessions B) (our_node_id A) = None" "length (sessions B) < max_sessions B"
  shows "handle_key_exchange C B (our_key_exchange A) t =
    (B\<lparr>sessions := bt_insert (our_node_id A)
         (session_new_responder (our_node_id A) (e2ee_key C B A) (ik_public (identity_key A)) t) (sessions B)\<rparr>,
     Some (our_key_exchange B, True))"
  using assms by (simp add: handle_key_exchange_def our_key_exchange_def Let_def e2ee_key_def)

lemma handle_key_exchange_initiator:
  assumes "bt_get (sessions A) (our_node_id B) = Some s" "ps_state s = AwaitingPeerKey"
  shows "handle_key_exchange C A (our_key_exchange B) t =
    (A\<lparr>sessions := bt_insert (our_node_id B)
         (complete_handshake s (e2ee_key C A B) (ik_public (identity_key B)) t) (sessions A)\<rparr>,
     Some (our_key_exchange A, True))"
  using assms by (simp add: handle_key_exchange_def our_key_exchange_def Let_def e2ee_key_def)

lemma handshake_links:
  assumes "dh_agrees C" "identity_wf C (identity_key A)" "identity_wf C (identity_key B)"
    and "length (ik_public (identity_key A)) = 32" "length (ik_public (identity_key B)) = 32"
    and "our_node_id A \<noteq> our_node_id B"
    and "bt_wf (sessions A)" "length (sessions A) < max_sessions A"
    and "bt_get (sessions B) (our_node_id A) = None" "length (sessions B) < max_sessions B"
  shows "\<exists>A' B'. handshake C A B t1 t2 t3 = Some (A', B') \<and>
           linked (e2ee_key C A B) A' B' \<and> linked (e2ee_key C A B) B' A' \<and>
           our_node_id A' = our_node_id A \<and> our_node_id B' = our_node_id B"
proof -
  define A1 where "A1 = fst (initiate_session A (our_node_id B) t1)"
  note f = initiate_session_fresh [OF assms(7,8), of "our_node_id B" t1, folded A1_def]
  have i: "initiate_session A (our_node_id B) t1 = (A1, our_key_exchange A)"
    by (simp add: A1_def initiate_session_def)
  have k: "e2ee_key C B A = e2ee_key C A B" "e2ee_key C A1 B = e2ee_key C A B"
    using e2ee_key_sym [OF assms(1-3,6)] f(2,3) by (simp_all add: e2ee_key_def)
  note r = handle_key_exchange_responder [OF assms(9,10), of C t2, unfolded k]
  have c: "handle_key_exchange C A1 (our_key_exchange B) t3 =
    (A1\<lparr>sessions := bt_insert (our_node_id B)
         (complete_handshake (session_new_initiator (our_node_id B) t1) (e2ee_key C A B) (ik_public (identity_key B)) t3)
         (sessions A1)\<rparr>, Some (our_key_exchange A1, True))"
    using handle_key_exchange_initiator [OF f(1), of C t3] by (simp add: session_new_initiator_def k)
  show ?thesis using f(2) assms(4,5)
    by (simp add: handshake_def i over_the_air_our_key r c linked_def session_new_responder_def
        session_new_initiator_def complete_handshake_def is_established_def)
qed

text \<open>A conversation: each plaintext is encrypted by the sender, and reaches the receiver or is lost.\<close>

fun session_run ::
  "crypto \<Rightarrow> session_manager \<Rightarrow> session_manager \<Rightarrow> (bytes \<times> bytes \<times> u64 \<times> bool) list \<Rightarrow> (encryption_error + bytes) list" where
  "session_run C A B [] = []"
| "session_run C A B ((nonce, p, t, lost) # ms) =
     (case encrypt_for_peer C A (our_node_id B) nonce p t of
        (A1, Inl e) \<Rightarrow> Inl e # session_run C A1 B ms
      | (A1, Inr msg) \<Rightarrow>
          if lost then session_run C A1 B ms
          else case peer_message_decode (peer_message_encode msg) of
            Some (Some m) \<Rightarrow>
              let (B1, r) = decrypt_from_peer C B m t in r # session_run C A1 B1 ms
          | _ \<Rightarrow> session_run C A1 B ms)"

definition encryptable :: "crypto \<Rightarrow> (bytes \<times> bytes \<times> u64 \<times> bool) list \<Rightarrow> bool" where
  "encryptable C ms \<longleftrightarrow> (\<forall>(nonce, p, t, lost) \<in> set ms. length nonce = 12 \<and> (\<forall>k. aead_encrypt C k nonce p \<noteq> None))"

definition out_counter :: "session_manager \<Rightarrow> node_id \<Rightarrow> u64" where
  "out_counter m n = (case bt_get (sessions m) n of None \<Rightarrow> 0 | Some s \<Rightarrow> outbound_counter s)"

lemma linked_send:
  fixes t :: u64
  assumes "linked key A B" "aead_encrypt C key nonce p = Some ct" "out_counter A (our_node_id B) < - 1"
  defines "A1 \<equiv> fst (encrypt_for_peer C A (our_node_id B) nonce p t)"
    and "msg \<equiv> \<lparr>pm_recipient = our_node_id B, pm_sender = our_node_id A, pm_counter = out_counter A (our_node_id B),
                 pm_nonce = nonce, pm_ciphertext = ct\<rparr>"
  shows "encrypt_for_peer C A (our_node_id B) nonce p t = (A1, Inr msg)"
    and "linked key A1 B" "our_node_id A1 = our_node_id A"
    and "unat (out_counter A1 (our_node_id B)) = unat (out_counter A (our_node_id B)) + 1"
    and "aead_decrypt C key nonce ct = Some p \<Longrightarrow>
           snd (decrypt_from_peer C B msg t) = Inr p \<and> linked key A1 (fst (decrypt_from_peer C B msg t)) \<and>
           our_node_id (fst (decrypt_from_peer C B msg t)) = our_node_id B"
proof -
  obtain s r where s: "bt_get (sessions A) (our_node_id B) = Some s" "bt_get (sessions B) (our_node_id A) = Some r"
      "is_established s" "is_established r" "session_key s = Some key" "session_key r = Some key"
      "inbound_counter r \<le> outbound_counter s"
    using assms(1) by (auto simp: linked_def split: option.splits)
  have o: "out_counter A (our_node_id B) = outbound_counter s" by (simp add: out_counter_def s)
  have lt: "outbound_counter s < - 1" using assms(3) o by simp
  have u: "unat (outbound_counter s + 1) = unat (outbound_counter s) + 1" using unat_Suc_less [OF lt] .
  have le: "outbound_counter s \<le> outbound_counter s + 1" by (simp add: word_le_nat_alt u)
  have sa: "sat_add (outbound_counter s) 1 = outbound_counter s + 1"
    using unat_sat_add [of "outbound_counter s" 1] u unat_less [of "outbound_counter s + 1"]
    by (intro word_unat_eq_iff [THEN iffD2]) simp
  have A1: "A1 = A\<lparr>sessions := bt_insert (our_node_id B)
      (s\<lparr>outbound_counter := outbound_counter s + 1, last_activity_ms := t\<rparr>) (sessions A)\<rparr>"
    by (simp add: A1_def encrypt_for_peer_def s assms(2) next_outbound_counter_def session_touch_def)
  show "encrypt_for_peer C A (our_node_id B) nonce p t = (A1, Inr msg)"
    by (simp add: A1 msg_def encrypt_for_peer_def s o assms(2) next_outbound_counter_def session_touch_def)
  show "linked key A1 B" using s le by (simp add: A1 linked_def is_established_def)
  show "our_node_id A1 = our_node_id A" by (simp add: A1)
  show "unat (out_counter A1 (our_node_id B)) = unat (out_counter A (our_node_id B)) + 1"
    by (simp add: A1 o u out_counter_def s)
  assume d: "aead_decrypt C key nonce ct = Some p"
  show "snd (decrypt_from_peer C B msg t) = Inr p \<and> linked key A1 (fst (decrypt_from_peer C B msg t)) \<and>
           our_node_id (fst (decrypt_from_peer C B msg t)) = our_node_id B"
    using s by (simp add: decrypt_from_peer_def msg_def validate_inbound_counter_def d o A1 linked_def
        is_established_def session_touch_def sa)
qed

lemma session_run_delivers:
  assumes "linked key A B" "aead_correct C" "encryptable C ms"
    and "unat (out_counter A (our_node_id B)) + length ms < 2 ^ 64"
  shows "session_run C A B ms = map (\<lambda>(nonce, p, t, lost). Inr p) (filter (\<lambda>(nonce, p, t, lost). \<not> lost) ms)"
  using assms
proof (induction ms arbitrary: A B)
  case Nil
  then show ?case by simp
next
  case (Cons e ms)
  obtain nonce p t lost where e: "e = (nonce, p, t, lost)" by (cases e)
  have n: "length nonce = 12" and en: "encryptable C ms" using Cons.prems(3) by (simp_all add: encryptable_def e)
  obtain ct where ct: "aead_encrypt C key nonce p = Some ct"
    using Cons.prems(3) by (simp add: encryptable_def e) blast
  have d: "aead_decrypt C key nonce ct = Some p" "16 \<le> length ct"
    using Cons.prems(2) ct by (auto simp: aead_correct_def)
  have "unat (out_counter A (our_node_id B)) < 2 ^ 64 - 1" using Cons.prems(4) by simp
  then have lt: "out_counter A (our_node_id B) < - 1" by (simp add: word_less_nat_alt unat_max_word)
  obtain A' where A': "A' = fst (encrypt_for_peer C A (our_node_id B) nonce p t)" by blast
  note s = linked_send [OF Cons.prems(1) ct lt, of t, folded A']
  let ?m = "\<lparr>pm_recipient = our_node_id B, pm_sender = our_node_id A, pm_counter = out_counter A (our_node_id B),
              pm_nonce = nonce, pm_ciphertext = ct\<rparr>"
  have w: "peer_message_decode (peer_message_encode ?m) = Some (Some ?m)"
    using peer_message_roundtrip [of ?m] n d(2) by simp
  obtain B' where B': "decrypt_from_peer C B ?m t = (B', Inr p)" "linked key A' B'" "our_node_id B' = our_node_id B"
    using s(5) [OF d(1)] by (cases "decrypt_from_peer C B ?m t") simp
  have c: "unat (out_counter A' (our_node_id B)) + length ms < 2 ^ 64" using Cons.prems(4) s(4) by simp
  note IH = Cons.IH [OF _ Cons.prems(2) en]
  show ?case using s(1) w B' c IH [OF s(2) c] IH [OF B'(2)] by (simp add: e)
qed

lemma handshake_fresh_counters:
  assumes "handshake C A B t1 t2 t3 = Some (A', B')"
    and "bt_wf (sessions A)" "length (sessions A) < max_sessions A"
  shows "out_counter A' (our_node_id B) = 0"
proof -
  define A1 where "A1 = fst (initiate_session A (our_node_id B) t1)"
  note f = initiate_session_fresh [OF assms(2,3), of "our_node_id B" t1, folded A1_def]
  have h: "out_counter (fst (handle_key_exchange C A1 k t3)) (our_node_id B) = 0" for k
    using f(1) by (auto simp: handle_key_exchange_def Let_def out_counter_def session_new_responder_def
        complete_handshake_def session_new_initiator_def cleanup_expired_def bt_get_fold_remove split: option.splits)
  obtain k where "A' = fst (handle_key_exchange C A1 k t3)"
    using assms(1) by (auto simp: handshake_def Let_def A1_def bind_eq_Some_conv case_prod_unfold)
  then show ?thesis by (simp add: h)
qed

section \<open>Replays and the counter\<close>

lemma validate_inbound_counter_iff:
  "snd (validate_inbound_counter s c) \<longleftrightarrow> inbound_counter s \<le> c"
  by (simp add: validate_inbound_counter_def)

lemma sat_add_one_gt: "c < - 1 \<Longrightarrow> c < sat_add c (1 :: u64)"
  using unat_less [of c] by (simp add: word_less_nat_alt unat_sat_add unat_max_word)

definition in_counter :: "session_manager \<Rightarrow> node_id \<Rightarrow> u64" where
  "in_counter m n = (case bt_get (sessions m) n of None \<Rightarrow> 0 | Some s \<Rightarrow> inbound_counter s)"

text \<open>Receiving never takes an expected counter back.\<close>

lemma decrypt_counter_mono: "in_counter m n \<le> in_counter (fst (decrypt_from_peer C m msg now)) n"
proof -
  have "inbound_counter s \<le> sat_add (pm_counter msg) 1" if "inbound_counter s \<le> pm_counter msg" for s
    using that sat_add_ge [of "pm_counter msg" 1] by simp
  then show ?thesis
    by (auto simp: in_counter_def decrypt_from_peer_def validate_inbound_counter_def session_touch_def Let_def
        split: option.splits)
qed

lemma decrypt_node_id [simp]: "our_node_id (fst (decrypt_from_peer C m msg now)) = our_node_id m"
  by (auto simp: decrypt_from_peer_def validate_inbound_counter_def Let_def split: option.splits)

lemma decrypt_old_rejected:
  assumes "pm_counter msg < in_counter m (pm_sender msg)"
  shows "decrypt_from_peer C m msg now = (m, Inl DecryptionFailed)"
  using assms by (auto simp: in_counter_def decrypt_from_peer_def validate_inbound_counter_def split: option.splits)

lemma decrypt_accepted_counter:
  assumes "decrypt_from_peer C m msg now = (m1, Inr p)" "pm_counter msg < - 1"
  shows "pm_counter msg < in_counter m1 (pm_sender msg)"
  using assms(1) sat_add_one_gt [OF assms(2)]
  by (auto simp: in_counter_def decrypt_from_peer_def validate_inbound_counter_def session_touch_def Let_def
      split: option.splits if_splits)

section \<open>The number of sessions\<close>

lemma enforce_loop_length_le: "length (enforce_loop limit ss) \<le> length ss"
proof (induction limit ss rule: enforce_loop.induct)
  case (1 limit ss)
  have "length (enforce_loop limit (bt_remove k ss)) \<le> length ss"
    if "length (enforce_loop limit (bt_remove k ss)) \<le> length (bt_remove k ss)" for k
    using that length_bt_remove_le [of k ss] by linarith
  with 1 show ?case by (subst enforce_loop.simps) (auto split: option.splits)
qed

lemma oldest_session_None: "oldest_session P ss = None \<Longrightarrow> (n, s) \<in> set ss \<Longrightarrow> \<not> P s"
  by (force simp: oldest_session_def filter_empty_conv)

lemma enforce_loop_frees:
  assumes "length ss \<le> Suc limit" "(n, s) \<in> set ss" "\<not> is_established s"
  shows "length (enforce_loop limit ss) \<le> limit"
proof (cases "length ss \<le> limit")
  case True
  then show ?thesis by (simp add: enforce_idle)
next
  case False
  have "length (enforce_loop limit (bt_remove k ss)) \<le> limit" if "oldest_session P ss = Some k" for P k
    using oldest_session_removed [OF that] assms(1) enforce_loop_length_le [of limit "bt_remove k ss"] by linarith
  moreover have "oldest_session (\<lambda>s. \<not> is_established s) ss \<noteq> None"
    using oldest_session_None [OF _ assms(2), of "\<lambda>s. \<not> is_established s"] assms(3) by blast
  ultimately show ?thesis using False by (subst enforce_loop.simps) (auto split: option.splits)
qed

lemma initiate_session_bound:
  assumes "bt_wf (sessions m)" "length (sessions m) \<le> max_sessions m"
  shows "length (sessions (fst (initiate_session m n now))) \<le> max_sessions m"
proof -
  let ?m = "m\<lparr>sessions := bt_insert n (session_new_initiator n now) (sessions m)\<rparr>"
  let ?c = "fst (cleanup_expired ?m now)"
  have "bt_get (sessions ?c) n = Some (session_new_initiator n now)"
    using cleanup_expired_keeps [of ?m n "session_new_initiator n now" now] assms(1) by simp
  then have "(n, session_new_initiator n now) \<in> set (sessions ?c)"
    using bt_get_in_set [of "sessions ?c" n "session_new_initiator n now"] assms(1) by simp
  moreover have "length (sessions ?c) \<le> Suc (max_sessions m)"
    using cleanup_expired_length [of ?m now] bt_insert_length [of n "session_new_initiator n now" "sessions m"] assms(2)
    by simp
  ultimately have "length (enforce_loop (max_sessions m) (sessions ?c)) \<le> max_sessions m"
    using enforce_loop_frees [of "sessions ?c" "max_sessions m" n "session_new_initiator n now"]
    by (simp add: is_established_def session_new_initiator_def)
  then show ?thesis by (simp add: initiate_session_def enforce_session_limit_def Let_def)
qed

lemma enforce_loop_subset: "set (enforce_loop limit ss) \<subseteq> set ss"
proof (induction limit ss rule: enforce_loop.induct)
  case (1 limit ss)
  have "set (bt_remove k ss) \<subseteq> set ss" for k by (auto simp: bt_remove_def)
  with 1 show ?case by (subst enforce_loop.simps) (simp split: option.splits, blast)
qed

lemma enforce_loop_wf: "bt_wf ss \<Longrightarrow> bt_wf (enforce_loop limit ss)"
proof (induction limit ss rule: enforce_loop.induct)
  case (1 limit ss)
  then show ?case by (subst enforce_loop.simps) (auto split: option.splits)
qed

text \<open>
  What every operation of the manager keeps: the map is ordered, never above its limit, and a
  session that says it is established has a key and the peer it is filed under.
\<close>

definition session_ok :: "node_id \<Rightarrow> peer_session \<Rightarrow> bool" where
  "session_ok n s \<longleftrightarrow> peer_node_id s = n \<and> (ps_state s = Established \<longrightarrow> session_key s \<noteq> None) \<and>
     (ps_state s = AwaitingPeerKey \<longrightarrow> session_key s = None)"

definition sm_inv :: "session_manager \<Rightarrow> bool" where
  "sm_inv m \<longleftrightarrow> bt_wf (sessions m) \<and> length (sessions m) \<le> max_sessions m \<and>
     (\<forall>(n, s) \<in> set (sessions m). session_ok n s)"

inductive sm_step :: "crypto \<Rightarrow> session_manager \<Rightarrow> session_manager \<Rightarrow> bool" for C where
  initiate: "sm_step C m (fst (initiate_session m n now))"
| key_exchange: "sm_step C m (fst (handle_key_exchange C m k now))"
| encrypt: "sm_step C m (fst (encrypt_for_peer C m n nonce p now))"
| decrypt: "sm_step C m (fst (decrypt_from_peer C m msg now))"
| close: "sm_step C m (close_session m n)"
| remove: "sm_step C m (fst (remove_session m n))"
| cleanup: "sm_step C m (fst (cleanup_expired m now))"

inductive sm_reachable :: "crypto \<Rightarrow> session_manager \<Rightarrow> bool" for C where
  start: "sm_reachable C (with_session_timeout (with_max_sessions (session_manager_with_key n k) limit) t)"
| step: "sm_reachable C m \<Longrightarrow> sm_step C m m' \<Longrightarrow> sm_reachable C m'"

lemma sm_inv_get: "sm_inv m \<Longrightarrow> bt_get (sessions m) n = Some s \<Longrightarrow> session_ok n s"
  unfolding sm_inv_def using bt_get_in_set by fastforce

lemma sm_inv_insert:
  assumes "sm_inv m" "session_ok n s" "bt_get (sessions m) n \<noteq> None \<or> length (sessions m) < max_sessions m"
  shows "sm_inv (m\<lparr>sessions := bt_insert n s (sessions m)\<rparr>)"
proof -
  have w: "bt_wf (sessions m)" using assms(1) by (simp add: sm_inv_def)
  have "session_ok k x" if "bt_get (bt_insert n s (sessions m)) k = Some x" for k x
    using that assms(2) sm_inv_get [OF assms(1), of k x] by (simp split: if_splits)
  then have "\<forall>(k, x) \<in> set (bt_insert n s (sessions m)). session_ok k x"
    using w by (auto simp: bt_get_in_set)
  moreover have "length (bt_insert n s (sessions m)) \<le> max_sessions m"
    using assms(1,3) w length_bt_insert [of "sessions m" n s] by (auto simp: sm_inv_def split: if_splits)
  ultimately show ?thesis using w by (simp add: sm_inv_def)
qed

lemma sm_inv_filter: "sm_inv m \<Longrightarrow> sm_inv (m\<lparr>sessions := filter P (sessions m)\<rparr>)"
  by (auto simp: sm_inv_def bt_wf_filter intro: order_trans [OF length_filter_le])

lemma sm_inv_remove: "sm_inv m \<Longrightarrow> sm_inv (fst (remove_session m n))"
  by (simp add: remove_session_def bt_remove_def sm_inv_filter)

lemma sm_inv_cleanup: "sm_inv m \<Longrightarrow> sm_inv (fst (cleanup_expired m now))"
  by (simp add: cleanup_expired_def Let_def fold_bt_remove_filter sm_inv_filter)

lemma sm_inv_initiate:
  assumes "sm_inv m"
  shows "sm_inv (fst (initiate_session m n now))"
proof -
  let ?s = "session_new_initiator n now"
  let ?m = "m\<lparr>sessions := bt_insert n ?s (sessions m)\<rparr>"
  let ?c = "fst (cleanup_expired ?m now)"
  have w: "bt_wf (sessions m)" "length (sessions m) \<le> max_sessions m" using assms by (simp_all add: sm_inv_def)
  have "session_ok k x" if "bt_get (bt_insert n ?s (sessions m)) k = Some x" for k x
    using that sm_inv_get [OF assms, of k x] by (auto simp: session_ok_def session_new_initiator_def split: if_splits)
  then have i: "\<forall>(k, x) \<in> set (bt_insert n ?s (sessions m)). session_ok k x" using w by (auto simp: bt_get_in_set)
  have "set (sessions ?c) \<subseteq> set (bt_insert n ?s (sessions m))"
    by (auto simp: cleanup_expired_def Let_def fold_bt_remove_filter)
  then have "\<forall>(k, x) \<in> set (enforce_loop (max_sessions m) (sessions ?c)). session_ok k x"
    using i enforce_loop_subset [of "max_sessions m" "sessions ?c"] by blast
  moreover have "bt_wf (enforce_loop (max_sessions m) (sessions ?c))" using w by (simp add: enforce_loop_wf)
  ultimately show ?thesis using initiate_session_bound [OF w, of n now]
    by (simp add: sm_inv_def initiate_session_def enforce_session_limit_def Let_def)
qed

lemma sm_inv_update:
  assumes "sm_inv m" "bt_get (sessions m) n = Some s" "session_ok n s \<Longrightarrow> session_ok n s'"
  shows "sm_inv (m\<lparr>sessions := bt_insert n s' (sessions m)\<rparr>)"
  using sm_inv_insert [OF assms(1) assms(3)] sm_inv_get [OF assms(1,2)] assms(2) by simp

lemma sm_inv_key_exchange:
  assumes "sm_inv m"
  shows "sm_inv (fst (handle_key_exchange C m k now))"
proof (cases "bt_get (sessions m) (ke_sender k)")
  case None
  define m1 where "m1 = (if length (sessions m) \<ge> max_sessions m then fst (cleanup_expired m now) else m)"
  have m1: "sm_inv m1" "max_sessions m1 = max_sessions m" using assms sm_inv_cleanup by (auto simp: m1_def)
  have "sm_inv (m1\<lparr>sessions := bt_insert n (session_new_responder n key pub now) (sessions m1)\<rparr>)"
    if "length (sessions m1) < max_sessions m" for n key pub
    using sm_inv_insert [OF m1(1), of n] that m1(2) by (simp add: session_ok_def session_new_responder_def)
  then show ?thesis using None m1 by (simp add: handle_key_exchange_def Let_def m1_def [symmetric])
next
  case (Some s)
  then show ?thesis using assms sm_inv_update [OF assms Some]
    by (simp add: handle_key_exchange_def Let_def session_ok_def complete_handshake_def)
qed

lemma sm_inv_encrypt: "sm_inv m \<Longrightarrow> sm_inv (fst (encrypt_for_peer C m n nonce p now))"
  by (auto simp: encrypt_for_peer_def next_outbound_counter_def session_touch_def session_ok_def Let_def
      intro: sm_inv_update split: option.splits)

lemma sm_inv_decrypt: "sm_inv m \<Longrightarrow> sm_inv (fst (decrypt_from_peer C m msg now))"
  by (auto simp: decrypt_from_peer_def validate_inbound_counter_def session_touch_def session_ok_def Let_def
      intro: sm_inv_update split: option.splits)

lemma sm_inv_close: "sm_inv m \<Longrightarrow> sm_inv (close_session m n)"
  by (auto simp: close_session_def session_close_def session_ok_def intro: sm_inv_update split: option.splits)

lemma sm_inv_step: "sm_step C m m' \<Longrightarrow> sm_inv m \<Longrightarrow> sm_inv m'"
  by (cases rule: sm_step.cases)
    (auto simp: sm_inv_initiate sm_inv_key_exchange sm_inv_encrypt sm_inv_decrypt sm_inv_close sm_inv_remove sm_inv_cleanup)

lemma sm_reachable_inv: "sm_reachable C m \<Longrightarrow> sm_inv m"
proof (induction rule: sm_reachable.induct)
  case (start n k limit t)
  then show ?case
    by (simp add: sm_inv_def with_session_timeout_def with_max_sessions_def session_manager_with_key_def)
next
  case (step m m')
  then show ?case by (blast intro: sm_inv_step)
qed

section \<open>Replays\<close>

text \<open>
  The steps a session manager can take without setting up a new session with the peer \<open>n\<close>: it may
  do anything else, close, drop or expire the session included, and key exchanges of \<open>n\<close> may still
  arrive as long as there is a session.
\<close>

inductive same_session :: "crypto \<Rightarrow> node_id \<Rightarrow> session_manager \<Rightarrow> session_manager \<Rightarrow> bool" for C n where
  initiate: "p \<noteq> n \<Longrightarrow> same_session C n m (fst (initiate_session m p now))"
| key_exchange: "ke_sender k \<noteq> n \<or> bt_get (sessions m) n \<noteq> None \<Longrightarrow>
    same_session C n m (fst (handle_key_exchange C m k now))"
| encrypt: "same_session C n m (fst (encrypt_for_peer C m p nonce pt now))"
| decrypt: "same_session C n m (fst (decrypt_from_peer C m msg now))"
| close: "same_session C n m (close_session m p)"
| remove: "same_session C n m (fst (remove_session m p))"
| cleanup: "same_session C n m (fst (cleanup_expired m now))"

lemma same_session_step: "same_session C n m m' \<Longrightarrow> sm_step C m m'"
  by (cases rule: same_session.cases) (auto intro: sm_step.intros)

definition past :: "u64 \<Rightarrow> node_id \<Rightarrow> session_manager \<Rightarrow> bool" where
  "past c n m \<longleftrightarrow> (\<forall>s. bt_get (sessions m) n = Some s \<longrightarrow> c < inbound_counter s)"

lemma past_subset:
  assumes "past c n m" "bt_wf (sessions m)" "bt_wf (sessions m')" "set (sessions m') \<subseteq> set (sessions m)"
  shows "past c n m'"
  using assms by (auto simp: past_def bt_get_in_set [symmetric])

lemma past_insert:
  assumes "past c n m" "bt_get (sessions m) p = Some s" "inbound_counter s \<le> inbound_counter s'"
  shows "past c n (m\<lparr>sessions := bt_insert p s' (sessions m)\<rparr>)"
  using assms by (auto simp: past_def)

lemma past_insert_other:
  assumes "past c n m" "p \<noteq> n"
  shows "past c n (m\<lparr>sessions := bt_insert p s' (sessions m)\<rparr>)"
  using assms by (simp add: past_def)

lemma past_cleanup: "past c n m \<Longrightarrow> bt_wf (sessions m) \<Longrightarrow> past c n (fst (cleanup_expired m now))"
  by (rule past_subset) (auto simp: cleanup_expired_def Let_def fold_bt_remove_filter bt_wf_filter)

lemma past_initiate:
  assumes "past c n m" "bt_wf (sessions m)" "p \<noteq> n"
  shows "past c n (fst (initiate_session m p now))"
proof -
  let ?m = "m\<lparr>sessions := bt_insert p (session_new_initiator p now) (sessions m)\<rparr>"
  have "past c n (fst (cleanup_expired ?m now))"
    using assms by (intro past_cleanup past_insert_other) simp_all
  then show ?thesis
    using assms(2) enforce_loop_subset [THEN subsetD]
    by (auto simp: initiate_session_def enforce_session_limit_def Let_def enforce_loop_wf elim!: past_subset)
qed

lemma past_key_exchange:
  assumes "past c n m" "bt_wf (sessions m)" "ke_sender k \<noteq> n \<or> bt_get (sessions m) n \<noteq> None"
  shows "past c n (fst (handle_key_exchange C m k now))"
proof (cases "bt_get (sessions m) (ke_sender k)")
  case None
  then have "ke_sender k \<noteq> n" using assms(3) by auto
  with None assms show ?thesis
    by (simp add: handle_key_exchange_def Let_def past_cleanup past_insert_other)
next
  case (Some s)
  with assms show ?thesis
    by (simp add: handle_key_exchange_def Let_def past_insert [OF assms(1) Some] complete_handshake_def)
qed

lemma past_decrypt: "past c n m \<Longrightarrow> past c n (fst (decrypt_from_peer C m msg now))"
  by (auto simp: decrypt_from_peer_def validate_inbound_counter_def session_touch_def Let_def
      intro!: past_insert intro: order_trans [OF _ sat_add_ge] split: option.splits)

lemma past_step:
  assumes "same_session C n m m'" "past c n m" "bt_wf (sessions m)"
  shows "past c n m'"
  using assms(1)
proof cases
  case (encrypt p nonce pt now)
  then show ?thesis using assms(2)
    by (auto simp: encrypt_for_peer_def next_outbound_counter_def session_touch_def Let_def
        intro!: past_insert split: option.splits)
next
  case (close p)
  then show ?thesis using assms(2)
    by (auto simp: close_session_def session_close_def intro!: past_insert split: option.splits)
next
  case (remove p)
  then show ?thesis using assms(2,3)
    by (auto simp: remove_session_def bt_remove_def bt_wf_filter elim!: past_subset)
qed (simp_all add: assms past_initiate past_key_exchange past_decrypt past_cleanup)

lemma past_run:
  assumes "(same_session C n)\<^sup>*\<^sup>* m m'" "past c n m" "sm_inv m"
  shows "past c n m' \<and> sm_inv m'"
  using assms(1)
proof (induction rule: rtranclp_induct)
  case (step m1 m2)
  then have "bt_wf (sessions m1)" by (simp add: sm_inv_def)
  with step show ?case by (meson past_step sm_inv_step same_session_step)
qed (simp add: assms)

lemma past_refused:
  "past (pm_counter msg) (pm_sender msg) m \<Longrightarrow> decrypt_from_peer C m msg now = (m, Inl DecryptionFailed)"
  by (auto simp: past_def decrypt_from_peer_def validate_inbound_counter_def split: option.splits)

lemma decrypt_accepted_past:
  assumes "decrypt_from_peer C m msg now = (m1, Inr p)" "pm_counter msg < - 1"
  shows "past (pm_counter msg) (pm_sender msg) m1"
  using decrypt_accepted_counter [OF assms] by (auto simp: past_def in_counter_def)

text \<open>
  A new session starts to count from zero again, and between the same two identity keys the derived
  session key is always the same. So once a session was dropped and set up again, a message that
  was accepted in the old session is accepted once more.
\<close>

lemma replay_after_new_session:
  assumes "sm_inv m" "decrypt_from_peer C m msg now = (m1, Inr p)"
    and "bt_get (sessions m) (pm_sender msg) = Some s" "ke_sender k = pm_sender msg"
    and "session_key s = Some (derive_session_key C (key_exchange_with C (identity_key m) (ke_public_key k))
           (our_node_id m) (pm_sender msg))"
    and "m2 = fst (handle_key_exchange C (fst (remove_session m1 (pm_sender msg))) k t)"
  shows "snd (decrypt_from_peer C m2 msg later) = Inr p"
proof -
  let ?n = "pm_sender msg"
  let ?key = "derive_session_key C (key_exchange_with C (identity_key m) (ke_public_key k)) (our_node_id m) ?n"
  have acc: "pm_recipient msg = our_node_id m" "aead_decrypt C ?key (pm_nonce msg) (pm_ciphertext msg) = Some p"
    using assms(2,3,5) by (auto simp: decrypt_from_peer_def validate_inbound_counter_def Let_def
        split: if_splits option.splits)
  have m1: "our_node_id m1 = our_node_id m" "identity_key m1 = identity_key m" "max_sessions m1 = max_sessions m"
    "bt_get (sessions m1) ?n \<noteq> None" "sm_inv m1"
    using assms(2,3) sm_inv_decrypt [OF assms(1), of C msg now]
    by (auto simp: decrypt_from_peer_def validate_inbound_counter_def Let_def split: if_splits option.splits)
  then obtain s1 where "(?n, s1) \<in> set (sessions m1)" by (auto simp: sm_inv_def bt_get_in_set)
  then have "length (bt_remove ?n (sessions m1)) < length (sessions m1)"
    by (auto simp: bt_remove_def intro!: length_filter_less)
  moreover have "length (sessions m1) \<le> max_sessions m" using m1(3,5) by (simp add: sm_inv_def)
  ultimately have "length (bt_remove ?n (sessions m1)) < max_sessions m" by simp
  then have "bt_get (sessions m2) ?n = Some (session_new_responder ?n ?key (ke_public_key k) t)"
    and "our_node_id m2 = our_node_id m"
    using assms(4,6) m1 by (simp_all add: handle_key_exchange_def remove_session_def Let_def)
  with acc show ?thesis
    by (simp add: decrypt_from_peer_def session_new_responder_def is_established_def validate_inbound_counter_def
        session_touch_def Let_def)
qed

section \<open>Properties\<close>

subsection \<open>A concrete cryptographic suite for the witnesses\<close>

definition demo_encrypt :: "bytes \<Rightarrow> bytes \<Rightarrow> bytes \<Rightarrow> bytes option" where
  "demo_encrypt k n p = Some (p @ demo_pad 16 (k @ n))"

definition demo_decrypt :: "bytes \<Rightarrow> bytes \<Rightarrow> bytes \<Rightarrow> bytes option" where
  "demo_decrypt k n ct =
     (if length ct \<ge> 16 \<and> drop (length ct - 16) ct = demo_pad 16 (k @ n) then Some (take (length ct - 16) ct) else None)"

definition demo_crypto :: crypto where
  "demo_crypto =
     \<lparr>public_of = demo_pad 32,
      diffie_hellman = (\<lambda>a p. map2 (+) (demo_pad 32 a) (demo_pad 32 p)),
      hkdf_expand = (\<lambda>salt ikm info. demo_pad 32 (salt @ ikm @ info)),
      aead_encrypt = demo_encrypt,
      aead_decrypt = demo_decrypt\<rparr>"

definition demo_manager :: "node_id \<Rightarrow> bytes \<Rightarrow> session_manager" where
  "demo_manager n secret = session_manager_with_key n (identity_from_secret_bytes demo_crypto secret)"

definition demo_messages :: "(bytes \<times> bytes \<times> u64 \<times> bool) list" where
  "demo_messages =
     [(replicate 12 1, [104, 105], 40, False), (replicate 12 2, [1], 50, True), (replicate 12 3, [111], 60, False)]"

lemma demo_dh_agrees [simp]: "dh_agrees demo_crypto"
  by (auto simp: dh_agrees_def demo_crypto_def add.commute intro!: nth_equalityI)

lemma demo_aead_correct [simp]: "aead_correct demo_crypto"
  by (auto simp: aead_correct_def demo_crypto_def demo_encrypt_def demo_decrypt_def)

lemma demo_encryptable:
  "encryptable demo_crypto ms \<longleftrightarrow> (\<forall>m\<in>set ms. length (fst m) = 12)"
  by (auto simp: encryptable_def demo_crypto_def demo_encrypt_def)

lemma demo_identity_wf [simp]: "identity_wf demo_crypto (identity_from_secret_bytes demo_crypto s)"
  by (simp add: identity_wf_def identity_from_secret_bytes_def)

lemma demo_manager_simps [simp]:
  "our_node_id (demo_manager n k) = n" "sessions (demo_manager n k) = []" "max_sessions (demo_manager n k) = 16"
  "identity_wf demo_crypto (identity_key (demo_manager n k))"
  "length (ik_public (identity_key (demo_manager n k))) = 32"
  by (simp_all add: demo_manager_def session_manager_with_key_def DEFAULT_MAX_SESSIONS_def
      identity_from_secret_bytes_def identity_wf_def demo_crypto_def)

definition demo_peer :: "node_id \<Rightarrow> node_id \<Rightarrow> session_manager" where
  "demo_peer n peer = (demo_manager n [9])\<lparr>sessions := [(peer, session_new_responder peer [5] [6] 0)]\<rparr>"

definition demo_sealed :: peer_message where
  "demo_sealed = \<lparr>pm_recipient = 2, pm_sender = 1, pm_counter = 3, pm_nonce = replicate 12 0,
     pm_ciphertext = 104 # demo_pad 16 (5 # replicate 12 0)\<rparr>"

lemma demo_peer_simps [simp]:
  "our_node_id (demo_peer n p) = n" "sessions (demo_peer n p) = [(p, session_new_responder p [5] [6] 0)]"
  by (simp_all add: demo_peer_def)

lemma demo_peer_linked [simp]: "linked [5] (demo_peer n p) (demo_peer p n)"
  by (simp add: linked_def bt_get_def session_new_responder_def is_established_def)

lemma demo_peer_inv: "sm_inv (demo_peer 2 1)"
  by (simp add: sm_inv_def bt_wf_def session_ok_def session_new_responder_def demo_peer_def)

text \<open>
  C10: After the key exchange, whose two messages travel in their wire form, whatever sequence of
  messages the initiator encrypts, the responder decrypts every message that is not lost on the
  way, in order, to exactly the bytes that were sent. The ciphers are only assumed to be correct:
  Diffie-Hellman agrees and decryption inverts encryption.
\<close>

theorem e2ee_delivers:
  assumes "dh_agrees C" "aead_correct C"
    and "identity_wf C (identity_key A)" "identity_wf C (identity_key B)"
    and "length (ik_public (identity_key A)) = 32" "length (ik_public (identity_key B)) = 32"
    and "our_node_id A \<noteq> our_node_id B"
    and "bt_wf (sessions A)" "length (sessions A) < max_sessions A"
    and "bt_get (sessions B) (our_node_id A) = None" "length (sessions B) < max_sessions B"
    and "encryptable C ms" "length ms < 2 ^ 64"
  shows "\<exists>A' B'. handshake C A B t1 t2 t3 = Some (A', B') \<and>
           session_run C A' B' ms = map (\<lambda>(nonce, p, t, lost). Inr p) (filter (\<lambda>(nonce, p, t, lost). \<not> lost) ms)"
proof -
  from handshake_links [OF assms(1,3-11), of t1 t2 t3] obtain A' B' where
    h: "handshake C A B t1 t2 t3 = Some (A', B')" and l: "linked (e2ee_key C A B) A' B'"
    and n: "our_node_id B' = our_node_id B"
    by blast
  have "out_counter A' (our_node_id B') = 0"
    using handshake_fresh_counters [OF h assms(8,9)] n by simp
  then have "session_run C A' B' ms = map (\<lambda>(nonce, p, t, lost). Inr p) (filter (\<lambda>(nonce, p, t, lost). \<not> lost) ms)"
    using session_run_delivers [OF l assms(2,12)] assms(13) by simp
  with h show ?thesis by blast
qed

theorem e2ee_delivers_witness:
  "\<exists>A' B'. handshake demo_crypto (demo_manager 1 [7]) (demo_manager 2 [9]) 10 20 30 = Some (A', B') \<and>
     session_run demo_crypto A' B' demo_messages = [Inr [104, 105], Inr [111]]"
proof -
  have "\<exists>A' B'. handshake demo_crypto (demo_manager 1 [7]) (demo_manager 2 [9]) 10 20 30 = Some (A', B') \<and>
     session_run demo_crypto A' B' demo_messages =
       map (\<lambda>(nonce, p, t, lost). Inr p) (filter (\<lambda>(nonce, p, t, lost). \<not> lost) demo_messages)"
    by (rule e2ee_delivers) (simp_all add: demo_encryptable demo_messages_def)
  then show ?thesis by (simp add: demo_messages_def)
qed

text \<open>
  C11: A message that was accepted once is refused until a new session with its sender is set up:
  whatever the manager does in between, messages of any peer it decrypts, genuine, forged, replayed
  or reordered, key exchanges, sessions it starts with others, closes, drops or lets expire,
  presenting the message again fails and changes nothing. The one exception is the last counter
  value, where the window cannot advance any further. A new session counts from zero, and there
  the old message is accepted again (lemma \<open>replay_after_new_session\<close>).
\<close>

theorem replay_rejected:
  assumes "sm_inv m" "decrypt_from_peer C m msg now = (m1, Inr p)" "pm_counter msg < - 1"
    and "(same_session C (pm_sender msg))\<^sup>*\<^sup>* m1 m2"
  shows "decrypt_from_peer C m2 msg later = (m2, Inl DecryptionFailed)"
proof -
  have "sm_inv m1" using sm_inv_decrypt [OF assms(1), of C msg now] assms(2) by simp
  with past_run [OF assms(4) decrypt_accepted_past [OF assms(2,3)]] show ?thesis
    by (simp add: past_refused)
qed

theorem replay_rejected_witness:
  "let m1 = fst (decrypt_from_peer demo_crypto (demo_peer 2 1) demo_sealed 50);
       m2 = fst (decrypt_from_peer demo_crypto m1 (demo_sealed\<lparr>pm_counter := 9\<rparr>) 60);
       m3 = fst (initiate_session m2 7 65)
   in snd (decrypt_from_peer demo_crypto (demo_peer 2 1) demo_sealed 50) = Inr [104] \<and>
      decrypt_from_peer demo_crypto m3 demo_sealed 70 = (m3, Inl DecryptionFailed)"
proof -
  define m1 where "m1 = fst (decrypt_from_peer demo_crypto (demo_peer 2 1) demo_sealed 50)"
  define m2 where "m2 = fst (decrypt_from_peer demo_crypto m1 (demo_sealed\<lparr>pm_counter := 9\<rparr>) 60)"
  have ok: "snd (decrypt_from_peer demo_crypto (demo_peer 2 1) demo_sealed 50) = Inr [104]"
    by (simp add: decrypt_from_peer_def demo_sealed_def bt_get_def session_new_responder_def is_established_def
        validate_inbound_counter_def session_touch_def demo_crypto_def demo_decrypt_def)
  then have accepted: "decrypt_from_peer demo_crypto (demo_peer 2 1) demo_sealed 50 = (m1, Inr [104])"
    by (metis m1_def prod.collapse)
  have "pm_counter demo_sealed < - 1" by code_simp
  moreover have "(same_session demo_crypto 1)\<^sup>*\<^sup>* m1 (fst (initiate_session m2 7 65))"
    using same_session.decrypt [of demo_crypto 1 m1 "demo_sealed\<lparr>pm_counter := 9\<rparr>" 60]
      same_session.initiate [of 7 1 demo_crypto m2 65] by (simp add: m2_def converse_rtranclp_into_rtranclp)
  moreover have "pm_sender demo_sealed = 1" by (simp add: demo_sealed_def)
  ultimately have "decrypt_from_peer demo_crypto (fst (initiate_session m2 7 65)) demo_sealed 70 =
      (fst (initiate_session m2 7 65), Inl DecryptionFailed)"
    using replay_rejected [OF demo_peer_inv accepted] by metis
  with ok show ?thesis unfolding Let_def m1_def m2_def by (intro conjI)
qed

text \<open>
  C35: The counter of a message is checked and recorded before the message is authenticated, and
  it is not part of the authenticated data. A forged message that claims the largest counter
  fails to decrypt, but from then on the receiver refuses every message of that peer with a
  smaller counter, which are all messages the peer will ever send.
\<close>

theorem forged_counter_blocks:
  assumes "linked key A B" "aead_decrypt C key nonce junk = None"
    and "forged = \<lparr>pm_recipient = our_node_id B, pm_sender = our_node_id A, pm_counter = - 1, pm_nonce = nonce, pm_ciphertext = junk\<rparr>"
    and "decrypt_from_peer C B forged now = (B1, r)"
  shows "r = Inl DecryptionFailed \<and>
    (\<forall>msg later. pm_sender msg = our_node_id A \<and> pm_counter msg < - 1 \<longrightarrow>
       decrypt_from_peer C B1 msg later = (B1, Inl DecryptionFailed))"
proof -
  from assms(1) obtain s where s: "bt_get (sessions B) (our_node_id A) = Some s" "is_established s" "session_key s = Some key"
    by (auto simp: linked_def split: option.splits)
  have ic: "inbound_counter s \<le> - 1" by (rule word_order.extremum)
  have sat: "sat_add (- 1 :: u64) 1 = - 1" by (simp add: sat_add_def unsigned_minus_1_eq_mask mask_eq_exp_minus_1)
  have "in_counter B1 (our_node_id A) = - 1" "r = Inl DecryptionFailed"
    using assms(2,4) s ic unfolding assms(3)
    by (auto simp: decrypt_from_peer_def validate_inbound_counter_def session_touch_def in_counter_def sat)
  then show ?thesis by (auto intro: decrypt_old_rejected)
qed

theorem forged_counter_blocks_witness:
  "let B1 = fst (decrypt_from_peer demo_crypto (demo_peer 2 1)
         \<lparr>pm_recipient = 2, pm_sender = 1, pm_counter = - 1, pm_nonce = replicate 12 0, pm_ciphertext = replicate 16 255\<rparr> 10)
   in decrypt_from_peer demo_crypto B1 demo_sealed 20 = (B1, Inl DecryptionFailed)"
proof -
  let ?f = "\<lparr>pm_recipient = 2, pm_sender = 1, pm_counter = - 1, pm_nonce = replicate 12 0, pm_ciphertext = replicate 16 255\<rparr>"
  have "aead_decrypt demo_crypto [5] (replicate 12 0) (replicate 16 255) = None"
    by code_simp
  then show ?thesis
    using forged_counter_blocks [of "[5]" "demo_peer 1 2" "demo_peer 2 1" demo_crypto "replicate 12 0" "replicate 16 255" ?f 10
        "fst (decrypt_from_peer demo_crypto (demo_peer 2 1) ?f 10)" "snd (decrypt_from_peer demo_crypto (demo_peer 2 1) ?f 10)"]
    by (simp add: demo_sealed_def)
qed

text \<open>
  C22: In every reachable state of a session manager there are at most \<open>max_sessions\<close> sessions, at
  most one per peer, each is filed under the peer it belongs to, and a session that counts as
  established has a key.
\<close>

theorem session_table_bounded:
  assumes "sm_reachable C m"
  shows "length (sessions m) \<le> max_sessions m \<and> distinct (map fst (sessions m)) \<and>
    (\<forall>(n, s) \<in> set (sessions m). peer_node_id s = n \<and> (is_established s \<longrightarrow> session_key s \<noteq> None))"
proof -
  from sm_reachable_inv [OF assms] have "bt_wf (sessions m)" "length (sessions m) \<le> max_sessions m"
    and ok: "\<forall>(n, s) \<in> set (sessions m). session_ok n s"
    by (simp_all add: sm_inv_def)
  moreover from ok have "\<forall>(n, s) \<in> set (sessions m). peer_node_id s = n \<and> (is_established s \<longrightarrow> session_key s \<noteq> None)"
    by (fastforce simp: session_ok_def is_established_def)
  ultimately show ?thesis by (simp add: bt_wf_distinct)
qed

theorem session_table_bounded_witness:
  "let m = fst (initiate_session (with_session_timeout (with_max_sessions (demo_manager 1 [7]) 0) 5) 2 10)
   in length (sessions m) \<le> max_sessions m"
proof -
  have "sm_reachable demo_crypto (fst (initiate_session (with_session_timeout (with_max_sessions (demo_manager 1 [7]) 0) 5) 2 10))"
    unfolding demo_manager_def by (rule sm_reachable.step [OF sm_reachable.start sm_step.initiate])
  from session_table_bounded [OF this] show ?thesis by (simp add: Let_def)
qed

end
