(* ===== verification/Gatt_Characteristics.thy ===== *)
theory Gatt_Characteristics
  imports Beacon
begin

text \<open>
  The values of the GATT characteristics (\<open>src/gatt/characteristics.rs\<close>): node information, sync
  state, the header of sync data, commands and status, each with its big-endian codec, and the
  derivation of characteristic UUIDs from the UUID of the service.

  Main results: every value is read back from its encoding; decoding is total; a byte that names no
  state, operation or command is read as \<open>Idle\<close>, \<open>Document\<close> and \<open>Ping\<close>.
\<close>

section \<open>Properties and UUIDs\<close>

definition PROP_READ :: u8 where "PROP_READ = 0x02"
definition PROP_WRITE_WITHOUT_RESPONSE :: u8 where "PROP_WRITE_WITHOUT_RESPONSE = 0x04"
definition PROP_WRITE :: u8 where "PROP_WRITE = 0x08"
definition PROP_NOTIFY :: u8 where "PROP_NOTIFY = 0x10"
definition PROP_INDICATE :: u8 where "PROP_INDICATE = 0x20"

type_synonym characteristic_properties = u8

definition can_read :: "characteristic_properties \<Rightarrow> bool" where
  "can_read f \<longleftrightarrow> f AND PROP_READ \<noteq> 0"

definition can_write :: "characteristic_properties \<Rightarrow> bool" where
  "can_write f \<longleftrightarrow> f AND PROP_WRITE \<noteq> 0"

definition can_notify :: "characteristic_properties \<Rightarrow> bool" where
  "can_notify f \<longleftrightarrow> f AND PROP_NOTIFY \<noteq> 0"

definition can_indicate :: "characteristic_properties \<Rightarrow> bool" where
  "can_indicate f \<longleftrightarrow> f AND PROP_INDICATE \<noteq> 0"

definition PEAT_SERVICE_UUID :: bytes where
  "PEAT_SERVICE_UUID = [0xa1, 0xb2, 0xc3, 0xd4, 0xe5, 0xf6, 0x4a, 0x7b, 0x8c, 0x9d, 0x0e, 0x1f, 0x2a, 0x3b, 0x4c, 0x5d]"

definition CHAR_NODE_INFO_UUID :: u16 where "CHAR_NODE_INFO_UUID = 0x0001"
definition CHAR_SYNC_STATE_UUID :: u16 where "CHAR_SYNC_STATE_UUID = 0x0002"
definition CHAR_SYNC_DATA_UUID :: u16 where "CHAR_SYNC_DATA_UUID = 0x0003"
definition CHAR_COMMAND_UUID :: u16 where "CHAR_COMMAND_UUID = 0x0004"
definition CHAR_STATUS_UUID :: u16 where "CHAR_STATUS_UUID = 0x0005"

definition derive_uuid :: "u16 \<Rightarrow> bytes" where
  "derive_uuid char_id = PEAT_SERVICE_UUID[2 := ucast (drop_bit 8 char_id), 3 := ucast char_id]"

definition node_info_uuid :: bytes where "node_info_uuid = derive_uuid CHAR_NODE_INFO_UUID"
definition sync_state_uuid :: bytes where "sync_state_uuid = derive_uuid CHAR_SYNC_STATE_UUID"
definition sync_data_uuid :: bytes where "sync_data_uuid = derive_uuid CHAR_SYNC_DATA_UUID"
definition command_uuid :: bytes where "command_uuid = derive_uuid CHAR_COMMAND_UUID"
definition status_uuid :: bytes where "status_uuid = derive_uuid CHAR_STATUS_UUID"

section \<open>Node information\<close>

record node_info =
  ni_node_id :: node_id
  ni_protocol_version :: u8
  ni_hierarchy_level :: hierarchy_level
  ni_capabilities :: u16
  ni_battery_percent :: u8

definition node_info_new :: "node_id \<Rightarrow> hierarchy_level \<Rightarrow> u16 \<Rightarrow> node_info" where
  "node_info_new n l c =
     \<lparr>ni_node_id = n, ni_protocol_version = 1, ni_hierarchy_level = l, ni_capabilities = c, ni_battery_percent = 255\<rparr>"

definition node_info_encode :: "node_info \<Rightarrow> bytes" where
  "node_info_encode i =
     [ucast (drop_bit 24 (ni_node_id i)), ucast (drop_bit 16 (ni_node_id i)),
      ucast (drop_bit 8 (ni_node_id i)), ucast (ni_node_id i),
      ni_protocol_version i, level_to_u8 (ni_hierarchy_level i),
      ucast (drop_bit 8 (ni_capabilities i)), ucast (ni_capabilities i), ni_battery_percent i]"

definition node_info_decode :: "bytes \<Rightarrow> node_info option" where
  "node_info_decode data =
     (if length data < 9 then None
      else Some \<lparr>ni_node_id = decode_be32 (data ! 0) (data ! 1) (data ! 2) (data ! 3),
                 ni_protocol_version = data ! 4, ni_hierarchy_level = level_from_u8 (data ! 5),
                 ni_capabilities = decode_be16 (data ! 6) (data ! 7), ni_battery_percent = data ! 8\<rparr>)"

section \<open>Sync state\<close>

datatype sync_state = SyncIdle | Syncing | SyncComplete | SyncError

primrec sync_state_to_u8 :: "sync_state \<Rightarrow> u8" where
  "sync_state_to_u8 SyncIdle = 0"
| "sync_state_to_u8 Syncing = 1"
| "sync_state_to_u8 SyncComplete = 2"
| "sync_state_to_u8 SyncError = 3"

definition sync_state_from_u8 :: "u8 \<Rightarrow> sync_state" where
  "sync_state_from_u8 v =
     (if v = 0 then SyncIdle else if v = 1 then Syncing else if v = 2 then SyncComplete
      else if v = 3 then SyncError else SyncIdle)"

record sync_state_data =
  ss_state :: sync_state
  ss_progress :: u8
  ss_pending_docs :: u16
  ss_last_sync :: u32

definition sync_state_data_new :: "sync_state \<Rightarrow> sync_state_data" where
  "sync_state_data_new s = \<lparr>ss_state = s, ss_progress = 0, ss_pending_docs = 0, ss_last_sync = 0\<rparr>"

definition sync_state_data_encode :: "sync_state_data \<Rightarrow> bytes" where
  "sync_state_data_encode d =
     [sync_state_to_u8 (ss_state d), ss_progress d,
      ucast (drop_bit 8 (ss_pending_docs d)), ucast (ss_pending_docs d),
      ucast (drop_bit 24 (ss_last_sync d)), ucast (drop_bit 16 (ss_last_sync d)),
      ucast (drop_bit 8 (ss_last_sync d)), ucast (ss_last_sync d)]"

definition sync_state_data_decode :: "bytes \<Rightarrow> sync_state_data option" where
  "sync_state_data_decode data =
     (if length data < 8 then None
      else Some \<lparr>ss_state = sync_state_from_u8 (data ! 0), ss_progress = data ! 1,
                 ss_pending_docs = decode_be16 (data ! 2) (data ! 3),
                 ss_last_sync = decode_be32 (data ! 4) (data ! 5) (data ! 6) (data ! 7)\<rparr>)"

section \<open>Sync data\<close>

datatype sync_data_op = OpDocument | OpVector | OpAck | OpEnd

primrec sync_data_op_to_u8 :: "sync_data_op \<Rightarrow> u8" where
  "sync_data_op_to_u8 OpDocument = 0x01"
| "sync_data_op_to_u8 OpVector = 0x02"
| "sync_data_op_to_u8 OpAck = 0x03"
| "sync_data_op_to_u8 OpEnd = 0xFF"

definition sync_data_op_from_u8 :: "u8 \<Rightarrow> sync_data_op" where
  "sync_data_op_from_u8 v =
     (if v = 0x01 then OpDocument else if v = 0x02 then OpVector else if v = 0x03 then OpAck
      else if v = 0xFF then OpEnd else OpDocument)"

record sync_data_header =
  sh_op :: sync_data_op
  sh_seq :: u16
  sh_total_fragments :: u8
  sh_fragment_index :: u8

definition SYNC_HEADER_SIZE :: nat where "SYNC_HEADER_SIZE = 5"

definition sync_header_new :: "sync_data_op \<Rightarrow> u16 \<Rightarrow> sync_data_header" where
  "sync_header_new op s = \<lparr>sh_op = op, sh_seq = s, sh_total_fragments = 1, sh_fragment_index = 0\<rparr>"

definition sync_header_encode :: "sync_data_header \<Rightarrow> bytes" where
  "sync_header_encode h =
     [sync_data_op_to_u8 (sh_op h), ucast (drop_bit 8 (sh_seq h)), ucast (sh_seq h),
      sh_total_fragments h, sh_fragment_index h]"

definition sync_header_decode :: "bytes \<Rightarrow> sync_data_header option" where
  "sync_header_decode data =
     (if length data < SYNC_HEADER_SIZE then None
      else Some \<lparr>sh_op = sync_data_op_from_u8 (data ! 0), sh_seq = decode_be16 (data ! 1) (data ! 2),
                 sh_total_fragments = data ! 3, sh_fragment_index = data ! 4\<rparr>)"

section \<open>Commands\<close>

datatype command_type = StartSync | StopSync | RefreshInfo | SetHierarchy | Ping | Reset

primrec command_type_to_u8 :: "command_type \<Rightarrow> u8" where
  "command_type_to_u8 StartSync = 0x01"
| "command_type_to_u8 StopSync = 0x02"
| "command_type_to_u8 RefreshInfo = 0x03"
| "command_type_to_u8 SetHierarchy = 0x10"
| "command_type_to_u8 Ping = 0xFE"
| "command_type_to_u8 Reset = 0xFF"

definition command_type_from_u8 :: "u8 \<Rightarrow> command_type" where
  "command_type_from_u8 v =
     (if v = 0x01 then StartSync else if v = 0x02 then StopSync else if v = 0x03 then RefreshInfo
      else if v = 0x10 then SetHierarchy else if v = 0xFE then Ping else if v = 0xFF then Reset else Ping)"

record command =
  cmd_type :: command_type
  cmd_payload :: bytes

definition command_new :: "command_type \<Rightarrow> command" where
  "command_new t = \<lparr>cmd_type = t, cmd_payload = []\<rparr>"

definition command_with_payload :: "command_type \<Rightarrow> bytes \<Rightarrow> command" where
  "command_with_payload t p = \<lparr>cmd_type = t, cmd_payload = p\<rparr>"

definition command_encode :: "command \<Rightarrow> bytes" where
  "command_encode c = command_type_to_u8 (cmd_type c) # cmd_payload c"

fun command_decode :: "bytes \<Rightarrow> command option" where
  "command_decode [] = None"
| "command_decode (b # bs) = Some \<lparr>cmd_type = command_type_from_u8 b, cmd_payload = bs\<rparr>"

section \<open>Status\<close>

definition STATUS_CONNECTED :: u8 where "STATUS_CONNECTED = 0x01"
definition STATUS_SYNCING :: u8 where "STATUS_SYNCING = 0x02"
definition STATUS_PENDING_DATA :: u8 where "STATUS_PENDING_DATA = 0x04"
definition STATUS_LOW_BATTERY :: u8 where "STATUS_LOW_BATTERY = 0x08"
definition STATUS_ERROR :: u8 where "STATUS_ERROR = 0x80"

type_synonym status_flags = u8

definition flags_is_connected :: "status_flags \<Rightarrow> bool" where
  "flags_is_connected f \<longleftrightarrow> f AND STATUS_CONNECTED \<noteq> 0"

definition flags_is_syncing :: "status_flags \<Rightarrow> bool" where
  "flags_is_syncing f \<longleftrightarrow> f AND STATUS_SYNCING \<noteq> 0"

definition flags_has_pending_data :: "status_flags \<Rightarrow> bool" where
  "flags_has_pending_data f \<longleftrightarrow> f AND STATUS_PENDING_DATA \<noteq> 0"

definition flags_is_low_battery :: "status_flags \<Rightarrow> bool" where
  "flags_is_low_battery f \<longleftrightarrow> f AND STATUS_LOW_BATTERY \<noteq> 0"

definition flags_has_error :: "status_flags \<Rightarrow> bool" where
  "flags_has_error f \<longleftrightarrow> f AND STATUS_ERROR \<noteq> 0"

record status_data =
  st_flags :: status_flags
  st_child_count :: u8
  st_parent_rssi :: i8
  st_uptime_minutes :: u16

definition status_data_new :: status_data where
  "status_data_new = \<lparr>st_flags = 0, st_child_count = 0, st_parent_rssi = 127, st_uptime_minutes = 0\<rparr>"

definition status_data_encode :: "status_data \<Rightarrow> bytes" where
  "status_data_encode d =
     [st_flags d, st_child_count d, st_parent_rssi d, ucast (drop_bit 8 (st_uptime_minutes d)), ucast (st_uptime_minutes d)]"

definition status_data_decode :: "bytes \<Rightarrow> status_data option" where
  "status_data_decode data =
     (if length data < 5 then None
      else Some \<lparr>st_flags = data ! 0, st_child_count = data ! 1, st_parent_rssi = data ! 2,
                 st_uptime_minutes = decode_be16 (data ! 3) (data ! 4)\<rparr>)"

section \<open>Round trips\<close>

lemma enum_roundtrips [simp]:
  "sync_state_from_u8 (sync_state_to_u8 s) = s"
  "sync_data_op_from_u8 (sync_data_op_to_u8 op) = op"
  "command_type_from_u8 (command_type_to_u8 c) = c"
  by (cases s; cases op; cases c; simp add: sync_state_from_u8_def sync_data_op_from_u8_def command_type_from_u8_def)+

lemma node_info_roundtrip: "node_info_decode (node_info_encode i) = Some i"
  by (simp add: node_info_decode_def node_info_encode_def)

lemma sync_state_data_roundtrip: "sync_state_data_decode (sync_state_data_encode d) = Some d"
  by (simp add: sync_state_data_decode_def sync_state_data_encode_def)

lemma sync_header_roundtrip: "sync_header_decode (sync_header_encode h @ rest) = Some h"
  by (simp add: sync_header_decode_def sync_header_encode_def SYNC_HEADER_SIZE_def)

lemma command_roundtrip: "command_decode (command_encode c) = Some c"
  by (simp add: command_encode_def)

lemma status_data_roundtrip: "status_data_decode (status_data_encode d) = Some d"
  by (simp add: status_data_decode_def status_data_encode_def)

lemma uuid_distinct:
  "derive_uuid a = derive_uuid b \<longleftrightarrow> a = b"
proof
  assume "derive_uuid a = derive_uuid b"
  then have "derive_uuid a ! 2 = derive_uuid b ! 2" "derive_uuid a ! 3 = derive_uuid b ! 3" by simp_all
  then have e: "ucast (drop_bit 8 a) = (ucast (drop_bit 8 b) :: u8)" "ucast a = (ucast b :: u8)"
    by (simp_all only: derive_uuid_def PEAT_SERVICE_UUID_def list_update.simps nth_Cons numeral_nat pred_numeral_simps
        nat.case list_update_code diff_Suc_1) 
  have "a = decode_be16 (ucast (drop_bit 8 a)) (ucast a)" by simp
  also have "\<dots> = decode_be16 (ucast (drop_bit 8 b)) (ucast b)" unfolding e ..
  also have "\<dots> = b" by simp
  finally show "a = b" .
qed simp

end
