(* ===== verification/Gatt_Protocol.thy ===== *)
theory Gatt_Protocol
  imports Gatt_Characteristics
begin

text \<open>
  The sync protocol over GATT (\<open>src/gatt/protocol.rs\<close>): messages, fragmentation, reassembly and
  the protocol handler. Indexing out of range and division by zero are panics.

  Main results: up to 255 fragments of one message, received in any order, give the payload back
  on the last missing one; a payload of more fragments does not arrive; a fragment whose index is
  not below its total makes the receiver panic.
\<close>

section \<open>Messages\<close>

definition max_payload_size :: "u16 \<Rightarrow> nat" where
  "max_payload_size mtu = unat mtu - (3 + SYNC_HEADER_SIZE)"

definition DEFAULT_MAX_PAYLOAD :: nat where "DEFAULT_MAX_PAYLOAD = 15"

datatype sync_message_type = MsgSyncVector | MsgDocument | MsgAck | MsgEndSync | MsgError

record sync_message =
  sm_msg_type :: sync_message_type
  sm_seq :: u16
  sm_total_fragments :: u8
  sm_fragment_index :: u8
  sm_payload :: bytes

definition sync_message_new :: "sync_message_type \<Rightarrow> u16 \<Rightarrow> bytes \<Rightarrow> sync_message" where
  "sync_message_new t s p =
     \<lparr>sm_msg_type = t, sm_seq = s, sm_total_fragments = 1, sm_fragment_index = 0, sm_payload = p\<rparr>"

primrec op_of_type :: "sync_message_type \<Rightarrow> sync_data_op" where
  "op_of_type MsgSyncVector = OpVector"
| "op_of_type MsgDocument = OpDocument"
| "op_of_type MsgAck = OpAck"
| "op_of_type MsgEndSync = OpEnd"
| "op_of_type MsgError = OpEnd"

primrec type_of_op :: "sync_data_op \<Rightarrow> sync_message_type" where
  "type_of_op OpVector = MsgSyncVector"
| "type_of_op OpDocument = MsgDocument"
| "type_of_op OpAck = MsgAck"
| "type_of_op OpEnd = MsgEndSync"

definition sync_message_encode :: "sync_message \<Rightarrow> bytes" where
  "sync_message_encode m =
     sync_header_encode \<lparr>sh_op = op_of_type (sm_msg_type m), sh_seq = sm_seq m,
       sh_total_fragments = sm_total_fragments m, sh_fragment_index = sm_fragment_index m\<rparr> @ sm_payload m"

definition sync_message_decode :: "bytes \<Rightarrow> sync_message option" where
  "sync_message_decode data =
     (case sync_header_decode data of
        None \<Rightarrow> None
      | Some h \<Rightarrow>
          Some \<lparr>sm_msg_type = type_of_op (sh_op h), sm_seq = sh_seq h,
                sm_total_fragments = sh_total_fragments h, sm_fragment_index = sh_fragment_index h,
                sm_payload = (if length data > SYNC_HEADER_SIZE then drop SYNC_HEADER_SIZE data else [])\<rparr>)"

definition fragment_payload :: "sync_message_type \<Rightarrow> u16 \<Rightarrow> bytes \<Rightarrow> nat \<Rightarrow> sync_message list outcome" where
  "fragment_payload t s payload max_fragment_size =
     (if payload = [] \<or> length payload \<le> max_fragment_size then ret [sync_message_new t s payload]
      else if max_fragment_size = 0 then panic
      else
        let total = (length payload + max_fragment_size - 1) div max_fragment_size;
            total8 = word_of_nat (min total 255)
        in ret (map (\<lambda>(i, c). \<lparr>sm_msg_type = t, sm_seq = s, sm_total_fragments = total8,
                                  sm_fragment_index = word_of_nat i, sm_payload = c\<rparr>)
                    (enumerate 0 (slice_chunks max_fragment_size payload))))"

section \<open>Reassembly\<close>

record fragment_reassembler =
  fr_total_fragments :: u8
  fr_fragments :: "bytes option list"
  fr_seq :: u16
  fr_msg_type :: sync_message_type

definition fragment_reassembler_new :: "sync_message \<Rightarrow> fragment_reassembler outcome" where
  "fragment_reassembler_new m =
     (if unat (sm_fragment_index m) < unat (sm_total_fragments m)
      then ret \<lparr>fr_total_fragments = sm_total_fragments m,
                fr_fragments = (replicate (unat (sm_total_fragments m)) None)[unat (sm_fragment_index m) := Some (sm_payload m)],
                fr_seq = sm_seq m, fr_msg_type = sm_msg_type m\<rparr>
      else panic)"

definition fr_is_complete :: "fragment_reassembler \<Rightarrow> bool" where
  "fr_is_complete r \<longleftrightarrow> list_all (\<lambda>f. f \<noteq> None) (fr_fragments r)"

definition add_fragment :: "fragment_reassembler \<Rightarrow> sync_message \<Rightarrow> fragment_reassembler \<times> bool" where
  "add_fragment r m =
     (if sm_seq m \<noteq> fr_seq r \<or> sm_total_fragments m \<noteq> fr_total_fragments r then (r, False)
      else
        let r1 = (if unat (sm_fragment_index m) < length (fr_fragments r)
                  then r\<lparr>fr_fragments := (fr_fragments r)[unat (sm_fragment_index m) := Some (sm_payload m)]\<rparr>
                  else r)
        in (r1, fr_is_complete r1))"

definition fr_reassemble :: "fragment_reassembler \<Rightarrow> bytes option" where
  "fr_reassemble r =
     (if \<not> fr_is_complete r then None else Some (concat (List.map_filter id (fr_fragments r))))"

section \<open>The protocol handler\<close>

datatype sync_protocol_state =
  ProtoIdle | SendingVector | ReceivingDocuments | SendingDocuments | WaitingAck | ProtoComplete | ProtoError

record sync_protocol =
  sp_state :: sync_protocol_state
  sp_seq :: u16
  outgoing :: "sync_message list"
  pending_acks :: "u16 list"
  sp_reassembler :: "fragment_reassembler option"
  max_payload :: nat

definition sync_protocol_new :: sync_protocol where
  "sync_protocol_new =
     \<lparr>sp_state = ProtoIdle, sp_seq = 0, outgoing = [], pending_acks = [], sp_reassembler = None,
      max_payload = DEFAULT_MAX_PAYLOAD\<rparr>"

definition set_mtu :: "sync_protocol \<Rightarrow> u16 \<Rightarrow> sync_protocol" where
  "set_mtu p mtu = p\<lparr>max_payload := max_payload_size mtu\<rparr>"

definition next_seq :: "sync_protocol \<Rightarrow> sync_protocol \<times> u16" where
  "next_seq p = (p\<lparr>sp_seq := sp_seq p + 1\<rparr>, sp_seq p)"

definition start_sync :: "sync_protocol \<Rightarrow> bytes \<Rightarrow> sync_protocol outcome" where
  "start_sync p sync_vector =
     (let (p1, s) = next_seq (p\<lparr>sp_state := SendingVector, sp_seq := 0\<rparr>) in do {
        msgs \<leftarrow> fragment_payload MsgSyncVector s sync_vector (max_payload p1);
        ret (p1\<lparr>outgoing := outgoing p1 @ msgs\<rparr>)
      })"

definition queue_document :: "sync_protocol \<Rightarrow> bytes \<Rightarrow> sync_protocol outcome" where
  "queue_document p doc_data =
     (let p0 = (if sp_state p = ProtoIdle then p\<lparr>sp_state := SendingDocuments\<rparr> else p);
          (p1, s) = next_seq p0 in do {
        msgs \<leftarrow> fragment_payload MsgDocument s doc_data (max_payload p1);
        ret (p1\<lparr>outgoing := outgoing p1 @ msgs\<rparr>)
      })"

definition end_sync :: "sync_protocol \<Rightarrow> sync_protocol" where
  "end_sync p =
     (let (p1, s) = next_seq p
      in p1\<lparr>outgoing := outgoing p1 @ [sync_message_new MsgEndSync s []], sp_state := ProtoComplete\<rparr>)"

definition next_outgoing :: "sync_protocol \<Rightarrow> sync_protocol \<times> sync_message option" where
  "next_outgoing p = (case outgoing p of [] \<Rightarrow> (p, None) | m # ms \<Rightarrow> (p\<lparr>outgoing := ms\<rparr>, Some m))"

definition has_outgoing :: "sync_protocol \<Rightarrow> bool" where
  "has_outgoing p \<longleftrightarrow> outgoing p \<noteq> []"

definition start_reassembly ::
  "sync_protocol \<Rightarrow> sync_message \<Rightarrow> (sync_protocol \<times> (sync_message_type \<times> bytes) option) outcome" where
  "start_reassembly p m = do {
     r \<leftarrow> fragment_reassembler_new m;
     ret (if fr_is_complete r
          then (p\<lparr>sp_reassembler := None\<rparr>, map_option (Pair (fr_msg_type r)) (fr_reassemble r))
          else (p\<lparr>sp_reassembler := Some r\<rparr>, None))
   }"

definition process_fragment ::
  "sync_protocol \<Rightarrow> sync_message \<Rightarrow> (sync_protocol \<times> (sync_message_type \<times> bytes) option) outcome" where
  "process_fragment p m =
     (case sp_reassembler p of
        Some r \<Rightarrow>
          if fr_seq r = sm_seq m then
            (case add_fragment r m of
               (r1, True) \<Rightarrow>
                 (case fr_reassemble r1 of
                    None \<Rightarrow> ret (p\<lparr>sp_reassembler := Some r1\<rparr>, None)
                  | Some payload \<Rightarrow> ret (p\<lparr>sp_reassembler := None\<rparr>, Some (fr_msg_type r1, payload)))
             | (r1, False) \<Rightarrow> ret (p\<lparr>sp_reassembler := Some r1\<rparr>, None))
          else start_reassembly p m
      | None \<Rightarrow> start_reassembly p m)"

definition process_whole :: "sync_protocol \<Rightarrow> sync_message \<Rightarrow> sync_protocol \<times> (sync_message_type \<times> bytes) option" where
  "process_whole p m =
     (case sm_msg_type m of
        MsgAck \<Rightarrow> (p\<lparr>pending_acks := filter (\<lambda>s. s \<noteq> sm_seq m) (pending_acks p)\<rparr>, None)
      | MsgSyncVector \<Rightarrow> (p\<lparr>sp_state := ReceivingDocuments\<rparr>, Some (MsgSyncVector, sm_payload m))
      | MsgDocument \<Rightarrow>
          (p\<lparr>outgoing := outgoing p @ [sync_message_new MsgAck (sm_seq m) []]\<rparr>, Some (MsgDocument, sm_payload m))
      | MsgEndSync \<Rightarrow> (p\<lparr>sp_state := ProtoComplete\<rparr>, Some (MsgEndSync, []))
      | MsgError \<Rightarrow> (p\<lparr>sp_state := ProtoError\<rparr>, Some (MsgError, sm_payload m)))"

definition process_incoming ::
  "sync_protocol \<Rightarrow> bytes \<Rightarrow> (sync_protocol \<times> (sync_message_type \<times> bytes) option) outcome" where
  "process_incoming p data =
     (case sync_message_decode data of
        None \<Rightarrow> ret (p, None)
      | Some m \<Rightarrow> if sm_total_fragments m > 1 then process_fragment p m else ret (process_whole p m))"

definition protocol_reset :: "sync_protocol \<Rightarrow> sync_protocol" where
  "protocol_reset p =
     p\<lparr>sp_state := ProtoIdle, sp_seq := 0, outgoing := [], pending_acks := [], sp_reassembler := None\<rparr>"

section \<open>Messages on the wire\<close>

lemma sync_message_roundtrip: "sm_msg_type m \<noteq> MsgError \<Longrightarrow> sync_message_decode (sync_message_encode m) = Some m"
  by (cases "sm_msg_type m")
    (simp_all add: sync_message_decode_def sync_message_encode_def sync_header_roundtrip,
     simp_all add: sync_header_encode_def SYNC_HEADER_SIZE_def)

lemma error_read_as_end:
  "sync_message_decode (sync_message_encode (sync_message_new MsgError s p)) = Some (sync_message_new MsgEndSync s p)"
  by (simp add: sync_message_decode_def sync_message_encode_def sync_message_new_def sync_header_roundtrip)
     (simp add: sync_header_encode_def SYNC_HEADER_SIZE_def)

section \<open>When processing panics\<close>

definition same_message :: "sync_protocol \<Rightarrow> sync_message \<Rightarrow> bool" where
  "same_message p m = (case sp_reassembler p of None \<Rightarrow> False | Some r \<Rightarrow> fr_seq r = sm_seq m)"

lemma process_fragment_panics_iff:
  "process_fragment p m = panic \<longleftrightarrow> \<not> same_message p m \<and> sm_total_fragments m \<le> sm_fragment_index m"
  by (auto simp: process_fragment_def start_reassembly_def fragment_reassembler_new_def same_message_def
      word_le_nat_alt split: option.splits prod.splits bool.splits)

lemma process_incoming_panics_iff:
  "process_incoming p data = panic \<longleftrightarrow>
    (\<exists>m. sync_message_decode data = Some m \<and> 1 < sm_total_fragments m \<and>
         sm_total_fragments m \<le> sm_fragment_index m \<and> \<not> same_message p m)"
  by (auto simp: process_incoming_def process_fragment_panics_iff split: option.splits)

section \<open>Reassembly in any order\<close>

definition frag :: "sync_message_type \<Rightarrow> u16 \<Rightarrow> bytes list \<Rightarrow> nat \<Rightarrow> sync_message" where
  "frag t s ds i = \<lparr>sm_msg_type = t, sm_seq = s, sm_total_fragments = word_of_nat (length ds),
     sm_fragment_index = word_of_nat i, sm_payload = ds ! i\<rparr>"

definition gathered :: "sync_message_type \<Rightarrow> u16 \<Rightarrow> bytes list \<Rightarrow> nat set \<Rightarrow> fragment_reassembler" where
  "gathered t s ds S = \<lparr>fr_total_fragments = word_of_nat (length ds),
     fr_fragments = map (\<lambda>i. if i \<in> S then Some (ds ! i) else None) [0..<length ds], fr_seq = s, fr_msg_type = t\<rparr>"

lemma fragment_payload_frags:
  assumes "0 < k" "k < length payload" "length (slice_chunks k payload) \<le> 255"
  shows "fragment_payload t s payload k =
    ret (map (frag t s (slice_chunks k payload)) [0..<length (slice_chunks k payload)])"
proof -
  let ?ds = "slice_chunks k payload"
  have "(length payload + k - 1) div k = length ?ds" using assms(1) by (simp add: length_slice_chunks)
  then show ?thesis using assms
    by (auto simp: fragment_payload_def Let_def map_enumerate frag_def min_absorb1)
qed

lemma gathered_complete: "fr_is_complete (gathered t s ds S) \<longleftrightarrow> {..<length ds} \<subseteq> S"
  by (auto simp: fr_is_complete_def gathered_def list_all_iff)

lemma gathered_payload: "{..<length ds} \<subseteq> S \<Longrightarrow> fr_reassemble (gathered t s ds S) = Some (concat ds)"
proof -
  assume c: "{..<length ds} \<subseteq> S"
  then have "fr_fragments (gathered t s ds S) = map Some ds"
    by (auto simp: gathered_def subset_iff intro!: nth_equalityI)
  then show ?thesis using c by (simp add: fr_reassemble_def gathered_complete List.map_filter_def comp_def)
qed

lemma gathered_update:
  "i < length ds \<Longrightarrow> (fr_fragments (gathered t s ds S))[i := Some (ds ! i)] = fr_fragments (gathered t s ds (insert i S))"
  by (rule nth_equalityI) (auto simp: gathered_def nth_list_update)

lemma unat_small: "n \<le> 255 \<Longrightarrow> unat (word_of_nat n :: u8) = n"
  by (simp add: unat_of_nat take_bit_nat_eq_self)

lemma add_frag:
  assumes "length ds \<le> 255" "i < length ds"
  shows "add_fragment (gathered t s ds S) (frag t s ds i) =
    (gathered t s ds (insert i S), {..<length ds} \<subseteq> insert i S)"
proof -
  have "(gathered t s ds S)\<lparr>fr_fragments := (fr_fragments (gathered t s ds S))[i := Some (ds ! i)]\<rparr> =
      gathered t s ds (insert i S)"
    unfolding gathered_update [OF assms(2)] by (simp add: gathered_def)
  then show ?thesis
    using assms gathered_complete [of t s ds "insert i S"]
    by (simp add: add_fragment_def frag_def unat_small) (simp add: gathered_def)
qed

lemma new_frag:
  assumes "length ds \<le> 255" "i < length ds"
  shows "fragment_reassembler_new (frag t s ds i) = ret (gathered t s ds {i})"
proof -
  have "replicate (length ds) None = fr_fragments (gathered t s ds {})"
    by (rule nth_equalityI) (simp_all add: gathered_def)
  then show ?thesis using assms gathered_update [OF assms(2), of t s "{}"]
    by (simp add: fragment_reassembler_new_def frag_def unat_small) (simp add: gathered_def)
qed

text \<open>What the handler holds of a message, \<open>S\<close> being the fragments received so far.\<close>

definition holds :: "sync_message_type \<Rightarrow> u16 \<Rightarrow> bytes list \<Rightarrow> nat set \<Rightarrow> sync_protocol \<Rightarrow> bool" where
  "holds t s ds S p \<longleftrightarrow>
     (if S = {} then (\<forall>r. sp_reassembler p = Some r \<longrightarrow> fr_seq r \<noteq> s)
      else sp_reassembler p = Some (gathered t s ds S))"

lemma process_frag:
  assumes "1 < length ds" "length ds \<le> 255" "i < length ds" "holds t s ds S p"
  shows "process_fragment p (frag t s ds i) =
    (if {..<length ds} \<subseteq> insert i S then ret (p\<lparr>sp_reassembler := None\<rparr>, Some (t, concat ds))
     else ret (p\<lparr>sp_reassembler := Some (gathered t s ds (insert i S))\<rparr>, None))"
proof (cases "S = {}")
  case True
  then have "process_fragment p (frag t s ds i) = start_reassembly p (frag t s ds i)"
    using assms(4) by (auto simp: process_fragment_def holds_def frag_def split: option.splits)
  then show ?thesis using assms(1-3) True gathered_payload [of ds "{i}"]
    by (auto simp: start_reassembly_def new_frag gathered_complete gathered_payload) (simp_all add: gathered_def)
next
  case False
  have q: "fr_seq (gathered t s ds S) = sm_seq (frag t s ds i)" "fr_msg_type (gathered t s ds X) = t" for X
    by (simp_all add: gathered_def frag_def)
  show ?thesis using False assms q gathered_payload [of ds "insert i S" t s]
    by (simp add: process_fragment_def holds_def add_frag split: bool.splits)
qed

text \<open>
  A receiver's input: fragments of one message, by index, and other data (\<open>Inr\<close>) that is not a
  fragment. \<open>proto_run\<close> returns what \<open>process_incoming\<close> returned for each fragment.
\<close>

definition ev_bytes :: "sync_message list \<Rightarrow> nat + bytes \<Rightarrow> bytes" where
  "ev_bytes frags e = (case e of Inl i \<Rightarrow> sync_message_encode (frags ! i) | Inr d \<Rightarrow> d)"

definition unfragmented :: "bytes \<Rightarrow> bool" where
  "unfragmented d = (case sync_message_decode d of None \<Rightarrow> True | Some m \<Rightarrow> sm_total_fragments m \<le> 1)"

fun proto_run ::
  "sync_message list \<Rightarrow> sync_protocol \<Rightarrow> (nat + bytes) list \<Rightarrow>
   (sync_protocol \<times> (sync_message_type \<times> bytes) option list) outcome" where
  "proto_run frags p [] = ret (p, [])"
| "proto_run frags p (e # es) = do {
     (p1, r) \<leftarrow> process_incoming p (ev_bytes frags e);
     (p2, rs) \<leftarrow> proto_run frags p1 es;
     ret (p2, if isl e then r # rs else rs)
   }"

definition indices :: "(nat + bytes) list \<Rightarrow> nat list" where
  "indices es = map projl (filter isl es)"

definition well_fed :: "nat \<Rightarrow> (nat + bytes) list \<Rightarrow> bool" where
  "well_fed n es \<longleftrightarrow> (\<forall>e \<in> set es. case e of Inl i \<Rightarrow> i < n | Inr d \<Rightarrow> unfragmented d)"

lemma process_unfragmented:
  assumes "unfragmented d"
  shows "\<exists>p' r. process_incoming p d = ret (p', r) \<and> sp_reassembler p' = sp_reassembler p"
proof -
  have "sp_reassembler (fst (process_whole p m)) = sp_reassembler p" for m
    by (simp add: process_whole_def split: sync_message_type.splits)
  then show ?thesis using assms
    by (auto simp: process_incoming_def unfragmented_def not_less split: option.splits) (metis prod.collapse)
qed

lemma process_frag_bytes:
  assumes "t \<noteq> MsgError" "1 < length ds" "length ds \<le> 255" "i < length ds"
  shows "process_incoming p (ev_bytes (map (frag t s ds) [0..<length ds]) (Inl i)) = process_fragment p (frag t s ds i)"
proof -
  have "1 < (word_of_nat (length ds) :: u8)" using assms(2,3) by (simp add: word_less_nat_alt unat_small)
  then show ?thesis using assms(1,4)
    by (simp add: process_incoming_def ev_bytes_def sync_message_roundtrip frag_def)
qed

text \<open>
  What a receiver of the fragments of one message should do: collect the indices it sees, report the
  message when none is missing, and start afresh. \<open>reports\<close> is what it answers to each fragment,
  \<open>pending\<close> what it has collected at the end.
\<close>

fun reports :: "nat \<Rightarrow> 'r \<Rightarrow> nat set \<Rightarrow> nat list \<Rightarrow> 'r option list" where
  "reports n r S [] = []"
| "reports n r S (i # is) =
     (if {..<n} \<subseteq> insert i S then Some r # reports n r {} is else None # reports n r (insert i S) is)"

fun pending :: "nat \<Rightarrow> nat set \<Rightarrow> nat list \<Rightarrow> nat set" where
  "pending n S [] = S"
| "pending n S (i # is) = pending n (if {..<n} \<subseteq> insert i S then {} else insert i S) is"

lemma reports_values: "set (reports n r S is) \<subseteq> {None, Some r}"
  by (induction n r S "is" rule: reports.induct) auto

lemma reports_some:
  assumes "0 < n" "{..<n} \<subseteq> S \<union> set is" "\<not> {..<n} \<subseteq> S"
  shows "Some r \<in> set (reports n r S is)"
  using assms by (induction n r S "is" rule: reports.induct) auto

lemma reports_at_most:
  "i < n \<Longrightarrow> count_list (reports n r S is) (Some r) \<le> count_list is i + (if i \<in> S then 1 else 0)"
proof (induction n r S "is" rule: reports.induct)
  case (2 n r S k "is")
  then show ?case by (cases "{..<n} \<subseteq> insert k S") (auto split: if_splits)
qed simp

lemma reports_incomplete:
  "\<not> {..<n} \<subseteq> S \<union> set is \<Longrightarrow> reports n r S (is @ js) = replicate (length is) None @ reports n r (S \<union> set is) js"
  "\<not> {..<n} \<subseteq> S \<union> set is \<Longrightarrow> pending n S (is @ js) = pending n (S \<union> set is) js"
  by (induction "is" arbitrary: S) auto

lemma proto_run_reports:
  assumes "t \<noteq> MsgError" "1 < length ds" "length ds \<le> 255"
    and "well_fed (length ds) es" "holds t s ds S p"
  shows "\<exists>p'. proto_run (map (frag t s ds) [0..<length ds]) p es =
      ret (p', reports (length ds) (t, concat ds) S (indices es)) \<and>
    holds t s ds (pending (length ds) S (indices es)) p'"
  using assms(4-)
proof (induction es arbitrary: p S)
  case Nil
  then show ?case by (simp add: indices_def)
next
  case (Cons e es)
  have w: "well_fed (length ds) es" using Cons.prems(1) by (simp add: well_fed_def)
  show ?case
  proof (cases e)
    case (Inl i)
    have i: "i < length ds" using Cons.prems(1) Inl by (simp add: well_fed_def)
    have n: "indices (e # es) = i # indices es" using Inl by (simp add: indices_def)
    note step = process_frag_bytes [OF assms(1-3) i] process_frag [OF assms(2,3) i Cons.prems(2)]
    show ?thesis
    proof (cases "{..<length ds} \<subseteq> insert i S")
      case True
      have "holds t s ds {} (p\<lparr>sp_reassembler := None\<rparr>)" by (simp add: holds_def)
      with True step Cons.IH [OF w this] n Inl show ?thesis by auto
    next
      case False
      have "holds t s ds (insert i S) (p\<lparr>sp_reassembler := Some (gathered t s ds (insert i S))\<rparr>)" by (simp add: holds_def)
      with False step Cons.IH [OF w this] n Inl show ?thesis by auto
    qed
  next
    case (Inr d)
    have u: "unfragmented d" using Cons.prems(1) Inr by (simp add: well_fed_def)
    obtain p1 x where p1: "process_incoming p d = ret (p1, x)" "sp_reassembler p1 = sp_reassembler p"
      using process_unfragmented [OF u] by blast
    have h: "holds t s ds S p1" using Cons.prems(2) p1(2) by (simp add: holds_def)
    have n: "indices (e # es) = indices es" using Inr by (simp add: indices_def)
    show ?thesis using Cons.IH [OF w h] n Inr p1(1) by (auto simp: ev_bytes_def)
  qed
qed

section \<open>More than 255 fragments\<close>

lemma concat_take_slice_chunks: "0 < k \<Longrightarrow> concat (take n (slice_chunks k xs)) = take (n * k) xs"
proof (induction n arbitrary: xs)
  case (Suc n)
  then show ?case by (cases "xs = []") (simp_all add: slice_chunks_step take_add)
qed simp

lemma proto_run_cong:
  "(\<And>i. Inl i \<in> set es \<Longrightarrow> frags ! i = frags' ! i) \<Longrightarrow> proto_run frags p es = proto_run frags' p es"
proof (induction es arbitrary: p)
  case (Cons e es)
  have "ev_bytes frags e = ev_bytes frags' e" using Cons.prems by (cases e) (simp_all add: ev_bytes_def)
  moreover have "proto_run frags q es = proto_run frags' q es" for q using Cons by simp
  ultimately show ?case by simp
qed simp

lemma fragment_payload_long:
  assumes "0 < k" "255 * k < length payload"
  defines "ds \<equiv> slice_chunks k payload"
  shows "fragment_payload t s payload k =
    ret (map (\<lambda>i. \<lparr>sm_msg_type = t, sm_seq = s, sm_total_fragments = 255, sm_fragment_index = word_of_nat i, sm_payload = ds ! i\<rparr>)
          [0..<length ds])"
    and "255 < length ds"
proof -
  have "255 * k + k \<le> length payload + k - 1" using assms(1,2) by linarith
  then have "(256 * k) div k \<le> (length payload + k - 1) div k" by (intro div_le_mono) simp
  then have l: "255 < (length payload + k - 1) div k" using assms(1) by simp
  then show "255 < length ds" using assms(1) by (simp add: ds_def length_slice_chunks)
  have "k < length payload" using assms(1,2) by linarith
  moreover from this have "payload \<noteq> []" by auto
  ultimately show "fragment_payload t s payload k =
    ret (map (\<lambda>i. \<lparr>sm_msg_type = t, sm_seq = s, sm_total_fragments = 255, sm_fragment_index = word_of_nat i, sm_payload = ds ! i\<rparr>)
          [0..<length ds])"
    using assms(1) l by (simp add: fragment_payload_def Let_def map_enumerate ds_def min_absorb2)
qed

lemma long_payload_panics:
  assumes "0 < k" "255 * k < length payload" "t \<noteq> MsgError" "sp_reassembler p = None"
    and "fragment_payload t s payload k = ret ms"
  shows "255 < length ms \<and>
    (\<exists>p'. proto_run ms p (map Inl [0..<255]) = ret (p', replicate 254 None @ [Some (t, take (255 * k) payload)]) \<and>
       process_incoming p' (sync_message_encode (ms ! 255)) = panic)"
proof -
  define ds where "ds = slice_chunks k payload"
  let ?ds = "take 255 ds"
  note long = fragment_payload_long [OF assms(1,2), folded ds_def]
  have l: "length ?ds = 255" using long(2) by simp
  have ms: "ms = map (\<lambda>i. \<lparr>sm_msg_type = t, sm_seq = s, sm_total_fragments = 255, sm_fragment_index = word_of_nat i, sm_payload = ds ! i\<rparr>) [0..<length ds]"
    using long(1) [of t s] assms(5) by simp
  have "ms ! i = map (frag t s ?ds) [0..<length ?ds] ! i" if "i < 255" for i
    using that long(2) by (simp add: ms frag_def)
  then have c: "proto_run ms p (map Inl [0..<255]) = proto_run (map (frag t s ?ds) [0..<length ?ds]) p (map Inl [0..<255])"
    by (intro proto_run_cong) auto
  have i: "indices (map Inl xs) = xs" for xs :: "nat list" by (induction xs) (simp_all add: indices_def)
  have u: "[0..<255] = [0..<254] @ [254]" by (simp add: upt_rec_numeral upt_Suc_append [of 0 254, simplified])
  have all: "{..<255} \<subseteq> insert 254 {0..<254 :: nat}" and most: "\<not> {..<255} \<subseteq> {} \<union> set [0..<254 :: nat]"
    using subsetD [of "{..<255}" "{0..<254 :: nat}" 254] by auto
  have r: "reports 255 x {} [0..<255] = replicate 254 None @ [Some x]" "pending 255 {} [0..<255] = {}"
    for x :: "sync_message_type \<times> bytes"
    using reports_incomplete(1) [OF most, of x "[254]"] reports_incomplete(2) [OF most, of "[254]"] all by (simp_all add: u del: upt_conv_Cons)
  have "well_fed (length ?ds) (map Inl [0..<255])" unfolding l by (auto simp: well_fed_def)
  moreover have "holds t s ?ds {} p" using assms(4) by (simp add: holds_def)
  ultimately obtain p' where p': "proto_run ms p (map Inl [0..<255]) = ret (p', replicate 254 None @ [Some (t, concat ?ds)])"
      "holds t s ?ds {} p'"
    using proto_run_reports [OF assms(3), of ?ds "map Inl [0..<255]" s "{}" p] unfolding c l i r by auto
  have "process_incoming p' (sync_message_encode (ms ! 255)) = panic"
    unfolding process_incoming_panics_iff using assms(3) long(2) p'(2)
    by (intro exI [of _ "ms ! 255"]) (auto simp: ms sync_message_roundtrip same_message_def holds_def split: option.splits)
  moreover have "concat ?ds = take (255 * k) payload" using concat_take_slice_chunks [OF assms(1)] by (simp add: ds_def)
  ultimately show ?thesis using p'(1) long(2) ms by auto
qed

section \<open>Properties\<close>

text \<open>
  C20: The fragments of a message are put together again. Let a payload need 2 to 255 fragments and
  let any of them reach the peer in any order and any number of times, mixed with data that is not
  part of a fragmented message (unfragmented messages, garbage); a reassembly with another sequence
  number may be under way at the start. Then the peer never fails and answers as specified: it
  reports the original payload with its type whenever the last missing fragment arrives, starts
  afresh, and reports nothing else. So when all fragments arrive the payload is reported, and it is
  reported no more often than any one of the fragments arrived.
\<close>

theorem gatt_fragments_delivered:
  assumes "0 < k" "k < length payload" "length payload \<le> 255 * k" "t \<noteq> MsgError"
    and "\<forall>r. sp_reassembler p = Some r \<longrightarrow> fr_seq r \<noteq> s"
    and "fragment_payload t s payload k = ret ms" "well_fed (length ms) es"
  shows "\<exists>p' rs. proto_run ms p es = ret (p', rs) \<and> rs = reports (length ms) (t, payload) {} (indices es) \<and>
    set rs \<subseteq> {None, Some (t, payload)} \<and>
    ({..<length ms} \<subseteq> set (indices es) \<longrightarrow> Some (t, payload) \<in> set rs) \<and>
    (\<forall>i < length ms. count_list rs (Some (t, payload)) \<le> count_list (indices es) i)"
proof -
  let ?ds = "slice_chunks k payload"
  have "(length payload + k - 1) div k < 256" using assms(1,3) by (intro less_mult_imp_div_less) simp
  moreover have "2 \<le> (length payload + k - 1) div k" using assms(1,2) by (simp add: le_div_geq)
  ultimately have l: "length ?ds \<le> 255" "1 < length ?ds" using assms(1) by (simp_all add: length_slice_chunks)
  have ms: "ms = map (frag t s ?ds) [0..<length ?ds]"
    using fragment_payload_frags [OF assms(1,2) l(1), of t s] assms(6) by simp
  then have len: "length ms = length ?ds" by simp
  have "holds t s ?ds {} p" using assms(5) by (simp add: holds_def)
  from proto_run_reports [OF assms(4) l(2,1) assms(7) [unfolded len] this] obtain p' where
    "proto_run ms p es = ret (p', reports (length ms) (t, payload) {} (indices es))"
    using assms(1) by (auto simp: ms concat_slice_chunks)
  moreover have "0 < length ms" using l(2) len by linarith
  ultimately show ?thesis
    using reports_values [of "length ms" "(t, payload)"] reports_some [of "length ms" "{}" "indices es" "(t, payload)"]
      reports_at_most [of _ "length ms" "(t, payload)" "{}" "indices es"]
    by (auto simp: lessThan_empty_iff)
qed

theorem gatt_fragments_delivered_witness:
  "\<exists>p' ms. fragment_payload MsgDocument 7 [1, 2, 3, 4, 5] 2 = ret ms \<and>
     proto_run ms sync_protocol_new [Inl 2, Inl 0, Inr [9], Inl 2, Inl 1, Inl 0] =
       ret (p', [None, None, None, Some (MsgDocument, [1, 2, 3, 4, 5]), None])"
proof -
  obtain ms where ms: "fragment_payload MsgDocument 7 [1, 2, 3, 4, 5] 2 = ret ms" "length ms = 3"
    by (simp add: fragment_payload_def Let_def slice_chunks.simps)
  let ?es = "[Inl 2, Inl 0, Inr [9], Inl 2, Inl 1, Inl 0] :: (nat + bytes) list"
  have "unfragmented [9]" by code_simp
  then have "well_fed (length ms) ?es" using ms(2) by (simp add: well_fed_def)
  then obtain p' where p': "proto_run ms sync_protocol_new ?es =
      ret (p', reports (length ms) (MsgDocument, [1, 2, 3, 4, 5]) {} (indices ?es))"
    using gatt_fragments_delivered [OF _ _ _ _ _ ms(1), of sync_protocol_new ?es] by (auto simp: sync_protocol_new_def)
  have "{..<3 :: nat} = {0, 1, 2}" by auto
  then have "reports 3 x {} [2, 0, 2, 1, 0] = [None, None, None, Some x, None]" for x :: "sync_message_type \<times> bytes"
    by simp
  then show ?thesis using ms p' by (auto simp: indices_def)
qed

text \<open>
  C36: A payload of more than 255 fragments is corrupted on the way and stops the receiver. The
  number of fragments is cut to 255 but all fragments are sent, so after the first 255 the peer
  reports a truncated payload as complete, and the next fragment makes it index past the end of
  its table.
\<close>

theorem gatt_long_payload_panics:
  assumes "0 < k" "255 * k < length payload" "t \<noteq> MsgError" "sp_reassembler p = None"
    and "fragment_payload t s payload k = ret ms"
  shows "255 < length ms \<and>
    (\<exists>p'. proto_run ms p (map Inl [0..<255]) = ret (p', replicate 254 None @ [Some (t, take (255 * k) payload)]) \<and>
       process_incoming p' (sync_message_encode (ms ! 255)) = panic)"
  by (rule long_payload_panics [OF assms])

theorem gatt_long_payload_panics_witness:
  "\<exists>ms p'. fragment_payload MsgDocument 0 (replicate 256 7) 1 = ret ms \<and>
     proto_run ms sync_protocol_new (map Inl [0..<255]) = ret (p', replicate 254 None @ [Some (MsgDocument, replicate 255 7)]) \<and>
     process_incoming p' (sync_message_encode (ms ! 255)) = panic"
proof -
  obtain ms where ms: "fragment_payload MsgDocument 0 (replicate 256 7) 1 = ret ms"
    by (simp add: fragment_payload_def Let_def)
  show ?thesis
    using gatt_long_payload_panics [OF _ _ _ _ ms, of sync_protocol_new] ms by (auto simp: sync_protocol_new_def)
qed

end
