(* ===== verification/Gatt_Service.thy ===== *)
theory Gatt_Service
  imports Gatt_Characteristics
begin

text \<open>
  The GATT service (\<open>src/gatt/service.rs\<close>): the characteristic table, the state behind the
  characteristics, the read and write handlers, the state updates and the bookkeeping of clients.
  The state, behind a lock in the code, is a record; every handler also returns the events it
  passes to the callback, which are dropped when no callback is set.

  Main results: in every reachable state progress is at most 100, the battery level is known or
  255, and no client is listed twice; a disconnected client is in no list; what a client reads
  decodes to the state. The payload of a written document is used nowhere.
\<close>

section \<open>The characteristic table\<close>

datatype gatt_event =
    ClientConnected string
  | ClientDisconnected string
  | NotificationSubscribed string
  | NotificationUnsubscribed string
  | CommandReceived command_type bytes
  | SyncDataReceived sync_data_header bytes
  | MtuChanged u16

record characteristic_descriptor =
  cd_uuid :: bytes
  cd_name :: string
  cd_properties :: characteristic_properties
  cd_encrypted :: bool

definition char_node_info :: characteristic_descriptor where
  "char_node_info = \<lparr>cd_uuid = node_info_uuid, cd_name = ''Node Info'', cd_properties = PROP_READ, cd_encrypted = True\<rparr>"

definition char_sync_state :: characteristic_descriptor where
  "char_sync_state =
     \<lparr>cd_uuid = sync_state_uuid, cd_name = ''Sync State'', cd_properties = PROP_READ OR PROP_NOTIFY, cd_encrypted = True\<rparr>"

definition char_sync_data :: characteristic_descriptor where
  "char_sync_data =
     \<lparr>cd_uuid = sync_data_uuid, cd_name = ''Sync Data'', cd_properties = PROP_WRITE OR PROP_INDICATE, cd_encrypted = True\<rparr>"

definition char_command :: characteristic_descriptor where
  "char_command = \<lparr>cd_uuid = command_uuid, cd_name = ''Command'', cd_properties = PROP_WRITE, cd_encrypted = True\<rparr>"

definition char_status :: characteristic_descriptor where
  "char_status =
     \<lparr>cd_uuid = status_uuid, cd_name = ''Status'', cd_properties = PROP_READ OR PROP_NOTIFY, cd_encrypted = True\<rparr>"

definition all_characteristics :: "characteristic_descriptor list" where
  "all_characteristics = [char_node_info, char_sync_state, char_sync_data, char_command, char_status]"

section \<open>State\<close>

record service_state =
  sv_node_info :: node_info
  sv_sync_state :: sync_state_data
  sv_status :: status_data
  connected_clients :: "string list"
  sync_state_subscribers :: "string list"
  status_subscribers :: "string list"
  sv_mtu :: u16
  has_callback :: bool

definition service_new :: "node_id \<Rightarrow> hierarchy_level \<Rightarrow> u16 \<Rightarrow> service_state" where
  "service_new n l c =
     \<lparr>sv_node_info = node_info_new n l c, sv_sync_state = sync_state_data_new SyncIdle, sv_status = status_data_new,
      connected_clients = [], sync_state_subscribers = [], status_subscribers = [], sv_mtu = 23, has_callback = False\<rparr>"

definition set_event_callback :: "service_state \<Rightarrow> service_state" where
  "set_event_callback v = v\<lparr>has_callback := True\<rparr>"

definition emit :: "service_state \<Rightarrow> gatt_event \<Rightarrow> gatt_event list" where
  "emit v e = (if has_callback v then [e] else [])"

section \<open>Reads\<close>

definition read_node_info :: "service_state \<Rightarrow> bytes" where
  "read_node_info v = node_info_encode (sv_node_info v)"

definition read_sync_state :: "service_state \<Rightarrow> bytes" where
  "read_sync_state v = sync_state_data_encode (sv_sync_state v)"

definition read_status :: "service_state \<Rightarrow> bytes" where
  "read_status v = status_data_encode (sv_status v)"

section \<open>Writes\<close>

definition set_flag :: "u8 \<Rightarrow> service_state \<Rightarrow> service_state" where
  "set_flag f v = v\<lparr>sv_status := (sv_status v)\<lparr>st_flags := st_flags (sv_status v) OR f\<rparr>\<rparr>"

definition clear_flag :: "u8 \<Rightarrow> service_state \<Rightarrow> service_state" where
  "clear_flag f v = v\<lparr>sv_status := (sv_status v)\<lparr>st_flags := st_flags (sv_status v) AND NOT f\<rparr>\<rparr>"

definition write_sync_data :: "service_state \<Rightarrow> bytes \<Rightarrow> service_state \<times> (ble_error + bytes option) \<times> gatt_event list" where
  "write_sync_data v data =
     (case sync_header_decode data of
        None \<Rightarrow> (v, Inl (GattError ''Invalid sync data header''), [])
      | Some h \<Rightarrow>
          let payload = (if length data > SYNC_HEADER_SIZE then drop SYNC_HEADER_SIZE data else []);
              ack = sync_header_encode (sync_header_new OpAck (sh_seq h))
          in case sh_op h of
               OpDocument \<Rightarrow>
                 (set_flag STATUS_SYNCING (v\<lparr>sv_sync_state := (sv_sync_state v)\<lparr>ss_state := Syncing\<rparr>\<rparr>),
                  Inr (Some ack), [])
             | OpVector \<Rightarrow> (v, Inr (Some ack), [])
             | OpEnd \<Rightarrow>
                 (clear_flag STATUS_SYNCING
                    (v\<lparr>sv_sync_state := (sv_sync_state v)\<lparr>ss_state := SyncComplete, ss_progress := 100\<rparr>\<rparr>),
                  Inr None, emit v (SyncDataReceived h payload))
             | OpAck \<Rightarrow> (v, Inr None, []))"

definition apply_command :: "service_state \<Rightarrow> command \<Rightarrow> service_state" where
  "apply_command v c =
     (case cmd_type c of
        StartSync \<Rightarrow> v\<lparr>sv_sync_state := (sv_sync_state v)\<lparr>ss_state := Syncing, ss_progress := 0\<rparr>\<rparr>
      | StopSync \<Rightarrow> v\<lparr>sv_sync_state := (sv_sync_state v)\<lparr>ss_state := SyncIdle\<rparr>\<rparr>
      | RefreshInfo \<Rightarrow> v
      | SetHierarchy \<Rightarrow>
          (case cmd_payload c of
             [] \<Rightarrow> v
           | b # _ \<Rightarrow> v\<lparr>sv_node_info := (sv_node_info v)\<lparr>ni_hierarchy_level := level_from_u8 b\<rparr>\<rparr>)
      | Ping \<Rightarrow> v
      | Reset \<Rightarrow> v\<lparr>sv_sync_state := sync_state_data_new SyncIdle\<rparr>)"

definition write_command :: "service_state \<Rightarrow> bytes \<Rightarrow> service_state \<times> (ble_error + unit) \<times> gatt_event list" where
  "write_command v data =
     (case command_decode data of
        None \<Rightarrow> (v, Inl (GattError ''Invalid command data''), [])
      | Some c \<Rightarrow> (apply_command v c, Inr (), emit v (CommandReceived (cmd_type c) (cmd_payload c))))"

section \<open>Updates\<close>

definition update_battery :: "service_state \<Rightarrow> u8 \<Rightarrow> service_state" where
  "update_battery v percent =
     (let v1 = v\<lparr>sv_node_info := (sv_node_info v)\<lparr>ni_battery_percent := min percent 100\<rparr>\<rparr>
      in if percent < 20 then set_flag STATUS_LOW_BATTERY v1 else clear_flag STATUS_LOW_BATTERY v1)"

definition update_hierarchy_level :: "service_state \<Rightarrow> hierarchy_level \<Rightarrow> service_state" where
  "update_hierarchy_level v l = v\<lparr>sv_node_info := (sv_node_info v)\<lparr>ni_hierarchy_level := l\<rparr>\<rparr>"

definition update_sync_progress :: "service_state \<Rightarrow> u8 \<Rightarrow> u16 \<Rightarrow> service_state" where
  "update_sync_progress v progress pending_docs =
     (let s = (sv_sync_state v)\<lparr>ss_progress := min progress 100, ss_pending_docs := pending_docs\<rparr>
      in v\<lparr>sv_sync_state := (if progress \<ge> 100 then s\<lparr>ss_state := SyncComplete\<rparr> else s)\<rparr>)"

definition update_parent_status :: "service_state \<Rightarrow> bool \<Rightarrow> i8 option \<Rightarrow> service_state" where
  "update_parent_status v connected rssi =
     (if connected then
        let v1 = set_flag STATUS_CONNECTED v
        in v1\<lparr>sv_status := (sv_status v1)\<lparr>st_parent_rssi := (case rssi of None \<Rightarrow> 0 | Some r \<Rightarrow> r)\<rparr>\<rparr>
      else
        let v1 = clear_flag STATUS_CONNECTED v
        in v1\<lparr>sv_status := (sv_status v1)\<lparr>st_parent_rssi := 127\<rparr>\<rparr>)"

definition update_child_count :: "service_state \<Rightarrow> u8 \<Rightarrow> service_state" where
  "update_child_count v n = v\<lparr>sv_status := (sv_status v)\<lparr>st_child_count := n\<rparr>\<rparr>"

definition update_uptime :: "service_state \<Rightarrow> u16 \<Rightarrow> service_state" where
  "update_uptime v m = v\<lparr>sv_status := (sv_status v)\<lparr>st_uptime_minutes := m\<rparr>\<rparr>"

section \<open>Clients\<close>

definition push_new :: "'a \<Rightarrow> 'a list \<Rightarrow> 'a list" where
  "push_new x xs = (if x \<in> set xs then xs else xs @ [x])"

definition on_client_connected :: "service_state \<Rightarrow> string \<Rightarrow> service_state \<times> gatt_event list" where
  "on_client_connected v a =
     (v\<lparr>connected_clients := push_new a (connected_clients v)\<rparr>, emit v (ClientConnected a))"

definition on_client_disconnected :: "service_state \<Rightarrow> string \<Rightarrow> service_state \<times> gatt_event list" where
  "on_client_disconnected v a =
     (v\<lparr>connected_clients := filter (\<lambda>x. x \<noteq> a) (connected_clients v),
        sync_state_subscribers := filter (\<lambda>x. x \<noteq> a) (sync_state_subscribers v),
        status_subscribers := filter (\<lambda>x. x \<noteq> a) (status_subscribers v)\<rparr>,
      emit v (ClientDisconnected a))"

definition on_subscribe :: "service_state \<Rightarrow> string \<Rightarrow> string \<Rightarrow> service_state \<times> gatt_event list" where
  "on_subscribe v a characteristic =
     ((if characteristic = ''sync_state'' then v\<lparr>sync_state_subscribers := push_new a (sync_state_subscribers v)\<rparr>
       else if characteristic = ''status'' then v\<lparr>status_subscribers := push_new a (status_subscribers v)\<rparr>
       else v),
      emit v (NotificationSubscribed characteristic))"

definition on_mtu_changed :: "service_state \<Rightarrow> u16 \<Rightarrow> service_state \<times> gatt_event list" where
  "on_mtu_changed v mtu = (v\<lparr>sv_mtu := mtu\<rparr>, emit v (MtuChanged mtu))"

definition connected_client_count :: "service_state \<Rightarrow> nat" where
  "connected_client_count v = length (connected_clients v)"

section \<open>Reachable states\<close>

inductive service_step :: "service_state \<Rightarrow> service_state \<Rightarrow> bool" where
  callback: "service_step v (set_event_callback v)"
| sync_data: "service_step v (fst (write_sync_data v data))"
| command: "service_step v (fst (write_command v data))"
| battery: "service_step v (update_battery v p)"
| level: "service_step v (update_hierarchy_level v l)"
| progress: "service_step v (update_sync_progress v p d)"
| parent: "service_step v (update_parent_status v c r)"
| children: "service_step v (update_child_count v n)"
| uptime: "service_step v (update_uptime v m)"
| connected: "service_step v (fst (on_client_connected v a))"
| disconnected: "service_step v (fst (on_client_disconnected v a))"
| subscribe: "service_step v (fst (on_subscribe v a c))"
| mtu: "service_step v (fst (on_mtu_changed v w))"

inductive service_reachable :: "service_state \<Rightarrow> bool" where
  start: "service_reachable (service_new n l c)"
| step: "service_reachable v \<Longrightarrow> service_step v v' \<Longrightarrow> service_reachable v'"

definition service_inv :: "service_state \<Rightarrow> bool" where
  "service_inv v \<longleftrightarrow>
     ss_progress (sv_sync_state v) \<le> 100 \<and>
     (ni_battery_percent (sv_node_info v) \<le> 100 \<or> ni_battery_percent (sv_node_info v) = 255) \<and>
     ni_protocol_version (sv_node_info v) = 1 \<and>
     distinct (connected_clients v) \<and> distinct (sync_state_subscribers v) \<and> distinct (status_subscribers v) \<and>
     (\<not> flags_is_connected (st_flags (sv_status v)) \<longrightarrow> st_parent_rssi (sv_status v) = 127)"

lemma distinct_push_new: "distinct (push_new x xs) \<longleftrightarrow> distinct xs"
  by (simp add: push_new_def)

lemma flag_ops:
  "flags_is_connected (f OR STATUS_SYNCING) = flags_is_connected f"
  "flags_is_connected (f AND NOT STATUS_SYNCING) = flags_is_connected f"
  "flags_is_connected (f OR STATUS_LOW_BATTERY) = flags_is_connected f"
  "flags_is_connected (f AND NOT STATUS_LOW_BATTERY) = flags_is_connected f"
  "flags_is_connected (f OR STATUS_CONNECTED)"
  "\<not> flags_is_connected (f AND NOT STATUS_CONNECTED)"
proof -
  have b: "flags_is_connected f \<longleftrightarrow> bit f 0" for f
    by (simp add: flags_is_connected_def STATUS_CONNECTED_def and_one_eq bit_0 mod_2_eq_odd)
  show "flags_is_connected (f OR STATUS_SYNCING) = flags_is_connected f"
    "flags_is_connected (f AND NOT STATUS_SYNCING) = flags_is_connected f"
    "flags_is_connected (f OR STATUS_LOW_BATTERY) = flags_is_connected f"
    "flags_is_connected (f AND NOT STATUS_LOW_BATTERY) = flags_is_connected f"
    "flags_is_connected (f OR STATUS_CONNECTED)"
    "\<not> flags_is_connected (f AND NOT STATUS_CONNECTED)"
    unfolding b by (simp_all add: STATUS_SYNCING_def STATUS_LOW_BATTERY_def STATUS_CONNECTED_def bit_simps)
qed

lemma service_inv_step: "service_step v v' \<Longrightarrow> service_inv v \<Longrightarrow> service_inv v'"
proof (induction rule: service_step.induct)
  case (sync_data v data)
  then show ?case
    by (auto simp: write_sync_data_def service_inv_def Let_def set_flag_def clear_flag_def flag_ops
        split: option.splits sync_data_op.splits)
next
  case (command v data)
  then show ?case
    by (auto simp: write_command_def apply_command_def service_inv_def sync_state_data_new_def
        split: option.splits command_type.splits list.splits)
qed (auto simp: service_inv_def set_event_callback_def update_battery_def update_hierarchy_level_def
    update_sync_progress_def update_parent_status_def update_child_count_def update_uptime_def
    on_client_connected_def on_client_disconnected_def on_subscribe_def on_mtu_changed_def
    set_flag_def clear_flag_def Let_def distinct_push_new flag_ops)

lemma service_reachable_inv: "service_reachable v \<Longrightarrow> service_inv v"
proof (induction rule: service_reachable.induct)
  case (start n l c)
  then show ?case
    by (simp add: service_inv_def service_new_def node_info_new_def sync_state_data_new_def status_data_new_def)
qed (rule service_inv_step)

lemma reads_decode:
  "node_info_decode (read_node_info v) = Some (sv_node_info v)"
  "sync_state_data_decode (read_sync_state v) = Some (sv_sync_state v)"
  "status_data_decode (read_status v) = Some (sv_status v)"
  by (simp_all add: read_node_info_def read_sync_state_def read_status_def node_info_roundtrip
      sync_state_data_roundtrip status_data_roundtrip)

lemma disconnected_nowhere:
  "a \<notin> set (connected_clients v') \<union> set (sync_state_subscribers v') \<union> set (status_subscribers v')"
  if "v' = fst (on_client_disconnected v a)"
  using that by (simp add: on_client_disconnected_def)

lemma document_payload_unused:
  assumes "sync_header_decode data = Some h" "sh_op h \<noteq> OpEnd"
  shows "write_sync_data v data = write_sync_data v (take SYNC_HEADER_SIZE data)"
proof -
  have "sync_header_decode (take SYNC_HEADER_SIZE data) = Some h"
    using assms(1) by (auto simp: sync_header_decode_def SYNC_HEADER_SIZE_def split: if_splits)
  then show ?thesis using assms by (cases "sh_op h") (simp_all add: write_sync_data_def Let_def)
qed

text \<open>
  The state and the flag that both say whether a sync runs do not agree: a start command sets the
  state only, and a stop or reset after a document leaves the flag.
\<close>

lemma syncing_flag_left_behind:
  "flags_is_syncing (st_flags (sv_status (fst (write_command (fst (write_sync_data v [1, 0, 0, 1, 0])) [2]))))"
  "ss_state (sv_sync_state (fst (write_command (fst (write_sync_data v [1, 0, 0, 1, 0])) [2]))) = SyncIdle"
proof -
  have f: "flags_is_syncing (f OR STATUS_SYNCING)" for f
  proof -
    have "bit ((f OR STATUS_SYNCING) AND STATUS_SYNCING) 1" by (simp add: STATUS_SYNCING_def bit_simps)
    then show ?thesis by (auto simp: flags_is_syncing_def)
  qed
  show "flags_is_syncing (st_flags (sv_status (fst (write_command (fst (write_sync_data v [1, 0, 0, 1, 0])) [2]))))"
    "ss_state (sv_sync_state (fst (write_command (fst (write_sync_data v [1, 0, 0, 1, 0])) [2]))) = SyncIdle"
    by (simp_all add: write_command_def write_sync_data_def sync_header_decode_def SYNC_HEADER_SIZE_def
        sync_data_op_from_u8_def command_type_from_u8_def apply_command_def set_flag_def f)
qed

end
