(* ===== verification/Radio_Power.thy ===== *)
theory Radio_Power
  imports Node_Id Float32
begin

text \<open>
  Power profiles and the radio scheduler (\<open>src/power/profile.rs\<close>, \<open>src/power/scheduler.rs\<close>). The
  estimates of duty cycle and battery life are computed in the \<open>f32\<close> arithmetic of Float32. Times are 64-bit words and their sums wrap, as in a release build.

  Main results: the queue of pending syncs is bounded and gives out the oldest of the most urgent
  ones that have not expired; when it is full it gives up the oldest of the least urgent; profile
  changes are a cool-down apart; an idle radio with work to do starts a sync within five rounds.
\<close>

section \<open>Profiles\<close>

record radio_timing =
  scan_interval_ms :: u32
  scan_window_ms :: u32
  adv_interval_ms :: u32
  conn_interval_ms :: u32
  supervision_timeout_ms :: u32
  slave_latency :: u16

datatype power_profile = Aggressive | Balanced | LowPower | Custom radio_timing

primrec profile_timing :: "power_profile \<Rightarrow> radio_timing" where
  "profile_timing Aggressive =
     \<lparr>scan_interval_ms = 100, scan_window_ms = 50, adv_interval_ms = 100, conn_interval_ms = 15,
      supervision_timeout_ms = 4000, slave_latency = 0\<rparr>"
| "profile_timing Balanced =
     \<lparr>scan_interval_ms = 500, scan_window_ms = 50, adv_interval_ms = 500, conn_interval_ms = 30,
      supervision_timeout_ms = 4000, slave_latency = 2\<rparr>"
| "profile_timing LowPower =
     \<lparr>scan_interval_ms = 5000, scan_window_ms = 100, adv_interval_ms = 2000, conn_interval_ms = 100,
      supervision_timeout_ms = 6000, slave_latency = 4\<rparr>"
| "profile_timing (Custom t) = t"

primrec profile_name :: "power_profile \<Rightarrow> string" where
  "profile_name Aggressive = ''aggressive''"
| "profile_name Balanced = ''balanced''"
| "profile_name LowPower = ''low_power''"
| "profile_name (Custom t) = ''custom''"

definition duty_cycle_percent :: "radio_timing \<Rightarrow> f32" where
  "duty_cycle_percent t =
     (let scan_duty = f32_mul (f32_div (f32_of_nat (unat (scan_window_ms t))) (f32_of_nat (unat (scan_interval_ms t)))) (f32_literal 100 1);
          adv_duty = f32_mul (f32_div (f32_literal 2 1) (f32_of_nat (unat (adv_interval_ms t)))) (f32_literal 100 1);
          effective_conn_interval = f32_mul (f32_of_nat (unat (conn_interval_ms t)))
            (f32_add (f32_literal 1 1) (f32_of_nat (unat (slave_latency t))));
          conn_duty = f32_mul (f32_div (f32_literal 2 1) effective_conn_interval) (f32_literal 100 1)
      in f32_add (f32_add scan_duty adv_duty) conn_duty)"

definition estimated_battery_hours :: "u16 \<Rightarrow> radio_timing \<Rightarrow> f32" where
  "estimated_battery_hours capacity t =
     (let duty = f32_div (duty_cycle_percent t) (f32_literal 100 1);
          average_current = f32_add (f32_mul (f32_literal 15 1) duty)
            (f32_mul (f32_literal 5 1000) (f32_sub (f32_literal 1 1) duty));
          total_current = f32_add average_current (f32_literal 5 1)
      in f32_div (f32_of_nat (unat capacity)) total_current)"

definition power_duty_cycle_percent :: "power_profile \<Rightarrow> f32" where
  "power_duty_cycle_percent p = duty_cycle_percent (profile_timing p)"

definition power_battery_hours :: "u16 \<Rightarrow> power_profile \<Rightarrow> f32" where
  "power_battery_hours capacity p = estimated_battery_hours capacity (profile_timing p)"

record battery_state =
  level_percent :: u8
  is_charging :: bool
  low_threshold :: u8
  critical_threshold :: u8

definition battery_default :: battery_state where
  "battery_default = \<lparr>level_percent = 100, is_charging = False, low_threshold = 20, critical_threshold = 10\<rparr>"

definition battery_new :: "u8 \<Rightarrow> bool \<Rightarrow> battery_state" where
  "battery_new level charging = battery_default\<lparr>level_percent := min level 100, is_charging := charging\<rparr>"

definition battery_is_low :: "battery_state \<Rightarrow> bool" where
  "battery_is_low b \<longleftrightarrow> \<not> is_charging b \<and> level_percent b \<le> low_threshold b"

definition battery_is_critical :: "battery_state \<Rightarrow> bool" where
  "battery_is_critical b \<longleftrightarrow> \<not> is_charging b \<and> level_percent b \<le> critical_threshold b"

definition suggested_profile :: "battery_state \<Rightarrow> power_profile \<Rightarrow> power_profile" where
  "suggested_profile b current =
     (if is_charging b then current
      else if battery_is_critical b then LowPower
      else if battery_is_low b then (case current of Aggressive \<Rightarrow> Balanced | _ \<Rightarrow> LowPower)
      else current)"

section \<open>Pending syncs\<close>

datatype sync_priority = PrioLow | PrioNormal | PrioHigh | PrioCritical

primrec priority_rank :: "sync_priority \<Rightarrow> nat" where
  "priority_rank PrioLow = 0"
| "priority_rank PrioNormal = 1"
| "priority_rank PrioHigh = 2"
| "priority_rank PrioCritical = 3"

instantiation sync_priority :: linorder
begin

definition less_eq_sync_priority :: "sync_priority \<Rightarrow> sync_priority \<Rightarrow> bool" where
  "less_eq_sync_priority a b \<longleftrightarrow> priority_rank a \<le> priority_rank b"

definition less_sync_priority :: "sync_priority \<Rightarrow> sync_priority \<Rightarrow> bool" where
  "less_sync_priority a b \<longleftrightarrow> priority_rank a < priority_rank b"

instance
proof
  fix a b :: sync_priority
  assume "a \<le> b" "b \<le> a"
  then show "a = b" by (cases a; cases b) (simp_all add: less_eq_sync_priority_def)
qed (auto simp: less_eq_sync_priority_def less_sync_priority_def)

end

lemma priority_le_critical: "p \<le> PrioCritical"
  by (cases p) (simp_all add: less_eq_sync_priority_def)

record pending_sync =
  pd_peer_id :: node_id
  pd_priority :: sync_priority
  pd_data_size :: nat
  pd_queued_at :: u64
  pd_max_age_ms :: u64

primrec max_age_of :: "sync_priority \<Rightarrow> u64" where
  "max_age_of PrioLow = 60000"
| "max_age_of PrioNormal = 30000"
| "max_age_of PrioHigh = 10000"
| "max_age_of PrioCritical = 5000"

definition pending_sync_new :: "node_id \<Rightarrow> sync_priority \<Rightarrow> nat \<Rightarrow> u64 \<Rightarrow> pending_sync" where
  "pending_sync_new n p sz t =
     \<lparr>pd_peer_id = n, pd_priority = p, pd_data_size = sz, pd_queued_at = t, pd_max_age_ms = max_age_of p\<rparr>"

definition pending_is_expired :: "pending_sync \<Rightarrow> u64 \<Rightarrow> bool" where
  "pending_is_expired s now \<longleftrightarrow> now > pd_queued_at s + pd_max_age_ms s"

section \<open>The scheduler\<close>

datatype radio_state = RadioIdle | Scanning | Advertising | RadioSyncing | Transitioning

datatype scheduler_event =
  StartScan | StopScan | StartAdvertising | StopAdvertising | SyncNow | ProfileChanged | EnterSleep

record scheduler_config =
  max_pending_syncs :: nat
  sync_coalesce_ms :: u64
  profile_change_cooldown_ms :: u64

definition scheduler_config_default :: scheduler_config where
  "scheduler_config_default =
     \<lparr>max_pending_syncs = 16, sync_coalesce_ms = 500, profile_change_cooldown_ms = 10000\<rparr>"

record scheduler_stats =
  scan_windows :: u64
  adv_events :: u64
  syncs_performed :: u64
  syncs_dropped :: u64
  critical_syncs :: u64
  profile_changes :: u64

definition scheduler_stats_default :: scheduler_stats where
  "scheduler_stats_default =
     \<lparr>scan_windows = 0, adv_events = 0, syncs_performed = 0, syncs_dropped = 0, critical_syncs = 0, profile_changes = 0\<rparr>"

record radio_scheduler =
  rs_profile :: power_profile
  rs_timing :: radio_timing
  rs_state :: radio_state
  pending_syncs :: "pending_sync list"
  rs_config :: scheduler_config
  next_scan_time :: u64
  next_adv_time :: u64
  last_state_change :: u64
  last_profile_change :: u64
  rs_battery :: battery_state
  auto_adjust_enabled :: bool
  rs_stats :: scheduler_stats

definition scheduler_new :: "power_profile \<Rightarrow> scheduler_config \<Rightarrow> radio_scheduler" where
  "scheduler_new p cfg =
     \<lparr>rs_profile = p, rs_timing = profile_timing p, rs_state = RadioIdle, pending_syncs = [], rs_config = cfg,
      next_scan_time = 0, next_adv_time = 0, last_state_change = 0, last_profile_change = 0,
      rs_battery = battery_default, auto_adjust_enabled = True, rs_stats = scheduler_stats_default\<rparr>"

definition scheduler_with_profile :: "power_profile \<Rightarrow> radio_scheduler" where
  "scheduler_with_profile p = scheduler_new p scheduler_config_default"

definition set_profile :: "radio_scheduler \<Rightarrow> power_profile \<Rightarrow> u64 \<Rightarrow> radio_scheduler \<times> bool" where
  "set_profile s p now =
     (if profile_changes (rs_stats s) = 0 \<or> now \<ge> last_profile_change s + profile_change_cooldown_ms (rs_config s)
      then (s\<lparr>rs_profile := p, rs_timing := profile_timing p, last_profile_change := now,
              rs_stats := (rs_stats s)\<lparr>profile_changes := profile_changes (rs_stats s) + 1\<rparr>\<rparr>, True)
      else (s, False))"

definition scheduler_update_battery :: "radio_scheduler \<Rightarrow> battery_state \<Rightarrow> u64 \<Rightarrow> radio_scheduler" where
  "scheduler_update_battery s b now =
     (let s1 = s\<lparr>rs_battery := b\<rparr>
      in if auto_adjust_enabled s1 then
           let suggested = suggested_profile b (rs_profile s1)
           in if suggested \<noteq> rs_profile s1 then fst (set_profile s1 suggested now) else s1
         else s1)"

definition set_auto_adjust :: "radio_scheduler \<Rightarrow> bool \<Rightarrow> radio_scheduler" where
  "set_auto_adjust s enabled = s\<lparr>auto_adjust_enabled := enabled\<rparr>"

text \<open>\<open>remove_first P xs\<close> is \<open>remove(position(P))\<close>: the element removed and the rest.\<close>

fun remove_first :: "('a \<Rightarrow> bool) \<Rightarrow> 'a list \<Rightarrow> ('a \<times> 'a list) option" where
  "remove_first P [] = None"
| "remove_first P (x # xs) =
     (if P x then Some (x, xs)
      else case remove_first P xs of None \<Rightarrow> None | Some (y, ys) \<Rightarrow> Some (y, x # ys))"

definition lowest_priority :: "pending_sync list \<Rightarrow> sync_priority" where
  "lowest_priority ss = (if ss = [] then PrioCritical else Min (set (map pd_priority ss)))"

definition highest_priority :: "pending_sync list \<Rightarrow> sync_priority" where
  "highest_priority ss = Max (set (map pd_priority ss))"

definition queue_sync :: "radio_scheduler \<Rightarrow> node_id \<Rightarrow> sync_priority \<Rightarrow> nat \<Rightarrow> u64 \<Rightarrow> radio_scheduler \<times> bool" where
  "queue_sync s n p sz now =
     (let push = (\<lambda>s. s\<lparr>pending_syncs := pending_syncs s @ [pending_sync_new n p sz now]\<rparr>)
      in if length (pending_syncs s) \<ge> max_pending_syncs (rs_config s) then
           let lowest = lowest_priority (pending_syncs s)
           in if p \<le> lowest then (s, False)
              else case remove_first (\<lambda>x. pd_priority x = lowest) (pending_syncs s) of
                None \<Rightarrow> (push s, True)
              | Some (_, rest) \<Rightarrow>
                  (push (s\<lparr>pending_syncs := rest,
                           rs_stats := (rs_stats s)\<lparr>syncs_dropped := syncs_dropped (rs_stats s) + 1\<rparr>\<rparr>), True)
         else (push s, True))"

definition has_critical_sync :: "radio_scheduler \<Rightarrow> bool" where
  "has_critical_sync s \<longleftrightarrow> list_ex (\<lambda>x. pd_priority x = PrioCritical) (pending_syncs s)"

definition next_event :: "radio_scheduler \<Rightarrow> u64 \<Rightarrow> (scheduler_event \<times> u64) option" where
  "next_event s now =
     (if has_critical_sync s then Some (SyncNow, now)
      else case rs_state s of
        RadioIdle \<Rightarrow>
          if now \<ge> next_scan_time s then Some (StartScan, now)
          else if now \<ge> next_adv_time s then Some (StartAdvertising, now)
          else if pending_syncs s \<noteq> [] then Some (SyncNow, now)
          else Some (EnterSleep, min (next_scan_time s) (next_adv_time s))
      | Scanning \<Rightarrow>
          if now \<ge> last_state_change s + ucast (scan_window_ms (rs_timing s)) then Some (StopScan, now) else None
      | Advertising \<Rightarrow> Some (StopAdvertising, now)
      | RadioSyncing \<Rightarrow> None
      | Transitioning \<Rightarrow> None)"

definition process_event :: "radio_scheduler \<Rightarrow> scheduler_event \<Rightarrow> u64 \<Rightarrow> radio_scheduler" where
  "process_event s e now =
     (case e of
        StartScan \<Rightarrow>
          s\<lparr>rs_state := Scanning, last_state_change := now,
            rs_stats := (rs_stats s)\<lparr>scan_windows := scan_windows (rs_stats s) + 1\<rparr>\<rparr>
      | StopScan \<Rightarrow>
          s\<lparr>rs_state := RadioIdle, next_scan_time := now + ucast (scan_interval_ms (rs_timing s)), last_state_change := now\<rparr>
      | StartAdvertising \<Rightarrow>
          s\<lparr>rs_state := Advertising, last_state_change := now,
            rs_stats := (rs_stats s)\<lparr>adv_events := adv_events (rs_stats s) + 1\<rparr>\<rparr>
      | StopAdvertising \<Rightarrow>
          s\<lparr>rs_state := RadioIdle, next_adv_time := now + ucast (adv_interval_ms (rs_timing s)), last_state_change := now\<rparr>
      | SyncNow \<Rightarrow> s\<lparr>rs_state := RadioSyncing, last_state_change := now\<rparr>
      | ProfileChanged \<Rightarrow> s
      | EnterSleep \<Rightarrow> s\<lparr>rs_state := RadioIdle\<rparr>)"

definition next_pending_sync :: "radio_scheduler \<Rightarrow> u64 \<Rightarrow> radio_scheduler \<times> pending_sync option" where
  "next_pending_sync s now =
     (let live = filter (\<lambda>x. \<not> pending_is_expired x now) (pending_syncs s);
          st = (rs_stats s)\<lparr>syncs_dropped := syncs_dropped (rs_stats s) + word_of_nat (length (pending_syncs s) - length live)\<rparr>;
          s1 = s\<lparr>pending_syncs := live, rs_stats := st\<rparr>
      in if live = [] then (s1, None)
         else case remove_first (\<lambda>x. pd_priority x = highest_priority live) live of
           None \<Rightarrow> (s1, None)
         | Some (x, rest) \<Rightarrow>
             (s1\<lparr>pending_syncs := rest,
                 rs_stats := st\<lparr>critical_syncs := critical_syncs st + (if pd_priority x = PrioCritical then 1 else 0),
                                syncs_performed := syncs_performed st + 1\<rparr>\<rparr>, Some x))"

definition complete_sync :: "radio_scheduler \<Rightarrow> u64 \<Rightarrow> radio_scheduler" where
  "complete_sync s now = s\<lparr>rs_state := RadioIdle, last_state_change := now\<rparr>"

definition scheduler_reset :: "radio_scheduler \<Rightarrow> u64 \<Rightarrow> radio_scheduler" where
  "scheduler_reset s now =
     s\<lparr>rs_state := RadioIdle, pending_syncs := [], next_scan_time := now, next_adv_time := now, last_state_change := now\<rparr>"

definition time_until_next_activity :: "radio_scheduler \<Rightarrow> u64 \<Rightarrow> u64" where
  "time_until_next_activity s now =
     (if has_critical_sync s then 0 else if pending_syncs s \<noteq> [] then 0
      else min (sat_sub (next_scan_time s) now) (sat_sub (next_adv_time s) now))"

section \<open>The queue\<close>

lemma remove_first_Some:
  assumes "remove_first P xs = Some (x, rest)"
  obtains before after where "xs = before @ x # after" "rest = before @ after" "P x" "\<forall>y \<in> set before. \<not> P y"
  using assms
proof (induction xs arbitrary: rest thesis)
  case (Cons z zs)
  show ?case
  proof (cases "P z")
    case True
    then show ?thesis using Cons.prems(1) [of "[]" zs] Cons.prems(2) by simp
  next
    case False
    then obtain ys where ys: "remove_first P zs = Some (x, ys)" "rest = z # ys"
      using Cons.prems(2) by (auto split: option.splits)
    then obtain before after where "zs = before @ x # after" "ys = before @ after" "P x" "\<forall>y \<in> set before. \<not> P y"
      using Cons.IH by blast
    then show ?thesis using Cons.prems(1) [of "z # before" after] False ys(2) by simp
  qed
qed simp

lemma remove_first_length: "remove_first P xs = Some (x, rest) \<Longrightarrow> length xs = Suc (length rest)"
  by (erule remove_first_Some) simp

lemma remove_first_None: "remove_first P xs = None \<longleftrightarrow> (\<forall>x \<in> set xs. \<not> P x)"
  by (induction xs) (auto split: option.splits)

lemma lowest_priority_in: "ss \<noteq> [] \<Longrightarrow> \<exists>x \<in> set ss. pd_priority x = lowest_priority ss"
  using Min_in [of "pd_priority ` set ss"] by (fastforce simp: lowest_priority_def)

lemma lowest_priority_le: "x \<in> set ss \<Longrightarrow> lowest_priority ss \<le> pd_priority x"
  by (auto simp: lowest_priority_def)

lemma highest_priority_in: "ss \<noteq> [] \<Longrightarrow> \<exists>x \<in> set ss. pd_priority x = highest_priority ss"
  using Max_in [of "pd_priority ` set ss"] by (fastforce simp: highest_priority_def)

lemma highest_priority_ge: "x \<in> set ss \<Longrightarrow> pd_priority x \<le> highest_priority ss"
  by (simp add: highest_priority_def)

lemma queue_sync_bound:
  assumes "length (pending_syncs s) \<le> max_pending_syncs (rs_config s)"
  shows "length (pending_syncs (fst (queue_sync s n p sz now))) \<le> max_pending_syncs (rs_config s)"
proof (cases "p \<le> lowest_priority (pending_syncs s)")
  case True
  then show ?thesis using assms by (auto simp: queue_sync_def Let_def)
next
  case False
  then have "pending_syncs s \<noteq> []" using priority_le_critical by (auto simp: lowest_priority_def)
  then have "remove_first (\<lambda>x. pd_priority x = lowest_priority (pending_syncs s)) (pending_syncs s) \<noteq> None"
    using lowest_priority_in by (auto simp: remove_first_None)
  then show ?thesis using assms False by (auto simp: queue_sync_def Let_def dest: remove_first_length split: option.splits)
qed

lemma queue_sync_refused:
  "\<not> snd (queue_sync s n p sz now) \<longleftrightarrow>
    max_pending_syncs (rs_config s) \<le> length (pending_syncs s) \<and> (\<forall>x \<in> set (pending_syncs s). p \<le> pd_priority x)"
proof -
  have "p \<le> lowest_priority ss \<longleftrightarrow> (\<forall>x \<in> set ss. p \<le> pd_priority x)" for ss
    using lowest_priority_in [of ss] lowest_priority_le [of _ ss] priority_le_critical [of p]
    by (cases "ss = []") (auto simp: lowest_priority_def dest: order_trans)
  then show ?thesis by (auto simp: queue_sync_def Let_def split: option.splits)
qed

lemma queue_sync_full:
  assumes "max_pending_syncs (rs_config s) \<le> length (pending_syncs s)" "snd (queue_sync s n p sz now)"
  shows "\<exists>before x after. pending_syncs s = before @ x # after \<and>
    pending_syncs (fst (queue_sync s n p sz now)) = before @ after @ [pending_sync_new n p sz now] \<and>
    pd_priority x < p \<and> (\<forall>y \<in> set (pending_syncs s). pd_priority x \<le> pd_priority y) \<and>
    (\<forall>y \<in> set before. pd_priority y \<noteq> pd_priority x)"
proof -
  let ?l = "lowest_priority (pending_syncs s)"
  have p: "?l < p" using assms by (auto simp: queue_sync_def Let_def not_le split: if_splits)
  then have "pending_syncs s \<noteq> []" using priority_le_critical [of p] by (auto simp: lowest_priority_def)
  then obtain x rest where r: "remove_first (\<lambda>x. pd_priority x = ?l) (pending_syncs s) = Some (x, rest)"
    using lowest_priority_in by (cases "remove_first (\<lambda>x. pd_priority x = ?l) (pending_syncs s)") (auto simp: remove_first_None)
  then obtain before after where b: "pending_syncs s = before @ x # after" "rest = before @ after" "pd_priority x = ?l"
      "\<forall>y \<in> set before. pd_priority y \<noteq> ?l"
    by (auto elim: remove_first_Some)
  have "pending_syncs (fst (queue_sync s n p sz now)) = rest @ [pending_sync_new n p sz now]"
    using assms(1) p r by (auto simp: queue_sync_def Let_def)
  then show ?thesis using b p lowest_priority_le [of _ "pending_syncs s"]
    by (intro exI [of _ before] exI [of _ x] exI [of _ after]) auto
qed

text \<open>The sync given out: not expired, of the highest priority, and the first of that priority.\<close>

lemma next_pending_sync_spec:
  assumes "next_pending_sync s now = (s', Some x)"
  shows "\<exists>before after. filter (\<lambda>y. \<not> pending_is_expired y now) (pending_syncs s) = before @ x # after \<and>
    pending_syncs s' = before @ after \<and>
    (\<forall>y \<in> set before. pd_priority y < pd_priority x) \<and> (\<forall>y \<in> set after. pd_priority y \<le> pd_priority x)"
proof -
  define live where "live = filter (\<lambda>y. \<not> pending_is_expired y now) (pending_syncs s)"
  let ?m = "highest_priority live"
  have ne: "live \<noteq> []" using assms by (auto simp: next_pending_sync_def live_def Let_def split: if_splits)
  then obtain rest where r: "remove_first (\<lambda>y. pd_priority y = ?m) live = Some (x, rest)" "pending_syncs s' = rest"
    using assms by (auto simp: next_pending_sync_def live_def [symmetric] Let_def split: option.splits)
  from r(1) obtain before after where b: "live = before @ x # after" "rest = before @ after" "pd_priority x = ?m"
      "\<forall>y \<in> set before. pd_priority y \<noteq> ?m"
    by (rule remove_first_Some)
  have "pd_priority y < pd_priority x" if "y \<in> set before" for y
    using that b highest_priority_ge [of y live] by (simp add: less_le)
  moreover have "pd_priority y \<le> pd_priority x" if "y \<in> set after" for y
    using that b highest_priority_ge [of y live] by simp
  ultimately show ?thesis using b(1,2) r(2) unfolding live_def [symmetric] by blast
qed

lemma next_pending_sync_None:
  "snd (next_pending_sync s now) = None \<longleftrightarrow> (\<forall>y \<in> set (pending_syncs s). pending_is_expired y now)"
proof -
  define live where "live = filter (\<lambda>y. \<not> pending_is_expired y now) (pending_syncs s)"
  have "remove_first (\<lambda>y. pd_priority y = highest_priority live) live \<noteq> None" if "live \<noteq> []"
    using highest_priority_in [OF that] by (auto simp: remove_first_None)
  then have "snd (next_pending_sync s now) = None \<longleftrightarrow> live = []"
    by (cases "live = []") (auto simp: next_pending_sync_def live_def [symmetric] Let_def split: option.splits)
  then show ?thesis by (auto simp: live_def filter_empty_conv)
qed

section \<open>Profile changes\<close>

lemma set_profile_cooldown:
  assumes "set_profile s p t = (s1, True)" "profile_changes (rs_stats s) < - 1"
    and "set_profile s1 q u = (s2, True)"
  shows "t + profile_change_cooldown_ms (rs_config s) \<le> u"
proof -
  have "s1 = s\<lparr>rs_profile := p, rs_timing := profile_timing p, last_profile_change := t,
      rs_stats := (rs_stats s)\<lparr>profile_changes := profile_changes (rs_stats s) + 1\<rparr>\<rparr>"
    using assms(1) by (auto simp: set_profile_def split: if_splits)
  moreover have "profile_changes (rs_stats s) + 1 \<noteq> 0"
    using unat_Suc_less [OF assms(2)] by (metis add_eq_0_iff_both_eq_0 one_neq_zero unat_0)
  ultimately show ?thesis using assms(3) by (auto simp: set_profile_def split: if_splits)
qed

text \<open>A critical battery does not force the low power profile during the cool-down.\<close>

lemma critical_battery_deferred:
  assumes "profile_changes (rs_stats s) \<noteq> 0" "now < last_profile_change s + profile_change_cooldown_ms (rs_config s)"
  shows "rs_profile (scheduler_update_battery s b now) = rs_profile s"
    and "rs_timing (scheduler_update_battery s b now) = rs_timing s"
  using assms by (auto simp: scheduler_update_battery_def set_profile_def Let_def)

section \<open>Driving the radio\<close>

text \<open>One round: ask for the next event and process it if it is due now.\<close>

definition sched_round :: "radio_scheduler \<Rightarrow> u64 \<Rightarrow> radio_scheduler \<times> scheduler_event option" where
  "sched_round s now =
     (case next_event s now of
        None \<Rightarrow> (s, None)
      | Some (e, t) \<Rightarrow> if t = now then (process_event s e now, Some e) else (s, None))"

fun drive :: "radio_scheduler \<Rightarrow> u64 list \<Rightarrow> radio_scheduler \<times> scheduler_event list" where
  "drive s [] = (s, [])"
| "drive s (t # ts) =
     (let (s1, e) = sched_round s t; (s2, es) = drive s1 ts
      in (s2, (case e of None \<Rightarrow> es | Some e \<Rightarrow> e # es)))"

declare drive.simps(2) [simp del]

definition due :: "radio_scheduler \<Rightarrow> bool" where
  "due s \<longleftrightarrow> pending_syncs s \<noteq> [] \<and> \<not> has_critical_sync s"

lemma due_pending: "pending_syncs s' = pending_syncs s \<Longrightarrow> due s' = due s"
  by (simp add: due_def has_critical_sync_def)

text \<open>A scan round: the window opens at \<open>t\<close> and closes at \<open>u\<close>.\<close>

lemma scan_round:
  assumes "due s" "rs_state s = RadioIdle" "next_scan_time s \<le> t"
    and "t + ucast (scan_window_ms (rs_timing s)) \<le> u"
  shows "\<exists>s'. set (snd (drive s' ts)) \<subseteq> set (snd (drive s (t # u # ts))) \<and>
    due s' \<and> rs_state s' = RadioIdle \<and> next_scan_time s' = u + ucast (scan_interval_ms (rs_timing s)) \<and>
    next_adv_time s' = next_adv_time s \<and> rs_timing s' = rs_timing s"
proof -
  define s1 where "s1 = process_event s StartScan t"
  define s2 where "s2 = process_event s1 StopScan u"
  have "sched_round s t = (s1, Some StartScan)"
    using assms(1-3) by (simp add: sched_round_def next_event_def due_def s1_def)
  moreover have "sched_round s1 u = (s2, Some StopScan)"
    using assms(1,4) by (simp add: sched_round_def next_event_def due_def s2_def s1_def process_event_def has_critical_sync_def)
  ultimately have "set (snd (drive s2 ts)) \<subseteq> set (snd (drive s (t # u # ts)))"
    by (auto simp: drive.simps(2) case_prod_beta)
  moreover have "due s2" using assms(1) due_pending [of s2 s] by (simp add: s2_def s1_def process_event_def)
  ultimately show ?thesis by (intro exI [of _ s2]) (simp add: s2_def s1_def process_event_def)
qed

lemma adv_round:
  assumes "due s" "rs_state s = RadioIdle" "t < next_scan_time s" "next_adv_time s \<le> t"
  shows "\<exists>s'. set (snd (drive s' ts)) \<subseteq> set (snd (drive s (t # u # ts))) \<and>
    due s' \<and> rs_state s' = RadioIdle \<and> next_adv_time s' = u + ucast (adv_interval_ms (rs_timing s)) \<and>
    next_scan_time s' = next_scan_time s \<and> rs_timing s' = rs_timing s"
proof -
  define s1 where "s1 = process_event s StartAdvertising t"
  define s2 where "s2 = process_event s1 StopAdvertising u"
  have "sched_round s t = (s1, Some StartAdvertising)"
    using assms by (simp add: sched_round_def next_event_def due_def s1_def)
  moreover have "sched_round s1 u = (s2, Some StopAdvertising)"
    using assms(1) by (simp add: sched_round_def next_event_def due_def s2_def s1_def process_event_def has_critical_sync_def)
  ultimately have "set (snd (drive s2 ts)) \<subseteq> set (snd (drive s (t # u # ts)))"
    by (auto simp: drive.simps(2) case_prod_beta)
  moreover have "due s2" using assms(1) due_pending [of s2 s] by (simp add: s2_def s1_def process_event_def)
  ultimately show ?thesis by (intro exI [of _ s2]) (simp add: s2_def s1_def process_event_def)
qed

lemma sync_round:
  assumes "due s" "rs_state s = RadioIdle" "t < next_scan_time s" "t < next_adv_time s"
  shows "SyncNow \<in> set (snd (drive s (t # ts)))"
proof -
  have "sched_round s t = (process_event s SyncNow t, Some SyncNow)"
    using assms by (simp add: sched_round_def next_event_def due_def not_le)
  then show ?thesis by (simp add: drive.simps(2) case_prod_beta)
qed

text \<open>Rounds spaced so that a scan window fits between two of them, all within one interval.\<close>

definition spaced :: "u64 \<Rightarrow> u64 list \<Rightarrow> bool" where
  "spaced w ts \<longleftrightarrow> (\<forall>i < length ts - 1. unat (ts ! i) + unat w \<le> unat (ts ! Suc i))"

definition in_interval :: "u64 \<Rightarrow> u64 list \<Rightarrow> bool" where
  "in_interval w ts \<longleftrightarrow> (\<forall>t \<in> set ts. unat t + unat w < 2 ^ 64) \<and> unat (last ts) < unat (hd ts) + unat w"

lemma idle_radio_syncs:
  assumes "due s" "rs_state s = RadioIdle"
    and "ts = [t1, t2, t3, t4, t5]" "spaced (ucast (scan_window_ms (rs_timing s))) ts"
    and "in_interval (ucast (scan_interval_ms (rs_timing s))) ts" "in_interval (ucast (adv_interval_ms (rs_timing s))) ts"
  shows "SyncNow \<in> set (snd (drive s ts))"
proof -
  let ?w = "ucast (scan_window_ms (rs_timing s)) :: u64"
  let ?i = "ucast (scan_interval_ms (rs_timing s)) :: u64"
  let ?a = "ucast (adv_interval_ms (rs_timing s)) :: u64"
  have gap: "unat t1 + unat ?w \<le> unat t2" "unat t2 + unat ?w \<le> unat t3" "unat t3 + unat ?w \<le> unat t4"
      "unat t4 + unat ?w \<le> unat t5"
    using assms(3,4) unfolding spaced_def by (force simp: nth_Cons')+
  have win: "t1 + ?w \<le> t2" "t2 + ?w \<le> t3" "t3 + ?w \<le> t4" "t4 + ?w \<le> t5"
    using gap unat_less [of t2] unat_less [of t3] unat_less [of t4] unat_less [of t5]
    by (simp_all add: word_le_nat_alt unat_word_ariths)
  have fit: "unat t + unat ?i < 2 ^ 64" "unat t + unat ?a < 2 ^ 64" if "t \<in> set ts" for t
    using assms(5,6) that by (auto simp: in_interval_def)
  have range: "unat t1 \<le> unat t \<and> unat t \<le> unat t5" if "t \<in> set ts" for t using that gap assms(3) by auto
  have ends: "unat t5 < unat t1 + unat ?i" "unat t5 < unat t1 + unat ?a" using assms(3,5,6) by (simp_all add: in_interval_def)
  have far: "v < u + ?i" "v < u + ?a" if "u \<in> set ts" "v \<in> set ts" for u v
    using range [OF that(1)] range [OF that(2)] ends fit [OF that(1)]
    by (simp_all add: word_less_nat_alt unat_word_ariths)
  have in_ts: "t1 \<in> set ts" "t2 \<in> set ts" "t3 \<in> set ts" "t4 \<in> set ts" "t5 \<in> set ts" using assms(3) by simp_all
  show ?thesis
  proof (cases "next_scan_time s \<le> t1")
    case True
    obtain s' where s': "set (snd (drive s ts)) \<supseteq> set (snd (drive s' [t3, t4, t5]))" "due s'" "rs_state s' = RadioIdle"
        "next_scan_time s' = t2 + ?i" "rs_timing s' = rs_timing s"
      using scan_round [OF assms(1,2) True win(1), of "[t3, t4, t5]"] assms(3) by auto
    have "SyncNow \<in> set (snd (drive s' [t3, t4, t5]))"
    proof (cases "next_adv_time s' \<le> t3")
      case True
      then obtain s'' where "set (snd (drive s' [t3, t4, t5])) \<supseteq> set (snd (drive s'' [t5]))" "due s''" "rs_state s'' = RadioIdle"
          "next_scan_time s'' = t2 + ?i" "next_adv_time s'' = t4 + ?a"
        using adv_round [OF s'(2,3) _ True, of "[t5]" t4] s' far(1) [OF in_ts(2,3)] by auto
      then show ?thesis using sync_round [of s'' t5 "[]"] far(1) [OF in_ts(2,5)] far(2) [OF in_ts(4,5)] by auto
    next
      case False
      then show ?thesis using sync_round [of s' t3 "[t4, t5]"] s' far(1) [OF in_ts(2,3)] by simp
    qed
    then show ?thesis using s'(1) by blast
  next
    case scan: False
    show ?thesis
    proof (cases "next_adv_time s \<le> t1")
      case True
      obtain s' where s': "set (snd (drive s ts)) \<supseteq> set (snd (drive s' [t3, t4, t5]))" "due s'" "rs_state s' = RadioIdle"
          "next_adv_time s' = t2 + ?a" "rs_timing s' = rs_timing s"
        using adv_round [OF assms(1,2) _ True, of "[t3, t4, t5]" t2] assms(3) scan by (auto simp: not_le)
      have "SyncNow \<in> set (snd (drive s' [t3, t4, t5]))"
      proof (cases "next_scan_time s' \<le> t3")
        case True
        then obtain s'' where "set (snd (drive s' [t3, t4, t5])) \<supseteq> set (snd (drive s'' [t5]))" "due s''" "rs_state s'' = RadioIdle"
            "next_scan_time s'' = t4 + ?i" "next_adv_time s'' = t2 + ?a"
          using scan_round [OF s'(2,3) True, of t4 "[t5]"] s' win(3) by auto
        then show ?thesis using sync_round [of s'' t5 "[]"] far(1) [OF in_ts(4,5)] far(2) [OF in_ts(2,5)] by auto
      next
        case False
        then show ?thesis using sync_round [of s' t3 "[t4, t5]"] s' far(2) [OF in_ts(2,3)] by simp
      qed
      then show ?thesis using s'(1) by blast
    next
      case False
      then show ?thesis using sync_round [OF assms(1,2)] scan assms(3) by simp
    qed
  qed
qed

lemma spaced_simps [simp]:
  "spaced w [t]" "spaced w (t # u # ts) \<longleftrightarrow> unat t + unat w \<le> unat u \<and> spaced w (u # ts)"
  by (simp_all add: spaced_def All_less_Suc2)

section \<open>Estimates\<close>

text \<open>
  The estimate for the aggressive profile is a duty cycle of 65.33 percent and 20.27 hours on a battery
  of 300 mAh, against 20 percent and 6 hours in its description.
\<close>

lemma aggressive_estimates:
  "power_duty_cycle_percent Aggressive = 0x4282AAAB" "power_battery_hours 300 Aggressive = 0x41A224A6"
proof -
  have "f32_mul (f32_div (f32_of_nat 50) (f32_of_nat 100)) (f32_literal 100 1) = 0x42480000" by (simp add: f32_eval)
  moreover have "f32_mul (f32_div (f32_literal 2 1) (f32_of_nat 100)) (f32_literal 100 1) = 0x40000000" by (simp add: f32_eval)
  moreover have "f32_mul (f32_of_nat 15) (f32_add (f32_literal 1 1) (f32_of_nat 0)) = 0x41700000" by (simp add: f32_eval)
  moreover have "f32_mul (f32_div (f32_literal 2 1) 0x41700000) (f32_literal 100 1) = 0x41555556" by (simp add: f32_eval)
  moreover have "f32_add (f32_add 0x42480000 0x40000000) 0x41555556 = 0x4282AAAB" by (simp add: f32_eval)
  ultimately have duty: "duty_cycle_percent (profile_timing Aggressive) = 0x4282AAAB" by (simp add: duty_cycle_percent_def)
  then show "power_duty_cycle_percent Aggressive = 0x4282AAAB" by (simp only: power_duty_cycle_percent_def)
  have "f32_div 0x4282AAAB (f32_literal 100 1) = 0x3F2740DB" by (simp add: f32_eval)
  moreover have "f32_mul (f32_literal 15 1) 0x3F2740DB = 0x411CCCCD" by (simp add: f32_eval)
  moreover have "f32_sub (f32_literal 1 1) 0x3F2740DB = 0x3EB17E4A" by (simp add: f32_eval)
  moreover have "f32_mul (f32_literal 5 1000) 0x3EB17E4A = 0x3AE33102" by (simp add: f32_eval)
  moreover have "f32_add 0x411CCCCD 0x3AE33102 = 0x411CD3E7" by (simp add: f32_eval)
  moreover have "f32_add 0x411CD3E7 (f32_literal 5 1) = 0x416CD3E7" by (simp add: f32_eval)
  moreover have "f32_div (f32_of_nat 300) 0x416CD3E7 = 0x41A224A6" by (simp add: f32_eval)
  ultimately show "power_battery_hours 300 Aggressive = 0x41A224A6"
    by (simp add: power_battery_hours_def estimated_battery_hours_def duty del: profile_timing.simps)
qed

text \<open>A custom profile may have a scan interval of 0; the estimate is then no number.\<close>

lemma zero_interval_estimate:
  assumes "scan_interval_ms t = 0" "scan_window_ms t = 0"
  shows "f32_is_nan (duty_cycle_percent t)"
proof -
  have "f32_mul (f32_div (f32_of_nat 0) (f32_of_nat 0)) (f32_literal 100 1) = F32_NAN" by (simp add: f32_eval F32_NAN_def)
  moreover have "f32_add F32_NAN x = F32_NAN" for x by (simp add: f32_add_def f32_classify_def f32_exponent_def f32_mantissa_def F32_NAN_def)
  ultimately have "duty_cycle_percent t = F32_NAN" using assms by (simp add: duty_cycle_percent_def Let_def)
  then show ?thesis by (simp add: f32_is_nan_def f32_exponent_def f32_mantissa_def F32_NAN_def)
qed

section \<open>Properties\<close>

text \<open>
  C23: Queued work is done. From an idle radio with a normal sync waiting, five polls of the
  scheduler suffice: if the polls are at least a scan window apart and all fall into one scan
  and one advertising interval, one of them hands out \<open>SyncNow\<close>.
\<close>

theorem queued_sync_served:
  assumes "due s" "rs_state s = RadioIdle"
    and "ts = [t1, t2, t3, t4, t5]" "spaced (ucast (scan_window_ms (rs_timing s))) ts"
    and "in_interval (ucast (scan_interval_ms (rs_timing s))) ts" "in_interval (ucast (adv_interval_ms (rs_timing s))) ts"
  shows "SyncNow \<in> set (snd (drive s ts))"
  by (rule idle_radio_syncs [OF assms])

theorem queued_sync_served_witness:
  "SyncNow \<in> set (snd (drive (fst (queue_sync (scheduler_with_profile Balanced) 5 PrioNormal 10 1000)) [1000, 1100, 1200, 1300, 1400]))"
proof -
  let ?s = "fst (queue_sync (scheduler_with_profile Balanced) 5 PrioNormal 10 1000)"
  have "due ?s" by code_simp
  moreover have "rs_state ?s = RadioIdle" "rs_timing ?s = profile_timing Balanced"
    by (simp_all add: queue_sync_def scheduler_with_profile_def scheduler_new_def scheduler_config_default_def Let_def)
  ultimately show ?thesis
    by (intro queued_sync_served [OF _ _ refl]) (simp_all add: spaced_simps in_interval_def)
qed

end
