(* ===== verification/Phy.thy ===== *)
theory Phy
  imports Float32
begin

text \<open>
  The choice of the physical layer: PHY types and capabilities (\<open>src/phy/types.rs\<close>), selection
  strategies (\<open>src/phy/strategy.rs\<close>) and the controller (\<open>src/phy/controller.rs\<close>). Figures in \<open>f32\<close>
  (relative power, success rate) are bit patterns, see Float32. Sums of signed bytes wrap, as in a release build.

  Main results: a selected PHY is supported by both sides; at a constant signal strength the
  selection settles after one switch, so hysteresis prevents oscillation; a recommended switch is
  accepted when requested, and recommendations after a success are a cool-down apart.
\<close>

section \<open>Types\<close>

datatype ble_phy = Le1M | Le2M | LeCodedS2 | LeCodedS8

primrec data_rate_bps :: "ble_phy \<Rightarrow> u32" where
  "data_rate_bps Le1M = 1000000"
| "data_rate_bps Le2M = 2000000"
| "data_rate_bps LeCodedS2 = 500000"
| "data_rate_bps LeCodedS8 = 125000"

definition data_rate_kbps :: "ble_phy \<Rightarrow> u32" where
  "data_rate_kbps p = data_rate_bps p div 1000"

primrec typical_range_m :: "ble_phy \<Rightarrow> u16" where
  "typical_range_m Le1M = 100"
| "typical_range_m Le2M = 50"
| "typical_range_m LeCodedS2 = 200"
| "typical_range_m LeCodedS8 = 400"

primrec typical_latency_ms :: "ble_phy \<Rightarrow> u16" where
  "typical_latency_ms Le1M = 30"
| "typical_latency_ms Le2M = 20"
| "typical_latency_ms LeCodedS2 = 50"
| "typical_latency_ms LeCodedS8 = 100"

definition is_coded :: "ble_phy \<Rightarrow> bool" where
  "is_coded p \<longleftrightarrow> p = LeCodedS2 \<or> p = LeCodedS8"

definition requires_ble5 :: "ble_phy \<Rightarrow> bool" where
  "requires_ble5 p \<longleftrightarrow> p \<noteq> Le1M"

fun coding_scheme :: "ble_phy \<Rightarrow> u8 option" where
  "coding_scheme LeCodedS2 = Some 2"
| "coding_scheme LeCodedS8 = Some 8"
| "coding_scheme _ = None"

primrec phy_name :: "ble_phy \<Rightarrow> string" where
  "phy_name Le1M = ''LE 1M''"
| "phy_name Le2M = ''LE 2M''"
| "phy_name LeCodedS2 = ''LE Coded S=2''"
| "phy_name LeCodedS8 = ''LE Coded S=8''"

definition transmit_time_us :: "nat \<Rightarrow> ble_phy \<Rightarrow> nat \<Rightarrow> u64" where
  "transmit_time_us w p nbytes =
     (let bits = usize_mul w (usize_add w nbytes 10) 8 in (word_of_nat bits * 1000000) div ucast (data_rate_bps p))"

primrec relative_power :: "ble_phy \<Rightarrow> f32" where
  "relative_power Le1M = f32_literal 1 1"
| "relative_power Le2M = f32_literal 8 10"
| "relative_power LeCodedS2 = f32_literal 15 10"
| "relative_power LeCodedS8 = f32_literal 2 1"

record phy_capabilities =
  le_2m :: bool
  le_coded :: bool

definition le_1m_only :: phy_capabilities where "le_1m_only = \<lparr>le_2m = False, le_coded = False\<rparr>"
definition ble5_full :: phy_capabilities where "ble5_full = \<lparr>le_2m = True, le_coded = True\<rparr>"
definition ble5_no_coded :: phy_capabilities where "ble5_no_coded = \<lparr>le_2m = True, le_coded = False\<rparr>"

fun supports :: "phy_capabilities \<Rightarrow> ble_phy \<Rightarrow> bool" where
  "supports c Le1M = True"
| "supports c Le2M = le_2m c"
| "supports c LeCodedS2 = le_coded c"
| "supports c LeCodedS8 = le_coded c"

definition best_for_range :: "phy_capabilities \<Rightarrow> ble_phy" where
  "best_for_range c = (if le_coded c then LeCodedS8 else Le1M)"

definition best_for_throughput :: "phy_capabilities \<Rightarrow> ble_phy" where
  "best_for_throughput c = (if le_2m c then Le2M else Le1M)"

record phy_preference =
  pref_tx :: ble_phy
  pref_rx :: ble_phy

definition preference_default :: phy_preference where
  "preference_default = \<lparr>pref_tx = Le1M, pref_rx = Le1M\<rparr>"

definition preference_symmetric :: "ble_phy \<Rightarrow> phy_preference" where
  "preference_symmetric p = \<lparr>pref_tx = p, pref_rx = p\<rparr>"

definition preference_is_symmetric :: "phy_preference \<Rightarrow> bool" where
  "preference_is_symmetric p \<longleftrightarrow> pref_tx p = pref_rx p"

section \<open>Strategies\<close>

datatype phy_strategy =
    FixedPhy ble_phy
  | Adaptive (rssi_threshold_high: i8) (rssi_threshold_low: i8) (hysteresis_db: u8) (coded_phy: ble_phy)
  | MaxRange
  | MaxThroughput
  | PowerOptimized i8

definition strategy_default :: phy_strategy where
  "strategy_default = Adaptive (- 50) (- 75) 5 LeCodedS2"

definition strategy_adaptive :: "i8 \<Rightarrow> i8 \<Rightarrow> u8 \<Rightarrow> phy_strategy" where
  "strategy_adaptive high low hysteresis = Adaptive high low hysteresis LeCodedS2"

definition strategy_adaptive_max_range :: phy_strategy where
  "strategy_adaptive_max_range = Adaptive (- 50) (- 70) 5 LeCodedS8"

definition adaptive_thresholds :: "ble_phy \<Rightarrow> i8 \<Rightarrow> i8 \<Rightarrow> u8 \<Rightarrow> i8 \<times> i8" where
  "adaptive_thresholds current high low hysteresis =
     (if current = Le2M then (high - hysteresis, low)
      else if is_coded current then (high, low + hysteresis)
      else (high, low))"

definition strategy_choice :: "phy_strategy \<Rightarrow> ble_phy \<Rightarrow> i8 \<Rightarrow> phy_capabilities \<Rightarrow> ble_phy" where
  "strategy_choice s current rssi caps =
     (case s of
        FixedPhy p \<Rightarrow> p
      | Adaptive high low hysteresis coded \<Rightarrow>
          let (high_thresh, low_thresh) = adaptive_thresholds current high low hysteresis
          in if sint rssi > sint high_thresh then Le2M
             else if sint rssi < sint low_thresh then coded
             else Le1M
      | MaxRange \<Rightarrow> if le_coded caps then LeCodedS8 else Le1M
      | MaxThroughput \<Rightarrow> if le_2m caps then Le2M else Le1M
      | PowerOptimized threshold \<Rightarrow> if sint rssi > sint threshold \<and> le_2m caps then Le2M else Le1M)"

definition select_phy :: "phy_strategy \<Rightarrow> ble_phy \<Rightarrow> i8 \<Rightarrow> phy_capabilities \<Rightarrow> ble_phy" where
  "select_phy s current rssi caps =
     (let selected = strategy_choice s current rssi caps in if supports caps selected then selected else Le1M)"

primrec strategy_name :: "phy_strategy \<Rightarrow> string" where
  "strategy_name (FixedPhy p) = ''fixed''"
| "strategy_name (Adaptive h l d c) = ''adaptive''"
| "strategy_name MaxRange = ''max_range''"
| "strategy_name MaxThroughput = ''max_throughput''"
| "strategy_name (PowerOptimized t) = ''power_optimized''"

definition requires_capability_check :: "phy_strategy \<Rightarrow> bool" where
  "requires_capability_check s \<longleftrightarrow> s \<noteq> FixedPhy Le1M"

datatype phy_switch_decision = Keep | Switch ble_phy

definition should_switch :: "phy_switch_decision \<Rightarrow> bool" where
  "should_switch d \<longleftrightarrow> d \<noteq> Keep"

primrec switch_target :: "phy_switch_decision \<Rightarrow> ble_phy option" where
  "switch_target Keep = None"
| "switch_target (Switch p) = Some p"

definition evaluate_phy_switch :: "phy_strategy \<Rightarrow> ble_phy \<Rightarrow> i8 \<Rightarrow> phy_capabilities \<Rightarrow> phy_switch_decision" where
  "evaluate_phy_switch s current rssi caps =
     (let recommended = select_phy s current rssi caps in if recommended \<noteq> current then Switch recommended else Keep)"

section \<open>The controller\<close>

datatype phy_controller_state = PhyIdle | Negotiating | PhyActive | Switching | PhyError

datatype phy_update_result = PhySuccess ble_phy ble_phy | Rejected | NotSupported | UpdateTimeout | UpdateFailed

datatype phy_controller_event =
    NegotiationComplete phy_capabilities phy_capabilities
  | SwitchRecommended ble_phy ble_phy i8
  | UpdateComplete phy_update_result
  | RssiUpdate i8

record phy_stats =
  switches :: u64
  successful_switches :: u64
  failed_switches :: u64
  stat_rssi_samples :: u64
  time_in_le1m :: u64
  time_in_le2m :: u64
  time_in_coded :: u64

definition phy_stats_default :: phy_stats where
  "phy_stats_default =
     \<lparr>switches = 0, successful_switches = 0, failed_switches = 0, stat_rssi_samples = 0,
      time_in_le1m = 0, time_in_le2m = 0, time_in_coded = 0\<rparr>"

definition success_rate :: "phy_stats \<Rightarrow> f32" where
  "success_rate s =
     (if switches s = 0 then f32_literal 1 1
      else f32_div (f32_of_nat (unat (successful_switches s))) (f32_of_nat (unat (switches s))))"

definition record_time :: "phy_stats \<Rightarrow> ble_phy \<Rightarrow> u64 \<Rightarrow> phy_stats" where
  "record_time st p units =
     (case p of
        Le1M \<Rightarrow> st\<lparr>time_in_le1m := time_in_le1m st + units\<rparr>
      | Le2M \<Rightarrow> st\<lparr>time_in_le2m := time_in_le2m st + units\<rparr>
      | _ \<Rightarrow> st\<lparr>time_in_coded := time_in_coded st + units\<rparr>)"

record phy_controller_config =
  pc_strategy :: phy_strategy
  min_samples_for_switch :: nat
  rssi_window_size :: nat
  switch_cooldown_ms :: u64
  auto_switch :: bool

definition phy_controller_config_default :: phy_controller_config where
  "phy_controller_config_default =
     \<lparr>pc_strategy = strategy_default, min_samples_for_switch = 5, rssi_window_size = 10, switch_cooldown_ms = 5000,
      auto_switch = True\<rparr>"

record phy_controller =
  pc_config :: phy_controller_config
  pc_state :: phy_controller_state
  tx_phy :: ble_phy
  rx_phy :: ble_phy
  local_caps :: phy_capabilities
  peer_caps :: phy_capabilities
  rssi_samples :: "i8 list"
  last_switch_time :: u64
  pc_stats :: phy_stats

definition phy_controller_new :: "phy_controller_config \<Rightarrow> phy_capabilities \<Rightarrow> phy_controller" where
  "phy_controller_new cfg caps =
     \<lparr>pc_config = cfg, pc_state = PhyIdle, tx_phy = Le1M, rx_phy = Le1M, local_caps = caps,
      peer_caps = \<lparr>le_2m = False, le_coded = False\<rparr>, rssi_samples = [], last_switch_time = 0, pc_stats = phy_stats_default\<rparr>"

definition current_preference :: "phy_controller \<Rightarrow> phy_preference" where
  "current_preference c = \<lparr>pref_tx = tx_phy c, pref_rx = rx_phy c\<rparr>"

definition effective_capabilities :: "phy_controller \<Rightarrow> phy_capabilities" where
  "effective_capabilities c =
     \<lparr>le_2m = (le_2m (local_caps c) \<and> le_2m (peer_caps c)), le_coded = (le_coded (local_caps c) \<and> le_coded (peer_caps c))\<rparr>"

definition start_negotiation :: "phy_controller \<Rightarrow> phy_controller" where
  "start_negotiation c = c\<lparr>pc_state := Negotiating, rssi_samples := []\<rparr>"

definition complete_negotiation :: "phy_controller \<Rightarrow> phy_capabilities \<Rightarrow> phy_controller \<times> phy_controller_event" where
  "complete_negotiation c caps =
     (c\<lparr>peer_caps := caps, pc_state := PhyActive\<rparr>, NegotiationComplete (local_caps c) caps)"

definition phy_average_rssi :: "phy_controller \<Rightarrow> i8" where
  "phy_average_rssi c = (if rssi_samples c = [] then - 100 else mean_rssi (rssi_samples c))"

definition evaluate_switch :: "phy_controller \<Rightarrow> i8 \<Rightarrow> phy_switch_decision" where
  "evaluate_switch c rssi = evaluate_phy_switch (pc_strategy (pc_config c)) (tx_phy c) rssi (effective_capabilities c)"

definition record_rssi :: "phy_controller \<Rightarrow> i8 \<Rightarrow> u64 \<Rightarrow> phy_controller \<times> phy_controller_event option" where
  "record_rssi c rssi now =
     (let rs = rssi_samples c @ [rssi];
          c1 = c\<lparr>rssi_samples := (if length rs > rssi_window_size (pc_config c) then tl rs else rs),
                 pc_stats := (pc_stats c)\<lparr>stat_rssi_samples := stat_rssi_samples (pc_stats c) + 1\<rparr>\<rparr>
      in if auto_switch (pc_config c1) \<and> pc_state c1 = PhyActive
            \<and> length (rssi_samples c1) \<ge> min_samples_for_switch (pc_config c1)
            \<and> now \<ge> last_switch_time c1 + switch_cooldown_ms (pc_config c1)
         then (case evaluate_switch c1 (phy_average_rssi c1) of
                 Switch to_phy \<Rightarrow> (c1, Some (SwitchRecommended (tx_phy c1) to_phy (phy_average_rssi c1)))
               | Keep \<Rightarrow> (c1, None))
         else (c1, None))"

definition request_switch :: "phy_controller \<Rightarrow> ble_phy \<Rightarrow> phy_controller \<times> phy_preference option" where
  "request_switch c to_phy =
     (if pc_state c \<noteq> PhyActive then (c, None)
      else if \<not> supports (effective_capabilities c) to_phy then (c, None)
      else (c\<lparr>pc_state := Switching, pc_stats := (pc_stats c)\<lparr>switches := switches (pc_stats c) + 1\<rparr>\<rparr>,
            Some (preference_symmetric to_phy)))"

definition handle_update_result :: "phy_controller \<Rightarrow> phy_update_result \<Rightarrow> u64 \<Rightarrow> phy_controller \<times> phy_controller_event" where
  "handle_update_result c result now =
     ((case result of
         PhySuccess tx rx \<Rightarrow>
           c\<lparr>tx_phy := tx, rx_phy := rx, last_switch_time := now, pc_state := PhyActive,
             pc_stats := (pc_stats c)\<lparr>successful_switches := successful_switches (pc_stats c) + 1\<rparr>\<rparr>
       | _ \<Rightarrow>
           c\<lparr>pc_state := PhyActive, pc_stats := (pc_stats c)\<lparr>failed_switches := failed_switches (pc_stats c) + 1\<rparr>\<rparr>),
      UpdateComplete result)"

definition phy_reset :: "phy_controller \<Rightarrow> phy_controller" where
  "phy_reset c =
     c\<lparr>pc_state := PhyIdle, tx_phy := Le1M, rx_phy := Le1M, peer_caps := \<lparr>le_2m = False, le_coded = False\<rparr>,
       rssi_samples := [], last_switch_time := 0\<rparr>"

definition set_strategy :: "phy_controller \<Rightarrow> phy_strategy \<Rightarrow> phy_controller" where
  "set_strategy c s = c\<lparr>pc_config := (pc_config c)\<lparr>pc_strategy := s\<rparr>\<rparr>"

definition set_auto_switch :: "phy_controller \<Rightarrow> bool \<Rightarrow> phy_controller" where
  "set_auto_switch c enabled = c\<lparr>pc_config := (pc_config c)\<lparr>auto_switch := enabled\<rparr>\<rparr>"

section \<open>Selection\<close>

lemma select_phy_supported: "supports caps (select_phy s current rssi caps)"
  by (simp add: select_phy_def Let_def)

text \<open>
  Thresholds that make sense: the hysteresis is small enough not to leave the range of a signed
  byte on either side, and the coded PHY is a coded one.
\<close>

definition thresholds_ok :: "phy_strategy \<Rightarrow> bool" where
  "thresholds_ok s =
     (case s of
        Adaptive high low hysteresis coded \<Rightarrow>
          is_coded coded \<and> sint low \<le> sint high \<and>
          - 128 \<le> sint high - uint hysteresis \<and> sint low + uint hysteresis < 128
      | _ \<Rightarrow> True)"

lemma threshold_arith:
  fixes high low hysteresis :: "8 word"
  assumes "sint low \<le> sint high" "- 128 \<le> sint high - uint hysteresis" "sint low + uint hysteresis < 128"
  shows "sint (high - hysteresis) = sint high - uint hysteresis"
    and "sint (low + hysteresis) = sint low + uint hysteresis"
proof -
  have r: "- 128 \<le> sint w \<and> sint w < 128" for w :: "8 word"
    using sint_greater_eq [of w] sint_less [of w] by simp
  have wi: "sint (word_of_int x :: 8 word) = x" if "- 128 \<le> x" "x < 128" for x
    using that by (simp add: sint_sbintrunc' signed_take_bit_int_eq_self)
  have h: "sint high - uint hysteresis < 128" and l: "- 128 \<le> sint low + uint hysteresis"
    using r [of high] r [of low] uint_ge_0 [of hysteresis] by linarith+
  have "high - hysteresis = word_of_int (sint high - uint hysteresis)" by simp
  then show "sint (high - hysteresis) = sint high - uint hysteresis"
    using wi [OF assms(2) h] by simp
  have "low + hysteresis = word_of_int (sint low + uint hysteresis)" by simp
  then show "sint (low + hysteresis) = sint low + uint hysteresis"
    using wi [OF l assms(3)] by simp
qed

lemma select_phy_stable:
  assumes "thresholds_ok s" "supports caps current"
  shows "select_phy s (select_phy s current rssi caps) rssi caps = select_phy s current rssi caps"
proof (cases s)
  case (Adaptive high low hysteresis coded)
  then have ok: "is_coded coded" "sint low \<le> sint high"
      "- 128 \<le> sint high - uint hysteresis" "sint low + uint hysteresis < 128"
    using assms(1) by (simp_all add: thresholds_ok_def)
  note arith = threshold_arith [OF ok(2-4)]
  obtain k where k: "uint hysteresis = k" "0 \<le> k" by simp
  have c: "coded \<noteq> Le2M" "coded \<noteq> Le1M" using ok(1) by (auto simp: is_coded_def)
  show ?thesis using ok(1,2) c k(2) assms(2)
    by (auto simp: select_phy_def strategy_choice_def adaptive_thresholds_def Adaptive Let_def arith k(1) is_coded_def)
qed (auto simp: select_phy_def strategy_choice_def Let_def)

lemma select_phy_settles:
  assumes "thresholds_ok s" "supports caps current" "0 < n"
  shows "((\<lambda>p. select_phy s p rssi caps) ^^ n) current = select_phy s current rssi caps"
  using assms(3)
proof (induction n)
  case (Suc n)
  then show ?case using select_phy_stable [OF assms(1,2)] by (cases n) simp_all
qed simp

section \<open>The controller\<close>

lemma record_rssi_window:
  assumes "length (rssi_samples c) \<le> rssi_window_size (pc_config c)"
  shows "length (rssi_samples (fst (record_rssi c rssi now))) \<le> rssi_window_size (pc_config c)"
  using assms by (auto simp: record_rssi_def Let_def split: phy_switch_decision.splits)

lemma recommended_switch_accepted:
  assumes "record_rssi c rssi now = (c1, Some (SwitchRecommended from to avg))"
  shows "from = tx_phy c" "to \<noteq> from" "supports (local_caps c) to" "supports (peer_caps c) to"
    and "snd (request_switch c1 to) = Some (preference_symmetric to)"
    and "last_switch_time c + switch_cooldown_ms (pc_config c) \<le> now"
proof -
  let ?e = "effective_capabilities c"
  have e: "effective_capabilities c1 = ?e" "pc_state c1 = PhyActive" "tx_phy c1 = tx_phy c" "from = tx_phy c1"
      "to = select_phy (pc_strategy (pc_config c)) (tx_phy c) avg ?e" "to \<noteq> tx_phy c"
      "last_switch_time c + switch_cooldown_ms (pc_config c) \<le> now"
    using assms by (auto simp: record_rssi_def Let_def evaluate_switch_def evaluate_phy_switch_def
        effective_capabilities_def split: if_splits phy_switch_decision.splits)
  have s: "supports ?e to" using select_phy_supported [of ?e] e(5) by simp
  show "from = tx_phy c" "to \<noteq> from" using e by simp_all
  show "supports (local_caps c) to" "supports (peer_caps c) to"
    using s by (cases to; simp add: effective_capabilities_def)+
  show "snd (request_switch c1 to) = Some (preference_symmetric to)" using s e by (simp add: request_switch_def)
  show "last_switch_time c + switch_cooldown_ms (pc_config c) \<le> now" using e by simp
qed

text \<open>A failed switch does not start the cool-down: the next sample recommends it again.\<close>

lemma failed_switch_no_cooldown:
  assumes "result \<in> {Rejected, NotSupported, UpdateTimeout, UpdateFailed}"
  shows "last_switch_time (fst (handle_update_result c result now)) = last_switch_time c"
    and "pc_state (fst (handle_update_result c result now)) = PhyActive"
  using assms by (auto simp: handle_update_result_def)

section \<open>Properties\<close>

text \<open>
  The choice of the radio mode does not oscillate. At a constant signal strength, applying the
  strategy again and again gives from the first step on the same mode, which both ends support:
  the two thresholds with their hysteresis never send the choice back and forth. (The thresholds
  must be ordered and the hysteresis must not overflow the 8-bit arithmetic.)
\<close>

theorem phy_choice_settles:
  assumes "thresholds_ok s" "supports caps current" "0 < n"
  shows "((\<lambda>p. select_phy s p rssi caps) ^^ n) current = select_phy s current rssi caps \<and>
    supports caps (select_phy s current rssi caps)"
  using select_phy_settles [OF assms] select_phy_supported by simp

theorem phy_choice_settles_witness:
  "((\<lambda>p. select_phy strategy_default p (- 48) ble5_full) ^^ 7) Le2M = Le2M"
proof -
  have "thresholds_ok strategy_default" "supports ble5_full Le2M" "select_phy strategy_default Le2M (- 48) ble5_full = Le2M"
    by code_simp+
  then show ?thesis using phy_choice_settles [of strategy_default ble5_full Le2M 7 "- 48"] by simp
qed

section \<open>The success rate\<close>

text \<open>While no more switches succeeded than were requested, the rate lies between 0 and 1.\<close>

lemma success_rate_unit:
  assumes "successful_switches s \<le> switches s"
  shows "f32_le 0 (success_rate s)" "f32_le (success_rate s) (f32_literal 1 1)"
proof -
  have one: "f32_le 0 (f32_literal 1 1)" "f32_le (f32_literal 1 1) (f32_literal 1 1)"
    by (simp_all add: f32_eval f32_le_def f32_is_nan_def f32_key_def)
  have "f32_le 0 (success_rate s) \<and> f32_le (success_rate s) (f32_literal 1 1)"
  proof (cases "switches s = 0")
    case True
    then show ?thesis using one by (simp add: success_rate_def)
  next
    case False
    then have "0 < unat (switches s)" by (simp add: unat_gt_0)
    then show ?thesis
      using False assms f32_ratio_unit [of "unat (successful_switches s)" "unat (switches s)"] unat_less [of "switches s"]
      by (simp add: success_rate_def word_le_nat_alt)
  qed
  then show "f32_le 0 (success_rate s)" "f32_le (success_rate s) (f32_literal 1 1)" by simp_all
qed

text \<open>
  An update the peer asked for counts as a success but not as a switch: after one of these and one of its
  own, the controller reports a rate of 2.
\<close>

lemma success_rate_above_one:
  assumes "pc_state c = PhyActive" "supports (effective_capabilities c) Le2M" "pc_stats c = phy_stats_default"
  shows "success_rate (pc_stats (fst (handle_update_result
    (fst (request_switch (fst (handle_update_result c (PhySuccess Le1M Le1M) 0)) Le2M)) (PhySuccess Le2M Le2M) 1)))
    = f32_literal 2 1"
proof -
  have "f32_div (f32_of_nat 2) (f32_of_nat 1) = f32_literal 2 1" by (simp add: f32_eval)
  then show ?thesis using assms
    by (simp add: success_rate_def handle_update_result_def request_switch_def effective_capabilities_def phy_stats_default_def)
qed

end
