(* ===== verification/Address_Rotation.thy ===== *)
theory Address_Rotation
  imports Node_Id Ordered_Map "HOL-Library.List_Lexorder" "HOL-Library.Char_ord" "HOL-Library.Sublist"
begin

text \<open>
  Devices that rotate their addresses (\<open>src/address_rotation.rs\<close>): name patterns, and the handler
  that recognises a device by its name and follows its address. The four hash maps are never
  iterated over, so ordered maps stand for them.

  Main results: every address leads to a node whose current address it is, as long as a node is
  registered once; a discovery under a known name moves the node to the new address and forgets
  the old one. Registering a node again leaves its old address behind.
\<close>

section \<open>Names\<close>

datatype device_pattern = WearTak | WearOs | PeatDevice | UnknownDevice

definition rotates_addresses :: "device_pattern \<Rightarrow> bool" where
  "rotates_addresses p \<longleftrightarrow> p = WearTak \<or> p = WearOs"

definition detect_device_pattern :: "string \<Rightarrow> device_pattern" where
  "detect_device_pattern name =
     (if prefix ''WT-WEAROS-'' name then WearTak
      else if prefix ''WEAROS-'' name then WearOs
      else if prefix ''PEAT_'' name \<or> prefix ''PEAT-'' name then PeatDevice
      else UnknownDevice)"

definition is_weartak_device :: "string \<Rightarrow> bool" where
  "is_weartak_device name \<longleftrightarrow> prefix ''WT-WEAROS-'' name \<or> prefix ''WEAROS-'' name"

definition normalize_weartak_name :: "string \<Rightarrow> string" where
  "normalize_weartak_name name = (if prefix ''WT-'' name then drop 3 name else name)"

section \<open>The handler\<close>

record device_lookup_result =
  dl_node_id :: node_id
  dl_current_address :: string
  dl_address_changed :: bool
  dl_previous_address :: "string option"

record rotation_handler =
  name_to_node :: "(string, node_id) btree_map"
  node_to_name :: "(node_id, string) btree_map"
  node_to_address :: "(node_id, string) btree_map"
  address_to_node :: "(string, node_id) btree_map"

definition rotation_handler_new :: rotation_handler where
  "rotation_handler_new = \<lparr>name_to_node = [], node_to_name = [], node_to_address = [], address_to_node = []\<rparr>"

definition register_device :: "rotation_handler \<Rightarrow> string \<Rightarrow> string \<Rightarrow> node_id \<Rightarrow> rotation_handler" where
  "register_device h name address n =
     (let h1 = (if name \<noteq> [] then h\<lparr>name_to_node := bt_insert name n (name_to_node h),
                                      node_to_name := bt_insert n name (node_to_name h)\<rparr> else h)
      in h1\<lparr>address_to_node := bt_insert address n (address_to_node h1),
            node_to_address := bt_insert n address (node_to_address h1)\<rparr>)"

definition lookup_by_name :: "rotation_handler \<Rightarrow> string \<Rightarrow> node_id option" where
  "lookup_by_name h name = bt_get (name_to_node h) name"

definition lookup_by_address :: "rotation_handler \<Rightarrow> string \<Rightarrow> node_id option" where
  "lookup_by_address h address = bt_get (address_to_node h) address"

definition get_address :: "rotation_handler \<Rightarrow> node_id \<Rightarrow> string option" where
  "get_address h n = bt_get (node_to_address h) n"

definition get_name :: "rotation_handler \<Rightarrow> node_id \<Rightarrow> string option" where
  "get_name h n = bt_get (node_to_name h) n"

definition update_address_internal :: "rotation_handler \<Rightarrow> node_id \<Rightarrow> string \<Rightarrow> string option \<Rightarrow> rotation_handler" where
  "update_address_internal h n new_address old_address =
     (let a = (case old_address of None \<Rightarrow> address_to_node h | Some old \<Rightarrow> bt_remove old (address_to_node h))
      in h\<lparr>address_to_node := bt_insert new_address n a, node_to_address := bt_insert n new_address (node_to_address h)\<rparr>)"

definition on_device_discovered :: "rotation_handler \<Rightarrow> string \<Rightarrow> string \<Rightarrow> rotation_handler \<times> device_lookup_result option" where
  "on_device_discovered h name address =
     (case (if name \<noteq> [] then bt_get (name_to_node h) name else None) of
        Some n \<Rightarrow>
          let current = bt_get (node_to_address h) n;
              changed = (current \<noteq> Some address)
          in (if changed then update_address_internal h n address current else h,
              Some \<lparr>dl_node_id = n, dl_current_address = address, dl_address_changed = changed,
                    dl_previous_address = (if changed then current else None)\<rparr>)
      | None \<Rightarrow>
          (case bt_get (address_to_node h) address of
             Some n \<Rightarrow> (h, Some \<lparr>dl_node_id = n, dl_current_address = address, dl_address_changed = False,
                                 dl_previous_address = None\<rparr>)
           | None \<Rightarrow> (h, None)))"

definition update_address :: "rotation_handler \<Rightarrow> string \<Rightarrow> string \<Rightarrow> rotation_handler \<times> bool" where
  "update_address h name new_address =
     (case bt_get (name_to_node h) name of
        Some n \<Rightarrow> (update_address_internal h n new_address (bt_get (node_to_address h) n), True)
      | None \<Rightarrow> (h, False))"

definition update_name :: "rotation_handler \<Rightarrow> node_id \<Rightarrow> string \<Rightarrow> rotation_handler" where
  "update_name h n new_name =
     (let h1 = (case bt_get (node_to_name h) n of
                  Some old \<Rightarrow> if old \<noteq> new_name then h\<lparr>name_to_node := bt_remove old (name_to_node h)\<rparr> else h
                | None \<Rightarrow> h)
      in if new_name \<noteq> [] then h1\<lparr>name_to_node := bt_insert new_name n (name_to_node h1),
                                   node_to_name := bt_insert n new_name (node_to_name h1)\<rparr>
         else h1)"

definition remove_device :: "rotation_handler \<Rightarrow> node_id \<Rightarrow> rotation_handler" where
  "remove_device h n =
     (let h1 = (case bt_get (node_to_name h) n of
                  Some name \<Rightarrow> h\<lparr>node_to_name := bt_remove n (node_to_name h), name_to_node := bt_remove name (name_to_node h)\<rparr>
                | None \<Rightarrow> h)
      in case bt_get (node_to_address h1) n of
           Some address \<Rightarrow> h1\<lparr>node_to_address := bt_remove n (node_to_address h1),
                              address_to_node := bt_remove address (address_to_node h1)\<rparr>
         | None \<Rightarrow> h1)"

definition rotation_clear :: "rotation_handler \<Rightarrow> rotation_handler" where
  "rotation_clear h = h\<lparr>name_to_node := [], node_to_name := [], node_to_address := [], address_to_node := []\<rparr>"

definition device_count :: "rotation_handler \<Rightarrow> nat" where
  "device_count h = length (node_to_address h)"

record rotation_stats =
  devices_with_names :: nat
  total_devices :: nat
  address_mappings :: nat

definition rotation_stats_of :: "rotation_handler \<Rightarrow> rotation_stats" where
  "rotation_stats_of h =
     \<lparr>devices_with_names = length (name_to_node h), total_devices = length (node_to_address h),
      address_mappings = length (address_to_node h)\<rparr>"

section \<open>Results\<close>

text \<open>Every address and every name leads to a node that has it.\<close>

definition rotation_inv :: "rotation_handler \<Rightarrow> bool" where
  "rotation_inv h \<longleftrightarrow>
     (\<forall>a n. lookup_by_address h a = Some n \<longrightarrow> get_address h n = Some a) \<and>
     (\<forall>x n. lookup_by_name h x = Some n \<longrightarrow> get_name h n = Some x)"

inductive rotation_step :: "rotation_handler \<Rightarrow> rotation_handler \<Rightarrow> bool" where
  register: "get_address h n = None \<Longrightarrow> get_name h n = None \<Longrightarrow> rotation_step h (register_device h name a n)"
| discovered: "rotation_step h (fst (on_device_discovered h name a))"
| readdress: "rotation_step h (fst (update_address h name a))"
| rename: "rotation_step h (update_name h n name)"
| remove: "rotation_step h (remove_device h n)"
| clear: "rotation_step h (rotation_clear h)"

lemmas rotation_lookups = rotation_inv_def lookup_by_address_def get_address_def lookup_by_name_def get_name_def

lemma rotation_inv_update_address:
  "rotation_inv h \<Longrightarrow> rotation_inv (update_address_internal h n a (bt_get (node_to_address h) n))"
  by (auto simp: rotation_lookups update_address_internal_def split: option.splits)

lemma rotation_inv_step: "rotation_step h h' \<Longrightarrow> rotation_inv h \<Longrightarrow> rotation_inv h'"
proof (induction rule: rotation_step.induct)
  case (register h n name a)
  then show ?case by (auto simp: rotation_lookups register_device_def Let_def)
next
  case (discovered h name a)
  then show ?case using rotation_inv_update_address
    by (auto simp: on_device_discovered_def Let_def split: option.splits)
next
  case (readdress h name a)
  then show ?case using rotation_inv_update_address by (auto simp: update_address_def split: option.splits)
next
  case (rename h n name)
  then show ?case by (auto simp: rotation_lookups update_name_def Let_def split: option.splits)
next
  case (remove h n)
  then show ?case by (auto simp: rotation_lookups remove_device_def Let_def split: option.splits)
qed (simp add: rotation_lookups rotation_clear_def)

lemma rotation_inv_new: "rotation_inv rotation_handler_new"
  by (simp add: rotation_lookups rotation_handler_new_def)

lemma discovery_follows_address:
  assumes "lookup_by_name h name = Some n" "name \<noteq> []" "on_device_discovered h name a = (h', r)"
  shows "get_address h' n = Some a" "lookup_by_name h' name = Some n"
    and "rotation_inv h \<Longrightarrow> get_address h n = Some old \<Longrightarrow> old \<noteq> a \<Longrightarrow> lookup_by_address h' a = Some n \<and> lookup_by_address h' old = None"
    and "\<exists>d. r = Some d \<and> dl_node_id d = n \<and> (dl_address_changed d \<longleftrightarrow> get_address h n \<noteq> Some a)"
  using assms by (auto simp: on_device_discovered_def update_address_internal_def rotation_lookups Let_def split: if_splits option.splits)

text \<open>Registering a node under a second address keeps the first one alive.\<close>

lemma register_again_leaves_address:
  assumes "a \<noteq> b"
  shows "lookup_by_address (register_device (register_device h x a n) x b n) a = Some n"
    and "lookup_by_address (remove_device (register_device (register_device h x a n) x b n) n) a = Some n"
  using assms by (auto simp: register_device_def remove_device_def lookup_by_address_def Let_def split: option.splits)

lemma normalize_weartak_pattern:
  "detect_device_pattern name = WearTak \<Longrightarrow> detect_device_pattern (normalize_weartak_name name) = WearOs"
  by (auto simp: detect_device_pattern_def normalize_weartak_name_def prefix_def split: if_splits)

end
