(* ===== verification/Identity.thy ===== *)
theory Identity
  imports Node_Id Utf8 Ordered_Map
begin

text \<open>
  Identities and credentials: device identities and attestations (\<open>src/security/identity.rs\<close>),
  signed payloads (\<open>src/security/signed_payload.rs\<close>), the genesis of a mesh
  (\<open>src/security/genesis.rs\<close>) and membership tokens (\<open>src/security/membership_token.rs\<close>).

  Signatures (\<open>ed25519_dalek\<close>) and hashes (\<open>blake3\<close>) come from other crates: they are the fields of
  the record \<open>sig_crypto\<close>. What the results need of them is \<open>sig_correct\<close>: keys, signatures and
  hashes have their documented sizes, and a signature verifies under the key that made it. The
  clock and the random seed are arguments.

  Main results: every credential is read back from its encoding and verifies; a changed byte of a
  signed part changes the signed message; the eight digits of a mesh identifier are read back.
\<close>

record sig_crypto =
  sg_public :: "bytes \<Rightarrow> bytes"
  sg_sign :: "bytes \<Rightarrow> bytes \<Rightarrow> bytes"
  sg_verify :: "bytes \<Rightarrow> bytes \<Rightarrow> bytes \<Rightarrow> bool"
  blake3_hash :: "bytes \<Rightarrow> bytes"
  blake3_keyed :: "bytes \<Rightarrow> bytes \<Rightarrow> bytes"
  blake3_derive :: "string \<Rightarrow> bytes \<Rightarrow> bytes"

definition sig_correct :: "sig_crypto \<Rightarrow> bool" where
  "sig_correct G \<longleftrightarrow>
     (\<forall>k m. length (sg_public G k) = 32 \<and> length (sg_sign G k m) = 64 \<and> sg_verify G (sg_public G k) m (sg_sign G k m)) \<and>
     (\<forall>m. length (blake3_hash G m) = 32) \<and> (\<forall>k m. length (blake3_keyed G k m) = 32)"

section \<open>Device identity\<close>

datatype identity_error = InvalidSignatureErr | InvalidPublicKey | InvalidPrivateKey | SerializationError

record device_identity = signing_key :: bytes

definition from_private_key :: "bytes \<Rightarrow> identity_error + device_identity" where
  "from_private_key k = Inr \<lparr>signing_key = k\<rparr>"

definition public_key :: "sig_crypto \<Rightarrow> device_identity \<Rightarrow> bytes" where
  "public_key G i = sg_public G (signing_key i)"

definition node_id_from_public_key :: "sig_crypto \<Rightarrow> bytes \<Rightarrow> node_id" where
  "node_id_from_public_key G pk = from_le (take 4 (blake3_hash G pk))"

definition identity_node_id :: "sig_crypto \<Rightarrow> device_identity \<Rightarrow> node_id" where
  "identity_node_id G i = node_id_from_public_key G (public_key G i)"

definition identity_sign :: "sig_crypto \<Rightarrow> device_identity \<Rightarrow> bytes \<Rightarrow> bytes" where
  "identity_sign G i message = sg_sign G (signing_key i) message"

definition identity_verify :: "sig_crypto \<Rightarrow> device_identity \<Rightarrow> bytes \<Rightarrow> bytes \<Rightarrow> bool" where
  "identity_verify G i message signature = sg_verify G (public_key G i) message signature"

definition verify_signature :: "sig_crypto \<Rightarrow> bytes \<Rightarrow> bytes \<Rightarrow> bytes \<Rightarrow> bool" where
  "verify_signature G pk message signature = sg_verify G pk message signature"

record identity_attestation =
  at_node_id :: node_id
  at_public_key :: bytes
  at_timestamp_ms :: u64
  at_signature :: bytes

definition attestation_message :: "node_id \<Rightarrow> bytes \<Rightarrow> u64 \<Rightarrow> bytes" where
  "attestation_message n pk t = le32 n @ pk @ le64 t"

definition create_attestation :: "sig_crypto \<Rightarrow> device_identity \<Rightarrow> u64 \<Rightarrow> identity_attestation" where
  "create_attestation G i t =
     (let n = identity_node_id G i; pk = public_key G i
      in \<lparr>at_node_id = n, at_public_key = pk, at_timestamp_ms = t,
          at_signature = identity_sign G i (attestation_message n pk t)\<rparr>)"

definition attestation_verify :: "sig_crypto \<Rightarrow> identity_attestation \<Rightarrow> bool" where
  "attestation_verify G a \<longleftrightarrow>
     at_node_id a = node_id_from_public_key G (at_public_key a) \<and>
     sg_verify G (at_public_key a) (attestation_message (at_node_id a) (at_public_key a) (at_timestamp_ms a)) (at_signature a)"

definition attestation_encode :: "identity_attestation \<Rightarrow> bytes" where
  "attestation_encode a = le32 (at_node_id a) @ at_public_key a @ le64 (at_timestamp_ms a) @ at_signature a"

definition attestation_decode :: "bytes \<Rightarrow> identity_attestation option outcome" where
  "attestation_decode data =
     (if length data \<noteq> 108 then ret None
      else do {
        n \<leftarrow> read_u32 data 0;
        pk \<leftarrow> slice data 4 36;
        t \<leftarrow> read_u64 data 36;
        sg \<leftarrow> slice data 44 108;
        ret (Some \<lparr>at_node_id = n, at_public_key = pk, at_timestamp_ms = t, at_signature = sg\<rparr>)
      })"

section \<open>Signed payloads\<close>

definition SIGNATURE_SIZE :: nat where "SIGNATURE_SIZE = 64"
definition MIN_WIRE_SIZE :: nat where "MIN_WIRE_SIZE = 65"

record decoded_payload =
  dp_marker :: u8
  dp_payload :: bytes
  dp_signature :: bytes

definition signed_encode_with_signature :: "u8 \<Rightarrow> bytes \<Rightarrow> bytes \<Rightarrow> bytes" where
  "signed_encode_with_signature marker payload signature = marker # payload @ signature"

definition signed_encode :: "sig_crypto \<Rightarrow> u8 \<Rightarrow> bytes \<Rightarrow> device_identity \<Rightarrow> bytes" where
  "signed_encode G marker payload i = marker # payload @ identity_sign G i (marker # payload)"

definition signed_decode :: "bytes \<Rightarrow> decoded_payload option outcome" where
  "signed_decode wire_bytes =
     (if length wire_bytes < MIN_WIRE_SIZE then ret None
      else do {
        m \<leftarrow> read_u8 wire_bytes 0;
        p \<leftarrow> slice wire_bytes 1 (length wire_bytes - SIGNATURE_SIZE);
        s \<leftarrow> slice_from wire_bytes (length wire_bytes - SIGNATURE_SIZE);
        ret (Some \<lparr>dp_marker = m, dp_payload = p, dp_signature = s\<rparr>)
      })"

definition signed_verify :: "sig_crypto \<Rightarrow> bytes \<Rightarrow> bytes \<Rightarrow> bool outcome" where
  "signed_verify G wire_bytes pk = do {
     d \<leftarrow> signed_decode wire_bytes;
     case d of
       None \<Rightarrow> ret False
     | Some d \<Rightarrow> do {
         m \<leftarrow> slice wire_bytes 0 (length wire_bytes - SIGNATURE_SIZE);
         ret (verify_signature G pk m (dp_signature d))
       }
   }"

definition signed_decode_verified :: "sig_crypto \<Rightarrow> bytes \<Rightarrow> bytes \<Rightarrow> decoded_payload option outcome" where
  "signed_decode_verified G wire_bytes pk = do {
     ok \<leftarrow> signed_verify G wire_bytes pk;
     if ok then signed_decode wire_bytes else ret None
   }"

definition payload_size :: "nat \<Rightarrow> nat" where
  "payload_size n = n - MIN_WIRE_SIZE"

definition wire_size :: "nat \<Rightarrow> nat" where
  "wire_size n = 1 + n + SIGNATURE_SIZE"

definition peek_marker :: "bytes \<Rightarrow> u8 option" where
  "peek_marker wire_bytes = (case wire_bytes of [] \<Rightarrow> None | m # _ \<Rightarrow> Some m)"

definition extract_signature :: "bytes \<Rightarrow> bytes option outcome" where
  "extract_signature wire_bytes =
     (if length wire_bytes < MIN_WIRE_SIZE then ret None
      else do { s \<leftarrow> slice_from wire_bytes (length wire_bytes - SIGNATURE_SIZE); ret (Some s) })"

section \<open>Genesis\<close>

datatype membership_policy = OpenPolicy | Controlled | Strict

primrec policy_to_u8 :: "membership_policy \<Rightarrow> u8" where
  "policy_to_u8 OpenPolicy = 0"
| "policy_to_u8 Controlled = 1"
| "policy_to_u8 Strict = 2"

definition policy_from_u8 :: "u8 \<Rightarrow> membership_policy option" where
  "policy_from_u8 b =
     (if b = 0 then Some OpenPolicy else if b = 1 then Some Controlled else if b = 2 then Some Strict else None)"

record mesh_genesis =
  mg_mesh_name :: bytes
  mg_mesh_seed :: bytes
  mg_creator_identity :: device_identity
  mg_created_at_ms :: u64
  mg_policy :: membership_policy

definition genesis_with_seed :: "bytes \<Rightarrow> bytes \<Rightarrow> device_identity \<Rightarrow> membership_policy \<Rightarrow> u64 \<Rightarrow> mesh_genesis" where
  "genesis_with_seed name seed creator policy now =
     \<lparr>mg_mesh_name = name, mg_mesh_seed = seed, mg_creator_identity = creator, mg_created_at_ms = now, mg_policy = policy\<rparr>"

definition byte_hex_upper :: "u8 \<Rightarrow> string" where
  "byte_hex_upper b = [upper_hex_char (unat b div 16), upper_hex_char (unat b mod 16)]"

definition mesh_id :: "sig_crypto \<Rightarrow> mesh_genesis \<Rightarrow> string" where
  "mesh_id G g = concat (map byte_hex_upper (take 4 (blake3_keyed G (mg_mesh_seed g) (mg_mesh_name g))))"

definition ENCRYPTION_CONTEXT :: string where "ENCRYPTION_CONTEXT = ''PEAT-mesh-encryption-v1''"
definition BEACON_CONTEXT :: string where "BEACON_CONTEXT = ''PEAT-beacon-key-v1''"

definition encryption_secret :: "sig_crypto \<Rightarrow> mesh_genesis \<Rightarrow> bytes" where
  "encryption_secret G g = blake3_derive G ENCRYPTION_CONTEXT (mg_mesh_seed g)"

definition beacon_key_base :: "sig_crypto \<Rightarrow> mesh_genesis \<Rightarrow> bytes" where
  "beacon_key_base G g = blake3_derive G BEACON_CONTEXT (mg_mesh_seed g)"

definition is_creator :: "sig_crypto \<Rightarrow> mesh_genesis \<Rightarrow> device_identity \<Rightarrow> bool" where
  "is_creator G g i \<longleftrightarrow> public_key G (mg_creator_identity g) = public_key G i"

definition genesis_encode :: "sig_crypto \<Rightarrow> mesh_genesis \<Rightarrow> bytes" where
  "genesis_encode G g =
     le16 (word_of_nat (length (mg_mesh_name g))) @ mg_mesh_name g @ mg_mesh_seed g
     @ public_key G (mg_creator_identity g) @ signing_key (mg_creator_identity g)
     @ le64 (mg_created_at_ms g) @ [policy_to_u8 (mg_policy g)]"

definition genesis_decode :: "bytes \<Rightarrow> mesh_genesis option outcome" where
  "genesis_decode data =
     (if length data < 107 then ret None
      else do {
        nl \<leftarrow> read_u16 data 0;
        let name_len = unat nl;
        if length data < 107 + name_len then ret None
        else do {
          name \<leftarrow> slice data 2 (2 + name_len);
          if \<not> utf8_valid name then ret None
          else do {
            let offset = 2 + name_len;
            seed \<leftarrow> slice data offset (offset + 32);
            pk \<leftarrow> slice data (offset + 32) (offset + 64);
            private \<leftarrow> slice data (offset + 64) (offset + 96);
            t \<leftarrow> read_u64 data (offset + 96);
            p \<leftarrow> read_u8 data (offset + 104);
            (case (from_private_key private, policy_from_u8 p) of
               (Inr i, Some policy) \<Rightarrow>
                 ret (Some \<lparr>mg_mesh_name = name, mg_mesh_seed = seed, mg_creator_identity = i,
                            mg_created_at_ms = t, mg_policy = policy\<rparr>)
             | _ \<Rightarrow> ret None)
          }
        }
      })"

record mesh_credentials =
  mc_mesh_id :: string
  mc_mesh_name :: bytes
  mc_encryption_secret :: bytes
  mc_creator_public_key :: bytes
  mc_policy :: membership_policy

definition credentials_from_genesis :: "sig_crypto \<Rightarrow> mesh_genesis \<Rightarrow> mesh_credentials" where
  "credentials_from_genesis G g =
     \<lparr>mc_mesh_id = mesh_id G g, mc_mesh_name = mg_mesh_name g, mc_encryption_secret = encryption_secret G g,
      mc_creator_public_key = public_key G (mg_creator_identity g), mc_policy = mg_policy g\<rparr>"

section \<open>Membership tokens\<close>

definition MAX_CALLSIGN_LEN :: nat where "MAX_CALLSIGN_LEN = 12"
definition MESH_ID_SIZE :: nat where "MESH_ID_SIZE = 4"
definition TOKEN_WIRE_SIZE :: nat where "TOKEN_WIRE_SIZE = 128"

record membership_token =
  mt_public_key :: bytes
  mt_mesh_id :: bytes
  mt_callsign :: bytes
  mt_issued_at_ms :: u64
  mt_expires_at_ms :: u64
  mt_authority_signature :: bytes

definition token_signable_bytes :: "membership_token \<Rightarrow> bytes" where
  "token_signable_bytes t =
     mt_public_key t @ mt_mesh_id t @ mt_callsign t @ le64 (mt_issued_at_ms t) @ le64 (mt_expires_at_ms t)"

definition mesh_id_bytes :: "string \<Rightarrow> bytes" where
  "mesh_id_bytes hex =
     (if length hex = 8
      then map (\<lambda>c. case from_str_radix16 (2 ^ 8) c of None \<Rightarrow> 0 | Some v \<Rightarrow> word_of_nat v) (slice_chunks 2 hex)
      else replicate MESH_ID_SIZE 0)"

definition pad_callsign :: "bytes \<Rightarrow> bytes" where
  "pad_callsign c = c @ replicate (MAX_CALLSIGN_LEN - length c) 0"

definition token_issue_at ::
  "sig_crypto \<Rightarrow> device_identity \<Rightarrow> bytes \<Rightarrow> bytes \<Rightarrow> bytes \<Rightarrow> u64 \<Rightarrow> u64 \<Rightarrow> membership_token outcome" where
  "token_issue_at G authority mid member_public_key callsign issued expires =
     (if length callsign > MAX_CALLSIGN_LEN then panic
      else
        let t = \<lparr>mt_public_key = member_public_key, mt_mesh_id = mid, mt_callsign = pad_callsign callsign,
                 mt_issued_at_ms = issued, mt_expires_at_ms = expires, mt_authority_signature = replicate 64 0\<rparr>
        in ret (t\<lparr>mt_authority_signature := identity_sign G authority (token_signable_bytes t)\<rparr>))"

definition token_issue ::
  "sig_crypto \<Rightarrow> device_identity \<Rightarrow> mesh_genesis \<Rightarrow> bytes \<Rightarrow> bytes \<Rightarrow> u64 \<Rightarrow> u64 \<Rightarrow> membership_token outcome" where
  "token_issue G authority g member_public_key callsign validity_ms now =
     (if length callsign > MAX_CALLSIGN_LEN then panic
      else
        let t = \<lparr>mt_public_key = member_public_key, mt_mesh_id = mesh_id_bytes (mesh_id G g),
                 mt_callsign = pad_callsign callsign, mt_issued_at_ms = now,
                 mt_expires_at_ms = (if validity_ms = 0 then 0 else sat_add now validity_ms),
                 mt_authority_signature = replicate 64 0\<rparr>
        in ret (t\<lparr>mt_authority_signature := identity_sign G authority (token_signable_bytes t)\<rparr>))"

definition token_verify :: "sig_crypto \<Rightarrow> membership_token \<Rightarrow> bytes \<Rightarrow> bool" where
  "token_verify G t authority_public_key =
     verify_signature G authority_public_key (token_signable_bytes t) (mt_authority_signature t)"

definition token_is_expired :: "membership_token \<Rightarrow> u64 \<Rightarrow> bool" where
  "token_is_expired t now \<longleftrightarrow> mt_expires_at_ms t \<noteq> 0 \<and> now > mt_expires_at_ms t"

definition token_is_valid :: "sig_crypto \<Rightarrow> membership_token \<Rightarrow> bytes \<Rightarrow> u64 \<Rightarrow> bool" where
  "token_is_valid G t pk now \<longleftrightarrow> token_verify G t pk \<and> \<not> token_is_expired t now"

definition callsign_text :: "bytes \<Rightarrow> bytes" where
  "callsign_text c = (let s = takeWhile (\<lambda>b. b \<noteq> 0) c in if utf8_valid s then s else [])"

definition token_callsign_str :: "membership_token \<Rightarrow> bytes" where
  "token_callsign_str t = callsign_text (mt_callsign t)"

definition token_mesh_id_hex :: "membership_token \<Rightarrow> string" where
  "token_mesh_id_hex t = concat (map byte_hex_upper (take 4 (mt_mesh_id t)))"

definition token_encode :: "membership_token \<Rightarrow> bytes" where
  "token_encode t =
     mt_public_key t @ mt_mesh_id t @ mt_callsign t @ le64 (mt_issued_at_ms t) @ le64 (mt_expires_at_ms t)
     @ mt_authority_signature t"

definition token_decode :: "bytes \<Rightarrow> membership_token option outcome" where
  "token_decode data =
     (if length data \<noteq> TOKEN_WIRE_SIZE then ret None
      else do {
        pk \<leftarrow> slice data 0 32;
        mid \<leftarrow> slice data 32 36;
        cs \<leftarrow> slice data 36 48;
        i \<leftarrow> read_u64 data 48;
        e \<leftarrow> read_u64 data 56;
        sg \<leftarrow> slice data 64 128;
        ret (Some \<lparr>mt_public_key = pk, mt_mesh_id = mid, mt_callsign = cs, mt_issued_at_ms = i,
                   mt_expires_at_ms = e, mt_authority_signature = sg\<rparr>)
      })"

section \<open>Round trips\<close>

lemma attestation_roundtrip:
  assumes "length (at_public_key a) = 32" "length (at_signature a) = 64"
  shows "attestation_decode (attestation_encode a) = ret (Some a)"
  using assms by (simp add: attestation_decode_def attestation_encode_def wire)

lemma attestation_decode_safe: "no_panic (attestation_decode data)"
  unfolding attestation_decode_def by (intro safe) auto

lemma attestation_verifies: "sig_correct G \<Longrightarrow> attestation_verify G (create_attestation G i t)"
  by (simp add: sig_correct_def attestation_verify_def create_attestation_def identity_node_id_def
      identity_sign_def public_key_def Let_def)

definition token_wf :: "membership_token \<Rightarrow> bool" where
  "token_wf t \<longleftrightarrow> length (mt_public_key t) = 32 \<and> length (mt_mesh_id t) = 4 \<and> length (mt_callsign t) = 12 \<and>
     length (mt_authority_signature t) = 64"

lemma token_roundtrip: "token_wf t \<Longrightarrow> token_decode (token_encode t) = ret (Some t)"
  by (simp add: token_wf_def token_decode_def token_encode_def TOKEN_WIRE_SIZE_def wire)

lemma token_decode_safe: "no_panic (token_decode data)"
  unfolding token_decode_def TOKEN_WIRE_SIZE_def by (intro safe) auto

lemma policy_roundtrip [simp]: "policy_from_u8 (policy_to_u8 p) = Some p"
  by (cases p) (simp_all add: policy_from_u8_def)

lemma genesis_roundtrip:
  assumes "sig_correct G" "length (mg_mesh_name g) < 2 ^ 16" "utf8_valid (mg_mesh_name g)"
    and "length (mg_mesh_seed g) = 32" "length (signing_key (mg_creator_identity g)) = 32"
  shows "genesis_decode (genesis_encode G g) = ret (Some g)"
proof -
  have pk: "length (public_key G (mg_creator_identity g)) = 32" using assms(1) by (simp add: sig_correct_def public_key_def)
  have n: "unat (word_of_nat (length (mg_mesh_name g)) :: u16) = length (mg_mesh_name g)"
    using assms(2) by (simp add: unat_of_nat take_bit_nat_eq_self)
  show ?thesis using assms(3-5) pk
    by (simp add: genesis_decode_def genesis_encode_def wire n from_private_key_def)
qed

lemma genesis_decode_safe: "no_panic (genesis_decode data)"
  unfolding genesis_decode_def by (intro safe) (auto split: sum.splits option.splits)

lemma byte_hex_roundtrip: "from_str_radix16 (2 ^ 8) (byte_hex_upper b) = Some (unat b)"
proof -
  have d: "unat b div 16 < 16" using unat_less [of b] by simp
  have p: "upper_hex_char (unat b div 16) \<noteq> CHR ''+''"
    using hex_digit_upper [OF d] by (auto simp: hex_digit_def)
  have q: "unat b div 16 * 16 + unat b mod 16 < 256" "unat b div 16 < 256" using unat_less [of b] by simp_all
  show ?thesis using d p q by (simp add: from_str_radix16_def byte_hex_upper_def hex_digit_upper)
qed

lemma mesh_id_bytes_hex:
  assumes "length bs = 4"
  shows "mesh_id_bytes (concat (map byte_hex_upper bs)) = bs"
proof -
  have two: "length (byte_hex_upper b) = 2" "byte_hex_upper b \<noteq> []" for b by (simp_all add: byte_hex_upper_def)
  have "slice_chunks 2 (concat (map byte_hex_upper bs)) = map byte_hex_upper bs" for bs
    by (induction bs) (simp_all add: slice_chunks_step two)
  moreover have "length (concat (map byte_hex_upper bs)) = 2 * length bs" for bs
    by (induction bs) (simp_all add: two)
  ultimately show ?thesis using assms by (simp add: mesh_id_bytes_def byte_hex_roundtrip [simplified] map_idI)
qed

lemma mesh_id_roundtrip:
  "sig_correct G \<Longrightarrow> mesh_id_bytes (mesh_id G g) = take 4 (blake3_keyed G (mg_mesh_seed g) (mg_mesh_name g))"
  using mesh_id_bytes_hex [of "take 4 (blake3_keyed G (mg_mesh_seed g) (mg_mesh_name g))"]
  by (simp add: mesh_id_def sig_correct_def)

section \<open>Signed messages\<close>

lemma signed_decode_append:
  assumes "length s = 64"
  shows "signed_decode (marker # payload @ s) = ret (Some \<lparr>dp_marker = marker, dp_payload = payload, dp_signature = s\<rparr>)"
  using assms by (simp add: signed_decode_def MIN_WIRE_SIZE_def SIGNATURE_SIZE_def wire)

lemma signed_roundtrip:
  assumes "sig_correct G"
  shows "signed_decode_verified G (signed_encode G marker payload i) (public_key G i) =
    ret (Some \<lparr>dp_marker = marker, dp_payload = payload, dp_signature = identity_sign G i (marker # payload)\<rparr>)"
proof -
  let ?s = "identity_sign G i (marker # payload)"
  have l: "length ?s = 64" and v: "sg_verify G (public_key G i) (marker # payload) ?s"
    using assms by (simp_all add: sig_correct_def identity_sign_def public_key_def)
  have "slice ((marker # payload) @ ?s) 0 (length (marker # payload)) = ret (marker # payload)" by (rule slice_prefix) simp
  then have "signed_verify G (signed_encode G marker payload i) (public_key G i) = ret True"
    using l v by (simp add: signed_verify_def signed_encode_def signed_decode_append verify_signature_def SIGNATURE_SIZE_def)
  then show ?thesis using l by (simp add: signed_decode_verified_def signed_encode_def signed_decode_append)
qed

lemma signed_decode_safe: "no_panic (signed_decode w)"
  unfolding signed_decode_def MIN_WIRE_SIZE_def SIGNATURE_SIZE_def by (intro safe) auto

lemma signed_verify_safe: "no_panic (signed_verify G w pk)"
proof -
  have "no_panic (slice w 0 (length w - SIGNATURE_SIZE))" by (rule no_panic_slice) simp_all
  then show ?thesis using signed_decode_safe [of w] unfolding signed_verify_def
    by (auto simp: no_panic_ex split: option.splits)
qed

text \<open>The signed bytes of a token determine all its signed fields.\<close>

lemma token_signable_inj:
  assumes "token_wf t" "token_wf u" "token_signable_bytes t = token_signable_bytes u"
  shows "mt_public_key t = mt_public_key u \<and> mt_mesh_id t = mt_mesh_id u \<and> mt_callsign t = mt_callsign u \<and>
    mt_issued_at_ms t = mt_issued_at_ms u \<and> mt_expires_at_ms t = mt_expires_at_ms u"
proof -
  have "from_le (le64 a) = a" for a :: u64 by (rule from_le_to_le) simp
  then have inj: "le64 a = le64 b \<Longrightarrow> a = b" for a b :: u64 by metis
  have "mt_public_key t = mt_public_key u \<and> mt_mesh_id t = mt_mesh_id u \<and> mt_callsign t = mt_callsign u \<and>
    le64 (mt_issued_at_ms t) = le64 (mt_issued_at_ms u) \<and> le64 (mt_expires_at_ms t) = le64 (mt_expires_at_ms u)"
    using assms by (simp add: token_wf_def token_signable_bytes_def)
  then show ?thesis using inj by blast
qed

lemma issued_token:
  assumes "sig_correct G" "length callsign \<le> 12" "length pk = 32"
  obtains t where "token_issue G authority g pk callsign validity now = ret t" "token_wf t"
    "token_verify G t (public_key G authority)" "mt_public_key t = pk"
    "mt_mesh_id t = take 4 (blake3_keyed G (mg_mesh_seed g) (mg_mesh_name g))"
    "mt_callsign t = pad_callsign callsign"
    "\<And>u. token_is_expired t u \<longleftrightarrow> validity \<noteq> 0 \<and> u > sat_add now validity"
proof -
  let ?t = "\<lparr>mt_public_key = pk, mt_mesh_id = mesh_id_bytes (mesh_id G g), mt_callsign = pad_callsign callsign,
     mt_issued_at_ms = now, mt_expires_at_ms = (if validity = 0 then 0 else sat_add now validity),
     mt_authority_signature = replicate 64 0\<rparr>"
  let ?u = "?t\<lparr>mt_authority_signature := identity_sign G authority (token_signable_bytes ?t)\<rparr>"
  have "length (take 4 (blake3_keyed G (mg_mesh_seed g) (mg_mesh_name g))) = 4" using assms(1) by (simp add: sig_correct_def)
  then have wf: "token_wf ?u" using assms
    by (simp add: token_wf_def mesh_id_roundtrip pad_callsign_def MAX_CALLSIGN_LEN_def sig_correct_def identity_sign_def)
  have "token_issue G authority g pk callsign validity now = ret ?u"
    using assms(2) by (simp add: token_issue_def Let_def MAX_CALLSIGN_LEN_def)
  moreover have "token_verify G ?u (public_key G authority)"
    using assms(1) by (simp add: token_verify_def verify_signature_def sig_correct_def identity_sign_def public_key_def token_signable_bytes_def)
  moreover have "token_is_expired ?u u \<longleftrightarrow> validity \<noteq> 0 \<and> u > sat_add now validity" for u
    using sat_add_ge [of now validity] by (auto simp: token_is_expired_def sat_add_def split: if_splits)
  ultimately show ?thesis using that [of ?u] wf assms(1) by (simp add: mesh_id_roundtrip)
qed

lemma callsign_text_pad:
  assumes "utf8_valid c" "0 \<notin> set c"
  shows "callsign_text (pad_callsign c) = c"
proof -
  have "takeWhile (\<lambda>b. b \<noteq> 0) (c @ replicate k 0) = c" for k using assms(2) by (cases k) (auto simp: takeWhile_append)
  then show ?thesis using assms(1) by (simp add: callsign_text_def pad_callsign_def Let_def)
qed

end
