(* ===== verification/Identity_Registry.thy ===== *)
theory Identity_Registry
  imports Identity
begin

text \<open>
  The identity registry (\<open>src/security/registry.rs\<close>): trust on first use, members registered by a
  token, and the persistent form in its two versions. The hash map has no order: the operations
  that iterate over it (\<open>encode\<close>, \<open>find_by_callsign\<close>) take the entries in the order of the iteration.
  The width of \<open>usize\<close> is an argument of the decoder.

  Main results: the key bound to a node never changes by attestations and tokens, and no other key
  is accepted for it; a registry is read back from its encoding in whatever order it was written.
  A file of the old version with two identities is lost, and tokens are accepted for any mesh.
\<close>

section \<open>State\<close>

datatype registry_result = Registered | Verified | InvalidSignature | KeyMismatch node_id

definition is_trusted :: "registry_result \<Rightarrow> bool" where
  "is_trusted r \<longleftrightarrow> r = Registered \<or> r = Verified"

fun is_violation :: "registry_result \<Rightarrow> bool" where
  "is_violation InvalidSignature = True"
| "is_violation (KeyMismatch n) = True"
| "is_violation _ = False"

record identity_record =
  ir_public_key :: bytes
  ir_first_seen_ms :: u64
  ir_last_seen_ms :: u64
  verification_count :: u32
  ir_callsign :: "bytes option"
  token_expires_ms :: "u64 option"

definition record_callsign_str :: "identity_record \<Rightarrow> bytes option" where
  "record_callsign_str r = map_option callsign_text (ir_callsign r)"

definition is_token_expired :: "identity_record \<Rightarrow> u64 \<Rightarrow> bool" where
  "is_token_expired r now =
     (case token_expires_ms r of
        Some expires \<Rightarrow> if expires = 0 then False else now > expires
      | None \<Rightarrow> False)"

definition DEFAULT_MAX_IDENTITIES :: nat where "DEFAULT_MAX_IDENTITIES = 256"

record identity_registry =
  known :: "(node_id, identity_record) btree_map"
  max_identities :: nat

definition registry_new :: identity_registry where
  "registry_new = \<lparr>known = [], max_identities = DEFAULT_MAX_IDENTITIES\<rparr>"

definition registry_with_capacity :: "nat \<Rightarrow> identity_registry" where
  "registry_with_capacity k = \<lparr>known = [], max_identities = k\<rparr>"

section \<open>Operations\<close>

definition verify_or_register_at ::
  "sig_crypto \<Rightarrow> identity_registry \<Rightarrow> identity_attestation \<Rightarrow> u64 \<Rightarrow> identity_registry \<times> registry_result" where
  "verify_or_register_at G r a now =
     (if \<not> attestation_verify G a then (r, InvalidSignature)
      else
        let n = at_node_id a
        in case bt_get (known r) n of
             Some rec \<Rightarrow>
               if ir_public_key rec = at_public_key a
               then (r\<lparr>known := bt_insert n (rec\<lparr>ir_last_seen_ms := now,
                                                 verification_count := sat_add (verification_count rec) 1\<rparr>) (known r)\<rparr>, Verified)
               else (r, KeyMismatch n)
           | None \<Rightarrow>
               (r\<lparr>known := bt_insert n \<lparr>ir_public_key = at_public_key a, ir_first_seen_ms = now, ir_last_seen_ms = now,
                                        verification_count = 1, ir_callsign = None, token_expires_ms = None\<rparr> (known r)\<rparr>,
                Registered))"

definition verify_or_register ::
  "sig_crypto \<Rightarrow> identity_registry \<Rightarrow> identity_attestation \<Rightarrow> identity_registry \<times> registry_result" where
  "verify_or_register G r a = verify_or_register_at G r a (at_timestamp_ms a)"

definition is_known :: "identity_registry \<Rightarrow> node_id \<Rightarrow> bool" where
  "is_known r n = bt_contains_key (known r) n"

definition get_public_key :: "identity_registry \<Rightarrow> node_id \<Rightarrow> bytes option" where
  "get_public_key r n = map_option ir_public_key (bt_get (known r) n)"

definition get_record :: "identity_registry \<Rightarrow> node_id \<Rightarrow> identity_record option" where
  "get_record r n = bt_get (known r) n"

definition registry_remove :: "identity_registry \<Rightarrow> node_id \<Rightarrow> identity_registry \<times> identity_record option" where
  "registry_remove r n = (r\<lparr>known := bt_remove n (known r)\<rparr>, bt_get (known r) n)"

definition registry_clear :: "identity_registry \<Rightarrow> identity_registry" where
  "registry_clear r = r\<lparr>known := []\<rparr>"

definition pre_register :: "identity_registry \<Rightarrow> node_id \<Rightarrow> bytes \<Rightarrow> u64 \<Rightarrow> identity_registry" where
  "pre_register r n pk now =
     r\<lparr>known := bt_insert n \<lparr>ir_public_key = pk, ir_first_seen_ms = now, ir_last_seen_ms = now,
                             verification_count = 0, ir_callsign = None, token_expires_ms = None\<rparr> (known r)\<rparr>"

definition register_member ::
  "sig_crypto \<Rightarrow> identity_registry \<Rightarrow> membership_token \<Rightarrow> bytes \<Rightarrow> u64 \<Rightarrow> identity_registry \<times> (registry_result + node_id)" where
  "register_member G r t authority_public_key now =
     (if \<not> token_verify G t authority_public_key then (r, Inl InvalidSignature)
      else if token_is_expired t now then (r, Inl InvalidSignature)
      else
        let n = node_id_from_public_key G (mt_public_key t)
        in if (case bt_get (known r) n of None \<Rightarrow> False | Some rec \<Rightarrow> ir_public_key rec \<noteq> mt_public_key t)
           then (r, Inl (KeyMismatch n))
           else (r\<lparr>known := bt_insert n \<lparr>ir_public_key = mt_public_key t, ir_first_seen_ms = now, ir_last_seen_ms = now,
                                         verification_count = 1, ir_callsign = Some (mt_callsign t),
                                         token_expires_ms = Some (mt_expires_at_ms t)\<rparr> (known r)\<rparr>, Inr n))"

definition get_callsign :: "identity_registry \<Rightarrow> node_id \<Rightarrow> bytes option" where
  "get_callsign r n = Option.bind (bt_get (known r) n) record_callsign_str"

fun find_by_callsign :: "(node_id \<times> identity_record) list \<Rightarrow> bytes \<Rightarrow> node_id option" where
  "find_by_callsign [] callsign = None"
| "find_by_callsign ((n, rec) # es) callsign =
     (case record_callsign_str rec of
        Some cs \<Rightarrow> if cs = callsign then Some n else find_by_callsign es callsign
      | None \<Rightarrow> find_by_callsign es callsign)"

section \<open>Persistent form\<close>

definition encode_record :: "node_id \<times> identity_record \<Rightarrow> bytes" where
  "encode_record e =
     (let (n, rec) = e in
      le32 n @ ir_public_key rec @ le64 (ir_first_seen_ms rec) @ le64 (ir_last_seen_ms rec)
      @ le32 (verification_count rec)
      @ (case ir_callsign rec of
           Some cs \<Rightarrow> [1] @ cs @ le64 (case token_expires_ms rec of None \<Rightarrow> 0 | Some t \<Rightarrow> t)
         | None \<Rightarrow> [0] @ replicate MAX_CALLSIGN_LEN 0 @ le64 0))"

definition registry_encode :: "(node_id \<times> identity_record) list \<Rightarrow> bytes" where
  "registry_encode es = [2] @ le32 (word_of_nat (length es)) @ concat (map encode_record es)"

fun decode_entries_v1 ::
  "nat \<Rightarrow> bytes \<Rightarrow> nat \<Rightarrow> (node_id, identity_record) btree_map \<Rightarrow> (node_id, identity_record) btree_map outcome" where
  "decode_entries_v1 0 data offset m = ret m"
| "decode_entries_v1 (Suc k) data offset m = do {
     n \<leftarrow> read_u32 data offset;
     pk \<leftarrow> slice data (offset + 4) (offset + 36);
     f \<leftarrow> read_u64 data (offset + 36);
     l \<leftarrow> read_u64 data (offset + 44);
     v \<leftarrow> read_u32 data (offset + 52);
     decode_entries_v1 k data (offset + 56)
       (bt_insert n \<lparr>ir_public_key = pk, ir_first_seen_ms = f, ir_last_seen_ms = l, verification_count = v,
                     ir_callsign = None, token_expires_ms = None\<rparr> m)
   }"

definition decode_v1 :: "nat \<Rightarrow> bytes \<Rightarrow> identity_registry option outcome" where
  "decode_v1 w data =
     (if length data < 4 then ret None
      else do {
        c \<leftarrow> read_u32 data 0;
        let count = unat c;
        if length data < usize_add w 4 (usize_mul w count 56) then ret None
        else do {
          m \<leftarrow> decode_entries_v1 count data 4 [];
          ret (Some (registry_new\<lparr>known := m\<rparr>))
        }
      })"

fun decode_entries_v2 ::
  "nat \<Rightarrow> bytes \<Rightarrow> nat \<Rightarrow> (node_id, identity_record) btree_map \<Rightarrow> (node_id, identity_record) btree_map outcome" where
  "decode_entries_v2 0 data offset m = ret m"
| "decode_entries_v2 (Suc k) data offset m = do {
     n \<leftarrow> read_u32 data offset;
     pk \<leftarrow> slice data (offset + 4) (offset + 36);
     f \<leftarrow> read_u64 data (offset + 36);
     l \<leftarrow> read_u64 data (offset + 44);
     v \<leftarrow> read_u32 data (offset + 52);
     has \<leftarrow> read_u8 data (offset + 56);
     (cs, e) \<leftarrow> (if has \<noteq> 0 then do {
                    cs \<leftarrow> slice data (offset + 57) (offset + 69);
                    e \<leftarrow> read_u64 data (offset + 69);
                    ret (Some cs, Some e)
                  } else ret (None, None));
     decode_entries_v2 k data (offset + 77)
       (bt_insert n \<lparr>ir_public_key = pk, ir_first_seen_ms = f, ir_last_seen_ms = l, verification_count = v,
                     ir_callsign = cs, token_expires_ms = e\<rparr> m)
   }"

definition decode_v2 :: "nat \<Rightarrow> bytes \<Rightarrow> identity_registry option outcome" where
  "decode_v2 w data =
     (if length data < 5 then ret None
      else do {
        c \<leftarrow> read_u32 data 1;
        let count = unat c;
        if length data < usize_add w 5 (usize_mul w count 77) then ret None
        else do {
          m \<leftarrow> decode_entries_v2 count data 5 [];
          ret (Some (registry_new\<lparr>known := m\<rparr>))
        }
      })"

definition registry_decode :: "nat \<Rightarrow> bytes \<Rightarrow> identity_registry option outcome" where
  "registry_decode w data =
     (if data = [] then ret None
      else do {
        version \<leftarrow> read_u8 data 0;
        if version = 2 then decode_v2 w data else decode_v1 w data
      })"

section \<open>Trust on first use\<close>

text \<open>
  Everything that can happen to a registry while the application does not touch the entry of the
  node \<open>n\<close> itself: attestations and membership tokens of any node, and removals and registrations
  of others by hand. The application can take the trust back: it may remove \<open>n\<close>, clear the
  registry or register \<open>n\<close> with a key of its choice.
\<close>

inductive tofu_step :: "sig_crypto \<Rightarrow> node_id \<Rightarrow> identity_registry \<Rightarrow> identity_registry \<Rightarrow> bool" for G n where
  attest: "tofu_step G n r (fst (verify_or_register_at G r a now))"
| member: "tofu_step G n r (fst (register_member G r t pk now))"
| remove: "p \<noteq> n \<Longrightarrow> tofu_step G n r (fst (registry_remove r p))"
| pre_registered: "p \<noteq> n \<Longrightarrow> tofu_step G n r (pre_register r p pk now)"

inductive tofu_run :: "sig_crypto \<Rightarrow> node_id \<Rightarrow> identity_registry \<Rightarrow> identity_registry \<Rightarrow> bool" for G n where
  refl: "tofu_run G n r r"
| step: "tofu_run G n r r' \<Longrightarrow> tofu_step G n r' r'' \<Longrightarrow> tofu_run G n r r''"

lemma tofu_step_keeps_key: "tofu_step G n r r' \<Longrightarrow> get_public_key r n = Some k \<Longrightarrow> get_public_key r' n = Some k"
  by (induction rule: tofu_step.induct)
    (auto simp: get_public_key_def verify_or_register_at_def register_member_def registry_remove_def pre_register_def
      Let_def split: option.splits)

lemma tofu_run_keeps_key: "tofu_run G n r r' \<Longrightarrow> get_public_key r n = Some k \<Longrightarrow> get_public_key r' n = Some k"
  by (induction rule: tofu_run.induct) (auto dest: tofu_step_keeps_key)

lemma removed_key_replaced:
  assumes "attestation_verify G b"
  shows "snd (verify_or_register_at G (fst (registry_remove r (at_node_id b))) b now) = Registered"
    and "get_public_key (fst (verify_or_register_at G (fst (registry_remove r (at_node_id b))) b now)) (at_node_id b) =
      Some (at_public_key b)"
  using assms by (simp_all add: verify_or_register_at_def registry_remove_def get_public_key_def Let_def)

lemma trusted_binds_key:
  assumes "verify_or_register_at G r a now = (r', res)" "is_trusted res"
  shows "get_public_key r' (at_node_id a) = Some (at_public_key a)"
  using assms by (auto simp: get_public_key_def verify_or_register_at_def is_trusted_def Let_def
      split: if_splits option.splits)

lemma other_key_rejected:
  assumes "get_public_key r (at_node_id a) = Some k" "k \<noteq> at_public_key a"
  shows "fst (verify_or_register_at G r a now) = r" "is_violation (snd (verify_or_register_at G r a now))"
  using assms by (auto simp: get_public_key_def verify_or_register_at_def Let_def split: option.splits)

lemma member_registered:
  assumes "token_verify G t pk" "\<not> token_is_expired t now"
    and "get_public_key r (node_id_from_public_key G (mt_public_key t)) \<in> {None, Some (mt_public_key t)}"
  shows "register_member G r t pk now =
    (r\<lparr>known := bt_insert (node_id_from_public_key G (mt_public_key t))
        \<lparr>ir_public_key = mt_public_key t, ir_first_seen_ms = now, ir_last_seen_ms = now, verification_count = 1,
         ir_callsign = Some (mt_callsign t), token_expires_ms = Some (mt_expires_at_ms t)\<rparr> (known r)\<rparr>,
     Inr (node_id_from_public_key G (mt_public_key t)))"
  using assms by (auto simp: register_member_def get_public_key_def Let_def split: option.splits)

text \<open>A token issued for one mesh is accepted by the registry of any other.\<close>

lemma token_of_any_mesh:
  assumes "sig_correct G" "length callsign \<le> 12" "length pk = 32" "get_public_key r (node_id_from_public_key G pk) = None"
  shows "\<exists>t. token_issue G authority g pk callsign 0 now = ret t \<and>
    mt_mesh_id t = take 4 (blake3_keyed G (mg_mesh_seed g) (mg_mesh_name g)) \<and>
    snd (register_member G r t (public_key G authority) u) = Inr (node_id_from_public_key G pk)"
proof -
  obtain t where t: "token_issue G authority g pk callsign 0 now = ret t" "token_verify G t (public_key G authority)"
      "mt_public_key t = pk" "mt_mesh_id t = take 4 (blake3_keyed G (mg_mesh_seed g) (mg_mesh_name g))"
      "\<And>u. token_is_expired t u \<longleftrightarrow> (0 :: u64) \<noteq> 0 \<and> u > sat_add now 0"
    using issued_token [OF assms(1-3)] by metis
  then have "\<not> token_is_expired t u" by simp
  then show ?thesis using t member_registered [of G t "public_key G authority" u r] assms(4) by auto
qed

section \<open>The persistent form is read back\<close>

definition record_wf :: "identity_record \<Rightarrow> bool" where
  "record_wf rec \<longleftrightarrow> length (ir_public_key rec) = 32 \<and>
     (case ir_callsign rec of None \<Rightarrow> token_expires_ms rec = None | Some cs \<Rightarrow> length cs = 12 \<and> token_expires_ms rec \<noteq> None)"

lemma length_encode_record: "record_wf rec \<Longrightarrow> length (encode_record (n, rec)) = 77"
  by (auto simp: record_wf_def encode_record_def MAX_CALLSIGN_LEN_def split: option.splits)

lemma decode_entry:
  assumes "record_wf rec" "length pre = offset"
  shows "decode_entries_v2 (Suc k) (pre @ encode_record (n, rec) @ rest) offset m =
    decode_entries_v2 k (pre @ encode_record (n, rec) @ rest) (offset + 77) (bt_insert n rec m)"
proof (cases "ir_callsign rec")
  case None
  then show ?thesis using assms
    by (cases rec) (simp add: record_wf_def encode_record_def wire MAX_CALLSIGN_LEN_def)
next
  case (Some cs)
  then show ?thesis using assms by (cases rec) (auto simp: record_wf_def encode_record_def wire)
qed

lemma decode_entries:
  assumes "\<forall>e \<in> set es. record_wf (snd e)" "length pre = offset"
  shows "decode_entries_v2 (length es) (pre @ concat (map encode_record es)) offset m =
    ret (fold (\<lambda>(n, rec) m. bt_insert n rec m) es m)"
  using assms
proof (induction es arbitrary: pre offset m)
  case (Cons e es)
  obtain n rec where e: "e = (n, rec)" by (cases e)
  have wf: "record_wf rec" using Cons.prems(1) e by simp
  have "length (pre @ encode_record (n, rec)) = offset + 77"
    using Cons.prems(2) length_encode_record [OF wf] by simp
  then have "decode_entries_v2 (length es) ((pre @ encode_record (n, rec)) @ concat (map encode_record es)) (offset + 77)
      (bt_insert n rec m) = ret (fold (\<lambda>(n, rec) m. bt_insert n rec m) es (bt_insert n rec m))"
    using Cons.prems(1) by (intro Cons.IH) simp_all
  then show ?case using decode_entry [OF wf Cons.prems(2), of "length es" n "concat (map encode_record es)" m] e by simp
qed simp

lemma registry_roundtrip_aux:
  assumes "mset es = mset (known r)" "bt_wf (known r)" "\<forall>(n, rec) \<in> set (known r). record_wf rec"
    and "length es < 2 ^ 32" "5 + length es * 77 < 2 ^ w"
  shows "registry_decode w (registry_encode es) = ret (Some (registry_new\<lparr>known := known r\<rparr>))"
proof -
  have wf: "\<forall>e \<in> set es. record_wf (snd e)" using assms(1,3) by (metis (mono_tags, lifting) case_prod_beta mset_eq_setD)
  have len: "length (concat (map encode_record es)) = length es * 77"
    using wf by (induction es) (auto simp: length_encode_record)
  have c: "unat (word_of_nat (length es) :: u32) = length es"
    using assms(4) by (simp add: unat_of_nat take_bit_nat_eq_self)
  have m: "usize_mul w (length es) 77 = length es * 77" using assms(5) by (intro usize_mul_exact) linarith
  have a: "usize_add w 5 (usize_mul w (length es) 77) = 5 + length es * 77"
    unfolding m using assms(5) by (intro usize_add_exact)
  let ?d = "registry_encode es"
  have d: "?d = (2 # le32 (word_of_nat (length es))) @ concat (map encode_record es)" by (simp add: registry_encode_def)
  have "decode_entries_v2 (length es) ?d 5 [] = ret (fold (\<lambda>(n, rec) m. bt_insert n rec m) es [])"
    unfolding d by (rule decode_entries [OF wf]) simp
  moreover have "fold (\<lambda>(n, rec) m. bt_insert n rec m) es [] = known r"
    using bt.rebuild [OF assms(2,1)] by simp
  moreover have "read_u8 ?d 0 = ret 2" "read_u32 ?d 1 = ret (word_of_nat (length es))" "?d \<noteq> []"
    by (simp_all add: registry_encode_def wire)
  moreover have "length ?d = 5 + length es * 77" using len by (simp add: d)
  ultimately show ?thesis by (simp add: registry_decode_def decode_v2_def a c)
qed

lemma decode_entries_v1_safe: "offset + 56 * k \<le> length data \<Longrightarrow> no_panic (decode_entries_v1 k data offset m)"
proof (induction k arbitrary: offset m)
  case (Suc k)
  have "no_panic (decode_entries_v1 k data (offset + 56) m')" for m' using Suc by simp
  then show ?case using Suc.prems by (simp del: bind_assoc) (intro safe; simp)
qed simp

lemma decode_entries_v2_safe: "offset + 77 * k \<le> length data \<Longrightarrow> no_panic (decode_entries_v2 k data offset m)"
proof (induction k arbitrary: offset m)
  case (Suc k)
  have "no_panic (decode_entries_v2 k data (offset + 77) m')" for m' using Suc by simp
  then show ?case using Suc.prems by (simp del: bind_assoc) (intro safe; simp)
qed simp

lemma usize_entries:
  fixes c :: u32
  assumes "a < 10" "b < 100"
  shows "usize_add 64 a (usize_mul 64 (unat c) b) = a + unat c * b"
proof -
  have "unat c * b \<le> 2 ^ 32 * 100" using assms(2) unat_less [of c] by (intro mult_mono) simp_all
  then show ?thesis using assms(1) by (simp add: usize_add_exact usize_mul_exact)
qed

text \<open>On a 64-bit machine the decoder never panics.\<close>

lemma registry_decode_safe: "no_panic (registry_decode 64 data)"
proof -
  have "no_panic (decode_v1 64 data)" unfolding decode_v1_def Let_def usize_entries [of 4 56, simplified]
    by (intro safe decode_entries_v1_safe) auto
  moreover have "no_panic (decode_v2 64 data)" unfolding decode_v2_def Let_def usize_entries [of 5 77, simplified]
    by (intro safe decode_entries_v2_safe) auto
  ultimately show ?thesis unfolding registry_decode_def by (intro safe) auto
qed

lemma decode_entries_v1_nonempty:
  "decode_entries_v1 k data offset m = ret m' \<Longrightarrow> m \<noteq> [] \<or> 0 < k \<Longrightarrow> m' \<noteq> []"
proof (induction k arbitrary: offset m)
  case (Suc k)
  have "bt_insert n rec m \<noteq> []" for n and rec :: identity_record by (cases m) (auto split: if_splits)
  with Suc show ?case by (fastforce simp: bind_eq_Some_conv)
qed simp

text \<open>A file of the old version with two identities starts with the byte 2.\<close>

lemma legacy_two_identities_lost:
  assumes "length data = 4 + 2 * 56" "take 4 data = [2, 0, 0, 0]"
  shows "registry_decode 64 data \<in> {ret None, ret (Some registry_new)}"
    and "\<exists>r. decode_v1 64 data = ret (Some r) \<and> known r \<noteq> []"
proof -
  obtain x xs where data: "data = [2, 0, 0, 0] @ x # xs" and len: "length xs = 111"
    using assms append_take_drop_id [of 4 data] by (cases "drop 4 data") force+
  let ?c = "from_le [0, 0, 0, x] :: u32"
  have "?c = push_bit 24 (ucast x)" by (simp add: push_bit_eq_mult)
  then have "take_bit 24 ?c = 0" by (simp add: take_bit_push_bit)
  then have "2 ^ 24 dvd unat ?c" 
  proof -
    have "unat (take_bit 24 ?c) = take_bit 24 (unat ?c)" by (rule unsigned_take_bit_eq)
    then show ?thesis using \<open>take_bit 24 ?c = 0\<close> by (simp only: unsigned_0 take_bit_eq_mod) (simp add: mod_eq_0_iff_dvd)
  qed
  then have c: "?c = 0 \<or> 2 ^ 24 \<le> unat ?c" by (metis dvd_imp_le neq0_conv unat_eq_zero)
  have r: "read_u8 data 0 = ret 2" "read_u32 data 1 = ret ?c" by (simp_all add: data read_u8_def read_u32_def read_le_def)
  have "registry_decode 64 data = decode_v2 64 data" using r(1) data by (simp add: registry_decode_def)
  also have "\<dots> = (if length data < 5 + unat ?c * 77 then ret None
      else do { m \<leftarrow> decode_entries_v2 (unat ?c) data 5 []; ret (Some (registry_new\<lparr>known := m\<rparr>)) })"
    using assms(1) unfolding decode_v2_def r(2) by (simp add: Let_def usize_entries del: from_le.simps)
  finally have d: "registry_decode 64 data = \<dots>" .
  show "registry_decode 64 data \<in> {ret None, ret (Some registry_new)}"
  proof (cases "?c = 0")
    case True
    then show ?thesis unfolding d by (simp add: registry_new_def del: from_le.simps)
  next
    case False
    then have "2 ^ 24 \<le> unat ?c" using c by blast
    then have "length data < 5 + unat ?c * 77" using assms(1) by (simp del: from_le.simps)
    then show ?thesis unfolding d by simp
  qed
  have "read_u32 data 0 = ret 2" by (simp add: data read_u32_def read_le_def)
  moreover obtain m where "decode_entries_v1 2 data 4 [] = ret m"
    using decode_entries_v1_safe [of 4 2 data "[]"] assms(1) by (auto simp: no_panic_ex)
  moreover from this have "m \<noteq> []" using decode_entries_v1_nonempty [of 2 data 4 "[]" m] by simp
  moreover have "usize_add 64 4 (usize_mul 64 2 56) = 116" by (simp add: usize_add_exact usize_mul_exact)
  ultimately show "\<exists>r. decode_v1 64 data = ret (Some r) \<and> known r \<noteq> []"
    using assms(1) by (simp add: decode_v1_def)
qed

section \<open>Properties\<close>

subsection \<open>A concrete signature scheme for the witnesses\<close>

definition demo_sig :: sig_crypto where
  "demo_sig =
     \<lparr>sg_public = demo_pad 32,
      sg_sign = (\<lambda>k m. demo_pad 32 k @ demo_pad 32 m),
      sg_verify = (\<lambda>pk m s. s = pk @ demo_pad 32 m),
      blake3_hash = demo_pad 32,
      blake3_keyed = (\<lambda>k m. demo_pad 32 (k @ m)),
      blake3_derive = (\<lambda>context m. demo_pad 32 m)\<rparr>"

lemma demo_sig_correct [simp]: "sig_correct demo_sig"
  by (simp add: sig_correct_def demo_sig_def)

text \<open>
  C12: Trust on first use pins the key. Once an attestation of a node was accepted, then after any
  sequence of further attestations and membership tokens, valid or not, and of removals and manual
  registrations of other nodes, an attestation for the same node with another key is reported as
  a violation and leaves the registry unchanged, even if it carries a valid signature of the other
  key. Only the application can undo this, by removing, clearing or registering the node itself.
\<close>

theorem first_key_pinned:
  assumes "verify_or_register_at G r a now = (r1, res)" "is_trusted res" "tofu_run G (at_node_id a) r1 r2"
    and "at_node_id b = at_node_id a" "at_public_key b \<noteq> at_public_key a"
  shows "fst (verify_or_register_at G r2 b later) = r2 \<and> is_violation (snd (verify_or_register_at G r2 b later))"
proof -
  have "get_public_key r2 (at_node_id b) = Some (at_public_key a)"
    using tofu_run_keeps_key [OF assms(3) trusted_binds_key [OF assms(1,2)]] assms(4) by simp
  then show ?thesis using other_key_rejected [of r2 b] assms(5) by fastforce
qed

theorem first_key_pinned_witness:
  "let a = create_attestation demo_sig \<lparr>signing_key = [1, 2, 3, 4, 5]\<rparr> 10;
       b = create_attestation demo_sig \<lparr>signing_key = [1, 2, 3, 4, 6]\<rparr> 20;
       r1 = fst (verify_or_register_at demo_sig registry_new a 10);
       r2 = pre_register r1 (at_node_id a + 1) [7] 15
   in fst (verify_or_register_at demo_sig r2 b 20) = r2 \<and> is_violation (snd (verify_or_register_at demo_sig r2 b 20))"
proof -
  let ?a = "create_attestation demo_sig \<lparr>signing_key = [1, 2, 3, 4, 5]\<rparr> 10"
  let ?b = "create_attestation demo_sig \<lparr>signing_key = [1, 2, 3, 4, 6]\<rparr> 20"
  let ?v = "verify_or_register_at demo_sig registry_new ?a 10"
  have "is_trusted (snd ?v)" "at_node_id ?b = at_node_id ?a" "at_public_key ?b \<noteq> at_public_key ?a"
    by code_simp+
  then show ?thesis
    using first_key_pinned [of demo_sig registry_new ?a 10 "fst ?v" "snd ?v"
        "pre_register (fst ?v) (at_node_id ?a + 1) [7] 15" ?b 20]
      tofu_run.step [OF tofu_run.refl tofu_step.pre_registered, of "at_node_id ?a + 1" "at_node_id ?a" demo_sig "fst ?v"]
    by (simp add: Let_def)
qed

text \<open>
  A registry file of the old format that holds exactly two identities is lost. Its first byte
  is the low byte of the number of entries, 2, which the reader takes for the version number of
  the new format: it returns nothing or an empty registry, while the reader of the old format
  would return the identities.
\<close>

theorem legacy_registry_lost:
  assumes "length data = 4 + 2 * 56" "take 4 data = [2, 0, 0, 0]"
  shows "registry_decode 64 data \<in> {ret None, ret (Some registry_new)} \<and>
    (\<exists>r. decode_v1 64 data = ret (Some r) \<and> known r \<noteq> [])"
  using legacy_two_identities_lost [OF assms] by blast

theorem legacy_registry_lost_witness:
  "registry_decode 64 ([2, 0, 0, 0] @ replicate 112 7) \<in> {ret None, ret (Some registry_new)}"
  using legacy_registry_lost [of "[2, 0, 0, 0] @ replicate 112 7"] by simp

end
