(* ===== verification/Credential_Store.thy ===== *)
theory Credential_Store
  imports Identity_Registry "HOL-Library.List_Lexorder" "HOL-Library.Char_ord"
begin

text \<open>
  Persistent credentials (\<open>src/security/persistence.rs\<close>): the state a node keeps over a reboot, its
  binary form, and saving and loading it through a storage backend. The trait \<open>SecureStorage\<close> is
  the locale \<open>secure_storage\<close>; the in-memory backend of the source provides it.

  Main results: what is saved is loaded; identity, genesis and registry are restored from it; the
  decoder never panics on a 64-bit machine.
\<close>

section \<open>State\<close>

definition PERSISTED_STATE_VERSION :: u32 where "PERSISTED_STATE_VERSION = 1"
definition MAGIC :: bytes where "MAGIC = [0x50, 0x45, 0x41, 0x54]"
definition STORAGE_KEY :: string where "STORAGE_KEY = ''hive_persisted_state''"

datatype persistence_error =
    StorageError string
  | InvalidFormat
  | UnsupportedVersion u32 u32
  | NotFound
  | CryptoError string

record persisted_state =
  ps_version :: u32
  device_private_key :: bytes
  genesis_data :: "bytes option"
  registry_data :: bytes
  revoked_keys :: "bytes list"
  persisted_at_ms :: u64

definition persisted_state_new :: "sig_crypto \<Rightarrow> device_identity \<Rightarrow> mesh_genesis option \<Rightarrow> persisted_state" where
  "persisted_state_new G i g =
     \<lparr>ps_version = PERSISTED_STATE_VERSION, device_private_key = signing_key i,
      genesis_data = map_option (genesis_encode G) g, registry_data = [], revoked_keys = [], persisted_at_ms = 0\<rparr>"

definition persisted_with_registry ::
  "sig_crypto \<Rightarrow> device_identity \<Rightarrow> mesh_genesis option \<Rightarrow> (node_id \<times> identity_record) list \<Rightarrow> persisted_state" where
  "persisted_with_registry G i g es =
     \<lparr>ps_version = PERSISTED_STATE_VERSION, device_private_key = signing_key i,
      genesis_data = map_option (genesis_encode G) g, registry_data = registry_encode es, revoked_keys = [],
      persisted_at_ms = 0\<rparr>"

primrec identity_error_debug :: "identity_error \<Rightarrow> string" where
  "identity_error_debug InvalidSignatureErr = ''InvalidSignature''"
| "identity_error_debug InvalidPublicKey = ''InvalidPublicKey''"
| "identity_error_debug InvalidPrivateKey = ''InvalidPrivateKey''"
| "identity_error_debug SerializationError = ''SerializationError''"

definition restore_identity :: "persisted_state \<Rightarrow> persistence_error + device_identity" where
  "restore_identity s =
     (case from_private_key (device_private_key s) of Inr i \<Rightarrow> Inr i | Inl e \<Rightarrow> Inl (CryptoError (identity_error_debug e)))"

definition restore_genesis :: "persisted_state \<Rightarrow> mesh_genesis option outcome" where
  "restore_genesis s = (case genesis_data s of None \<Rightarrow> ret None | Some d \<Rightarrow> genesis_decode d)"

definition restore_registry :: "nat \<Rightarrow> persisted_state \<Rightarrow> identity_registry outcome" where
  "restore_registry w s =
     (if registry_data s = [] then ret registry_new
      else do {
        r \<leftarrow> registry_decode w (registry_data s);
        ret (case r of None \<Rightarrow> registry_new | Some r \<Rightarrow> r)
      })"

definition add_revoked_key :: "persisted_state \<Rightarrow> bytes \<Rightarrow> persisted_state" where
  "add_revoked_key s pk =
     (if pk \<in> set (revoked_keys s) then s else s\<lparr>revoked_keys := revoked_keys s @ [pk]\<rparr>)"

definition update_registry :: "persisted_state \<Rightarrow> (node_id \<times> identity_record) list \<Rightarrow> persisted_state" where
  "update_registry s es = s\<lparr>registry_data := registry_encode es\<rparr>"

definition set_persisted_at :: "persisted_state \<Rightarrow> u64 \<Rightarrow> persisted_state" where
  "set_persisted_at s t = s\<lparr>persisted_at_ms := t\<rparr>"

section \<open>Binary form\<close>

definition persisted_encode :: "persisted_state \<Rightarrow> bytes" where
  "persisted_encode s =
     (let g = (case genesis_data s of None \<Rightarrow> [] | Some d \<Rightarrow> d) in
      MAGIC @ le32 (ps_version s) @ device_private_key s @ le64 (persisted_at_ms s)
      @ le32 (word_of_nat (length g)) @ g
      @ le32 (word_of_nat (length (registry_data s))) @ registry_data s
      @ le32 (word_of_nat (length (revoked_keys s))) @ concat (revoked_keys s))"

fun decode_keys :: "nat \<Rightarrow> bytes \<Rightarrow> nat \<Rightarrow> bytes list outcome" where
  "decode_keys 0 data offset = ret []"
| "decode_keys (Suc k) data offset = do {
     key \<leftarrow> slice data offset (offset + 32);
     keys \<leftarrow> decode_keys k data (offset + 32);
     ret (key # keys)
   }"

text \<open>A field with its length in front: its bytes and the offset after it.\<close>

definition read_field :: "nat \<Rightarrow> bytes \<Rightarrow> nat \<Rightarrow> (bytes \<times> nat) option outcome" where
  "read_field w data offset =
     (if length data < usize_add w offset 4 then ret None
      else do {
        l \<leftarrow> read_u32 data offset;
        let offset = offset + 4;
        let stop = usize_add w offset (unat l);
        if length data < stop then ret None
        else do { d \<leftarrow> slice data offset stop; ret (Some (d, stop)) }
      })"

definition persisted_decode :: "nat \<Rightarrow> bytes \<Rightarrow> (persistence_error + persisted_state) outcome" where
  "persisted_decode w data =
     (if length data < 60 then ret (Inl InvalidFormat)
      else do {
        magic \<leftarrow> slice data 0 4;
        if magic \<noteq> MAGIC then ret (Inl InvalidFormat)
        else do {
          version \<leftarrow> read_u32 data 4;
          if version > PERSISTED_STATE_VERSION then ret (Inl (UnsupportedVersion version PERSISTED_STATE_VERSION))
          else do {
            key \<leftarrow> slice data 8 40;
            t \<leftarrow> read_u64 data 40;
            f1 \<leftarrow> read_field w data 48;
            case f1 of None \<Rightarrow> ret (Inl InvalidFormat) | Some (g, o1) \<Rightarrow> do {
            f2 \<leftarrow> read_field w data o1;
            case f2 of None \<Rightarrow> ret (Inl InvalidFormat) | Some (r, o2) \<Rightarrow>
            if length data < usize_add w o2 4 then ret (Inl InvalidFormat)
            else do {
              c \<leftarrow> read_u32 data o2;
              if length data < usize_add w (o2 + 4) (usize_mul w (unat c) 32) then ret (Inl InvalidFormat)
              else do {
                keys \<leftarrow> decode_keys (unat c) data (o2 + 4);
                ret (Inr \<lparr>ps_version = version, device_private_key = key,
                          genesis_data = (if g = [] then None else Some g), registry_data = r,
                          revoked_keys = keys, persisted_at_ms = t\<rparr>)
              }
            }}
          }
        }
      })"

section \<open>Storage\<close>

type_synonym 's store_fn = "'s \<Rightarrow> string \<Rightarrow> bytes \<Rightarrow> 's \<times> (persistence_error + unit)"
type_synonym 's retrieve_fn = "'s \<Rightarrow> string \<Rightarrow> persistence_error + bytes option"
type_synonym 's delete_fn = "'s \<Rightarrow> string \<Rightarrow> 's \<times> (persistence_error + unit)"

definition state_save :: "'s store_fn \<Rightarrow> 's \<Rightarrow> persisted_state \<Rightarrow> 's \<times> (persistence_error + unit)" where
  "state_save store st s = store st STORAGE_KEY (persisted_encode s)"

definition state_load :: "nat \<Rightarrow> 's retrieve_fn \<Rightarrow> 's \<Rightarrow> (persistence_error + persisted_state) outcome" where
  "state_load w retrieve st =
     (case retrieve st STORAGE_KEY of
        Inl e \<Rightarrow> ret (Inl e)
      | Inr None \<Rightarrow> ret (Inl NotFound)
      | Inr (Some data) \<Rightarrow> persisted_decode w data)"

definition state_delete :: "'s delete_fn \<Rightarrow> 's \<Rightarrow> 's \<times> (persistence_error + unit)" where
  "state_delete delete st = delete st STORAGE_KEY"

definition storage_exists :: "'s retrieve_fn \<Rightarrow> 's \<Rightarrow> string \<Rightarrow> persistence_error + bool" where
  "storage_exists retrieve st k =
     (case retrieve st k of Inl e \<Rightarrow> Inl e | Inr None \<Rightarrow> Inr False | Inr (Some _) \<Rightarrow> Inr True)"

text \<open>The in-memory backend; its lock is never poisoned here.\<close>

type_synonym memory_storage = "(string, bytes) btree_map"

definition memory_store :: "memory_storage store_fn" where
  "memory_store st k v = (bt_insert k v st, Inr ())"

definition memory_retrieve :: "memory_storage retrieve_fn" where
  "memory_retrieve st k = Inr (bt_get st k)"

definition memory_delete :: "memory_storage delete_fn" where
  "memory_delete st k = (bt_remove k st, Inr ())"

section \<open>Reading the binary form\<close>

definition persisted_wf :: "persisted_state \<Rightarrow> bool" where
  "persisted_wf s \<longleftrightarrow>
     ps_version s \<le> PERSISTED_STATE_VERSION \<and> length (device_private_key s) = 32 \<and>
     genesis_data s \<noteq> Some [] \<and> (\<forall>k \<in> set (revoked_keys s). length k = 32)"

definition fits :: "nat \<Rightarrow> persisted_state \<Rightarrow> bool" where
  "fits w s \<longleftrightarrow> length (persisted_encode s) < 2 ^ 32 \<and> 32 \<le> w"

lemma decode_keys_concat:
  assumes "\<forall>k \<in> set keys. length k = 32" "length pre = offset"
  shows "decode_keys (length keys) (pre @ concat keys) offset = ret keys"
  using assms
proof (induction keys arbitrary: pre offset)
  case (Cons k keys)
  have "decode_keys (length keys) ((pre @ k) @ concat keys) (offset + 32) = ret keys"
    using Cons.prems by (intro Cons.IH) simp_all
  then show ?case using Cons.prems by (simp add: wire)
qed simp

lemma read_field_append:
  assumes "length pre = offset" "length d < 2 ^ 32" "offset + 4 + length d < 2 ^ w"
  shows "read_field w (pre @ le32 (word_of_nat (length d)) @ d @ rest) offset = ret (Some (d, offset + 4 + length d))"
proof -
  have u: "unat (word_of_nat (length d) :: u32) = length d" using assms(2) by (simp add: unat_of_nat take_bit_nat_eq_self)
  show ?thesis using assms(1,3)
    by (simp add: read_field_def u usize_add_exact wire)
qed

lemma decode_keys_safe: "offset + 32 * k \<le> length data \<Longrightarrow> no_panic (decode_keys k data offset)"
proof (induction k arbitrary: offset)
  case (Suc k)
  have "no_panic (decode_keys k data (offset + 32))" using Suc by simp
  then show ?case using Suc.prems by (simp del: bind_assoc) (intro safe; simp)
qed simp

lemma read_field_safe:
  assumes "offset \<le> length data" "length data < 2 ^ 63"
  shows "no_panic (read_field 64 data offset)"
    and "read_field 64 data offset = ret (Some (d, o')) \<Longrightarrow> o' \<le> length data"
proof -
  have e: "usize_add 64 offset 4 = offset + 4" using assms by (simp add: usize_add_exact)
  have f: "usize_add 64 (offset + 4) (unat l) = offset + 4 + unat l" for l :: u32
    using assms unat_less [of l] by (simp add: usize_add_exact)
  show "no_panic (read_field 64 data offset)"
    unfolding read_field_def e Let_def f by (intro safe) auto
  show "o' \<le> length data" if "read_field 64 data offset = ret (Some (d, o'))"
    using that unfolding read_field_def e Let_def f by (auto simp: bind_eq_Some_conv split: if_splits)
qed

lemma persisted_decode_safe:
  assumes "length data < 2 ^ 63"
  shows "no_panic (persisted_decode 64 data)"
proof -
  have e: "usize_add 64 p 4 = p + 4" if "p \<le> length data" for p using assms that by (simp add: usize_add_exact)
  have f: "usize_add 64 (p + 4) (usize_mul 64 (unat c) 32) = p + 4 + unat c * 32" if "p \<le> length data" for p and c :: u32
    using assms that unat_less [of c] by (simp add: usize_add_exact usize_mul_exact)
  have r1: "o1 \<le> length data" if "read_field 64 data 48 = ret (Some (g, o1))" "\<not> length data < 60" for g o1
    using read_field_safe(2) [OF _ assms that(1)] that(2) by simp
  have r2: "o2 \<le> length data"
    if "read_field 64 data 48 = ret (Some (g, o1))" "read_field 64 data o1 = ret (Some (r, o2))" "\<not> length data < 60" for g o1 r o2
    using read_field_safe(2) [OF r1 assms that(2)] that by simp
  show ?thesis unfolding persisted_decode_def
    by (intro safe read_field_safe(1) [OF _ assms] decode_keys_safe)
      (simp_all add: not_less r1 r2, (use r2 e f in \<open>simp add: not_less; fail\<close>)+)
qed

lemma persisted_roundtrip:
  assumes "persisted_wf s" "fits w s"
  shows "persisted_decode w (persisted_encode s) = ret (Inr s)"
proof -
  define g where "g = (case genesis_data s of None \<Rightarrow> [] | Some d \<Rightarrow> d)"
  let ?r = "registry_data s"
  let ?ks = "revoked_keys s"
  let ?h = "MAGIC @ le32 (ps_version s) @ device_private_key s @ le64 (persisted_at_ms s)"
  let ?tail = "le32 (word_of_nat (length ?ks)) @ concat ?ks"
  let ?d = "persisted_encode s"
  have M: "length MAGIC = 4" by (simp add: MAGIC_def)
  have K: "length (device_private_key s) = 32" and V: "ps_version s \<le> PERSISTED_STATE_VERSION"
    using assms(1) by (simp_all add: persisted_wf_def)
  have d: "?d = ?h @ le32 (word_of_nat (length g)) @ g @ le32 (word_of_nat (length ?r)) @ ?r @ ?tail"
    by (simp add: persisted_encode_def g_def Let_def)
  have "\<forall>k \<in> set ks. length k = 32 \<Longrightarrow> length (concat ks) = length ks * 32" for ks :: "bytes list"
    by (induction ks) auto
  then have lk: "length (concat ?ks) = length ?ks * 32" using assms(1) by (simp add: persisted_wf_def)
  have len: "length ?d = 60 + length g + length ?r + length ?ks * 32" unfolding d by (simp add: M K lk)
  have w32: "(2 :: nat) ^ 32 \<le> 2 ^ w" using assms(2) by (intro power_increasing) (simp_all add: fits_def)
  have small: "60 + length g + length ?r + length ?ks * 32 < 2 ^ 32" using assms(2) len by (simp add: fits_def)
  have hl: "length ?h = 48" by (simp add: M K)
  have f1: "read_field w ?d 48 = ret (Some (g, 52 + length g))"
    unfolding d using read_field_append [OF hl, of g w "le32 (word_of_nat (length ?r)) @ ?r @ ?tail"] small w32 by simp
  have f2: "read_field w ?d (52 + length g) = ret (Some (?r, 56 + length g + length ?r))"
    using read_field_append [of "?h @ le32 (word_of_nat (length g)) @ g" "52 + length g" ?r w ?tail] small w32 hl
    unfolding d by simp
  have c: "unat (word_of_nat (length ?ks) :: u32) = length ?ks" using small by (simp add: unat_of_nat take_bit_nat_eq_self)
  have "read_u32 ?d (56 + length g + length ?r) = ret (word_of_nat (length ?ks))" unfolding d using M K by (simp add: wire)
  moreover have "decode_keys (length ?ks) ?d (60 + length g + length ?r) = ret ?ks"
    using decode_keys_concat [of ?ks "?h @ le32 (word_of_nat (length g)) @ g @ le32 (word_of_nat (length ?r)) @ ?r @ le32 (word_of_nat (length ?ks))"
        "60 + length g + length ?r"] assms(1) hl unfolding d by (simp add: persisted_wf_def)
  moreover have "slice ?d 0 4 = ret MAGIC" "read_u32 ?d 4 = ret (ps_version s)" "slice ?d 8 40 = ret (device_private_key s)"
      "read_u64 ?d 40 = ret (persisted_at_ms s)"
    unfolding d using M K by (simp_all add: wire)
  moreover have "(if g = [] then None else Some g) = genesis_data s"
    using assms(1) by (auto simp: g_def persisted_wf_def split: option.splits)
  moreover have "usize_add w (56 + length g + length ?r) 4 = 60 + length g + length ?r"
      "usize_add w (60 + length g + length ?r) (usize_mul w (length ?ks) 32) = 60 + length g + length ?r + length ?ks * 32"
    using small w32 by (simp_all add: usize_add_exact usize_mul_exact)
  ultimately show ?thesis using f1 f2 V len by (simp add: persisted_decode_def c not_less add.assoc)
qed

section \<open>The storage interface\<close>

locale secure_storage =
  fixes store :: "'s store_fn" and retrieve :: "'s retrieve_fn" and delete :: "'s delete_fn"
  assumes retrieve_store: "store st k v = (st', Inr ()) \<Longrightarrow> retrieve st' k = Inr (Some v)"
    and retrieve_store_other: "store st k v = (st', Inr ()) \<Longrightarrow> k' \<noteq> k \<Longrightarrow> retrieve st' k' = retrieve st k'"
    and retrieve_delete: "delete st k = (st', Inr ()) \<Longrightarrow> retrieve st' k = Inr None"
begin

lemma load_saved:
  assumes "state_save store st s = (st', Inr ())" "persisted_wf s" "fits w s"
  shows "state_load w retrieve st' = ret (Inr s)"
  using retrieve_store [OF assms(1) [unfolded state_save_def]] persisted_roundtrip [OF assms(2,3)]
  by (simp add: state_load_def)

lemma load_deleted:
  "state_delete delete st = (st', Inr ()) \<Longrightarrow> state_load w retrieve st' = ret (Inl NotFound)"
  using retrieve_delete by (auto simp: state_delete_def state_load_def)

lemma exists_saved: "state_save store st s = (st', Inr ()) \<Longrightarrow> storage_exists retrieve st' STORAGE_KEY = Inr True"
  using retrieve_store by (auto simp: state_save_def storage_exists_def)

end

interpretation memory: secure_storage memory_store memory_retrieve memory_delete
  by unfold_locales (auto simp: memory_store_def memory_retrieve_def memory_delete_def)

section \<open>A reboot\<close>

lemma restore_identity_ok: "restore_identity s = Inr \<lparr>signing_key = device_private_key s\<rparr>"
  by (simp add: restore_identity_def from_private_key_def)

lemma reboot_restores:
  assumes "sig_correct G" "length (signing_key i) = 32"
    and "length (mg_mesh_name g) < 2 ^ 16" "utf8_valid (mg_mesh_name g)" "length (mg_mesh_seed g) = 32"
      "length (signing_key (mg_creator_identity g)) = 32"
    and "mset es = mset (known r)" "bt_wf (known r)" "\<forall>(n, rec) \<in> set (known r). record_wf rec" "length es \<le> 10000"
    and "64 \<le> w"
  defines "s \<equiv> persisted_with_registry G i (Some g) es"
  shows "\<exists>st' s'. state_save memory_store st s = (st', Inr ()) \<and> state_load w memory_retrieve st' = ret (Inr s') \<and>
    restore_identity s' = Inr i \<and> restore_genesis s' = ret (Some g) \<and>
    restore_registry w s' = ret (registry_new\<lparr>known := known r\<rparr>)"
proof -
  have wf: "\<forall>e \<in> set es. record_wf (snd e)" using assms(7,9) by (metis (mono_tags, lifting) case_prod_beta mset_eq_setD)
  have "length (concat (map encode_record es)) = length es * 77"
    using wf by (induction es) (auto simp: length_encode_record)
  then have re: "length (registry_encode es) \<le> 5 + 10000 * 77" using assms(10) by (simp add: registry_encode_def)
  have ge: "length (genesis_encode G g) \<le> 107 + 2 ^ 16" "genesis_encode G g \<noteq> []"
    using assms(1,3,5,6) by (simp_all add: genesis_encode_def sig_correct_def public_key_def)
  have pw: "persisted_wf s" using assms(2) ge(2) by (simp add: s_def persisted_with_registry_def persisted_wf_def)
  have fit: "fits w s"
    using re ge(1) assms(2,11) by (simp add: fits_def persisted_encode_def s_def persisted_with_registry_def MAGIC_def Let_def)
  have "5 + length es * 77 < 2 ^ 64" using assms(10) by simp
  also have "(2 :: nat) ^ 64 \<le> 2 ^ w" using assms(11) by (intro power_increasing) simp_all
  finally have "5 + length es * 77 < 2 ^ w" .
  then have rr: "registry_decode w (registry_encode es) = ret (Some (registry_new\<lparr>known := known r\<rparr>))"
    using registry_roundtrip_aux [OF assms(7,8,9)] assms(10) by simp
  obtain st' where st: "state_save memory_store st s = (st', Inr ())" by (simp add: state_save_def memory_store_def)
  have "registry_encode es \<noteq> []" by (simp add: registry_encode_def)
  then show ?thesis using st memory.load_saved [OF st pw fit] rr genesis_roundtrip [OF assms(1,3,4,5,6)]
    by (intro exI [of _ st'] exI [of _ s])
      (simp add: restore_identity_ok restore_genesis_def restore_registry_def s_def persisted_with_registry_def)
qed

text \<open>A registry that cannot be read is silently replaced by an empty one: all trust is forgotten.\<close>

lemma unreadable_registry_forgotten:
  assumes "registry_decode w (registry_data s) = ret None" "registry_data s \<noteq> []"
  shows "restore_registry w s = ret registry_new"
  using assms by (simp add: restore_registry_def)

end
