(* ===== verification/Document_Registry.thy ===== *)
theory Document_Registry
  imports Delta_Document
begin

text \<open>
  The registry of application documents (\<^verbatim>\<open>registry.rs\<close>). Applications bring their own document
  types; the mesh stores them type-erased and calls back through handlers. The erased type
  (\<open>Box<dyn Any>\<close>) is a type variable, and the functions of an application's type are the fields of
  a record, so everything here holds for every application.
\<close>

section \<open>Document types and their handlers\<close>

text \<open>The trait \<open>DocumentType\<close> as the record of what an implementation provides.\<close>

record 't document_type =
  TYPE_ID :: u8
  TYPE_NAME :: string
  dt_identity :: "'t \<Rightarrow> u32 \<times> u64"
  dt_encode :: "'t \<Rightarrow> bytes"
  dt_decode :: "bytes \<Rightarrow> 't option"
  dt_merge :: "'t \<Rightarrow> 't \<Rightarrow> 't \<times> bool"
  dt_to_delta_op :: "'t \<Rightarrow> app_operation option"
  dt_apply_delta_op :: "'t \<Rightarrow> app_operation \<Rightarrow> 't \<times> bool"

text \<open>The trait \<open>DocumentHandler\<close>: the same functions on type-erased documents.\<close>

record 'd document_handler =
  h_type_name :: string
  h_decode :: "bytes \<Rightarrow> 'd option"
  h_merge :: "'d \<Rightarrow> 'd \<Rightarrow> 'd \<times> bool"
  h_encode :: "'d \<Rightarrow> bytes"
  h_identity :: "'d \<Rightarrow> u32 \<times> u64"
  h_to_delta_op :: "'d \<Rightarrow> app_operation option"
  h_apply_delta_op :: "'d \<Rightarrow> app_operation \<Rightarrow> 'd \<times> bool"

text \<open>
  \<open>TypedHandler<T>\<close>: \<open>up\<close> boxes a document, \<open>down\<close> is the checked downcast. A document of another
  type is left alone, and the answers for it are the defaults.
\<close>

definition typed_handler :: "'t document_type \<Rightarrow> ('t \<Rightarrow> 'd) \<Rightarrow> ('d \<Rightarrow> 't option) \<Rightarrow> 'd document_handler" where
  "typed_handler T up down =
     \<lparr>h_type_name = TYPE_NAME T,
      h_decode = (\<lambda>data. map_option up (dt_decode T data)),
      h_merge = (\<lambda>doc other.
        case (down doc, down other) of
          (Some d, Some d') \<Rightarrow> let (d1, changed) = dt_merge T d d' in (up d1, changed)
        | _ \<Rightarrow> (doc, False)),
      h_encode = (\<lambda>doc. case down doc of None \<Rightarrow> [] | Some d \<Rightarrow> dt_encode T d),
      h_identity = (\<lambda>doc. case down doc of None \<Rightarrow> (0, 0) | Some d \<Rightarrow> dt_identity T d),
      h_to_delta_op = (\<lambda>doc. Option.bind (down doc) (dt_to_delta_op T)),
      h_apply_delta_op = (\<lambda>doc op.
        case down doc of
          None \<Rightarrow> (doc, False)
        | Some d \<Rightarrow> let (d1, changed) = dt_apply_delta_op T d op in (up d1, changed))\<rparr>"

section \<open>The registry\<close>

type_synonym 'd document_registry = "(u8, 'd document_handler) btree_map"

definition is_app_type :: "u8 \<Rightarrow> bool" where
  "is_app_type t \<longleftrightarrow> APP_TYPE_MIN \<le> t \<and> t \<le> APP_TYPE_MAX"

definition registry_register :: "'d document_registry \<Rightarrow> u8 \<Rightarrow> 'd document_handler \<Rightarrow> 'd document_registry outcome" where
  "registry_register r t h =
     (if \<not> is_app_type t then panic
      else if bt_contains_key r t then panic
      else ret (bt_insert t h r))"

definition registry_try_register :: "'d document_registry \<Rightarrow> u8 \<Rightarrow> 'd document_handler \<Rightarrow> 'd document_registry \<times> bool" where
  "registry_try_register r t h =
     (if \<not> is_app_type t then (r, False)
      else if bt_contains_key r t then (r, False)
      else (bt_insert t h r, True))"

definition is_registered :: "'d document_registry \<Rightarrow> u8 \<Rightarrow> bool" where
  "is_registered r t = bt_contains_key r t"

definition registry_type_name :: "'d document_registry \<Rightarrow> u8 \<Rightarrow> string option" where
  "registry_type_name r t = map_option h_type_name (bt_get r t)"

definition registry_doc_decode :: "'d document_registry \<Rightarrow> u8 \<Rightarrow> bytes \<Rightarrow> 'd option" where
  "registry_doc_decode r t data = Option.bind (bt_get r t) (\<lambda>h. h_decode h data)"

definition registry_merge :: "'d document_registry \<Rightarrow> u8 \<Rightarrow> 'd \<Rightarrow> 'd \<Rightarrow> 'd \<times> bool" where
  "registry_merge r t doc other = (case bt_get r t of None \<Rightarrow> (doc, False) | Some h \<Rightarrow> h_merge h doc other)"

definition registry_doc_encode :: "'d document_registry \<Rightarrow> u8 \<Rightarrow> 'd \<Rightarrow> bytes" where
  "registry_doc_encode r t doc = (case bt_get r t of None \<Rightarrow> [] | Some h \<Rightarrow> h_encode h doc)"

definition registry_identity :: "'d document_registry \<Rightarrow> u8 \<Rightarrow> 'd \<Rightarrow> (u32 \<times> u64) option" where
  "registry_identity r t doc = map_option (\<lambda>h. h_identity h doc) (bt_get r t)"

definition registry_to_delta_op :: "'d document_registry \<Rightarrow> u8 \<Rightarrow> 'd \<Rightarrow> app_operation option" where
  "registry_to_delta_op r t doc = Option.bind (bt_get r t) (\<lambda>h. h_to_delta_op h doc)"

definition registry_apply_delta_op :: "'d document_registry \<Rightarrow> u8 \<Rightarrow> 'd \<Rightarrow> app_operation \<Rightarrow> 'd \<times> bool" where
  "registry_apply_delta_op r t doc op =
     (case bt_get r t of None \<Rightarrow> (doc, False) | Some h \<Rightarrow> h_apply_delta_op h doc op)"

section \<open>Documents with a header\<close>

definition encode_with_header :: "'t document_type \<Rightarrow> 't \<Rightarrow> bytes" where
  "encode_with_header T doc =
     (let payload = dt_encode T doc
      in [TYPE_ID T, 0x00] @ le16 (word_of_nat (length payload)) @ payload)"

definition decode_header :: "bytes \<Rightarrow> (u8 \<times> bytes) option outcome" where
  "decode_header data =
     (if length data < 4 then ret None
      else do {
        t \<leftarrow> read_u8 data 0;
        if \<not> is_app_type t then ret None
        else do {
          l \<leftarrow> read_u16 data 2;
          if length data < 4 + unat l then ret None
          else do { p \<leftarrow> slice data 4 (4 + unat l); ret (Some (t, p)) }
        }
      })"

section \<open>Lemmas\<close>

lemma registry_try_register_register:
  "registry_register r t h = (case registry_try_register r t h of (r', True) \<Rightarrow> ret r' | (_, False) \<Rightarrow> panic)"
  by (simp add: registry_register_def registry_try_register_def)

text \<open>A type id keeps the handler it was first given.\<close>

lemma registry_try_register_keeps:
  assumes "bt_get r u = Some g"
  shows "bt_get (fst (registry_try_register r t h)) u = Some g"
  using assms by (auto simp: registry_try_register_def bt_contains_key_def)

lemma header_roundtrip_aux:
  assumes "is_app_type (TYPE_ID T)"
  shows "decode_header (encode_with_header T doc) =
    ret (Some (TYPE_ID T, take (length (dt_encode T doc) mod 2 ^ 16) (dt_encode T doc)))"
  using assms mod_less_eq_dividend [of "length (dt_encode T doc)" "2 ^ 16"]
  by (simp add: decode_header_def encode_with_header_def Let_def wire unat_of_nat slice_def)

lemma decode_header_safe: "no_panic (decode_header data)"
  unfolding decode_header_def by (auto intro!: safe)

end
