(* ===== verification/Peat_Mesh.thy ===== *)
theory Peat_Mesh
  imports Document_Sync Document_Registry Relay Peer_Manager Gossip Peer_Session Credential_Store
    "HOL-Library.Product_Lexorder"
begin

text \<open>
  The facade of the mesh (\<^verbatim>\<open>peat_mesh.rs\<close>, \<^verbatim>\<open>observer.rs\<close>): the state a node keeps, composed of
  the components of the other theories, its construction, mesh-wide encryption, relaying, delta
  documents, end-to-end encrypted sessions and the calls of the application and of the platform.
  The functions that receive data are in the theory Peat_Receive.

  A method that changes the state returns the new state; one that notifies observers returns the
  list of events in the order of notification. \<open>SystemTime::now\<close> is the argument \<open>clock\<close>, random
  nonces, keys and message numbers are arguments. The record \<open>peat_env\<close> holds what is fixed for a
  build and its platform: the feature \<open>legacy-chat\<close>, the ciphers, the width of \<open>usize\<close>, the
  iteration order of the hash map of seen messages, and the seed of the gossip strategy.
\<close>

section \<open>Events and observers\<close>

datatype security_violation_kind =
  UnencryptedInStrictMode | KindDecryptionFailed | ReplayDetected | UnauthorizedNode

datatype peat_event =
    PeerDiscovered peat_peer
  | PeerConnected node_id
  | PeerDisconnected node_id link_loss_reason
  | PeerLost node_id
  | EmergencyReceived node_id
  | AckReceived node_id
  | EventReceived node_id event_type
  | DocumentSynced node_id u64
  | AppDocumentReceived u8 node_id u64 bool
  | MeshStateChanged nat nat
  | AllPeersAcked nat
  | PeerE2eeEstablished node_id
  | PeerE2eeClosed node_id
  | PeerE2eeMessageReceived node_id bytes
  | PeerE2eeFailed node_id string
  | SecurityViolation security_violation_kind "string option"
  | MessageRelayed node_id nat u8
  | DuplicateMessageDropped node_id u32
  | MessageTtlExpired node_id u8

text \<open>
  Observers are shared pointers, compared by address; here they are numbers. A notification
  reaches every registered observer, in the order of registration.
\<close>

type_synonym observer_manager = "nat list"

definition observers_add :: "observer_manager \<Rightarrow> nat \<Rightarrow> observer_manager" where
  "observers_add obs i = obs @ [i]"

definition observers_remove :: "observer_manager \<Rightarrow> nat \<Rightarrow> observer_manager" where
  "observers_remove obs i = filter (\<lambda>j. j \<noteq> i) obs"

definition observers_notify :: "observer_manager \<Rightarrow> peat_event \<Rightarrow> (nat \<times> peat_event) list" where
  "observers_notify obs e = map (\<lambda>i. (i, e)) obs"

section \<open>Configuration\<close>

record mesh_config =
  mc_node_id :: node_id
  mc_callsign :: bytes
  mc_mesh_id :: string
  mc_peripheral_type :: peripheral_type
  mc_peer_config :: peer_manager_config
  mc_sync_interval_ms :: u64
  mc_auto_broadcast_events :: bool
  mc_encryption_secret :: "bytes option"
  mc_strict_encryption :: bool
  mc_enable_relay :: bool
  mc_max_relay_hops :: u8
  mc_relay_fanout :: nat
  mc_seen_cache_ttl_ms :: u64

definition mesh_config_new :: "node_id \<Rightarrow> bytes \<Rightarrow> string \<Rightarrow> mesh_config" where
  "mesh_config_new n cs mesh =
     \<lparr>mc_node_id = n, mc_callsign = cs, mc_mesh_id = mesh, mc_peripheral_type = SoldierSensor,
      mc_peer_config = peer_manager_config_default\<lparr>pmc_mesh_id := mesh\<rparr>,
      mc_sync_interval_ms = 5000, mc_auto_broadcast_events = True, mc_encryption_secret = None,
      mc_strict_encryption = False, mc_enable_relay = False, mc_max_relay_hops = DEFAULT_MAX_HOPS,
      mc_relay_fanout = 2, mc_seen_cache_ttl_ms = DEFAULT_SEEN_TTL_MS\<rparr>"

definition config_with_encryption :: "mesh_config \<Rightarrow> bytes \<Rightarrow> mesh_config" where
  "config_with_encryption c secret = c\<lparr>mc_encryption_secret := Some secret\<rparr>"

definition config_with_peripheral_type :: "mesh_config \<Rightarrow> peripheral_type \<Rightarrow> mesh_config" where
  "config_with_peripheral_type c t = c\<lparr>mc_peripheral_type := t\<rparr>"

definition config_with_sync_interval :: "mesh_config \<Rightarrow> u64 \<Rightarrow> mesh_config" where
  "config_with_sync_interval c i = c\<lparr>mc_sync_interval_ms := i\<rparr>"

definition config_with_peer_timeout :: "mesh_config \<Rightarrow> u64 \<Rightarrow> mesh_config" where
  "config_with_peer_timeout c t = c\<lparr>mc_peer_config := (mc_peer_config c)\<lparr>peer_timeout_ms := t\<rparr>\<rparr>"

definition config_with_max_peers :: "mesh_config \<Rightarrow> nat \<Rightarrow> mesh_config" where
  "config_with_max_peers c n = c\<lparr>mc_peer_config := (mc_peer_config c)\<lparr>max_peers := n\<rparr>\<rparr>"

definition config_with_strict_encryption :: "mesh_config \<Rightarrow> mesh_config" where
  "config_with_strict_encryption c = c\<lparr>mc_strict_encryption := True\<rparr>"

definition config_with_relay :: "mesh_config \<Rightarrow> mesh_config" where
  "config_with_relay c = c\<lparr>mc_enable_relay := True\<rparr>"

definition config_with_max_relay_hops :: "mesh_config \<Rightarrow> u8 \<Rightarrow> mesh_config" where
  "config_with_max_relay_hops c h = c\<lparr>mc_max_relay_hops := h\<rparr>"

definition config_with_relay_fanout :: "mesh_config \<Rightarrow> nat \<Rightarrow> mesh_config" where
  "config_with_relay_fanout c n = c\<lparr>mc_relay_fanout := max n 1\<rparr>"

definition config_with_seen_cache_ttl :: "mesh_config \<Rightarrow> u64 \<Rightarrow> mesh_config" where
  "config_with_seen_cache_ttl c t = c\<lparr>mc_seen_cache_ttl_ms := t\<rparr>"

section \<open>The state of a node\<close>

record peat_env =
  pe_chat :: bool
  pe_crypto :: crypto
  pe_sig :: sig_crypto
  pe_usize :: nat
  pe_seen_iter :: "seen_list \<Rightarrow> seen_list"
  pe_seed :: "nat \<Rightarrow> u64"

type_synonym app_key = "u8 \<times> u32 \<times> u64"

record 'd peat_mesh =
  m_config :: mesh_config
  m_peers :: peer_manager
  m_sync :: document_sync
  m_observers :: observer_manager
  m_last_sync_ms :: u32
  m_last_cleanup_ms :: u32
  m_key :: "bytes option"
  m_sessions :: "session_manager option"
  m_graph :: connection_graph
  m_seen :: seen_cache
  m_fanout :: nat
  m_delta :: delta_encoder
  m_identity :: "device_identity option"
  m_registry :: identity_registry
  m_peripherals :: "(node_id, peripheral) btree_map"
  m_handlers :: "'d document_registry"
  m_documents :: "(app_key, 'd) btree_map"

definition peat_mesh_build :: "peat_env \<Rightarrow> mesh_config \<Rightarrow> device_identity option \<Rightarrow> 'd peat_mesh" where
  "peat_mesh_build E c i =
     \<lparr>m_config = c,
      m_peers = peer_manager_new (mc_node_id c) (mc_peer_config c),
      m_sync = sync_with_peripheral_type (mc_node_id c) (mc_callsign c) (mc_peripheral_type c),
      m_observers = [], m_last_sync_ms = 0, m_last_cleanup_ms = 0,
      m_key = map_option (mesh_key_from_shared_secret (pe_crypto E) (mc_mesh_id c)) (mc_encryption_secret c),
      m_sessions = None,
      m_graph = graph_with_config (pmc_rssi_degraded_threshold (mc_peer_config c)) (pmc_lost_timeout_ms (mc_peer_config c)),
      m_seen = seen_cache_with_ttl (mc_seen_cache_ttl_ms c),
      m_fanout = random_fanout_new (mc_relay_fanout c),
      m_delta = delta_encoder_new (mc_node_id c),
      m_identity = i, m_registry = registry_new, m_peripherals = [], m_handlers = [], m_documents = []\<rparr>"

definition peat_mesh_new :: "peat_env \<Rightarrow> mesh_config \<Rightarrow> 'd peat_mesh" where
  "peat_mesh_new E c = peat_mesh_build E c None"

definition peat_mesh_with_identity :: "peat_env \<Rightarrow> mesh_config \<Rightarrow> device_identity \<Rightarrow> 'd peat_mesh" where
  "peat_mesh_with_identity E c i =
     peat_mesh_build E (c\<lparr>mc_node_id := identity_node_id (pe_sig E) i\<rparr>) (Some i)"

definition peat_mesh_from_genesis :: "peat_env \<Rightarrow> mesh_genesis \<Rightarrow> device_identity \<Rightarrow> bytes \<Rightarrow> 'd peat_mesh" where
  "peat_mesh_from_genesis E g i cs =
     peat_mesh_with_identity E
       (config_with_encryption (mesh_config_new (identity_node_id (pe_sig E) i) cs (mesh_id (pe_sig E) g))
          (encryption_secret (pe_sig E) g)) i"

definition peat_mesh_from_persisted :: "peat_env \<Rightarrow> persisted_state \<Rightarrow> bytes \<Rightarrow> (persistence_error + 'd peat_mesh) outcome" where
  "peat_mesh_from_persisted E s cs =
     (case restore_identity s of
        Inl e \<Rightarrow> ret (Inl e)
      | Inr i \<Rightarrow> do {
          g \<leftarrow> restore_genesis s;
          let mesh = (case g of
                        Some g \<Rightarrow> peat_mesh_from_genesis E g i cs
                      | None \<Rightarrow> peat_mesh_with_identity E
                                 (mesh_config_new (identity_node_id (pe_sig E) i) cs ''RESTORED'') i);
          r \<leftarrow> restore_registry (pe_usize E) s;
          ret (Inr (mesh\<lparr>m_registry := r\<rparr>))
        })"

text \<open>The order in which the registry's hash map lists its entries is the argument \<open>iter\<close>.\<close>

definition to_persisted_state ::
  "peat_env \<Rightarrow> ((node_id \<times> identity_record) list \<Rightarrow> (node_id \<times> identity_record) list) \<Rightarrow> 'd peat_mesh \<Rightarrow>
   mesh_genesis option \<Rightarrow> persisted_state option" where
  "to_persisted_state E iter m g =
     map_option (\<lambda>i. persisted_with_registry (pe_sig E) i g (iter (known (m_registry m)))) (m_identity m)"

definition m_node_id :: "'d peat_mesh \<Rightarrow> node_id" where
  "m_node_id m = mc_node_id (m_config m)"

definition mesh_state_changed :: "'d peat_mesh \<Rightarrow> peat_event" where
  "mesh_state_changed m = MeshStateChanged (length (pm_peers (m_peers m))) (connected_count (m_peers m))"

definition add_observer :: "'d peat_mesh \<Rightarrow> nat \<Rightarrow> 'd peat_mesh" where
  "add_observer m i = m\<lparr>m_observers := observers_add (m_observers m) i\<rparr>"

definition remove_observer :: "'d peat_mesh \<Rightarrow> nat \<Rightarrow> 'd peat_mesh" where
  "remove_observer m i = m\<lparr>m_observers := observers_remove (m_observers m) i\<rparr>"

section \<open>Mesh-wide encryption\<close>

definition ENCRYPTED_MARKER :: u8 where "ENCRYPTED_MARKER = 0xAE"
definition PEER_E2EE_MARKER :: u8 where "PEER_E2EE_MARKER = 0xAF"
definition KEY_EXCHANGE_MARKER :: u8 where "KEY_EXCHANGE_MARKER = 0xB0"

lemmas mesh_markers = ENCRYPTED_MARKER_def PEER_E2EE_MARKER_def KEY_EXCHANGE_MARKER_def
  RELAY_ENVELOPE_MARKER_def DELTA_DOCUMENT_MARKER_def

definition is_encryption_enabled :: "'d peat_mesh \<Rightarrow> bool" where
  "is_encryption_enabled m \<longleftrightarrow> m_key m \<noteq> None"

definition is_strict_encryption_enabled :: "'d peat_mesh \<Rightarrow> bool" where
  "is_strict_encryption_enabled m \<longleftrightarrow> mc_strict_encryption (m_config m) \<and> m_key m \<noteq> None"

definition enable_encryption :: "peat_env \<Rightarrow> 'd peat_mesh \<Rightarrow> bytes \<Rightarrow> 'd peat_mesh" where
  "enable_encryption E m secret =
     m\<lparr>m_key := Some (mesh_key_from_shared_secret (pe_crypto E) (mc_mesh_id (m_config m)) secret)\<rparr>"

definition disable_encryption :: "'d peat_mesh \<Rightarrow> 'd peat_mesh" where
  "disable_encryption m = m\<lparr>m_key := None\<rparr>"

definition encrypt_document :: "peat_env \<Rightarrow> 'd peat_mesh \<Rightarrow> bytes \<Rightarrow> bytes \<Rightarrow> bytes" where
  "encrypt_document E m nonce plaintext =
     (case m_key m of
        Some key \<Rightarrow>
          (case mesh_encrypt_to_bytes (pe_crypto E) key nonce plaintext of
             Inr ciphertext \<Rightarrow> [ENCRYPTED_MARKER, 0x00] @ ciphertext
           | Inl e \<Rightarrow> plaintext)
      | None \<Rightarrow> plaintext)"

definition decrypt_document :: "peat_env \<Rightarrow> 'd peat_mesh \<Rightarrow> bytes \<Rightarrow> string option \<Rightarrow> peat_event list \<times> bytes option" where
  "decrypt_document E m data source_hint =
     (if length data \<ge> 2 \<and> hd data = ENCRYPTED_MARKER then
        (case m_key m of
           Some key \<Rightarrow>
             (case mesh_decrypt_from_bytes (pe_crypto E) key (drop 2 data) of
                Inr plaintext \<Rightarrow> ([], Some plaintext)
              | Inl e \<Rightarrow> ([SecurityViolation KindDecryptionFailed source_hint], None))
         | None \<Rightarrow> ([], None))
      else if is_strict_encryption_enabled m then ([SecurityViolation UnencryptedInStrictMode source_hint], None)
      else ([], Some data))"

definition decrypt_only :: "peat_env \<Rightarrow> 'd peat_mesh \<Rightarrow> bytes \<Rightarrow> peat_event list \<times> bytes option" where
  "decrypt_only E m data = decrypt_document E m data None"

section \<open>Identity\<close>

definition mesh_public_key :: "peat_env \<Rightarrow> 'd peat_mesh \<Rightarrow> bytes option" where
  "mesh_public_key E m = map_option (public_key (pe_sig E)) (m_identity m)"

definition mesh_create_attestation :: "peat_env \<Rightarrow> 'd peat_mesh \<Rightarrow> u64 \<Rightarrow> identity_attestation option" where
  "mesh_create_attestation E m now = map_option (\<lambda>i. create_attestation (pe_sig E) i now) (m_identity m)"

definition verify_peer_identity :: "peat_env \<Rightarrow> 'd peat_mesh \<Rightarrow> identity_attestation \<Rightarrow> 'd peat_mesh \<times> registry_result" where
  "verify_peer_identity E m a =
     (let (r, res) = verify_or_register (pe_sig E) (m_registry m) a in (m\<lparr>m_registry := r\<rparr>, res))"

definition peer_public_key_of :: "'d peat_mesh \<Rightarrow> node_id \<Rightarrow> bytes option" where
  "peer_public_key_of m n = get_public_key (m_registry m) n"

definition pre_register_peer_identity :: "'d peat_mesh \<Rightarrow> node_id \<Rightarrow> bytes \<Rightarrow> u64 \<Rightarrow> 'd peat_mesh" where
  "pre_register_peer_identity m n pk now = m\<lparr>m_registry := pre_register (m_registry m) n pk now\<rparr>"

definition forget_peer_identity :: "'d peat_mesh \<Rightarrow> node_id \<Rightarrow> 'd peat_mesh" where
  "forget_peer_identity m n = m\<lparr>m_registry := fst (registry_remove (m_registry m) n)\<rparr>"

definition mesh_sign :: "peat_env \<Rightarrow> 'd peat_mesh \<Rightarrow> bytes \<Rightarrow> bytes option" where
  "mesh_sign E m data = map_option (\<lambda>i. identity_sign (pe_sig E) i data) (m_identity m)"

definition verify_peer_signature :: "peat_env \<Rightarrow> 'd peat_mesh \<Rightarrow> node_id \<Rightarrow> bytes \<Rightarrow> bytes \<Rightarrow> bool" where
  "verify_peer_signature E m n data signature =
     (case peer_public_key_of m n of Some pk \<Rightarrow> verify_signature (pe_sig E) pk data signature | None \<Rightarrow> False)"

section \<open>Multi-hop relay\<close>

definition mesh_enable_relay :: "'d peat_mesh \<Rightarrow> 'd peat_mesh" where
  "mesh_enable_relay m = m\<lparr>m_config := (m_config m)\<lparr>mc_enable_relay := True\<rparr>\<rparr>"

definition mesh_disable_relay :: "'d peat_mesh \<Rightarrow> 'd peat_mesh" where
  "mesh_disable_relay m = m\<lparr>m_config := (m_config m)\<lparr>mc_enable_relay := False\<rparr>\<rparr>"

definition has_seen_message :: "'d peat_mesh \<Rightarrow> msg_id \<Rightarrow> bool" where
  "has_seen_message m mid = has_seen (m_seen m) mid"

definition mark_message_seen :: "peat_env \<Rightarrow> 'd peat_mesh \<Rightarrow> msg_id \<Rightarrow> node_id \<Rightarrow> u64 \<Rightarrow> 'd peat_mesh \<times> bool" where
  "mark_message_seen E m mid origin now =
     (let (c, is_new) = check_and_mark True (pe_seen_iter E) (m_seen m) mid origin now in (m\<lparr>m_seen := c\<rparr>, is_new))"

definition clear_seen_cache :: "'d peat_mesh \<Rightarrow> 'd peat_mesh" where
  "clear_seen_cache m = m\<lparr>m_seen := seen_clear (m_seen m)\<rparr>"

definition wrap_for_relay :: "'d peat_mesh \<Rightarrow> msg_id \<Rightarrow> bytes \<Rightarrow> bytes" where
  "wrap_for_relay m mid payload =
     relay_envelope_encode (with_max_hops (relay_envelope_broadcast mid (m_node_id m) payload)
       (mc_max_relay_hops (m_config m)))"

definition get_relay_targets :: "peat_env \<Rightarrow> 'd peat_mesh \<Rightarrow> node_id option \<Rightarrow> peat_peer list" where
  "get_relay_targets E m exclude =
     (let connected = pm_get_connected_peers (m_peers m);
          filtered = (case exclude of Some x \<Rightarrow> filter (\<lambda>p. pp_node_id p \<noteq> x) connected | None \<Rightarrow> connected)
      in random_select (pe_usize E) (pe_seed E) (m_fanout m) filtered)"

record relay_decision =
  rd_payload :: bytes
  rd_origin_node :: node_id
  rd_hop_count :: u8
  rd_should_relay :: bool
  rd_relay_envelope :: "relay_envelope option"

definition rd_relay_data :: "relay_decision \<Rightarrow> bytes option" where
  "rd_relay_data d = map_option relay_envelope_encode (rd_relay_envelope d)"

definition duplicate_dropped :: "'d peat_mesh \<Rightarrow> relay_envelope \<Rightarrow> peat_event" where
  "duplicate_dropped m env =
     DuplicateMessageDropped (env_origin_node env)
       (case get_stats (m_seen m) (env_message_id env) of Some (_, n, _) \<Rightarrow> n | None \<Rightarrow> 1)"

text \<open>The update of the graph of indirect peers, made when the origin is neither the sender nor this node.\<close>

definition note_indirect :: "'d peat_mesh \<Rightarrow> node_id \<Rightarrow> relay_envelope \<Rightarrow> u64 \<Rightarrow> 'd peat_mesh" where
  "note_indirect m source env now =
     (if env_origin_node env \<noteq> source \<and> env_origin_node env \<noteq> m_node_id m
      then m\<lparr>m_graph := fst (on_relay_received (m_graph m) source (env_origin_node env) (hop_count env) now)\<rparr>
      else m)"

definition process_relay_envelope ::
  "peat_env \<Rightarrow> 'd peat_mesh \<Rightarrow> bytes \<Rightarrow> node_id \<Rightarrow> u64 \<Rightarrow>
   ('d peat_mesh \<times> peat_event list \<times> relay_decision option) outcome" where
  "process_relay_envelope E m data source now = do {
     decoded \<leftarrow> relay_envelope_decode (pe_usize E) data;
     (case decoded of
        None \<Rightarrow> ret (m, [], None)
      | Some env \<Rightarrow>
          let (m1, is_new) = mark_message_seen E (note_indirect m source env now) (env_message_id env) (env_origin_node env) now
          in if \<not> is_new then ret (m1, [duplicate_dropped m1 env], None)
             else if \<not> can_relay env then
               ret (m1, [MessageTtlExpired (env_origin_node env) (hop_count env)],
                 Some \<lparr>rd_payload = env_payload env, rd_origin_node = env_origin_node env, rd_hop_count = hop_count env,
                       rd_should_relay = False, rd_relay_envelope = None\<rparr>)
             else
               ret (m1, [],
                 Some \<lparr>rd_payload = env_payload env, rd_origin_node = env_origin_node env, rd_hop_count = hop_count env,
                       rd_should_relay = mc_enable_relay (m_config m),
                       rd_relay_envelope = (if mc_enable_relay (m_config m) then relay env else None)\<rparr>))
   }"

definition mesh_build_document :: "peat_env \<Rightarrow> 'd peat_mesh \<Rightarrow> bytes \<Rightarrow> bytes" where
  "mesh_build_document E m nonce = encrypt_document E m nonce (build_document (pe_chat E) (m_sync m))"

definition build_relay_document :: "peat_env \<Rightarrow> 'd peat_mesh \<Rightarrow> bytes \<Rightarrow> msg_id \<Rightarrow> bytes" where
  "build_relay_document E m nonce mid = wrap_for_relay m mid (mesh_build_document E m nonce)"

section \<open>Application documents\<close>

definition store_app_document_boxed :: "'d peat_mesh \<Rightarrow> u8 \<Rightarrow> u32 \<Rightarrow> u64 \<Rightarrow> 'd \<Rightarrow> 'd peat_mesh \<times> bool" where
  "store_app_document_boxed m t source ts doc =
     (case bt_get (m_documents m) (t, source, ts) of
        Some existing \<Rightarrow>
          let (d, changed) = registry_merge (m_handlers m) t existing doc
          in (m\<lparr>m_documents := bt_insert (t, source, ts) d (m_documents m)\<rparr>, changed)
      | None \<Rightarrow> (m\<lparr>m_documents := bt_insert (t, source, ts) doc (m_documents m)\<rparr>, True))"

definition store_app_document :: "'t document_type \<Rightarrow> ('t \<Rightarrow> 'd) \<Rightarrow> 'd peat_mesh \<Rightarrow> 't \<Rightarrow> 'd peat_mesh \<times> bool" where
  "store_app_document T up m doc =
     (let (source, ts) = dt_identity T doc in store_app_document_boxed m (TYPE_ID T) source ts (up doc))"

definition get_app_document :: "u8 \<Rightarrow> ('d \<Rightarrow> 't option) \<Rightarrow> 'd peat_mesh \<Rightarrow> u32 \<Rightarrow> u64 \<Rightarrow> 't option" where
  "get_app_document t down m source ts = Option.bind (bt_get (m_documents m) (t, source, ts)) down"

definition app_document_keys :: "'d peat_mesh \<Rightarrow> u8 \<Rightarrow> (u32 \<times> u64) list" where
  "app_document_keys m t = map (\<lambda>((_, s, ts), _). (s, ts)) (filter (\<lambda>((t', _, _), _). t' = t) (m_documents m))"

definition app_document_delta_ops ::
  "((app_key \<times> 'd) list \<Rightarrow> (app_key \<times> 'd) list) \<Rightarrow> 'd peat_mesh \<Rightarrow> app_operation list" where
  "app_document_delta_ops iter m =
     List.map_filter (\<lambda>((t, _, _), doc). registry_to_delta_op (m_handlers m) t doc) (iter (m_documents m))"

section \<open>Delta documents\<close>

definition register_peer_for_delta :: "'d peat_mesh \<Rightarrow> node_id \<Rightarrow> 'd peat_mesh" where
  "register_peer_for_delta m n = m\<lparr>m_delta := enc_add_peer (m_delta m) n\<rparr>"

definition unregister_peer_for_delta :: "'d peat_mesh \<Rightarrow> node_id \<Rightarrow> 'd peat_mesh" where
  "unregister_peer_for_delta m n = m\<lparr>m_delta := enc_remove_peer (m_delta m) n\<rparr>"

definition reset_peer_delta_state :: "'d peat_mesh \<Rightarrow> node_id \<Rightarrow> 'd peat_mesh" where
  "reset_peer_delta_state m n = m\<lparr>m_delta := reset_peer (m_delta m) n\<rparr>"

definition record_delta_sent :: "'d peat_mesh \<Rightarrow> node_id \<Rightarrow> nat \<Rightarrow> 'd peat_mesh" where
  "record_delta_sent m n k = m\<lparr>m_delta := record_sent (m_delta m) n k\<rparr>"

definition record_delta_received :: "'d peat_mesh \<Rightarrow> node_id \<Rightarrow> nat \<Rightarrow> u64 \<Rightarrow> 'd peat_mesh" where
  "record_delta_received m n k ts = m\<lparr>m_delta := record_received (m_delta m) n k ts\<rparr>"

definition peer_delta_stats :: "'d peat_mesh \<Rightarrow> node_id \<Rightarrow> (u64 \<times> u64 \<times> u32) option" where
  "peer_delta_stats m n =
     map_option (\<lambda>s. (bytes_sent s, bytes_received s, sync_count s)) (get_peer_state (m_delta m) n)"

text \<open>
  The operations that describe the whole state of the node. \<open>stamp\<close> gives the time stamp of a
  counter operation, \<open>fallback\<close> that of a peripheral without an event: the two builders differ
  only there.
\<close>

definition emergency_operations :: "emergency_event \<Rightarrow> operation list" where
  "emergency_operations e =
     OpSetEmergency (source_node e) (emergency_timestamp e) (all_nodes e)
     # map (\<lambda>n. OpAckEmergency n (emergency_timestamp e)) (acked_nodes e)"

definition state_operations ::
  "(u64 \<Rightarrow> u64) \<Rightarrow> u64 \<Rightarrow> ((app_key \<times> 'd) list \<Rightarrow> (app_key \<times> 'd) list) \<Rightarrow> 'd peat_mesh \<Rightarrow> operation list" where
  "state_operations stamp fallback iter m =
     map (\<lambda>(n, count). OpIncrementCounter 0 n count (stamp count)) (counter_entries (m_sync m))
     @ [OpUpdatePeripheral (sync_peripheral (m_sync m))
          (case last_event (sync_peripheral (m_sync m)) of Some e \<Rightarrow> event_timestamp e | None \<Rightarrow> fallback)]
     @ (case sync_emergency (m_sync m) of Some e \<Rightarrow> emergency_operations e | None \<Rightarrow> [])
     @ map OpApp (app_document_delta_ops iter m)"

definition delta_of :: "'d peat_mesh \<Rightarrow> u64 \<Rightarrow> operation list \<Rightarrow> bytes" where
  "delta_of m now ops =
     delta_document_encode id (fold (\<lambda>op d. add_operation d op) ops (delta_document_new (m_node_id m) now))"

definition build_delta_document_for_peer ::
  "peat_env \<Rightarrow> ((app_key \<times> 'd) list \<Rightarrow> (app_key \<times> 'd) list) \<Rightarrow> 'd peat_mesh \<Rightarrow> bytes \<Rightarrow> node_id \<Rightarrow> u64 \<Rightarrow>
   'd peat_mesh \<times> bytes option" where
  "build_delta_document_for_peer E iter m nonce peer now =
     (let ops = state_operations (\<lambda>count. count) 1 iter m;
          filtered = (case get_peer_state (m_delta m) peer of
                        Some s \<Rightarrow> filter (\<lambda>op. needs_send s (operation_key op) (operation_timestamp op)) ops
                      | None \<Rightarrow> ops)
      in if filtered = [] then (m, None)
         else
           let d1 = (case bt_get (enc_peers (m_delta m)) peer of
                       Some s \<Rightarrow> (m_delta m)\<lparr>enc_peers := bt_insert peer
                                    (fold (\<lambda>op s. peer_mark_sent s (operation_key op) (operation_timestamp op)) filtered s)
                                    (enc_peers (m_delta m))\<rparr>
                     | None \<Rightarrow> m_delta m);
               result = encrypt_document E m nonce (delta_of m now filtered)
           in (m\<lparr>m_delta := record_sent d1 peer (length result)\<rparr>, Some result))"

definition build_full_delta_document ::
  "peat_env \<Rightarrow> ((app_key \<times> 'd) list \<Rightarrow> (app_key \<times> 'd) list) \<Rightarrow> 'd peat_mesh \<Rightarrow> bytes \<Rightarrow> u64 \<Rightarrow> bytes" where
  "build_full_delta_document E iter m nonce now =
     encrypt_document E m nonce (delta_of m now (state_operations (\<lambda>count. now) now iter m))"

section \<open>End-to-end encrypted sessions\<close>

definition enable_peer_e2ee :: "peat_env \<Rightarrow> 'd peat_mesh \<Rightarrow> bytes \<Rightarrow> 'd peat_mesh" where
  "enable_peer_e2ee E m secret =
     (case m_sessions m of
        None \<Rightarrow> m\<lparr>m_sessions := Some (session_manager_with_key (m_node_id m) (identity_from_secret_bytes (pe_crypto E) secret))\<rparr>
      | Some _ \<Rightarrow> m)"

definition disable_peer_e2ee :: "'d peat_mesh \<Rightarrow> 'd peat_mesh" where
  "disable_peer_e2ee m = m\<lparr>m_sessions := None\<rparr>"

definition initiate_peer_e2ee :: "'d peat_mesh \<Rightarrow> node_id \<Rightarrow> u64 \<Rightarrow> 'd peat_mesh \<times> bytes option" where
  "initiate_peer_e2ee m n now =
     (case m_sessions m of
        None \<Rightarrow> (m, None)
      | Some s \<Rightarrow>
          let (s1, k) = initiate_session s n now
          in (m\<lparr>m_sessions := Some s1\<rparr>, Some ([KEY_EXCHANGE_MARKER, 0x00] @ key_exchange_encode k)))"

definition has_peer_e2ee_session :: "'d peat_mesh \<Rightarrow> node_id \<Rightarrow> bool" where
  "has_peer_e2ee_session m n = (case m_sessions m of None \<Rightarrow> False | Some s \<Rightarrow> has_session s n)"

definition send_peer_e2ee ::
  "peat_env \<Rightarrow> 'd peat_mesh \<Rightarrow> bytes \<Rightarrow> node_id \<Rightarrow> bytes \<Rightarrow> u64 \<Rightarrow> 'd peat_mesh \<times> bytes option" where
  "send_peer_e2ee E m nonce n plaintext now =
     (case m_sessions m of
        None \<Rightarrow> (m, None)
      | Some s \<Rightarrow>
          (case encrypt_for_peer (pe_crypto E) s n nonce plaintext now of
             (s1, Inr msg) \<Rightarrow> (m\<lparr>m_sessions := Some s1\<rparr>, Some ([PEER_E2EE_MARKER, 0x00] @ peer_message_encode msg))
           | (s1, Inl e) \<Rightarrow> (m\<lparr>m_sessions := Some s1\<rparr>, None)))"

definition close_peer_e2ee :: "'d peat_mesh \<Rightarrow> node_id \<Rightarrow> 'd peat_mesh \<times> peat_event list" where
  "close_peer_e2ee m n =
     (case m_sessions m of
        None \<Rightarrow> (m, [])
      | Some s \<Rightarrow> (m\<lparr>m_sessions := Some (close_session s n)\<rparr>, [PeerE2eeClosed n]))"

definition mesh_handle_key_exchange ::
  "peat_env \<Rightarrow> 'd peat_mesh \<Rightarrow> bytes \<Rightarrow> u64 \<Rightarrow> ('d peat_mesh \<times> peat_event list \<times> bytes option) outcome" where
  "mesh_handle_key_exchange E m data now =
     (if length data < 2 \<or> hd data \<noteq> KEY_EXCHANGE_MARKER then ret (m, [], None)
      else do {
        payload \<leftarrow> slice_from data 2;
        k \<leftarrow> key_exchange_decode payload;
        (case (k, m_sessions m) of
           (Some msg, Some s) \<Rightarrow>
             (case handle_key_exchange (pe_crypto E) s msg now of
                (s1, None) \<Rightarrow> ret (m\<lparr>m_sessions := Some s1\<rparr>, [], None)
              | (s1, Some (response, established)) \<Rightarrow>
                  ret (m\<lparr>m_sessions := Some s1\<rparr>, if established then [PeerE2eeEstablished (ke_sender msg)] else [],
                    Some ([KEY_EXCHANGE_MARKER, 0x00] @ key_exchange_encode response)))
         | _ \<Rightarrow> ret (m, [], None))
      })"

definition handle_peer_e2ee_message ::
  "peat_env \<Rightarrow> 'd peat_mesh \<Rightarrow> bytes \<Rightarrow> u64 \<Rightarrow> ('d peat_mesh \<times> peat_event list \<times> bytes option) outcome" where
  "handle_peer_e2ee_message E m data now =
     (if length data < 2 \<or> hd data \<noteq> PEER_E2EE_MARKER then ret (m, [], None)
      else do {
        payload \<leftarrow> slice_from data 2;
        k \<leftarrow> peer_message_decode payload;
        (case (k, m_sessions m) of
           (Some msg, Some s) \<Rightarrow>
             (case decrypt_from_peer (pe_crypto E) s msg now of
                (s1, Inr plaintext) \<Rightarrow>
                  ret (m\<lparr>m_sessions := Some s1\<rparr>, [PeerE2eeMessageReceived (pm_sender msg) plaintext], Some plaintext)
              | (s1, Inl e) \<Rightarrow> ret (m\<lparr>m_sessions := Some s1\<rparr>, [], None))
         | _ \<Rightarrow> ret (m, [], None))
      })"

section \<open>Calls of the application\<close>

definition mesh_send_emergency :: "peat_env \<Rightarrow> 'd peat_mesh \<Rightarrow> bytes \<Rightarrow> u64 \<Rightarrow> 'd peat_mesh \<times> peat_event list \<times> bytes" where
  "mesh_send_emergency E m nonce ts =
     (let (s, data) = send_emergency (pe_chat E) (m_sync m) ts; m1 = m\<lparr>m_sync := s\<rparr>
      in (m1, [mesh_state_changed m1], encrypt_document E m1 nonce data))"

definition mesh_send_ack :: "peat_env \<Rightarrow> 'd peat_mesh \<Rightarrow> bytes \<Rightarrow> u64 \<Rightarrow> 'd peat_mesh \<times> peat_event list \<times> bytes" where
  "mesh_send_ack E m nonce ts =
     (let (s, data) = send_ack (pe_chat E) (m_sync m) ts; m1 = m\<lparr>m_sync := s\<rparr>
      in (m1, [mesh_state_changed m1], encrypt_document E m1 nonce data))"

definition broadcast_bytes :: "peat_env \<Rightarrow> 'd peat_mesh \<Rightarrow> bytes \<Rightarrow> bytes \<Rightarrow> bytes" where
  "broadcast_bytes E m nonce payload = encrypt_document E m nonce payload"

definition mesh_start_emergency ::
  "peat_env \<Rightarrow> 'd peat_mesh \<Rightarrow> bytes \<Rightarrow> u64 \<Rightarrow> u32 list \<Rightarrow> 'd peat_mesh \<times> peat_event list \<times> bytes" where
  "mesh_start_emergency E m nonce ts known_peers =
     (let (s, data) = start_emergency (pe_chat E) (m_sync m) ts known_peers; m1 = m\<lparr>m_sync := s\<rparr>
      in (m1, [mesh_state_changed m1], encrypt_document E m1 nonce data))"

definition start_emergency_with_known_peers ::
  "peat_env \<Rightarrow> 'd peat_mesh \<Rightarrow> bytes \<Rightarrow> u64 \<Rightarrow> 'd peat_mesh \<times> peat_event list \<times> bytes" where
  "start_emergency_with_known_peers E m nonce ts =
     mesh_start_emergency E m nonce ts (map (\<lambda>(n, p). pp_node_id p) (pm_peers (m_peers m)))"

definition mesh_ack_emergency ::
  "peat_env \<Rightarrow> 'd peat_mesh \<Rightarrow> bytes \<Rightarrow> u64 \<Rightarrow> 'd peat_mesh \<times> peat_event list \<times> bytes option" where
  "mesh_ack_emergency E m nonce ts =
     (let (s, result) = ack_emergency (pe_chat E) (m_sync m) ts; m1 = m\<lparr>m_sync := s\<rparr>
      in (m1, if result \<noteq> None then [mesh_state_changed m1] else [], map_option (encrypt_document E m1 nonce) result))"

text \<open>\<open>build_document\<close> already encrypts, so chat messages are encrypted twice, with two nonces.\<close>

definition mesh_send_chat ::
  "peat_env \<Rightarrow> 'd peat_mesh \<Rightarrow> bytes \<Rightarrow> bytes \<Rightarrow> bytes \<Rightarrow> bytes \<Rightarrow> u64 \<Rightarrow> 'd peat_mesh \<times> bytes option" where
  "mesh_send_chat E m nonce1 nonce2 who txt ts =
     (let (s, added) = sync_add_chat_message (m_sync m) who txt ts; m1 = m\<lparr>m_sync := s\<rparr>
      in (m1, if added then Some (encrypt_document E m1 nonce2 (mesh_build_document E m1 nonce1)) else None))"

definition mesh_send_chat_reply ::
  "peat_env \<Rightarrow> 'd peat_mesh \<Rightarrow> bytes \<Rightarrow> bytes \<Rightarrow> bytes \<Rightarrow> bytes \<Rightarrow> u32 \<Rightarrow> u64 \<Rightarrow> u64 \<Rightarrow> 'd peat_mesh \<times> bytes option" where
  "mesh_send_chat_reply E m nonce1 nonce2 who txt rn rts ts =
     (let (s, added) = sync_add_chat_reply (m_sync m) who txt rn rts ts; m1 = m\<lparr>m_sync := s\<rparr>
      in (m1, if added then Some (encrypt_document E m1 nonce2 (mesh_build_document E m1 nonce1)) else None))"

text \<open>The setters pass their arguments on to the document.\<close>

definition mesh_clear_event :: "'d peat_mesh \<Rightarrow> 'd peat_mesh" where
  "mesh_clear_event m = m\<lparr>m_sync := sync_clear_event (m_sync m)\<rparr>"

definition mesh_clear_emergency :: "'d peat_mesh \<Rightarrow> 'd peat_mesh" where
  "mesh_clear_emergency m = m\<lparr>m_sync := clear_emergency (m_sync m)\<rparr>"

definition mesh_update_health :: "'d peat_mesh \<Rightarrow> u8 \<Rightarrow> 'd peat_mesh" where
  "mesh_update_health m b = m\<lparr>m_sync := update_health (m_sync m) b\<rparr>"

definition mesh_update_activity :: "'d peat_mesh \<Rightarrow> u8 \<Rightarrow> 'd peat_mesh" where
  "mesh_update_activity m a = m\<lparr>m_sync := update_activity (m_sync m) a\<rparr>"

definition mesh_update_health_full :: "'d peat_mesh \<Rightarrow> u8 \<Rightarrow> u8 \<Rightarrow> 'd peat_mesh" where
  "mesh_update_health_full m b a = m\<lparr>m_sync := update_health_full (m_sync m) b a\<rparr>"

definition mesh_update_heart_rate :: "'d peat_mesh \<Rightarrow> u8 \<Rightarrow> 'd peat_mesh" where
  "mesh_update_heart_rate m hr = m\<lparr>m_sync := update_heart_rate (m_sync m) hr\<rparr>"

definition mesh_update_location :: "'d peat_mesh \<Rightarrow> f32 \<Rightarrow> f32 \<Rightarrow> f32 option \<Rightarrow> 'd peat_mesh" where
  "mesh_update_location m lat lon alt = m\<lparr>m_sync := update_location (m_sync m) lat lon alt\<rparr>"

definition mesh_clear_location :: "'d peat_mesh \<Rightarrow> 'd peat_mesh" where
  "mesh_clear_location m = m\<lparr>m_sync := sync_clear_location (m_sync m)\<rparr>"

definition mesh_update_callsign :: "'d peat_mesh \<Rightarrow> bytes \<Rightarrow> 'd peat_mesh" where
  "mesh_update_callsign m cs = m\<lparr>m_sync := update_callsign (m_sync m) cs\<rparr>"

definition mesh_set_peripheral_event :: "'d peat_mesh \<Rightarrow> event_type \<Rightarrow> u64 \<Rightarrow> 'd peat_mesh" where
  "mesh_set_peripheral_event m t ts = m\<lparr>m_sync := set_peripheral_event (m_sync m) t ts\<rparr>"

definition mesh_clear_peripheral_event :: "'d peat_mesh \<Rightarrow> 'd peat_mesh" where
  "mesh_clear_peripheral_event m = m\<lparr>m_sync := clear_peripheral_event (m_sync m)\<rparr>"

definition mesh_update_peripheral_state ::
  "'d peat_mesh \<Rightarrow> bytes \<Rightarrow> u8 \<Rightarrow> u8 option \<Rightarrow> f32 option \<Rightarrow> f32 option \<Rightarrow> f32 option \<Rightarrow> event_type option \<Rightarrow> u64 \<Rightarrow> 'd peat_mesh" where
  "mesh_update_peripheral_state m cs b hr lat lon alt evt ts =
     m\<lparr>m_sync := update_peripheral_state (m_sync m) cs b hr lat lon alt evt ts\<rparr>"

definition device_name_of :: "'d peat_mesh \<Rightarrow> string" where
  "device_name_of m = ''PEAT_'' @ mc_mesh_id (m_config m) @ ''-'' @ node_id_display (m_node_id m)"

definition get_peer_callsign :: "'d peat_mesh \<Rightarrow> node_id \<Rightarrow> bytes option" where
  "get_peer_callsign m n = map_option callsign_str (bt_get (m_peripherals m) n)"

section \<open>Canned messages\<close>

definition canned_message_id :: "u32 \<Rightarrow> u64 \<Rightarrow> msg_id" where
  "canned_message_id source ts = le32 source @ le64 ts @ replicate 4 0"

definition check_canned_message :: "'d peat_mesh \<Rightarrow> u32 \<Rightarrow> u64 \<Rightarrow> u64 \<Rightarrow> bool" where
  "check_canned_message m source ts ttl \<longleftrightarrow> \<not> has_seen (m_seen m) (canned_message_id source ts)"

definition mark_canned_message_seen :: "peat_env \<Rightarrow> u64 \<Rightarrow> 'd peat_mesh \<Rightarrow> u32 \<Rightarrow> u64 \<Rightarrow> 'd peat_mesh" where
  "mark_canned_message_seen E clock m source ts =
     m\<lparr>m_seen := fst (mark_seen True (pe_seen_iter E) (m_seen m) (canned_message_id source ts) source clock)\<rparr>"

section \<open>Callbacks of the platform\<close>

text \<open>
  The reasons for a disconnection of the observer interface and of the platform have the same
  cases; the code maps one to the other case by case, here both are \<open>link_loss_reason\<close>.
\<close>

definition on_ble_discovered ::
  "'d peat_mesh \<Rightarrow> string \<Rightarrow> string option \<Rightarrow> i8 \<Rightarrow> string option \<Rightarrow> u64 \<Rightarrow>
   'd peat_mesh \<times> peat_event list \<times> peat_peer option" where
  "on_ble_discovered m ident name rssi mesh now =
     (case pm_on_discovered (m_peers m) ident name rssi mesh now of
        (ps, None) \<Rightarrow> (m\<lparr>m_peers := ps\<rparr>, [], None)
      | (ps, Some (n, is_new)) \<Rightarrow>
          (case bt_get (pm_peers ps) n of
             None \<Rightarrow> (m\<lparr>m_peers := ps\<rparr>, [], None)
           | Some peer \<Rightarrow>
               let m1 = m\<lparr>m_peers := ps, m_graph := graph_on_discovered (m_graph m) n ident name mesh rssi now\<rparr>
               in (m1, if is_new then [PeerDiscovered peer, mesh_state_changed m1] else [], Some peer)))"

definition on_ble_connected :: "'d peat_mesh \<Rightarrow> string \<Rightarrow> u64 \<Rightarrow> 'd peat_mesh \<times> peat_event list \<times> node_id option" where
  "on_ble_connected m ident now =
     (case pm_on_connected (m_peers m) ident now of
        (ps, None) \<Rightarrow> (m\<lparr>m_peers := ps\<rparr>, [], None)
      | (ps, Some n) \<Rightarrow>
          let m1 = register_peer_for_delta (m\<lparr>m_peers := ps, m_graph := graph_on_connected (m_graph m) n now\<rparr>) n
          in (m1, [PeerConnected n, mesh_state_changed m1], Some n))"

definition drop_peer :: "u64 \<Rightarrow> 'd peat_mesh \<Rightarrow> node_id \<Rightarrow> link_loss_reason \<Rightarrow> 'd peat_mesh" where
  "drop_peer clock m n reason =
     unregister_peer_for_delta
       (m\<lparr>m_graph := remove_via_peer (graph_on_disconnected (m_graph m) n reason clock) n\<rparr>) n"

definition on_ble_disconnected ::
  "u64 \<Rightarrow> 'd peat_mesh \<Rightarrow> string \<Rightarrow> link_loss_reason \<Rightarrow> 'd peat_mesh \<times> peat_event list \<times> node_id option" where
  "on_ble_disconnected clock m ident reason =
     (case pm_on_disconnected (m_peers m) ident reason of
        (ps, None) \<Rightarrow> (m\<lparr>m_peers := ps\<rparr>, [], None)
      | (ps, Some (n, r)) \<Rightarrow>
          let m1 = drop_peer clock (m\<lparr>m_peers := ps\<rparr>) n r
          in (m1, [PeerDisconnected n r, mesh_state_changed m1], Some n))"

definition mesh_on_peer_disconnected ::
  "u64 \<Rightarrow> 'd peat_mesh \<Rightarrow> node_id \<Rightarrow> link_loss_reason \<Rightarrow> 'd peat_mesh \<times> peat_event list" where
  "mesh_on_peer_disconnected clock m n reason =
     (case pm_on_disconnected_by_node_id (m_peers m) n of
        (ps, False) \<Rightarrow> (m\<lparr>m_peers := ps\<rparr>, [])
      | (ps, True) \<Rightarrow>
          let m1 = drop_peer clock (m\<lparr>m_peers := ps\<rparr>) n reason
          in (m1, [PeerDisconnected n reason, mesh_state_changed m1]))"

text \<open>The graph update shared by incoming connections and by data from a new sender.\<close>

definition graph_incoming :: "'d peat_mesh \<Rightarrow> string \<Rightarrow> node_id \<Rightarrow> bool \<Rightarrow> u64 \<Rightarrow> connection_graph" where
  "graph_incoming m ident n is_new now =
     graph_on_connected
       (if is_new then graph_on_discovered (m_graph m) n ident None (Some (mc_mesh_id (m_config m))) (- 50) now
        else m_graph m) n now"

definition on_incoming_connection ::
  "'d peat_mesh \<Rightarrow> string \<Rightarrow> node_id \<Rightarrow> u64 \<Rightarrow> 'd peat_mesh \<times> peat_event list \<times> bool" where
  "on_incoming_connection m ident n now =
     (let (ps, is_new) = pm_on_incoming_connection (m_peers m) ident n now;
          m1 = register_peer_for_delta (m\<lparr>m_peers := ps, m_graph := graph_incoming m ident n is_new now\<rparr>) n
      in (m1,
          (if is_new then (case bt_get (pm_peers ps) n of Some p \<Rightarrow> [PeerDiscovered p] | None \<Rightarrow> []) else [])
            @ [PeerConnected n, mesh_state_changed m1],
          is_new))"

section \<open>Periodic maintenance\<close>

definition tick_cleanup :: "'d peat_mesh \<Rightarrow> u64 \<Rightarrow> 'd peat_mesh \<times> peat_event list" where
  "tick_cleanup m now =
     (if (ucast now :: u32) - m_last_cleanup_ms m \<ge> ucast (cleanup_interval_ms (mc_peer_config (m_config m))) then
        let (ps, removed) = pm_cleanup_stale (m_peers m) now;
            (g1, newly_lost) = graph_tick (m_graph m) now;
            g2 = fst (cleanup_lost g1 (peer_timeout_ms (mc_peer_config (m_config m))) now);
            m1 = m\<lparr>m_last_cleanup_ms := ucast now, m_peers := ps, m_graph := g2\<rparr>
        in (m1, map PeerLost removed @ (if removed \<noteq> [] then [mesh_state_changed m1] else [])
               @ map PeerLost (filter (\<lambda>n. n \<notin> set removed) newly_lost))
      else (m, []))"

definition sync_due :: "'d peat_mesh \<Rightarrow> u64 \<Rightarrow> bool" where
  "sync_due m now \<longleftrightarrow> (ucast now :: u32) - m_last_sync_ms m \<ge> ucast (mc_sync_interval_ms (m_config m))"

definition mesh_tick :: "peat_env \<Rightarrow> 'd peat_mesh \<Rightarrow> bytes \<Rightarrow> u64 \<Rightarrow> 'd peat_mesh \<times> peat_event list \<times> bytes option" where
  "mesh_tick E m nonce now =
     (let (m1, evs) = tick_cleanup m now
      in if sync_due m1 now then
           let m2 = m1\<lparr>m_last_sync_ms := ucast now\<rparr>
           in (m2, evs, if connected_count (m_peers m2) > 0 then Some (mesh_build_document E m2 nonce) else None)
         else (m1, evs, None))"

definition tick_with_peer_deltas ::
  "peat_env \<Rightarrow> 'd peat_mesh \<Rightarrow> bytes \<Rightarrow> u64 \<Rightarrow> 'd peat_mesh \<times> peat_event list \<times> (node_id \<times> bytes) list" where
  "tick_with_peer_deltas E m nonce now =
     (let (m1, evs) = tick_cleanup m now
      in if sync_due m1 now then
           let m2 = m1\<lparr>m_last_sync_ms := ucast now\<rparr>
           in (m2, evs, map (\<lambda>p. (pp_node_id p, mesh_build_document E m2 nonce)) (pm_get_connected_peers (m_peers m2)))
         else (m1, evs, []))"

definition cleanup_indirect_peers :: "'d peat_mesh \<Rightarrow> u64 \<Rightarrow> 'd peat_mesh \<times> node_id list" where
  "cleanup_indirect_peers m now =
     (let (g, ns) = cleanup_indirect (m_graph m) now in (m\<lparr>m_graph := g\<rparr>, ns))"

end
