(* ===== verification/Peat_Receive.thy ===== *)
theory Peat_Receive
  imports Peat_Mesh
begin

text \<open>
  The functions of the facade (\<^verbatim>\<open>peat_mesh.rs\<close>) that receive data from the air. There are four
  entry points, by what the platform knows of the sender: \<open>on_ble_data_received\<close> (a registered
  identifier), \<open>on_ble_data_received_from_node\<close> (a node id), \<open>on_ble_data\<close> (any identifier) and
  \<open>on_ble_data_received_anonymous\<close> (any identifier, the node id is read from the document). Each
  returns the new state, the events for the observers and the result for the platform; the outer
  option is a panic.
\<close>

unbundle bit_operations_syntax

type_synonym ('d, 'r) reaction = "'d peat_mesh \<times> peat_event list \<times> 'r option"

section \<open>Results\<close>

record data_received_result =
  dr_source_node :: node_id
  dr_is_emergency :: bool
  dr_is_ack :: bool
  dr_counter_changed :: bool
  dr_emergency_changed :: bool
  dr_total_count :: u64
  dr_event_timestamp :: u64
  dr_relay_data :: "bytes option"
  dr_origin_node :: "node_id option"
  dr_hop_count :: u8
  dr_callsign :: "bytes option"
  dr_battery_percent :: "u8 option"
  dr_heart_rate :: "u8 option"
  dr_event_type :: "u8 option"
  dr_latitude :: "f32 option"
  dr_longitude :: "f32 option"
  dr_altitude :: "f32 option"

definition peripheral_fields ::
  "peripheral option \<Rightarrow>
   bytes option \<times> u8 option \<times> u8 option \<times> u8 option \<times> f32 option \<times> f32 option \<times> f32 option" where
  "peripheral_fields p =
     (case p of
        Some p \<Rightarrow>
          (let (lat, lon, alt) = (case location p of
                                    Some l \<Rightarrow> (Some (latitude l), Some (longitude l), altitude l)
                                  | None \<Rightarrow> (None, None, None))
           in (if callsign_str p = [] then None else Some (callsign_str p),
               if battery_percent (health p) > 0 then Some (battery_percent (health p)) else None,
               heart_rate (health p),
               map_option (\<lambda>e. event_type_as_u8 (event_type e)) (last_event p),
               lat, lon, alt))
      | None \<Rightarrow> (None, None, None, None, None, None, None))"

definition received_result ::
  "node_id \<Rightarrow> bool \<Rightarrow> bool \<Rightarrow> bool \<Rightarrow> bool \<Rightarrow> u64 \<Rightarrow> u64 \<Rightarrow> bytes option \<Rightarrow> node_id option \<Rightarrow> u8 \<Rightarrow>
   peripheral option \<Rightarrow> data_received_result" where
  "received_result source emergency ack counter emergency_changed tot ts relay_data origin hops p =
     (let (cs, battery, hr, evt, lat, lon, alt) = peripheral_fields p
      in \<lparr>dr_source_node = source, dr_is_emergency = emergency, dr_is_ack = ack, dr_counter_changed = counter,
          dr_emergency_changed = emergency_changed, dr_total_count = tot, dr_event_timestamp = ts,
          dr_relay_data = relay_data, dr_origin_node = origin, dr_hop_count = hops,
          dr_callsign = cs, dr_battery_percent = battery, dr_heart_rate = hr, dr_event_type = evt,
          dr_latitude = lat, dr_longitude = lon, dr_altitude = alt\<rparr>)"

text \<open>Result and events of a merged document, the same in all four entry points.\<close>

definition merged_result :: "merge_result \<Rightarrow> bytes option \<Rightarrow> node_id option \<Rightarrow> u8 \<Rightarrow> data_received_result" where
  "merged_result r relay_data origin hops =
     received_result (mr_source_node r) (mr_is_emergency r) (mr_is_ack r) (mr_counter_changed r)
       (mr_emergency_changed r) (mr_total_count r)
       (case mr_event r of Some e \<Rightarrow> event_timestamp e | None \<Rightarrow> 0) relay_data origin hops (mr_peer_peripheral r)"

definition merged_events :: "merge_result \<Rightarrow> peat_event list" where
  "merged_events r =
     (if mr_is_emergency r then [EmergencyReceived (mr_source_node r)]
      else if mr_is_ack r then [AckReceived (mr_source_node r)] else [])
     @ (if mr_counter_changed r then [DocumentSynced (mr_source_node r) (mr_total_count r)] else [])"

definition relayed_events ::
  "peat_env \<Rightarrow> 'd peat_mesh \<Rightarrow> bytes option \<Rightarrow> node_id \<Rightarrow> node_id option \<Rightarrow> node_id \<Rightarrow> u8 \<Rightarrow> peat_event list" where
  "relayed_events E m relay_data exclude origin sender_node hops =
     (case relay_data of
        None \<Rightarrow> []
      | Some _ \<Rightarrow> [MessageRelayed (case origin of Some n \<Rightarrow> n | None \<Rightarrow> sender_node)
                    (length (get_relay_targets E m (Some exclude))) hops])"

section \<open>Delta documents\<close>

record delta_effects =
  de_counter_changed :: bool
  de_emergency_changed :: bool
  de_is_emergency :: bool
  de_is_ack :: bool
  de_event_timestamp :: u64
  de_peripheral :: "peripheral option"

definition delta_effects_init :: delta_effects where
  "delta_effects_init =
     \<lparr>de_counter_changed = False, de_emergency_changed = False, de_is_emergency = False, de_is_ack = False,
      de_event_timestamp = 0, de_peripheral = None\<rparr>"

definition newest :: "u64 \<Rightarrow> delta_effects \<Rightarrow> delta_effects" where
  "newest ts e = (if ts > de_event_timestamp e then e\<lparr>de_event_timestamp := ts\<rparr> else e)"

definition apply_app_operation :: "'d peat_mesh \<Rightarrow> app_operation \<Rightarrow> 'd peat_mesh \<times> peat_event" where
  "apply_app_operation m op =
     (let ts = app_timestamp op AND 0x0000FFFFFFFFFFFF;
          key = (app_type_id op, app_source_node op, ts);
          (docs, changed) =
            (case bt_get (m_documents m) key of
               Some existing \<Rightarrow>
                 let (d, changed) = registry_apply_delta_op (m_handlers m) (app_type_id op) existing op
                 in (bt_insert key d (m_documents m), changed)
             | None \<Rightarrow>
                 (case registry_doc_decode (m_handlers m) (app_type_id op) (app_payload op) of
                    Some d \<Rightarrow> (bt_insert key d (m_documents m), True)
                  | None \<Rightarrow> (m_documents m, False)))
      in (m\<lparr>m_documents := docs\<rparr>, AppDocumentReceived (app_type_id op) (app_source_node op) ts changed))"

fun apply_operation ::
  "node_id \<Rightarrow> operation \<Rightarrow> 'd peat_mesh \<times> delta_effects \<times> peat_event list \<Rightarrow> 'd peat_mesh \<times> delta_effects \<times> peat_event list" where
  "apply_operation origin (OpIncrementCounter c n amount t) (m, e, evs) =
     (let current = (case List.find (\<lambda>(k, _). k = n) (counter_entries (m_sync m)) of Some (_, v) \<Rightarrow> v | None \<Rightarrow> 0)
      in (m, if amount > current then e\<lparr>de_counter_changed := True\<rparr> else e, evs))"
| "apply_operation origin (OpUpdatePeripheral p t) (m, e, evs) =
     (m\<lparr>m_peripherals := bt_insert origin p (m_peripherals m)\<rparr>, newest t (e\<lparr>de_peripheral := Some p\<rparr>), evs)"
| "apply_operation origin (OpSetEmergency s t ps) (m, e, evs) =
     (m, e\<lparr>de_is_emergency := True, de_emergency_changed := True, de_event_timestamp := t\<rparr>, evs)"
| "apply_operation origin (OpAckEmergency n t) (m, e, evs) =
     (m, newest t (e\<lparr>de_is_ack := True, de_emergency_changed := True\<rparr>), evs)"
| "apply_operation origin (OpClearEmergency t) (m, e, evs) =
     (m, newest t (e\<lparr>de_emergency_changed := True\<rparr>), evs)"
| "apply_operation origin (OpApp op) (m, e, evs) =
     (let (m1, ev) = apply_app_operation m op in (m1, e, evs @ [ev]))"

definition process_delta_document_internal ::
  "peat_env \<Rightarrow> 'd peat_mesh \<Rightarrow> node_id \<Rightarrow> bytes \<Rightarrow> u64 \<Rightarrow> bytes option \<Rightarrow> node_id option \<Rightarrow> u8 \<Rightarrow>
   ('d, data_received_result) reaction outcome" where
  "process_delta_document_internal E m source data now relay_data origin hops = do {
     decoded \<leftarrow> delta_document_decode (pe_usize E) data;
     (case decoded of
        None \<Rightarrow> ret (m, [], None)
      | Some d \<Rightarrow>
          if dd_origin_node d = m_node_id m then ret (m, [], None)
          else
            let (m1, e, app_events) =
                  fold (apply_operation (dd_origin_node d)) (dd_operations d) (m, delta_effects_init, []);
                m2 = m1\<lparr>m_peers := pm_record_sync (m_peers m1) source now,
                        m_delta := record_received (m_delta m1) source (length data) now\<rparr>;
                tot = sync_total_count (m_sync m2);
                events = (if de_is_emergency e then [EmergencyReceived (dd_origin_node d)]
                          else if de_is_ack e then [AckReceived (dd_origin_node d)] else [])
                         @ (if de_counter_changed e then [DocumentSynced (dd_origin_node d) tot] else [])
            in ret (m2, app_events @ events @ relayed_events E m2 relay_data source origin (dd_origin_node d) hops,
                 Some (received_result (dd_origin_node d) (de_is_emergency e) (de_is_ack e) (de_counter_changed e)
                   (de_emergency_changed e) tot (de_event_timestamp e) relay_data origin hops (de_peripheral e))))
   }"

section \<open>Documents\<close>

definition store_peripheral :: "'d peat_mesh \<Rightarrow> merge_result \<Rightarrow> 'd peat_mesh" where
  "store_peripheral m r =
     (case mr_peer_peripheral r of
        Some p \<Rightarrow> m\<lparr>m_peripherals := bt_insert (mr_source_node r) p (m_peripherals m)\<rparr>
      | None \<Rightarrow> m)"

text \<open>
  \<open>process_document_data\<close> and its variant for a known identifier differ only in the hint of the
  source that a security event carries.
\<close>

definition process_document_data_with_identifier ::
  "peat_env \<Rightarrow> 'd peat_mesh \<Rightarrow> node_id \<Rightarrow> string \<Rightarrow> bytes \<Rightarrow> u64 \<Rightarrow> bytes option \<Rightarrow> node_id option \<Rightarrow> u8 \<Rightarrow>
   ('d, data_received_result) reaction outcome" where
  "process_document_data_with_identifier E m source ident data now relay_data origin hops =
     (case decrypt_document E m data (Some ident) of
        (evs, None) \<Rightarrow> ret (m, evs, None)
      | (evs, Some decrypted) \<Rightarrow> do {
          is_delta \<leftarrow> is_delta_document decrypted;
          if is_delta then process_delta_document_internal E m source decrypted now relay_data origin hops
          else do {
            (s, merged) \<leftarrow> merge_document (pe_chat E) (m_sync m) decrypted;
            (case merged of
               None \<Rightarrow> ret (m\<lparr>m_sync := s\<rparr>, [], None)
             | Some r \<Rightarrow>
                 let m1 = store_peripheral (m\<lparr>m_sync := s\<rparr>) r;
                     m2 = m1\<lparr>m_peers := pm_record_sync (m_peers m1) source now\<rparr>
                 in ret (m2, merged_events r @ relayed_events E m2 relay_data source origin (mr_source_node r) hops,
                      Some (merged_result r relay_data origin hops)))
          }
        })"

definition process_document_data ::
  "peat_env \<Rightarrow> 'd peat_mesh \<Rightarrow> node_id \<Rightarrow> bytes \<Rightarrow> u64 \<Rightarrow> bytes option \<Rightarrow> node_id option \<Rightarrow> u8 \<Rightarrow>
   ('d, data_received_result) reaction outcome" where
  "process_document_data E m source data now relay_data origin hops =
     process_document_data_with_identifier E m source (''node:'' @ node_id_display source) data now relay_data origin hops"

definition process_incoming_document ::
  "peat_env \<Rightarrow> 'd peat_mesh \<Rightarrow> string \<Rightarrow> bytes \<Rightarrow> u64 \<Rightarrow> bytes option \<Rightarrow> node_id option \<Rightarrow> u8 \<Rightarrow>
   ('d, data_received_result) reaction outcome" where
  "process_incoming_document E m ident data now relay_data origin hops =
     (case decrypt_document E m data (Some ident) of
        (evs, None) \<Rightarrow> ret (m, evs, None)
      | (evs, Some decrypted) \<Rightarrow> do {
          (s, merged) \<leftarrow> merge_document (pe_chat E) (m_sync m) decrypted;
          (case merged of
             None \<Rightarrow> ret (m\<lparr>m_sync := s\<rparr>, [], None)
           | Some r \<Rightarrow>
               let m1 = m\<lparr>m_sync := s, m_peers := pm_record_sync (m_peers m) (mr_source_node r) now\<rparr>;
                   m2 = (if origin = None then
                           let (ps, is_new) = pm_on_incoming_connection (m_peers m1) ident (mr_source_node r) now
                           in m1\<lparr>m_peers := ps, m_graph := graph_incoming m1 ident (mr_source_node r) is_new now\<rparr>
                         else m1)
               in ret (m2, merged_events r @ relayed_events E m2 relay_data (mr_source_node r) origin (mr_source_node r) hops,
                    Some (merged_result r relay_data origin hops)))
        })"

section \<open>Relay envelopes\<close>

definition relay_or_expire :: "'d peat_mesh \<Rightarrow> relay_envelope \<Rightarrow> bytes option \<times> peat_event list" where
  "relay_or_expire m env =
     (if can_relay env \<and> mc_enable_relay (m_config m) then (map_option relay_envelope_encode (relay env), [])
      else (None, if \<not> can_relay env then [MessageTtlExpired (env_origin_node env) (hop_count env)] else []))"

definition with_events :: "peat_event list \<Rightarrow> ('d, 'r) reaction outcome \<Rightarrow> ('d, 'r) reaction outcome" where
  "with_events evs r = do { (m, evs', x) \<leftarrow> r; ret (m, evs @ evs', x) }"

definition handle_relay_envelope_with_identifier ::
  "peat_env \<Rightarrow> 'd peat_mesh \<Rightarrow> node_id \<Rightarrow> string \<Rightarrow> bytes \<Rightarrow> u64 \<Rightarrow> ('d, data_received_result) reaction outcome" where
  "handle_relay_envelope_with_identifier E m source ident data now = do {
     decoded \<leftarrow> relay_envelope_decode (pe_usize E) data;
     (case decoded of
        None \<Rightarrow> ret (m, [], None)
      | Some env \<Rightarrow>
          let (m1, is_new) = mark_message_seen E m (env_message_id env) (env_origin_node env) now
          in if \<not> is_new then ret (m1, [duplicate_dropped m1 env], None)
             else
               let (relay_data, evs) = relay_or_expire m1 env
               in with_events evs
                    (process_document_data_with_identifier E m1 source ident (env_payload env) now relay_data
                      (Some (env_origin_node env)) (hop_count env)))
   }"

definition handle_relay_envelope ::
  "peat_env \<Rightarrow> 'd peat_mesh \<Rightarrow> node_id \<Rightarrow> bytes \<Rightarrow> u64 \<Rightarrow> ('d, data_received_result) reaction outcome" where
  "handle_relay_envelope E m source data now = do {
     (m1, evs, decision) \<leftarrow> process_relay_envelope E m data source now;
     (case decision of
        None \<Rightarrow> ret (m1, evs, None)
      | Some d \<Rightarrow>
          with_events evs
            (process_document_data E m1 source (rd_payload d) now
              (if rd_should_relay d then rd_relay_data d else None) (Some (rd_origin_node d)) (rd_hop_count d)))
   }"

definition handle_relay_envelope_with_incoming ::
  "peat_env \<Rightarrow> 'd peat_mesh \<Rightarrow> string \<Rightarrow> bytes \<Rightarrow> u64 \<Rightarrow> ('d, data_received_result) reaction outcome" where
  "handle_relay_envelope_with_incoming E m ident data now = do {
     decoded \<leftarrow> relay_envelope_decode (pe_usize E) data;
     (case decoded of
        None \<Rightarrow> ret (m, [], None)
      | Some env \<Rightarrow>
          let m0 = (case pm_get_node_id (m_peers m) ident of Some source \<Rightarrow> note_indirect m source env now | None \<Rightarrow> m);
              (m1, is_new) = mark_message_seen E m0 (env_message_id env) (env_origin_node env) now
          in if \<not> is_new then ret (m1, [duplicate_dropped m1 env], None)
             else
               let (relay_data, evs) = relay_or_expire m1 env
               in with_events evs
                    (process_incoming_document E m1 ident (env_payload env) now relay_data
                      (Some (env_origin_node env)) (hop_count env)))
   }"

section \<open>Entry points\<close>

text \<open>
  Key exchanges and end-to-end messages are handled first. The callers drop what the handlers
  return and give the platform no result.
\<close>

definition without_result :: "('d, bytes) reaction outcome \<Rightarrow> ('d, data_received_result) reaction outcome" where
  "without_result r = do { (m, evs, _) \<leftarrow> r; ret (m, evs, None) }"

definition on_ble_data_received_from_node ::
  "peat_env \<Rightarrow> 'd peat_mesh \<Rightarrow> node_id \<Rightarrow> bytes \<Rightarrow> u64 \<Rightarrow> ('d, data_received_result) reaction outcome" where
  "on_ble_data_received_from_node E m n data now =
     (if length data \<ge> 2 \<and> hd data = KEY_EXCHANGE_MARKER then without_result (mesh_handle_key_exchange E m data now)
      else if length data \<ge> 2 \<and> hd data = PEER_E2EE_MARKER then without_result (handle_peer_e2ee_message E m data now)
      else if length data \<ge> 2 \<and> hd data = RELAY_ENVELOPE_MARKER then handle_relay_envelope E m n data now
      else process_document_data E m n data now None None 0)"

definition on_ble_data_received ::
  "peat_env \<Rightarrow> 'd peat_mesh \<Rightarrow> string \<Rightarrow> bytes \<Rightarrow> u64 \<Rightarrow> ('d, data_received_result) reaction outcome" where
  "on_ble_data_received E m ident data now =
     (case pm_get_node_id (m_peers m) ident of
        None \<Rightarrow> ret (m, [], None)
      | Some n \<Rightarrow>
          if length data \<ge> 2 \<and> hd data = KEY_EXCHANGE_MARKER then without_result (mesh_handle_key_exchange E m data now)
          else if length data \<ge> 2 \<and> hd data = PEER_E2EE_MARKER then without_result (handle_peer_e2ee_message E m data now)
          else if length data \<ge> 2 \<and> hd data = RELAY_ENVELOPE_MARKER then
            handle_relay_envelope_with_identifier E m n ident data now
          else process_document_data_with_identifier E m n ident data now None None 0)"

definition on_ble_data ::
  "peat_env \<Rightarrow> 'd peat_mesh \<Rightarrow> string \<Rightarrow> bytes \<Rightarrow> u64 \<Rightarrow> ('d, data_received_result) reaction outcome" where
  "on_ble_data E m ident data now =
     (if length data \<ge> 2 \<and> hd data = KEY_EXCHANGE_MARKER then without_result (mesh_handle_key_exchange E m data now)
      else if length data \<ge> 2 \<and> hd data = PEER_E2EE_MARKER then without_result (handle_peer_e2ee_message E m data now)
      else if length data \<ge> 2 \<and> hd data = RELAY_ENVELOPE_MARKER then handle_relay_envelope_with_incoming E m ident data now
      else process_incoming_document E m ident data now None None 0)"

definition APP_LAYER_MARKER :: u8 where "APP_LAYER_MARKER = 0xAF"

definition on_ble_data_received_anonymous ::
  "peat_env \<Rightarrow> 'd peat_mesh \<Rightarrow> string \<Rightarrow> bytes \<Rightarrow> u64 \<Rightarrow> ('d, data_received_result) reaction outcome" where
  "on_ble_data_received_anonymous E m ident data now =
     (case decrypt_document E m data (Some ident) of
        (evs, None) \<Rightarrow> ret (m, evs, None)
      | (evs, Some decrypted) \<Rightarrow>
          if length decrypted < 8 then ret (m, [], None)
          else do {
            source \<leftarrow> read_u32 decrypted 4;
            let m0 = m\<lparr>m_peers := register_identifier (m_peers m) ident source\<rparr>;
            is_delta \<leftarrow> is_delta_document decrypted;
            if is_delta then process_delta_document_internal E m0 source decrypted now None None 0
            else if hd decrypted = APP_LAYER_MARKER then
              ret (m0, [], Some (received_result source False False False False 0 now (Some decrypted) None 0 None))
            else do {
              (s, merged) \<leftarrow> merge_document (pe_chat E) (m_sync m0) decrypted;
              (case merged of
                 None \<Rightarrow> ret (m0\<lparr>m_sync := s\<rparr>, [], None)
               | Some r \<Rightarrow>
                   ret (m0\<lparr>m_sync := s, m_peers := pm_record_sync (m_peers m0) source now\<rparr>, merged_events r,
                     Some (merged_result r None None 0)))
            }
          })"

end
