(* ===== verification/Peat_Node.thy ===== *)
theory Peat_Node
  imports Peat_Receive
begin

text \<open>
  Theorems about the facade as a whole: reception never panics, the state of a node stays well
  formed under every sequence of calls because each call moves each component by steps of that
  component, strict encryption, delivery of encrypted and of relayed documents, and the ways in
  which data a node accepts is not merged.
\<close>

section \<open>Absence of panics\<close>

lemma no_panic_without_result [safe]: "no_panic r \<Longrightarrow> no_panic (without_result r)"
  unfolding without_result_def by (intro safe)

lemma no_panic_with_events [safe]: "no_panic r \<Longrightarrow> no_panic (with_events evs r)"
  unfolding with_events_def by (intro safe)

lemma no_panic_is_delta [safe]: "no_panic (is_delta_document data)"
  unfolding is_delta_document_def by (intro safe) simp

lemma no_panic_key_exchange [safe]: "no_panic (mesh_handle_key_exchange E m data now)"
  unfolding mesh_handle_key_exchange_def
  by (intro safe key_exchange_decode_safe) (auto split: option.splits prod.splits)

lemma no_panic_e2ee_message [safe]: "no_panic (handle_peer_e2ee_message E m data now)"
  unfolding handle_peer_e2ee_message_def
  by (intro safe peer_message_decode_safe) (auto split: option.splits prod.splits sum.splits)

lemma no_panic_delta_internal [safe]:
  "36 \<le> pe_usize E \<Longrightarrow> no_panic (process_delta_document_internal E m source data now relay_data origin hops)"
  unfolding process_delta_document_internal_def
  by (intro safe delta_document_decode_safe)

lemma no_panic_process_document [safe]:
  "36 \<le> pe_usize E \<Longrightarrow> no_panic (process_document_data_with_identifier E m source ident data now relay_data origin hops)"
  unfolding process_document_data_with_identifier_def
  by (intro safe merge_document_safe)

lemma no_panic_incoming_document [safe]:
  "no_panic (process_incoming_document E m ident data now relay_data origin hops)"
  unfolding process_incoming_document_def
  by (intro safe merge_document_safe)

lemma no_panic_relay [safe]:
  assumes "36 \<le> pe_usize E"
  shows "no_panic (handle_relay_envelope_with_identifier E m source ident data now)"
    "no_panic (handle_relay_envelope_with_incoming E m ident data now)"
    "no_panic (handle_relay_envelope E m source data now)"
  unfolding handle_relay_envelope_with_identifier_def handle_relay_envelope_with_incoming_def
    handle_relay_envelope_def process_relay_envelope_def process_document_data_def
  using assms by (intro safe relay_envelope_decode_safe; simp)+

lemma receive_no_panic:
  assumes "36 \<le> pe_usize E"
  shows "no_panic (on_ble_data_received E m ident data now)"
    "no_panic (on_ble_data_received_from_node E m n data now)"
    "no_panic (on_ble_data E m ident data now)"
    "no_panic (on_ble_data_received_anonymous E m ident data now)"
  unfolding on_ble_data_received_def on_ble_data_received_from_node_def on_ble_data_def
    on_ble_data_received_anonymous_def process_document_data_def
  using assms by (intro safe merge_document_safe; simp)+

section \<open>The calls of a node as steps of its components\<close>

named_theorems steps \<open>a component operation as steps of the component\<close>

inductive sync_step :: "bool \<Rightarrow> document_sync \<Rightarrow> document_sync \<Rightarrow> bool" for lc where
  sync_step_call: "sync_call lc s s' out \<Longrightarrow> sync_step lc s s'"
| sync_step_merge: "merge_document lc s data = ret (s', r) \<Longrightarrow> sync_step lc s s'"

inductive session_step :: "crypto \<Rightarrow> node_id \<Rightarrow> session_manager option \<Rightarrow> session_manager option \<Rightarrow> bool" for C n where
  session_step_enable: "session_step C n None (Some (session_manager_with_key n (identity_from_secret_bytes C secret)))"
| session_step_disable: "session_step C n s None"
| session_step_run: "sm_step C s s' \<Longrightarrow> session_step C n (Some s) (Some s')"

inductive seen_step :: "(seen_list \<Rightarrow> seen_list) \<Rightarrow> seen_cache \<Rightarrow> seen_cache \<Rightarrow> bool" for iter where
  seen_step_mark: "mark_seen True iter c mid origin now = (c', is_new) \<Longrightarrow> seen_step iter c c'"
| seen_step_clear: "seen_step iter c (seen_clear c)"

definition evolves :: "peat_env \<Rightarrow> 'd peat_mesh \<Rightarrow> 'd peat_mesh \<Rightarrow> bool" where
  "evolves E m m' \<longleftrightarrow>
     mc_node_id (m_config m') = mc_node_id (m_config m) \<and> mc_peer_config (m_config m') = mc_peer_config (m_config m) \<and>
     pm_step\<^sup>*\<^sup>* (m_peers m) (m_peers m') \<and>
     graph_step\<^sup>*\<^sup>* (m_graph m) (m_graph m') \<and>
     (sync_step (pe_chat E))\<^sup>*\<^sup>* (m_sync m) (m_sync m') \<and>
     (session_step (pe_crypto E) (m_node_id m))\<^sup>*\<^sup>* (m_sessions m) (m_sessions m') \<and>
     (seen_step (pe_seen_iter E))\<^sup>*\<^sup>* (m_seen m) (m_seen m') \<and>
     (enc_wf (m_delta m) \<longrightarrow> enc_wf (m_delta m')) \<and>
     (bt_wf (m_peripherals m) \<longrightarrow> bt_wf (m_peripherals m')) \<and>
     (bt_wf (m_documents m) \<longrightarrow> bt_wf (m_documents m'))"

lemma evolves_refl [simp]: "evolves E m m"
  by (simp add: evolves_def)

lemma evolves_trans [trans]: "evolves E m m' \<Longrightarrow> evolves E m' m'' \<Longrightarrow> evolves E m m''"
  unfolding evolves_def m_node_id_def by (auto dest: rtranclp_trans)

subsection \<open>One component at a time\<close>

lemma pm_steps [steps]:
  "pm_on_discovered p ident name rssi mesh now = (p', r1) \<Longrightarrow> pm_step\<^sup>*\<^sup>* p p'"
  "pm_on_connected p ident now = (p', r2) \<Longrightarrow> pm_step\<^sup>*\<^sup>* p p'"
  "pm_on_disconnected p ident reason = (p', r3) \<Longrightarrow> pm_step\<^sup>*\<^sup>* p p'"
  "pm_on_disconnected_by_node_id p n = (p', r4) \<Longrightarrow> pm_step\<^sup>*\<^sup>* p p'"
  "pm_on_incoming_connection p ident n now = (p', r5) \<Longrightarrow> pm_step\<^sup>*\<^sup>* p p'"
  "pm_cleanup_stale p now = (p', r6) \<Longrightarrow> pm_step\<^sup>*\<^sup>* p p'"
  "pm_step\<^sup>*\<^sup>* p (pm_record_sync p n now)"
  "pm_step\<^sup>*\<^sup>* p (register_identifier p ident n)"
  "pm_step\<^sup>*\<^sup>* p (pm_record_sync (register_identifier p ident n) n' now)"
  by (metis pm_step.intros fst_conv r_into_rtranclp rtranclp.rtrancl_into_rtrancl)+

lemma graph_steps [steps]:
  "graph_step\<^sup>*\<^sup>* g (graph_on_discovered g n ident name mesh rssi now)"
  "graph_step\<^sup>*\<^sup>* g (graph_on_connected g n now)"
  "graph_step\<^sup>*\<^sup>* g (graph_on_connected (graph_on_discovered g n ident name mesh rssi now) n now)"
  "graph_step\<^sup>*\<^sup>* g (remove_via_peer (graph_on_disconnected g n reason now) n)"
  "graph_step\<^sup>*\<^sup>* g (fst (on_relay_received g source origin hops now))"
  "cleanup_indirect g now = (g', ns) \<Longrightarrow> graph_step\<^sup>*\<^sup>* g g'"
  "graph_tick g now = (g', ns) \<Longrightarrow> graph_step\<^sup>*\<^sup>* g (fst (cleanup_lost g' older now))"
  by (metis graph_step.intros fst_conv r_into_rtranclp rtranclp.rtrancl_into_rtrancl)+

lemma seen_steps [steps]:
  "check_and_mark True iter c mid origin now = (c', is_new) \<Longrightarrow> (seen_step iter)\<^sup>*\<^sup>* c c'"
  "(seen_step iter)\<^sup>*\<^sup>* c (fst (mark_seen True iter c mid origin now))"
  "(seen_step iter)\<^sup>*\<^sup>* c (seen_clear c)"
  unfolding check_and_mark_def
  by (metis seen_step.intros prod.collapse r_into_rtranclp)+

lemma session_steps [steps]:
  "initiate_session s p now = (s', k) \<Longrightarrow> (session_step C n)\<^sup>*\<^sup>* (Some s) (Some s')"
  "handle_key_exchange C s msg now = (s', r) \<Longrightarrow> (session_step C n)\<^sup>*\<^sup>* (Some s) (Some s')"
  "encrypt_for_peer C s p nonce txt now = (s', r2) \<Longrightarrow> (session_step C n)\<^sup>*\<^sup>* (Some s) (Some s')"
  "decrypt_from_peer C s pmsg now = (s', r3) \<Longrightarrow> (session_step C n)\<^sup>*\<^sup>* (Some s) (Some s')"
  "(session_step C n)\<^sup>*\<^sup>* (Some s) (Some (close_session s p))"
  "(session_step C n)\<^sup>*\<^sup>* os None"
  "(session_step C n)\<^sup>*\<^sup>* None (Some (session_manager_with_key n (identity_from_secret_bytes C secret)))"
  by (metis sm_step.intros session_step.intros fst_conv r_into_rtranclp)+

lemma sync_steps [steps]:
  "merge_document lc s data = ret (s', r) \<Longrightarrow> (sync_step lc)\<^sup>*\<^sup>* s s'"
  "sync_call lc s s' out \<Longrightarrow> (sync_step lc)\<^sup>*\<^sup>* s s'"
  by (metis sync_step.intros r_into_rtranclp)+

subsection \<open>Calls of the application and of the platform\<close>

lemmas evolves_intro = evolves_def m_node_id_def enc_wf_ops Let_def

lemma evolves_sync_calls:
  assumes "sync_call (pe_chat E) (m_sync m) s out"
  shows "evolves E m (m\<lparr>m_sync := s\<rparr>)"
  using sync_steps(2) [OF assms] by (simp add: evolves_def)

lemma evolves_setters:
  "evolves E m (mesh_clear_event m)" "evolves E m (mesh_clear_emergency m)" "evolves E m (mesh_update_health m b)"
  "evolves E m (mesh_update_activity m a)" "evolves E m (mesh_update_health_full m b a)"
  "evolves E m (mesh_update_heart_rate m hr)" "evolves E m (mesh_update_location m lat lon alt)"
  "evolves E m (mesh_clear_location m)" "evolves E m (mesh_update_callsign m cs)"
  "evolves E m (mesh_set_peripheral_event m t ts)" "evolves E m (mesh_clear_peripheral_event m)"
  "evolves E m (mesh_update_peripheral_state m cs b ohr olat olon alt evt ts)"
  unfolding mesh_clear_event_def mesh_clear_emergency_def mesh_update_health_def mesh_update_activity_def
    mesh_update_health_full_def mesh_update_heart_rate_def mesh_update_location_def mesh_clear_location_def
    mesh_update_callsign_def mesh_set_peripheral_event_def mesh_clear_peripheral_event_def
    mesh_update_peripheral_state_def
  by (rule evolves_sync_calls, rule sync_call.intros)+

lemma evolves_emergencies:
  "mesh_send_emergency E m nonce ts = (m1, evs1, d1) \<Longrightarrow> evolves E m m1"
  "mesh_send_ack E m nonce ts = (m1, evs1, d1) \<Longrightarrow> evolves E m m1"
  "mesh_start_emergency E m nonce ts known_peers = (m1, evs1, d1) \<Longrightarrow> evolves E m m1"
  "mesh_ack_emergency E m nonce ts = (m1, evs1, d2) \<Longrightarrow> evolves E m m1"
  unfolding mesh_send_emergency_def mesh_send_ack_def mesh_start_emergency_def mesh_ack_emergency_def
  by (auto simp: Let_def split: prod.splits intro!: evolves_sync_calls intro: sync_call.intros)

lemma evolves_chat:
  assumes "pe_chat E"
  shows "mesh_send_chat E m nonce1 nonce2 who txt ts = (m1, d) \<Longrightarrow> evolves E m m1"
    "mesh_send_chat_reply E m nonce1 nonce2 who txt rn rts ts = (m1, d) \<Longrightarrow> evolves E m m1"
  using evolves_sync_calls [OF call_chat [OF assms]] evolves_sync_calls [OF call_reply [OF assms]]
  by (simp_all add: mesh_send_chat_def mesh_send_chat_reply_def Let_def case_prod_beta) blast+

lemma evolves_platform:
  "on_ble_discovered m ident name rssi mesh now = (m1, evs, r1) \<Longrightarrow> evolves E m m1"
  "on_ble_connected m ident now = (m1, evs, r2) \<Longrightarrow> evolves E m m1"
  "on_ble_disconnected clock m ident reason = (m1, evs, r3) \<Longrightarrow> evolves E m m1"
  "mesh_on_peer_disconnected clock m n reason = (m1, evs) \<Longrightarrow> evolves E m m1"
  "on_incoming_connection m ident n now = (m1, evs, r5) \<Longrightarrow> evolves E m m1"
  unfolding on_ble_discovered_def on_ble_connected_def on_ble_disconnected_def mesh_on_peer_disconnected_def
    on_incoming_connection_def graph_incoming_def drop_peer_def register_peer_for_delta_def unregister_peer_for_delta_def
  by (auto simp: evolves_intro split: prod.splits option.splits bool.splits intro: steps)

lemma evolves_ticks:
  "tick_cleanup m now = (m1, evs) \<Longrightarrow> evolves E m m1"
  "cleanup_indirect_peers m now = (m1, ns) \<Longrightarrow> evolves E m m1"
  unfolding tick_cleanup_def cleanup_indirect_peers_def
  by (auto simp: evolves_intro split: prod.splits if_splits intro: steps)

lemma evolves_tick:
  "mesh_tick E m nonce now = (m1, evs, d) \<Longrightarrow> evolves E m m1"
  "tick_with_peer_deltas E m nonce now = (m1, evs, ds) \<Longrightarrow> evolves E m m1"
  using evolves_ticks(1) [of m now _ _ E]
  by (fastforce simp: mesh_tick_def tick_with_peer_deltas_def evolves_def m_node_id_def Let_def split: prod.splits if_splits)+

lemma evolves_sessions:
  "evolves E m (enable_peer_e2ee E m secret)" "evolves E m (disable_peer_e2ee m)"
  "initiate_peer_e2ee m n now = (m1, d) \<Longrightarrow> evolves E m m1"
  "send_peer_e2ee E m nonce n txt now = (m1, d) \<Longrightarrow> evolves E m m1"
  "close_peer_e2ee m n = (m1, evs) \<Longrightarrow> evolves E m m1"
  unfolding enable_peer_e2ee_def disable_peer_e2ee_def initiate_peer_e2ee_def send_peer_e2ee_def close_peer_e2ee_def
  by (auto simp: evolves_intro split: prod.splits option.splits sum.splits intro: steps)

subsection \<open>Reception\<close>

lemma evolves_app_operation: "apply_app_operation m op = (m1, ev) \<Longrightarrow> evolves E m m1"
  unfolding apply_app_operation_def
  by (auto simp: evolves_intro split: prod.splits option.splits)

lemma evolves_operation: "apply_operation origin op (m, e, evs) = (m1, e1, evs1) \<Longrightarrow> evolves E m m1"
  by (cases op) (auto simp: evolves_intro split: prod.splits dest: evolves_app_operation [of _ _ _ _ E])

lemma evolves_operations: "fold (apply_operation origin) ops (m, e, evs) = (m1, e1, evs1) \<Longrightarrow> evolves E m m1"
proof (induction ops arbitrary: m e evs)
  case (Cons op ops)
  obtain m2 e2 evs2 where s: "apply_operation origin op (m, e, evs) = (m2, e2, evs2)" by (metis prod_cases3)
  then have "evolves E m2 m1" using Cons by simp
  with evolves_operation [OF s] show ?case by (rule evolves_trans)
qed simp

lemma evolves_record_received:
  "evolves E m (m\<lparr>m_peers := pm_record_sync (m_peers m) n now, m_delta := record_received (m_delta m) n k now\<rparr>)"
  by (simp add: evolves_intro steps)

lemma evolves_delta_internal:
  assumes "process_delta_document_internal E m source data now relay_data origin hops = ret (m1, evs, r)"
  shows "evolves E m m1"
proof -
  obtain od where d: "delta_document_decode (pe_usize E) data = ret od"
    using assms by (auto simp: process_delta_document_internal_def bind_eq_Some_conv)
  show ?thesis
  proof (cases "\<exists>d. od = Some d \<and> dd_origin_node d \<noteq> m_node_id m")
    case True
    then obtain d m2 e evs2 where od: "od = Some d" "dd_origin_node d \<noteq> m_node_id m"
      and f: "fold (apply_operation (dd_origin_node d)) (dd_operations d) (m, delta_effects_init, []) = (m2, e, evs2)"
      by (metis prod_cases3)
    have "m1 = m2\<lparr>m_peers := pm_record_sync (m_peers m2) source now,
        m_delta := record_received (m_delta m2) source (length data) now\<rparr>"
      using assms d od f by (simp add: process_delta_document_internal_def Let_def)
    then show ?thesis using evolves_trans [OF evolves_operations [OF f] evolves_record_received] by simp
  qed (use assms d in \<open>auto simp: process_delta_document_internal_def split: option.splits\<close>)
qed

lemma evolves_merge:
  assumes "merge_document (pe_chat E) (m_sync m) data = ret (s, r)"
  shows "evolves E m (m\<lparr>m_sync := s\<rparr>)"
    "evolves E m ((store_peripheral (m\<lparr>m_sync := s\<rparr>) x)\<lparr>m_peers := pm_record_sync (m_peers (store_peripheral (m\<lparr>m_sync := s\<rparr>) x)) n now\<rparr>)"
    "evolves E m (m\<lparr>m_sync := s, m_peers := pm_record_sync (m_peers m) n now\<rparr>)"
  using sync_steps(1) [OF assms]
  by (auto simp: evolves_intro store_peripheral_def steps split: option.splits)

lemma evolves_process_document:
  assumes "process_document_data_with_identifier E m source ident data now relay_data origin hops = ret (m1, evs, r)"
  shows "evolves E m m1"
  using assms unfolding process_document_data_with_identifier_def
  by (auto simp: Let_def bind_eq_Some_conv split: option.splits if_splits prod.splits
      dest: evolves_delta_internal evolves_merge)

lemma evolves_graph_incoming:
  assumes "pm_on_incoming_connection (m_peers m) ident n now = (ps, is_new)"
  shows "evolves E m (m\<lparr>m_peers := ps, m_graph := graph_incoming m ident n is_new now\<rparr>)"
  using assms by (auto simp: evolves_intro graph_incoming_def intro: steps)

lemma merge_document_returns: obtains s om where "merge_document lc s0 d = ret (s, om)"
  using merge_document_safe [of lc s0 d] by (auto simp: no_panic_ex)

lemma process_incoming_document_cases:
  assumes "process_incoming_document E m ident data now relay_data origin hops = ret (m1, evs, r)"
  obtains (rejected) "decrypt_document E m data (Some ident) = (evs, None)" "m1 = m" "r = None"
  | (ignored) pre d s where "decrypt_document E m data (Some ident) = (pre, Some d)"
      "merge_document (pe_chat E) (m_sync m) d = ret (s, None)" "m1 = m\<lparr>m_sync := s\<rparr>" "evs = []" "r = None"
  | (merged) pre d s x m0 where "decrypt_document E m data (Some ident) = (pre, Some d)"
      "merge_document (pe_chat E) (m_sync m) d = ret (s, Some x)"
      "m0 = m\<lparr>m_sync := s, m_peers := pm_record_sync (m_peers m) (mr_source_node x) now\<rparr>"
      "m1 = m0 \<or> (\<exists>ps b. pm_on_incoming_connection (m_peers m0) ident (mr_source_node x) now = (ps, b)
         \<and> m1 = m0\<lparr>m_peers := ps, m_graph := graph_incoming m0 ident (mr_source_node x) b now\<rparr>)"
      "r = Some (merged_result x relay_data origin hops)"
proof -
  obtain pre od where dec: "decrypt_document E m data (Some ident) = (pre, od)" by fastforce
  show thesis
  proof (cases od)
    case None
    show thesis
      by (rule rejected) (use assms dec None in \<open>simp_all add: process_incoming_document_def\<close>)
  next
    case (Some d)
    obtain s om where mg: "merge_document (pe_chat E) (m_sync m) d = ret (s, om)"
      by (rule merge_document_returns)
    show thesis
    proof (cases om)
      case None
      show thesis
        by (rule ignored [of pre d s]) (use assms dec Some mg None in \<open>simp_all add: process_incoming_document_def\<close>)
    next
      case (Some x)
      show thesis
        by (rule merged [of pre d s x, OF _ _ HOL.refl])
          (use assms dec \<open>od = Some d\<close> mg Some in
            \<open>auto simp: process_incoming_document_def Let_def split: if_splits prod.splits\<close>)
    qed
  qed
qed

lemma evolves_incoming_document:
  assumes "process_incoming_document E m ident data now relay_data origin hops = ret (m1, evs, r)"
  shows "evolves E m m1"
  using assms
proof (cases rule: process_incoming_document_cases)
  case (merged pre d s x m0)
  then have "evolves E m m0" using evolves_merge(3) by auto
  with merged(4) evolves_graph_incoming [of m0 ident _ now _ _ E] show ?thesis by (auto intro: evolves_trans)
qed (auto dest: evolves_merge(1))

lemma evolves_mark_seen: "mark_message_seen E m mid origin now = (m1, is_new) \<Longrightarrow> evolves E m m1"
  by (auto simp: mark_message_seen_def evolves_intro split: prod.splits intro: steps)

lemma evolves_note_indirect: "evolves E m (note_indirect m source env now)"
  by (simp add: note_indirect_def evolves_intro steps)

lemma evolves_with_events:
  "with_events pre x = ret (m1, evs, r) \<Longrightarrow> (\<And>evs'. x = ret (m1, evs', r) \<Longrightarrow> evolves E m m1) \<Longrightarrow> evolves E m m1"
  by (auto simp: with_events_def bind_eq_Some_conv)

lemma evolves_relay_with_identifier:
  assumes "handle_relay_envelope_with_identifier E m source ident data now = ret (m1, evs, r)"
  shows "evolves E m m1"
proof -
  have "evolves E m m1" if "relay_envelope_decode (pe_usize E) data = ret (Some env)" for env
  proof -
    obtain m2 b where mk: "mark_message_seen E m (env_message_id env) (env_origin_node env) now = (m2, b)" by fastforce
    obtain rd es where ro: "relay_or_expire m2 env = (rd, es)" by fastforce
    have "evolves E m2 m1"
      using assms that mk ro
      by (auto simp: handle_relay_envelope_with_identifier_def split: if_splits
          elim!: evolves_with_events dest: evolves_process_document)
    with evolves_mark_seen [OF mk] show ?thesis by (rule evolves_trans)
  qed
  then show ?thesis
    using assms by (auto simp: handle_relay_envelope_with_identifier_def bind_eq_Some_conv split: option.splits)
qed

lemma evolves_relay_with_incoming:
  assumes "handle_relay_envelope_with_incoming E m ident data now = ret (m1, evs, r)"
  shows "evolves E m m1"
proof -
  have "evolves E m m1" if "relay_envelope_decode (pe_usize E) data = ret (Some env)" for env
  proof -
    define m0 where
      "m0 = (case pm_get_node_id (m_peers m) ident of Some source \<Rightarrow> note_indirect m source env now | None \<Rightarrow> m)"
    obtain m2 b where mk: "mark_message_seen E m0 (env_message_id env) (env_origin_node env) now = (m2, b)" by fastforce
    obtain rd es where ro: "relay_or_expire m2 env = (rd, es)" by fastforce
    have "evolves E m m0" by (simp add: m0_def evolves_note_indirect split: option.splits)
    moreover have "evolves E m0 m2" by (rule evolves_mark_seen [OF mk])
    moreover have "evolves E m2 m1"
      using assms that mk ro
      by (auto simp: handle_relay_envelope_with_incoming_def simp flip: m0_def split: if_splits
          elim!: evolves_with_events dest: evolves_incoming_document)
    ultimately show ?thesis by (blast intro: evolves_trans)
  qed
  then show ?thesis
    using assms by (auto simp: handle_relay_envelope_with_incoming_def bind_eq_Some_conv split: option.splits)
qed

lemma evolves_process_relay:
  assumes "process_relay_envelope E m data source now = ret (m1, evs, d)"
  shows "evolves E m m1"
proof -
  have "evolves E m m1" if "relay_envelope_decode (pe_usize E) data = ret (Some env)" for env
  proof -
    obtain m2 b where mk: "mark_message_seen E (note_indirect m source env now) (env_message_id env)
        (env_origin_node env) now = (m2, b)" by fastforce
    have "m1 = m2" using assms that mk by (auto simp: process_relay_envelope_def split: if_splits)
    then show ?thesis using evolves_trans [OF evolves_note_indirect evolves_mark_seen [OF mk]] by simp
  qed
  then show ?thesis
    using assms by (auto simp: process_relay_envelope_def bind_eq_Some_conv split: option.splits)
qed

lemma evolves_relay_envelope:
  assumes "handle_relay_envelope E m source data now = ret (m1, evs, r)"
  shows "evolves E m m1"
proof -
  obtain m2 es d where p: "process_relay_envelope E m data source now = ret (m2, es, d)"
    using assms by (auto simp: handle_relay_envelope_def bind_eq_Some_conv)
  have "evolves E m2 m1"
    using assms p
    by (auto simp: handle_relay_envelope_def process_document_data_def split: option.splits
        elim!: evolves_with_events dest: evolves_process_document)
  with evolves_process_relay [OF p] show ?thesis by (rule evolves_trans)
qed

lemma evolves_session_update:
  "m_sessions m = Some s \<Longrightarrow> (session_step (pe_crypto E) (m_node_id m))\<^sup>*\<^sup>* (Some s) (Some s') \<Longrightarrow>
   evolves E m (m\<lparr>m_sessions := Some s'\<rparr>)"
  by (simp add: evolves_def)

lemma evolves_key_exchange:
  assumes "mesh_handle_key_exchange E m data now = ret (m1, evs, d)"
  shows "evolves E m m1"
proof (cases "length data < 2 \<or> hd data \<noteq> KEY_EXCHANGE_MARKER")
  case False
  then obtain p k where "slice_from data 2 = ret p" "key_exchange_decode p = ret k"
    using assms by (auto simp: mesh_handle_key_exchange_def bind_eq_Some_conv)
  then show ?thesis
    using assms False
    by (auto simp: mesh_handle_key_exchange_def split: option.splits prod.splits
        intro!: evolves_session_update intro: steps)
qed (use assms in \<open>simp add: mesh_handle_key_exchange_def\<close>)

lemma evolves_e2ee_message:
  assumes "handle_peer_e2ee_message E m data now = ret (m1, evs, d)"
  shows "evolves E m m1"
proof (cases "length data < 2 \<or> hd data \<noteq> PEER_E2EE_MARKER")
  case False
  then obtain p k where "slice_from data 2 = ret p" "peer_message_decode p = ret k"
    using assms by (auto simp: handle_peer_e2ee_message_def bind_eq_Some_conv)
  then show ?thesis
    using assms False
    by (auto simp: handle_peer_e2ee_message_def split: option.splits prod.splits sum.splits
        intro!: evolves_session_update intro: steps)
qed (use assms in \<open>simp add: handle_peer_e2ee_message_def\<close>)

lemma evolves_without_result:
  "without_result x = ret (m1, evs, r) \<Longrightarrow> (\<And>d. x = ret (m1, evs, d) \<Longrightarrow> evolves E m m1) \<Longrightarrow> evolves E m m1"
  by (auto simp: without_result_def bind_eq_Some_conv)

lemma evolves_receive:
  "on_ble_data_received E m ident data now = ret (m1, evs, r) \<Longrightarrow> evolves E m m1"
  "on_ble_data_received_from_node E m n data now = ret (m1, evs, r) \<Longrightarrow> evolves E m m1"
  "on_ble_data E m ident data now = ret (m1, evs, r) \<Longrightarrow> evolves E m m1"
  unfolding on_ble_data_received_def on_ble_data_received_from_node_def on_ble_data_def process_document_data_def
  by (auto split: option.splits if_splits elim!: evolves_without_result dest: evolves_key_exchange evolves_e2ee_message
      evolves_relay_with_identifier evolves_relay_with_incoming evolves_relay_envelope
      evolves_process_document evolves_incoming_document)

lemma evolves_register_identifier: "evolves E m (m\<lparr>m_peers := register_identifier (m_peers m) ident n\<rparr>)"
  by (simp add: evolves_intro steps)

lemma evolves_receive_anonymous:
  assumes "on_ble_data_received_anonymous E m ident data now = ret (m1, evs, r)"
  shows "evolves E m m1"
proof -
  have "evolves E m m1" if dec: "decrypt_document E m data (Some ident) = (pre, Some d)" "\<not> length d < 8" for pre d
  proof -
    obtain n delta where rd: "read_u32 d 4 = ret n" "is_delta_document d = ret delta"
      using dec no_panic_read_u32 [of 4 d] no_panic_is_delta [of d] by (fastforce simp: no_panic_ex)
    define m0 where "m0 = m\<lparr>m_peers := register_identifier (m_peers m) ident n\<rparr>"
    obtain s om where mg: "merge_document (pe_chat E) (m_sync m0) d = ret (s, om)" by (rule merge_document_returns)
    have "evolves E m0 m1"
      using assms dec rd mg
      by (auto simp: on_ble_data_received_anonymous_def Let_def simp flip: m0_def split: if_splits option.splits
          dest: evolves_delta_internal intro: evolves_merge)
    with evolves_register_identifier show ?thesis unfolding m0_def by (rule evolves_trans)
  qed
  then show ?thesis
    using assms by (auto simp: on_ble_data_received_anonymous_def split: prod.splits option.splits if_splits)
qed

subsection \<open>The remaining calls\<close>

lemma evolves_identity:
  "evolves E m (enable_encryption E m secret)" "evolves E m (disable_encryption m)"
  "evolves E m (mesh_enable_relay m)" "evolves E m (mesh_disable_relay m)"
  "evolves E m (add_observer m i)" "evolves E m (remove_observer m i)"
  "verify_peer_identity E m a = (m1, res) \<Longrightarrow> evolves E m m1"
  "evolves E m (pre_register_peer_identity m n pk now)" "evolves E m (forget_peer_identity m n)"
  by (auto simp: enable_encryption_def disable_encryption_def mesh_enable_relay_def mesh_disable_relay_def
      add_observer_def remove_observer_def verify_peer_identity_def pre_register_peer_identity_def
      forget_peer_identity_def evolves_def split: prod.splits)

lemma evolves_caches:
  "evolves E m (clear_seen_cache m)" "evolves E m (mark_canned_message_seen E clock m source ts)"
  "store_app_document_boxed m t source ts doc = (m1, changed) \<Longrightarrow> evolves E m m1"
  by (auto simp: clear_seen_cache_def mark_canned_message_seen_def store_app_document_boxed_def evolves_intro steps
      split: option.splits prod.splits)

lemma evolves_delta_bookkeeping:
  "evolves E m (register_peer_for_delta m n)" "evolves E m (unregister_peer_for_delta m n)"
  "evolves E m (reset_peer_delta_state m n)" "evolves E m (record_delta_sent m n k)"
  "evolves E m (record_delta_received m n k ts)"
  by (simp_all add: register_peer_for_delta_def unregister_peer_for_delta_def reset_peer_delta_state_def
      record_delta_sent_def record_delta_received_def evolves_intro)

lemma evolves_build_delta:
  assumes "build_delta_document_for_peer E iter m nonce n now = (m1, d)"
  shows "evolves E m m1"
proof -
  have "enc_wf (record_sent (dl\<lparr>enc_peers := bt_insert n s (enc_peers dl)\<rparr>) n k)" if "enc_wf dl" for dl s k
    using that by (intro enc_wf_ops) (simp add: enc_wf_def)
  then show ?thesis
    using assms
    by (auto simp: build_delta_document_for_peer_def evolves_intro split: if_splits option.splits)
qed

section \<open>Reachable states\<close>

inductive node_step :: "peat_env \<Rightarrow> 'd peat_mesh \<Rightarrow> 'd peat_mesh \<Rightarrow> bool" for E where
  "node_step E m (mesh_clear_event m)"
| "node_step E m (mesh_clear_emergency m)"
| "node_step E m (mesh_update_health m b)"
| "node_step E m (mesh_update_activity m a)"
| "node_step E m (mesh_update_health_full m b a)"
| "node_step E m (mesh_update_heart_rate m hr)"
| "node_step E m (mesh_update_location m lat lon alt)"
| "node_step E m (mesh_clear_location m)"
| "node_step E m (mesh_update_callsign m cs)"
| "node_step E m (mesh_set_peripheral_event m t ts)"
| "node_step E m (mesh_clear_peripheral_event m)"
| "node_step E m (mesh_update_peripheral_state m cs b ohr olat olon alt evt ts)"
| "mesh_send_emergency E m nonce ts = (m1, evs, d) \<Longrightarrow> node_step E m m1"
| "mesh_send_ack E m nonce ts = (m1, evs, d) \<Longrightarrow> node_step E m m1"
| "mesh_start_emergency E m nonce ts known_peers = (m1, evs, d) \<Longrightarrow> node_step E m m1"
| "start_emergency_with_known_peers E m nonce ts = (m1, evs, d) \<Longrightarrow> node_step E m m1"
| "mesh_ack_emergency E m nonce ts = (m1, evs, od) \<Longrightarrow> node_step E m m1"
| "pe_chat E \<Longrightarrow> mesh_send_chat E m nonce1 nonce2 who txt ts = (m1, od) \<Longrightarrow> node_step E m m1"
| "pe_chat E \<Longrightarrow> mesh_send_chat_reply E m nonce1 nonce2 who txt rn rts ts = (m1, od) \<Longrightarrow> node_step E m m1"
| "on_ble_discovered m ident name rssi mesh now = (m1, evs, peer) \<Longrightarrow> node_step E m m1"
| "on_ble_connected m ident now = (m1, evs, on) \<Longrightarrow> node_step E m m1"
| "on_ble_disconnected clock m ident reason = (m1, evs, on) \<Longrightarrow> node_step E m m1"
| "mesh_on_peer_disconnected clock m n reason = (m1, evs) \<Longrightarrow> node_step E m m1"
| "on_incoming_connection m ident n now = (m1, evs, is_new) \<Longrightarrow> node_step E m m1"
| "mesh_tick E m nonce now = (m1, evs, od) \<Longrightarrow> node_step E m m1"
| "tick_with_peer_deltas E m nonce now = (m1, evs, ds) \<Longrightarrow> node_step E m m1"
| "cleanup_indirect_peers m now = (m1, ns) \<Longrightarrow> node_step E m m1"
| "node_step E m (enable_peer_e2ee E m secret)"
| "node_step E m (disable_peer_e2ee m)"
| "initiate_peer_e2ee m n now = (m1, od) \<Longrightarrow> node_step E m m1"
| "send_peer_e2ee E m nonce n txt now = (m1, od) \<Longrightarrow> node_step E m m1"
| "close_peer_e2ee m n = (m1, evs) \<Longrightarrow> node_step E m m1"
| "mesh_handle_key_exchange E m data now = ret (m1, evs, od) \<Longrightarrow> node_step E m m1"
| "handle_peer_e2ee_message E m data now = ret (m1, evs, od) \<Longrightarrow> node_step E m m1"
| "node_step E m (enable_encryption E m secret)"
| "node_step E m (disable_encryption m)"
| "node_step E m (mesh_enable_relay m)"
| "node_step E m (mesh_disable_relay m)"
| "node_step E m (add_observer m i)"
| "node_step E m (remove_observer m i)"
| "verify_peer_identity E m att = (m1, res) \<Longrightarrow> node_step E m m1"
| "node_step E m (pre_register_peer_identity m n pk now)"
| "node_step E m (forget_peer_identity m n)"
| "mark_message_seen E m mid origin now = (m1, is_new) \<Longrightarrow> node_step E m m1"
| "node_step E m (clear_seen_cache m)"
| "node_step E m (mark_canned_message_seen E clock m source ts)"
| "process_relay_envelope E m data n now = ret (m1, evs, dec) \<Longrightarrow> node_step E m m1"
| "store_app_document_boxed m typ source ts doc = (m1, changed) \<Longrightarrow> node_step E m m1"
| "node_step E m (register_peer_for_delta m n)"
| "node_step E m (unregister_peer_for_delta m n)"
| "node_step E m (reset_peer_delta_state m n)"
| "node_step E m (record_delta_sent m n k)"
| "node_step E m (record_delta_received m n k ts)"
| "build_delta_document_for_peer E iter m nonce n now = (m1, od) \<Longrightarrow> node_step E m m1"
| "on_ble_data_received E m ident data now = ret (m1, evs, r) \<Longrightarrow> node_step E m m1"
| "on_ble_data_received_from_node E m n data now = ret (m1, evs, r) \<Longrightarrow> node_step E m m1"
| "on_ble_data E m ident data now = ret (m1, evs, r) \<Longrightarrow> node_step E m m1"
| "on_ble_data_received_anonymous E m ident data now = ret (m1, evs, r) \<Longrightarrow> node_step E m m1"

lemmas evolves_calls = evolves_setters evolves_emergencies evolves_chat evolves_platform evolves_tick
  evolves_ticks(2) evolves_sessions evolves_key_exchange evolves_e2ee_message evolves_identity evolves_mark_seen evolves_caches
  evolves_process_relay evolves_delta_bookkeeping evolves_build_delta evolves_receive evolves_receive_anonymous

lemma node_step_evolves: "node_step E m m' \<Longrightarrow> evolves E m m'"
  by (induction rule: node_step.induct)
    (rule evolves_calls; assumption | auto simp: start_emergency_with_known_peers_def intro: evolves_emergencies(3))+

lemma node_run_evolves: "(node_step E)\<^sup>*\<^sup>* m m' \<Longrightarrow> evolves E m m'"
  by (induction rule: rtranclp_induct) (auto intro: evolves_trans node_step_evolves)

subsection \<open>The invariant\<close>

definition node_inv :: "mesh_config \<Rightarrow> 'd peat_mesh \<Rightarrow> bool" where
  "node_inv c m \<longleftrightarrow>
     m_node_id m = mc_node_id c \<and> pm_inv (mc_node_id c) (mc_peer_config c) (m_peers m) \<and> graph_inv (m_graph m) \<and>
     sync_wf (m_sync m) \<and> sync_node_id (m_sync m) = mc_node_id c \<and>
     pred_option (\<lambda>s. sm_inv s \<and> max_sessions s = DEFAULT_MAX_SESSIONS \<and> our_node_id s = mc_node_id c) (m_sessions m) \<and>
     seen_wf (m_seen m) \<and> enc_wf (m_delta m) \<and> bt_wf (m_peripherals m) \<and> bt_wf (m_documents m)"

text \<open>What a component promises the facade: its steps keep its invariant.\<close>

locale stepwise =
  fixes step :: "'a \<Rightarrow> 'a \<Rightarrow> bool" and inv :: "'a \<Rightarrow> bool"
  assumes kept: "step x y \<Longrightarrow> inv x \<Longrightarrow> inv y"
begin

lemma run: "step\<^sup>*\<^sup>* x y \<Longrightarrow> inv x \<Longrightarrow> inv y"
  by (induction rule: rtranclp_induct) (auto intro: kept)

end

lemma sync_step_wf: "sync_step lc s s' \<Longrightarrow> sync_wf s \<and> sync_node_id s = n \<Longrightarrow> sync_wf s' \<and> sync_node_id s' = n"
  by (cases rule: sync_step.cases)
    (auto dest: sync_call_wf sync_call_counter merge_document_wf merge_document_counts)

lemma sync_step_counts:
  "sync_step lc s s' \<Longrightarrow> gcounter_node_count (sync_counter s) k \<le> gcounter_node_count (sync_counter s') k"
  by (cases rule: sync_step.cases)
    (auto dest!: sync_call_counter intro: merge_document_mono simp: gcounter_node_count_increment sat_add_ge)

lemma sync_steps_counts:
  "(sync_step lc)\<^sup>*\<^sup>* s s' \<Longrightarrow> gcounter_node_count (sync_counter s) k \<le> gcounter_node_count (sync_counter s') k"
  by (induction rule: rtranclp_induct) (auto dest: sync_step_counts [of _ _ _ k])

lemma sm_step_keeps: "sm_step C s s' \<Longrightarrow> max_sessions s' = max_sessions s \<and> our_node_id s' = our_node_id s"
  by (cases rule: sm_step.cases)
    (auto simp: initiate_session_def enforce_session_limit_def handle_key_exchange_def encrypt_for_peer_def
      decrypt_from_peer_def close_session_def remove_session_def cleanup_expired_def Let_def
      split: option.splits if_splits prod.splits sum.splits bool.splits)

lemma sm_inv_fresh: "sm_inv (session_manager_with_key n k)"
  by (simp add: session_manager_with_key_def sm_inv_def)

lemma session_step_inv:
  assumes "session_step C n s s'"
    and "pred_option (\<lambda>s. sm_inv s \<and> max_sessions s = DEFAULT_MAX_SESSIONS \<and> our_node_id s = n) s"
  shows "pred_option (\<lambda>s. sm_inv s \<and> max_sessions s = DEFAULT_MAX_SESSIONS \<and> our_node_id s = n) s'"
  using assms
  by (cases rule: session_step.cases)
    (auto simp: sm_inv_fresh session_manager_with_key_def [THEN arg_cong, of max_sessions]
      session_manager_with_key_def [THEN arg_cong, of our_node_id] dest: sm_step_keeps sm_inv_step)

lemma seen_step_wf: "seen_step iter c c' \<Longrightarrow> seen_wf c \<Longrightarrow> seen_wf c'"
  by (induction rule: seen_step.induct) (metis seen_wf_mark fst_conv, simp add: seen_clear_def seen_wf_def)

interpretation peer_table: stepwise pm_step "pm_inv self cfg" for self cfg
  by unfold_locales (rule pm_step_inv)

interpretation graph: stepwise graph_step graph_inv
  by unfold_locales (rule graph_step_inv)

interpretation document: stepwise "sync_step lc" "\<lambda>s. sync_wf s \<and> sync_node_id s = n" for lc n
  by unfold_locales (rule sync_step_wf)

interpretation e2ee: stepwise "session_step C n"
  "pred_option (\<lambda>s. sm_inv s \<and> max_sessions s = DEFAULT_MAX_SESSIONS \<and> our_node_id s = n)" for C n
  by unfold_locales (rule session_step_inv)

interpretation seen_table: stepwise "seen_step iter" seen_wf for iter
  by unfold_locales (rule seen_step_wf)

lemma node_inv_evolves:
  assumes "evolves E m m'" "node_inv c m"
  shows "node_inv c m'"
  using assms peer_table.run [of "m_peers m" "m_peers m'"] graph.run [of "m_graph m" "m_graph m'"]
    document.run [of "pe_chat E" "m_sync m" "m_sync m'"] e2ee.run [of "pe_crypto E" _ "m_sessions m" "m_sessions m'"]
    seen_table.run [of "pe_seen_iter E" "m_seen m" "m_seen m'"]
  by (auto simp: evolves_def node_inv_def m_node_id_def)

lemma node_inv_build: "node_inv c (peat_mesh_build E c i)"
  using sync_wf_with_peripheral_type [of "mc_node_id c"]
  by (simp add: node_inv_def peat_mesh_build_def m_node_id_def pm_inv_new graph_inv_new
      sync_with_peripheral_type_def [THEN arg_cong, of sync_node_id] seen_cache_with_ttl_def seen_wf_def enc_wf_ops)

lemma node_run_inv: "(node_step E)\<^sup>*\<^sup>* (peat_mesh_build E c i) m \<Longrightarrow> node_inv c m"
  by (rule node_inv_evolves [OF node_run_evolves node_inv_build])

section \<open>Strict encryption\<close>

datatype arrival = FromIdentifier string | FromNode node_id | Untracked string | Anonymous string

fun receive :: "peat_env \<Rightarrow> 'd peat_mesh \<Rightarrow> arrival \<Rightarrow> bytes \<Rightarrow> u64 \<Rightarrow> ('d, data_received_result) reaction outcome" where
  "receive E m (FromIdentifier ident) data now = on_ble_data_received E m ident data now"
| "receive E m (FromNode n) data now = on_ble_data_received_from_node E m n data now"
| "receive E m (Untracked ident) data now = on_ble_data E m ident data now"
| "receive E m (Anonymous ident) data now = on_ble_data_received_anonymous E m ident data now"

definition sealed :: "peat_env \<Rightarrow> bytes \<Rightarrow> bytes \<Rightarrow> bool" where
  "sealed E key data \<longleftrightarrow> length data \<ge> 2 \<and> hd data = ENCRYPTED_MARKER
     \<and> \<not> isl (mesh_decrypt_from_bytes (pe_crypto E) key (drop 2 data))"

definition carried :: "peat_env \<Rightarrow> bytes \<Rightarrow> bytes list" where
  "carried E data =
     data # (case relay_envelope_decode (pe_usize E) data of Some (Some env) \<Rightarrow> [env_payload env] | _ \<Rightarrow> [])"

text \<open>What a node knows of the others, and what decides on encryption.\<close>

definition node_content where "node_content m = (m_sync m, m_peripherals m, m_documents m)"
definition node_security where "node_security m = (m_key m, m_config m)"

lemma same_mark_seen:
  "mark_message_seen E m mid origin now = (m1, b) \<Longrightarrow> node_content m1 = node_content m \<and> node_security m1 = node_security m"
  by (auto simp: mark_message_seen_def node_content_def node_security_def split: prod.splits)

lemma same_note_indirect [simp]:
  "node_content (note_indirect m source env now) = node_content m"
  "node_security (note_indirect m source env now) = node_security m"
  by (simp_all add: note_indirect_def node_content_def node_security_def)

lemma decrypt_document_security:
  "node_security m1 = node_security m \<Longrightarrow> decrypt_document E m1 data hint = decrypt_document E m data hint"
  by (simp add: decrypt_document_def is_strict_encryption_enabled_def node_security_def split: option.splits sum.splits)

definition strict_with :: "bytes \<Rightarrow> 'd peat_mesh \<Rightarrow> bool" where
  "strict_with key m \<longleftrightarrow> m_key m = Some key \<and> mc_strict_encryption (m_config m)"

lemma strict_with_security: "node_security m1 = node_security m \<Longrightarrow> strict_with key m1 = strict_with key m"
  by (simp add: strict_with_def node_security_def)

lemma decrypt_strict:
  assumes "strict_with key m" "\<not> sealed E key data"
  shows "decrypt_document E m data hint =
    ([SecurityViolation (if length data \<ge> 2 \<and> hd data = ENCRYPTED_MARKER then KindDecryptionFailed
        else UnencryptedInStrictMode) hint], None)"
  using assms
  by (auto simp: decrypt_document_def strict_with_def sealed_def is_strict_encryption_enabled_def isl_def
      split: sum.splits)

lemma strict_process_document:
  assumes "strict_with key m" "\<not> sealed E key data"
    and "process_document_data_with_identifier E m source ident data now relay_data origin hops = ret (m1, evs, r)"
  shows "m1 = m \<and> r = None"
  using assms(3) by (simp add: process_document_data_with_identifier_def decrypt_strict [OF assms(1,2)])

lemma strict_incoming_document:
  assumes "strict_with key m" "\<not> sealed E key data"
    and "process_incoming_document E m ident data now relay_data origin hops = ret (m1, evs, r)"
  shows "m1 = m \<and> r = None"
  using assms(3) by (simp add: process_incoming_document_def decrypt_strict [OF assms(1,2)])

lemma with_events_ret: "with_events pre x = ret (m1, evs, r) \<Longrightarrow> \<exists>evs'. x = ret (m1, evs', r)"
  by (auto simp: with_events_def bind_eq_Some_conv)

lemma without_result_ret: "without_result x = ret (m1, evs, r) \<Longrightarrow> r = None \<and> (\<exists>d. x = ret (m1, evs, d))"
  by (auto simp: without_result_def bind_eq_Some_conv)

lemma strict_relay_with_identifier:
  assumes m: "strict_with key m" and c: "\<forall>p \<in> set (carried E data). \<not> sealed E key p"
    and h: "handle_relay_envelope_with_identifier E m source ident data now = ret (m1, evs, r)"
  shows "node_content m1 = node_content m \<and> r = None"
proof -
  have "node_content m1 = node_content m \<and> r = None" if d: "relay_envelope_decode (pe_usize E) data = ret (Some env)" for env
  proof -
    obtain m2 b where mk: "mark_message_seen E m (env_message_id env) (env_origin_node env) now = (m2, b)" by fastforce
    obtain rd es where ro: "relay_or_expire m2 env = (rd, es)" by fastforce
    have "strict_with key m2" "\<not> sealed E key (env_payload env)"
      using m c d same_mark_seen [OF mk] strict_with_security by (auto simp: carried_def)
    note rej = strict_process_document [OF this]
    have "m1 = m2 \<and> r = None"
      using h d mk ro by (auto simp: handle_relay_envelope_with_identifier_def split: if_splits
          dest!: with_events_ret dest: rej)
    then show ?thesis using same_mark_seen [OF mk] by simp
  qed
  then show ?thesis
    using h by (auto simp: handle_relay_envelope_with_identifier_def bind_eq_Some_conv split: option.splits)
qed

lemma strict_relay_with_incoming:
  assumes m: "strict_with key m" and c: "\<forall>p \<in> set (carried E data). \<not> sealed E key p"
    and h: "handle_relay_envelope_with_incoming E m ident data now = ret (m1, evs, r)"
  shows "node_content m1 = node_content m \<and> r = None"
proof -
  have "node_content m1 = node_content m \<and> r = None" if d: "relay_envelope_decode (pe_usize E) data = ret (Some env)" for env
  proof -
    define m0 where
      "m0 = (case pm_get_node_id (m_peers m) ident of Some source \<Rightarrow> note_indirect m source env now | None \<Rightarrow> m)"
    have m0: "node_content m0 = node_content m" "node_security m0 = node_security m"
      by (simp_all add: m0_def split: option.splits)
    obtain m2 b where mk: "mark_message_seen E m0 (env_message_id env) (env_origin_node env) now = (m2, b)" by fastforce
    obtain rd es where ro: "relay_or_expire m2 env = (rd, es)" by fastforce
    have "strict_with key m2" "\<not> sealed E key (env_payload env)"
      using m c d same_mark_seen [OF mk] strict_with_security m0 by (auto simp: carried_def)
    note rej = strict_incoming_document [OF this]
    have "m1 = m2 \<and> r = None"
      using h d mk ro by (auto simp: handle_relay_envelope_with_incoming_def simp flip: m0_def split: if_splits
          dest!: with_events_ret dest: rej)
    then show ?thesis using same_mark_seen [OF mk] m0 by simp
  qed
  then show ?thesis
    using h by (auto simp: handle_relay_envelope_with_incoming_def bind_eq_Some_conv split: option.splits)
qed

lemma strict_relay_envelope:
  assumes m: "strict_with key m" and c: "\<forall>p \<in> set (carried E data). \<not> sealed E key p"
    and h: "handle_relay_envelope E m source data now = ret (m1, evs, r)"
  shows "node_content m1 = node_content m \<and> r = None"
proof -
  have "node_content m1 = node_content m \<and> r = None" if d: "relay_envelope_decode (pe_usize E) data = ret (Some env)" for env
  proof -
    obtain m2 b where mk: "mark_message_seen E (note_indirect m source env now) (env_message_id env)
        (env_origin_node env) now = (m2, b)" by fastforce
    have "strict_with key m2" "\<not> sealed E key (env_payload env)"
      using m c d same_mark_seen [OF mk] strict_with_security same_note_indirect(2) by (auto simp: carried_def)
    note rej = strict_process_document [OF this]
    have "m1 = m2 \<and> r = None"
      using h d mk by (auto simp: handle_relay_envelope_def process_relay_envelope_def process_document_data_def
          split: if_splits dest!: with_events_ret dest: rej)
    then show ?thesis using same_mark_seen [OF mk] by simp
  qed
  then show ?thesis
    using h by (auto simp: handle_relay_envelope_def process_relay_envelope_def bind_eq_Some_conv split: option.splits)
qed

lemma key_exchange_content:
  assumes "mesh_handle_key_exchange E m data now = ret (m1, evs, d)"
  shows "node_content m1 = node_content m"
proof (cases "length data < 2 \<or> hd data \<noteq> KEY_EXCHANGE_MARKER")
  case False
  then obtain p k where "slice_from data 2 = ret p" "key_exchange_decode p = ret k"
    using assms by (auto simp: mesh_handle_key_exchange_def bind_eq_Some_conv)
  then show ?thesis
    using assms False by (auto simp: mesh_handle_key_exchange_def node_content_def split: option.splits prod.splits)
qed (use assms in \<open>simp add: mesh_handle_key_exchange_def\<close>)

lemma e2ee_message_content:
  assumes "handle_peer_e2ee_message E m data now = ret (m1, evs, d)"
  shows "node_content m1 = node_content m"
proof (cases "length data < 2 \<or> hd data \<noteq> PEER_E2EE_MARKER")
  case False
  then obtain p k where "slice_from data 2 = ret p" "peer_message_decode p = ret k"
    using assms by (auto simp: handle_peer_e2ee_message_def bind_eq_Some_conv)
  then show ?thesis
    using assms False
    by (auto simp: handle_peer_e2ee_message_def node_content_def split: option.splits prod.splits sum.splits)
qed (use assms in \<open>simp add: handle_peer_e2ee_message_def\<close>)

lemma strict_receive:
  assumes m: "strict_with key m" and c: "\<forall>p \<in> set (carried E data). \<not> sealed E key p"
    and r: "receive E m a data now = ret (m1, evs, r)"
  shows "node_content m1 = node_content m \<and> r = None"
proof -
  have "\<not> sealed E key data" using c by (simp add: carried_def)
  note rej = strict_process_document [OF m this] strict_incoming_document [OF m this] decrypt_strict [OF m this]
  show ?thesis
  proof (cases a)
    case (Anonymous ident)
    then show ?thesis using r by (simp add: on_ble_data_received_anonymous_def rej(3))
  qed (use r in \<open>auto simp: on_ble_data_received_def on_ble_data_received_from_node_def on_ble_data_def
      process_document_data_def split: if_splits option.splits dest!: without_result_ret
      dest: rej(1,2) key_exchange_content e2ee_message_content strict_relay_envelope [OF m c]
        strict_relay_with_identifier [OF m c] strict_relay_with_incoming [OF m c]\<close>)
qed

lemma receive_safe: "36 \<le> pe_usize E \<Longrightarrow> no_panic (receive E m a data now)"
  by (cases a) (simp_all add: receive_no_panic)

lemma evolves_received: "receive E m a data now = ret (m1, evs, r) \<Longrightarrow> evolves E m m1"
  by (cases a) (simp_all add: evolves_receive evolves_receive_anonymous)

section \<open>Delivery\<close>

definition encrypts :: "peat_env \<Rightarrow> bytes \<Rightarrow> bytes \<Rightarrow> bytes \<Rightarrow> bool" where
  "encrypts E key nonce data \<longleftrightarrow> length nonce = 12 \<and> \<not> isl (mesh_encrypt_to_bytes (pe_crypto E) key nonce data)"

lemma decrypt_encrypt_document:
  assumes "aead_correct (pe_crypto E)" "m_key s = Some key" "m_key t = Some key" "encrypts E key nonce data"
  shows "decrypt_document E t (encrypt_document E s nonce data) hint = ([], Some data)"
  using assms mesh_roundtrip(1) [OF assms(1)]
  by (auto simp: encrypts_def encrypt_document_def decrypt_document_def isl_def split: sum.splits)

lemma encrypt_document_bytes:
  assumes "m_key s = Some key" "encrypts E key nonce data"
  shows "\<exists>ct. encrypt_document E s nonce data = [ENCRYPTED_MARKER, 0x00] @ ct"
  using assms by (auto simp: encrypts_def encrypt_document_def isl_def split: sum.splits)

lemma build_document_Cons: "\<exists>rest. build_document lc s = ucast (sync_version s) # rest \<and> length rest \<ge> 7"
  by (simp add: build_document_def doc_encode_def sync_document_def to_le_def upt_rec)

lemma is_delta_build: "is_delta_document (build_document lc s) = ret (ucast (sync_version s) = DELTA_DOCUMENT_MARKER)"
  using build_document_Cons [of lc s] by (auto simp: is_delta_document_def read_u8_def)

definition deliverable :: "peat_env \<Rightarrow> (u64 \<Rightarrow> u32) \<Rightarrow> (u64 \<Rightarrow> chat_message) \<Rightarrow> document_sync \<Rightarrow> document_sync \<Rightarrow> bool" where
  "deliverable E src h s t \<longleftrightarrow>
     doc_encodable (pe_chat E) (sync_document (pe_chat E) s) \<and> sync_node_id s \<noteq> sync_node_id t \<and>
     sync_ok (pe_chat E) src h s \<and> sync_ok (pe_chat E) src h t \<and>
     ucast (sync_version s) \<notin> {DELTA_DOCUMENT_MARKER, APP_LAYER_MARKER}"

definition learnt :: "peat_env \<Rightarrow> document_sync \<Rightarrow> 'd peat_mesh \<Rightarrow> 'd peat_mesh \<Rightarrow> bool" where
  "learnt E s t t' \<longleftrightarrow>
     sync_replica (m_sync t') = replica_merge (sync_replica (m_sync t)) (replica (sync_document (pe_chat E) s))"

lemma merge_delivers:
  assumes "deliverable E src h s (m_sync t)"
  obtains s' x where "merge_document (pe_chat E) (m_sync t) (build_document (pe_chat E) s) = ret (s', Some x)"
    "mr_source_node x = sync_node_id s"
    "sync_replica s' = replica_merge (sync_replica (m_sync t)) (replica (sync_document (pe_chat E) s))"
proof -
  let ?d = "sync_document (pe_chat E) s"
  have d: "doc_decode (pe_chat E) (build_document (pe_chat E) s) = ret (Some ?d)"
    using assms doc_decode_encode by (simp add: deliverable_def build_document_def)
  have "doc_node_id ?d = sync_node_id s" by (simp add: sync_document_def)
  then show thesis
    using merge_document_replica [OF d, of "m_sync t" src h] assms that
    by (auto simp: deliverable_def doc_ok_sync_document)
qed

lemma process_document_delivers:
  assumes "deliverable E src h s (m_sync t)"
    and "decrypt_document E t data (Some ident) = ([], Some (build_document (pe_chat E) s))"
  shows "\<exists>t' evs x. process_document_data_with_identifier E t source ident data now relay_data origin hops
      = ret (t', evs, Some (merged_result x relay_data origin hops))
    \<and> mr_source_node x = sync_node_id s \<and> learnt E s t t'"
proof -
  obtain s' x where mg: "merge_document (pe_chat E) (m_sync t) (build_document (pe_chat E) s) = ret (s', Some x)"
    "mr_source_node x = sync_node_id s"
    "sync_replica s' = replica_merge (sync_replica (m_sync t)) (replica (sync_document (pe_chat E) s))"
    using merge_delivers [OF assms(1)] .
  have "ucast (sync_version s) \<noteq> DELTA_DOCUMENT_MARKER" using assms(1) by (simp add: deliverable_def)
  then show ?thesis
    using assms(2) mg
    by (auto simp: process_document_data_with_identifier_def is_delta_build learnt_def store_peripheral_def Let_def
        split: option.splits)
qed

lemma incoming_document_delivers:
  assumes "deliverable E src h s (m_sync t)"
    and "decrypt_document E t data (Some ident) = ([], Some (build_document (pe_chat E) s))"
  shows "\<exists>t' evs x. process_incoming_document E t ident data now relay_data origin hops
      = ret (t', evs, Some (merged_result x relay_data origin hops))
    \<and> mr_source_node x = sync_node_id s \<and> learnt E s t t'"
proof -
  obtain s' x where mg: "merge_document (pe_chat E) (m_sync t) (build_document (pe_chat E) s) = ret (s', Some x)"
    "mr_source_node x = sync_node_id s"
    "sync_replica s' = replica_merge (sync_replica (m_sync t)) (replica (sync_document (pe_chat E) s))"
    using merge_delivers [OF assms(1)] .
  then show ?thesis
    using assms(2) by (auto simp: process_incoming_document_def learnt_def Let_def split: prod.splits)
qed

lemma anonymous_delivers:
  assumes "deliverable E src h s (m_sync t)"
    and "decrypt_document E t data (Some ident) = ([], Some (build_document (pe_chat E) s))"
  shows "\<exists>t' evs x. on_ble_data_received_anonymous E t ident data now = ret (t', evs, Some (merged_result x None None 0))
    \<and> mr_source_node x = sync_node_id s \<and> learnt E s t t'"
proof -
  let ?doc = "build_document (pe_chat E) s"
  obtain s' x where mg: "merge_document (pe_chat E) (m_sync t) ?doc = ret (s', Some x)"
    "mr_source_node x = sync_node_id s"
    "sync_replica s' = replica_merge (sync_replica (m_sync t)) (replica (sync_document (pe_chat E) s))"
    using merge_delivers [OF assms(1)] .
  have v: "ucast (sync_version s) \<noteq> DELTA_DOCUMENT_MARKER" "hd ?doc \<noteq> APP_LAYER_MARKER" "length ?doc \<ge> 8"
    using assms(1) build_document_Cons [of "pe_chat E" s] by (auto simp: deliverable_def)
  then obtain n where "read_u32 ?doc 4 = ret n"
    using no_panic_read_u32 [of 4 ?doc] by (auto simp: no_panic_ex)
  then show ?thesis
    using assms(2) mg v by (auto simp: on_ble_data_received_anonymous_def is_delta_build learnt_def)
qed

lemma merged_result_fields [simp]:
  "dr_source_node (merged_result x rd origin hops) = mr_source_node x"
  "dr_relay_data (merged_result x rd origin hops) = rd"
  "dr_origin_node (merged_result x rd origin hops) = origin"
  "dr_hop_count (merged_result x rd origin hops) = hops"
  by (simp_all add: merged_result_def received_result_def split: prod.splits)

subsection \<open>Directly\<close>

definition known_sender :: "'d peat_mesh \<Rightarrow> arrival \<Rightarrow> bool" where
  "known_sender t a = (case a of FromIdentifier ident \<Rightarrow> pm_get_node_id (m_peers t) ident \<noteq> None | _ \<Rightarrow> True)"

lemma receive_sealed_delivers:
  assumes d: "deliverable E src h s (m_sync t)" and k: "known_sender t a"
    and b: "data = [ENCRYPTED_MARKER, 0x00] @ ct"
    and dec: "\<And>hint. decrypt_document E t data hint = ([], Some (build_document (pe_chat E) s))"
  shows "\<exists>t' evs r. receive E t a data now = ret (t', evs, Some r) \<and> dr_source_node r = sync_node_id s \<and> learnt E s t t'"
proof -
  have "hd data = ENCRYPTED_MARKER" "length data \<ge> 2" using b by simp_all
  then have direct: "receive E t a data now =
      (case a of FromIdentifier ident \<Rightarrow>
         process_document_data_with_identifier E t (the (pm_get_node_id (m_peers t) ident)) ident data now None None 0
       | FromNode n \<Rightarrow> process_document_data E t n data now None None 0
       | Untracked ident \<Rightarrow> process_incoming_document E t ident data now None None 0
       | Anonymous ident \<Rightarrow> on_ble_data_received_anonymous E t ident data now)"
    using k by (auto simp: known_sender_def on_ble_data_received_def on_ble_data_received_from_node_def on_ble_data_def
        mesh_markers split: arrival.splits)
  show ?thesis
    unfolding direct process_document_data_def
    using process_document_delivers [OF d dec] incoming_document_delivers [OF d dec] anonymous_delivers [OF d dec]
    by (cases a) (fastforce)+
qed

subsection \<open>Through relays\<close>

definition fresh_message :: "peat_env \<Rightarrow> msg_id \<Rightarrow> node_id \<Rightarrow> u64 \<Rightarrow> 'd peat_mesh \<Rightarrow> bool" where
  "fresh_message E mid origin now t \<longleftrightarrow> snd (mark_message_seen E t mid origin now)"

lemma mark_seen_note_indirect:
  "mark_message_seen E (note_indirect m source env now) mid origin t = (m1, b) \<Longrightarrow>
   b = snd (mark_message_seen E m mid origin t) \<and> m_sync m1 = m_sync m \<and> node_security m1 = node_security m"
  "mark_message_seen E m mid origin t = (m1, b) \<Longrightarrow> m_sync m1 = m_sync m \<and> node_security m1 = node_security m"
  by (auto simp: mark_message_seen_def note_indirect_def node_security_def split: prod.splits if_splits)

definition next_hop :: "'d peat_mesh \<Rightarrow> relay_envelope \<Rightarrow> bytes option" where
  "next_hop m env = (if mc_enable_relay (m_config m) then map_option relay_envelope_encode (relay env) else None)"

definition relay_arrival :: "'d peat_mesh \<Rightarrow> arrival \<Rightarrow> bool" where
  "relay_arrival t a =
     (case a of FromIdentifier ident \<Rightarrow> pm_get_node_id (m_peers t) ident \<noteq> None | Anonymous _ \<Rightarrow> False | _ \<Rightarrow> True)"

definition relayed_to ::
  "peat_env \<Rightarrow> document_sync \<Rightarrow> 'd peat_mesh \<Rightarrow> relay_envelope \<Rightarrow> ('d, data_received_result) reaction outcome \<Rightarrow> bool" where
  "relayed_to E s t env out \<longleftrightarrow>
     (\<exists>t' evs r. out = ret (t', evs, Some r) \<and> learnt E s t t' \<and> dr_source_node r = sync_node_id s
       \<and> dr_origin_node r = Some (env_origin_node env) \<and> dr_hop_count r = hop_count env
       \<and> dr_relay_data r = next_hop t env)"

definition carries :: "peat_env \<Rightarrow> document_sync \<Rightarrow> 'd peat_mesh \<Rightarrow> relay_envelope \<Rightarrow> bool" where
  "carries E s t env \<longleftrightarrow> (\<forall>hint. decrypt_document E t (env_payload env) hint = ([], Some (build_document (pe_chat E) s)))"

lemma relayed_with_events [simp]: "relayed_to E s t env (with_events pre out) = relayed_to E s t env out"
  by (cases out) (auto simp: relayed_to_def with_events_def)

lemma relayed_core:
  assumes "deliverable E src h s (m_sync t)" "carries E s t env" "m_sync t1 = m_sync t" "node_security t1 = node_security t"
  shows "relayed_to E s t env (process_document_data_with_identifier E t1 source ident (env_payload env) now (next_hop t env)
      (Some (env_origin_node env)) (hop_count env))"
    "relayed_to E s t env (process_incoming_document E t1 ident (env_payload env) now (next_hop t env)
      (Some (env_origin_node env)) (hop_count env))"
proof -
  have d: "deliverable E src h s (m_sync t1)" using assms by simp
  have dec: "decrypt_document E t1 (env_payload env) (Some ident) = ([], Some (build_document (pe_chat E) s))"
    using assms(2) decrypt_document_security [OF assms(4)] by (simp add: carries_def)
  have l: "learnt E s t1 t' \<Longrightarrow> learnt E s t t'" for t' using assms(3) by (simp add: learnt_def)
  show "relayed_to E s t env (process_document_data_with_identifier E t1 source ident (env_payload env) now (next_hop t env)
      (Some (env_origin_node env)) (hop_count env))"
    using process_document_delivers [OF d dec, of source now "next_hop t env" "Some (env_origin_node env)" "hop_count env"] l
    by (auto simp: relayed_to_def)
  show "relayed_to E s t env (process_incoming_document E t1 ident (env_payload env) now (next_hop t env)
      (Some (env_origin_node env)) (hop_count env))"
    using incoming_document_delivers [OF d dec, of now "next_hop t env" "Some (env_origin_node env)" "hop_count env"] l
    by (auto simp: relayed_to_def)
qed

lemma relay_or_expire_next_hop:
  "node_security t1 = node_security t \<Longrightarrow> relay_or_expire t1 env = (next_hop t env, snd (relay_or_expire t1 env))"
  by (auto simp: relay_or_expire_def next_hop_def node_security_def relay_def)

definition arrives :: "peat_env \<Rightarrow> document_sync \<Rightarrow> 'd peat_mesh \<Rightarrow> relay_envelope \<Rightarrow> bytes \<Rightarrow> u64 \<Rightarrow> bool" where
  "arrives E s t env data now \<longleftrightarrow>
     (\<exists>src h. deliverable E src h s (m_sync t)) \<and> carries E s t env \<and>
     relay_envelope_decode (pe_usize E) data = ret (Some env) \<and>
     fresh_message E (env_message_id env) (env_origin_node env) now t"

lemma relayed_with_identifier:
  assumes "arrives E s t env data now"
  shows "relayed_to E s t env (handle_relay_envelope_with_identifier E t source ident data now)"
proof -
  obtain t1 where t1: "mark_message_seen E t (env_message_id env) (env_origin_node env) now = (t1, True)"
    using assms by (metis arrives_def fresh_message_def prod.collapse)
  note s1 = mark_seen_note_indirect(2) [OF t1]
  then show ?thesis
    using assms t1 relay_or_expire_next_hop [of t1 t env] relayed_core(1) [of E _ _ s t env t1]
    by (auto simp: arrives_def handle_relay_envelope_with_identifier_def split: prod.splits)
qed

lemma relayed_with_incoming:
  assumes "arrives E s t env data now"
  shows "relayed_to E s t env (handle_relay_envelope_with_incoming E t ident data now)"
proof -
  define t0 where
    "t0 = (case pm_get_node_id (m_peers t) ident of Some source \<Rightarrow> note_indirect t source env now | None \<Rightarrow> t)"
  obtain t1 b where t1: "mark_message_seen E t0 (env_message_id env) (env_origin_node env) now = (t1, b)" by fastforce
  then have s1: "b" "m_sync t1 = m_sync t" "node_security t1 = node_security t"
    using assms mark_seen_note_indirect
    by (fastforce simp: t0_def arrives_def fresh_message_def split: option.splits)+
  then show ?thesis
    using assms t1 relay_or_expire_next_hop [of t1 t env] relayed_core(2) [of E _ _ s t env t1]
    by (auto simp: arrives_def handle_relay_envelope_with_incoming_def simp flip: t0_def split: prod.splits)
qed

lemma relayed_from_node:
  assumes "arrives E s t env data now"
  shows "relayed_to E s t env (handle_relay_envelope E t source data now)"
proof -
  obtain t1 b where t1: "mark_message_seen E (note_indirect t source env now) (env_message_id env)
      (env_origin_node env) now = (t1, b)" by fastforce
  note s1 = mark_seen_note_indirect(1) [OF t1]
  have "b" using s1 assms by (simp add: arrives_def fresh_message_def)
  then show ?thesis
    using assms t1 s1 relayed_core(1) [of E _ _ s t env t1]
    by (auto simp: arrives_def handle_relay_envelope_def process_relay_envelope_def process_document_data_def
        rd_relay_data_def next_hop_def relay_def)
qed

lemma receive_relayed:
  assumes "arrives E s t env (relay_envelope_encode env) now" "relay_arrival t a"
  shows "relayed_to E s t env (receive E t a (relay_envelope_encode env) now)"
proof -
  have "hd (relay_envelope_encode env) = RELAY_ENVELOPE_MARKER" "length (relay_envelope_encode env) \<ge> 2"
    by (simp_all add: relay_envelope_encode_def)
  then show ?thesis
    using assms relayed_with_identifier [OF assms(1)] relayed_with_incoming [OF assms(1)] relayed_from_node [OF assms(1)]
    by (cases a) (auto simp: relay_arrival_def on_ble_data_received_def on_ble_data_received_from_node_def
        on_ble_data_def mesh_markers)
qed

text \<open>A path through the mesh: each node receives what the one before passes on.\<close>

fun pass_along ::
  "peat_env \<Rightarrow> ('d peat_mesh \<times> arrival \<times> u64) list \<Rightarrow> bytes \<Rightarrow> ('d peat_mesh \<times> data_received_result) list" where
  "pass_along E [] data = []"
| "pass_along E ((t, a, now) # path) data =
     (case receive E t a data now of
        Some (t', evs, Some r) \<Rightarrow>
          (t', r) # (case dr_relay_data r of Some d \<Rightarrow> pass_along E path d | None \<Rightarrow> [])
      | _ \<Rightarrow> [])"

definition hop_ok :: "peat_env \<Rightarrow> document_sync \<Rightarrow> relay_envelope \<Rightarrow> 'd peat_mesh \<times> arrival \<times> u64 \<Rightarrow> bool" where
  "hop_ok E s env = (\<lambda>(t, a, now).
     (\<exists>src h. deliverable E src h s (m_sync t)) \<and> carries E s t env \<and> mc_enable_relay (m_config t) \<and> relay_arrival t a \<and>
     fresh_message E (env_message_id env) (env_origin_node env) now t)"

lemma hop_ok_hop_count [simp]: "hop_ok E s (env\<lparr>hop_count := k\<rparr>) = hop_ok E s env"
  by (simp add: hop_ok_def carries_def)

lemma hop_delivers:
  assumes "hop_ok E s env (t, a, now)" "relay_envelope_valid (pe_usize E) env"
  shows "relayed_to E s t env (receive E t a (relay_envelope_encode env) now)"
    "next_hop t env = map_option relay_envelope_encode (relay env)"
proof -
  have "relay_envelope_decode (pe_usize E) (relay_envelope_encode env) = ret (Some env)"
    using relay_envelope_decode_encode [OF assms(2), of "[]"] by simp
  then have "arrives E s t env (relay_envelope_encode env) now" using assms(1) by (auto simp: arrives_def hop_ok_def)
  then show "relayed_to E s t env (receive E t a (relay_envelope_encode env) now)"
    using receive_relayed assms(1) by (auto simp: hop_ok_def)
  show "next_hop t env = map_option relay_envelope_encode (relay env)"
    using assms(1) by (simp add: next_hop_def hop_ok_def)
qed

definition reached :: "peat_env \<Rightarrow> document_sync \<Rightarrow> node_id \<Rightarrow> 'd peat_mesh \<times> arrival \<times> u64 \<Rightarrow> 'd peat_mesh \<times> data_received_result \<Rightarrow> bool" where
  "reached E s origin = (\<lambda>(t, a, now) (t', r). learnt E s t t' \<and> dr_source_node r = sync_node_id s \<and> dr_origin_node r = Some origin)"

lemma pass_along_delivers:
  assumes "\<forall>p \<in> set path. hop_ok E s env p" "relay_envelope_valid (pe_usize E) env"
    and "length path \<le> Suc (unat (remaining_hops env))"
  shows "list_all2 (reached E s (env_origin_node env)) path (pass_along E path (relay_envelope_encode env))"
  using assms
proof (induction path arbitrary: env)
  case (Cons p path)
  obtain t a now where p: "p = (t, a, now)" by (metis prod_cases3)
  from Cons.prems(1) p have ok: "hop_ok E s env (t, a, now)" by simp
  from hop_delivers(1) [OF ok Cons.prems(2)] obtain t' evs r where
    r: "receive E t a (relay_envelope_encode env) now = ret (t', evs, Some r)" "learnt E s t t'"
      "dr_source_node r = sync_node_id s" "dr_origin_node r = Some (env_origin_node env)" "dr_relay_data r = next_hop t env"
    by (auto simp: relayed_to_def)
  show ?case
  proof (cases "relay env")
    case None
    then have "path = []" using Cons.prems(3) relay_None [of env] by simp
    then show ?thesis using p r by (simp add: reached_def split: option.splits)
  next
    case (Some env')
    then have e: "env' = env\<lparr>hop_count := hop_count env + 1\<rparr>" "Suc (unat (remaining_hops env')) = unat (remaining_hops env)"
      using relay_step [of env env'] by (auto simp: relay_def split: if_splits)
    have "list_all2 (reached E s (env_origin_node env')) path (pass_along E path (relay_envelope_encode env'))"
      by (rule Cons.IH) (use Cons.prems e in \<open>auto simp: relay_envelope_valid_def\<close>)
    then show ?thesis using p r Some hop_delivers(2) [OF ok Cons.prems(2)] e(1) by (simp add: reached_def)
  qed
qed simp

subsection \<open>Chat messages are sealed twice\<close>

lemma doc_decode_many_entries:
  assumes "read_u32 data 8 = ret n" "unat n > MAX_COUNTER_ENTRIES"
  shows "doc_decode lc data = ret None"
proof -
  have l: "length data \<ge> 12" using assms(1) by (auto simp: read_u32_def read_le_def split: if_splits)
  then have "read_u32 (drop 8 data) 0 = ret n"
    using assms(1) by (simp add: read_u32_def read_le_def)
  then have "gcounter_decode (drop 8 data) = ret None" using l assms(2) by (simp add: gcounter_decode_def)
  moreover obtain v i where "read_u32 data 0 = ret v" "read_u32 data 4 = ret i"
    using l no_panic_read_u32 [of 0 data] no_panic_read_u32 [of 4 data] by (auto simp: no_panic_ex)
  ultimately show ?thesis using l by (simp add: doc_decode_def slice_from_def MIN_DOCUMENT_SIZE_def)
qed

lemma sealed_document_unreadable:
  assumes "m_key s = Some key" "encrypts E key nonce doc" "read_u32 nonce 6 = ret n" "unat n > MAX_COUNTER_ENTRIES"
    and "read_u32 nonce 2 = ret src"
  shows "doc_decode lc (encrypt_document E s nonce doc) = ret None" "hd (encrypt_document E s nonce doc) = ENCRYPTED_MARKER"
    "read_u32 (encrypt_document E s nonce doc) 4 = ret src" "8 \<le> length (encrypt_document E s nonce doc)"
proof -
  obtain ct where e: "encrypt_document E s nonce doc = [ENCRYPTED_MARKER, 0x00] @ nonce @ ct"
    using assms(1,2)
    by (auto simp: encrypts_def encrypt_document_def isl_def mesh_encrypt_to_bytes_def mesh_encrypt_def
        encrypted_document_encode_def split: sum.splits option.splits)
  have "read_u32 ([ENCRYPTED_MARKER, 0x00] @ nonce @ ct) 8 = ret n"
    and src: "read_u32 ([ENCRYPTED_MARKER, 0x00] @ nonce @ ct) 4 = ret src"
    using assms(2,3,5) by (simp_all add: encrypts_def read_u32_def read_le_def)
  with doc_decode_many_entries [OF _ assms(4)] e
  show "doc_decode lc (encrypt_document E s nonce doc) = ret None" "hd (encrypt_document E s nonce doc) = ENCRYPTED_MARKER"
    by simp_all
  show "read_u32 (encrypt_document E s nonce doc) 4 = ret src" using src e by simp
  show "8 \<le> length (encrypt_document E s nonce doc)" using e assms(2) by (simp add: encrypts_def)
qed

lemma receive_unreadable:
  assumes "data = [ENCRYPTED_MARKER, 0x00] @ ct" "\<And>hint. decrypt_document E t data hint = ([], Some d)"
    and "doc_decode (pe_chat E) d = ret None" "hd d = ENCRYPTED_MARKER" "8 \<le> length d" "read_u32 d 4 = ret src"
  shows "receive E t a data now = ret (case a of
      Anonymous ident \<Rightarrow> t\<lparr>m_peers := register_identifier (m_peers t) ident src\<rparr> | _ \<Rightarrow> t, [], None)"
proof -
  have "merge_document (pe_chat E) (m_sync t) d = ret (m_sync t, None)"
    by (rule merge_document_ignored) (use assms in simp)
  moreover have "is_delta_document d = ret False"
    using assms(4,5) by (cases d) (auto simp: is_delta_document_def read_u8_def mesh_markers)
  moreover have "hd d \<noteq> APP_LAYER_MARKER" using assms(4) by (simp add: mesh_markers APP_LAYER_MARKER_def)
  ultimately show ?thesis
    using assms(1,2,4-6)
    by (cases a) (auto simp: on_ble_data_received_def on_ble_data_received_from_node_def on_ble_data_def
        on_ble_data_received_anonymous_def process_document_data_def process_document_data_with_identifier_def
        process_incoming_document_def mesh_markers split: option.splits)
qed

subsection \<open>Plain documents and the markers\<close>

lemma receive_plain_delivers:
  assumes d: "deliverable E src h s (m_sync t)" and k: "known_sender t a" "m_key t = None"
    and v: "ucast (sync_version s) \<notin> {ENCRYPTED_MARKER, KEY_EXCHANGE_MARKER, RELAY_ENVELOPE_MARKER}"
  shows "\<exists>t' evs r. receive E t a (build_document (pe_chat E) s) now = ret (t', evs, Some r)
    \<and> dr_source_node r = sync_node_id s \<and> learnt E s t t'"
proof -
  let ?data = "build_document (pe_chat E) s"
  have hd: "hd ?data \<notin> {ENCRYPTED_MARKER, KEY_EXCHANGE_MARKER, RELAY_ENVELOPE_MARKER, PEER_E2EE_MARKER}"
    using v d build_document_Cons [of "pe_chat E" s]
    by (auto simp: deliverable_def APP_LAYER_MARKER_def PEER_E2EE_MARKER_def)
  then have dec: "decrypt_document E t ?data hint = ([], Some ?data)" for hint
    using k(2) by (simp add: decrypt_document_def is_strict_encryption_enabled_def)
  have direct: "receive E t a ?data now =
      (case a of FromIdentifier ident \<Rightarrow>
         process_document_data_with_identifier E t (the (pm_get_node_id (m_peers t) ident)) ident ?data now None None 0
       | FromNode n \<Rightarrow> process_document_data E t n ?data now None None 0
       | Untracked ident \<Rightarrow> process_incoming_document E t ident ?data now None None 0
       | Anonymous ident \<Rightarrow> on_ble_data_received_anonymous E t ident ?data now)"
    using k hd by (auto simp: known_sender_def on_ble_data_received_def on_ble_data_received_from_node_def on_ble_data_def
        split: arrival.splits)
  show ?thesis
    unfolding direct process_document_data_def
    using process_document_delivers [OF d dec] incoming_document_delivers [OF d dec] anonymous_delivers [OF d dec]
    by (cases a) (fastforce)+
qed

lemma handlers_return:
  "\<exists>m1 evs. without_result (mesh_handle_key_exchange E m data now) = ret (m1, evs, None) \<and> node_content m1 = node_content m"
  "\<exists>m1 evs. without_result (handle_peer_e2ee_message E m data now) = ret (m1, evs, None) \<and> node_content m1 = node_content m"
  using no_panic_key_exchange [of E m data now] no_panic_e2ee_message [of E m data now]
  by (auto simp: no_panic_ex without_result_def key_exchange_content e2ee_message_content)

lemma receive_mistaken:
  assumes "hd data \<in> {ENCRYPTED_MARKER, PEER_E2EE_MARKER, KEY_EXCHANGE_MARKER}" "length data \<ge> 2"
    and "m_key t = None" "(\<forall>ident. a \<noteq> Anonymous ident) \<or> hd data = ENCRYPTED_MARKER"
  shows "\<exists>t' evs. receive E t a data now = ret (t', evs, None) \<and> node_content t' = node_content t"
proof (cases "hd data = ENCRYPTED_MARKER")
  case True
  then have "decrypt_document E t data hint = ([], None)" for hint using assms by (simp add: decrypt_document_def)
  then show ?thesis
    using True assms
    by (cases a) (auto simp: on_ble_data_received_def on_ble_data_received_from_node_def on_ble_data_def
        on_ble_data_received_anonymous_def process_document_data_def process_document_data_with_identifier_def
        process_incoming_document_def mesh_markers split: option.splits)
next
  case False
  then show ?thesis
    using assms handlers_return [of E t data now]
    by (cases a) (auto simp: on_ble_data_received_def on_ble_data_received_from_node_def on_ble_data_def
        split: option.splits)
qed

text \<open>The entry point for unknown senders takes the marker 0xAF for application data, reports it and merges nothing.\<close>

lemma anonymous_app_layer:
  assumes "hd data = PEER_E2EE_MARKER" "length data \<ge> 8" "m_key t = None"
  shows "\<exists>t' evs r. receive E t (Anonymous ident) data now = ret (t', evs, r) \<and> node_content t' = node_content t"
proof -
  have "decrypt_document E t data (Some ident) = ([], Some data)"
    using assms by (simp add: decrypt_document_def is_strict_encryption_enabled_def mesh_markers)
  moreover have "is_delta_document data = ret False"
    using assms(1,2) by (cases data) (auto simp: is_delta_document_def read_u8_def mesh_markers)
  moreover obtain src where "read_u32 data 4 = ret src"
    using no_panic_read_u32 [of 4 data] assms(2) by (auto simp: no_panic_ex)
  ultimately show ?thesis using assms(1,2)
    by (simp add: on_ble_data_received_anonymous_def node_content_def mesh_markers APP_LAYER_MARKER_def)
qed

subsection \<open>Delta documents\<close>

lemma apply_app_operation_sync: "apply_app_operation m op = (m1, ev) \<Longrightarrow> m_sync m1 = m_sync m"
  by (auto simp: apply_app_operation_def Let_def split: option.splits prod.splits)

lemma apply_operation_sync:
  "apply_operation origin op (m, e, evs) = (m1, e1, evs1) \<Longrightarrow>
     m_sync m1 = m_sync m \<and> (de_counter_changed e \<longrightarrow> de_counter_changed e1)"
  by (cases op) (auto simp: Let_def newest_def split: prod.splits if_splits dest: apply_app_operation_sync)

lemma apply_operations_sync:
  "fold (apply_operation origin) ops (m, e, evs) = (m1, e1, evs1) \<Longrightarrow>
     m_sync m1 = m_sync m \<and> (de_counter_changed e \<longrightarrow> de_counter_changed e1)"
proof (induction ops arbitrary: m e evs)
  case (Cons op ops)
  obtain m2 e2 evs2 where s: "apply_operation origin op (m, e, evs) = (m2, e2, evs2)" by (metis prod_cases3)
  then show ?case using Cons apply_operation_sync [OF s] by fastforce
qed simp

lemma find_counter_entry:
  "(case List.find (\<lambda>(k, _). k = n) es of Some (_, v) \<Rightarrow> v | None \<Rightarrow> 0) = bt_get_or 0 es n"
  by (induction es) (auto simp: bt_get_or_def bt_get_def split: prod.splits)

lemma apply_operations_reports:
  assumes "OpIncrementCounter c n amount ts \<in> set ops" "gcounter_node_count (sync_counter (m_sync m)) n < amount"
    and "fold (apply_operation origin) ops (m, e, evs) = (m1, e1, evs1)"
  shows "de_counter_changed e1"
  using assms
proof (induction ops arbitrary: m e evs)
  case (Cons op ops)
  obtain m2 e2 evs2 where s: "apply_operation origin op (m, e, evs) = (m2, e2, evs2)" by (metis prod_cases3)
  show ?case
  proof (cases "op = OpIncrementCounter c n amount ts")
    case True
    then have "de_counter_changed e2"
      using s Cons.prems(2)
      by (auto simp: find_counter_entry counter_entries_def gcounter_entries_def gcounter_node_count_def)
    then show ?thesis using Cons.prems(3) s apply_operations_sync by fastforce
  next
    case False
    then show ?thesis using Cons.IH [of m2 e2 evs2] Cons.prems s apply_operation_sync [OF s] by auto
  qed
qed simp

lemma received_result_fields [simp]:
  "dr_counter_changed (received_result s em a cc ec tot ts rd origin hops p) = cc"
  "dr_total_count (received_result s em a cc ec tot ts rd origin hops p) = tot"
  "dr_source_node (received_result s em a cc ec tot ts rd origin hops p) = s"
  by (simp_all add: received_result_def split: prod.splits)

lemma delta_internal_reports:
  assumes "delta_document_decode (pe_usize E) data = ret (Some d)" "dd_origin_node d \<noteq> m_node_id m"
    and "OpIncrementCounter c n amount ts \<in> set (dd_operations d)"
    and "gcounter_node_count (sync_counter (m_sync m)) n < amount"
  shows "\<exists>m1 evs r. process_delta_document_internal E m source data now rd origin hops = ret (m1, evs, Some r)
    \<and> dr_counter_changed r \<and> dr_total_count r = sync_total_count (m_sync m) \<and> m_sync m1 = m_sync m
    \<and> DocumentSynced (dd_origin_node d) (sync_total_count (m_sync m)) \<in> set evs"
proof -
  obtain m2 e evs2 where f: "fold (apply_operation (dd_origin_node d)) (dd_operations d) (m, delta_effects_init, []) = (m2, e, evs2)"
    by (metis prod_cases3)
  note facts = apply_operations_sync [OF f] apply_operations_reports [OF assms(3,4) f]
  show ?thesis using assms(1,2) f facts by (simp add: process_delta_document_internal_def Let_def)
qed

lemma delta_document_marker:
  assumes "delta_document_decode w data = ret (Some d)"
  shows "hd data = DELTA_DOCUMENT_MARKER" "length data \<ge> 16"
  using assms by (cases data; auto simp: delta_document_decode_def read_u8_def split: if_splits)+

lemma receive_delta:
  assumes "delta_document_decode (pe_usize E) data = ret (Some d)" "m_key t = None"
  shows "receive E t (FromNode n) data now = process_delta_document_internal E t n data now None None 0"
proof -
  note mk = delta_document_marker [OF assms(1)]
  then have "is_delta_document data = ret True" by (cases data) (auto simp: is_delta_document_def read_u8_def)
  moreover have "decrypt_document E t data hint = ([], Some data)" for hint
    using mk assms(2) by (simp add: decrypt_document_def is_strict_encryption_enabled_def mesh_markers)
  ultimately show ?thesis
    using mk by (simp add: on_ble_data_received_from_node_def process_document_data_def
        process_document_data_with_identifier_def mesh_markers)
qed

section \<open>Properties\<close>

subsection \<open>Nodes for the witnesses\<close>

definition demo_env :: peat_env where
  "demo_env = \<lparr>pe_chat = False, pe_crypto = demo_crypto, pe_sig = demo_sig, pe_usize = 64, pe_seen_iter = id,
     pe_seed = (\<lambda>n. 0)\<rparr>"

definition demo_config :: "node_id \<Rightarrow> mesh_config" where
  "demo_config n = config_with_relay (config_with_strict_encryption (config_with_encryption
     (mesh_config_new n [65, 66, 67, 68, 69, 70, 71, 72, 73, 74, 75, 76] ''M'') (replicate 32 7)))"

definition demo_key :: bytes where
  "demo_key = mesh_key_from_shared_secret demo_crypto ''M'' (replicate 32 7)"

definition demo_node :: "node_id \<Rightarrow> unit peat_mesh" where
  "demo_node n = peat_mesh_new demo_env (demo_config n)"

lemma demo_env_simps [simp]:
  "pe_chat demo_env = False" "pe_crypto demo_env = demo_crypto" "pe_sig demo_env = demo_sig" "pe_usize demo_env = 64"
  by (simp_all add: demo_env_def)

lemma demo_node_simps [simp]:
  "m_key (demo_node n) = Some demo_key" "m_node_id (demo_node n) = n"
  "mc_enable_relay (m_config (demo_node n))" "mc_strict_encryption (m_config (demo_node n))"
  "m_sync (demo_node n) = sync_with_peripheral_type n [65, 66, 67, 68, 69, 70, 71, 72, 73, 74, 75, 76] SoldierSensor"
  "mc_max_relay_hops (m_config (demo_node n)) = DEFAULT_MAX_HOPS"
  by (simp_all add: demo_node_def demo_config_def peat_mesh_new_def peat_mesh_build_def m_node_id_def demo_key_def
      config_with_relay_def config_with_strict_encryption_def config_with_encryption_def mesh_config_new_def)

lemma demo_encrypts [simp]: "pe_crypto E = demo_crypto \<Longrightarrow> length nonce = 12 \<Longrightarrow> encrypts E key nonce data"
  by (simp add: encrypts_def mesh_encrypt_to_bytes_def mesh_encrypt_def demo_crypto_def demo_encrypt_def)

lemma demo_fresh [simp]: "fresh_message demo_env mid origin now (demo_node n)"
  by (simp add: fresh_message_def mark_message_seen_def check_and_mark_def mark_seen_result demo_node_def
      peat_mesh_new_def peat_mesh_build_def seen_cache_with_ttl_def cleaned_def cleanup_def cleanup_std_def demo_env_def
      case_prod_beta)

lemma demo_deliverable:
  assumes "n \<noteq> k" "n \<noteq> 0"
  shows "deliverable demo_env (\<lambda>t. 0) (\<lambda>i. chat_message_default) (m_sync (demo_node n)) (m_sync (demo_node k))"
proof -
  have ok: "sync_ok False (\<lambda>t. 0) (\<lambda>i. chat_message_default) (m_sync (demo_node i))" for i
    by (simp add: sync_ok_def replica_ok_def sync_replica_def sync_with_peripheral_type_def chat_history_new)
  have "doc_encodable False (sync_document False (m_sync (demo_node n)))"
    by (simp add: doc_encodable_def doc_sendable_def sections_valid_def sync_document_def sync_with_peripheral_type_def
        gcounter_new_def gcounter_sendable_def gcounter_wf_def MAX_COUNTER_ENTRIES_def peripheral_valid_def
        with_callsign_def peripheral_new_def copy_callsign_def callsign_len_def health_valid_def health_default_def
        health_new_def timestamp_valid_def MAX_BATTERY_PERCENT_def assms(2))
  then show ?thesis
    using ok [of n] ok [of k] assms
    by (simp add: deliverable_def sync_with_peripheral_type_def mesh_markers APP_LAYER_MARKER_def)
qed

subsection \<open>The state of a node\<close>

text \<open>
  C8: in every state a node can reach, by any sequence of calls of the application and of the
  platform and of received data of any content, its parts agree on the node's id, the peer table
  is within its limit and never contains the node itself, the connection graph and the document
  are well formed, and there are at most 16 end-to-end sessions, all of this node.
\<close>

theorem node_state_well_formed:
  assumes "(node_step E)\<^sup>*\<^sup>* (peat_mesh_build E c i) m"
  shows "m_node_id m = mc_node_id c \<and> sync_node_id (m_sync m) = mc_node_id c
    \<and> length (pm_peers (m_peers m)) \<le> max_peers (mc_peer_config c) \<and> bt_get (pm_peers (m_peers m)) (mc_node_id c) = None
    \<and> (\<forall>n p. bt_get (pm_peers (m_peers m)) n = Some p \<longrightarrow> pp_node_id p = n)
    \<and> graph_inv (m_graph m) \<and> sync_wf (m_sync m)
    \<and> (\<forall>s. m_sessions m = Some s \<longrightarrow> our_node_id s = mc_node_id c \<and> length (sessions s) \<le> 16 \<and> distinct (map fst (sessions s)))"
proof -
  from node_run_inv [OF assms] have i: "node_inv c m" .
  then have "\<forall>n p. bt_get (pm_peers (m_peers m)) n = Some p \<longrightarrow> n \<noteq> mc_node_id c \<and> pp_node_id p = n"
    by (simp add: node_inv_def pm_inv_def)
  moreover from this have "bt_get (pm_peers (m_peers m)) (mc_node_id c) = None" by (metis not_None_eq)
  moreover have "\<forall>s. m_sessions m = Some s \<longrightarrow> our_node_id s = mc_node_id c \<and> length (sessions s) \<le> 16 \<and> distinct (map fst (sessions s))"
    using i by (auto simp: node_inv_def sm_inv_def DEFAULT_MAX_SESSIONS_def bt_wf_distinct)
  ultimately show ?thesis using i by (auto simp: node_inv_def pm_inv_def)
qed

theorem node_state_well_formed_witness:
  "length (pm_peers (m_peers (fst (on_incoming_connection (demo_node 1) ''AA'' 2 10)))) \<le> 8"
proof -
  obtain m1 evs b where c: "on_incoming_connection (demo_node 1) ''AA'' 2 10 = (m1, evs, b)" by (metis prod_cases3)
  then have "(node_step demo_env)\<^sup>*\<^sup>* (peat_mesh_build demo_env (demo_config 1) None) m1"
    by (intro r_into_rtranclp) (metis node_step.intros(24) demo_node_def peat_mesh_new_def)
  from node_state_well_formed [OF this] c show ?thesis
    by (simp add: demo_config_def config_with_relay_def config_with_strict_encryption_def config_with_encryption_def
        mesh_config_new_def peer_manager_config_default_def)
qed

text \<open>
  C25: nothing a node does or receives lowers a count: along every sequence of calls the count it
  holds for any node only grows.
\<close>

theorem node_counts_grow:
  assumes "(node_step E)\<^sup>*\<^sup>* m m'"
  shows "gcounter_node_count (sync_counter (m_sync m)) k \<le> gcounter_node_count (sync_counter (m_sync m')) k"
  using node_run_evolves [OF assms] by (auto simp: evolves_def intro: sync_steps_counts)

theorem node_counts_grow_witness:
  "gcounter_node_count (sync_counter (m_sync (demo_node 1))) 1
    \<le> gcounter_node_count (sync_counter (m_sync (mesh_clear_emergency (demo_node 1)))) 1"
  by (rule node_counts_grow [OF r_into_rtranclp, of demo_env]) (rule node_step.intros)

text \<open>
  C9: on a 64-bit target no data of any content, received by any of the four entry points in any
  state of the node, makes the receiving code panic.
\<close>

theorem receive_never_panics:
  assumes "pe_usize E = 64"
  shows "no_panic (receive E m a data now)"
  by (rule receive_safe) (simp add: assms)

theorem receive_never_panics_witness:
  "no_panic (receive demo_env (demo_node 1) (Untracked ''AA'') [0xB1, 0, 1] 5)"
  by (rule receive_never_panics) simp

text \<open>
  C7: with strict encryption a node learns only from data sealed with the mesh key. If neither the
  data nor the payload of the relay envelope it may be decrypts under the node's key, then whatever
  the entry point the document, the peripherals and the application documents stay unchanged and
  the platform gets no result.
\<close>

theorem strict_mode_integrity:
  assumes "m_key m = Some key" "mc_strict_encryption (m_config m)"
    and "\<forall>p \<in> set (carried E data). \<not> sealed E key p"
    and "receive E m a data now = ret (m', evs, r)"
  shows "m_sync m' = m_sync m \<and> m_peripherals m' = m_peripherals m \<and> m_documents m' = m_documents m \<and> r = None"
  using strict_receive [OF _ assms(3,4)] assms(1,2) by (simp add: strict_with_def node_content_def)

theorem strict_mode_integrity_witness:
  "\<exists>m' evs r. receive demo_env (demo_node 1) (FromNode 2) [1, 2, 3] 5 = ret (m', evs, r)
    \<and> m_sync m' = m_sync (demo_node 1) \<and> r = None"
proof -
  have c: "\<forall>p \<in> set (carried demo_env [1, 2, 3]). \<not> sealed demo_env demo_key p"
    by (simp add: carried_def sealed_def relay_envelope_decode_def mesh_markers)
  have r: "receive demo_env (demo_node 1) (FromNode 2) [1, 2, 3] 5
     = ret (demo_node 1, [SecurityViolation UnencryptedInStrictMode (Some (''node:'' @ node_id_display 2))], None)"
    by (simp add: on_ble_data_received_from_node_def process_document_data_def
        process_document_data_with_identifier_def decrypt_document_def is_strict_encryption_enabled_def mesh_markers)
  from strict_mode_integrity [OF demo_node_simps(1) demo_node_simps(4) c r] r show ?thesis by blast
qed

subsection \<open>Delivery\<close>

text \<open>
  C5: a document one node builds is merged by another node that receives it, under these conditions:
  both hold the same mesh key, under which the cipher is correct and seals this document, or both
  hold none; they have different node ids; the document is within the limits of the wire format and
  both replicas come from one history (one source per emergency time stamp, one message per chat
  identifier); the low byte of the version is not 0xB2 or 0xAF and, without a mesh key, not 0xAE,
  0xB0 or 0xB1, which the receiver takes for markers of other data; and the entry point for tracked
  identifiers knows the identifier. Then each of the four entry points hands out a result that names
  the sender, and the receiver's replicated state becomes the join of its own with what the
  document carries.
\<close>

theorem document_delivered:
  assumes "aead_correct (pe_crypto E)" "m_key s = m_key t" "known_sender t a" "deliverable E src h (m_sync s) (m_sync t)"
    and "case m_key s of
           Some key \<Rightarrow> encrypts E key nonce (build_document (pe_chat E) (m_sync s))
         | None \<Rightarrow> ucast (sync_version (m_sync s)) \<notin> {ENCRYPTED_MARKER, KEY_EXCHANGE_MARKER, RELAY_ENVELOPE_MARKER}"
  shows "\<exists>t' evs r. receive E t a (mesh_build_document E s nonce) now = ret (t', evs, Some r)
    \<and> dr_source_node r = sync_node_id (m_sync s)
    \<and> sync_replica (m_sync t') = replica_merge (sync_replica (m_sync t)) (replica (sync_document (pe_chat E) (m_sync s)))"
proof (cases "m_key s")
  case None
  then show ?thesis
    using receive_plain_delivers [OF assms(4,3)] assms
    by (simp add: mesh_build_document_def encrypt_document_def learnt_def)
next
  case (Some key)
  then have e: "encrypts E key nonce (build_document (pe_chat E) (m_sync s))" using assms(5) by simp
  obtain ct where ct: "mesh_build_document E s nonce = [ENCRYPTED_MARKER, 0x00] @ ct"
    using encrypt_document_bytes [OF Some e] by (auto simp: mesh_build_document_def)
  have t: "m_key t = Some key" using assms(2) Some by simp
  have "decrypt_document E t (mesh_build_document E s nonce) hint = ([], Some (build_document (pe_chat E) (m_sync s)))" for hint
    using decrypt_encrypt_document [OF assms(1) Some t e] by (simp add: mesh_build_document_def)
  from receive_sealed_delivers [OF assms(4,3) ct this] show ?thesis by (simp add: learnt_def)
qed

theorem document_delivered_witness:
  "\<exists>t' evs r. receive demo_env (demo_node 2) (Anonymous ''AA'')
       (mesh_build_document demo_env (demo_node 1) (replicate 12 0)) 9 = ret (t', evs, Some r)
    \<and> dr_source_node r = 1"
proof -
  have "sync_node_id (m_sync (demo_node 1)) = 1" by (simp add: sync_with_peripheral_type_def)
  then show ?thesis
    using document_delivered [of demo_env "demo_node 1" "demo_node 2" "Anonymous ''AA''" "\<lambda>t. 0" "\<lambda>i. chat_message_default" "replicate 12 0" 9]
      demo_deliverable [of 1 2] by (auto simp: known_sender_def)
qed

text \<open>
  C6: a relayed document reaches every node of a path. A node wraps its sealed document for relay
  and each node of a path passes on what the one before handed it. The path has at most one node
  more than the envelope has hops; every node of it holds the mesh key, has relaying enabled, has not
  seen the message id before, receives it through an entry point other than the one for unknown
  senders, which does not handle relay envelopes, and has another node id than the sender; the
  document is encodable, of one history with the receivers' replicas, its version does not have the
  low byte 0xAF or 0xB2; addresses have 64 bits. Then every node merges the document and learns its
  origin.
\<close>

theorem multi_hop_delivery:
  assumes "aead_correct (pe_crypto E)" "m_key s = Some key" "encrypts E key nonce (build_document (pe_chat E) (m_sync s))"
    and "length mid = 16" "length (mesh_build_document E s nonce) < 2 ^ 32" "pe_usize E = 64"
    and "length path \<le> Suc (unat (mc_max_relay_hops (m_config s)))"
    and "\<forall>(t, a, now) \<in> set path. m_key t = Some key \<and> mc_enable_relay (m_config t) \<and> relay_arrival t a \<and>
           fresh_message E mid (m_node_id s) now t \<and> deliverable E src h (m_sync s) (m_sync t)"
  shows "list_all2 (reached E (m_sync s) (m_node_id s)) path (pass_along E path (build_relay_document E s nonce mid))"
proof -
  define env where "env = with_max_hops (relay_envelope_broadcast mid (m_node_id s) (mesh_build_document E s nonce))
    (mc_max_relay_hops (m_config s))"
  have data: "build_relay_document E s nonce mid = relay_envelope_encode env"
    by (simp add: build_relay_document_def wrap_for_relay_def env_def)
  have env: "env_message_id env = mid" "env_origin_node env = m_node_id s" "env_payload env = mesh_build_document E s nonce"
    "unat (remaining_hops env) = unat (mc_max_relay_hops (m_config s))"
    by (simp_all add: env_def with_max_hops_def relay_envelope_broadcast_def unat_remaining_hops)
  have "carries E (m_sync s) t env" if "m_key t = Some key" for t
    using decrypt_encrypt_document [OF assms(1,2) that assms(3)] by (simp add: carries_def env mesh_build_document_def)
  then have "\<forall>p \<in> set path. hop_ok E (m_sync s) env p" using assms(8) by (fastforce simp: hop_ok_def env)
  moreover have "relay_envelope_valid (pe_usize E) env" using assms(4-6) by (simp add: relay_envelope_valid_def env)
  ultimately show ?thesis using pass_along_delivers [of path E "m_sync s" env] assms(7) env data by simp
qed

theorem multi_hop_delivery_witness:
  "length (pass_along demo_env [(demo_node 2, FromNode 1, 5), (demo_node 3, Untracked ''AA'', 6)]
     (build_relay_document demo_env (demo_node 1) (replicate 12 0) (replicate 16 1))) = 2"
proof -
  have "length (mesh_build_document demo_env (demo_node 1) (replicate 12 0)) < 2 ^ 32"
    by (simp add: mesh_build_document_def encrypt_document_def mesh_encrypt_to_bytes_def mesh_encrypt_def demo_crypto_def
        demo_encrypt_def encrypted_document_encode_def build_document_def length_doc_encode doc_encoded_size_def
        sync_document_def sync_with_peripheral_type_def gcounter_new_def gcounter_node_count_total_def
        peripheral_encode_def with_callsign_def peripheral_new_def copy_callsign_def health_default_def health_new_def)
  then have "list_all2 (reached demo_env (m_sync (demo_node 1)) (m_node_id (demo_node 1)))
      [(demo_node 2, FromNode 1, 5), (demo_node 3, Untracked ''AA'', 6)]
      (pass_along demo_env [(demo_node 2, FromNode 1, 5), (demo_node 3, Untracked ''AA'', 6)]
        (build_relay_document demo_env (demo_node 1) (replicate 12 0) (replicate 16 1)))"
    by (intro multi_hop_delivery [where key = demo_key and src = "\<lambda>t. 0" and h = "\<lambda>i. chat_message_default"])
      (simp_all add: demo_deliverable relay_arrival_def DEFAULT_MAX_HOPS_def del: demo_node_simps(5))
  then show ?thesis by (auto dest: list_all2_lengthD)
qed

subsection \<open>Data that is received and not merged\<close>



text \<open>
  C33: chat messages are encrypted twice and decrypted once. What \<open>send_chat\<close> hands to the radio
  decrypts under the mesh key to bytes that are still encrypted. The receiver tries to parse them
  as a document, and when bytes 6 to 9 of the inner nonce, read as the number of counter entries,
  are above the limit of 256, as all but one in sixteen million random nonces are, it drops the
  message without result or event. Nothing of its state changes, except that the entry point for
  unknown senders registers the sender under a node id read from bytes 2 to 5 of the inner nonce.
\<close>

theorem chat_sealed_twice:
  assumes "aead_correct (pe_crypto E)" "m_key s = Some key" "m_key t = Some key"
    and "mesh_send_chat E s nonce1 nonce2 who txt ts = (s', Some data)"
    and "encrypts E key nonce1 (build_document (pe_chat E) (m_sync s'))"
    and "encrypts E key nonce2 (mesh_build_document E s' nonce1)"
    and "read_u32 nonce1 6 = ret n" "MAX_COUNTER_ENTRIES < unat n" "read_u32 nonce1 2 = ret bogus"
  shows "receive E t a data now = ret (case a of
      Anonymous ident \<Rightarrow> t\<lparr>m_peers := register_identifier (m_peers t) ident bogus\<rparr> | _ \<Rightarrow> t, [], None)"
proof -
  have s': "m_key s' = Some key" "data = encrypt_document E s' nonce2 (mesh_build_document E s' nonce1)"
    using assms(2,4) by (auto simp: mesh_send_chat_def Let_def split: prod.splits if_splits)
  then obtain ct where data: "data = [ENCRYPTED_MARKER, 0x00] @ ct" using encrypt_document_bytes [OF s'(1) assms(6)] by blast
  have dec: "decrypt_document E t data hint = ([], Some (mesh_build_document E s' nonce1))" for hint
    using decrypt_encrypt_document [OF assms(1) s'(1) assms(3,6)] s'(2) by simp
  show ?thesis
    by (rule receive_unreadable [OF data dec])
      (use sealed_document_unreadable [OF s'(1) assms(5,7-9)] in \<open>simp_all add: mesh_build_document_def\<close>)
qed

theorem chat_sealed_twice_witness:
  "let (s', data) = mesh_send_chat (demo_env\<lparr>pe_chat := True\<rparr>) (demo_node 1) (replicate 12 9) (replicate 12 8) [65] [72, 105] 1700000000000
   in receive (demo_env\<lparr>pe_chat := True\<rparr>) (demo_node 2) (Untracked ''AA'') (the data) 5 = ret (demo_node 2, [], None)"
proof -
  have "snd (sync_add_chat_message (m_sync (demo_node 1)) [65] [72, 105] 1700000000000)"
    by (simp add: sync_add_chat_message_def sync_add_message_def sync_with_peripheral_type_def add_message_def
        chat_new_def bt_contains_key_def bt_get_def Let_def)
  then obtain s' data where
    c: "mesh_send_chat (demo_env\<lparr>pe_chat := True\<rparr>) (demo_node 1) (replicate 12 9) (replicate 12 8) [65] [72, 105] 1700000000000 = (s', Some data)"
    by (simp add: mesh_send_chat_def Let_def case_prod_beta)
  have "receive (demo_env\<lparr>pe_chat := True\<rparr>) (demo_node 2) (Untracked ''AA'') data 5 = ret (demo_node 2, [], None)"
  proof -
    have "read_u32 (replicate 12 9) 6 = ret (0x09090909 :: u32)" "read_u32 (replicate 12 9) 2 = ret (0x09090909 :: u32)"
      by code_simp+
    with chat_sealed_twice [OF _ demo_node_simps(1) demo_node_simps(1) c, where a = "Untracked ''AA''" and now = 5]
    show ?thesis by (simp add: MAX_COUNTER_ENTRIES_def)
  qed
  with c show ?thesis by simp
qed

text \<open>
  C34: counts carried by a delta document are reported and dropped. When a delta document of another
  node carries a higher count than the receiver holds, the receiver reports a changed counter and
  notifies the observers of a synced document, while the document and its total stay as they were.
\<close>

theorem delta_counts_not_merged:
  assumes "m_key t = None" "delta_document_decode (pe_usize E) data = ret (Some d)" "dd_origin_node d \<noteq> m_node_id t"
    and "OpIncrementCounter c n amount ts \<in> set (dd_operations d)"
    and "gcounter_node_count (sync_counter (m_sync t)) n < amount"
  shows "\<exists>t' evs r. receive E t (FromNode k) data now = ret (t', evs, Some r)
    \<and> dr_counter_changed r \<and> DocumentSynced (dd_origin_node d) (dr_total_count r) \<in> set evs
    \<and> dr_total_count r = sync_total_count (m_sync t) \<and> m_sync t' = m_sync t"
  using delta_internal_reports [OF assms(2-5), of k now None None 0] receive_delta [OF assms(2,1)] by auto

theorem delta_counts_not_merged_witness:
  "\<exists>t' evs r. receive demo_env (disable_encryption (demo_node 2)) (FromNode 1)
      (delta_document_encode id (add_operation (delta_document_new 1 7) (OpIncrementCounter 0 1 3 7))) 9 = ret (t', evs, Some r)
    \<and> dr_counter_changed r \<and> dr_total_count r = 0"
proof -
  let ?t = "disable_encryption (demo_node 2)" and ?d = "add_operation (delta_document_new 1 7) (OpIncrementCounter 0 1 3 7)"
  have d: "delta_document_decode (pe_usize demo_env) (delta_document_encode id ?d) = ret (Some ?d)"
    using delta_document_decode_encode [of ?d id 64 "[]"]
    by (simp add: delta_document_valid_def add_operation_def delta_document_new_def)
  have op: "OpIncrementCounter 0 1 3 7 \<in> set (dd_operations ?d)" "dd_origin_node ?d \<noteq> m_node_id ?t"
    by (simp_all add: add_operation_def delta_document_new_def m_node_id_def disable_encryption_def
        demo_node_simps(2) [unfolded m_node_id_def])
  have t: "m_key ?t = None" "gcounter_node_count (sync_counter (m_sync ?t)) 1 < 3" "sync_total_count (m_sync ?t) = 0"
    by (simp_all add: disable_encryption_def sync_with_peripheral_type_def gcounter_new_def gcounter_node_count_def
        bt_get_or_def bt_get_def sync_total_count_def gcounter_value_def)
  from delta_counts_not_merged [OF t(1) d op(2,1) t(2), of 1 9] t(3) show ?thesis by auto
qed

subsection \<open>Restart\<close>

lemma genesis_member:
  "m_identity (peat_mesh_from_genesis E g i cs) = Some i"
  "m_node_id (peat_mesh_from_genesis E g i cs) = identity_node_id (pe_sig E) i"
  "m_key (peat_mesh_from_genesis E g i cs) =
     Some (mesh_key_from_shared_secret (pe_crypto E) (mesh_id (pe_sig E) g) (encryption_secret (pe_sig E) g))"
  by (simp_all add: peat_mesh_from_genesis_def peat_mesh_with_identity_def peat_mesh_build_def m_node_id_def
      config_with_encryption_def mesh_config_new_def)

text \<open>
  C29: a node that restarts is the same member of the same mesh. Let a node hold an identity, the
  node id that belongs to it and the mesh key of a genesis, as every node has that was created from
  a genesis (lemma \<open>genesis_member\<close>). What it stores with that genesis through the secure storage is
  loaded and rebuilt into a node with the same identity, the same node id, the same mesh key and
  the keys of all known peers, whatever the order in which its registry was written.
\<close>

theorem node_restart:
  fixes m :: "'d peat_mesh"
  assumes "sig_correct (pe_sig E)" "m_identity m = Some i" "length (signing_key i) = 32"
    and "length (mg_mesh_name g) < 2 ^ 16" "utf8_valid (mg_mesh_name g)" "length (mg_mesh_seed g) = 32"
      "length (signing_key (mg_creator_identity g)) = 32"
    and "mset (iter (known (m_registry m))) = mset (known (m_registry m))" "bt_wf (known (m_registry m))"
      "\<forall>(n, rec) \<in> set (known (m_registry m)). record_wf rec" "length (known (m_registry m)) \<le> 10000"
    and "pe_usize E = 64" "m_node_id m = identity_node_id (pe_sig E) i"
      "m_key m = Some (mesh_key_from_shared_secret (pe_crypto E) (mesh_id (pe_sig E) g) (encryption_secret (pe_sig E) g))"
  shows "\<exists>p st' p' m'. to_persisted_state E iter m (Some g) = Some p \<and> state_save memory_store st p = (st', Inr ())
    \<and> state_load (pe_usize E) memory_retrieve st' = ret (Inr p') \<and> peat_mesh_from_persisted E p' cs = ret (Inr (m' :: 'd peat_mesh))
    \<and> m_identity m' = m_identity m \<and> m_node_id m' = m_node_id m \<and> m_key m' = m_key m
    \<and> known (m_registry m') = known (m_registry m)"
proof -
  let ?p = "persisted_with_registry (pe_sig E) i (Some g) (iter (known (m_registry m)))"
  have "length (iter (known (m_registry m))) \<le> 10000" using assms(8,11) by (metis size_mset)
  from reboot_restores [OF assms(1,3-10) this, of 64 st] obtain st' p' where
    r: "state_save memory_store st ?p = (st', Inr ())" "state_load 64 memory_retrieve st' = ret (Inr p')"
      "restore_identity p' = Inr i" "restore_genesis p' = ret (Some g)"
      "restore_registry 64 p' = ret (registry_new\<lparr>known := known (m_registry m)\<rparr>)"
    by auto
  define m' :: "'d peat_mesh" where
    "m' = (peat_mesh_from_genesis E g i cs)\<lparr>m_registry := registry_new\<lparr>known := known (m_registry m)\<rparr>\<rparr>"
  have "peat_mesh_from_persisted E p' cs = ret (Inr m')"
    using r(3-5) assms(12) by (simp add: peat_mesh_from_persisted_def m'_def)
  moreover have "to_persisted_state E iter m (Some g) = Some ?p" using assms(2) by (simp add: to_persisted_state_def)
  moreover have "m_identity m' = m_identity m" "m_node_id m' = m_node_id m" "m_key m' = m_key m"
    "known (m_registry m') = known (m_registry m)"
    using genesis_member [of E g i cs] assms(2,13,14) by (simp_all add: m'_def m_node_id_def)
  moreover have "state_load (pe_usize E) memory_retrieve st' = ret (Inr p')" using r(2) assms(12) by simp
  ultimately show ?thesis using r(1) by blast
qed

definition demo_genesis :: mesh_genesis where
  "demo_genesis = genesis_with_seed [65] (replicate 32 2) \<lparr>signing_key = replicate 32 3\<rparr> Controlled 5"

definition demo_member :: "unit peat_mesh" where
  "demo_member = pre_register_peer_identity
     (peat_mesh_from_genesis demo_env demo_genesis \<lparr>signing_key = replicate 32 1\<rparr> [65]) 7 (replicate 32 9) 5"

theorem node_restart_witness:
  "\<exists>p st' p' m'. to_persisted_state demo_env rev demo_member (Some demo_genesis) = Some p
    \<and> state_save memory_store [] p = (st', Inr ()) \<and> state_load (pe_usize demo_env) memory_retrieve st' = ret (Inr p')
    \<and> peat_mesh_from_persisted demo_env p' [65] = ret (Inr (m' :: unit peat_mesh))
    \<and> m_node_id m' = m_node_id demo_member \<and> m_key m' = m_key demo_member
    \<and> get_public_key (m_registry m') 7 = Some (replicate 32 9)"
proof -
  have i: "m_identity demo_member = Some \<lparr>signing_key = replicate 32 1\<rparr>"
    "m_node_id demo_member = identity_node_id (pe_sig demo_env) \<lparr>signing_key = replicate 32 1\<rparr>"
    "m_key demo_member = Some (mesh_key_from_shared_secret (pe_crypto demo_env) (mesh_id (pe_sig demo_env) demo_genesis)
       (encryption_secret (pe_sig demo_env) demo_genesis))"
    using genesis_member [of demo_env demo_genesis "\<lparr>signing_key = replicate 32 1\<rparr>" "[65]"]
    by (simp_all add: demo_member_def pre_register_peer_identity_def m_node_id_def)
  have k: "\<exists>rec. known (m_registry demo_member) = [(7, rec)] \<and> record_wf rec \<and> ir_public_key rec = replicate 32 9"
    by (simp add: demo_member_def pre_register_peer_identity_def peat_mesh_from_genesis_def peat_mesh_with_identity_def
        peat_mesh_build_def pre_register_def registry_new_def record_wf_def)
  then obtain rec where rec: "known (m_registry demo_member) = [(7, rec)]" "record_wf rec" "ir_public_key rec = replicate 32 9"
    by blast
  have "\<exists>p st' p' m'. to_persisted_state demo_env rev demo_member (Some demo_genesis) = Some p \<and> state_save memory_store [] p = (st', Inr ())
    \<and> state_load (pe_usize demo_env) memory_retrieve st' = ret (Inr p') \<and> peat_mesh_from_persisted demo_env p' [65] = ret (Inr (m' :: unit peat_mesh))
    \<and> m_identity m' = m_identity demo_member \<and> m_node_id m' = m_node_id demo_member \<and> m_key m' = m_key demo_member
    \<and> known (m_registry m') = known (m_registry demo_member)"
    by (rule node_restart [OF _ i(1) _ _ _ _ _ _ _ _ _ _ i(2,3)])
      (use rec in \<open>simp_all add: demo_genesis_def genesis_with_seed_def bt_wf_Cons\<close>)
  then show ?thesis using rec by (fastforce simp: get_public_key_def bt_get_def)
qed

end
