(* ===== verification/Document_Store.thy ===== *)
theory Document_Store
  imports Document Node_Id
begin

text \<open>
  Storage of the document across restarts, from \<^verbatim>\<open>persistence.rs\<close>: the interface as a locale, the
  store in memory, the store in a file and the wrapper that shares a store. A file system is the
  content of the file at the store's path, if there is one, and the error that operations on it
  meet, if any. The lock of a shared store makes each call one step.
\<close>

section \<open>Stores\<close>

type_synonym memory_store = "peat_document option"

definition memory_store_new :: memory_store where
  "memory_store_new = None"

definition with_document :: "peat_document \<Rightarrow> memory_store" where
  "with_document d = Some d"

definition memory_save :: "memory_store \<Rightarrow> peat_document \<Rightarrow> memory_store \<times> (ble_error + unit)" where
  "memory_save s d = (Some d, Inr ())"

definition memory_load :: "memory_store \<Rightarrow> (ble_error + peat_document option) outcome" where
  "memory_load s = ret (Inr s)"

definition memory_clear :: "memory_store \<Rightarrow> memory_store \<times> (ble_error + unit)" where
  "memory_clear s = (None, Inr ())"

record file_system =
  fs_content :: "bytes option"
  fs_error :: "string option"

definition file_save :: "bool \<Rightarrow> file_system \<Rightarrow> peat_document \<Rightarrow> file_system \<times> (ble_error + unit)" where
  "file_save lc f d =
     (case fs_error f of
        Some e \<Rightarrow> (f, Inl (NotSupported (''Failed to write document: '' @ e)))
      | None \<Rightarrow> (f\<lparr>fs_content := Some (doc_encode lc d)\<rparr>, Inr ()))"

definition file_load :: "bool \<Rightarrow> file_system \<Rightarrow> (ble_error + peat_document option) outcome" where
  "file_load lc f =
     (case fs_error f of
        Some e \<Rightarrow> ret (Inl (NotSupported (''Failed to read document: '' @ e)))
      | None \<Rightarrow>
          (case fs_content f of
             None \<Rightarrow> ret (Inr None)
           | Some data \<Rightarrow> do { d \<leftarrow> doc_decode lc data; ret (Inr d) }))"

definition file_clear :: "file_system \<Rightarrow> file_system \<times> (ble_error + unit)" where
  "file_clear f =
     (case fs_error f of
        Some e \<Rightarrow> (f, Inl (NotSupported (''Failed to clear document: '' @ e)))
      | None \<Rightarrow> (f\<lparr>fs_content := None\<rparr>, Inr ()))"

text \<open>The default method of the trait, for any \<open>load\<close>.\<close>

definition has_document :: "('s \<Rightarrow> (ble_error + peat_document option) outcome) \<Rightarrow> 's \<Rightarrow> bool outcome" where
  "has_document load s = do { r \<leftarrow> load s; ret (case r of Inr (Some d) \<Rightarrow> True | _ \<Rightarrow> False) }"

text \<open>A shared store is a cell that all its clones refer to.\<close>

type_synonym ('a, 's) shared_cells = "'a \<Rightarrow> 's"

definition shared_save ::
  "('s \<Rightarrow> peat_document \<Rightarrow> 's \<times> (ble_error + unit)) \<Rightarrow> 'a \<Rightarrow> ('a \<Rightarrow> 's) \<Rightarrow> peat_document \<Rightarrow> ('a \<Rightarrow> 's) \<times> (ble_error + unit)" where
  "shared_save save a h d = (let (s, r) = save (h a) d in (h(a := s), r))"

definition shared_load ::
  "('s \<Rightarrow> (ble_error + peat_document option) outcome) \<Rightarrow> 'a \<Rightarrow> ('a \<Rightarrow> 's) \<Rightarrow> (ble_error + peat_document option) outcome" where
  "shared_load load a h = load (h a)"

definition shared_clear ::
  "('s \<Rightarrow> 's \<times> (ble_error + unit)) \<Rightarrow> 'a \<Rightarrow> ('a \<Rightarrow> 's) \<Rightarrow> ('a \<Rightarrow> 's) \<times> (ble_error + unit)" where
  "shared_clear clear a h = (let (s, r) = clear (h a) in (h(a := s), r))"

section \<open>The interface\<close>

locale document_store =
  fixes save :: "'s \<Rightarrow> peat_document \<Rightarrow> 's \<times> (ble_error + unit)"
    and load :: "'s \<Rightarrow> (ble_error + peat_document option) outcome"
    and clear :: "'s \<Rightarrow> 's \<times> (ble_error + unit)"
    and storable :: "peat_document \<Rightarrow> bool"
  assumes load_save: "save s d = (s', Inr ()) \<Longrightarrow> storable d \<Longrightarrow> load s' = ret (Inr (Some d))"
    and load_clear: "clear s = (s', Inr ()) \<Longrightarrow> load s' = ret (Inr None)"
    and failed_save: "save s d = (s', Inl e) \<Longrightarrow> load s' = load s"
    and load_safe: "no_panic (load s)"
begin

lemma has_after_save: "save s d = (s', Inr ()) \<Longrightarrow> storable d \<Longrightarrow> has_document load s' = ret True"
  by (simp add: has_document_def load_save)

lemma not_has_after_clear: "clear s = (s', Inr ()) \<Longrightarrow> has_document load s' = ret False"
  by (simp add: has_document_def load_clear)

lemma last_save_wins:
  "save s d = (s1, Inr ()) \<Longrightarrow> save s1 d' = (s2, r) \<Longrightarrow> storable d \<Longrightarrow> storable d' \<Longrightarrow>
   load s2 = ret (Inr (Some (if isl r then d else d')))"
  using load_save [of s d s1] load_save [of s1 d' s2] failed_save [of s1 d' s2] by (cases r) auto

text \<open>A shared store keeps the contract of the store it wraps.\<close>

lemma shared_store: "document_store (shared_save save a) (shared_load load a) (shared_clear clear a) storable"
  by unfold_locales (auto simp: shared_save_def shared_load_def shared_clear_def load_safe
      split: prod.splits dest: load_save load_clear failed_save)

end

interpretation in_memory: document_store memory_save memory_load memory_clear "\<lambda>d. True"
  by unfold_locales (auto simp: memory_save_def memory_load_def memory_clear_def)

interpretation on_file: document_store "file_save lc" "file_load lc" file_clear "doc_encodable lc" for lc
proof unfold_locales
  fix s d s' assume "file_save lc s d = (s', Inr ())" "doc_encodable lc d"
  then show "file_load lc s' = ret (Inr (Some d))"
    by (auto simp: file_save_def file_load_def doc_decode_encode split: option.splits)
next
  show "no_panic (file_load lc s)" for s
    unfolding file_load_def by (intro safe doc_decode_safe)
qed (auto simp: file_clear_def file_save_def file_load_def split: option.splits)

interpretation shared_memory: document_store "shared_save memory_save a" "shared_load memory_load a" "shared_clear memory_clear a"
  "\<lambda>d. True" for a
  by (rule in_memory.shared_store)

interpretation shared_file: document_store "shared_save (file_save lc) a" "shared_load (file_load lc) a" "shared_clear file_clear a"
  "doc_encodable lc" for lc a
  by (rule on_file.shared_store)

lemma file_unreadable_is_first_run:
  "fs_error f = None \<Longrightarrow> fs_content f = Some data \<Longrightarrow> doc_decode lc data = ret None \<Longrightarrow> file_load lc f = ret (Inr None)"
  by (simp add: file_load_def)

end
