(* ===== verification/Ble_Config.thy ===== *)
theory Ble_Config
  imports Node_Id
begin

text \<open>
  The configuration of the transport, from \<^verbatim>\<open>config.rs\<close>: radio modes and power profiles with
  their timings, the configuration records with their presets, the names under which devices
  advertise, and the secret that may be embedded at build time. The environment variables read at
  build time are arguments. Main results: which device names are read back, and that a printed
  secret is read back.
\<close>

unbundle bit_operations_syntax

section \<open>Radio modes and power profiles\<close>

datatype config_phy = CfgLe1M | CfgLe2M | CfgLeCodedS2 | CfgLeCodedS8

primrec bandwidth_bps :: "config_phy \<Rightarrow> u32" where
  "bandwidth_bps CfgLe1M = 1000000"
| "bandwidth_bps CfgLe2M = 2000000"
| "bandwidth_bps CfgLeCodedS2 = 500000"
| "bandwidth_bps CfgLeCodedS8 = 125000"

primrec typical_range_meters :: "config_phy \<Rightarrow> u32" where
  "typical_range_meters CfgLe1M = 100"
| "typical_range_meters CfgLe2M = 50"
| "typical_range_meters CfgLeCodedS2 = 200"
| "typical_range_meters CfgLeCodedS8 = 400"

definition config_requires_ble5 :: "config_phy \<Rightarrow> bool" where
  "config_requires_ble5 p \<longleftrightarrow> p \<in> {CfgLe2M, CfgLeCodedS2, CfgLeCodedS8}"

text \<open>The fields of \<open>CfgCustom\<close> are the scan interval, scan window, advertising and connection interval.\<close>

datatype config_profile = CfgAggressive | CfgBalanced | CfgLowPower | CfgCustom u32 u32 u32 u32

primrec profile_scan_interval_ms :: "config_profile \<Rightarrow> u32" where
  "profile_scan_interval_ms CfgAggressive = 100"
| "profile_scan_interval_ms CfgBalanced = 500"
| "profile_scan_interval_ms CfgLowPower = 5000"
| "profile_scan_interval_ms (CfgCustom si sw ai ci) = si"

primrec profile_scan_window_ms :: "config_profile \<Rightarrow> u32" where
  "profile_scan_window_ms CfgAggressive = 50"
| "profile_scan_window_ms CfgBalanced = 50"
| "profile_scan_window_ms CfgLowPower = 100"
| "profile_scan_window_ms (CfgCustom si sw ai ci) = sw"

primrec profile_adv_interval_ms :: "config_profile \<Rightarrow> u32" where
  "profile_adv_interval_ms CfgAggressive = 100"
| "profile_adv_interval_ms CfgBalanced = 500"
| "profile_adv_interval_ms CfgLowPower = 2000"
| "profile_adv_interval_ms (CfgCustom si sw ai ci) = ai"

primrec profile_conn_interval_ms :: "config_profile \<Rightarrow> u32" where
  "profile_conn_interval_ms CfgAggressive = 15"
| "profile_conn_interval_ms CfgBalanced = 30"
| "profile_conn_interval_ms CfgLowPower = 100"
| "profile_conn_interval_ms (CfgCustom si sw ai ci) = ci"

primrec profile_duty_cycle_percent :: "config_profile \<Rightarrow> u8" where
  "profile_duty_cycle_percent CfgAggressive = 20"
| "profile_duty_cycle_percent CfgBalanced = 10"
| "profile_duty_cycle_percent CfgLowPower = 2"
| "profile_duty_cycle_percent (CfgCustom si sw ai ci) = (if si = 0 then 0 else ucast (sw * 100 div si))"

section \<open>Configuration records\<close>

record discovery_config =
  dc_scan_interval_ms :: u32
  dc_scan_window_ms :: u32
  dc_adv_interval_ms :: u32
  dc_tx_power_dbm :: i8
  dc_adv_phy :: config_phy
  dc_scan_phy :: config_phy
  dc_active_scan :: bool
  dc_filter_duplicates :: bool

definition discovery_config_default :: discovery_config where
  "discovery_config_default =
     \<lparr>dc_scan_interval_ms = 500, dc_scan_window_ms = 50, dc_adv_interval_ms = 500, dc_tx_power_dbm = 0,
      dc_adv_phy = CfgLe1M, dc_scan_phy = CfgLe1M, dc_active_scan = True, dc_filter_duplicates = True\<rparr>"

record gatt_config =
  gc_preferred_mtu :: u16
  gc_min_mtu :: u16
  gc_enable_server :: bool
  gc_enable_client :: bool

definition gatt_config_default :: gatt_config where
  "gatt_config_default =
     \<lparr>gc_preferred_mtu = 251, gc_min_mtu = 23, gc_enable_server = True, gc_enable_client = True\<rparr>"

definition DEFAULT_MESH_ID :: string where "DEFAULT_MESH_ID = ''DEMO''"

record mesh_net_config =
  mn_mesh_id :: string
  mn_max_connections :: u8
  mn_max_children :: u8
  mn_supervision_timeout_ms :: u16
  mn_slave_latency :: u16
  mn_conn_interval_min_ms :: u16
  mn_conn_interval_max_ms :: u16

definition mesh_net_config_default :: mesh_net_config where
  "mesh_net_config_default =
     \<lparr>mn_mesh_id = DEFAULT_MESH_ID, mn_max_connections = 7, mn_max_children = 3, mn_supervision_timeout_ms = 4000,
      mn_slave_latency = 0, mn_conn_interval_min_ms = 30, mn_conn_interval_max_ms = 50\<rparr>"

definition mesh_net_config_new :: "string \<Rightarrow> mesh_net_config" where
  "mesh_net_config_new mid = mesh_net_config_default\<lparr>mn_mesh_id := mid\<rparr>"

definition device_name :: "mesh_net_config \<Rightarrow> node_id \<Rightarrow> string" where
  "device_name c n = ''PEAT_'' @ mn_mesh_id c @ ''-'' @ node_id_display n"

definition strip_prefix :: "string \<Rightarrow> string \<Rightarrow> string option" where
  "strip_prefix p s = (if take (length p) s = p then Some (drop (length p) s) else None)"

definition split_once :: "char \<Rightarrow> string \<Rightarrow> (string \<times> string) option" where
  "split_once c s =
     (if c \<in> set s then Some (takeWhile (\<lambda>x. x \<noteq> c) s, tl (dropWhile (\<lambda>x. x \<noteq> c) s)) else None)"

definition parse_device_name :: "string \<Rightarrow> (string option \<times> node_id) option" where
  "parse_device_name name =
     (case strip_prefix ''PEAT_'' name of
        Some rest \<Rightarrow>
          (case split_once (CHR ''-'') rest of
             Some (mid, hex) \<Rightarrow>
               (case from_str_radix16 (2 ^ 32) hex of Some n \<Rightarrow> Some (Some mid, word_of_nat n) | None \<Rightarrow> None)
           | None \<Rightarrow> None)
      | None \<Rightarrow>
          (case strip_prefix ''PEAT-'' name of
             Some hex \<Rightarrow>
               (case from_str_radix16 (2 ^ 32) hex of Some n \<Rightarrow> Some (None, word_of_nat n) | None \<Rightarrow> None)
           | None \<Rightarrow> None))"

definition net_matches_mesh :: "mesh_net_config \<Rightarrow> string option \<Rightarrow> bool" where
  "net_matches_mesh c mid = (case mid of Some i \<Rightarrow> i = mn_mesh_id c | None \<Rightarrow> True)"

text \<open>The fields of \<open>CfgAdaptive\<close> are the high and low threshold and the hysteresis.\<close>

datatype config_phy_strategy = CfgFixed config_phy | CfgAdaptive i8 i8 u8 | CfgMaxRange | CfgMaxThroughput

record phy_config =
  pc_strategy :: config_phy_strategy
  pc_preferred_phy :: config_phy
  pc_allow_phy_update :: bool

definition phy_config_default :: phy_config where
  "phy_config_default = \<lparr>pc_strategy = CfgFixed CfgLe1M, pc_preferred_phy = CfgLe1M, pc_allow_phy_update = False\<rparr>"

record security_config =
  sc_require_pairing :: bool
  sc_require_encryption :: bool
  sc_require_mitm_protection :: bool
  sc_require_secure_connections :: bool
  sc_app_layer_encryption :: bool

definition security_config_default :: security_config where
  "security_config_default =
     \<lparr>sc_require_pairing = False, sc_require_encryption = True, sc_require_mitm_protection = False,
      sc_require_secure_connections = False, sc_app_layer_encryption = False\<rparr>"

record ble_config =
  bc_node_id :: node_id
  bc_capabilities :: u16
  bc_hierarchy_level :: u8
  bc_geohash :: u32
  bc_discovery :: discovery_config
  bc_gatt :: gatt_config
  bc_mesh :: mesh_net_config
  bc_power_profile :: config_profile
  bc_phy :: phy_config
  bc_security :: security_config

definition ble_config_new :: "node_id \<Rightarrow> ble_config" where
  "ble_config_new n =
     \<lparr>bc_node_id = n, bc_capabilities = 0, bc_hierarchy_level = 0, bc_geohash = 0,
      bc_discovery = discovery_config_default, bc_gatt = gatt_config_default, bc_mesh = mesh_net_config_default,
      bc_power_profile = CfgBalanced, bc_phy = phy_config_default, bc_security = security_config_default\<rparr>"

definition ble_config_peat_lite :: "node_id \<Rightarrow> ble_config" where
  "ble_config_peat_lite n =
     (let c = ble_config_new n
      in c\<lparr>bc_power_profile := CfgLowPower,
           bc_mesh := (bc_mesh c)\<lparr>mn_max_children := 0\<rparr>,
           bc_discovery := (bc_discovery c)\<lparr>dc_scan_interval_ms := 5000, dc_scan_window_ms := 100, dc_adv_interval_ms := 2000\<rparr>\<rparr>)"

definition apply_power_profile :: "ble_config \<Rightarrow> ble_config" where
  "apply_power_profile c =
     (let p = bc_power_profile c
      in c\<lparr>bc_discovery := (bc_discovery c)\<lparr>dc_scan_interval_ms := profile_scan_interval_ms p,
             dc_scan_window_ms := profile_scan_window_ms p, dc_adv_interval_ms := profile_adv_interval_ms p\<rparr>,
           bc_mesh := (bc_mesh c)\<lparr>mn_conn_interval_min_ms := ucast (profile_conn_interval_ms p),
             mn_conn_interval_max_ms := ucast (profile_conn_interval_ms p) + 20\<rparr>\<rparr>)"

section \<open>The embedded secret\<close>

definition secret_hex_digit :: "u8 \<Rightarrow> u8 option" where
  "secret_hex_digit c =
     (if 48 \<le> c \<and> c \<le> 57 then Some (c - 48)
      else if 97 \<le> c \<and> c \<le> 102 then Some (c - 97 + 10)
      else if 65 \<le> c \<and> c \<le> 70 then Some (c - 65 + 10)
      else None)"

fun secret_bytes :: "bytes \<Rightarrow> bytes option" where
  "secret_bytes (h # l # rest) =
     (case (secret_hex_digit h, secret_hex_digit l) of
        (Some a, Some b) \<Rightarrow> map_option (\<lambda>bs. ((push_bit 4 a) OR b) # bs) (secret_bytes rest)
      | _ \<Rightarrow> None)"
| "secret_bytes _ = Some []"

definition parse_hex_secret :: "bytes \<Rightarrow> bytes option" where
  "parse_hex_secret hex = (if length hex \<noteq> 64 then None else secret_bytes hex)"

definition embedded_encryption_secret :: "bytes option \<Rightarrow> bytes option" where
  "embedded_encryption_secret env = Option.bind env parse_hex_secret"

definition has_embedded_encryption_secret :: "bytes option \<Rightarrow> bool" where
  "has_embedded_encryption_secret env \<longleftrightarrow> env \<noteq> None"

section \<open>Lemmas\<close>

lemma hex_accumulate_minus: "CHR ''-'' \<in> set s \<Longrightarrow> hex_accumulate b a s = None"
  by (induction b a s rule: hex_accumulate.induct) (auto simp: hex_digit_def split: option.splits)

lemma from_str_radix16_minus:
  assumes "CHR ''-'' \<in> set s"
  shows "from_str_radix16 b s = None"
proof -
  have "hd s = CHR ''+'' \<Longrightarrow> CHR ''-'' \<in> set (tl s)" using assms by (cases s) auto
  then show ?thesis using hex_accumulate_minus [of s b 0] hex_accumulate_minus [of "tl s" b 0] assms
    by (simp add: from_str_radix16_def)
qed

lemma display_radix:
  "\<exists>v. from_str_radix16 (2 ^ 32) (node_id_display n) = Some v \<and> word_of_nat v = n" "CHR ''-'' \<notin> set (node_id_display n)"
proof -
  have "CHR ''x'' \<notin> set (node_id_display n)" "CHR ''X'' \<notin> set (node_id_display n)"
    by (simp_all add: node_id_display_def image_iff upper_hex_char_neq [THEN not_sym])
  then have "map_option word_of_nat (from_str_radix16 (2 ^ 32) (node_id_display n)) = Some n"
    using node_id_parse_display_aux [of n] by (simp add: node_id_parse_def trim_start_0x_id)
  then show v: "\<exists>v. from_str_radix16 (2 ^ 32) (node_id_display n) = Some v \<and> word_of_nat v = n" by auto
  then show "CHR ''-'' \<notin> set (node_id_display n)" using from_str_radix16_minus by fastforce
qed

lemma split_once_first: "c \<notin> set a \<Longrightarrow> split_once c (a @ c # b) = Some (a, b)"
  by (induction a) (auto simp: split_once_def)

text \<open>A device name is read back exactly if the mesh id has no minus sign; with one it is not read at all.\<close>

lemma parse_device_name_iff:
  "parse_device_name (device_name c n) =
     (if CHR ''-'' \<in> set (mn_mesh_id c) then None else Some (Some (mn_mesh_id c), n))"
proof -
  have strip: "strip_prefix ''PEAT_'' (device_name c n) = Some (mn_mesh_id c @ CHR ''-'' # node_id_display n)"
    by (simp add: strip_prefix_def device_name_def)
  show ?thesis
  proof (cases "CHR ''-'' \<in> set (mn_mesh_id c)")
    case True
    then obtain a b where m: "mn_mesh_id c = a @ CHR ''-'' # b" "CHR ''-'' \<notin> set a" by (meson split_list_first)
    then have "split_once (CHR ''-'') (mn_mesh_id c @ CHR ''-'' # node_id_display n)
        = Some (a, b @ CHR ''-'' # node_id_display n)" by (simp add: split_once_first)
    then show ?thesis using True strip by (simp add: parse_device_name_def from_str_radix16_minus)
  next
    case False
    then show ?thesis using strip display_radix(1) [of n] by (auto simp: parse_device_name_def split_once_first)
  qed
qed

lemma legacy_name_parsed: "parse_device_name (''PEAT-'' @ node_id_display n) = Some (None, n)"
  using display_radix(1) [of n] by (auto simp: parse_device_name_def strip_prefix_def)

text \<open>The low-power preset agrees with its profile.\<close>

lemma peat_lite_discovery: "bc_discovery (apply_power_profile (ble_config_peat_lite n)) = bc_discovery (ble_config_peat_lite n)"
  by (simp add: apply_power_profile_def ble_config_peat_lite_def ble_config_new_def discovery_config_default_def Let_def)

definition print_secret_digit :: "u8 \<Rightarrow> u8" where
  "print_secret_digit d = (if d < 10 then d + 48 else d + 87)"

definition print_secret :: "bytes \<Rightarrow> bytes" where
  "print_secret bs = concat (map (\<lambda>b. [print_secret_digit (drop_bit 4 b), print_secret_digit (b AND 0xF)]) bs)"

lemma secret_digit_roundtrip:
  assumes "d < 16"
  shows "secret_hex_digit (print_secret_digit d) = Some d"
proof -
  have "\<forall>n < 16. secret_hex_digit (print_secret_digit (word_of_nat n)) = Some (word_of_nat n)" by code_simp
  then have "unat d < 16 \<Longrightarrow> secret_hex_digit (print_secret_digit (word_of_nat (unat d))) = Some (word_of_nat (unat d))" by blast
  then show ?thesis using assms by (simp add: word_less_nat_alt)
qed

lemma nibbles: "drop_bit 4 b < (16 :: u8)" "b AND 0xF < (16 :: u8)" "push_bit 4 (drop_bit 4 b) OR (b AND 0xF) = (b :: u8)"
proof -
  have m: "b AND 0xF = take_bit 4 b" by (simp add: take_bit_eq_mask mask_eq_exp_minus_1)
  have "unat b div 16 < 16" using unat_less [of b] by simp
  then show "drop_bit 4 b < (16 :: u8)" by (simp add: word_less_nat_alt drop_bit_eq_div unat_div)
  have "unat b mod 16 < 16" by simp
  then show "b AND 0xF < (16 :: u8)" unfolding m by (simp add: word_less_nat_alt take_bit_eq_mod unat_mod)
  show "push_bit 4 (drop_bit 4 b) OR (b AND 0xF) = (b :: u8)"
    unfolding m by (rule bit_eqI) (auto simp: bit_or_iff bit_push_bit_iff bit_drop_bit_eq bit_take_bit_iff)
qed

lemma parse_print_secret: "length bs = 32 \<Longrightarrow> parse_hex_secret (print_secret bs) = Some bs"
proof -
  have "secret_bytes (print_secret bs) = Some bs"
    by (induction bs) (simp_all add: print_secret_def secret_digit_roundtrip nibbles)
  moreover have "length (print_secret bs) = 2 * length bs" by (induction bs) (simp_all add: print_secret_def)
  ultimately show "length bs = 32 \<Longrightarrow> ?thesis" by (simp add: parse_hex_secret_def)
qed

end
