(* ===== verification/Transport.thy ===== *)
theory Transport
  imports Sync_Protocol Gatt_Characteristics Ble_Config Peer_State "HOL-Library.Product_Lexorder"
begin

text \<open>
  The transport and the simulated radio, from \<^verbatim>\<open>transport.rs\<close> and \<^verbatim>\<open>platform/mock.rs\<close>: the
  network that simulated adapters share, the adapter, and \<open>BluetoothLETransport\<close>, which cuts a
  message into chunks and writes them to a peer. The locale \<open>ble_link\<close> is what the transport needs of
  an adapter; the simulated adapter provides it. Main result: what is sent is put together again
  by the receiver.

  Operations of an adapter take and return the shared network. A callback that is set is a flag,
  its calls are a list of notes. Instants are numbers. The simulated latencies and the failure
  rate of the configuration are never read by the code and are left out. The copies of a connection
  share its flag \<open>alive\<close> in the code; ending a connection also removes it from every table of the
  model, so the flag of copies a caller keeps is not tracked.
\<close>

section \<open>The simulated network\<close>

record discovered_device =
  dd_address :: string
  dd_name :: "string option"
  dd_rssi :: i8
  dd_is_peat_node :: bool
  dd_node_id :: "node_id option"
  dd_adv_data :: bytes

record advertising_node =
  an_node_id :: node_id
  an_address :: string
  an_name :: "string option"
  an_rssi :: i8
  an_adv_data :: bytes

record data_packet =
  dp_from :: node_id
  dp_to :: node_id
  dp_data :: bytes
  dp_timestamp :: u64

text \<open>A connection is stored under both directions; the flag tells whether it is alive.\<close>

record mock_network =
  advertising_nodes :: "(node_id, advertising_node) btree_map"
  net_connections :: "(node_id \<times> node_id, bool) btree_map"
  data_queue :: "(node_id, data_packet list) btree_map"

definition mock_network_new :: mock_network where
  "mock_network_new = \<lparr>advertising_nodes = [], net_connections = [], data_queue = []\<rparr>"

definition net_start_advertising :: "mock_network \<Rightarrow> node_id \<Rightarrow> string \<Rightarrow> string option \<Rightarrow> mock_network" where
  "net_start_advertising w n addr name =
     w\<lparr>advertising_nodes := bt_insert n
         \<lparr>an_node_id = n, an_address = addr, an_name = name, an_rssi = - 50, an_adv_data = []\<rparr> (advertising_nodes w)\<rparr>"

definition net_stop_advertising :: "mock_network \<Rightarrow> node_id \<Rightarrow> mock_network" where
  "net_stop_advertising w n = w\<lparr>advertising_nodes := bt_remove n (advertising_nodes w)\<rparr>"

text \<open>The order of the hash map is the argument \<open>iter\<close>.\<close>

definition discover_nodes ::
  "(advertising_node list \<Rightarrow> advertising_node list) \<Rightarrow> mock_network \<Rightarrow> node_id \<Rightarrow> discovered_device list" where
  "discover_nodes iter w observer =
     map (\<lambda>n. \<lparr>dd_address = an_address n, dd_name = an_name n, dd_rssi = an_rssi n, dd_is_peat_node = True,
               dd_node_id = Some (an_node_id n), dd_adv_data = an_adv_data n\<rparr>)
       (filter (\<lambda>n. an_node_id n \<noteq> observer) (iter (map snd (advertising_nodes w))))"

definition net_connect :: "mock_network \<Rightarrow> node_id \<Rightarrow> node_id \<Rightarrow> mock_network \<times> (ble_error + unit)" where
  "net_connect w a b =
     (if \<not> bt_contains_key (advertising_nodes w) b
      then (w, Inl (ConnectionFailed (''Node '' @ node_id_display b @ '' is not advertising'')))
      else (w\<lparr>net_connections := bt_insert (b, a) True (bt_insert (a, b) True (net_connections w))\<rparr>, Inr ()))"

definition net_disconnect :: "mock_network \<Rightarrow> node_id \<Rightarrow> node_id \<Rightarrow> mock_network" where
  "net_disconnect w a b = w\<lparr>net_connections := bt_remove (b, a) (bt_remove (a, b) (net_connections w))\<rparr>"

definition net_is_connected :: "mock_network \<Rightarrow> node_id \<Rightarrow> node_id \<Rightarrow> bool" where
  "net_is_connected w a b \<longleftrightarrow> bt_get (net_connections w) (a, b) = Some True"

definition send_data :: "mock_network \<Rightarrow> node_id \<Rightarrow> node_id \<Rightarrow> bytes \<Rightarrow> u64 \<Rightarrow> mock_network \<times> (ble_error + unit)" where
  "send_data w a b data now =
     (if \<not> bt_contains_key (net_connections w) (a, b)
      then (w, Inl (ConnectionFailed (''No connection from '' @ node_id_display a @ '' to '' @ node_id_display b)))
      else
        let packets = (case bt_get (data_queue w) b of Some ps \<Rightarrow> ps | None \<Rightarrow> [])
        in (w\<lparr>data_queue := bt_insert b (packets @ [\<lparr>dp_from = a, dp_to = b, dp_data = data, dp_timestamp = now\<rparr>])
               (data_queue w)\<rparr>, Inr ()))"

definition receive_data :: "mock_network \<Rightarrow> node_id \<Rightarrow> mock_network \<times> data_packet list" where
  "receive_data w n =
     (w\<lparr>data_queue := bt_remove n (data_queue w)\<rparr>, case bt_get (data_queue w) n of Some ps \<Rightarrow> ps | None \<Rightarrow> [])"

definition net_connected_peers ::
  "((node_id \<times> node_id) list \<Rightarrow> (node_id \<times> node_id) list) \<Rightarrow> mock_network \<Rightarrow> node_id \<Rightarrow> node_id list" where
  "net_connected_peers iter w n = map snd (filter (\<lambda>(a, b). a = n) (iter (map fst (net_connections w))))"

definition net_reset :: "mock_network \<Rightarrow> mock_network" where
  "net_reset w = mock_network_new"

section \<open>The simulated adapter\<close>

record mock_connection =
  mk_peer_id :: node_id
  mk_mtu :: u16
  mk_phy :: config_phy
  mk_rssi :: i8
  mk_alive :: bool
  mk_established_at :: u64

definition mock_connection_new :: "node_id \<Rightarrow> u16 \<Rightarrow> config_phy \<Rightarrow> u64 \<Rightarrow> mock_connection" where
  "mock_connection_new n mtu phy now =
     \<lparr>mk_peer_id = n, mk_mtu = mtu, mk_phy = phy, mk_rssi = - 50, mk_alive = True, mk_established_at = now\<rparr>"

definition mock_connection_kill :: "mock_connection \<Rightarrow> mock_connection" where
  "mock_connection_kill c = c\<lparr>mk_alive := False\<rparr>"

definition mock_connection_set_rssi :: "mock_connection \<Rightarrow> i8 \<Rightarrow> mock_connection" where
  "mock_connection_set_rssi c r = c\<lparr>mk_rssi := r\<rparr>"

definition mock_connection_set_mtu :: "mock_connection \<Rightarrow> u16 \<Rightarrow> mock_connection" where
  "mock_connection_set_mtu c m = c\<lparr>mk_mtu := m\<rparr>"

record mock_adapter_config =
  mac_supports_coded_phy :: bool
  mac_supports_extended_advertising :: bool
  mac_max_mtu :: u16
  mac_max_connections :: u8

definition mock_adapter_config_default :: mock_adapter_config where
  "mock_adapter_config_default =
     \<lparr>mac_supports_coded_phy = True, mac_supports_extended_advertising = True, mac_max_mtu = 517, mac_max_connections = 8\<rparr>"

datatype mock_event =
    Initialized | Started | Stopped | ScanStarted | ScanStopped | AdvertisingStarted | AdvertisingStopped
  | MockConnected node_id | MockDisconnected node_id link_loss_reason | GattServiceRegistered | GattServiceUnregistered

datatype connection_event =
    EvConnected u16 config_phy | EvDisconnected link_loss_reason | ServicesDiscovered bool | DataReceived bytes
  | MtuChanged u16 | PhyChanged config_phy | RssiUpdated i8

datatype adapter_note = NoteDiscovered discovered_device | NoteConnection node_id connection_event

record mock_adapter =
  ma_node_id :: node_id
  ma_config :: mock_adapter_config
  ma_powered :: bool
  ma_scanning :: bool
  ma_advertising :: bool
  ma_address :: string
  ma_discovery_callback :: bool
  ma_connection_callback :: bool
  ma_connections :: "(node_id, mock_connection) btree_map"
  ma_events :: "mock_event list"

definition hex2 :: "u32 \<Rightarrow> string" where
  "hex2 w = [upper_hex_char (unat w div 16 mod 16), upper_hex_char (unat w mod 16)]"

definition mock_adapter_with_config :: "node_id \<Rightarrow> mock_adapter_config \<Rightarrow> mock_adapter" where
  "mock_adapter_with_config n c =
     \<lparr>ma_node_id = n, ma_config = c, ma_powered = False, ma_scanning = False, ma_advertising = False,
      ma_address = ''00:11:22:'' @ hex2 (drop_bit 16 n AND 0xFF) @ '':'' @ hex2 (drop_bit 8 n AND 0xFF) @ '':''
        @ hex2 (n AND 0xFF),
      ma_discovery_callback = False, ma_connection_callback = False, ma_connections = [], ma_events = []\<rparr>"

definition mock_adapter_new :: "node_id \<Rightarrow> mock_adapter" where
  "mock_adapter_new n = mock_adapter_with_config n mock_adapter_config_default"

definition record_event :: "mock_adapter \<Rightarrow> mock_event \<Rightarrow> mock_adapter" where
  "record_event a e = a\<lparr>ma_events := ma_events a @ [e]\<rparr>"

definition clear_events :: "mock_adapter \<Rightarrow> mock_adapter" where
  "clear_events a = a\<lparr>ma_events := []\<rparr>"

definition trigger_discovery ::
  "(advertising_node list \<Rightarrow> advertising_node list) \<Rightarrow> mock_network \<Rightarrow> mock_adapter \<Rightarrow> adapter_note list" where
  "trigger_discovery iter w a =
     (if ma_discovery_callback a then map NoteDiscovered (discover_nodes iter w (ma_node_id a)) else [])"

definition inject_data :: "mock_adapter \<Rightarrow> node_id \<Rightarrow> bytes \<Rightarrow> adapter_note list" where
  "inject_data a from data = (if ma_connection_callback a then [NoteConnection from (DataReceived data)] else [])"

definition simulate_disconnect ::
  "mock_network \<Rightarrow> mock_adapter \<Rightarrow> node_id \<Rightarrow> link_loss_reason \<Rightarrow> mock_network \<times> mock_adapter \<times> adapter_note list" where
  "simulate_disconnect w a n reason =
     (net_disconnect w (ma_node_id a) n,
      record_event (a\<lparr>ma_connections := bt_remove n (ma_connections a)\<rparr>) (MockDisconnected n reason),
      if ma_connection_callback a then [NoteConnection n (EvDisconnected reason)] else [])"

definition adapter_init :: "mock_adapter \<Rightarrow> mock_adapter" where
  "adapter_init a = record_event (a\<lparr>ma_powered := True\<rparr>) Initialized"

definition adapter_start :: "mock_adapter \<Rightarrow> mock_adapter" where
  "adapter_start a = record_event a Started"

definition adapter_stop :: "mock_network \<Rightarrow> mock_adapter \<Rightarrow> mock_network \<times> mock_adapter" where
  "adapter_stop w a =
     (net_stop_advertising w (ma_node_id a), record_event (a\<lparr>ma_scanning := False, ma_advertising := False\<rparr>) Stopped)"

definition adapter_start_scan :: "mock_adapter \<Rightarrow> mock_adapter" where
  "adapter_start_scan a = record_event (a\<lparr>ma_scanning := True\<rparr>) ScanStarted"

definition adapter_stop_scan :: "mock_adapter \<Rightarrow> mock_adapter" where
  "adapter_stop_scan a = record_event (a\<lparr>ma_scanning := False\<rparr>) ScanStopped"

definition adapter_start_advertising :: "mock_network \<Rightarrow> mock_adapter \<Rightarrow> mock_network \<times> mock_adapter" where
  "adapter_start_advertising w a =
     (net_start_advertising w (ma_node_id a) (ma_address a) (Some ''PEAT''),
      record_event (a\<lparr>ma_advertising := True\<rparr>) AdvertisingStarted)"

definition adapter_stop_advertising :: "mock_network \<Rightarrow> mock_adapter \<Rightarrow> mock_network \<times> mock_adapter" where
  "adapter_stop_advertising w a =
     (net_stop_advertising w (ma_node_id a), record_event (a\<lparr>ma_advertising := False\<rparr>) AdvertisingStopped)"

definition set_discovery_callback :: "mock_adapter \<Rightarrow> bool \<Rightarrow> mock_adapter" where
  "set_discovery_callback a cb = a\<lparr>ma_discovery_callback := cb\<rparr>"

definition set_connection_callback :: "mock_adapter \<Rightarrow> bool \<Rightarrow> mock_adapter" where
  "set_connection_callback a cb = a\<lparr>ma_connection_callback := cb\<rparr>"

definition adapter_connect ::
  "mock_network \<Rightarrow> mock_adapter \<Rightarrow> node_id \<Rightarrow> u64 \<Rightarrow>
   mock_network \<times> mock_adapter \<times> adapter_note list \<times> (ble_error + mock_connection)" where
  "adapter_connect w a n now =
     (if length (ma_connections a) \<ge> unat (mac_max_connections (ma_config a))
      then (w, a, [], Inl (ConnectionFailed ''Maximum connections reached''))
      else
        (case net_connect w (ma_node_id a) n of
           (w1, Inl e) \<Rightarrow> (w1, a, [], Inl e)
         | (w1, Inr _) \<Rightarrow>
             let c = mock_connection_new n (mac_max_mtu (ma_config a)) CfgLe1M now
             in (w1, record_event (a\<lparr>ma_connections := bt_insert n c (ma_connections a)\<rparr>) (MockConnected n),
                 if ma_connection_callback a then [NoteConnection n (EvConnected (mk_mtu c) (mk_phy c))] else [], Inr c)))"

definition adapter_disconnect :: "mock_network \<Rightarrow> mock_adapter \<Rightarrow> node_id \<Rightarrow> mock_network \<times> mock_adapter \<times> adapter_note list" where
  "adapter_disconnect w a n = simulate_disconnect w a n LocalRequest"

definition adapter_get_connection :: "mock_adapter \<Rightarrow> node_id \<Rightarrow> mock_connection option" where
  "adapter_get_connection a n =
     (case bt_get (ma_connections a) n of Some c \<Rightarrow> if mk_alive c then Some c else None | None \<Rightarrow> None)"

definition adapter_peer_count :: "mock_adapter \<Rightarrow> nat" where
  "adapter_peer_count a = length (filter (\<lambda>(n, c). mk_alive c) (ma_connections a))"

definition adapter_connected_peers ::
  "((node_id \<times> mock_connection) list \<Rightarrow> (node_id \<times> mock_connection) list) \<Rightarrow> mock_adapter \<Rightarrow> node_id list" where
  "adapter_connected_peers iter a = map fst (filter (\<lambda>(n, c). mk_alive c) (iter (ma_connections a)))"

definition register_gatt_service :: "mock_adapter \<Rightarrow> mock_adapter" where
  "register_gatt_service a = record_event a GattServiceRegistered"

definition unregister_gatt_service :: "mock_adapter \<Rightarrow> mock_adapter" where
  "unregister_gatt_service a = record_event a GattServiceUnregistered"

definition write_to_peer :: "u64 \<Rightarrow> mock_network \<times> mock_adapter \<Rightarrow> node_id \<Rightarrow> bytes \<Rightarrow> bytes \<Rightarrow> (mock_network \<times> mock_adapter) \<times> (ble_error + unit)" where
  "write_to_peer now wa n uuid data =
     (let (w1, r) = send_data (fst wa) (ma_node_id (snd wa)) n data now in ((w1, snd wa), r))"

section \<open>The transport\<close>

record transport_capabilities =
  tc_max_bandwidth_bps :: u64
  tc_typical_latency_ms :: u32
  tc_max_range_meters :: u32
  tc_bidirectional :: bool
  tc_reliable :: bool
  tc_battery_impact :: u8
  tc_supports_broadcast :: bool
  tc_requires_pairing :: bool
  tc_max_message_size :: nat

definition bluetooth_le :: transport_capabilities where
  "bluetooth_le =
     \<lparr>tc_max_bandwidth_bps = 250000, tc_typical_latency_ms = 30, tc_max_range_meters = 100, tc_bidirectional = True,
      tc_reliable = True, tc_battery_impact = 15, tc_supports_broadcast = True, tc_requires_pairing = False,
      tc_max_message_size = 512\<rparr>"

definition bluetooth_le_coded :: transport_capabilities where
  "bluetooth_le_coded =
     \<lparr>tc_max_bandwidth_bps = 125000, tc_typical_latency_ms = 100, tc_max_range_meters = 400, tc_bidirectional = True,
      tc_reliable = True, tc_battery_impact = 20, tc_supports_broadcast = True, tc_requires_pairing = False,
      tc_max_message_size = 512\<rparr>"

primrec capabilities_for_phy :: "config_phy \<Rightarrow> transport_capabilities" where
  "capabilities_for_phy CfgLe1M = bluetooth_le"
| "capabilities_for_phy CfgLe2M =
     bluetooth_le\<lparr>tc_max_bandwidth_bps := 500000, tc_typical_latency_ms := 20, tc_max_range_meters := 50\<rparr>"
| "capabilities_for_phy CfgLeCodedS2 =
     bluetooth_le\<lparr>tc_max_bandwidth_bps := 250000, tc_typical_latency_ms := 50, tc_max_range_meters := 200\<rparr>"
| "capabilities_for_phy CfgLeCodedS8 = bluetooth_le_coded"

record 'a ble_transport =
  tr_config :: ble_config
  tr_adapter :: 'a
  tr_capabilities :: transport_capabilities

definition transport_new :: "ble_config \<Rightarrow> 'a \<Rightarrow> 'a ble_transport" where
  "transport_new c a =
     \<lparr>tr_config = c, tr_adapter = a, tr_capabilities = capabilities_for_phy (pc_preferred_phy (bc_phy c))\<rparr>"

definition ble_uuid_from_u16 :: "u16 \<Rightarrow> bytes" where
  "ble_uuid_from_u16 short =
     [0, 0, ucast (drop_bit 8 short), ucast short, 0x00, 0x00, 0x10, 0x00, 0x80, 0x00, 0x00, 0x80, 0x5F, 0x9B, 0x34, 0xFB]"

fun write_chunks ::
  "('a \<Rightarrow> node_id \<Rightarrow> bytes \<Rightarrow> bytes \<Rightarrow> 'a \<times> (ble_error + unit)) \<Rightarrow> 'a \<Rightarrow> node_id \<Rightarrow> bytes \<Rightarrow> sync_chunk list \<Rightarrow> 'a \<times> (ble_error + unit)" where
  "write_chunks wr a n uuid [] = (a, Inr ())"
| "write_chunks wr a n uuid (c # cs) =
     (case wr a n uuid (sync_chunk_encode c) of
        (a1, Inl e) \<Rightarrow> (a1, Inl e)
      | (a1, Inr _) \<Rightarrow> write_chunks wr a1 n uuid cs)"

text \<open>The adapter's operations \<open>mtu_of\<close> (of an existing connection) and \<open>wr\<close> are arguments.\<close>

definition send_to ::
  "('a \<Rightarrow> node_id \<Rightarrow> u16 option) \<Rightarrow> ('a \<Rightarrow> node_id \<Rightarrow> bytes \<Rightarrow> bytes \<Rightarrow> 'a \<times> (ble_error + unit)) \<Rightarrow>
   'a ble_transport \<Rightarrow> node_id \<Rightarrow> bytes \<Rightarrow> 'a ble_transport \<times> (ble_error + nat)" where
  "send_to mtu_of wr t n data =
     (case mtu_of (tr_adapter t) n of
        None \<Rightarrow> (t, Inl (ConnectionFailed (''No connection to '' @ node_id_display n)))
      | Some mtu \<Rightarrow>
          (case write_chunks wr (tr_adapter t) n (ble_uuid_from_u16 CHAR_SYNC_DATA_UUID) (chunk_data data (unat mtu) 0) of
             (a1, Inl e) \<Rightarrow> (t\<lparr>tr_adapter := a1\<rparr>, Inl e)
           | (a1, Inr _) \<Rightarrow> (t\<lparr>tr_adapter := a1\<rparr>, Inr (length data))))"

section \<open>What the transport needs of an adapter\<close>

text \<open>
  \<open>linked a n\<close> tells that data can be written to \<open>n\<close>, and \<open>sent a n\<close> is what has been written and not
  yet been taken by \<open>n\<close>.
\<close>

locale ble_link =
  fixes mtu_of :: "'a \<Rightarrow> node_id \<Rightarrow> u16 option"
    and wr :: "'a \<Rightarrow> node_id \<Rightarrow> bytes \<Rightarrow> bytes \<Rightarrow> 'a \<times> (ble_error + unit)"
    and linked :: "'a \<Rightarrow> node_id \<Rightarrow> bool"
    and sent :: "'a \<Rightarrow> node_id \<Rightarrow> bytes list"
  assumes linked_mtu: "linked a n \<Longrightarrow> mtu_of a n \<noteq> None"
    and write_linked: "linked a n \<Longrightarrow> wr a n uuid d = (a', r) \<Longrightarrow> r = Inr () \<and> linked a' n \<and> sent a' n = sent a n @ [d]"
begin

lemma write_chunks_sent:
  "linked a n \<Longrightarrow> \<exists>a'. write_chunks wr a n uuid cs = (a', Inr ()) \<and> linked a' n
     \<and> sent a' n = sent a n @ map sync_chunk_encode cs"
proof (induction cs arbitrary: a)
  case (Cons c cs)
  obtain a1 r where "wr a n uuid (sync_chunk_encode c) = (a1, r)" by fastforce
  with write_linked [OF Cons.prems this] Cons.IH [of a1] show ?case by auto
qed simp

lemma send_to_sent:
  assumes "linked (tr_adapter t) n" "mtu_of (tr_adapter t) n = Some mtu"
  shows "\<exists>t'. send_to mtu_of wr t n data = (t', Inr (length data)) \<and> linked (tr_adapter t') n
    \<and> sent (tr_adapter t') n = sent (tr_adapter t) n @ map sync_chunk_encode (chunk_data data (unat mtu) 0)"
  using write_chunks_sent [OF assms(1), of "ble_uuid_from_u16 CHAR_SYNC_DATA_UUID" "chunk_data data (unat mtu) 0"] assms(2)
  by (auto simp: send_to_def)

lemma not_connected: "mtu_of (tr_adapter t) n = None \<Longrightarrow> \<exists>e. send_to mtu_of wr t n data = (t, Inl (ConnectionFailed e))"
  by (simp add: send_to_def)

end

section \<open>The simulated link\<close>

definition mock_mtu :: "mock_network \<times> mock_adapter \<Rightarrow> node_id \<Rightarrow> u16 option" where
  "mock_mtu wa n = map_option mk_mtu (adapter_get_connection (snd wa) n)"

definition mock_linked :: "mock_network \<times> mock_adapter \<Rightarrow> node_id \<Rightarrow> bool" where
  "mock_linked wa n \<longleftrightarrow> adapter_get_connection (snd wa) n \<noteq> None
     \<and> bt_contains_key (net_connections (fst wa)) (ma_node_id (snd wa), n)"

definition queued :: "mock_network \<times> mock_adapter \<Rightarrow> node_id \<Rightarrow> data_packet list" where
  "queued wa n = (case bt_get (data_queue (fst wa)) n of Some ps \<Rightarrow> ps | None \<Rightarrow> [])"

interpretation mock: ble_link mock_mtu "write_to_peer now" mock_linked "\<lambda>wa n. map dp_data (queued wa n)" for now
  by unfold_locales
    (auto simp: mock_mtu_def mock_linked_def queued_def write_to_peer_def send_data_def Let_def split: prod.splits if_splits)

lemma adapter_connect_linked:
  assumes "adapter_connect w a n t0 = (w1, a1, ns, Inr c)"
  shows "mock_linked (w1, a1) n" "mock_mtu (w1, a1) n = Some (mac_max_mtu (ma_config a))" "data_queue w1 = data_queue w"
  using assms
  by (auto simp: adapter_connect_def net_connect_def mock_linked_def mock_mtu_def adapter_get_connection_def record_event_def
      mock_connection_new_def Let_def bt_contains_key_def split: if_splits prod.splits sum.splits)

lemma sync_chunk_roundtrip: "sync_chunk_decode (sync_chunk_encode c) = ret (Some c)"
  by (simp add: sync_chunk_decode_def sync_chunk_encode_def chunk_header_encode_def chunk_header_decode_def wire
      CHUNK_HEADER_SIZE_def)

text \<open>The chunks a receiver reads from the packets it took.\<close>

definition arrived :: "data_packet list \<Rightarrow> (sync_chunk \<times> u64) list" where
  "arrived ps = List.map_filter (\<lambda>p. case sync_chunk_decode (dp_data p) of
     Some (Some c) \<Rightarrow> Some (c, dp_timestamp p) | _ \<Rightarrow> None) ps"

lemma arrived_chunks:
  "map dp_data ps = map sync_chunk_encode cs \<Longrightarrow> map fst (arrived ps) = cs"
proof (induction ps arbitrary: cs)
  case (Cons p ps)
  then obtain c cs' where "cs = c # cs'" "dp_data p = sync_chunk_encode c" "map dp_data ps = map sync_chunk_encode cs'"
    by (cases cs) auto
  then show ?case using Cons.IH [of cs'] by (simp add: arrived_def sync_chunk_roundtrip List.map_filter_simps)
qed (simp add: arrived_def List.map_filter_simps)

text \<open>The characteristic the transport writes to is none of the Peat service.\<close>

lemma transport_writes_elsewhere:
  "ble_uuid_from_u16 CHAR_SYNC_DATA_UUID \<notin> {node_info_uuid, sync_state_uuid, sync_data_uuid, command_uuid, status_uuid}"
  by (simp add: ble_uuid_from_u16_def node_info_uuid_def sync_state_uuid_def sync_data_uuid_def command_uuid_def
      status_uuid_def derive_uuid_def PEAT_SERVICE_UUID_def)

text \<open>A link whose MTU leaves no room for a payload: success is reported and nothing is written.\<close>

lemma small_mtu_sends_nothing:
  assumes "mtu_of (tr_adapter t) n = Some mtu" "unat mtu \<le> CHUNK_HEADER_SIZE"
  shows "send_to mtu_of wr t n data = (t, Inr (length data))"
  using assms by (simp add: send_to_def chunk_data_def)

text \<open>Every message has the number 0, so the rest of an interrupted message joins the next one.\<close>

lemma interrupted_message_joins_next:
  assumes "CHUNK_HEADER_SIZE < mtu" "k = mtu - CHUNK_HEADER_SIZE"
    and "k < length d1" "length d1 \<le> 2 * k" "k < length d2" "length d2 \<le> 2 * k"
  shows "snd (reassemble_run reassembler_new [(chunk_data d1 mtu 0 ! 0, t), (chunk_data d2 mtu 0 ! 1, u)])
    = [(0, None), (0, Some (take k d1 @ drop k d2))]"
  using chunk_data_two [OF assms(1,2)] assms chunks_of_two_messages [of reassembler_new 0]
  by (simp add: reassembler_new_def bt_get_def)

section \<open>Properties\<close>

lemma send_to_delivers:
  assumes link: "mock_linked wa n" "mock_mtu wa n = Some mtu" and q: "queued wa n = []"
    and fits: "CHUNK_HEADER_SIZE < unat mtu" "length (chunk_data data (unat mtu) 0) < 2 ^ 16"
    and r: "bt_get (partials r) 0 = None"
  shows "\<exists>t. send_to mock_mtu (write_to_peer now) (transport_new cfg wa) n data = (t, Inr (length data))
    \<and> (\<exists>k. results_for 0 (snd (reassemble_run r (arrived (snd (receive_data (fst (tr_adapter t)) n)))))
         = replicate k None @ [Some data])"
proof -
  let ?cs = "chunk_data data (unat mtu) 0"
  obtain t where t: "send_to mock_mtu (write_to_peer now) (transport_new cfg wa) n data = (t, Inr (length data))"
      "map dp_data (queued (tr_adapter t) n) = map sync_chunk_encode ?cs"
    using mock.send_to_sent [of "transport_new cfg wa" n mtu now data] link q by (auto simp: transport_new_def)
  then have evs: "map fst (arrived (snd (receive_data (fst (tr_adapter t)) n))) = ?cs"
    using arrived_chunks by (simp add: receive_data_def queued_def)
  obtain cs c where cs: "?cs = cs @ [c]"
    using chunk_data_chunks [OF fits(1)] payloads_neq_Nil [OF fits(1)] 
    by (metis append_butlast_last_id map_is_Nil_conv upt_eq_Nil_conv length_0_conv less_le_not_le not_gr_zero)
  have own: "chunks_for 0 (arrived (snd (receive_data (fst (tr_adapter t)) n))) = cs @ [c]"
    unfolding chunks_for_def evs cs [symmetric] chunk_data_chunks [OF fits(1)] by (simp add: chunk_of_def filter_id_conv)
  have "distinct ?cs"
    using chunk_of_inject [of _ "payloads data (unat mtu)"] fits(2)
    unfolding chunk_data_chunks [OF fits(1)] by (auto simp: distinct_map intro!: inj_onI)
  then have "c \<notin> set cs" using cs by simp
  with reassemble_message [OF fits r own] cs t(1) show ?thesis by auto
qed

text \<open>
  C14: what the transport sends over a link arrives. After an adapter connected to a peer for which
  no packets are waiting, with an MTU above the 8 bytes of a chunk header, the first message the
  transport sends, of any content that is cut into fewer than 65536 chunks, is accepted whole, and
  the peer, which takes the packets from the link and reassembles the chunks, gets exactly that
  message, once.
\<close>

theorem transport_delivers:
  assumes "adapter_connect w a n t0 = (w1, a1, ns, Inr c)" "bt_get (data_queue w) n = None"
    and "CHUNK_HEADER_SIZE < unat (mac_max_mtu (ma_config a))"
    and "length (chunk_data data (unat (mac_max_mtu (ma_config a))) 0) < 2 ^ 16" "bt_get (partials r) 0 = None"
  shows "\<exists>t. send_to mock_mtu (write_to_peer now) (transport_new cfg (w1, a1)) n data = (t, Inr (length data))
    \<and> (\<exists>k. results_for 0 (snd (reassemble_run r (arrived (snd (receive_data (fst (tr_adapter t)) n)))))
         = replicate k None @ [Some data])"
  by (rule send_to_delivers [OF adapter_connect_linked(1,2) [OF assms(1)] _ assms(3-5)])
    (simp add: queued_def adapter_connect_linked(3) [OF assms(1)] assms(2))

theorem transport_delivers_witness:
  "let w0 = net_start_advertising mock_network_new 2 ''AA'' None;
       (w1, a1, ns, r) = adapter_connect w0 (mock_adapter_new 1) 2 5
   in \<exists>t. send_to mock_mtu (write_to_peer 6) (transport_new (ble_config_new 1) (w1, a1)) 2 (replicate 600 7) = (t, Inr 600)
    \<and> (\<exists>k. results_for 0 (snd (reassemble_run reassembler_new (arrived (snd (receive_data (fst (tr_adapter t)) 2)))))
         = replicate k None @ [Some (replicate 600 7)])"
proof -
  let ?w = "net_start_advertising mock_network_new 2 ''AA'' None" and ?a = "mock_adapter_new 1"
  obtain w1 a1 ns r where r: "adapter_connect ?w ?a 2 5 = (w1, a1, ns, r)" by (metis prod_cases4)
  then obtain c where "r = Inr c"
    by (auto simp: adapter_connect_def net_connect_def net_start_advertising_def mock_network_new_def mock_adapter_new_def
        mock_adapter_with_config_def mock_adapter_config_default_def bt_contains_key_def bt_get_def Let_def)
  with r have c: "adapter_connect ?w ?a 2 5 = (w1, a1, ns, Inr c)" by simp
  have m: "mac_max_mtu (ma_config ?a) = 517"
    by (simp add: mock_adapter_new_def mock_adapter_with_config_def mock_adapter_config_default_def)
  have "length (chunk_data (replicate 600 7) 517 0) = 2"
    by (subst chunk_data_two [of _ 509]) (simp_all add: CHUNK_HEADER_SIZE_def)
  then have "\<exists>t. send_to mock_mtu (write_to_peer 6) (transport_new (ble_config_new 1) (w1, a1)) 2 (replicate 600 7) = (t, Inr (length (replicate 600 (7::u8))))
    \<and> (\<exists>k. results_for 0 (snd (reassemble_run reassembler_new (arrived (snd (receive_data (fst (tr_adapter t)) 2)))))
         = replicate k None @ [Some (replicate 600 7)])"
    by (intro transport_delivers [OF c])
      (simp_all add: m CHUNK_HEADER_SIZE_def reassembler_new_def bt_get_def net_start_advertising_def mock_network_new_def)
  then show ?thesis using c by simp
qed

end
