(* ===== verification/Esp32.thy ===== *)
theory Esp32
  imports Transport Discovery Delta
begin

text \<open>
  The adapter for ESP32 boards, from \<^verbatim>\<open>platform/esp32.rs\<close>: the state the callbacks of the
  NimBLE stack share, the handlers of its events, the search for the Peat service in advertising
  data, the received and the published document, and the adapter on top, in the build for the board.
  Main results: the search never reads outside the data and finds exactly the fields that name the
  service; the connection table agrees with its counter in every reachable state; and the search
  does not find the packets of the library's own advertiser.

  NimBLE itself is not part of the sources. Its return codes are an argument of every handler, and
  the calls a handler makes to it are returned as a list. A raw pointer with a length is an optional
  byte list; reading past its end is \<open>panic\<close>. The static locks are never poisoned in the model, so
  the branches for a poisoned lock are left out. Logging is left out.
\<close>

unbundle bit_operations_syntax

section \<open>State\<close>

text \<open>The identifiers of the service and of its characteristic, low byte first.\<close>

definition ESP_SERVICE_UUID :: bytes where
  "ESP_SERVICE_UUID =
     [0x79, 0xd4, 0xc3, 0xb2, 0x02, 0x0e, 0x67, 0xa5, 0x72, 0x43, 0xcc, 0x58, 0x0b, 0xc1, 0x7a, 0xf4]"

definition ESP_DOC_CHAR_UUID :: bytes where
  "ESP_DOC_CHAR_UUID =
     [0x79, 0xd4, 0xc3, 0xb2, 0x02, 0x0e, 0x67, 0xa5, 0x72, 0x43, 0xcc, 0x58, 0x03, 0x00, 0x7a, 0xf4]"

definition ESP_SERVICE_UUID_16 :: u16 where "ESP_SERVICE_UUID_16 = 0xF47A"
definition ESP_MAX_DOC_SIZE :: nat where "ESP_MAX_DOC_SIZE = 256"
definition ESP_MAX_CONNECTIONS :: nat where "ESP_MAX_CONNECTIONS = 4"

record esp_peer =
  ep_handle :: u16
  ep_doc_handle :: u16
  ep_active :: bool
  ep_addr :: bytes
  ep_node_id :: u32

record nimble =
  nb_connections :: "esp_peer list"
  nb_num_connections :: u16
  nb_connected :: bool
  nb_advertising :: bool
  nb_scanning :: bool
  nb_powered :: bool
  nb_doc_char_handle :: u16
  nb_doc_buffer :: bytes
  nb_doc_len :: u16
  nb_pending_docs :: "bytes list"
  nb_connecting :: bool
  nb_our_mac :: bytes
  nb_device_name :: bytes
  nb_device_name_len :: u8

definition nimble_initial :: nimble where
  "nimble_initial =
     \<lparr>nb_connections = replicate ESP_MAX_CONNECTIONS
        \<lparr>ep_handle = 0xFFFF, ep_doc_handle = 0, ep_active = False, ep_addr = replicate 6 0, ep_node_id = 0\<rparr>,
      nb_num_connections = 0, nb_connected = False, nb_advertising = False, nb_scanning = False, nb_powered = False,
      nb_doc_char_handle = 0, nb_doc_buffer = replicate ESP_MAX_DOC_SIZE 0, nb_doc_len = 0, nb_pending_docs = [],
      nb_connecting = False, nb_our_mac = replicate 6 0, nb_device_name = replicate 20 0, nb_device_name_len = 0\<rparr>"

text \<open>Return codes of the stack, and the calls made to it.\<close>

record nimble_rc =
  rc_port_init :: int
  rc_count_cfg :: int
  rc_add_svcs :: int
  rc_adv_set_fields :: int
  rc_adv_start :: int
  rc_disc :: int
  rc_connect :: int

datatype nimble_call =
    CallExchangeMtu u16 | CallAdvSetFields | CallAdvRspSetFields bytes | CallAdvStart | CallAdvStop
  | CallDisc | CallDiscCancel | CallConnect bytes | CallNotify u16 u16 bytes

definition int_display :: "int \<Rightarrow> string" where
  "int_display i = (if i < 0 then ''-'' else []) @ map (\<lambda>b. char_of (unat b)) (decimal (nat \<bar>i\<bar>))"

section \<open>The Peat service in advertising data\<close>

function uuid16_loop :: "bytes \<Rightarrow> nat \<Rightarrow> nat \<Rightarrow> nat \<Rightarrow> bool outcome" where
  "uuid16_loop data i field_len j =
     (if j + 1 < field_len + 1 then
        do { a \<leftarrow> read_u8 data (i + j);
             b \<leftarrow> read_u8 data (i + j + 1);
             if (from_le [a, b] :: u16) = ESP_SERVICE_UUID_16 then ret True else uuid16_loop data i field_len (j + 2) }
      else ret False)"
  by pat_completeness auto
termination by (relation "measure (\<lambda>(_, _, fl, j). fl - j)") auto

text \<open>Reading the sixteen bytes one by one is reading the slice.\<close>

function uuid128_loop :: "bytes \<Rightarrow> nat \<Rightarrow> nat \<Rightarrow> nat \<Rightarrow> bool outcome" where
  "uuid128_loop data i field_len j =
     (if j + 15 < field_len + 1 then
        do { u \<leftarrow> slice data (i + j) (i + j + 16);
             if u = ESP_SERVICE_UUID then ret True else uuid128_loop data i field_len (j + 16) }
      else ret False)"
  by pat_completeness auto
termination by (relation "measure (\<lambda>(_, _, fl, j). fl + 16 - j)") auto

function peat_service_loop :: "bytes \<Rightarrow> nat \<Rightarrow> bool outcome" where
  "peat_service_loop data i =
     (if i < length data then
        do { fl \<leftarrow> read_u8 data i;
             let field_len = unat fl;
             if field_len = 0 \<or> i + field_len \<ge> length data then ret False
             else do {
               field_type \<leftarrow> read_u8 data (i + 1);
               short \<leftarrow> (if (field_type = 0x02 \<or> field_type = 0x03) \<and> field_len \<ge> 3
                         then uuid16_loop data i field_len 2 else ret False);
               if short then ret True
               else do {
                 long \<leftarrow> (if (field_type = 0x06 \<or> field_type = 0x07) \<and> field_len \<ge> 17
                          then uuid128_loop data i field_len 2 else ret False);
                 if long then ret True else peat_service_loop data (i + (field_len + 1)) } } }
      else ret False)"
  by pat_completeness auto
termination by (relation "measure (\<lambda>(data, i). length data - i)") auto

definition has_peat_service :: "bytes option \<Rightarrow> bool outcome" where
  "has_peat_service d =
     (case d of None \<Rightarrow> ret False | Some data \<Rightarrow> if length data < 4 then ret False else peat_service_loop data 0)"

declare uuid16_loop.simps [simp del] uuid128_loop.simps [simp del] peat_service_loop.simps [simp del]

section \<open>Advertising and scanning\<close>

definition start_advertising_internal :: "nimble_rc \<Rightarrow> nimble \<Rightarrow> nimble \<times> nimble_call list \<times> (ble_error + unit)" where
  "start_advertising_internal rc s =
     (if rc_adv_set_fields rc \<noteq> 0
      then (s, [CallAdvSetFields], Inl (PlatformError (''ble_gap_adv_set_fields failed: '' @ int_display (rc_adv_set_fields rc))))
      else
        let calls = [CallAdvSetFields, CallAdvRspSetFields (take (unat (nb_device_name_len s)) (nb_device_name s)), CallAdvStart]
        in if rc_adv_start rc \<noteq> 0 \<and> rc_adv_start rc \<noteq> 2
           then (s, calls, Inl (PlatformError (''ble_gap_adv_start failed: '' @ int_display (rc_adv_start rc))))
           else (s\<lparr>nb_advertising := True\<rparr>, calls, Inr ()))"

definition start_scanning_internal :: "nimble_rc \<Rightarrow> nimble \<Rightarrow> nimble \<times> nimble_call list \<times> (ble_error + unit)" where
  "start_scanning_internal rc s =
     (if rc_disc rc \<noteq> 0 \<and> rc_disc rc \<noteq> 2
      then (s, [CallDisc], Inl (DiscoveryFailed (''ble_gap_disc failed: '' @ int_display (rc_disc rc))))
      else (s\<lparr>nb_scanning := True\<rparr>, [CallDisc], Inr ()))"

definition nimble_stop_advertising :: "nimble \<Rightarrow> nimble \<times> nimble_call list" where
  "nimble_stop_advertising s = (s\<lparr>nb_advertising := False\<rparr>, [CallAdvStop])"

definition nimble_stop_scanning :: "nimble \<Rightarrow> nimble \<times> nimble_call list" where
  "nimble_stop_scanning s = (s\<lparr>nb_scanning := False\<rparr>, [CallDiscCancel])"

text \<open>The restart of both that ends several handlers.\<close>

definition restart_radio :: "nimble_rc \<Rightarrow> nimble \<Rightarrow> nimble \<times> nimble_call list" where
  "restart_radio rc s =
     (let (s1, c1, _) = start_advertising_internal rc s; (s2, c2, _) = start_scanning_internal rc s1
      in (s2, c1 @ c2))"

section \<open>Events of the stack\<close>

datatype gap_event =
    GapConnect int u16 | GapDisconnect u16 | GapAdvComplete | GapDisc "bytes option" bytes | GapDiscComplete | GapOther

fun claim_slot :: "u16 \<Rightarrow> esp_peer list \<Rightarrow> esp_peer list \<times> bool" where
  "claim_slot h [] = ([], False)"
| "claim_slot h (c # cs) =
     (if \<not> ep_active c then (c\<lparr>ep_handle := h, ep_active := True\<rparr> # cs, True)
      else let (cs', found) = claim_slot h cs in (c # cs', found))"

fun release_slot :: "u16 \<Rightarrow> esp_peer list \<Rightarrow> esp_peer list \<times> bool" where
  "release_slot h [] = ([], False)"
| "release_slot h (c # cs) =
     (if ep_active c \<and> ep_handle c = h then (c\<lparr>ep_active := False, ep_handle := 0xFFFF\<rparr> # cs, True)
      else let (cs', found) = release_slot h cs in (c # cs', found))"

definition gap_event_handler :: "nimble_rc \<Rightarrow> gap_event \<Rightarrow> nimble \<Rightarrow> (nimble \<times> nimble_call list) outcome" where
  "gap_event_handler rc e s =
     (case e of
        GapConnect status h \<Rightarrow>
          let s0 = s\<lparr>nb_connecting := False\<rparr>
          in if status = 0 then
               let (cs, found) = claim_slot h (nb_connections s0);
                   s1 = s0\<lparr>nb_connections := cs,
                           nb_num_connections := (if found then nb_num_connections s0 + 1 else nb_num_connections s0),
                           nb_connected := True\<rparr>;
                   (s2, calls) = restart_radio rc s1
               in ret (s2, CallExchangeMtu h # calls)
             else ret (restart_radio rc s0)
      | GapDisconnect h \<Rightarrow>
          let (cs, found) = release_slot h (nb_connections s);
              num = (if found then nb_num_connections s - 1 else nb_num_connections s)
          in ret (restart_radio rc (s\<lparr>nb_connections := cs, nb_num_connections := num, nb_connected := 0 < num\<rparr>))
      | GapAdvComplete \<Rightarrow>
          let (s1, calls, _) = start_advertising_internal rc s in ret (s1, calls)
      | GapDisc data addr \<Rightarrow>
          do { seen \<leftarrow> has_peat_service data;
               if seen \<and> unat (nb_num_connections s) < ESP_MAX_CONNECTIONS \<and> \<not> nb_connecting s then
                 let s1 = s\<lparr>nb_connecting := True\<rparr>
                 in if rc_connect rc \<noteq> 0 \<and> rc_connect rc \<noteq> 14 then
                      let (s2, calls, _) = start_scanning_internal rc (s1\<lparr>nb_connecting := False\<rparr>)
                      in ret (s2, [CallDiscCancel, CallConnect addr] @ calls)
                    else ret (s1, [CallDiscCancel, CallConnect addr])
               else ret (s, []) }
      | GapDiscComplete \<Rightarrow>
          let (s1, c1, _) = start_advertising_internal rc s
          in if \<not> nb_connecting s1 then
               let (s2, c2, _) = start_scanning_internal rc s1 in ret (s2, c1 @ c2)
             else ret (s1, c1)
      | GapOther \<Rightarrow> ret (s, []))"

text \<open>The stack's own callbacks.\<close>

definition on_sync :: "nimble_rc \<Rightarrow> nimble \<Rightarrow> nimble \<times> nimble_call list" where
  "on_sync rc s = restart_radio rc (s\<lparr>nb_powered := True\<rparr>)"

definition on_reset :: "nimble \<Rightarrow> nimble" where
  "on_reset s = s\<lparr>nb_powered := False\<rparr>"

section \<open>The document characteristic\<close>

datatype gatt_access = AccessRead | AccessWrite "bytes option" int | AccessOther

text \<open>
  A read returns the bytes appended to the answer; a write carries the buffer, if there is one, and
  the return code of the call that copies it.
\<close>

definition gatt_access_cb :: "gatt_access \<Rightarrow> nimble \<Rightarrow> (nimble \<times> bytes) outcome" where
  "gatt_access_cb op s =
     (case op of
        AccessRead \<Rightarrow>
          let len = unat (nb_doc_len s)
          in if len > 0 then do { out \<leftarrow> slice (nb_doc_buffer s) 0 len; ret (s, out) } else ret (s, [])
      | AccessWrite om rc \<Rightarrow>
          (case om of
             None \<Rightarrow> ret (s, [])
           | Some buf \<Rightarrow>
               if 0 < length buf \<and> length buf \<le> ESP_MAX_DOC_SIZE \<and> rc = 0
               then ret (s\<lparr>nb_pending_docs := nb_pending_docs s @ [buf]\<rparr>, []) else ret (s, []))
      | AccessOther \<Rightarrow> ret (s, []))"

definition set_document :: "bytes \<Rightarrow> nimble \<Rightarrow> nimble" where
  "set_document data s =
     (if length data \<le> ESP_MAX_DOC_SIZE
      then s\<lparr>nb_doc_buffer := data @ drop (length data) (nb_doc_buffer s), nb_doc_len := word_of_nat (length data)\<rparr>
      else s)"

definition take_pending_document :: "nimble \<Rightarrow> nimble \<times> bytes option" where
  "take_pending_document s =
     (case nb_pending_docs s of [] \<Rightarrow> (s, None) | d # ds \<Rightarrow> (s\<lparr>nb_pending_docs := ds\<rparr>, Some d))"

text \<open>
  What the stack answers to the notification for slot \<open>i\<close>: no buffer (\<open>None\<close>) or a return code.
\<close>

definition notify_slot :: "(nat \<Rightarrow> int option) \<Rightarrow> u16 \<Rightarrow> bytes \<Rightarrow> nat \<times> esp_peer \<Rightarrow> nimble_call list \<times> nat" where
  "notify_slot answer our data = (\<lambda>(i, c).
     if ep_active c then
       (case answer i of
          None \<Rightarrow> ([], 0)
        | Some r \<Rightarrow> ([CallNotify (ep_handle c) our (take (length data mod 2 ^ 16) data)], if r = 0 then 1 else 0))
     else ([], 0))"

definition gossip_document :: "(nat \<Rightarrow> int option) \<Rightarrow> bytes \<Rightarrow> nimble \<Rightarrow> nimble \<times> nimble_call list \<times> nat" where
  "gossip_document answer data s =
     (let s1 = set_document data s; our = nb_doc_char_handle s1
      in if our \<noteq> 0 then
           let rs = map (notify_slot answer our data) (enumerate 0 (nb_connections s1))
           in (s1, concat (map fst rs), sum_list (map snd rs))
         else (s1, [], 0))"

section \<open>Start-up\<close>

text \<open>
  The characteristic's handle is written by the stack when it registers the service; \<open>handle\<close> is
  what it writes, and \<open>mac\<close> the address it reports.
\<close>

definition nimble_init :: "nimble_rc \<Rightarrow> bytes \<Rightarrow> u16 \<Rightarrow> node_id \<Rightarrow> nimble \<Rightarrow> nimble \<times> (ble_error + unit)" where
  "nimble_init rc mac handle n s =
     (let name = map (\<lambda>c. word_of_nat (of_char c)) (''PEAT-'' @ node_id_display n);
          len = min (length name) (length (nb_device_name s));
          s1 = s\<lparr>nb_device_name := take len name @ drop len (nb_device_name s), nb_device_name_len := word_of_nat len,
                nb_our_mac := mac\<rparr>
      in if rc_port_init rc \<noteq> 0
         then (s1, Inl (PlatformError (''nimble_port_init failed: '' @ int_display (rc_port_init rc))))
         else if rc_count_cfg rc \<noteq> 0
         then (s1, Inl (GattError (''ble_gatts_count_cfg failed: '' @ int_display (rc_count_cfg rc))))
         else if rc_add_svcs rc \<noteq> 0
         then (s1, Inl (GattError (''ble_gatts_add_svcs failed: '' @ int_display (rc_add_svcs rc))))
         else (s1\<lparr>nb_doc_char_handle := handle\<rparr>, Inr ()))"

definition get_mac_address :: "nimble \<Rightarrow> string option" where
  "get_mac_address s =
     Some (concat (map (\<lambda>(i, b). (if i = 0 then [] else '':'') @ hex2 (ucast b)) (enumerate 0 (nb_our_mac s))))"

section \<open>The adapter\<close>

record esp_connection =
  ec_peer_id :: node_id
  ec_conn_handle :: u16
  ec_address :: string
  ec_mtu :: u16
  ec_connected_at_ms :: u64
  ec_current_time_ms :: u64
  ec_alive :: bool

definition esp_connection_new :: "node_id \<Rightarrow> u16 \<Rightarrow> string \<Rightarrow> esp_connection" where
  "esp_connection_new n h addr =
     \<lparr>ec_peer_id = n, ec_conn_handle = h, ec_address = addr, ec_mtu = 23, ec_connected_at_ms = 0,
      ec_current_time_ms = 0, ec_alive = True\<rparr>"

definition ec_set_time_ms :: "u64 \<Rightarrow> esp_connection \<Rightarrow> esp_connection" where
  "ec_set_time_ms t c =
     (let c1 = (if ec_connected_at_ms c = 0 then c\<lparr>ec_connected_at_ms := t\<rparr> else c) in c1\<lparr>ec_current_time_ms := t\<rparr>)"

definition ec_connected_duration :: "esp_connection \<Rightarrow> u64" where
  "ec_connected_duration c = sat_sub (ec_current_time_ms c) (ec_connected_at_ms c)"

record esp_adapter =
  ea_connections :: "(node_id, esp_connection) btree_map"
  ea_handle_map :: "(u16, node_id) btree_map"
  ea_discovery_callback :: bool
  ea_connection_callback :: bool
  ea_advertising :: bool
  ea_scanning :: bool
  ea_powered :: bool
  ea_node_id :: node_id
  ea_device_name :: string
  ea_beacon :: "peat_beacon option"
  ea_initialized :: bool

definition esp_adapter_new :: "node_id \<Rightarrow> string \<Rightarrow> esp_adapter" where
  "esp_adapter_new n name =
     \<lparr>ea_connections = [], ea_handle_map = [], ea_discovery_callback = False, ea_connection_callback = False,
      ea_advertising = False, ea_scanning = False, ea_powered = False, ea_node_id = n, ea_device_name = name,
      ea_beacon = None, ea_initialized = False\<rparr>"

definition esp_adapter_peat_lite :: "node_id \<Rightarrow> esp_adapter" where
  "esp_adapter_peat_lite n = esp_adapter_new n (''PEAT-'' @ node_id_display n)"

definition esp_build_adv_data :: "peat_beacon \<Rightarrow> bytes" where
  "esp_build_adv_data b =
     [0x02, 0x01, 0x06] @ [0x03, 0x03] @ le16 PEAT_SERVICE_UUID_16BIT
     @ (let beacon_data = beacon_encode_compact b
        in [word_of_nat (length beacon_data + 3), 0x16] @ le16 PEAT_SERVICE_UUID_16BIT @ beacon_data)"

definition esp_init :: "nimble_rc \<Rightarrow> bytes \<Rightarrow> u16 \<Rightarrow> node_id \<Rightarrow> nimble \<times> esp_adapter \<Rightarrow> (nimble \<times> esp_adapter) \<times> (ble_error + unit)" where
  "esp_init rc mac handle config_node = (\<lambda>(s, a).
     let a1 = a\<lparr>ea_beacon := Some (beacon_new config_node)\<rparr>
     in if ea_initialized a1 then ((s, a1\<lparr>ea_powered := True\<rparr>), Inr ())
        else (case nimble_init rc mac handle (ea_node_id a1) s of
                (s1, Inl e) \<Rightarrow> ((s1, a1), Inl e)
              | (s1, Inr _) \<Rightarrow> ((s1, a1\<lparr>ea_initialized := True, ea_powered := True\<rparr>), Inr ())))"

definition esp_start :: "nimble_rc \<Rightarrow> nimble \<times> esp_adapter \<Rightarrow> (nimble \<times> esp_adapter) \<times> nimble_call list \<times> (ble_error + unit)" where
  "esp_start rc = (\<lambda>(s, a).
     case start_advertising_internal rc s of
       (s1, c1, Inl e) \<Rightarrow> ((s1, a), c1, Inl e)
     | (s1, c1, Inr _) \<Rightarrow>
         let (s2, c2, r) = start_scanning_internal rc s1 in ((s2, a), c1 @ c2, r))"

definition esp_stop :: "nimble \<times> esp_adapter \<Rightarrow> (nimble \<times> esp_adapter) \<times> nimble_call list" where
  "esp_stop = (\<lambda>(s, a).
     let (s1, c1) = nimble_stop_advertising s; (s2, c2) = nimble_stop_scanning s1
     in ((s2, a\<lparr>ea_advertising := False, ea_scanning := False\<rparr>), c1 @ c2))"

definition esp_start_scan :: "nimble_rc \<Rightarrow> nimble \<times> esp_adapter \<Rightarrow> (nimble \<times> esp_adapter) \<times> nimble_call list \<times> (ble_error + unit)" where
  "esp_start_scan rc = (\<lambda>(s, a).
     case start_scanning_internal rc s of
       (s1, c1, Inl e) \<Rightarrow> ((s1, a), c1, Inl e)
     | (s1, c1, Inr _) \<Rightarrow> ((s1, a\<lparr>ea_scanning := True\<rparr>), c1, Inr ()))"

definition esp_stop_scan :: "nimble \<times> esp_adapter \<Rightarrow> (nimble \<times> esp_adapter) \<times> nimble_call list" where
  "esp_stop_scan = (\<lambda>(s, a). let (s1, c1) = nimble_stop_scanning s in ((s1, a\<lparr>ea_scanning := False\<rparr>), c1))"

definition esp_start_advertising :: "nimble_rc \<Rightarrow> nimble \<times> esp_adapter \<Rightarrow> (nimble \<times> esp_adapter) \<times> nimble_call list \<times> (ble_error + unit)" where
  "esp_start_advertising rc = (\<lambda>(s, a).
     case start_advertising_internal rc s of
       (s1, c1, Inl e) \<Rightarrow> ((s1, a), c1, Inl e)
     | (s1, c1, Inr _) \<Rightarrow> ((s1, a\<lparr>ea_advertising := True\<rparr>), c1, Inr ()))"

definition esp_stop_advertising :: "nimble \<times> esp_adapter \<Rightarrow> (nimble \<times> esp_adapter) \<times> nimble_call list" where
  "esp_stop_advertising = (\<lambda>(s, a). let (s1, c1) = nimble_stop_advertising s in ((s1, a\<lparr>ea_advertising := False\<rparr>), c1))"

definition esp_set_discovery_callback :: "bool \<Rightarrow> esp_adapter \<Rightarrow> esp_adapter" where
  "esp_set_discovery_callback cb a = a\<lparr>ea_discovery_callback := cb\<rparr>"

definition esp_set_connection_callback :: "bool \<Rightarrow> esp_adapter \<Rightarrow> esp_adapter" where
  "esp_set_connection_callback cb a = a\<lparr>ea_connection_callback := cb\<rparr>"

definition esp_connect :: "node_id \<Rightarrow> esp_adapter \<Rightarrow> ble_error + esp_connection" where
  "esp_connect n a = Inl (NotSupported ''ESP32 uses automatic connection via GAP discovery'')"

definition esp_disconnect :: "node_id \<Rightarrow> esp_adapter \<Rightarrow> esp_adapter" where
  "esp_disconnect n a =
     (case bt_get (ea_connections a) n of
        None \<Rightarrow> a
      | Some c \<Rightarrow> a\<lparr>ea_connections := bt_remove n (ea_connections a),
                     ea_handle_map := bt_remove (ec_conn_handle c) (ea_handle_map a)\<rparr>)"

definition esp_get_connection :: "node_id \<Rightarrow> esp_adapter \<Rightarrow> esp_connection option" where
  "esp_get_connection n a =
     map_option (\<lambda>c. esp_connection_new (ec_peer_id c) (ec_conn_handle c) (ec_address c)) (bt_get (ea_connections a) n)"

definition esp_peer_count :: "nimble \<times> esp_adapter \<Rightarrow> nat" where
  "esp_peer_count = (\<lambda>(s, a). unat (nb_num_connections s))"

definition esp_connected_peers :: "(node_id list \<Rightarrow> node_id list) \<Rightarrow> esp_adapter \<Rightarrow> node_id list" where
  "esp_connected_peers iter a = iter (map fst (ea_connections a))"

section \<open>The search for the service\<close>

lemma uuid16_bytes: "(from_le [a, b] :: u16) = ESP_SERVICE_UUID_16 \<longleftrightarrow> [a, b] = [0x7A, 0xF4]"
proof -
  have "to_le 2 (from_le [a, b] :: u16) = [a, b]" using to_le_from_le [of "[a, b]", where 'a = 16] by (simp add: numeral_2_eq_2)
  moreover have "to_le 2 ESP_SERVICE_UUID_16 = [0x7A, 0xF4]" by (simp add: to_le_def ESP_SERVICE_UUID_16_def upt_rec)
  moreover have "(from_le [0x7A, 0xF4] :: u16) = ESP_SERVICE_UUID_16" by (simp add: ESP_SERVICE_UUID_16_def)
  ultimately show ?thesis by auto
qed

lemma slice_chunks_one: "length xs \<le> k \<Longrightarrow> xs \<noteq> [] \<Longrightarrow> slice_chunks k xs = [xs]"
  using slice_chunks_step [of k xs] by (cases "k = 0") simp_all

lemma slice_chunks_short: "length u = k \<Longrightarrow> length xs < k \<Longrightarrow> u \<notin> set (slice_chunks k xs)"
  using slice_chunks_one [of xs k] by (cases "xs = []") auto

lemma slice_chunks_window:
  assumes "0 < k" "k \<le> n" "i + n \<le> length data"
  shows "slice_chunks k (take n (drop i data)) = take k (drop i data) # slice_chunks k (take (n - k) (drop (i + k) data))"
proof -
  have "take n (drop i data) \<noteq> []" using assms by auto
  from slice_chunks_step [OF assms(1) this] assms show ?thesis by (simp add: min_def drop_take add.commute)
qed

lemma uuid16_loop_eq:
  "2 \<le> j \<Longrightarrow> i + fl < length data \<Longrightarrow>
   uuid16_loop data i fl j = ret ([0x7A, 0xF4] \<in> set (slice_chunks 2 (take (fl + 1 - j) (drop (i + j) data))))"
proof (induction data i fl j rule: uuid16_loop.induct)
  case (1 data i fl j)
  show ?case
  proof (cases "j + 1 < fl + 1")
    case True
    let ?a = "data ! (i + j)" and ?b = "data ! (i + j + 1)"
    have r: "read_u8 data (i + j) = ret ?a" "read_u8 data (i + j + 1) = ret ?b"
      using True 1(3) by (simp_all add: read_u8_def)
    have "take 2 (drop (i + j) data) = [?a, ?b]"
      using True 1(3) by (simp add: numeral_2_eq_2 take_Suc_conv_app_nth)
    then have "slice_chunks 2 (take (fl + 1 - j) (drop (i + j) data))
        = [?a, ?b] # slice_chunks 2 (take (fl + 1 - (j + 2)) (drop (i + (j + 2)) data))"
      using slice_chunks_window [of 2 "fl + 1 - j" "i + j" data] True 1(3) by (simp add: ac_simps)
    then show ?thesis
      using 1(1) [OF True r] 1(2,3) True
      by (auto simp: uuid16_loop.simps [of data i fl j] r [simplified] uuid16_bytes simp del: from_le.simps)
  next
    case False
    then have "length (take (fl + 1 - j) (drop (i + j) data)) < 2" by simp
    from slice_chunks_short [OF _ this, of "[0x7A, 0xF4]"] False show ?thesis by (simp add: uuid16_loop.simps)
  qed
qed

lemma uuid128_loop_eq:
  "2 \<le> j \<Longrightarrow> i + fl < length data \<Longrightarrow>
   uuid128_loop data i fl j = ret (ESP_SERVICE_UUID \<in> set (slice_chunks 16 (take (fl + 1 - j) (drop (i + j) data))))"
proof (induction data i fl j rule: uuid128_loop.induct)
  case (1 data i fl j)
  show ?case
  proof (cases "j + 15 < fl + 1")
    case True
    have r: "slice data (i + j) (i + j + 16) = ret (take 16 (drop (i + j) data))" using True 1(3) by (simp add: slice_def)
    have "slice_chunks 16 (take (fl + 1 - j) (drop (i + j) data))
        = take 16 (drop (i + j) data) # slice_chunks 16 (take (fl + 1 - (j + 16)) (drop (i + (j + 16)) data))"
      using slice_chunks_window [of 16 "fl + 1 - j" "i + j" data] True 1(3) by (simp add: ac_simps)
    then show ?thesis
      using 1(1) [OF True r] 1(2,3) True by (auto simp: uuid128_loop.simps [of data i fl j] r)
  next
    case False
    then have "length (take (fl + 1 - j) (drop (i + j) data)) < 16" by simp
    from slice_chunks_short [OF _ this, of ESP_SERVICE_UUID] False show ?thesis
      by (simp add: uuid128_loop.simps) (simp add: ESP_SERVICE_UUID_def)
  qed
qed

text \<open>A field of advertising data names the service.\<close>

definition names_service :: "u8 \<times> bytes \<Rightarrow> bool" where
  "names_service = (\<lambda>(t, d).
     (t = 2 \<or> t = 3) \<and> [0x7A, 0xF4] \<in> set (slice_chunks 2 d)
     \<or> (t = 6 \<or> t = 7) \<and> ESP_SERVICE_UUID \<in> set (slice_chunks 16 d))"

lemma peat_service_loop_end:
  "length data \<le> i \<or> data ! i = 0 \<or> length data \<le> i + unat (data ! i) \<Longrightarrow> peat_service_loop data i = ret False"
  by (auto simp: peat_service_loop.simps [of data i] read_u8_def Let_def)

lemma peat_service_loop_field:
  assumes "data ! i \<noteq> 0" "i + unat (data ! i) < length data"
    and d: "d = take (unat (data ! i) - 1) (drop (i + 2) data)"
  shows "peat_service_loop data i = (if names_service (data ! (i + 1), d) then ret True
    else peat_service_loop data (i + unat (data ! i) + 1))"
proof -
  let ?fl = "unat (data ! i)"
  have fl: "0 < ?fl" using assms(1) by (simp add: unat_gt_0)
  then have r: "read_u8 data i = ret (data ! i)" "read_u8 data (i + 1) = ret (data ! (i + 1))"
    using assms(2) by (simp_all add: read_u8_def)
  have len: "length d = ?fl - 1" using assms by simp
  have e: "uuid16_loop data i ?fl 2 = ret ([0x7A, 0xF4] \<in> set (slice_chunks 2 d))"
    "uuid128_loop data i ?fl 2 = ret (ESP_SERVICE_UUID \<in> set (slice_chunks 16 d))"
    using uuid16_loop_eq [of 2 i ?fl data] uuid128_loop_eq [of 2 i ?fl data] assms(2) by (simp_all add: d)
  have short: "?fl < 3 \<Longrightarrow> [0x7A, 0xF4] \<notin> set (slice_chunks 2 d)"
    using slice_chunks_short [of "[0x7A, 0xF4]" 2 d] len fl by simp
  have long: "?fl < 17 \<Longrightarrow> ESP_SERVICE_UUID \<notin> set (slice_chunks 16 d)"
    by (rule slice_chunks_short) (use len fl in \<open>simp_all add: ESP_SERVICE_UUID_def\<close>)
  have g: "(if (t = 2 \<or> t = 3) \<and> 3 \<le> ?fl then uuid16_loop data i ?fl 2 else ret False)
      = ret ((t = 2 \<or> t = 3) \<and> [0x7A, 0xF4] \<in> set (slice_chunks 2 d))"
    "(if (t = 6 \<or> t = 7) \<and> 17 \<le> ?fl then uuid128_loop data i ?fl 2 else ret False)
      = ret ((t = 6 \<or> t = 7) \<and> ESP_SERVICE_UUID \<in> set (slice_chunks 16 d))" for t :: u8
    using short long by (auto simp: e)
  show ?thesis
    unfolding peat_service_loop.simps [of data i] Let_def r bind.bind_lunit g
    using assms(2) fl by (auto simp: names_service_def r g add.assoc)
qed

lemma peat_service_loop_total: "no_panic (peat_service_loop data i)"
proof (induction "length data - i" arbitrary: i rule: less_induct)
  case less
  show ?case
  proof (cases "length data \<le> i \<or> data ! i = 0 \<or> length data \<le> i + unat (data ! i)")
    case True
    then show ?thesis by (simp add: peat_service_loop_end)
  next
    case False
    then have "i < length data" by simp
    then have "length data - (i + unat (data ! i) + 1) < length data - i" by linarith
    from less [OF this] False show ?thesis by (simp add: peat_service_loop_field)
  qed
qed

lemma has_peat_service_total [safe]: "no_panic (has_peat_service d)"
  unfolding has_peat_service_def by (intro safe peat_service_loop_total)

definition ad_field :: "u8 \<times> bytes \<Rightarrow> bytes" where
  "ad_field = (\<lambda>(t, d). word_of_nat (length d + 1) # t # d)"

lemma peat_service_loop_fields:
  "(\<forall>(t, d) \<in> set fs. length d < 255) \<Longrightarrow>
   peat_service_loop (pre @ concat (map ad_field fs)) (length pre) = ret (\<exists>f \<in> set fs. names_service f)"
proof (induction fs arbitrary: pre)
  case Nil
  then show ?case by (simp add: peat_service_loop_end)
next
  case (Cons f fs)
  obtain t d where f: "f = (t, d)" by fastforce
  let ?data = "pre @ concat (map ad_field (f # fs))"
  have len: "unat (word_of_nat (length d + 1) :: u8) = length d + 1" using Cons.prems f by (simp add: unat_of_nat del: of_nat_add of_nat_Suc)
  have b: "?data ! length pre = word_of_nat (length d + 1)" by (simp add: f ad_field_def nth_append)
  have "word_of_nat (length d + 1) \<noteq> (0 :: u8)" using len by (metis Suc_eq_plus1 nat.simps(3) unat_0)
  then have "peat_service_loop ?data (length pre) = (if names_service f then ret True
      else peat_service_loop ((pre @ ad_field f) @ concat (map ad_field fs)) (length (pre @ ad_field f)))"
    by (subst peat_service_loop_field [where d = d]) (simp_all only: b len, simp_all add: f ad_field_def nth_append)
  with Cons.IH [of "pre @ ad_field f"] Cons.prems show ?case by auto
qed

text \<open>
  C18: the search for the service reads advertising data as the Bluetooth specification lays it out. On
  any sequence of fields it answers yes exactly if one of them is a list of short or long identifiers
  that holds the identifier of the service.
\<close>

theorem esp32_finds_service:
  assumes "\<forall>(t, d) \<in> set fs. length d < 255" "4 \<le> length (concat (map ad_field fs))"
  shows "has_peat_service (Some (concat (map ad_field fs))) = ret (\<exists>f \<in> set fs. names_service f)"
  using peat_service_loop_fields [OF assms(1), of "[]"] assms(2) by (simp add: has_peat_service_def)

theorem esp32_finds_service_witness:
  "has_peat_service (Some (concat (map ad_field [(1, [6]), (7, ESP_SERVICE_UUID)]))) = ret True"
  by (subst esp32_finds_service) (simp_all add: ad_field_def names_service_def slice_chunks_one ESP_SERVICE_UUID_def)

lemma library_packet_unseen:
  assumes "length bs = 10" "pw = [] \<or> pw = [2, 0x0A, p]"
  shows "peat_service_loop ([2, 1, fl, 3, 3, 0xB2, 0xA1, 12, 0x16, 0xB2, 0xA1] @ bs @ pw) 0 = ret False"
proof -
  obtain b0 b1 b2 b3 b4 b5 b6 b7 b8 b9 where bs: "bs = [b0, b1, b2, b3, b4, b5, b6, b7, b8, b9]"
    using assms(1) by (auto simp: eval_nat_numeral length_Suc_conv)
  let ?d = "[2, 1, fl, 3, 3, 0xB2, 0xA1, 12, 0x16, 0xB2, 0xA1] @ bs @ pw"
  have head: "peat_service_loop ?d 0 = peat_service_loop ?d 20"
    by (simp add: peat_service_loop_field names_service_def slice_chunks_step bs)
  have n: "?d ! 20 = b9" by (simp add: bs)
  show ?thesis
  proof (cases "b9 = 0 \<or> length ?d \<le> 20 + unat b9")
    case True
    then show ?thesis unfolding head by (intro peat_service_loop_end) (unfold n, blast)
  next
    case False
    then have pos: "0 < unat b9" by (simp add: unat_gt_0)
    with False assms(2) bs have pw: "pw = [2, 0x0A, p]" and "unat b9 < 4" by auto
    with pos consider "unat b9 = 1" | "unat b9 = 2" | "unat b9 = 3" by linarith
    then have "peat_service_loop ?d 20 = ret False"
    proof cases
      case 1
      then show ?thesis using False by (simp add: peat_service_loop_field bs pw names_service_def peat_service_loop_end)
    next
      case 2
      have "p = 0 \<or> 24 \<le> 23 + unat p" using unat_gt_0 [of p] by linarith
      then have "peat_service_loop ?d 23 = ret False" by (intro peat_service_loop_end) (simp add: bs pw)
      then show ?thesis using 2 False by (simp add: peat_service_loop_field bs pw names_service_def slice_chunks_one)
    next
      case 3
      then show ?thesis using False
        by (simp add: peat_service_loop_field bs pw names_service_def slice_chunks_one peat_service_loop_end)
    qed
    then show ?thesis using head by simp
  qed
qed

text \<open>
  C39: ESP32 nodes do not see nodes that advertise through the library's own advertiser. Whatever its
  settings, in plain mode the packet names the service under the short identifier 0xA1B2, while the
  search of the ESP32 adapter looks for 0xF47A and another long identifier.
\<close>

theorem advertiser_unseen_by_esp32:
  assumes "av_mode a = Plaintext"
  shows "has_peat_service (Some (adv_data (build_packet_inner hash keyed nonce a))) = ret False"
proof -
  have u: "uuid_bytes = [0xB2, 0xA1]" by (simp add: uuid_bytes_def PEAT_SERVICE_UUID_16BIT_def)
  have l: "length (beacon_encode_compact (av_beacon a)) = 10" by (simp add: beacon_encode_compact_def beacon_head_def)
  let ?pw = "case tx_power a of None \<Rightarrow> [] | Some p \<Rightarrow> [2, AD_TYPE_TX_POWER, p]"
  have "adv_data (build_packet_inner hash keyed nonce a)
     = [2, 1, FLAGS_VALUE, 3, 3, 0xB2, 0xA1, 12, 0x16, 0xB2, 0xA1] @ beacon_encode_compact (av_beacon a) @ ?pw"
    using assms l
    by (simp add: build_packet_inner_def service_data_def plaintext_service_data_def u BEACON_COMPACT_SIZE_def Let_def
        LEGACY_ADV_MAX_def AD_TYPE_FLAGS_def AD_TYPE_SERVICE_UUID_16_def AD_TYPE_SERVICE_DATA_16_def)
  moreover have "?pw = [] \<or> ?pw = [2, 0x0A, the (tx_power a)]" by (cases "tx_power a") (simp_all add: AD_TYPE_TX_POWER_def)
  ultimately show ?thesis using library_packet_unseen [OF l] l by (simp add: has_peat_service_def)
qed

theorem advertiser_unseen_by_esp32_witness:
  "has_peat_service (Some (adv_data (build_packet_inner (\<lambda>_. []) (\<lambda>_ _. []) [] (advertiser_new 5)))) = ret False"
  by (rule advertiser_unseen_by_esp32) (simp add: advertiser_new_def advertiser_with_beacon_def)

section \<open>The connection table\<close>

definition nimble_wf :: "nimble \<Rightarrow> bool" where
  "nimble_wf s \<longleftrightarrow>
     length (nb_connections s) = ESP_MAX_CONNECTIONS
     \<and> unat (nb_num_connections s) = length (filter ep_active (nb_connections s))
     \<and> list_all (\<lambda>c. \<not> ep_active c \<longrightarrow> ep_handle c = 0xFFFF) (nb_connections s)
     \<and> (nb_connected s \<longleftrightarrow> 0 < nb_num_connections s)
     \<and> length (nb_doc_buffer s) = ESP_MAX_DOC_SIZE \<and> unat (nb_doc_len s) \<le> ESP_MAX_DOC_SIZE
     \<and> (\<forall>d \<in> set (nb_pending_docs s). d \<noteq> [] \<and> length d \<le> ESP_MAX_DOC_SIZE)
     \<and> length (nb_device_name s) = 20 \<and> unat (nb_device_name_len s) \<le> 20"

inductive nimble_step :: "nimble \<Rightarrow> nimble \<Rightarrow> bool" where
  step_gap: "gap_event_handler rc e s = ret (s', calls) \<Longrightarrow> nimble_step s s'"
| step_gatt: "gatt_access_cb op s = ret (s', out) \<Longrightarrow> nimble_step s s'"
| step_sync: "nimble_step s (fst (on_sync rc s))"
| step_reset: "nimble_step s (on_reset s)"
| step_start_advertising: "nimble_step s (fst (start_advertising_internal rc s))"
| step_stop_advertising: "nimble_step s (fst (nimble_stop_advertising s))"
| step_start_scanning: "nimble_step s (fst (start_scanning_internal rc s))"
| step_stop_scanning: "nimble_step s (fst (nimble_stop_scanning s))"
| step_set_document: "nimble_step s (set_document data s)"
| step_take_pending: "nimble_step s (fst (take_pending_document s))"
| step_gossip: "nimble_step s (fst (gossip_document answer data s))"
| step_init: "nimble_step s (fst (nimble_init rc mac handle n s))"

abbreviation slot_ok :: "esp_peer \<Rightarrow> bool" where
  "slot_ok c \<equiv> \<not> ep_active c \<longrightarrow> ep_handle c = 0xFFFF"

abbreviation active_count :: "esp_peer list \<Rightarrow> nat" where
  "active_count cs \<equiv> length (filter ep_active cs)"

lemma claim_slot_spec:
  "claim_slot h cs = (cs', found) \<Longrightarrow>
     length cs' = length cs \<and> active_count cs' = active_count cs + of_bool found
     \<and> (list_all slot_ok cs \<longrightarrow> list_all slot_ok cs') \<and> (\<not> found \<longrightarrow> cs' = cs \<and> active_count cs = length cs)"
proof (induction cs arbitrary: cs')
  case (Cons c cs)
  obtain ds f where ds: "claim_slot h cs = (ds, f)" by fastforce
  show ?case
  proof (cases "ep_active c")
    case True
    then have "cs' = c # ds" "f = found" using Cons.prems ds by simp_all
    then show ?thesis using Cons.IH [of ds] ds True by simp
  next
    case False
    then have "cs' = c\<lparr>ep_handle := h, ep_active := True\<rparr> # cs" "found" using Cons.prems by auto
    then show ?thesis using False by simp
  qed
qed simp

lemma release_slot_spec:
  "release_slot h cs = (cs', found) \<Longrightarrow>
     length cs' = length cs \<and> active_count cs = active_count cs' + of_bool found
     \<and> (list_all slot_ok cs \<longrightarrow> list_all slot_ok cs')"
proof (induction cs arbitrary: cs')
  case (Cons c cs)
  obtain ds f where ds: "release_slot h cs = (ds, f)" by fastforce
  show ?case
  proof (cases "ep_active c \<and> ep_handle c = h")
    case True
    then have "cs' = c\<lparr>ep_active := False, ep_handle := 0xFFFF\<rparr> # cs" "found" using Cons.prems by auto
    then show ?thesis using True by simp
  next
    case False
    then have "cs' = c # ds" "f = found" using Cons.prems ds by auto
    then show ?thesis using Cons.IH [of ds] ds by simp
  qed
qed simp

lemmas nimble_ops = start_advertising_internal_def start_scanning_internal_def restart_radio_def nimble_stop_advertising_def
  nimble_stop_scanning_def on_sync_def on_reset_def

lemma nimble_wf_initial: "nimble_wf nimble_initial"
  by (simp add: nimble_wf_def nimble_initial_def ESP_MAX_CONNECTIONS_def ESP_MAX_DOC_SIZE_def list_all_length)

text \<open>What the radio calls change is no part of the invariant.\<close>

lemma nimble_wf_flags [simp]:
  "nimble_wf (s\<lparr>nb_advertising := b\<rparr>) = nimble_wf s" "nimble_wf (s\<lparr>nb_scanning := b\<rparr>) = nimble_wf s"
  "nimble_wf (s\<lparr>nb_powered := b\<rparr>) = nimble_wf s" "nimble_wf (s\<lparr>nb_connecting := b\<rparr>) = nimble_wf s"
  "nimble_wf (s\<lparr>nb_our_mac := m\<rparr>) = nimble_wf s" "nimble_wf (s\<lparr>nb_doc_char_handle := h\<rparr>) = nimble_wf s"
  by (simp_all add: nimble_wf_def)

lemma nimble_wf_radio [simp]:
  "nimble_wf (fst (start_advertising_internal rc s)) = nimble_wf s"
  "nimble_wf (fst (start_scanning_internal rc s)) = nimble_wf s"
  "nimble_wf (fst (nimble_stop_advertising s)) = nimble_wf s" "nimble_wf (fst (nimble_stop_scanning s)) = nimble_wf s"
  by (simp_all add: nimble_ops Let_def)

lemma nimble_wf_restart [simp]: "nimble_wf (fst (restart_radio rc s)) = nimble_wf s"
  by (simp add: restart_radio_def split: prod.split) (metis fst_conv nimble_wf_radio(1,2))

lemma nimble_wf_connect:
  assumes "nimble_wf s" "claim_slot h (nb_connections s) = (cs, found)"
  shows "nimble_wf (s\<lparr>nb_connections := cs,
    nb_num_connections := (if found then nb_num_connections s + 1 else nb_num_connections s), nb_connected := True\<rparr>)"
proof -
  note c = claim_slot_spec [OF assms(2)]
  have le: "active_count cs \<le> 4" using c assms(1) length_filter_le [of ep_active cs]
    by (simp add: nimble_wf_def ESP_MAX_CONNECTIONS_def)
  have n: "unat (nb_num_connections s) = active_count (nb_connections s)" using assms(1) by (simp add: nimble_wf_def)
  show ?thesis
  proof (cases found)
    case True
    then have u: "unat (nb_num_connections s + 1) = active_count cs"
      using c n le unat_Suc_less [of "nb_num_connections s" 4] by (simp add: word_less_nat_alt)
    moreover have "0 < active_count cs" using c True by simp
    ultimately have "0 < nb_num_connections s + 1" by (metis unat_gt_0 word_neq_0_conv)
    with u True c assms(1) show ?thesis by (simp add: nimble_wf_def)
  next
    case False
    then have "0 < unat (nb_num_connections s)" using c n assms(1) by (simp add: nimble_wf_def ESP_MAX_CONNECTIONS_def)
    then have "0 < nb_num_connections s" by (metis unat_gt_0 word_neq_0_conv)
    with False c assms(1) show ?thesis by (simp add: nimble_wf_def)
  qed
qed

lemma nimble_wf_disconnect:
  assumes "nimble_wf s" "release_slot h (nb_connections s) = (cs, found)"
    and "num = (if found then nb_num_connections s - 1 else nb_num_connections s)"
  shows "nimble_wf (s\<lparr>nb_connections := cs, nb_num_connections := num, nb_connected := 0 < num\<rparr>)"
proof -
  note c = release_slot_spec [OF assms(2)]
  have n: "unat (nb_num_connections s) = active_count (nb_connections s)" using assms(1) by (simp add: nimble_wf_def)
  have "unat num = active_count cs"
  proof (cases found)
    case True
    then have "1 \<le> nb_num_connections s" using c n by (simp add: word_le_nat_alt)
    then show ?thesis using True assms(3) c n by (simp add: unat_sub)
  qed (use assms(3) c n in simp)
  then show ?thesis using c assms(1) by (simp add: nimble_wf_def)
qed

lemma nimble_wf_set_document: "nimble_wf s \<Longrightarrow> nimble_wf (set_document data s)"
  by (auto simp: nimble_wf_def set_document_def ESP_MAX_DOC_SIZE_def unat_of_nat)

lemma nimble_wf_name:
  assumes "nimble_wf s" "len = min (length name) (length (nb_device_name s))"
  shows "nimble_wf (s\<lparr>nb_device_name := take len name @ drop len (nb_device_name s), nb_device_name_len := word_of_nat len\<rparr>)"
proof -
  have "length (nb_device_name s) = 20" "len \<le> 20" "len \<le> length name" using assms by (simp_all add: nimble_wf_def)
  then show ?thesis using assms(1) by (simp add: nimble_wf_def unat_of_nat)
qed

lemma nimble_wf_if: "nimble_wf s1 \<Longrightarrow> nimble_wf s2 \<Longrightarrow> nimble_wf (if c then s1 else s2)"
  by simp

lemma nimble_wf_init: "nimble_wf s \<Longrightarrow> nimble_wf (fst (nimble_init rc mac handle n s))"
  unfolding nimble_init_def Let_def if_distrib [where f = fst] fst_conv
  by (intro nimble_wf_if | simp only: nimble_wf_flags | rule nimble_wf_name [OF _ HOL.refl])+

lemma gatt_access_state:
  assumes "gatt_access_cb op s = ret (s', out)"
  shows "s' = s \<or> (\<exists>buf. buf \<noteq> [] \<and> length buf \<le> ESP_MAX_DOC_SIZE \<and> s' = s\<lparr>nb_pending_docs := nb_pending_docs s @ [buf]\<rparr>)"
proof (cases op)
  case AccessRead
  then show ?thesis
    using assms by (cases "slice (nb_doc_buffer s) 0 (unat (nb_doc_len s))") (auto simp: gatt_access_cb_def Let_def split: if_splits)
next
  case (AccessWrite om r)
  then show ?thesis using assms by (cases om) (auto simp: gatt_access_cb_def split: if_splits)
qed (use assms in \<open>simp add: gatt_access_cb_def\<close>)

lemma nimble_step_wf: "nimble_step s s' \<Longrightarrow> nimble_wf s \<Longrightarrow> nimble_wf s'"
proof (induction rule: nimble_step.induct)
  case (step_gap rc e s s' calls)
  show ?case
  proof (cases e)
    case (GapConnect status h)
    then show ?thesis
      using step_gap nimble_wf_connect [of "s\<lparr>nb_connecting := False\<rparr>" h]
      by (auto simp: gap_event_handler_def Let_def split: prod.splits if_splits)
        (metis fst_conv nimble_wf_restart nimble_wf_flags(4))+
  next
    case (GapDisconnect h)
    then show ?thesis
      using step_gap nimble_wf_disconnect [of s h]
      by (auto simp: gap_event_handler_def Let_def split: prod.splits if_splits) (metis fst_conv nimble_wf_restart)+
  next
    case (GapDisc data addr)
    then show ?thesis
      using step_gap
      by (auto simp: gap_event_handler_def Let_def bind_eq_Some_conv split: prod.splits if_splits)
        (metis fst_conv nimble_wf_radio(2) nimble_wf_flags(4))+
  qed (use step_gap in \<open>auto simp: gap_event_handler_def Let_def split: prod.splits if_splits,
      (metis fst_conv nimble_wf_radio(1,2))+\<close>)
next
  case (step_gatt op s s' out)
  from gatt_access_state [OF step_gatt(1)] step_gatt(2) show ?case
    by (elim disjE exE conjE) (simp_all add: nimble_wf_def)
next
  case (step_take_pending s)
  then show ?case by (auto simp: take_pending_document_def nimble_wf_def split: list.splits)
next
  case (step_gossip answer data s)
  then show ?case using nimble_wf_set_document by (simp add: gossip_document_def Let_def)
qed (simp_all add: on_sync_def on_reset_def nimble_wf_set_document nimble_wf_init)

lemma nimble_reachable_wf: "nimble_step\<^sup>*\<^sup>* nimble_initial s \<Longrightarrow> nimble_wf s"
  by (induction rule: rtranclp_induct) (auto intro: nimble_wf_initial nimble_step_wf)

lemma gap_event_no_panic: "no_panic (gap_event_handler rc e s)"
proof (cases e)
  case (GapDisc data addr)
  obtain b where "has_peat_service data = ret b" using has_peat_service_total by (auto simp: no_panic_ex)
  with GapDisc show ?thesis by (simp add: gap_event_handler_def Let_def split: prod.split)
qed (simp_all add: gap_event_handler_def Let_def split: prod.split)

lemma gatt_access_no_panic: "nimble_wf s \<Longrightarrow> no_panic (gatt_access_cb op s)"
  unfolding gatt_access_cb_def
  by (cases op) (auto simp: Let_def nimble_wf_def slice_def intro!: safe split: option.split)

lemma read_document:
  "nimble_wf s \<Longrightarrow> length data \<le> ESP_MAX_DOC_SIZE \<Longrightarrow> gatt_access_cb AccessRead (set_document data s) = ret (set_document data s, data)"
  by (auto simp: gatt_access_cb_def set_document_def Let_def slice_def nimble_wf_def ESP_MAX_DOC_SIZE_def unat_of_nat)

text \<open>
  C17: the shared state of the ESP32 callbacks stays consistent under every sequence of stack events,
  reads, writes and calls, and whatever the stack answers. The counter equals the number of active
  slots of the connection table, the flag tells whether there is one, every document that waits fits
  its buffer, and in every reachable state no callback reads outside a buffer.
\<close>

theorem esp32_state_consistent:
  assumes "nimble_step\<^sup>*\<^sup>* nimble_initial s"
  shows "unat (nb_num_connections s) = length (filter ep_active (nb_connections s))
    \<and> unat (nb_num_connections s) \<le> ESP_MAX_CONNECTIONS \<and> (nb_connected s \<longleftrightarrow> 0 < nb_num_connections s)
    \<and> (\<forall>d \<in> set (nb_pending_docs s). d \<noteq> [] \<and> length d \<le> ESP_MAX_DOC_SIZE)
    \<and> gap_event_handler rc e s \<noteq> panic \<and> gatt_access_cb op s \<noteq> panic"
proof -
  note wf = nimble_reachable_wf [OF assms]
  have "active_count (nb_connections s) \<le> ESP_MAX_CONNECTIONS"
    using wf length_filter_le [of ep_active "nb_connections s"] by (simp add: nimble_wf_def)
  then show ?thesis
    using wf gap_event_no_panic gatt_access_no_panic [OF wf] by (simp add: nimble_wf_def no_panic_def)
qed

theorem esp32_state_consistent_witness:
  "\<exists>s. nb_num_connections s = 1 \<and> nb_connected s \<and> gatt_access_cb AccessRead s \<noteq> panic
     \<and> gap_event_handler \<lparr>rc_port_init = 0, rc_count_cfg = 0, rc_add_svcs = 0, rc_adv_set_fields = 0, rc_adv_start = 0,
          rc_disc = 0, rc_connect = 0\<rparr> (GapDisc (Some [3, 3, 0x7A, 0xF4]) [1]) s \<noteq> panic"
proof -
  let ?rc = "\<lparr>rc_port_init = 0, rc_count_cfg = 0, rc_add_svcs = 0, rc_adv_set_fields = 0, rc_adv_start = 0,
    rc_disc = 0, rc_connect = 0\<rparr>"
  obtain s calls where s: "gap_event_handler ?rc (GapConnect 0 7) nimble_initial = ret (s, calls)"
    using gap_event_no_panic [of ?rc "GapConnect 0 7" nimble_initial] by (auto simp: no_panic_ex)
  then have r: "nimble_step\<^sup>*\<^sup>* nimble_initial s" by (blast intro: nimble_step.step_gap)
  have "nb_num_connections s = 1 \<and> nb_connected s"
    using s by (auto simp: gap_event_handler_def nimble_ops Let_def nimble_initial_def ESP_MAX_CONNECTIONS_def eval_nat_numeral)
  with esp32_state_consistent [OF r, of ?rc "GapDisc (Some [3, 3, 0x7A, 0xF4]) [1]" AccessRead] show ?thesis by blast
qed

section \<open>Documents\<close>

text \<open>A document that is too long for the buffer is still sent, while readers keep getting the old one.\<close>

lemma long_document_not_published:
  "ESP_MAX_DOC_SIZE < length data \<Longrightarrow> fst (gossip_document answer data s) = s"
  by (simp add: gossip_document_def set_document_def Let_def)

section \<open>What the adapter does not do\<close>

text \<open>
  Nothing enters a connection into the adapter's own table, so a transport over this adapter refuses
  every message, however many peers are connected.
\<close>

lemma esp_tables_empty:
  "ea_connections (snd (fst (esp_init rc mac handle m (s, a)))) = ea_connections a"
  "ea_connections (snd (fst (esp_start rc (s, a)))) = ea_connections a"
  "ea_connections (snd (fst (esp_stop (s, a)))) = ea_connections a"
  "ea_connections (esp_adapter_new n name) = []"
  by (auto simp: esp_init_def esp_start_def esp_stop_def esp_adapter_new_def Let_def split: prod.split sum.split)

lemma esp32_transport_refuses:
  assumes "ea_connections a = []"
  shows "\<exists>e. send_to (\<lambda>a n. map_option ec_mtu (esp_get_connection n a)) wr (transport_new cfg a) n data
    = (transport_new cfg a, Inl (ConnectionFailed e))"
  using assms by (simp add: send_to_def transport_new_def esp_get_connection_def bt_get_def)

text \<open>
  When the stack answers a connection attempt with the code 14, the search is cancelled and not
  started again, and until the next connection event no further attempt is made.
\<close>

lemma busy_connect_stops_search:
  assumes "has_peat_service data = ret True" "unat (nb_num_connections s) < ESP_MAX_CONNECTIONS" "\<not> nb_connecting s"
    and "rc_connect rc = 14"
  shows "gap_event_handler rc (GapDisc data addr) s = ret (s\<lparr>nb_connecting := True\<rparr>, [CallDiscCancel, CallConnect addr])"
  using assms by (simp add: gap_event_handler_def Let_def)

lemma connecting_until_connect_event:
  assumes "nb_connecting s" "\<forall>st h. e \<noteq> GapConnect st h" "gap_event_handler rc e s = ret (s', calls)"
  shows "nb_connecting s' \<and> CallConnect addr \<notin> set calls"
  using assms
  by (cases e) (auto simp: gap_event_handler_def nimble_ops Let_def bind_eq_Some_conv split: prod.splits if_splits)

text \<open>A connection that finds the table full is kept by the stack and unknown to the adapter.\<close>

lemma fifth_connection_untracked:
  assumes "nimble_wf s" "unat (nb_num_connections s) = ESP_MAX_CONNECTIONS"
    "gap_event_handler rc (GapConnect 0 h) s = ret (s', calls)"
  shows "nb_connections s' = nb_connections s \<and> nb_num_connections s' = nb_num_connections s"
proof -
  obtain cs found where c: "claim_slot h (nb_connections s) = (cs, found)" by fastforce
  have "active_count cs \<le> 4" using assms(1) claim_slot_spec [OF c] length_filter_le [of ep_active cs]
    by (simp add: nimble_wf_def ESP_MAX_CONNECTIONS_def)
  then have "\<not> found" using assms(1,2) claim_slot_spec [OF c] by (simp add: nimble_wf_def ESP_MAX_CONNECTIONS_def)
  with assms(3) c claim_slot_spec [OF c] show ?thesis
    by (auto simp: gap_event_handler_def nimble_ops Let_def split: if_splits)
qed

text \<open>Its own advertisement names the service in its 128-bit form and is found, whatever the flags.\<close>

lemma esp32_nodes_seen:
  "has_peat_service (Some (concat (map ad_field [(1, [flags]), (7, ESP_SERVICE_UUID)]))) = ret True"
proof -
  let ?fs = "[(1, [flags]), (7, ESP_SERVICE_UUID)]"
  have "names_service (7, ESP_SERVICE_UUID)" by (simp add: names_service_def slice_chunks_one ESP_SERVICE_UUID_def)
  moreover have "4 \<le> length (concat (map ad_field ?fs))" "\<forall>(t, d) \<in> set ?fs. length d < 255"
    by (simp_all add: ad_field_def ESP_SERVICE_UUID_def)
  ultimately show ?thesis using peat_service_loop_fields [of ?fs "[]"] by (simp add: has_peat_service_def)
qed

text \<open>The adapter also builds advertising data, which it only logs; a search would not find the service in it.\<close>

lemma esp_built_data_unseen: "has_peat_service (Some (esp_build_adv_data b)) = ret False"
proof -
  let ?fs = "[(1, [6]), (3, [0xB2, 0xA1]), (0x16, [0xB2, 0xA1] @ beacon_encode_compact b)] :: (u8 \<times> bytes) list"
  have l: "length (beacon_encode_compact b) = 10" by (simp add: beacon_encode_compact_def beacon_head_def)
  have "esp_build_adv_data b = concat (map ad_field ?fs)"
    by (simp add: esp_build_adv_data_def ad_field_def l to_le_def PEAT_SERVICE_UUID_16BIT_def upt_rec Let_def)
  moreover have "\<forall>(t, d) \<in> set ?fs. length d < 255" by (simp add: l BEACON_COMPACT_SIZE_def)
  moreover have "\<not> names_service (3, [0xB2, 0xA1])" "\<not> names_service (1, [6])" "\<not> names_service (0x16, [0xB2, 0xA1] @ beacon_encode_compact b)"
    by (simp_all add: names_service_def slice_chunks_one)
  ultimately show ?thesis
    using peat_service_loop_fields [of ?fs "[]"] by (simp add: has_peat_service_def ad_field_def l)
qed

end
