(* ===== verification/Linux_Connection.thy ===== *)
theory Linux_Connection
  imports Ble_Config "HOL-Library.Sublist"
begin

text \<open>
  A connection over BlueZ, from \<^verbatim>\<open>platform/linux/connection.rs\<close>: its state, the GATT operations
  on the remote device, and the queue that serializes writes. Several tasks write at the same time;
  each call of \<open>write_characteristic_queued\<close> is a task, and the relation \<open>wq_step\<close> interleaves them at
  the points where the code takes a lock or waits. Main results: at most one write is under way,
  writes reach the device in the order they were queued, and every call returns; but when a task is
  dropped in the middle of a write, no later write is ever made.

  BlueZ is not part of the sources: what the remote device answers is the record \<open>remote_device\<close>.
  The non-blocking reads of the state (\<open>try_read\<close>) are modelled in the case that the lock is free.
\<close>

section \<open>The remote device\<close>

text \<open>An operation of the device gives an error message or a value; an identifier may be unreadable.\<close>

record remote_char =
  rch_uuid :: "bytes option"
  rch_read :: "string + bytes"
  rch_write :: "bytes \<Rightarrow> string + unit"
  rch_write_mtu :: "string + nat"
  rch_notify_mtu :: "string + nat"
  rch_notify :: "string + bytes list"

record remote_service =
  rsv_uuid :: "bytes option"
  rsv_chars :: "string + remote_char list"

record remote_device =
  rd_services :: "string + remote_service list"
  rd_rssi :: "16 word option"
  rd_disconnect :: "string + unit"

record connection_state =
  cs_alive :: bool
  cs_mtu :: u16
  cs_phy :: config_phy
  cs_rssi :: "i8 option"

definition DEFAULT_BLE_MTU :: u16 where "DEFAULT_BLE_MTU = 185"

definition update_rssi :: "remote_device \<Rightarrow> connection_state \<Rightarrow> connection_state" where
  "update_rssi d s = (case rd_rssi d of Some r \<Rightarrow> s\<lparr>cs_rssi := Some (ucast r)\<rparr> | None \<Rightarrow> s)"

definition bluer_connection_new :: "remote_device \<Rightarrow> connection_state" where
  "bluer_connection_new d =
     update_rssi d \<lparr>cs_alive = True, cs_mtu = DEFAULT_BLE_MTU, cs_phy = CfgLe1M, cs_rssi = None\<rparr>"

definition bluer_set_mtu :: "u16 \<Rightarrow> connection_state \<Rightarrow> connection_state" where
  "bluer_set_mtu m s = s\<lparr>cs_mtu := m\<rparr>"

definition bluer_set_phy :: "config_phy \<Rightarrow> connection_state \<Rightarrow> connection_state" where
  "bluer_set_phy p s = s\<lparr>cs_phy := p\<rparr>"

definition mark_dead :: "connection_state \<Rightarrow> connection_state" where
  "mark_dead s = s\<lparr>cs_alive := False\<rparr>"

text \<open>\<open>shown\<close> prints an identifier in error messages.\<close>

definition gatt_services :: "remote_device \<Rightarrow> ble_error + remote_service list" where
  "gatt_services d =
     (case rd_services d of Inl e \<Rightarrow> Inl (GattError (''Failed to get services: '' @ e)) | Inr ss \<Rightarrow> Inr ss)"

definition find_service :: "remote_device \<Rightarrow> bytes \<Rightarrow> ble_error + remote_service option" where
  "find_service d uuid =
     (case gatt_services d of Inl e \<Rightarrow> Inl e | Inr ss \<Rightarrow> Inr (find (\<lambda>s. rsv_uuid s = Some uuid) ss))"

definition service_characteristics :: "(bytes \<Rightarrow> string) \<Rightarrow> remote_device \<Rightarrow> bytes \<Rightarrow> ble_error + remote_char list" where
  "service_characteristics shown d svc =
     (case find_service d svc of
        Inl e \<Rightarrow> Inl e
      | Inr None \<Rightarrow> Inl (ServiceNotFound (shown svc))
      | Inr (Some s) \<Rightarrow>
          (case rsv_chars s of
             Inl e \<Rightarrow> Inl (GattError (''Failed to get characteristics: '' @ e))
           | Inr cs \<Rightarrow> Inr cs))"

definition on_characteristic ::
  "(bytes \<Rightarrow> string) \<Rightarrow> remote_device \<Rightarrow> bytes \<Rightarrow> bytes \<Rightarrow> string \<Rightarrow> (remote_char \<Rightarrow> string + 'a) \<Rightarrow> ble_error + 'a" where
  "on_characteristic shown d svc uuid msg act =
     (case service_characteristics shown d svc of
        Inl e \<Rightarrow> Inl e
      | Inr cs \<Rightarrow>
          (case find (\<lambda>c. rch_uuid c = Some uuid) cs of
             Some c \<Rightarrow> (case act c of Inl e \<Rightarrow> Inl (GattError (msg @ e)) | Inr x \<Rightarrow> Inr x)
           | None \<Rightarrow> Inl (CharacteristicNotFound (shown uuid))))"

definition read_characteristic :: "(bytes \<Rightarrow> string) \<Rightarrow> remote_device \<Rightarrow> bytes \<Rightarrow> bytes \<Rightarrow> ble_error + bytes" where
  "read_characteristic shown d svc uuid = on_characteristic shown d svc uuid ''Failed to read characteristic: '' rch_read"

definition write_characteristic :: "(bytes \<Rightarrow> string) \<Rightarrow> remote_device \<Rightarrow> bytes \<Rightarrow> bytes \<Rightarrow> bytes \<Rightarrow> ble_error + unit" where
  "write_characteristic shown d svc uuid v =
     on_characteristic shown d svc uuid ''Failed to write characteristic: '' (\<lambda>c. rch_write c v)"

definition subscribe_characteristic :: "(bytes \<Rightarrow> string) \<Rightarrow> remote_device \<Rightarrow> bytes \<Rightarrow> bytes \<Rightarrow> ble_error + bytes list" where
  "subscribe_characteristic shown d svc uuid =
     on_characteristic shown d svc uuid ''Failed to subscribe to notifications: '' rch_notify"

fun mtu_loop :: "bytes \<Rightarrow> remote_char list \<Rightarrow> u16 option" where
  "mtu_loop uuid [] = None"
| "mtu_loop uuid (c # cs) =
     (if rch_uuid c = Some uuid then
        (case rch_write_mtu c of
           Inr m \<Rightarrow> Some (word_of_nat m)
         | Inl _ \<Rightarrow>
             (case rch_notify_mtu c of Inr m \<Rightarrow> Some (word_of_nat m) | Inl _ \<Rightarrow> mtu_loop uuid cs))
      else mtu_loop uuid cs)"

definition discover_mtu ::
  "(bytes \<Rightarrow> string) \<Rightarrow> remote_device \<Rightarrow> bytes \<Rightarrow> bytes \<Rightarrow> connection_state \<Rightarrow> connection_state \<times> (ble_error + u16)" where
  "discover_mtu shown d svc uuid s =
     (case service_characteristics shown d svc of
        Inl e \<Rightarrow> (s, Inl e)
      | Inr cs \<Rightarrow>
          (case mtu_loop uuid cs of
             Some m \<Rightarrow> (bluer_set_mtu m s, Inr m)
           | None \<Rightarrow> (s, Inr (cs_mtu s))))"

section \<open>The write queue\<close>

text \<open>
  A task is identified by a number, and so is the write it queued; \<open>wr_request\<close> gives what it writes.
\<close>

type_synonym task = nat

record write_request =
  wr_service :: bytes
  wr_char :: bytes
  wr_data :: bytes

record write_queue =
  wq_queue :: "task list"
  wq_in_progress :: bool

definition write_queue_new :: write_queue where
  "write_queue_new = \<lparr>wq_queue = [], wq_in_progress = False\<rparr>"

definition push_write :: "task \<Rightarrow> write_queue \<Rightarrow> write_queue" where
  "push_write t q = q\<lparr>wq_queue := wq_queue q @ [t]\<rparr>"

text \<open>The locked part at the head of the loop; \<open>None\<close> leaves the loop.\<close>

definition next_write :: "write_queue \<Rightarrow> (task \<times> write_queue) option" where
  "next_write q =
     (if wq_in_progress q then None
      else (case wq_queue q of [] \<Rightarrow> None | t # ts \<Rightarrow> Some (t, q\<lparr>wq_queue := ts, wq_in_progress := True\<rparr>)))"

definition finish_write :: "write_queue \<Rightarrow> write_queue" where
  "finish_write q = q\<lparr>wq_in_progress := False\<rparr>"

definition write_queue_cleared :: ble_error where
  "write_queue_cleared = GattError ''Write queue cleared (disconnected?)''"

definition clear_write_queue :: "write_queue \<Rightarrow> write_queue \<times> (task \<times> (ble_error + unit)) list" where
  "clear_write_queue q = (q\<lparr>wq_queue := []\<rparr>, map (\<lambda>t. (t, Inl write_queue_cleared)) (wq_queue q))"

text \<open>Disconnecting clears the queue first; what it clears is part of the result.\<close>

definition bluer_disconnect ::
  "remote_device \<Rightarrow> write_queue \<times> connection_state \<Rightarrow>
   (write_queue \<times> connection_state) \<times> (task \<times> (ble_error + unit)) list \<times> (ble_error + unit)" where
  "bluer_disconnect d = (\<lambda>(q, s).
     let (q1, notes1) = clear_write_queue q
     in (case rd_disconnect d of
           Inl e \<Rightarrow> ((q1, s), notes1, Inl (ConnectionFailed (''Failed to disconnect: '' @ e)))
         | Inr _ \<Rightarrow> ((q1, mark_dead s), notes1, Inr ())))"

section \<open>Tasks that write\<close>

text \<open>
  Where a call of \<open>write_characteristic_queued\<close> stands: before the push, at the head of the loop of
  \<open>process_write_queue\<close>, writing the entry \<open>u\<close>, with the result of \<open>u\<close> and the flag still set, with the
  flag reset, waiting for the own result, returned.
\<close>

datatype wq_phase =
    Queue_It | Take_Next | Writing task | Written task "ble_error + unit" | Released task "ble_error + unit"
  | Awaiting | Returned "ble_error + unit"

record wq_system =
  sys_queue :: write_queue
  sys_phase :: "task \<rightharpoonup> wq_phase"
  sys_results :: "task \<rightharpoonup> (ble_error + unit)"
  sys_pushed :: "task list"
  sys_written :: "task list"

definition wq_initial :: wq_system where
  "wq_initial = \<lparr>sys_queue = write_queue_new, sys_phase = Map.empty, sys_results = Map.empty, sys_pushed = [], sys_written = []\<rparr>"

text \<open>
  One step of a running call. \<open>sys_pushed\<close> and \<open>sys_written\<close> record the order in which writes were queued
  and in which the device got them. The result \<open>r\<close> of a write is whatever the device answers.
\<close>

inductive wq_work :: "wq_system \<Rightarrow> wq_system \<Rightarrow> bool" where
  work_push: "sys_phase s t = Some Queue_It \<Longrightarrow>
    wq_work s (s\<lparr>sys_queue := push_write t (sys_queue s), sys_phase := (sys_phase s)(t \<mapsto> Take_Next),
                 sys_pushed := sys_pushed s @ [t]\<rparr>)"
| work_take: "sys_phase s t = Some Take_Next \<Longrightarrow> next_write (sys_queue s) = Some (u, q) \<Longrightarrow>
    wq_work s (s\<lparr>sys_queue := q, sys_phase := (sys_phase s)(t \<mapsto> Writing u)\<rparr>)"
| work_leave: "sys_phase s t = Some Take_Next \<Longrightarrow> next_write (sys_queue s) = None \<Longrightarrow>
    wq_work s (s\<lparr>sys_phase := (sys_phase s)(t \<mapsto> Awaiting)\<rparr>)"
| work_write: "sys_phase s t = Some (Writing u) \<Longrightarrow>
    wq_work s (s\<lparr>sys_phase := (sys_phase s)(t \<mapsto> Written u r), sys_written := sys_written s @ [u]\<rparr>)"
| work_release: "sys_phase s t = Some (Written u r) \<Longrightarrow>
    wq_work s (s\<lparr>sys_queue := finish_write (sys_queue s), sys_phase := (sys_phase s)(t \<mapsto> Released u r)\<rparr>)"
| work_notify: "sys_phase s t = Some (Released u r) \<Longrightarrow>
    wq_work s (s\<lparr>sys_phase := (sys_phase s)(t \<mapsto> Take_Next), sys_results := (sys_results s)(u \<mapsto> r)\<rparr>)"
| work_return: "sys_phase s t = Some Awaiting \<Longrightarrow> sys_results s t = Some r \<Longrightarrow>
    wq_work s (s\<lparr>sys_phase := (sys_phase s)(t \<mapsto> Returned r)\<rparr>)"

text \<open>Besides, calls start and the queue is cleared.\<close>

inductive wq_step :: "wq_system \<Rightarrow> wq_system \<Rightarrow> bool" where
  step_work: "wq_work s s' \<Longrightarrow> wq_step s s'"
| step_call: "t \<notin> dom (sys_phase s) \<Longrightarrow> wq_step s (s\<lparr>sys_phase := (sys_phase s)(t \<mapsto> Queue_It)\<rparr>)"
| step_clear: "clear_write_queue (sys_queue s) = (q, ns) \<Longrightarrow>
    wq_step s (s\<lparr>sys_queue := q, sys_results := sys_results s ++ map_of ns\<rparr>)"

text \<open>A task may be dropped while it waits, for instance by a timeout around the call.\<close>

definition drop_task :: "task \<Rightarrow> wq_system \<Rightarrow> wq_system" where
  "drop_task t s = s\<lparr>sys_phase := (sys_phase s)(t := None)\<rparr>"

section \<open>Invariants of the interleaving\<close>

fun holding :: "wq_phase \<Rightarrow> bool" where
  "holding (Writing u) = True" | "holding (Written u r) = True" | "holding _ = False"

fun carried :: "wq_phase \<Rightarrow> task option" where
  "carried (Writing u) = Some u" | "carried (Written u r) = Some u" | "carried (Released u r) = Some u" | "carried _ = None"

fun serving :: "wq_phase \<Rightarrow> bool" where
  "serving Take_Next = True" | "serving p = (carried p \<noteq> None)"

definition holders :: "(task \<rightharpoonup> wq_phase) \<Rightarrow> task set" where
  "holders m = {t. \<exists>p. m t = Some p \<and> holding p}"

definition one_writer :: "wq_system \<Rightarrow> bool" where
  "one_writer s \<longleftrightarrow> (if wq_in_progress (sys_queue s) then \<exists>t. holders (sys_phase s) = {t} else holders (sys_phase s) = {})"

definition queue_served :: "wq_system \<Rightarrow> bool" where
  "queue_served s \<longleftrightarrow> (wq_queue (sys_queue s) \<noteq> [] \<longrightarrow> (\<exists>t p. sys_phase s t = Some p \<and> serving p))"

definition carries :: "(task \<rightharpoonup> wq_phase) \<Rightarrow> task set" where
  "carries m = {u. \<exists>t p. m t = Some p \<and> carried p = Some u}"

definition called :: "(task \<rightharpoonup> wq_phase) \<Rightarrow> task set" where
  "called m = {t. \<exists>p. m t = Some p \<and> p \<noteq> Queue_It}"

definition writes_kept :: "wq_system \<Rightarrow> bool" where
  "writes_kept s \<longleftrightarrow>
     called (sys_phase s) \<subseteq> set (wq_queue (sys_queue s)) \<union> dom (sys_results s) \<union> carries (sys_phase s)"

definition under_way :: "(task \<rightharpoonup> wq_phase) \<Rightarrow> task set" where
  "under_way m = {u. \<exists>t. m t = Some (Writing u)}"

definition in_order :: "wq_system \<Rightarrow> bool" where
  "in_order s \<longleftrightarrow> distinct (sys_pushed s) \<and> set (sys_pushed s) \<subseteq> called (sys_phase s)
     \<and> subseq (sys_written s @ wq_queue (sys_queue s)) (sys_pushed s)
     \<and> (\<forall>u \<in> under_way (sys_phase s). subseq (sys_written s @ u # wq_queue (sys_queue s)) (sys_pushed s))"

lemmas queue_ops = push_write_def next_write_def finish_write_def clear_write_queue_def

lemma next_write_Some:
  "next_write q = Some (u, q') \<longleftrightarrow> \<not> wq_in_progress q \<and> (\<exists>ts. wq_queue q = u # ts \<and> q' = q\<lparr>wq_queue := ts, wq_in_progress := True\<rparr>)"
  by (auto simp: next_write_def split: list.splits if_splits)

lemma next_write_None: "next_write q = None \<longleftrightarrow> wq_in_progress q \<or> wq_queue q = []"
  by (auto simp: next_write_def split: list.splits)

lemma holders_update [simp]:
  "holders (m(t \<mapsto> p)) = (if holding p then insert t (holders m) else holders m - {t})"
  by (auto simp: holders_def)

lemma mem_holders: "m t = Some p \<Longrightarrow> t \<in> holders m \<longleftrightarrow> holding p"
  by (simp add: holders_def)

lemma one_writer_work: "wq_work s s' \<Longrightarrow> one_writer s \<Longrightarrow> one_writer s'"
proof (induction rule: wq_work.induct)
  case (work_release s t u r)
  then have "t \<in> holders (sys_phase s)" by (simp add: mem_holders)
  with work_release(2) show ?case by (auto simp: one_writer_def finish_write_def split: if_splits)
qed (auto simp: one_writer_def push_write_def next_write_Some split: if_splits dest: mem_holders)

lemma queue_served_work: "wq_work s s' \<Longrightarrow> one_writer s \<Longrightarrow> queue_served s \<Longrightarrow> queue_served s'"
proof (induction rule: wq_work.induct)
  case (work_leave s t)
  show ?case
  proof (cases "wq_in_progress (sys_queue s)")
    case True
    then obtain t' where "t' \<in> holders (sys_phase s)" using work_leave(3) by (auto simp: one_writer_def)
    then obtain p where t': "sys_phase s t' = Some p" "holding p" by (auto simp: holders_def)
    then have "t' \<noteq> t" "serving p" using work_leave(1) by (auto elim!: holding.elims)
    with t' show ?thesis by (auto simp: queue_served_def)
  next
    case False
    then show ?thesis using work_leave(2) by (simp add: queue_served_def next_write_None)
  qed
next
  case (work_return s t r)
  show ?case
  proof (cases "wq_queue (sys_queue s) = []")
    case False
    then obtain t' p where t': "sys_phase s t' = Some p" "serving p" using work_return(4) by (auto simp: queue_served_def)
    then have "t' \<noteq> t" using work_return(1) by auto
    with t' show ?thesis by (auto simp: queue_served_def)
  qed (simp add: queue_served_def)
qed (auto simp: queue_served_def push_write_def finish_write_def)

lemma called_update [simp]: "called (m(t \<mapsto> p)) = (if p = Queue_It then called m - {t} else insert t (called m))"
  by (auto simp: called_def)

lemma carries_update:
  "sys_phase s t = Some p0 \<Longrightarrow> carries (sys_phase s) \<subseteq> carries ((sys_phase s)(t \<mapsto> p)) \<union> set_option (carried p0)"
  by (auto simp: carries_def) (metis option.inject)

lemma carries_new [intro]: "carried p = Some u \<Longrightarrow> u \<in> carries (m(t \<mapsto> p))"
  by (auto simp: carries_def)

lemma called_running: "sys_phase s t = Some p \<Longrightarrow> p \<noteq> Queue_It \<Longrightarrow> insert t (called (sys_phase s)) = called (sys_phase s)"
  by (auto simp: called_def)

lemma writes_kept_work: "wq_work s s' \<Longrightarrow> writes_kept s \<Longrightarrow> writes_kept s'"
proof (induction rule: wq_work.induct)
  case (work_push s t)
  with carries_update [OF work_push(1), of Take_Next] show ?case by (auto simp: writes_kept_def push_write_def)
next
  case (work_take s t u q)
  have "u \<in> carries ((sys_phase s)(t \<mapsto> Writing u))" by (rule carries_new) simp
  with work_take carries_update [OF work_take(1), of "Writing u"] called_running [OF work_take(1)] show ?case
    by (auto simp: writes_kept_def next_write_Some)
next
  case (work_leave s t)
  with carries_update [OF work_leave(1), of Awaiting] called_running [OF work_leave(1)] show ?case
    by (auto simp: writes_kept_def)
next
  case (work_write s t u r)
  have "u \<in> carries ((sys_phase s)(t \<mapsto> Written u r))" by (rule carries_new) simp
  with work_write carries_update [OF work_write(1), of "Written u r"] called_running [OF work_write(1)] show ?case
    by (auto simp: writes_kept_def)
next
  case (work_release s t u r)
  have "u \<in> carries ((sys_phase s)(t \<mapsto> Released u r))" by (rule carries_new) simp
  with work_release carries_update [OF work_release(1), of "Released u r"] called_running [OF work_release(1)] show ?case
    by (auto simp: writes_kept_def finish_write_def)
next
  case (work_notify s t u r)
  with carries_update [OF work_notify(1), of Take_Next] called_running [OF work_notify(1)] show ?case
    by (auto simp: writes_kept_def)
next
  case (work_return s t r)
  with carries_update [OF work_return(1), of "Returned r"] called_running [OF work_return(1)] show ?case
    by (auto simp: writes_kept_def)
qed

lemma subseq_Cons_skip: "subseq (xs @ y # ys) zs \<Longrightarrow> subseq (xs @ ys) zs"
  by (meson list_emb_append_mono subseq_Cons' subseq_order.order_refl subseq_order.order_trans)

lemma subseq_prefix: "subseq (xs @ ys) zs \<Longrightarrow> subseq xs zs"
  by (metis append_Nil2 list_emb_Nil list_emb_append_mono subseq_order.order_refl subseq_order.order_trans)

lemma under_way_update: "under_way (m(t \<mapsto> p)) \<subseteq> under_way m \<union> {u. p = Writing u}"
  by (auto simp: under_way_def split: if_splits)

lemma under_way_holders: "under_way m \<noteq> {} \<Longrightarrow> holders m \<noteq> {}"
  by (auto simp: under_way_def holders_def) (metis holding.simps(1))

lemma in_order_work: "wq_work s s' \<Longrightarrow> one_writer s \<Longrightarrow> in_order s \<Longrightarrow> in_order s'"
proof (induction rule: wq_work.induct)
  case (work_push s t)
  have e: "subseq (xs @ q @ [t]) (sys_pushed s @ [t])" if "subseq (xs @ q) (sys_pushed s)" for xs q
    using list_emb_append_mono [OF that, of "[t]" "[t]"] by simp
  have "t \<notin> called (sys_phase s)" using work_push(1) by (simp add: called_def)
  moreover have "subseq (sys_written s @ u # wq_queue (sys_queue s) @ [t]) (sys_pushed s @ [t])"
    if "u \<in> under_way ((sys_phase s)(t \<mapsto> Take_Next))" for u
    using that under_way_update [of "sys_phase s" t Take_Next] e [of "sys_written s" "u # wq_queue (sys_queue s)"] work_push(3)
    by (auto simp: in_order_def)
  ultimately show ?case using work_push(3) e by (auto simp: in_order_def push_write_def)
next
  case (work_take s t u q)
  then have "under_way (sys_phase s) = {}"
    using under_way_holders [of "sys_phase s"] by (auto simp: one_writer_def next_write_Some)
  with under_way_update [of "sys_phase s" t "Writing u"] work_take called_running [OF work_take(1)] show ?case
    by (auto simp: in_order_def next_write_Some intro: subseq_Cons_skip)
next
  case (work_write s t u r)
  then have "t \<in> holders (sys_phase s)" by (simp add: mem_holders)
  with work_write(2) have h: "holders (sys_phase s) = {t}" by (auto simp: one_writer_def split: if_splits)
  have "under_way ((sys_phase s)(t \<mapsto> Written u r)) = {}"
  proof -
    have "t' = t" if "sys_phase s t' = Some (Writing v)" for t' v
    proof -
      have "t' \<in> holders (sys_phase s)" using that by (simp add: mem_holders)
      then show ?thesis using h by simp
    qed
    then show ?thesis by (auto simp: under_way_def split: if_splits)
  qed
  moreover have "u \<in> under_way (sys_phase s)" using work_write(1) by (auto simp: under_way_def)
  ultimately show ?case using work_write(3) called_running [OF work_write(1)] by (auto simp: in_order_def)
next
  case (work_leave s t)
  with under_way_update [of "sys_phase s" t Awaiting] called_running [OF work_leave(1)] show ?case by (auto simp: in_order_def)
next
  case (work_release s t u r)
  with under_way_update [of "sys_phase s" t "Released u r"] called_running [OF work_release(1)] show ?case
    by (auto simp: in_order_def finish_write_def)
next
  case (work_notify s t u r)
  with under_way_update [of "sys_phase s" t Take_Next] called_running [OF work_notify(1)] show ?case by (auto simp: in_order_def)
next
  case (work_return s t r)
  with under_way_update [of "sys_phase s" t "Returned r"] called_running [OF work_return(1)] show ?case by (auto simp: in_order_def)
qed

text \<open>All invariants together.\<close>

definition wq_ok :: "wq_system \<Rightarrow> bool" where
  "wq_ok s \<longleftrightarrow> one_writer s \<and> queue_served s \<and> writes_kept s \<and> in_order s \<and> finite (dom (sys_phase s))"

lemma wq_ok_initial: "wq_ok wq_initial"
  by (simp add: wq_ok_def wq_initial_def write_queue_new_def one_writer_def queue_served_def writes_kept_def in_order_def
      holders_def called_def under_way_def)

lemma wq_ok_work: "wq_work s s' \<Longrightarrow> wq_ok s \<Longrightarrow> wq_ok s'"
  using one_writer_work queue_served_work writes_kept_work in_order_work
  by (auto simp: wq_ok_def elim: wq_work.cases)

lemma wq_ok_call: "t \<notin> dom (sys_phase s) \<Longrightarrow> wq_ok s \<Longrightarrow> wq_ok (s\<lparr>sys_phase := (sys_phase s)(t \<mapsto> Queue_It)\<rparr>)"
proof -
  assume t: "t \<notin> dom (sys_phase s)" and ok: "wq_ok s"
  from t have n: "holders (sys_phase s) - {t} = holders (sys_phase s)" "called (sys_phase s) - {t} = called (sys_phase s)"
    "carries (sys_phase s) \<subseteq> carries ((sys_phase s)(t \<mapsto> Queue_It))"
    by (auto simp: holders_def called_def carries_def dom_def) (metis option.distinct(1))
  have "queue_served (s\<lparr>sys_phase := (sys_phase s)(t \<mapsto> Queue_It)\<rparr>)"
    using ok t unfolding wq_ok_def queue_served_def by simp (metis domI)
  moreover have "in_order (s\<lparr>sys_phase := (sys_phase s)(t \<mapsto> Queue_It)\<rparr>)"
    using ok n(2) under_way_update [of "sys_phase s" t Queue_It] by (auto simp: wq_ok_def in_order_def)
  ultimately show ?thesis using ok n by (auto simp: wq_ok_def one_writer_def writes_kept_def)
qed

lemma wq_ok_clear:
  assumes "clear_write_queue (sys_queue s) = (q, ns)" "wq_ok s"
  shows "wq_ok (s\<lparr>sys_queue := q, sys_results := sys_results s ++ map_of ns\<rparr>)"
proof -
  have q: "q = (sys_queue s)\<lparr>wq_queue := []\<rparr>" and "ns = map (\<lambda>t. (t, Inl write_queue_cleared)) (wq_queue (sys_queue s))"
    using assms(1) by (simp_all add: clear_write_queue_def)
  then have d: "dom (sys_results s ++ map_of ns) = dom (sys_results s) \<union> set (wq_queue (sys_queue s))"
    by (auto simp: dom_map_of_conv_image_fst image_image)
  have "subseq (sys_written s @ [u]) (sys_pushed s)" if "u \<in> under_way (sys_phase s)" for u
    using assms(2) that subseq_prefix [of "sys_written s @ [u]" "wq_queue (sys_queue s)"] by (auto simp: wq_ok_def in_order_def)
  moreover have "subseq (sys_written s) (sys_pushed s)" using assms(2) subseq_prefix by (auto simp: wq_ok_def in_order_def)
  ultimately show ?thesis
    using assms(2) d by (auto simp: wq_ok_def one_writer_def queue_served_def writes_kept_def in_order_def q)
qed

lemma wq_ok_step: "wq_step s s' \<Longrightarrow> wq_ok s \<Longrightarrow> wq_ok s'"
  by (induction rule: wq_step.induct) (blast intro: wq_ok_work wq_ok_call wq_ok_clear)+

lemma wq_reachable_ok: "wq_step\<^sup>*\<^sup>* wq_initial s \<Longrightarrow> wq_ok s"
  by (induction rule: rtranclp_induct) (auto intro: wq_ok_initial wq_ok_step)

section \<open>Progress\<close>

lemma serving_works:
  assumes "sys_phase s t = Some p" "serving p"
  shows "\<exists>s'. wq_work s s'"
proof (cases p)
  case Take_Next
  show ?thesis
  proof (cases "next_write (sys_queue s)")
    case None
    then show ?thesis using wq_work.work_leave assms(1) Take_Next by blast
  next
    case (Some x)
    then show ?thesis using wq_work.work_take [of s t "fst x" "snd x"] assms(1) Take_Next by auto
  qed
qed (use assms wq_work.work_write wq_work.work_release wq_work.work_notify in \<open>(fastforce | auto)+\<close>)

text \<open>As long as a call has not returned, some task can take a step.\<close>

lemma wq_progress:
  assumes "wq_ok s" "sys_phase s t = Some p" "\<forall>r. p \<noteq> Returned r"
  shows "\<exists>s'. wq_work s s'"
proof (cases "serving p \<or> p = Queue_It")
  case True
  then show ?thesis using serving_works wq_work.work_push assms(2) by blast
next
  case False
  then have p: "p = Awaiting" using assms(3) by (cases p) auto
  then have "t \<in> called (sys_phase s)" using assms(2) by (auto simp: called_def)
  then consider "t \<in> set (wq_queue (sys_queue s))" | r where "sys_results s t = Some r" | "t \<in> carries (sys_phase s)"
    using assms(1) by (auto simp: wq_ok_def writes_kept_def)
  then show ?thesis
  proof cases
    case 1
    then obtain t' p' where "sys_phase s t' = Some p'" "serving p'"
      using assms(1) by (auto simp: wq_ok_def queue_served_def)
    then show ?thesis by (rule serving_works)
  next
    case 2
    then show ?thesis using wq_work.work_return assms(2) p by blast
  next
    case 3
    then obtain t' p' where "sys_phase s t' = Some p'" "carried p' = Some t" by (auto simp: carries_def)
    then show ?thesis using serving_works [of s t' p'] by (cases p') auto
  qed
qed

text \<open>The work that is left: every step does some of it.\<close>

fun phase_work :: "wq_phase \<Rightarrow> nat" where
  "phase_work Queue_It = 8" | "phase_work (Writing u) = 6" | "phase_work (Written u r) = 5" | "phase_work (Released u r) = 4"
| "phase_work Take_Next = 2" | "phase_work Awaiting = 1" | "phase_work (Returned r) = 0"

definition work_left :: "wq_system \<Rightarrow> nat" where
  "work_left s = (\<Sum>t \<in> dom (sys_phase s). phase_work (the (sys_phase s t))) + 5 * length (wq_queue (sys_queue s))"

lemma phase_sum_update:
  assumes "finite (dom m)" "m t = Some p0"
  shows "(\<Sum>t' \<in> dom (m(t \<mapsto> p)). phase_work (the ((m(t \<mapsto> p)) t'))) + phase_work p0
    = (\<Sum>t' \<in> dom m. phase_work (the (m t'))) + phase_work p"
proof -
  have t: "t \<in> dom m" "insert t (dom m) = dom m" using assms(2) by auto
  have "(\<Sum>t' \<in> dom m - {t}. phase_work (the ((m(t \<mapsto> p)) t'))) = (\<Sum>t' \<in> dom m - {t}. phase_work (the (m t')))"
    by (rule sum.cong) auto
  then show ?thesis
    using assms t by (simp add: sum.remove [OF assms(1) t(1)] del: fun_upd_apply) simp
qed

lemma work_decreases:
  assumes "wq_work s s'" "finite (dom (sys_phase s))"
  shows "work_left s' < work_left s"
  using assms
proof (induction rule: wq_work.induct)
  case (work_push s t)
  from phase_sum_update [OF work_push(2), of t Queue_It Take_Next] work_push(1) show ?case
    by (simp add: work_left_def push_write_def)
next
  case (work_take s t u q)
  from phase_sum_update [OF work_take(3), of t Take_Next "Writing u"] work_take(1,2) show ?case
    by (auto simp: work_left_def next_write_Some)
next
  case (work_leave s t)
  from phase_sum_update [OF work_leave(3), of t Take_Next Awaiting] work_leave(1) show ?case by (simp add: work_left_def)
next
  case (work_write s t u r)
  from phase_sum_update [OF work_write(2), of t "Writing u" "Written u r"] work_write(1) show ?case by (simp add: work_left_def)
next
  case (work_release s t u r)
  from phase_sum_update [OF work_release(2), of t "Written u r" "Released u r"] work_release(1) show ?case
    by (simp add: work_left_def finish_write_def)
next
  case (work_notify s t u r)
  from phase_sum_update [OF work_notify(2), of t "Released u r" Take_Next] work_notify(1) show ?case by (simp add: work_left_def)
next
  case (work_return s t r)
  from phase_sum_update [OF work_return(3), of t Awaiting "Returned r"] work_return(1) show ?case by (simp add: work_left_def)
qed

lemma work_terminates: "wq_ok s \<Longrightarrow> (wq_work ^^ n) s s' \<Longrightarrow> n + work_left s' \<le> work_left s \<and> wq_ok s'"
proof (induction n arbitrary: s')
  case (Suc n)
  then obtain s1 where s1: "(wq_work ^^ n) s s1" "wq_work s1 s'" by auto
  with Suc have "n + work_left s1 \<le> work_left s" "wq_ok s1" by blast+
  then show ?case using work_decreases [OF s1(2)] wq_ok_work [OF s1(2)] by (auto simp: wq_ok_def)
qed simp

section \<open>A run\<close>

text \<open>Task 1 writes while the write of task 2 waits in the queue.\<close>

definition wq_demo :: wq_system where
  "wq_demo = \<lparr>sys_queue = \<lparr>wq_queue = [2], wq_in_progress = True\<rparr>, sys_phase = [1 \<mapsto> Writing 1, 2 \<mapsto> Awaiting],
     sys_results = Map.empty, sys_pushed = [1, 2], sys_written = []\<rparr>"

lemma wq_demo_reachable: "wq_step\<^sup>*\<^sup>* wq_initial wq_demo"
proof -
  let ?s = "\<lambda>q b ph ps. \<lparr>sys_queue = \<lparr>wq_queue = q, wq_in_progress = b\<rparr>, sys_phase = ph, sys_results = Map.empty,
    sys_pushed = ps, sys_written = []\<rparr>"
  note demo = wq_initial_def write_queue_new_def push_write_def next_write_def
  have "wq_step wq_initial (?s [] False [1 \<mapsto> Queue_It] [])"
    using step_call [of 1 wq_initial] by (simp add: demo)
  moreover have "wq_step (?s [] False [1 \<mapsto> Queue_It] []) (?s [1] False [1 \<mapsto> Take_Next] [1])"
    using step_work [OF work_push [of "?s [] False [1 \<mapsto> Queue_It] []" 1]] by (simp add: demo)
  moreover have "wq_step (?s [1] False [1 \<mapsto> Take_Next] [1]) (?s [] True [1 \<mapsto> Writing 1] [1])"
    using step_work [OF work_take [of "?s [1] False [1 \<mapsto> Take_Next] [1]" 1 1]] by (simp add: demo)
  moreover have "wq_step (?s [] True [1 \<mapsto> Writing 1] [1]) (?s [] True [1 \<mapsto> Writing 1, 2 \<mapsto> Queue_It] [1])"
    using step_call [of 2 "?s [] True [1 \<mapsto> Writing 1] [1]"] by simp
  moreover have "wq_step (?s [] True [1 \<mapsto> Writing 1, 2 \<mapsto> Queue_It] [1]) (?s [2] True [1 \<mapsto> Writing 1, 2 \<mapsto> Take_Next] [1, 2])"
    using step_work [OF work_push [of "?s [] True [1 \<mapsto> Writing 1, 2 \<mapsto> Queue_It] [1]" 2]] by (simp add: demo)
  moreover have "wq_step (?s [2] True [1 \<mapsto> Writing 1, 2 \<mapsto> Take_Next] [1, 2]) wq_demo"
    using step_work [OF work_leave [of "?s [2] True [1 \<mapsto> Writing 1, 2 \<mapsto> Take_Next] [1, 2]" 2]] by (simp add: demo wq_demo_def)
  ultimately show ?thesis by (meson converse_rtranclp_into_rtranclp rtranclp.rtrancl_refl)
qed

section \<open>Properties\<close>

text \<open>
  C15: writes over a BlueZ connection do not get in each other's way. Whatever calls of the queued
  write are interleaved, and however often the queue is cleared in between, at most one task has a
  write under way, and the writes the device got are a part of the writes that were queued, in
  the order in which they were queued and each at most once.
\<close>

theorem queued_writes_in_order:
  assumes "wq_step\<^sup>*\<^sup>* wq_initial s"
  shows "subseq (sys_written s) (sys_pushed s) \<and> distinct (sys_written s)
    \<and> (sys_phase s t = Some (Writing u) \<and> sys_phase s t' = Some (Writing u') \<longrightarrow> t = t')"
proof -
  note ok = wq_reachable_ok [OF assms]
  then have sub: "subseq (sys_written s) (sys_pushed s)" and "distinct (sys_pushed s)"
    using subseq_prefix by (auto simp: wq_ok_def in_order_def)
  then have "distinct (sys_written s)" using distinct_nthsI by (metis subseq_conv_nths)
  moreover have "t = t'" if "sys_phase s t = Some (Writing u)" "sys_phase s t' = Some (Writing u')"
  proof -
    have "t \<in> holders (sys_phase s)" "t' \<in> holders (sys_phase s)" using that by (simp_all add: mem_holders)
    then show ?thesis using ok by (auto simp: wq_ok_def one_writer_def split: if_splits)
  qed
  ultimately show ?thesis using sub by blast
qed

theorem queued_writes_in_order_witness:
  "subseq (sys_written wq_demo) (sys_pushed wq_demo) \<and> distinct (sys_written wq_demo)"
  using queued_writes_in_order [OF wq_demo_reachable, of 1 1 1 1] by blast

text \<open>
  C16: every queued write returns. From every state that tasks can reach, the running calls take only a
  bounded number of further steps, whatever their order, and they can stop only when every call has
  returned: no wake-up is lost and no call waits for ever.
\<close>

theorem queued_writes_return:
  assumes "wq_step\<^sup>*\<^sup>* wq_initial s"
  shows "\<exists>k. \<forall>n s'. (wq_work ^^ n) s s' \<longrightarrow> n \<le> k
    \<and> ((\<exists>s''. wq_work s' s'') \<or> (\<forall>t p. sys_phase s' t = Some p \<longrightarrow> (\<exists>r. p = Returned r)))"
proof (intro exI [of _ "work_left s"] allI impI)
  fix n s' assume "(wq_work ^^ n) s s'"
  from work_terminates [OF wq_reachable_ok [OF assms] this] wq_progress [of s']
  show "n \<le> work_left s \<and> ((\<exists>s''. wq_work s' s'') \<or> (\<forall>t p. sys_phase s' t = Some p \<longrightarrow> (\<exists>r. p = Returned r)))"
    by (metis add_leD1)
qed

theorem queued_writes_return_witness:
  "\<exists>k. \<forall>n s'. (wq_work ^^ n) wq_demo s' \<longrightarrow> n \<le> k
    \<and> ((\<exists>s''. wq_work s' s'') \<or> (\<forall>t p. sys_phase s' t = Some p \<longrightarrow> (\<exists>r. p = Returned r)))"
  by (rule queued_writes_return [OF wq_demo_reachable])

section \<open>A dropped task\<close>

definition queue_blocked :: "wq_system \<Rightarrow> bool" where
  "queue_blocked s \<longleftrightarrow> wq_in_progress (sys_queue s) \<and> holders (sys_phase s) = {}"

lemma queue_blocked_step: "wq_step s s' \<Longrightarrow> queue_blocked s \<Longrightarrow> queue_blocked s' \<and> sys_written s' = sys_written s"
proof (induction rule: wq_step.induct)
  case (step_work s s')
  from step_work show ?case
    by (induction rule: wq_work.induct) (auto simp: queue_blocked_def push_write_def next_write_Some dest: mem_holders)
qed (auto simp: queue_blocked_def clear_write_queue_def)

text \<open>
  C40: a write that is dropped blocks its connection. When the task that has a write under way is
  dropped, as a timeout around the call does, the flag of the queue stays set, and whatever happens
  afterwards, new queued calls and clearing the queue included, no further queued write reaches the
  device. (Writes that bypass the queue are not affected.)
\<close>

theorem dropped_write_blocks_queue:
  assumes "wq_step\<^sup>*\<^sup>* wq_initial s" "sys_phase s t = Some (Writing u)" "wq_step\<^sup>*\<^sup>* (drop_task t s) s'"
  shows "sys_written s' = sys_written s"
proof -
  have "t \<in> holders (sys_phase s)" using assms(2) by (simp add: mem_holders)
  then have "wq_in_progress (sys_queue s)" "holders (sys_phase s) = {t}"
    using wq_reachable_ok [OF assms(1)] by (auto simp: wq_ok_def one_writer_def split: if_splits)
  then have "queue_blocked (drop_task t s)" by (auto simp: queue_blocked_def drop_task_def holders_def)
  with assms(3) have "queue_blocked s' \<and> sys_written s' = sys_written (drop_task t s)"
    by (induction rule: rtranclp_induct) (auto dest: queue_blocked_step)
  then show ?thesis by (simp add: drop_task_def)
qed

theorem dropped_write_blocks_queue_witness:
  "\<exists>s'. wq_step\<^sup>*\<^sup>* (drop_task 1 wq_demo) s' \<and> sys_phase s' 3 = Some Queue_It \<and> sys_written s' = []"
proof -
  let ?s = "(drop_task 1 wq_demo)\<lparr>sys_phase := (sys_phase (drop_task 1 wq_demo))(3 \<mapsto> Queue_It)\<rparr>"
  have r: "wq_step\<^sup>*\<^sup>* (drop_task 1 wq_demo) ?s"
    by (intro r_into_rtranclp step_call) (simp add: drop_task_def wq_demo_def)
  have "sys_phase wq_demo 1 = Some (Writing 1)" by (simp add: wq_demo_def)
  from dropped_write_blocks_queue [OF wq_demo_reachable this r] r show ?thesis
    by (intro exI [of _ ?s]) (simp add: wq_demo_def)
qed

end
