(* ===== verification/Linux_Adapter.thy ===== *)
theory Linux_Adapter
  imports Linux_Connection Transport
begin

text \<open>
  The adapter over BlueZ, from \<^verbatim>\<open>platform/linux/adapter.rs\<close>: the GATT state its characteristics
  serve, the advertisement it builds, how it recognises devices and remembers where a node is, and
  the connections it makes. Main results: a node is found under its own id by every adapter that
  sees its name or its service data; an address that passes to another node leads connections to
  the wrong node; and over this adapter the transport cannot send.

  What BlueZ answers is an argument of each operation. Connections are modelled in Linux_Connection.
  A device address is its six bytes; \<open>shown\<close> prints it. A discovery task keeps the callback that was
  set when it started. The unused map of discovered devices is left out.
\<close>

unbundle bit_operations_syntax

section \<open>State of the GATT service\<close>

type_synonym address = bytes

record lg_state =
  lg_node_id :: "node_id option"
  lg_node_info :: bytes
  lg_sync_state :: bytes
  lg_status :: bytes
  lg_sync_data_callback :: bool
  lg_command_callback :: bool
  lg_peer_mtu :: "(address, u16) btree_map"

definition lg_new :: lg_state where
  "lg_new = \<lparr>lg_node_id = None, lg_node_info = [], lg_sync_state = [], lg_status = [], lg_sync_data_callback = False,
     lg_command_callback = False, lg_peer_mtu = []\<rparr>"

definition lg_init :: "node_id \<Rightarrow> lg_state \<Rightarrow> lg_state" where
  "lg_init n s = s\<lparr>lg_node_id := Some n, lg_node_info := le32 n, lg_sync_state := [0], lg_status := [0]\<rparr>"

definition lg_update_peer_mtu :: "address \<Rightarrow> u16 \<Rightarrow> lg_state \<Rightarrow> lg_state" where
  "lg_update_peer_mtu addr m s = s\<lparr>lg_peer_mtu := bt_insert addr m (lg_peer_mtu s)\<rparr>"

definition lg_get_peer_mtu :: "address \<Rightarrow> lg_state \<Rightarrow> u16 option" where
  "lg_get_peer_mtu addr s = bt_get (lg_peer_mtu s) addr"

text \<open>The request handlers: address and MTU of the request, for writes the data and the callback's call.\<close>

definition lg_read_node_info :: "address \<Rightarrow> u16 \<Rightarrow> lg_state \<Rightarrow> lg_state \<times> bytes" where
  "lg_read_node_info addr m s = (let s1 = lg_update_peer_mtu addr m s in (s1, lg_node_info s1))"

definition lg_read_sync_state :: "address \<Rightarrow> u16 \<Rightarrow> lg_state \<Rightarrow> lg_state \<times> bytes" where
  "lg_read_sync_state addr m s = (let s1 = lg_update_peer_mtu addr m s in (s1, lg_sync_state s1))"

definition lg_read_status :: "address \<Rightarrow> u16 \<Rightarrow> lg_state \<Rightarrow> lg_state \<times> bytes" where
  "lg_read_status addr m s = (let s1 = lg_update_peer_mtu addr m s in (s1, lg_status s1))"

definition lg_write_sync_data :: "bytes \<Rightarrow> address \<Rightarrow> u16 \<Rightarrow> lg_state \<Rightarrow> lg_state \<times> bytes list" where
  "lg_write_sync_data d addr m s =
     (let s1 = lg_update_peer_mtu addr m s in (s1, if lg_sync_data_callback s1 then [d] else []))"

definition lg_write_command :: "bytes \<Rightarrow> address \<Rightarrow> u16 \<Rightarrow> lg_state \<Rightarrow> lg_state \<times> bytes list" where
  "lg_write_command d addr m s =
     (let s1 = lg_update_peer_mtu addr m s in (s1, if lg_command_callback s1 then [d] else []))"

text \<open>The application that is registered: its characteristics and what they allow.\<close>

record local_char =
  lc_uuid :: bytes
  lc_read :: bool
  lc_write :: bool
  lc_write_without_response :: bool
  lc_notify :: bool
  lc_indicate :: bool

definition gatt_application :: "local_char list" where
  "gatt_application =
     [\<lparr>lc_uuid = node_info_uuid, lc_read = True, lc_write = False, lc_write_without_response = False,
       lc_notify = False, lc_indicate = False\<rparr>,
      \<lparr>lc_uuid = sync_state_uuid, lc_read = True, lc_write = False, lc_write_without_response = False,
       lc_notify = True, lc_indicate = False\<rparr>,
      \<lparr>lc_uuid = sync_data_uuid, lc_read = False, lc_write = True, lc_write_without_response = False,
       lc_notify = False, lc_indicate = True\<rparr>,
      \<lparr>lc_uuid = command_uuid, lc_read = False, lc_write = True, lc_write_without_response = True,
       lc_notify = False, lc_indicate = False\<rparr>,
      \<lparr>lc_uuid = status_uuid, lc_read = True, lc_write = False, lc_write_without_response = False,
       lc_notify = True, lc_indicate = False\<rparr>]"

section \<open>Advertising\<close>

record advertisement =
  adv_service_uuids :: "bytes list"
  adv_local_name :: "string option"
  adv_service_data :: "(bytes, bytes) btree_map"
  adv_discoverable :: "bool option"

text \<open>The short identifier 0xF47A in its long form, as the code spells it out.\<close>

definition SHORT_SERVICE_UUID :: bytes where
  "SHORT_SERVICE_UUID =
     [0x00, 0x00, 0xF4, 0x7A, 0x00, 0x00, 0x10, 0x00, 0x80, 0x00, 0x00, 0x80, 0x5F, 0x9B, 0x34, 0xFB]"

definition build_advertisement :: "ble_config \<Rightarrow> advertisement" where
  "build_advertisement c =
     (let mesh = mn_mesh_id (bc_mesh c);
          mesh_bytes = (case from_str_radix16 (2 ^ 32) mesh of
             Some i \<Rightarrow> rev (le32 (word_of_nat i))
           | None \<Rightarrow> map (\<lambda>ch. word_of_nat (of_char ch)) (take 4 mesh))
      in \<lparr>adv_service_uuids = [SHORT_SERVICE_UUID], adv_local_name = Some (''PEAT-'' @ node_id_display (ble_config.bc_node_id c)),
          adv_service_data = bt_insert SHORT_SERVICE_UUID (rev (le32 (ble_config.bc_node_id c)) @ mesh_bytes) [],
          adv_discoverable = Some True\<rparr>)"

section \<open>The adapter\<close>

record bluer_adapter =
  la_cached_address :: "string option"
  la_cached_powered :: bool
  la_config :: "ble_config option"
  la_connections :: "(node_id, connection_state) btree_map"
  la_address_to_node :: "(address, node_id) btree_map"
  la_node_to_address :: "(node_id, address) btree_map"
  la_adv_handle :: "advertisement option"
  la_gatt_handle :: "local_char list option"
  la_gatt_state :: lg_state
  la_discovery_callback :: bool
  la_connection_callback :: bool
  la_discovery_tasks :: "bool list"

text \<open>The arguments are what the session, the adapter and its power state answer.\<close>

definition bluer_adapter_new ::
  "string + (unit + (string + bool) \<times> (string + unit) \<times> string option) \<Rightarrow> ble_error + bluer_adapter" where
  "bluer_adapter_new answers =
     (case answers of
        Inl e \<Rightarrow> Inl (PlatformError (''Failed to create BlueZ session: '' @ e))
      | Inr (Inl _) \<Rightarrow> Inl AdapterNotAvailable
      | Inr (Inr (powered, set_powered, addr)) \<Rightarrow>
          let adapter = \<lparr>la_cached_address = addr, la_cached_powered = True, la_config = None, la_connections = [],
                la_address_to_node = [], la_node_to_address = [], la_adv_handle = None, la_gatt_handle = None,
                la_gatt_state = lg_new, la_discovery_callback = False, la_connection_callback = False,
                la_discovery_tasks = []\<rparr>
          in (case powered of
                Inl e \<Rightarrow> Inl (PlatformError (''Failed to check adapter power: '' @ e))
              | Inr True \<Rightarrow> Inr adapter
              | Inr False \<Rightarrow>
                  (case set_powered of
                     Inl e \<Rightarrow> Inl (PlatformError (''Failed to power on adapter: '' @ e))
                   | Inr _ \<Rightarrow> Inr adapter)))"

definition register_node_address :: "node_id \<Rightarrow> address \<Rightarrow> bluer_adapter \<Rightarrow> bluer_adapter" where
  "register_node_address n addr a =
     a\<lparr>la_address_to_node := bt_insert addr n (la_address_to_node a),
       la_node_to_address := bt_insert n addr (la_node_to_address a)\<rparr>"

definition get_node_address :: "node_id \<Rightarrow> bluer_adapter \<Rightarrow> address option" where
  "get_node_address n a = bt_get (la_node_to_address a) n"

definition set_sync_data_callback :: "bluer_adapter \<Rightarrow> bluer_adapter" where
  "set_sync_data_callback a = a\<lparr>la_gatt_state := (la_gatt_state a)\<lparr>lg_sync_data_callback := True\<rparr>\<rparr>"

definition clear_sync_data_callback :: "bluer_adapter \<Rightarrow> bluer_adapter" where
  "clear_sync_data_callback a = a\<lparr>la_gatt_state := (la_gatt_state a)\<lparr>lg_sync_data_callback := False\<rparr>\<rparr>"

definition update_sync_state :: "bytes \<Rightarrow> bluer_adapter \<Rightarrow> bluer_adapter" where
  "update_sync_state d a = a\<lparr>la_gatt_state := (la_gatt_state a)\<lparr>lg_sync_state := d\<rparr>\<rparr>"

definition is_random_address :: "address \<Rightarrow> bool outcome" where
  "is_random_address addr = do { b \<leftarrow> read_u8 addr 0; ret (b AND 0xC0 = 0xC0) }"

definition la_init :: "ble_config \<Rightarrow> bluer_adapter \<Rightarrow> bluer_adapter" where
  "la_init c a = a\<lparr>la_config := Some c\<rparr>"

definition la_start_advertising :: "string + unit \<Rightarrow> bluer_adapter \<Rightarrow> bluer_adapter \<times> (ble_error + unit)" where
  "la_start_advertising advertise a =
     (case la_config a of
        None \<Rightarrow> (a, Inl (InvalidState ''Adapter not initialized''))
      | Some c \<Rightarrow>
          (case advertise of
             Inl e \<Rightarrow> (a, Inl (PlatformError (''Failed to start advertising: '' @ e)))
           | Inr _ \<Rightarrow> (a\<lparr>la_adv_handle := Some (build_advertisement c)\<rparr>, Inr ())))"

definition la_stop_advertising :: "bluer_adapter \<Rightarrow> bluer_adapter" where
  "la_stop_advertising a = a\<lparr>la_adv_handle := None\<rparr>"

definition la_start_scan :: "string + unit \<Rightarrow> string + unit \<Rightarrow> bluer_adapter \<Rightarrow> bluer_adapter \<times> (ble_error + unit)" where
  "la_start_scan set_filter discover a =
     (case set_filter of
        Inl e \<Rightarrow> (a, Inl (DiscoveryFailed (''Failed to set discovery filter: '' @ e)))
      | Inr _ \<Rightarrow>
          (case discover of
             Inl e \<Rightarrow> (a, Inl (DiscoveryFailed (''Failed to start discovery: '' @ e)))
           | Inr _ \<Rightarrow> (a\<lparr>la_discovery_tasks := la_discovery_tasks a @ [la_discovery_callback a]\<rparr>, Inr ())))"

definition la_stop_scan :: "bluer_adapter \<Rightarrow> bluer_adapter" where
  "la_stop_scan a = a"

definition la_start :: "string + unit \<Rightarrow> string + unit \<Rightarrow> string + unit \<Rightarrow> bluer_adapter \<Rightarrow> bluer_adapter \<times> (ble_error + unit)" where
  "la_start advertise set_filter discover a =
     (if la_config a = None then (a, Inl (InvalidState ''Adapter not initialized''))
      else (case la_start_advertising advertise a of
              (a1, Inl e) \<Rightarrow> (a1, Inl e)
            | (a1, Inr _) \<Rightarrow> la_start_scan set_filter discover a1))"

definition la_stop :: "bluer_adapter \<Rightarrow> bluer_adapter" where
  "la_stop a = (la_stop_scan (la_stop_advertising a))\<lparr>la_discovery_tasks := []\<rparr>"

text \<open>What a discovery task does with a device that was added; \<open>callback\<close> is the one the task keeps.\<close>

record observed_device =
  od_name :: "string option"
  od_rssi :: "16 word option"
  od_service_data :: "(bytes, bytes) btree_map option"

definition starts_with :: "string \<Rightarrow> string \<Rightarrow> bool" where
  "starts_with p s \<longleftrightarrow> take (length p) s = p"

definition observed_node_id :: "observed_device \<Rightarrow> node_id option" where
  "observed_node_id d =
     (let service_data = (case od_service_data d of Some m \<Rightarrow> m | None \<Rightarrow> [])
      in (case Option.bind (od_name d) parse_device_name of
            Some (_, n) \<Rightarrow> Some n
          | None \<Rightarrow>
              (case (case bt_get service_data SHORT_SERVICE_UUID of Some x \<Rightarrow> Some x | None \<Rightarrow> bt_get service_data PEAT_SERVICE_UUID) of
                 Some data \<Rightarrow> if length data \<ge> 4 then Some (from_le (rev (take 4 data))) else None
               | None \<Rightarrow> None)))"

definition observe :: "(address \<Rightarrow> string) \<Rightarrow> address \<Rightarrow> observed_device \<Rightarrow> discovered_device" where
  "observe shown addr d =
     (let service_data = (case od_service_data d of Some m \<Rightarrow> m | None \<Rightarrow> []);
          has_service = (bt_contains_key service_data PEAT_SERVICE_UUID \<or> bt_contains_key service_data SHORT_SERVICE_UUID);
          name_indicates = (case od_name d of Some n \<Rightarrow> starts_with ''PEAT_'' n \<or> starts_with ''PEAT-'' n | None \<Rightarrow> False);
          rssi = (case od_rssi d of Some r \<Rightarrow> r | None \<Rightarrow> 0)
      in \<lparr>dd_address = shown addr, dd_name = od_name d, dd_rssi = ucast rssi, dd_is_peat_node = (has_service \<or> name_indicates),
          dd_node_id = observed_node_id d, dd_adv_data = []\<rparr>)"

definition device_added ::
  "(address \<Rightarrow> string) \<Rightarrow> bool \<Rightarrow> address \<Rightarrow> observed_device \<Rightarrow> bluer_adapter \<Rightarrow> bluer_adapter \<times> discovered_device list" where
  "device_added shown callback addr d a =
     ((case observed_node_id d of
         Some n \<Rightarrow> a\<lparr>la_address_to_node := bt_insert addr n (la_address_to_node a),
                      la_node_to_address := bt_insert n addr (la_node_to_address a)\<rparr>
       | None \<Rightarrow> a),
      if callback then [observe shown addr d] else [])"

text \<open>The older recogniser, which nothing calls.\<close>

definition parse_peat_beacon :: "(address \<Rightarrow> string) \<Rightarrow> address \<Rightarrow> string option \<Rightarrow> 16 word \<Rightarrow> (bytes, bytes) btree_map \<Rightarrow> discovered_device" where
  "parse_peat_beacon shown addr name rssi service_data =
     (let n = Option.bind (Option.bind name (strip_prefix ''PEAT-'')) node_id_parse
      in \<lparr>dd_address = shown addr, dd_name = name, dd_rssi = ucast rssi,
          dd_is_peat_node = (bt_contains_key service_data PEAT_SERVICE_UUID \<or> n \<noteq> None), dd_node_id = n, dd_adv_data = []\<rparr>)"

section \<open>Connections\<close>

text \<open>
  What BlueZ answers to a connection attempt: the device handle, the connection, the restart of the
  advertisement, and the connected device.
\<close>

record connect_answers =
  ca_device :: "string + remote_device"
  ca_connect :: "string + unit"
  ca_advertise :: "string + unit"

definition la_connect ::
  "(address \<Rightarrow> connect_answers) \<Rightarrow> node_id \<Rightarrow> bluer_adapter \<Rightarrow> bluer_adapter \<times> adapter_note list \<times> (ble_error + connection_state)" where
  "la_connect bluez n a =
     (case get_node_address n a of
        None \<Rightarrow> (a, [], Inl (ConnectionFailed (''Unknown node ID: '' @ node_id_display n)))
      | Some addr \<Rightarrow>
          (case ca_device (bluez addr) of
             Inl e \<Rightarrow> (a, [], Inl (ConnectionFailed (''Failed to get device: '' @ e)))
           | Inr dev \<Rightarrow>
               let had = (la_adv_handle a \<noteq> None);
                   a1 = (if had then a\<lparr>la_adv_handle := None\<rparr> else a);
                   a2 = (if had then
                           (case (la_config a1, ca_advertise (bluez addr)) of
                              (Some c, Inr _) \<Rightarrow> a1\<lparr>la_adv_handle := Some (build_advertisement c)\<rparr>
                            | _ \<Rightarrow> a1)
                         else a1)
               in (case ca_connect (bluez addr) of
                     Inl e \<Rightarrow> (a2, [], Inl (ConnectionFailed (''Failed to connect: '' @ e)))
                   | Inr _ \<Rightarrow>
                       let conn = bluer_connection_new dev
                       in (a2\<lparr>la_connections := bt_insert n conn (la_connections a2)\<rparr>,
                           if la_connection_callback a2 then [NoteConnection n (EvConnected (cs_mtu conn) (cs_phy conn))] else [],
                           Inr conn))))"

definition la_disconnect :: "(node_id \<Rightarrow> string + unit) \<Rightarrow> node_id \<Rightarrow> bluer_adapter \<Rightarrow> bluer_adapter \<times> adapter_note list \<times> (ble_error + unit)" where
  "la_disconnect hang_up n a =
     (case bt_get (la_connections a) n of
        None \<Rightarrow> (a, [], Inr ())
      | Some c \<Rightarrow>
          let a1 = a\<lparr>la_connections := bt_remove n (la_connections a)\<rparr>
          in (case hang_up n of
                Inl e \<Rightarrow> (a1, [], Inl (ConnectionFailed (''Failed to disconnect: '' @ e)))
              | Inr _ \<Rightarrow>
                  (a1, if la_connection_callback a1 then [NoteConnection n (EvDisconnected LocalRequest)] else [], Inr ())))"

definition la_get_connection :: "node_id \<Rightarrow> bluer_adapter \<Rightarrow> connection_state option" where
  "la_get_connection n a = bt_get (la_connections a) n"

definition la_peer_count :: "bluer_adapter \<Rightarrow> nat" where
  "la_peer_count a = length (la_connections a)"

definition la_connected_peers :: "(node_id list \<Rightarrow> node_id list) \<Rightarrow> bluer_adapter \<Rightarrow> node_id list" where
  "la_connected_peers iter a = iter (map fst (la_connections a))"

definition la_set_discovery_callback :: "bool \<Rightarrow> bluer_adapter \<Rightarrow> bluer_adapter" where
  "la_set_discovery_callback cb a = a\<lparr>la_discovery_callback := cb\<rparr>"

definition la_set_connection_callback :: "bool \<Rightarrow> bluer_adapter \<Rightarrow> bluer_adapter" where
  "la_set_connection_callback cb a = a\<lparr>la_connection_callback := cb\<rparr>"

definition la_register_gatt_service :: "string + unit \<Rightarrow> bluer_adapter \<Rightarrow> bluer_adapter \<times> (ble_error + unit)" where
  "la_register_gatt_service serve a =
     (case la_config a of
        None \<Rightarrow> (a, Inl (InvalidState ''Adapter not initialized''))
      | Some c \<Rightarrow>
          let a1 = a\<lparr>la_gatt_state := lg_init (ble_config.bc_node_id c) (la_gatt_state a)\<rparr>
          in (case serve of
                Inl e \<Rightarrow> (a1, Inl (GattError (''Failed to register GATT service: '' @ e)))
              | Inr _ \<Rightarrow> (a1\<lparr>la_gatt_handle := Some gatt_application\<rparr>, Inr ())))"

definition la_unregister_gatt_service :: "bluer_adapter \<Rightarrow> bluer_adapter" where
  "la_unregister_gatt_service a = a\<lparr>la_gatt_handle := None\<rparr>"

text \<open>The default of the adapter interface (\<^verbatim>\<open>platform/mod.rs\<close>), which this adapter keeps.\<close>

definition default_write_to_peer :: "'a \<Rightarrow> node_id \<Rightarrow> bytes \<Rightarrow> bytes \<Rightarrow> 'a \<times> (ble_error + unit)" where
  "default_write_to_peer a n uuid d = (a, Inl (NotSupported ''write_to_peer not implemented for this adapter''))"

section \<open>Lemmas\<close>

lemma le32_roundtrip: "from_le (le32 n) = n"
  using from_le_to_le [where n = 4 and w = n] by simp

lemma short_uuid: "SHORT_SERVICE_UUID = ble_uuid_from_u16 0xF47A"
  by (simp add: SHORT_SERVICE_UUID_def ble_uuid_from_u16_def)

lemma bt_get_single [simp]: "bt_get (bt_insert k v []) k = Some v"
  by (simp add: bt_get_def)

lemma observe_name: "observed_node_id \<lparr>od_name = Some (''PEAT-'' @ node_id_display n), od_rssi = r, od_service_data = m\<rparr> = Some n"
  by (simp add: observed_node_id_def legacy_name_parsed del: append.simps)

lemma observe_service_data:
  "observed_node_id \<lparr>od_name = None, od_rssi = r, od_service_data = Some (adv_service_data (build_advertisement c))\<rparr>
     = Some (ble_config.bc_node_id c)"
  by (simp add: observed_node_id_def build_advertisement_def Let_def le32_roundtrip)

text \<open>Connecting to a known node asks BlueZ about the node's address and about nothing else.\<close>

lemma connect_one_address:
  assumes "get_node_address n a = Some addr" "bluez' addr = bluez addr"
  shows "la_connect bluez' n a = la_connect bluez n a"
  unfolding la_connect_def assms(1) option.case assms(2) ..

lemma connect_reaches:
  assumes "get_node_address n a = Some addr" "ca_device (bluez addr) = Inr dev" "ca_connect (bluez addr) = Inr ()"
  shows "\<exists>a' notes. la_connect bluez n a = (a', notes, Inr (bluer_connection_new dev)) \<and>
    la_get_connection n a' = Some (bluer_connection_new dev)"
  using assms by (simp add: la_connect_def la_get_connection_def Let_def)

text \<open>
  C19: BlueZ nodes find each other. When an adapter sees the advertisement of another one, with its name or
  with its service data or with both, whatever the mesh is called, it reports a Peat node with the id from
  the sender's configuration, and a connect to that id that follows goes to the address where it was seen:
  it depends on BlueZ's answers about that address alone, and when BlueZ connects, the connection to that
  device is returned and kept under the id.
\<close>

theorem linux_nodes_found:
  assumes "name = Some (the (adv_local_name (build_advertisement c))) \<or>
    name = None \<and> sdata = Some (adv_service_data (build_advertisement c))"
  shows "let n = ble_config.bc_node_id c;
             (a', found) = device_added shown True addr \<lparr>od_name = name, od_rssi = r, od_service_data = sdata\<rparr> a
         in map dd_node_id found = [Some n] \<and> map dd_is_peat_node found = [True] \<and> get_node_address n a' = Some addr
          \<and> bt_get (la_address_to_node a') addr = Some n
          \<and> (\<forall>bluez bluez'. bluez' addr = bluez addr \<longrightarrow> la_connect bluez' n a' = la_connect bluez n a')
          \<and> (\<forall>bluez dev. ca_device (bluez addr) = Inr dev \<and> ca_connect (bluez addr) = Inr () \<longrightarrow>
               (\<exists>a'' notes. la_connect bluez n a' = (a'', notes, Inr (bluer_connection_new dev)) \<and>
                  la_get_connection n a'' = Some (bluer_connection_new dev)))"
proof -
  let ?d = "\<lparr>od_name = name, od_rssi = r, od_service_data = sdata\<rparr>"
  have n: "observed_node_id ?d = Some (ble_config.bc_node_id c)"
    using assms observe_name observe_service_data by (auto simp: build_advertisement_def Let_def)
  have p: "dd_is_peat_node (observe shown addr ?d)"
    using assms by (auto simp: observe_def build_advertisement_def starts_with_def bt_contains_key_def Let_def)
  let ?s = "device_added shown True addr ?d a"
  have found: "map dd_node_id (snd ?s) = [Some (ble_config.bc_node_id c)]" "map dd_is_peat_node (snd ?s) = [True]"
    and known: "get_node_address (ble_config.bc_node_id c) (fst ?s) = Some addr"
      "bt_get (la_address_to_node (fst ?s)) addr = Some (ble_config.bc_node_id c)"
    using n p by (simp_all add: device_added_def get_node_address_def observe_def Let_def)
  have "\<forall>bluez bluez'. bluez' addr = bluez addr \<longrightarrow>
      la_connect bluez' (ble_config.bc_node_id c) (fst ?s) = la_connect bluez (ble_config.bc_node_id c) (fst ?s)"
    using connect_one_address [OF known(1)] by blast
  moreover have "\<forall>bluez dev. ca_device (bluez addr) = Inr dev \<and> ca_connect (bluez addr) = Inr () \<longrightarrow>
      (\<exists>a'' notes. la_connect bluez (ble_config.bc_node_id c) (fst ?s) = (a'', notes, Inr (bluer_connection_new dev)) \<and>
         la_get_connection (ble_config.bc_node_id c) a'' = Some (bluer_connection_new dev))"
    using connect_reaches [OF known(1)] by blast
  ultimately show ?thesis using found known unfolding Let_def case_prod_beta by (intro conjI)
qed

definition demo_device :: remote_device where
  "demo_device = \<lparr>rd_services = Inr [], rd_rssi = Some 40, rd_disconnect = Inr ()\<rparr>"

definition demo_bluez :: "address \<Rightarrow> connect_answers" where
  "demo_bluez addr =
     \<lparr>ca_device = Inr demo_device, ca_connect = (if addr = [1, 2, 3, 4, 5, 6] then Inr () else Inl []), ca_advertise = Inr ()\<rparr>"

theorem linux_nodes_found_witness:
  "let (a', found) = device_added (\<lambda>_. []) True [1, 2, 3, 4, 5, 6]
         \<lparr>od_name = None, od_rssi = None, od_service_data = Some (adv_service_data (build_advertisement (ble_config_new 77)))\<rparr>
         (case bluer_adapter_new (Inr (Inr (Inr True, Inr (), None))) of Inr a \<Rightarrow> a)
   in map dd_node_id found = [Some 77] \<and> get_node_address 77 a' = Some [1, 2, 3, 4, 5, 6] \<and>
      (\<exists>a'' notes. la_connect demo_bluez 77 a' = (a'', notes, Inr (bluer_connection_new demo_device)))"
proof -
  let ?c = "ble_config_new 77"
  let ?sd = "Some (adv_service_data (build_advertisement ?c))"
  have h: "None = Some (the (adv_local_name (build_advertisement ?c))) \<or>
      None = None \<and> ?sd = Some (adv_service_data (build_advertisement ?c))" by simp
  have n: "ble_config.bc_node_id ?c = 77" by (simp add: ble_config_new_def)
  have dev: "ca_device (demo_bluez [1, 2, 3, 4, 5, 6]) = Inr demo_device" "ca_connect (demo_bluez [1, 2, 3, 4, 5, 6]) = Inr ()"
    by (simp_all add: demo_bluez_def)
  show ?thesis
    using linux_nodes_found [OF h, of "\<lambda>_. []" "[1, 2, 3, 4, 5, 6]" None
        "case bluer_adapter_new (Inr (Inr (Inr True, Inr (), None))) of Inr a \<Rightarrow> a"] dev
    unfolding Let_def case_prod_beta n by blast
qed

text \<open>Packets of the library's own advertiser carry another identifier and are not recognised without a name.\<close>

lemma library_service_unknown:
  "observe shown addr \<lparr>od_name = None, od_rssi = r, od_service_data = Some (bt_insert (ble_uuid_from_u16 0xA1B2) d [])\<rparr>
     = \<lparr>dd_address = shown addr, dd_name = None, dd_rssi = ucast (case r of Some r \<Rightarrow> r | None \<Rightarrow> 0), dd_is_peat_node = False,
        dd_node_id = None, dd_adv_data = []\<rparr>"
  by (simp add: observe_def observed_node_id_def bt_contains_key_def bt_get_def ble_uuid_from_u16_def SHORT_SERVICE_UUID_def
      PEAT_SERVICE_UUID_def Let_def)

text \<open>
  When an address passes from one node to another, the entry of the first node stays: a connection
  to it goes to the device of the second and is stored under the first.
\<close>

lemma stale_address:
  assumes "n1 \<noteq> n2" "a2 = register_node_address n2 addr (register_node_address n1 addr a)"
  shows "get_node_address n1 a2 = Some addr" "bt_get (la_address_to_node a2) addr = Some n2"
  using assms by (simp_all add: register_node_address_def get_node_address_def)

lemma connect_keeps_advertising:
  assumes "la_adv_handle a = Some (build_advertisement c)" "la_config a = Some c" "ca_advertise (bluez addr) = Inr ()"
    "get_node_address n a = Some addr" "la_connect bluez n a = (a', ns, r)"
  shows "la_adv_handle a' = la_adv_handle a"
  using assms by (auto simp: la_connect_def Let_def split: sum.splits if_splits)

text \<open>
  Stopping the scan alone leaves the discovery task running; only \<open>stop\<close> ends it.
\<close>

lemma stop_scan_keeps_task: "la_discovery_tasks (la_stop_scan a) = la_discovery_tasks a"
  by (simp add: la_stop_scan_def)

lemma two_scans_report_twice:
  assumes "la_discovery_callback a"
  shows "la_discovery_tasks (fst (la_start_scan (Inr ()) (Inr ()) (la_stop_scan (fst (la_start_scan (Inr ()) (Inr ()) a)))))
    = la_discovery_tasks a @ [True, True]"
  using assms by (simp add: la_start_scan_def la_stop_scan_def)

text \<open>The characteristic the transport names is none of those a BlueZ node serves.\<close>

lemma transport_char_not_served: "ble_uuid_from_u16 CHAR_SYNC_DATA_UUID \<notin> lc_uuid ` set gatt_application"
  using transport_writes_elsewhere by (simp add: gatt_application_def)

text \<open>No adapter but the simulated one and Apple's writes to a peer, so the transport over this one fails.\<close>

lemma linux_transport_cannot_send:
  assumes "la_get_connection n (tr_adapter t) = Some c" "CHUNK_HEADER_SIZE < unat (cs_mtu c)"
  shows "\<exists>e. send_to (\<lambda>a n. map_option cs_mtu (la_get_connection n a)) default_write_to_peer t n data = (t, Inl (NotSupported e))"
proof -
  have "chunk_data data (unat (cs_mtu c)) 0 \<noteq> []"
    using chunk_data_chunks [OF assms(2)] payloads_neq_Nil [OF assms(2)] by simp
  then obtain k ks where "chunk_data data (unat (cs_mtu c)) 0 = k # ks" by (cases "chunk_data data (unat (cs_mtu c)) 0") auto
  then show ?thesis using assms(1) by (simp add: send_to_def default_write_to_peer_def)
qed

end
