(* ===== verification/Spec2Isabelle.thy ===== *)
theory Spec2Isabelle
  imports Document_Sync Delta_Document Relay Sync_Protocol Mesh_Manager Discovery Peer_Manager
    Peer_Liveness Gossip Peer_Session Gatt_Protocol Gatt_Service Radio_Power Phy Address_Rotation
    Credential_Store Peat_Node Document_Store Transport
    Esp32 Linux_Adapter
begin

text \<open>
  \<^bold>\<open>Verification of peat-btle.\<close>

  peat-btle replicates a small document over a Bluetooth Low Energy mesh. Every node keeps a
  few replicated data types (a grow-only counter of activity, an emergency with
  acknowledgements, a bounded set of chat messages) and the state of its own sensor; it
  broadcasts them as one document, merges the documents it receives, and relays messages over
  several hops. Around this core stand the discovery of nodes by advertising beacons, the
  management of peers and of the tree of parents and children, end-to-end encrypted sessions, the
  registry of identities, and the scheduling of the radio. The input of every parser comes from
  the air.

  \<^bold>\<open>Conventions.\<close> All source paths are below \<^verbatim>\<open>src/src\<close>. Structs are records, enums are
  datatypes, \<open>u8\<close> to \<open>u64\<close> and \<open>i8\<close> are words of that width, so addition and multiplication wrap
  as in a release build; saturating and checked operations are written out. A function that can
  panic (slice or index out of range, division by zero, assertion) returns an \<open>outcome\<close>: \<open>panic\<close>
  (\<open>None\<close>) or \<open>ret x\<close> (\<open>Some x\<close>), so freedom of panics is a theorem and never an assumption. A Rust
  \<open>Option\<close> result inside is a second option. \<open>usize\<close> is \<open>nat\<close>, with the width as an argument where
  the code adds or multiplies untrusted lengths. Ordered and hash maps are sorted association
  lists (theory Ordered_Map); where the iteration order of a hash map is visible, it is an
  argument. Interior locks are left out: every public method is one step, and properties of
  interleavings are stated over arbitrary sequences of steps. Callbacks are lists of emitted
  events. Clocks and random numbers are arguments. Third-party cryptography (X25519, HKDF,
  ChaCha20-Poly1305, Ed25519, BLAKE3) is a record of functions; what the code relies on
  (\<open>dh_agrees\<close>, \<open>aead_correct\<close>, \<open>sig_correct\<close>) are named hypotheses, and the witnesses instantiate
  them with concrete functions. Strings are byte lists with \<open>utf8_valid\<close> where validity is
  checked, character lists elsewhere. Floats are IEEE bit patterns with the comparisons and the
  correctly rounded arithmetic the code uses (theory Float32).

  \<^bold>\<open>Library theories.\<close> Prelude: words, little-endian codecs, readers that may panic,
  saturating arithmetic, chunks, maxima by key. Ordered_Map: maps and their merge. Convergence:
  the locale \<open>join_crdt\<close> of mergeable states, the theorem that a merge of many replicas depends only
  on their set, and the combinators for options and pairs. Float32, Utf8.

  \<^bold>\<open>Replicated data\<close> (\<^verbatim>\<open>sync/crdt.rs\<close>, \<^verbatim>\<open>document.rs\<close>, \<^verbatim>\<open>document_sync.rs\<close>).
  Crdt_Counter: \<open>LwwRegister\<close> and \<open>GCounter\<close>. Crdt_Data: \<open>Position\<close>, \<open>HealthStatus\<close>, \<open>Peripheral\<close>,
  \<open>EmergencyEvent\<close>. Chat: \<open>ChatMessage\<close> and \<open>ChatCRDT\<close>. Document: \<open>PeatDocument\<close>. Document_Sync: the
  node state \<open>DocumentSync\<close> with every method, and a mesh of nodes as the step relation \<open>mesh_step\<close>
  (any method call, sending, and reception of any document sent before, so loss, delay,
  duplication and reordering are all covered). The theorems: convergence of each type and of the
  whole document, round trips and totality of the parsers, delivery of a document, and the
  invariants that counts are truthful and never decrease. Known exceptions are theorems as well:
  emergencies with equal time stamps never reconcile.

  \<^bold>\<open>Deltas\<close> (\<^verbatim>\<open>sync/delta.rs\<close>, \<^verbatim>\<open>sync/delta_document.rs\<close>, \<^verbatim>\<open>sync/batch.rs\<close>,
  \<^verbatim>\<open>sync/protocol.rs\<close>). Delta: per-peer filters and vector clocks. Delta_Document: operations
  and their codec. Sync_Protocol: batching, chunking, reassembly and the sync protocol; the runs
  \<open>reassemble_run\<close> and \<open>receive_run\<close> deliver chunks in any order.

  \<^bold>\<open>Relaying\<close> (\<^verbatim>\<open>relay.rs\<close>). Relay: envelopes with a hop limit, the cache of seen messages in its
  two builds.

  \<^bold>\<open>Topology\<close> (\<^verbatim>\<open>lib.rs\<close>, \<^verbatim>\<open>mesh/\<close>, \<^verbatim>\<open>discovery/\<close>). Node_Id: identifiers and
  levels. Mesh_Topology: the tree and routing. Mesh_Manager: the manager, with \<open>manager_step\<close> as its
  step relation. Beacon: plain and encrypted beacons. Discovery: advertiser and scanner.

  \<^bold>\<open>Peers\<close> (\<^verbatim>\<open>peer.rs\<close>, \<^verbatim>\<open>peer_manager.rs\<close>, \<^verbatim>\<open>reconnect.rs\<close>,
  \<^verbatim>\<open>peer_lifetime.rs\<close>, \<^verbatim>\<open>gossip.rs\<close>, \<^verbatim>\<open>address_rotation.rs\<close>). Peer_State: peers and the
  connection graph. Peer_Manager: the peer table with \<open>pm_step\<close>. Peer_Liveness: reconnection and
  staleness. Gossip: the choice of receivers. Address_Rotation: names and changing addresses.

  \<^bold>\<open>GATT\<close> (\<^verbatim>\<open>gatt/\<close>). Gatt_Characteristics: values and codecs. Gatt_Protocol: fragmentation;
  \<open>proto_run\<close> feeds fragments in any order, mixed with other data. Gatt_Service: the service state.

  \<^bold>\<open>Radio\<close> (\<^verbatim>\<open>power/\<close>, \<^verbatim>\<open>phy/\<close>). Radio_Power: profiles and scheduler, driven by
  \<open>drive\<close>, and the estimates of duty cycle and battery life. Phy: choice of the radio mode, its
  controller and its statistics.

  \<^bold>\<open>Security\<close> (\<^verbatim>\<open>security/\<close>). Peer_Session: key exchange, sessions, replay window, mesh key.
  Identity: identities, attestations, signed payloads, genesis, membership tokens.
  Identity_Registry: trust on first use and the registry files. Credential_Store: persisted state;
  the locale \<open>secure_storage\<close> is the storage interface, interpreted by the in-memory storage.

  \<^bold>\<open>The node\<close> (\<^verbatim>\<open>peat_mesh.rs\<close>, \<^verbatim>\<open>registry.rs\<close>, \<^verbatim>\<open>observer.rs\<close>).
  Document_Registry: handlers of application documents. Peat_Mesh: the state of a node, which is
  the product of the components above, its construction and restart, mesh-wide encryption, relay
  decisions, delta documents, user actions, callbacks of the platform and the periodic tick.
  Peat_Receive: the four functions that receive data. Peat_Node: theorems about the whole. The
  relation \<open>node_step\<close> has one rule per call that changes the state; \<open>node_step_evolves\<close> shows that
  each call moves each component by steps of that component's own step relation (\<open>pm_step\<close>,
  \<open>graph_step\<close>, \<open>sync_step\<close>, \<open>session_step\<close>, \<open>seen_step\<close>). The locale \<open>stepwise\<close> is what a component
  promises: its steps keep its invariant; it is interpreted by the five components, and with it
  their invariants hold in every reachable state of a node. The other theorems: reception never
  panics, strict encryption, delivery of documents directly and along a path of relays, restart,
  and three ways in which received data is lost (a version byte taken for a marker, chat messages
  encrypted twice, counts of delta documents).

  \<^bold>\<open>Around the node\<close> (\<^verbatim>\<open>config.rs\<close>, \<^verbatim>\<open>persistence.rs\<close>, \<^verbatim>\<open>transport.rs\<close>,
  \<^verbatim>\<open>platform/mock.rs\<close>). Ble_Config: presets, device names and the embedded secret, with
  the device names that can be read back. Document_Store: the locale \<open>document_store\<close> is the trait,
  interpreted by the store in memory, the store in a file and the shared store over both.
  Transport: the transport over a radio adapter; the locale \<open>ble_link\<close> is what it needs of the
  adapter, and the simulated adapter with its network provides it. What is sent over a link is put
  together again by the receiver; the lemmas beside it state what goes wrong: an interrupted message
  joins the next, the characteristic written is none of the service, and a link with a small MTU
  swallows messages.

  \<^bold>\<open>Radios\<close> (\<^verbatim>\<open>platform/esp32.rs\<close>, \<^verbatim>\<open>platform/linux/\<close>). Esp32: the callbacks of
  the NimBLE stack as functions of the shared state, with return codes as arguments and calls to the
  stack as results; \<open>nimble_step\<close> is their step relation, and the search of advertising data is
  proved equal to a reading field by field. Linux_Connection: a connection over BlueZ, whose write
  queue is served by several tasks; \<open>wq_step\<close> interleaves them at every lock and wait, and the
  theorems are mutual exclusion, order, and that every call returns, or blocks for ever once a task
  was dropped. Linux_Adapter: advertisement, recognition, connections. Lemmas relate these adapters
  to the transport and to each other: the library's advertiser and the ESP32 search use different
  identifiers, and only some adapters let the transport write.

  \<^bold>\<open>Bounds.\<close> No fuel is used: every loop of the code is structural recursion or a \<open>function\<close> with
  a termination proof; the loop of the write queue, which other tasks feed, is a step relation with a
  measure that bounds its runs. Size limits in the theorems are those of the wire formats (16-bit
  section lengths, 255 fragments, 32-bit lengths of stored files).

  \<^bold>\<open>Not modelled.\<close> The adapters for CoreBluetooth, Android and Windows and the foreign function
  interfaces: they pass calls on to frameworks that are not part of the sources. The stacks NimBLE and
  BlueZ themselves: their answers are arguments. The estimate of a distance from a signal strength
  uses the power function of the platform's mathematics library and is a parameter of the scanner's
  filter.
\<close>

end
